(* ===== verification/Go_Prelude.thy ===== *)
theory Go_Prelude
  imports Main "HOL-Library.Word" "HOL-Library.Sublist"
begin

text \<open>
  The vocabulary every component theory shares: Go strings are byte strings (\<open>string\<close>),
  Go's 64-bit \<open>int\<close> is \<open>int\<close> with the wrap-around written out in \<open>int64\<close> where the code
  can overflow, an \<open>(T, error)\<close> pair is a value of \<open>'a res\<close>, and the errors the program
  compares with \<open>errors.Is\<close> are values of \<open>sentinel\<close>. The second half holds the generic
  facts on tables (lists of rows with a key) that carry the database proofs.
\<close>

named_theorems table_simps \<open>rewriting of updates, deletions and lookups on keyed tables\<close>
named_theorems result_elims \<open>inversion of results of fallible operations\<close>

section \<open>Errors as values\<close>

text \<open>The package-level \<open>errors.New\<close> values that callers compare by identity.\<close>

datatype sentinel =
    ErrNoMachine | ErrInvalidState | ErrMachineLimit | ErrAmbiguous | ErrUnknownTemplate
  | ErrNoCapacity | ErrStateConflict | ErrSessionExportFailed | ErrInvalidNetworkPolicy
  | ErrNoRows | ErrUnknownMachine | ErrNotRunning | ErrGuestUnreachable | ErrSecretNotFound
  | DriverErrUnknownMachine | ErrInvalidSession | ErrInvalidToken | ErrInvalidBearer | ErrNoBearerValidator
  | ErrBadState | ErrReconnectGitHub | ErrBadRefreshToken | ErrUnauthorized | ErrNoLink | ErrNoChannel
  | ErrNoPRCommits | ErrPRAlreadyExists
  | GiteaErrBadToken | GiteaErrNotFound | GiteaErrPRAlreadyExists | GiteaErrNoPRCommits | ErrCloneHost

text \<open>
  An error value: a sentinel, one of the two error structs of the machine package, a plain
  message, or \<open>fmt.Errorf\<close> with a \<open>%w\<close> operand between two pieces of text.
\<close>

datatype error =
    Sentinel sentinel
  | ErrInvalidTransition string string
  | InvalidResourcesError string
  | ErrorText string
  | Errorf string error string

type_synonym 'a res = "error + 'a"

fun sentinel_text :: "sentinel \<Rightarrow> string" where
  "sentinel_text ErrNoMachine = ''machine: none for user''"
| "sentinel_text ErrInvalidState = ''machine: invalid state for op''"
| "sentinel_text ErrMachineLimit = ''machine: per-user limit reached''"
| "sentinel_text ErrAmbiguous = ''machine: which one (multiple)''"
| "sentinel_text ErrUnknownTemplate = ''machine: unknown template''"
| "sentinel_text ErrNoCapacity = ''machine: no host with sufficient capacity''"
| "sentinel_text ErrStateConflict = ''machine: state conflict (not in expected state)''"
| "sentinel_text ErrSessionExportFailed = ''machine: session export failed''"
| "sentinel_text ErrInvalidNetworkPolicy = ''machine: invalid network policy''"
| "sentinel_text ErrNoRows = ''no rows in result set''"
| "sentinel_text ErrUnknownMachine = ''nodeclient: agent does not know this machine''"
| "sentinel_text ErrNotRunning = ''nodeclient: machine not running''"
| "sentinel_text ErrGuestUnreachable = ''nodeclient: guest unreachable''"
| "sentinel_text ErrSecretNotFound = ''secrets: not found''"
| "sentinel_text DriverErrUnknownMachine = ''driver: unknown machine''"
| "sentinel_text ErrInvalidSession = ''session: invalid or expired''"
| "sentinel_text ErrInvalidToken = ''token: invalid, expired, or revoked''"
| "sentinel_text ErrInvalidBearer = ''auth: invalid or expired IdP access token''"
| "sentinel_text ErrNoBearerValidator = ''no validator configured for this bearer kind''"
| "sentinel_text ErrBadState = ''invalid or expired state''"
| "sentinel_text ErrReconnectGitHub = ''github: reconnect required''"
| "sentinel_text ErrBadRefreshToken = ''github: bad refresh token''"
| "sentinel_text ErrUnauthorized = ''github: unauthorized''"
| "sentinel_text ErrNoLink = ''githost: no credential stored for host''"
| "sentinel_text ErrNoChannel = ''guestctl: no control channel for machine''"
| "sentinel_text ErrNoPRCommits = ''github: no commits between base and head''"
| "sentinel_text ErrPRAlreadyExists = ''github: pull request already exists''"
| "sentinel_text GiteaErrBadToken = ''gitea: token rejected''"
| "sentinel_text GiteaErrNotFound = ''gitea: not found''"
| "sentinel_text GiteaErrPRAlreadyExists = ''gitea: pull request already exists''"
| "sentinel_text GiteaErrNoPRCommits = ''gitea: no commits between base and head''"
| "sentinel_text ErrCloneHost = ''host not allowlisted''"

text \<open>The \<open>Error()\<close> method. The arrow of \<open>ErrInvalidTransition\<close> is its UTF-8 encoding.\<close>

fun Error :: "error \<Rightarrow> string" where
  "Error (Sentinel s) = sentinel_text s"
| "Error (ErrInvalidTransition a b) =
     ''machine: illegal transition '' @ a @ [CHR 0xE2, CHR 0x86, CHR 0x92] @ b"
| "Error (InvalidResourcesError d) = ''machine: invalid resources: '' @ d"
| "Error (ErrorText t) = t"
| "Error (Errorf pre e post) = pre @ Error e @ post"

text \<open>\<open>errors.Is\<close> against a sentinel and \<open>errors.As\<close> against \<open>ErrInvalidTransition\<close>.\<close>

fun errors_Is :: "error \<Rightarrow> sentinel \<Rightarrow> bool" where
  "errors_Is (Sentinel s) t = (s = t)"
| "errors_Is (Errorf pre e post) t = errors_Is e t"
| "errors_Is _ t = False"

fun errors_As_InvalidTransition :: "error \<Rightarrow> bool" where
  "errors_As_InvalidTransition (ErrInvalidTransition a b) = True"
| "errors_As_InvalidTransition (Errorf pre e post) = errors_As_InvalidTransition e"
| "errors_As_InvalidTransition _ = False"

section \<open>Numbers and their decimal text\<close>

text \<open>Two's complement wrap-around of Go's 64-bit \<open>int\<close> and \<open>int64\<close>, and of \<open>int32\<close>.\<close>

definition int64 :: "int \<Rightarrow> int" where
  "int64 x = (x + 2 ^ 63) mod 2 ^ 64 - 2 ^ 63"

definition int32 :: "int \<Rightarrow> int" where
  "int32 x = (x + 2 ^ 31) mod 2 ^ 32 - 2 ^ 31"

lemma int64_id [simp]: "- (2 ^ 63) \<le> x \<Longrightarrow> x < 2 ^ 63 \<Longrightarrow> int64 x = x"
  by (simp add: int64_def)

lemma int64_bounds: "- (2 ^ 63) \<le> int64 x \<and> int64 x < 2 ^ 63"
  by (simp add: int64_def)

lemma int32_id [simp]: "- (2 ^ 31) \<le> x \<Longrightarrow> x < 2 ^ 31 \<Longrightarrow> int32 x = x"
  by (simp add: int32_def)

definition is_digit :: "char \<Rightarrow> bool" where
  "is_digit c = (48 \<le> (of_char c :: nat) \<and> (of_char c :: nat) \<le> 57)"

definition digit_char :: "nat \<Rightarrow> char" where
  "digit_char d = char_of (48 + d)"

definition digit_val :: "char \<Rightarrow> nat" where
  "digit_val c = of_char c - 48"

lemma of_char_digit_char: "d < 10 \<Longrightarrow> (of_char (digit_char d) :: nat) = 48 + d"
  by (simp add: digit_char_def)

lemma digit_val_digit_char [simp]: "d < 10 \<Longrightarrow> digit_val (digit_char d) = d"
  by (simp add: digit_val_def of_char_digit_char)

lemma is_digit_digit_char [simp]: "d < 10 \<Longrightarrow> is_digit (digit_char d)"
  by (simp add: is_digit_def of_char_digit_char)

fun nat_str :: "nat \<Rightarrow> string" where
  "nat_str n = (if n < 10 then [digit_char n] else nat_str (n div 10) @ [digit_char (n mod 10)])"

declare nat_str.simps [simp del]

lemma digit_chars:
  "char_of (48 :: nat) = CHR ''0''" "char_of (49 :: nat) = CHR ''1''" "char_of (50 :: nat) = CHR ''2''"
  "char_of (51 :: nat) = CHR ''3''" "char_of (52 :: nat) = CHR ''4''" "char_of (53 :: nat) = CHR ''5''"
  "char_of (54 :: nat) = CHR ''6''" "char_of (55 :: nat) = CHR ''7''" "char_of (56 :: nat) = CHR ''8''"
  "char_of (57 :: nat) = CHR ''9''"
  by (simp_all add: char_of_def bit_Suc_0_iff)

definition digits_val :: "string \<Rightarrow> nat" where
  "digits_val s = foldl (\<lambda>a c. 10 * a + digit_val c) 0 s"

lemma nat_str_nonempty [simp]: "nat_str n \<noteq> []"
  by (subst nat_str.simps) simp

lemma nat_str_digits: "list_all is_digit (nat_str n)"
proof (induction n rule: nat_str.induct)
  case (1 n)
  then show ?case
    by (cases "n < 10") (simp_all add: nat_str.simps [of n])
qed

lemma digits_val_snoc: "digits_val (s @ [c]) = 10 * digits_val s + digit_val c"
  by (simp add: digits_val_def)

lemma digits_val_nat_str [simp]: "digits_val (nat_str n) = n"
proof (induction n rule: nat_str.induct)
  case (1 n)
  show ?case
  proof (cases "n < 10")
    case True
    then show ?thesis by (simp add: nat_str.simps [of n] digits_val_def)
  next
    case False
    with "1.IH" have "digits_val (nat_str (n div 10)) = n div 10" by simp
    with False show ?thesis
      by (simp add: nat_str.simps [of n] digits_val_snoc)
  qed
qed

text \<open>\<open>fmt.Sprintf("%d", i)\<close> and \<open>strconv.Atoi\<close> (which rejects values outside 64 bits).\<close>

definition itoa :: "int \<Rightarrow> string" where
  "itoa i = (if i < 0 then CHR ''-'' # nat_str (nat (- i)) else nat_str (nat i))"

definition atoi_digits :: "bool \<Rightarrow> string \<Rightarrow> int option" where
  "atoi_digits neg ds =
     (if ds = [] \<or> \<not> list_all is_digit ds then None
      else let v = (if neg then - int (digits_val ds) else int (digits_val ds))
           in if - (2 ^ 63) \<le> v \<and> v < 2 ^ 63 then Some v else None)"

definition Atoi :: "string \<Rightarrow> int option" where
  "Atoi s = (case s of
       [] \<Rightarrow> None
     | c # cs \<Rightarrow> if c = CHR ''-'' then atoi_digits True cs
                 else if c = CHR ''+'' then atoi_digits False cs
                 else atoi_digits False s)"

lemma is_digit_not_sign: "is_digit c \<Longrightarrow> c \<noteq> CHR ''-'' \<and> c \<noteq> CHR ''+''"
  by (auto simp: is_digit_def)

lemma Atoi_of_digits:
  assumes "ds \<noteq> []" and "list_all is_digit ds"
  shows "Atoi ds = (if digits_val ds < 2 ^ 63 then Some (int (digits_val ds)) else None)"
proof -
  obtain c cs where ds: "ds = c # cs" using assms(1) by (cases ds) auto
  with assms(2) have "c \<noteq> CHR ''-''" "c \<noteq> CHR ''+''"
    using is_digit_not_sign by auto
  moreover have "(int (digits_val ds) < 2 ^ 63) = (digits_val ds < 2 ^ 63)"
    by (metis of_nat_less_iff of_nat_numeral of_nat_power)
  ultimately show ?thesis
    using assms by (simp add: Atoi_def atoi_digits_def ds Let_def)
qed

lemma Atoi_itoa: "- (2 ^ 63) \<le> i \<Longrightarrow> i < 2 ^ 63 \<Longrightarrow> Atoi (itoa i) = Some i"
proof (cases "i < 0")
  case True
  assume "- (2 ^ 63) \<le> i" "i < 2 ^ 63"
  with True show ?thesis
    by (simp add: itoa_def Atoi_def atoi_digits_def nat_str_digits Let_def)
next
  case False
  assume "- (2 ^ 63) \<le> i" "i < 2 ^ 63"
  with False have "nat i < 2 ^ 63" by (simp add: nat_less_iff)
  with False show ?thesis
    by (simp add: itoa_def Atoi_of_digits nat_str_digits)
qed

section \<open>Hexadecimal text\<close>

definition nibble_char :: "nat \<Rightarrow> char" where
  "nibble_char d = (if d < 10 then char_of (48 + d) else char_of (87 + d))"

definition hex_encode :: "8 word list \<Rightarrow> string" where
  "hex_encode bs = concat (map (\<lambda>b. [nibble_char (unat b div 16), nibble_char (unat b mod 16)]) bs)"

lemma nibble_char_inj: "a < 16 \<Longrightarrow> b < 16 \<Longrightarrow> nibble_char a = nibble_char b \<Longrightarrow> a = b"
proof -
  assume ab: "a < 16" "b < 16" and eq: "nibble_char a = nibble_char b"
  have "(of_char (nibble_char d) :: nat) = (if d < 10 then 48 + d else 87 + d)" if "d < 16" for d
    using that by (simp add: nibble_char_def)
  with ab arg_cong [OF eq, of "of_char :: char \<Rightarrow> nat"] show "a = b"
    by (auto split: if_splits)
qed

lemma length_hex_encode [simp]: "length (hex_encode bs) = 2 * length bs"
  by (induction bs) (simp_all add: hex_encode_def)

lemma hex_encode_inj: "hex_encode xs = hex_encode ys \<Longrightarrow> xs = ys"
proof (induction xs arbitrary: ys)
  case Nil
  then have "length (hex_encode ys) = 0" by (metis length_hex_encode list.size(3) mult_0_right)
  then show ?case by simp
next
  case (Cons x xs)
  from Cons.prems have "length (hex_encode (x # xs)) = length (hex_encode ys)" by simp
  then obtain y ys' where ys: "ys = y # ys'" by (cases ys) auto
  have "unat b < 2 ^ LENGTH(8)" for b :: "8 word"
    by (rule unsigned_less)
  then have "unat b < 256" for b :: "8 word" by simp
  then have lt: "unat b div 16 < 16" "unat b mod 16 < 16" for b :: "8 word"
    by (simp_all add: less_mult_imp_div_less)
  from Cons.prems ys have
    "nibble_char (unat x div 16) = nibble_char (unat y div 16)"
    "nibble_char (unat x mod 16) = nibble_char (unat y mod 16)"
    and rest: "hex_encode xs = hex_encode ys'"
    by (simp_all add: hex_encode_def)
  then have "unat x div 16 = unat y div 16" "unat x mod 16 = unat y mod 16"
    using lt nibble_char_inj by blast+
  then have "unat x = unat y" by (metis div_mult_mod_eq)
  then have "x = y" by (simp add: word_unat_eq_iff)
  with Cons.IH [OF rest] ys show ?case by simp
qed

text \<open>\<open>%q\<close>: quoted with Go escapes; bytes above ASCII are printed as they are.\<close>

definition quote_char :: "char \<Rightarrow> string" where
  "quote_char c =
     (let n = (of_char c :: nat) in
      if n = 34 then [CHR 0x5C, CHR 0x22] else if n = 92 then [CHR 0x5C, CHR 0x5C]
      else if n = 7 then [CHR 0x5C] @ ''a'' else if n = 8 then [CHR 0x5C] @ ''b''
      else if n = 9 then [CHR 0x5C] @ ''t'' else if n = 10 then [CHR 0x5C] @ ''n''
      else if n = 11 then [CHR 0x5C] @ ''v'' else if n = 12 then [CHR 0x5C] @ ''f''
      else if n = 13 then [CHR 0x5C] @ ''r''
      else if n < 32 \<or> n = 127
      then [CHR 0x5C] @ ''x'' @ [nibble_char (n div 16), nibble_char (n mod 16)]
      else [c])"

definition go_quote :: "string \<Rightarrow> string" where
  "go_quote s = [CHR 0x22] @ concat (map quote_char s) @ [CHR 0x22]"

text \<open>Go's \<open><\<close> on strings: bytewise lexicographic.\<close>

fun str_less :: "string \<Rightarrow> string \<Rightarrow> bool" where
  "str_less _ [] = False"
| "str_less [] (b # bs) = True"
| "str_less (a # as) (b # bs) =
     ((of_char a :: nat) < of_char b \<or> (a = b \<and> str_less as bs))"

lemma str_less_irrefl [simp]: "\<not> str_less s s"
  by (induction s) auto

lemma str_less_trans: "str_less a b \<Longrightarrow> str_less b c \<Longrightarrow> str_less a c"
proof (induction a c arbitrary: b rule: str_less.induct)
  case (2 x xs)
  then show ?case by simp
next
  case (3 x xs y ys)
  then show ?case by (cases b) auto
qed auto

lemma str_less_linear: "str_less a b \<or> a = b \<or> str_less b a"
proof (induction a b rule: str_less.induct)
  case (1 s)
  then show ?case by (cases s) auto
next
  case (3 a as b bs)
  have "(of_char a :: nat) < of_char b \<or> a = b \<or> (of_char b :: nat) < of_char a"
    by (metis linorder_neqE_nat of_char_eq_iff)
  with 3 show ?case by auto
qed auto

section \<open>Keyed tables\<close>

text \<open>
  A table is a list of rows in insertion order. \<open>tbl_update\<close> is an \<open>UPDATE\<close> and
  \<open>tbl_delete\<close> a \<open>DELETE\<close> of the rows that satisfy a condition; \<open>find\<close> reads the one row
  of a primary key.
\<close>

definition tbl_update :: "('r \<Rightarrow> bool) \<Rightarrow> ('r \<Rightarrow> 'r) \<Rightarrow> 'r list \<Rightarrow> 'r list" where
  "tbl_update p f rs = map (\<lambda>r. if p r then f r else r) rs"

definition tbl_delete :: "('r \<Rightarrow> bool) \<Rightarrow> 'r list \<Rightarrow> 'r list" where
  "tbl_delete p rs = filter (\<lambda>r. \<not> p r) rs"

lemma tbl_update_simps [simp]:
  "tbl_update p f [] = []"
  "tbl_update p f (r # rs) = (if p r then f r else r) # tbl_update p f rs"
  "tbl_update p f (rs @ ss) = tbl_update p f rs @ tbl_update p f ss"
  by (simp_all add: tbl_update_def)

lemma tbl_delete_simps [simp]:
  "tbl_delete p [] = []"
  "tbl_delete p (r # rs) = (if p r then tbl_delete p rs else r # tbl_delete p rs)"
  "tbl_delete p (rs @ ss) = tbl_delete p rs @ tbl_delete p ss"
  by (simp_all add: tbl_delete_def)

lemma set_tbl_delete [simp]: "set (tbl_delete p rs) = {r \<in> set rs. \<not> p r}"
  by (auto simp: tbl_delete_def)

lemma set_tbl_update: "set (tbl_update p f rs) = (\<lambda>r. if p r then f r else r) ` set rs"
  by (simp add: tbl_update_def)

lemma length_tbl_update [simp]: "length (tbl_update p f rs) = length rs"
  by (simp add: tbl_update_def)

lemma map_tbl_update [table_simps]:
  "(\<And>r. k (f r) = k r) \<Longrightarrow> map k (tbl_update p f rs) = map k rs"
  by (simp add: tbl_update_def)

lemma tbl_update_id [table_simps]: "(\<And>r. r \<in> set rs \<Longrightarrow> \<not> p r) \<Longrightarrow> tbl_update p f rs = rs"
  by (simp add: tbl_update_def map_idI)

lemma tbl_delete_id [table_simps]: "(\<And>r. r \<in> set rs \<Longrightarrow> \<not> p r) \<Longrightarrow> tbl_delete p rs = rs"
  by (simp add: tbl_delete_def)

lemma filter_tbl_delete [table_simps]:
  "(\<And>r. q r \<Longrightarrow> \<not> p r) \<Longrightarrow> filter q (tbl_delete p rs) = filter q rs"
  by (auto simp: tbl_delete_def intro: filter_cong)

lemma filter_tbl_update [table_simps]:
  "(\<And>r. q (f r) = q r) \<Longrightarrow> (\<And>r. q r \<Longrightarrow> \<not> p r) \<Longrightarrow> filter q (tbl_update p f rs) = filter q rs"
  by (induction rs) auto

lemma distinct_map_tbl_delete: "distinct (map k rs) \<Longrightarrow> distinct (map k (tbl_delete p rs))"
  by (simp add: tbl_delete_def distinct_map_filter)

lemma find_key_in: "find (\<lambda>r. k r = x) rs = Some r \<Longrightarrow> r \<in> set rs \<and> k r = x"
  by (induction rs) (auto split: if_splits)

lemma find_key_None: "find (\<lambda>r. k r = x) rs = None \<longleftrightarrow> x \<notin> k ` set rs"
  by (induction rs) auto

lemma find_key_unique:
  "distinct (map k rs) \<Longrightarrow> r \<in> set rs \<Longrightarrow> find (\<lambda>s. k s = k r) rs = Some r"
  by (induction rs) (auto simp: rev_image_eqI)

lemma find_append_row: "find p (rs @ ss) = (case find p rs of None \<Rightarrow> find p ss | Some r \<Rightarrow> Some r)"
  by (induction rs) auto

lemma find_key_tbl_update [table_simps]:
  "(\<And>r. k (f r) = k r) \<Longrightarrow>
   find (\<lambda>r. k r = x) (tbl_update p f rs) =
     map_option (\<lambda>r. if p r then f r else r) (find (\<lambda>r. k r = x) rs)"
  by (induction rs) auto

section \<open>Results\<close>

text \<open>What every caller of a fallible operation does: test the error, else go on.\<close>

fun is_ok :: "'a res \<Rightarrow> bool" where
  "is_ok (Inr x) = True"
| "is_ok (Inl e) = False"

lemma is_ok_cases: "is_ok r \<longleftrightarrow> (\<exists>x. r = Inr x)"
  by (cases r) auto

end
