(* ===== verification/Store_Model.thy ===== *)
theory Store_Model
  imports Go_Prelude "HOL-Library.List_Lexorder" "HOL-Library.Product_Lexorder"
begin

text \<open>
  The relational store: the rows of \<open>controlplane/internal/store/models.go\<close> as records, the
  tables of the machine schema as lists of rows in insertion order, and one function per
  query of \<open>queries.sql.go\<close> that the machine package runs. A query function takes the
  database context \<open>c\<close> first: \<open>fault c q\<close> is the infrastructure error the statement \<open>q\<close> meets,
  if any (a failed statement changes nothing), and \<open>now c q\<close> the value of \<open>now()\<close> in it.
  Primary keys, foreign keys and unique constraints of the schema are checked where an
  insert can violate them. A \<open>jsonb\<close> object is an association list of its members.
\<close>

section \<open>Column types\<close>

text \<open>\<open>pgtype.UUID\<close> and its canonical text.\<close>

record pg_uuid =
  Bytes :: "8 word list"
  Valid :: bool

definition UUIDString :: "pg_uuid \<Rightarrow> string" where
  "UUIDString u =
     (if \<not> Valid u then []
      else let h = hex_encode (Bytes u)
           in take 8 h @ ''-'' @ take 4 (drop 8 h) @ ''-'' @ take 4 (drop 12 h) @ ''-''
              @ take 4 (drop 16 h) @ ''-'' @ take 12 (drop 20 h))"

definition proper_uuid :: "pg_uuid \<Rightarrow> bool" where
  "proper_uuid u = (Valid u \<and> length (Bytes u) = 16)"

datatype json_scalar = JStr string | JInt int | JBool bool

type_synonym json_object = "(string \<times> json_scalar) list"

text \<open>The lifecycle states; the column's \<open>CHECK\<close> admits exactly these eight values.\<close>

datatype state =
    StateRequested | StateProvisioning | StateRunning | StateStarting
  | StateStopping | StateHibernating | StateStopped | StateError

fun state_string :: "state \<Rightarrow> string" where
  "state_string StateRequested = ''requested''"
| "state_string StateProvisioning = ''provisioning''"
| "state_string StateRunning = ''running''"
| "state_string StateStarting = ''starting''"
| "state_string StateStopping = ''stopping''"
| "state_string StateHibernating = ''hibernating''"
| "state_string StateStopped = ''stopped''"
| "state_string StateError = ''error''"

section \<open>Rows\<close>

record machine =
  m_ID :: pg_uuid
  m_UserID :: pg_uuid
  m_State :: state
  m_HostID :: pg_uuid
  m_VmHandle :: "string option"
  m_GuestIp :: "string option"
  m_KernelRef :: string
  m_RootfsRef :: string
  m_ResourceSpec :: json_object
  m_LastError :: "string option"
  m_LastActiveAt :: "nat option"
  m_CreatedAt :: nat
  m_UpdatedAt :: nat
  m_DiskID :: "pg_uuid option"
  m_Boot :: "string option"
  m_Name :: string
  m_TemplateID :: "string option"

record machine_event =
  ev_ID :: int
  ev_MachineID :: pg_uuid
  ev_Type :: string
  ev_FromState :: "state option"
  ev_ToState :: "state option"
  ev_Actor :: string
  ev_Payload :: json_object
  ev_CreatedAt :: nat

record disk =
  d_ID :: pg_uuid
  d_MachineID :: pg_uuid
  d_SizeMib :: int
  d_CreatedAt :: nat

record snapshot =
  sn_MachineID :: pg_uuid
  sn_FcVersion :: string
  sn_MemBytes :: int
  sn_KernelRef :: string
  sn_RootfsRef :: string
  sn_CreatedAt :: nat

record network_policy_row =
  np_MachineID :: pg_uuid
  np_Mode :: string
  np_Domains :: "string list"
  np_CreatedAt :: nat
  np_UpdatedAt :: nat

record host =
  h_ID :: pg_uuid
  h_Name :: string
  h_AgentUrl :: string
  h_Status :: string
  h_CreatedAt :: nat

record agent_task =
  at_ID :: pg_uuid
  at_MachineID :: pg_uuid
  at_UserID :: pg_uuid
  at_Provider :: string
  at_Project :: string
  at_Prompt :: string
  at_Status :: string
  at_AgentSessionID :: string
  at_Usage :: string
  at_ResultSummary :: string
  at_Error :: string
  at_CreatedAt :: nat
  at_StartedAt :: "nat option"
  at_EndedAt :: "nat option"

text \<open>The tables. \<open>t_event_seq\<close> is the \<open>bigserial\<close> sequence behind \<open>machine_events.id\<close>.\<close>

record db =
  t_machines :: "machine list"
  t_events :: "machine_event list"
  t_event_seq :: int
  t_disks :: "disk list"
  t_snapshots :: "snapshot list"
  t_policies :: "network_policy_row list"
  t_hosts :: "host list"
  t_tasks :: "agent_task list"

section \<open>Statements, their faults and their clock\<close>

datatype query =
    QCountMachinesByUserID pg_uuid | QListMachinesByUserID pg_uuid
  | QGetMachineByUserID pg_uuid | QGetMachineByID pg_uuid | QListMachinesInStates "state list"
  | QCreateMachine pg_uuid | QCreateDisk pg_uuid | QSetMachineDisk pg_uuid
  | QSetMachineRuntime pg_uuid | QSetMachineBoot pg_uuid | QRenameMachine pg_uuid
  | QDeleteMachine pg_uuid | QBegin pg_uuid state | QUpdateMachineState pg_uuid state
  | QInsertMachineEvent pg_uuid "state option" | QCommit pg_uuid state
  | QListActiveHosts | QUpsertSnapshot pg_uuid | QDeleteSnapshot pg_uuid | QGetSnapshot pg_uuid
  | QGetDiskByMachineID pg_uuid | QListDisksByMachineIDs | QListSnapshotsByMachineIDs
  | QGetNetworkPolicy pg_uuid | QUpsertNetworkPolicy pg_uuid | QDeleteNetworkPolicy pg_uuid
  | QListAgentTasksByMachine pg_uuid | QInsertAgentTask pg_uuid | QMarkAgentTaskRunning pg_uuid
  | QRestartAgentTask pg_uuid | QFinishAgentTask pg_uuid | QGetAgentTask pg_uuid | QGetAgentTaskByUser pg_uuid
  | QListAgentTasksByUser pg_uuid | QListRunningMachineIDsByUserID pg_uuid

record dbctx =
  fault :: "query \<Rightarrow> string option"
  now :: "query \<Rightarrow> nat"

definition run_query :: "dbctx \<Rightarrow> query \<Rightarrow> 'a res \<Rightarrow> 'a res" where
  "run_query c q r = (case fault c q of Some t \<Rightarrow> Inl (ErrorText t) | None \<Rightarrow> r)"

definition fk_violation :: error where
  "fk_violation = ErrorText ''violates foreign key constraint (SQLSTATE 23503)''"

definition unique_violation :: error where
  "unique_violation = ErrorText ''duplicate key value violates unique constraint (SQLSTATE 23505)''"

definition row_of :: "'a option \<Rightarrow> 'a res" where
  "row_of r = (case r of Some x \<Rightarrow> Inr x | None \<Rightarrow> Inl (Sentinel ErrNoRows))"

definition find_machine :: "db \<Rightarrow> pg_uuid \<Rightarrow> machine option" where
  "find_machine d i = find (\<lambda>m. m_ID m = i) (t_machines d)"

section \<open>Queries on machines\<close>

definition CountMachinesByUserID :: "dbctx \<Rightarrow> db \<Rightarrow> pg_uuid \<Rightarrow> int res" where
  "CountMachinesByUserID c d u = run_query c (QCountMachinesByUserID u)
     (Inr (int (length (filter (\<lambda>m. m_UserID m = u) (t_machines d)))))"

definition ListMachinesByUserID :: "dbctx \<Rightarrow> db \<Rightarrow> pg_uuid \<Rightarrow> machine list res" where
  "ListMachinesByUserID c d u = run_query c (QListMachinesByUserID u)
     (Inr (sort_key (\<lambda>m. (m_CreatedAt m, map unat (Bytes (m_ID m))))
        (filter (\<lambda>m. m_UserID m = u) (t_machines d))))"

definition GetMachineByUserID :: "dbctx \<Rightarrow> db \<Rightarrow> pg_uuid \<Rightarrow> machine res" where
  "GetMachineByUserID c d u = run_query c (QGetMachineByUserID u)
     (row_of (find (\<lambda>m. m_UserID m = u) (t_machines d)))"

definition GetMachineByID :: "dbctx \<Rightarrow> db \<Rightarrow> pg_uuid \<Rightarrow> machine res" where
  "GetMachineByID c d i = run_query c (QGetMachineByID i) (row_of (find_machine d i))"

definition ListMachinesInStates :: "dbctx \<Rightarrow> db \<Rightarrow> state list \<Rightarrow> machine list res" where
  "ListMachinesInStates c d ss = run_query c (QListMachinesInStates ss)
     (Inr (sort_key m_UpdatedAt (filter (\<lambda>m. m_State m \<in> set ss) (t_machines d))))"

record create_machine_params =
  cm_UserID :: pg_uuid
  cm_HostID :: pg_uuid
  cm_Name :: string
  cm_KernelRef :: string
  cm_RootfsRef :: string
  cm_ResourceSpec :: json_object
  cm_TemplateID :: "string option"

text \<open>\<open>i\<close> is the value \<open>gen_random_uuid()\<close> yields for the new row.\<close>

definition CreateMachine ::
  "dbctx \<Rightarrow> pg_uuid \<Rightarrow> db \<Rightarrow> create_machine_params \<Rightarrow> (db \<times> machine) res" where
  "CreateMachine c i d p = run_query c (QCreateMachine (cm_UserID p))
     (if find_machine d i \<noteq> None then Inl unique_violation
      else let t = now c (QCreateMachine (cm_UserID p));
               m = \<lparr>m_ID = i, m_UserID = cm_UserID p, m_State = StateRequested,
                    m_HostID = cm_HostID p, m_VmHandle = None, m_GuestIp = None,
                    m_KernelRef = cm_KernelRef p, m_RootfsRef = cm_RootfsRef p,
                    m_ResourceSpec = cm_ResourceSpec p, m_LastError = None,
                    m_LastActiveAt = None, m_CreatedAt = t, m_UpdatedAt = t, m_DiskID = None,
                    m_Boot = None, m_Name = cm_Name p, m_TemplateID = cm_TemplateID p\<rparr>
           in Inr (d\<lparr>t_machines := t_machines d @ [m]\<rparr>, m))"

text \<open>An \<open>UPDATE machines ... WHERE <guard> RETURNING *\<close> of at most one row.\<close>

definition update_machine ::
  "db \<Rightarrow> pg_uuid \<Rightarrow> (machine \<Rightarrow> bool) \<Rightarrow> (machine \<Rightarrow> machine) \<Rightarrow> (db \<times> machine) res" where
  "update_machine d i guard f =
     (case find_machine d i of
        None \<Rightarrow> Inl (Sentinel ErrNoRows)
      | Some m \<Rightarrow>
          if guard m
          then Inr (d\<lparr>t_machines := tbl_update (\<lambda>r. m_ID r = i) f (t_machines d)\<rparr>, f m)
          else Inl (Sentinel ErrNoRows))"

definition UpdateMachineState ::
  "dbctx \<Rightarrow> db \<Rightarrow> pg_uuid \<Rightarrow> state \<Rightarrow> state \<Rightarrow> string option \<Rightarrow> (db \<times> machine) res" where
  "UpdateMachineState c d i from_state to_state last_error =
     run_query c (QUpdateMachineState i to_state)
       (update_machine d i (\<lambda>m. m_State m = from_state)
          (\<lambda>m. m\<lparr>m_State := to_state, m_LastError := last_error,
                 m_UpdatedAt := now c (QUpdateMachineState i to_state)\<rparr>))"

definition SetMachineRuntime ::
  "dbctx \<Rightarrow> db \<Rightarrow> pg_uuid \<Rightarrow> string option \<Rightarrow> string option \<Rightarrow> (db \<times> machine) res" where
  "SetMachineRuntime c d i vm_handle guest_ip =
     run_query c (QSetMachineRuntime i)
       (let t = now c (QSetMachineRuntime i)
        in update_machine d i (\<lambda>_. True)
             (\<lambda>m. m\<lparr>m_VmHandle := vm_handle, m_GuestIp := guest_ip, m_LastActiveAt := Some t,
                    m_UpdatedAt := t\<rparr>))"

definition SetMachineBoot ::
  "dbctx \<Rightarrow> db \<Rightarrow> pg_uuid \<Rightarrow> string option \<Rightarrow> (db \<times> machine) res" where
  "SetMachineBoot c d i boot = run_query c (QSetMachineBoot i)
     (update_machine d i (\<lambda>_. True)
        (\<lambda>m. m\<lparr>m_Boot := boot, m_UpdatedAt := now c (QSetMachineBoot i)\<rparr>))"

definition SetMachineDisk ::
  "dbctx \<Rightarrow> db \<Rightarrow> pg_uuid \<Rightarrow> pg_uuid \<Rightarrow> (db \<times> machine) res" where
  "SetMachineDisk c d i disk_id = run_query c (QSetMachineDisk i)
     (if disk_id \<in> d_ID ` set (t_disks d)
      then update_machine d i (\<lambda>_. True)
        (\<lambda>m. m\<lparr>m_DiskID := Some disk_id, m_UpdatedAt := now c (QSetMachineDisk i)\<rparr>)
      else Inl fk_violation)"

definition RenameMachine :: "dbctx \<Rightarrow> db \<Rightarrow> pg_uuid \<Rightarrow> string \<Rightarrow> (db \<times> machine) res" where
  "RenameMachine c d i nm = run_query c (QRenameMachine i)
     (update_machine d i (\<lambda>_. True)
        (\<lambda>m. m\<lparr>m_Name := nm, m_UpdatedAt := now c (QRenameMachine i)\<rparr>))"

text \<open>The row and, by \<open>ON DELETE CASCADE\<close>, everything that references it.\<close>

definition DeleteMachine :: "dbctx \<Rightarrow> db \<Rightarrow> pg_uuid \<Rightarrow> db res" where
  "DeleteMachine c d i = run_query c (QDeleteMachine i)
     (Inr (d\<lparr>t_machines := tbl_delete (\<lambda>r. m_ID r = i) (t_machines d),
             t_events := tbl_delete (\<lambda>r. ev_MachineID r = i) (t_events d),
             t_disks := tbl_delete (\<lambda>r. d_MachineID r = i) (t_disks d),
             t_snapshots := tbl_delete (\<lambda>r. sn_MachineID r = i) (t_snapshots d),
             t_policies := tbl_delete (\<lambda>r. np_MachineID r = i) (t_policies d),
             t_tasks := tbl_delete (\<lambda>r. at_MachineID r = i) (t_tasks d)\<rparr>))"

section \<open>Queries on the tables that hang off a machine\<close>

definition InsertMachineEvent ::
  "dbctx \<Rightarrow> db \<Rightarrow> pg_uuid \<Rightarrow> string \<Rightarrow> state option \<Rightarrow> state option \<Rightarrow> string \<Rightarrow> json_object
     \<Rightarrow> (db \<times> machine_event) res" where
  "InsertMachineEvent c d i typ from_state to_state actor payload =
     run_query c (QInsertMachineEvent i to_state)
       (if find_machine d i = None then Inl fk_violation
        else let n = t_event_seq d + 1;
                 e = \<lparr>ev_ID = n, ev_MachineID = i, ev_Type = typ, ev_FromState = from_state,
                      ev_ToState = to_state, ev_Actor = actor, ev_Payload = payload,
                      ev_CreatedAt = now c (QInsertMachineEvent i to_state)\<rparr>
             in Inr (d\<lparr>t_events := t_events d @ [e], t_event_seq := n\<rparr>, e))"

definition CreateDisk :: "dbctx \<Rightarrow> pg_uuid \<Rightarrow> db \<Rightarrow> pg_uuid \<Rightarrow> int \<Rightarrow> (db \<times> disk) res" where
  "CreateDisk c di d i size_mib = run_query c (QCreateDisk i)
     (if find_machine d i = None then Inl fk_violation
      else if i \<in> d_MachineID ` set (t_disks d) \<or> di \<in> d_ID ` set (t_disks d)
      then Inl unique_violation
      else let k = \<lparr>d_ID = di, d_MachineID = i, d_SizeMib = size_mib,
                    d_CreatedAt = now c (QCreateDisk i)\<rparr>
           in Inr (d\<lparr>t_disks := t_disks d @ [k]\<rparr>, k))"

definition GetDiskByMachineID :: "dbctx \<Rightarrow> db \<Rightarrow> pg_uuid \<Rightarrow> disk res" where
  "GetDiskByMachineID c d i = run_query c (QGetDiskByMachineID i)
     (row_of (find (\<lambda>r. d_MachineID r = i) (t_disks d)))"

definition ListDisksByMachineIDs :: "dbctx \<Rightarrow> db \<Rightarrow> pg_uuid list \<Rightarrow> disk list res" where
  "ListDisksByMachineIDs c d ids = run_query c QListDisksByMachineIDs
     (Inr (filter (\<lambda>r. d_MachineID r \<in> set ids) (t_disks d)))"

definition GetSnapshot :: "dbctx \<Rightarrow> db \<Rightarrow> pg_uuid \<Rightarrow> snapshot res" where
  "GetSnapshot c d i = run_query c (QGetSnapshot i)
     (row_of (find (\<lambda>r. sn_MachineID r = i) (t_snapshots d)))"

definition ListSnapshotsByMachineIDs :: "dbctx \<Rightarrow> db \<Rightarrow> pg_uuid list \<Rightarrow> snapshot list res" where
  "ListSnapshotsByMachineIDs c d ids = run_query c QListSnapshotsByMachineIDs
     (Inr (filter (\<lambda>r. sn_MachineID r \<in> set ids) (t_snapshots d)))"

definition UpsertSnapshot ::
  "dbctx \<Rightarrow> db \<Rightarrow> pg_uuid \<Rightarrow> string \<Rightarrow> int \<Rightarrow> string \<Rightarrow> string \<Rightarrow> (db \<times> snapshot) res" where
  "UpsertSnapshot c d i fc_version mem_bytes kernel_ref rootfs_ref =
     run_query c (QUpsertSnapshot i)
       (if find_machine d i = None then Inl fk_violation
        else let s = \<lparr>sn_MachineID = i, sn_FcVersion = fc_version, sn_MemBytes = mem_bytes,
                      sn_KernelRef = kernel_ref, sn_RootfsRef = rootfs_ref,
                      sn_CreatedAt = now c (QUpsertSnapshot i)\<rparr>
             in Inr (d\<lparr>t_snapshots :=
                  (if i \<in> sn_MachineID ` set (t_snapshots d)
                   then tbl_update (\<lambda>r. sn_MachineID r = i) (\<lambda>_. s) (t_snapshots d)
                   else t_snapshots d @ [s])\<rparr>, s))"

definition DeleteSnapshot :: "dbctx \<Rightarrow> db \<Rightarrow> pg_uuid \<Rightarrow> db res" where
  "DeleteSnapshot c d i = run_query c (QDeleteSnapshot i)
     (Inr (d\<lparr>t_snapshots := tbl_delete (\<lambda>r. sn_MachineID r = i) (t_snapshots d)\<rparr>))"

definition GetNetworkPolicy :: "dbctx \<Rightarrow> db \<Rightarrow> pg_uuid \<Rightarrow> network_policy_row res" where
  "GetNetworkPolicy c d i = run_query c (QGetNetworkPolicy i)
     (row_of (find (\<lambda>r. np_MachineID r = i) (t_policies d)))"

definition UpsertNetworkPolicy ::
  "dbctx \<Rightarrow> db \<Rightarrow> pg_uuid \<Rightarrow> string \<Rightarrow> string list \<Rightarrow> (db \<times> network_policy_row) res" where
  "UpsertNetworkPolicy c d i mode domains =
     run_query c (QUpsertNetworkPolicy i)
       (if find_machine d i = None then Inl fk_violation
        else let t = now c (QUpsertNetworkPolicy i)
             in case find (\<lambda>r. np_MachineID r = i) (t_policies d) of
                  Some r \<Rightarrow>
                    let r' = r\<lparr>np_Mode := mode, np_Domains := domains, np_UpdatedAt := t\<rparr>
                    in Inr (d\<lparr>t_policies :=
                         tbl_update (\<lambda>r. np_MachineID r = i) (\<lambda>_. r') (t_policies d)\<rparr>, r')
                | None \<Rightarrow>
                    let r' = \<lparr>np_MachineID = i, np_Mode = mode, np_Domains = domains,
                              np_CreatedAt = t, np_UpdatedAt = t\<rparr>
                    in Inr (d\<lparr>t_policies := t_policies d @ [r']\<rparr>, r'))"

definition DeleteNetworkPolicy :: "dbctx \<Rightarrow> db \<Rightarrow> pg_uuid \<Rightarrow> db res" where
  "DeleteNetworkPolicy c d i = run_query c (QDeleteNetworkPolicy i)
     (Inr (d\<lparr>t_policies := tbl_delete (\<lambda>r. np_MachineID r = i) (t_policies d)\<rparr>))"

definition ListActiveHosts :: "dbctx \<Rightarrow> db \<Rightarrow> host list res" where
  "ListActiveHosts c d = run_query c QListActiveHosts
     (Inr (sort_key (\<lambda>h. map (of_char :: char \<Rightarrow> nat) (h_Name h))
        (filter (\<lambda>h. h_Status h = ''active'') (t_hosts d))))"

definition ListAgentTasksByMachine :: "dbctx \<Rightarrow> db \<Rightarrow> pg_uuid \<Rightarrow> agent_task list res" where
  "ListAgentTasksByMachine c d i = run_query c (QListAgentTasksByMachine i)
     (Inr (sort_key (\<lambda>t. - int (at_CreatedAt t)) (filter (\<lambda>t. at_MachineID t = i) (t_tasks d))))"

section \<open>Lemmas on UUID text\<close>

lemma UUIDString_hex:
  assumes "proper_uuid u"
  shows "hex_encode (Bytes u) =
    take 8 (UUIDString u) @ take 4 (drop 9 (UUIDString u)) @ take 4 (drop 14 (UUIDString u))
    @ take 4 (drop 19 (UUIDString u)) @ take 12 (drop 24 (UUIDString u))"
proof -
  have len: "length (hex_encode (Bytes u)) = 32" using assms by (simp add: proper_uuid_def)
  have split: "h = take 8 h @ take 4 (drop 8 h) @ take 4 (drop 12 h) @ take 4 (drop 16 h)
      @ take 12 (drop 20 h)" if "length h = 32" for h :: string
  proof -
    have "drop 20 h = take 12 (drop 20 h)" using that by simp
    moreover have "drop 16 h = take 4 (drop 16 h) @ drop 20 h"
      "drop 12 h = take 4 (drop 12 h) @ drop 16 h" "drop 8 h = take 4 (drop 8 h) @ drop 12 h"
      using append_take_drop_id [of 4 "drop 16 h"] append_take_drop_id [of 4 "drop 12 h"]
        append_take_drop_id [of 4 "drop 8 h"] by simp_all
    ultimately show ?thesis by (metis append_take_drop_id)
  qed
  show ?thesis
    using assms len by (subst split [OF len]) (simp add: UUIDString_def proper_uuid_def Let_def)
qed

lemma UUIDString_inj:
  assumes "proper_uuid u" and "proper_uuid v" and "UUIDString u = UUIDString v"
  shows "u = v"
proof -
  have "hex_encode (Bytes u) = hex_encode (Bytes v)"
    using UUIDString_hex [OF assms(1)] UUIDString_hex [OF assms(2)] assms(3) by simp
  then have "Bytes u = Bytes v" by (rule hex_encode_inj)
  with assms show ?thesis by (simp add: proper_uuid_def)
qed

section \<open>Inversion of the queries\<close>

lemma run_query_InrD [result_elims]:
  "run_query c q r = Inr x \<Longrightarrow> fault c q = None \<and> r = Inr x"
  by (auto simp: run_query_def split: option.splits)

lemma run_query_no_fault [simp]: "fault c q = None \<Longrightarrow> run_query c q r = r"
  by (simp add: run_query_def)

lemma run_query_fault [simp]: "fault c q = Some t \<Longrightarrow> run_query c q r = Inl (ErrorText t)"
  by (simp add: run_query_def)

lemma find_machine_Some: "find_machine d i = Some m \<Longrightarrow> m \<in> set (t_machines d) \<and> m_ID m = i"
  by (auto simp: find_machine_def dest: find_key_in)

lemma find_machine_None: "find_machine d i = None \<longleftrightarrow> i \<notin> m_ID ` set (t_machines d)"
  by (simp add: find_machine_def find_key_None)

lemma update_machine_InrD:
  assumes "update_machine d i g f = Inr (d', m')"
  shows "\<exists>m. find_machine d i = Some m \<and> g m \<and> m' = f m
    \<and> d' = d\<lparr>t_machines := tbl_update (\<lambda>r. m_ID r = i) f (t_machines d)\<rparr>"
  using assms by (auto simp: update_machine_def split: option.splits if_splits)

lemma GetMachineByID_InrD:
  "GetMachineByID c d i = Inr m \<Longrightarrow> find_machine d i = Some m"
  by (auto simp: GetMachineByID_def row_of_def split: option.splits dest!: run_query_InrD)

lemma ListMachinesByUserID_set:
  "ListMachinesByUserID c d u = Inr ms \<Longrightarrow> set ms = {m \<in> set (t_machines d). m_UserID m = u}"
  by (auto simp: ListMachinesByUserID_def dest!: run_query_InrD)

lemma CountMachines_length:
  "CountMachinesByUserID c d u = Inr n \<Longrightarrow> ListMachinesByUserID c' d u = Inr ms \<Longrightarrow>
   n = int (length ms)"
  by (auto simp: CountMachinesByUserID_def ListMachinesByUserID_def dest!: run_query_InrD)

end
