(* ===== verification/Machine_Template.thy ===== *)
theory Machine_Template
  imports Store_Model
begin

text \<open>
  Resource limits and the machine-template catalog (\<open>machine/template.go\<close>), and the two
  pure decisions of machine creation in \<open>machine/service.go\<close> that rest on them: the
  automatic name and the resolution of image, resources and template from the options.
\<close>

section \<open>Resources and bounds\<close>

record resources =
  r_Vcpus :: int
  r_MemMiB :: int
  r_DiskMiB :: int

record bound =
  bd_Min :: int
  bd_Max :: int

record resource_limits =
  l_Vcpus :: bound
  l_MemMiB :: bound
  l_DiskMiB :: bound

definition NewResourceLimits :: "int \<Rightarrow> int \<Rightarrow> int \<Rightarrow> resource_limits" where
  "NewResourceLimits maxVcpus maxMemMiB maxDiskMiB =
     \<lparr>l_Vcpus = \<lparr>bd_Min = 1, bd_Max = maxVcpus\<rparr>, l_MemMiB = \<lparr>bd_Min = 1024, bd_Max = maxMemMiB\<rparr>,
      l_DiskMiB = \<lparr>bd_Min = 5120, bd_Max = maxDiskMiB\<rparr>\<rparr>"

definition zero_bound :: bound where
  "zero_bound = \<lparr>bd_Min = 0, bd_Max = 0\<rparr>"

definition limits_Empty :: "resource_limits \<Rightarrow> bool" where
  "limits_Empty l = (l = \<lparr>l_Vcpus = zero_bound, l_MemMiB = zero_bound, l_DiskMiB = zero_bound\<rparr>)"

definition bound_check :: "bound \<Rightarrow> string \<Rightarrow> int \<Rightarrow> error option" where
  "bound_check b name v =
     (if v < bd_Min b \<or> v > bd_Max b
      then Some (InvalidResourcesError (name @ '' must be '' @ itoa (bd_Min b) @ ''..'' @ itoa (bd_Max b)))
      else None)"

definition Validate :: "resource_limits \<Rightarrow> resources \<Rightarrow> error option" where
  "Validate l r =
     (case bound_check (l_Vcpus l) ''vcpus'' (r_Vcpus r) of Some e \<Rightarrow> Some e
      | None \<Rightarrow> (case bound_check (l_MemMiB l) ''mem_mib'' (r_MemMiB r) of Some e \<Rightarrow> Some e
      | None \<Rightarrow> bound_check (l_DiskMiB l) ''disk_mib'' (r_DiskMiB r)))"

definition in_bound :: "bound \<Rightarrow> int \<Rightarrow> bool" where
  "in_bound b v = (bd_Min b \<le> v \<and> v \<le> bd_Max b)"

definition in_limits :: "resource_limits \<Rightarrow> resources \<Rightarrow> bool" where
  "in_limits l r = (in_bound (l_Vcpus l) (r_Vcpus r) \<and> in_bound (l_MemMiB l) (r_MemMiB r)
     \<and> in_bound (l_DiskMiB l) (r_DiskMiB r))"

lemma bound_check_None: "bound_check b n v = None \<longleftrightarrow> in_bound b v"
  by (auto simp: bound_check_def in_bound_def)

lemma Validate_None: "Validate l r = None \<longleftrightarrow> in_limits l r"
  by (auto simp: Validate_def in_limits_def bound_check_def in_bound_def)

text \<open>The \<open>resource_spec\<close> column: what \<open>Create\<close> stamps and what a boot reads back.\<close>

definition spec_json :: "resources \<Rightarrow> json_object" where
  "spec_json r = [(''disk_mib'', JInt (r_DiskMiB r)), (''mem_mib'', JInt (r_MemMiB r)),
     (''vcpus'', JInt (r_Vcpus r))]"

fun json_int :: "json_scalar option \<Rightarrow> int" where
  "json_int (Some (JInt n)) = n"
| "json_int _ = 0"

definition parseResources :: "json_object \<Rightarrow> resources" where
  "parseResources b = \<lparr>r_Vcpus = json_int (map_of b ''vcpus''), r_MemMiB = json_int (map_of b ''mem_mib''),
     r_DiskMiB = json_int (map_of b ''disk_mib'')\<rparr>"

lemma parseResources_spec_json [simp]: "parseResources (spec_json r) = r"
  by (simp add: parseResources_def spec_json_def)

section \<open>The catalog\<close>

record template =
  t_ID :: string
  t_Label :: string
  t_Description :: string
  t_RootfsRef :: string
  t_KernelRef :: string
  t_Defaults :: resources

record catalog =
  c_templates :: "template list"
  c_byID :: "string \<rightharpoonup> template"

definition zero_catalog :: catalog where
  "zero_catalog = \<lparr>c_templates = [], c_byID = Map.empty\<rparr>"

text \<open>The validating loop of \<open>NewCatalog\<close>: index, map built so far, output built so far.\<close>

fun NewCatalog_loop ::
  "string \<Rightarrow> nat \<Rightarrow> template list \<Rightarrow> (string \<rightharpoonup> template) \<Rightarrow> template list \<Rightarrow> catalog res" where
  "NewCatalog_loop dk i [] byID out = Inr \<lparr>c_templates = out, c_byID = byID\<rparr>"
| "NewCatalog_loop dk i (t # ts) byID out =
     (if t_ID t = [] then Inl (ErrorText (''template['' @ nat_str i @ '']: id is required''))
      else if byID (t_ID t) \<noteq> None
      then Inl (ErrorText (''template '' @ go_quote (t_ID t) @ '': duplicate id''))
      else if t_RootfsRef t = []
      then Inl (ErrorText (''template '' @ go_quote (t_ID t) @ '': rootfs_ref is required''))
      else let t = (if t_KernelRef t = [] then t\<lparr>t_KernelRef := dk\<rparr> else t) in
        if t_KernelRef t = []
        then Inl (ErrorText (''template '' @ go_quote (t_ID t)
               @ '': kernel_ref is required (no default kernel set)''))
        else if r_Vcpus (t_Defaults t) \<le> 0 \<or> r_MemMiB (t_Defaults t) \<le> 0 \<or> r_DiskMiB (t_Defaults t) \<le> 0
        then Inl (ErrorText (''template '' @ go_quote (t_ID t)
               @ '': defaults must have positive vcpus, mem_mib, disk_mib''))
        else NewCatalog_loop dk (i + 1) ts (byID(t_ID t \<mapsto> t)) (out @ [t]))"

definition NewCatalog :: "template list \<Rightarrow> string \<Rightarrow> catalog res" where
  "NewCatalog templates defaultKernelRef =
     (if templates = [] then Inl (ErrorText ''template catalog is empty'')
      else NewCatalog_loop defaultKernelRef 0 templates Map.empty [])"

definition SingleTemplateCatalog :: "string \<Rightarrow> string \<Rightarrow> resources \<Rightarrow> catalog res" where
  "SingleTemplateCatalog rootfsRef kernelRef defaults =
     NewCatalog [\<lparr>t_ID = ''base'', t_Label = ''Base'', t_Description = ''Platform baseline image.'',
       t_RootfsRef = rootfsRef, t_KernelRef = kernelRef, t_Defaults = defaults\<rparr>] kernelRef"

text \<open>\<open>readFile\<close> and \<open>unmarshal\<close> are the file system and the JSON decoder.\<close>

definition LoadCatalogFile ::
  "(string \<Rightarrow> string res) \<Rightarrow> (string \<Rightarrow> template list res) \<Rightarrow> string \<Rightarrow> string \<Rightarrow> catalog res" where
  "LoadCatalogFile readFile unmarshal path defaultKernelRef =
     (case readFile path of
        Inl e \<Rightarrow> Inl (Errorf ''read templates file: '' e [])
      | Inr b \<Rightarrow> (case unmarshal b of
          Inl e \<Rightarrow> Inl (Errorf (''parse templates file '' @ path @ '': '') e [])
        | Inr templates \<Rightarrow> NewCatalog templates defaultKernelRef))"

definition catalog_Empty :: "catalog \<Rightarrow> bool" where
  "catalog_Empty c = (c_templates c = [])"

text \<open>\<open>Default\<close> indexes the first template; on an empty catalog the index panics (\<open>None\<close>).\<close>

definition catalog_Default :: "catalog \<Rightarrow> template option" where
  "catalog_Default c = (case c_templates c of [] \<Rightarrow> None | t # _ \<Rightarrow> Some t)"

definition catalog_Get :: "catalog \<Rightarrow> string \<Rightarrow> template option" where
  "catalog_Get c i = c_byID c i"

text \<open>What a validated catalog looks like.\<close>

definition template_ok :: "template \<Rightarrow> bool" where
  "template_ok t = (t_ID t \<noteq> [] \<and> t_RootfsRef t \<noteq> [] \<and> t_KernelRef t \<noteq> []
     \<and> 0 < r_Vcpus (t_Defaults t) \<and> 0 < r_MemMiB (t_Defaults t) \<and> 0 < r_DiskMiB (t_Defaults t))"

definition catalog_ok :: "catalog \<Rightarrow> bool" where
  "catalog_ok c = (distinct (map t_ID (c_templates c)) \<and> list_all template_ok (c_templates c)
     \<and> c_byID c = map_of (map (\<lambda>t. (t_ID t, t)) (c_templates c)))"

lemma map_add_fresh: "m k = None \<Longrightarrow> [k \<mapsto> v] ++ m = m(k \<mapsto> v)"
  by (auto simp: map_add_def fun_eq_iff split: option.splits)

lemma NewCatalog_loop_ok:
  assumes "NewCatalog_loop dk i ts byID out = Inr c"
    and "catalog_ok \<lparr>c_templates = out, c_byID = byID\<rparr>"
  shows "catalog_ok c \<and> map t_ID (c_templates c) = map t_ID out @ map t_ID ts"
  using assms
proof (induction dk i ts byID out rule: NewCatalog_loop.induct)
  case (2 dk i t ts byID out)
  let ?t = "if t_KernelRef t = [] then t\<lparr>t_KernelRef := dk\<rparr> else t"
  have id: "t_ID ?t = t_ID t" by simp
  from "2.prems"(1) have g: "t_ID t \<noteq> []" "byID (t_ID t) = None" "t_RootfsRef t \<noteq> []"
    and g2: "t_KernelRef ?t \<noteq> []"
      "\<not> (r_Vcpus (t_Defaults ?t) \<le> 0 \<or> r_MemMiB (t_Defaults ?t) \<le> 0 \<or> r_DiskMiB (t_Defaults ?t) \<le> 0)"
    and rest: "NewCatalog_loop dk (i + 1) ts (byID(t_ID ?t \<mapsto> ?t)) (out @ [?t]) = Inr c"
    by (auto simp: Let_def split: if_splits)
  from g g2 have ok: "template_ok ?t" by (auto simp: template_ok_def)
  from "2.prems"(2) g(2) have fresh: "t_ID t \<notin> t_ID ` set out"
    by (auto simp: catalog_ok_def map_of_eq_None_iff image_image)
  have cok: "catalog_ok \<lparr>c_templates = out @ [?t], c_byID = byID(t_ID ?t \<mapsto> ?t)\<rparr>"
    using "2.prems"(2) ok fresh id
    by (simp add: catalog_ok_def map_add_fresh map_of_eq_None_iff image_image)
  have "\<not> byID (t_ID t) \<noteq> None" using g(2) by simp
  from "2.IH" [OF g(1) this g(3) refl g2 rest cok]
  have "catalog_ok c \<and> map t_ID (c_templates c) = map t_ID (out @ [?t]) @ map t_ID ts" .
  with id show ?case by simp
qed auto

lemma NewCatalog_ok: "NewCatalog ts dk = Inr c \<Longrightarrow> catalog_ok c \<and> map t_ID (c_templates c) = map t_ID ts \<and> c_templates c \<noteq> []"
  using NewCatalog_loop_ok [of dk 0 ts Map.empty "[]" c]
  by (auto simp: NewCatalog_def catalog_ok_def split: if_splits)

lemma catalog_Get_iff:
  "catalog_ok c \<Longrightarrow> catalog_Get c i = Some t \<longleftrightarrow> t \<in> set (c_templates c) \<and> t_ID t = i"
  by (auto simp: catalog_ok_def catalog_Get_def map_of_eq_Some_iff comp_def)

section \<open>Automatic names\<close>

text \<open>The submatch of \<open>^machine-(\d+)$\<close>.\<close>

definition machineNamePattern :: "string \<Rightarrow> string option" where
  "machineNamePattern s =
     (if take 8 s = ''machine-'' \<and> drop 8 s \<noteq> [] \<and> list_all is_digit (drop 8 s)
      then Some (drop 8 s) else None)"

definition name_index :: "string \<Rightarrow> int option" where
  "name_index s = (case machineNamePattern s of None \<Rightarrow> None | Some ds \<Rightarrow> Atoi ds)"

fun max_index :: "int \<Rightarrow> machine list \<Rightarrow> int" where
  "max_index mx [] = mx"
| "max_index mx (m # ms) = max_index
     (case name_index (m_Name m) of None \<Rightarrow> mx | Some n \<Rightarrow> if n > mx then n else mx) ms"

definition nextMachineName :: "machine list \<Rightarrow> string" where
  "nextMachineName existing = ''machine-'' @ itoa (int64 (max_index 0 existing + 1))"

lemma max_index_ge: "mx \<le> max_index mx ms"
  by (induction ms arbitrary: mx) (auto split: option.splits intro: order_trans less_imp_le)

lemma max_index_upper: "m \<in> set ms \<Longrightarrow> name_index (m_Name m) = Some n \<Longrightarrow> n \<le> max_index mx ms"
proof (induction ms arbitrary: mx)
  case (Cons x xs)
  then show ?case
    using max_index_ge [of "case name_index (m_Name x) of None \<Rightarrow> mx | Some n \<Rightarrow> if n > mx then n else mx" xs]
    by (auto split: if_splits)
qed simp

lemma name_index_bound: "name_index s = Some n \<Longrightarrow> n < 2 ^ 63"
  by (auto simp: name_index_def Atoi_def atoi_digits_def Let_def split: option.splits list.splits if_splits)

lemma max_index_bound: "mx < 2 ^ 63 \<Longrightarrow> max_index mx ms < 2 ^ 63"
  by (induction ms arbitrary: mx) (auto split: option.splits dest: name_index_bound)

lemma name_index_itoa:
  "0 \<le> n \<Longrightarrow> n < 2 ^ 63 \<Longrightarrow> name_index (''machine-'' @ itoa n) = Some n"
  using Atoi_itoa [of n]
  by (simp add: name_index_def machineNamePattern_def itoa_def nat_str_digits)

lemma nextMachineName_fresh:
  assumes "max_index 0 existing < 2 ^ 63 - 1"
  shows "nextMachineName existing \<notin> m_Name ` set existing"
    and "name_index (nextMachineName existing) = Some (max_index 0 existing + 1)"
proof -
  let ?n = "max_index 0 existing + 1"
  have n: "0 \<le> ?n" "?n < 2 ^ 63" using max_index_ge [of 0 existing] assms by simp_all
  then show idx: "name_index (nextMachineName existing) = Some ?n"
    using name_index_itoa [of ?n] by (simp add: nextMachineName_def)
  show "nextMachineName existing \<notin> m_Name ` set existing"
  proof
    assume "nextMachineName existing \<in> m_Name ` set existing"
    then obtain m where "m \<in> set existing" "m_Name m = nextMachineName existing" by force
    with idx max_index_upper [of m existing ?n 0] show False by simp
  qed
qed

section \<open>Resolving the create options\<close>

record spec =
  s_Vcpus :: int
  s_MemMiB :: int
  s_DiskMiB :: int
  s_KernelRef :: string
  s_RootfsRef :: string
  s_MaxPerUser :: int
  s_Catalog :: catalog
  s_Limits :: resource_limits
  s_SessionExportDir :: string

record create_options =
  o_Name :: string
  o_TemplateID :: string
  o_Vcpus :: "int option"
  o_MemMiB :: "int option"
  o_DiskMiB :: "int option"

definition no_options :: create_options where
  "no_options = \<lparr>o_Name = [], o_TemplateID = [], o_Vcpus = None, o_MemMiB = None, o_DiskMiB = None\<rparr>"

definition MaxPerUser :: "spec \<Rightarrow> int" where
  "MaxPerUser sp = (if s_MaxPerUser sp \<le> 0 then 5 else s_MaxPerUser sp)"

definition override :: "resources \<Rightarrow> create_options \<Rightarrow> resources" where
  "override r opts =
     (let r = (case o_Vcpus opts of None \<Rightarrow> r | Some v \<Rightarrow> r\<lparr>r_Vcpus := v\<rparr>);
          r = (case o_MemMiB opts of None \<Rightarrow> r | Some v \<Rightarrow> r\<lparr>r_MemMiB := v\<rparr>)
      in case o_DiskMiB opts of None \<Rightarrow> r | Some v \<Rightarrow> r\<lparr>r_DiskMiB := v\<rparr>)"

text \<open>
  Result: rootfs, kernel, resources, template id. The default template exists on the branch
  that reads it, because the catalog is not empty there.
\<close>

definition resolveCreate ::
  "spec \<Rightarrow> create_options \<Rightarrow> (string \<times> string \<times> resources \<times> string option) res" where
  "resolveCreate sp opts =
     (case catalog_Default (s_Catalog sp) of
        None \<Rightarrow>
          (let disk = (if s_DiskMiB sp \<le> 0 then 10240 else s_DiskMiB sp)
           in Inr (s_RootfsRef sp, s_KernelRef sp,
                   \<lparr>r_Vcpus = s_Vcpus sp, r_MemMiB = s_MemMiB sp, r_DiskMiB = disk\<rparr>, None))
      | Some dflt \<Rightarrow>
          (case (if o_TemplateID opts = [] then Some dflt
                 else catalog_Get (s_Catalog sp) (o_TemplateID opts)) of
             None \<Rightarrow> Inl (Sentinel ErrUnknownTemplate)
           | Some t \<Rightarrow>
             (let r = override (t_Defaults t) opts
              in case (if limits_Empty (s_Limits sp) then None else Validate (s_Limits sp) r) of
                   Some e \<Rightarrow> Inl e
                 | None \<Rightarrow> Inr (t_RootfsRef t, t_KernelRef t, r, Some (t_ID t)))))"

lemma resolveCreate_InrD:
  assumes "resolveCreate sp opts = Inr (rfs, krn, r, tid)" "\<not> catalog_Empty (s_Catalog sp)"
    and "catalog_ok (s_Catalog sp)"
  shows "\<exists>t \<in> set (c_templates (s_Catalog sp)). tid = Some (t_ID t) \<and> rfs = t_RootfsRef t
    \<and> krn = t_KernelRef t \<and> r = override (t_Defaults t) opts
    \<and> (o_TemplateID opts \<noteq> [] \<longrightarrow> t_ID t = o_TemplateID opts)
    \<and> (limits_Empty (s_Limits sp) \<or> in_limits (s_Limits sp) r)"
proof -
  obtain dflt rest where ts: "c_templates (s_Catalog sp) = dflt # rest"
    using assms(2) by (cases "c_templates (s_Catalog sp)") (auto simp: catalog_Empty_def)
  then have d: "catalog_Default (s_Catalog sp) = Some dflt" by (simp add: catalog_Default_def)
  from assms(1) d obtain t where
    t: "(if o_TemplateID opts = [] then Some dflt else catalog_Get (s_Catalog sp) (o_TemplateID opts)) = Some t"
    and v: "(if limits_Empty (s_Limits sp) then None else Validate (s_Limits sp) (override (t_Defaults t) opts)) = None"
    and eqs: "tid = Some (t_ID t)" "rfs = t_RootfsRef t" "krn = t_KernelRef t"
      "r = override (t_Defaults t) opts"
    by (auto simp: resolveCreate_def Let_def split: option.splits)
  from t have "t \<in> set (c_templates (s_Catalog sp)) \<and> (o_TemplateID opts \<noteq> [] \<longrightarrow> t_ID t = o_TemplateID opts)"
    using catalog_Get_iff [OF assms(3)] ts by (auto split: if_splits)
  with v eqs show ?thesis by (auto simp: Validate_None split: if_splits)
qed

end
