(* ===== verification/Agent_Api.thy ===== *)
theory Agent_Api
  imports Go_Prelude
begin

text \<open>
  The wire contract between the control plane and the node-agent (\<open>nodeagent/api/agentapi.go\<close>):
  the status report, the requests, the capacity report, the constants both sides compare, and the rules for the guest ports a
  tunnel may reach. Ports are \<open>uint32\<close>.
\<close>

section \<open>Status report and driver states\<close>

record snapshot_info =
  si_Present :: bool
  si_CreatedAt :: string
  si_FCVersion :: string
  si_MemBytes :: int

record machine_status =
  st_MachineID :: string
  st_State :: string
  st_Reason :: string
  st_Handle :: string
  st_GuestIP :: string
  st_Boot :: string
  st_DiskID :: string
  st_Snapshot :: snapshot_info

definition AgentCreating :: string where "AgentCreating = ''creating''"
definition AgentRunning :: string where "AgentRunning = ''running''"
definition AgentStopping :: string where "AgentStopping = ''stopping''"
definition AgentHibernating :: string where "AgentHibernating = ''hibernating''"
definition AgentStopped :: string where "AgentStopped = ''stopped''"
definition AgentError :: string where "AgentError = ''error''"

lemmas agent_states = AgentCreating_def AgentRunning_def AgentStopping_def AgentHibernating_def
  AgentStopped_def AgentError_def

section \<open>Requests and the capacity report\<close>

record ensure_request =
  er_Vcpus :: int
  er_MemMiB :: int
  er_KernelRef :: string
  er_RootfsRef :: string
  er_DiskID :: string
  er_DiskMiB :: int
  er_VolumeKeyB64 :: string
  er_NetworkPolicy :: "(string \<times> string list) option"

record capacity =
  cap_TotalVcpus :: int
  cap_TotalMemMiB :: int
  cap_TotalDiskMiB :: int
  cap_UsedVcpus :: int
  cap_UsedMemMiB :: int
  cap_UsedDiskMiB :: int

section \<open>Stop modes, boot kinds, network-policy modes\<close>

definition StopModeHibernate :: string where "StopModeHibernate = ''hibernate''"
definition StopModePoweroff :: string where "StopModePoweroff = ''poweroff''"
definition BootCold :: string where "BootCold = ''cold''"
definition BootResumed :: string where "BootResumed = ''resumed''"

definition NetworkPolicyAllowAll :: string where "NetworkPolicyAllowAll = ''allow_all''"
definition NetworkPolicyDenyAll :: string where "NetworkPolicyDenyAll = ''deny_all''"
definition NetworkPolicyAllowDomains :: string where "NetworkPolicyAllowDomains = ''allow_domains''"
definition NetworkPolicyDenyDomains :: string where "NetworkPolicyDenyDomains = ''deny_domains''"

lemmas policy_mode_defs = NetworkPolicyAllowAll_def NetworkPolicyDenyAll_def
  NetworkPolicyAllowDomains_def NetworkPolicyDenyDomains_def

section \<open>Headers and error codes\<close>

definition BearerPrefix :: string where "BearerPrefix = ''Bearer ''"
definition UpgradeGuestProto :: string where "UpgradeGuestProto = ''proteos-guest''"

definition CodeUnknownMachine :: string where "CodeUnknownMachine = ''unknown_machine''"
definition CodeUnauthorized :: string where "CodeUnauthorized = ''unauthorized''"
definition CodeBadRequest :: string where "CodeBadRequest = ''bad_request''"
definition CodeInternal :: string where "CodeInternal = ''internal''"
definition CodeNotRunning :: string where "CodeNotRunning = ''not_running''"
definition CodeGuestUnreachable :: string where "CodeGuestUnreachable = ''guest_unreachable''"

section \<open>Guest ports\<close>

type_synonym port = "32 word"

definition GuestTerminalPort :: port where "GuestTerminalPort = 1024"
definition GuestWebPort :: port where "GuestWebPort = 1025"
definition GuestPreviewPort :: port where "GuestPreviewPort = 1026"
definition GuestSSHPort :: port where "GuestSSHPort = 1027"
definition DefaultPreviewPortMin :: port where "DefaultPreviewPortMin = 1026"
definition DefaultPreviewPortMax :: port where "DefaultPreviewPortMax = 65535"

definition IsSystemGuestPort :: "port \<Rightarrow> bool" where
  "IsSystemGuestPort p = (p = GuestTerminalPort \<or> p = GuestWebPort \<or> p = GuestSSHPort)"

definition ValidPreviewPort :: "port \<Rightarrow> port \<Rightarrow> port \<Rightarrow> bool" where
  "ValidPreviewPort p mn mx = (if IsSystemGuestPort p then False else p \<ge> mn \<and> p \<le> mx)"

definition ValidGuestPort :: "port \<Rightarrow> port \<Rightarrow> port \<Rightarrow> bool" where
  "ValidGuestPort p mn mx = (IsSystemGuestPort p \<or> ValidPreviewPort p mn mx)"

definition PreviewPreamble :: "port \<Rightarrow> string" where
  "PreviewPreamble p = nat_str (unat p) @ [CHR 0x0A]"

lemmas guest_ports = GuestTerminalPort_def GuestWebPort_def GuestPreviewPort_def GuestSSHPort_def
  DefaultPreviewPortMin_def DefaultPreviewPortMax_def

end
