(* ===== verification/Machine_Scheduler.thy ===== *)
theory Machine_Scheduler
  imports Machine_Template Agent_Api
begin

text \<open>
  The placement decision of \<open>machine/scheduler.go\<close>. The capacity answers of the node-agents
  are the argument \<open>query\<close>; the model also returns the hosts it queried, in order.
\<close>

definition freeVcpus :: "capacity \<Rightarrow> int" where "freeVcpus c = cap_TotalVcpus c - cap_UsedVcpus c"
definition freeMem :: "capacity \<Rightarrow> int" where "freeMem c = cap_TotalMemMiB c - cap_UsedMemMiB c"

text \<open>The scan over the active hosts; \<open>best\<close> is the host found so far with its free memory.\<close>

fun chooseHost_loop ::
  "(pg_uuid \<Rightarrow> capacity res) \<Rightarrow> resources \<Rightarrow> (host \<times> int) option \<Rightarrow> host list \<Rightarrow> (host \<times> int) option" where
  "chooseHost_loop query r best [] = best"
| "chooseHost_loop query r best (h # hs) = chooseHost_loop query r
     (case query (h_ID h) of
        Inl e \<Rightarrow> best
      | Inr c \<Rightarrow>
        if freeVcpus c < r_Vcpus r \<or> freeMem c < r_MemMiB r then best
        else (case best of
            None \<Rightarrow> Some (h, freeMem c)
          | Some (b, bestFreeMem) \<Rightarrow>
            if freeMem c > bestFreeMem \<or> (freeMem c = bestFreeMem \<and> str_less (h_Name h) (h_Name b))
            then Some (h, freeMem c) else best)) hs"

definition chooseHost ::
  "dbctx \<Rightarrow> db \<Rightarrow> (pg_uuid \<Rightarrow> capacity res) \<Rightarrow> resources \<Rightarrow> pg_uuid list \<times> host res" where
  "chooseHost c d query r =
     (case ListActiveHosts c d of
        Inl e \<Rightarrow> ([], Inl (Errorf ''list active hosts: '' e []))
      | Inr [] \<Rightarrow> ([], Inl (Sentinel ErrNoCapacity))
      | Inr [h] \<Rightarrow> ([], Inr h)
      | Inr hosts \<Rightarrow>
        (map h_ID hosts,
         case chooseHost_loop query r None hosts of
           None \<Rightarrow> Inl (Sentinel ErrNoCapacity)
         | Some (h, _) \<Rightarrow> Inr h))"

section \<open>The scan returns the best host that fits\<close>

definition fits :: "(pg_uuid \<Rightarrow> capacity res) \<Rightarrow> resources \<Rightarrow> host \<Rightarrow> int \<Rightarrow> bool" where
  "fits query r h f = (\<exists>c. query (h_ID h) = Inr c \<and> r_Vcpus r \<le> freeVcpus c \<and> r_MemMiB r \<le> freeMem c
     \<and> f = freeMem c)"

text \<open>\<open>a\<close> is at least as good a place as \<open>b\<close>: more free memory, or as much and no later name.\<close>

definition as_good :: "host \<times> int \<Rightarrow> host \<times> int \<Rightarrow> bool" where
  "as_good a b = (snd b < snd a \<or> (snd a = snd b \<and> \<not> str_less (h_Name (fst b)) (h_Name (fst a))))"

lemma as_good_refl [simp]: "as_good a a"
  by (simp add: as_good_def)

lemma not_str_less_trans: "\<not> str_less b a \<Longrightarrow> \<not> str_less c b \<Longrightarrow> \<not> str_less c a"
  using str_less_linear [of a b] str_less_trans [of c a b] by auto

lemma as_good_trans: "as_good a b \<Longrightarrow> as_good b c \<Longrightarrow> as_good a c"
  unfolding as_good_def
  using not_str_less_trans [of "h_Name (fst b)" "h_Name (fst a)" "h_Name (fst c)"] by auto

lemma chooseHost_loop_best:
  "(\<forall>b. best = Some b \<longrightarrow> (\<exists>r'. chooseHost_loop query r best hs = Some r' \<and> as_good r' b))
   \<and> (\<forall>h f. h \<in> set hs \<and> fits query r h f \<longrightarrow>
        (\<exists>r'. chooseHost_loop query r best hs = Some r' \<and> as_good r' (h, f)))
   \<and> (\<forall>h f. chooseHost_loop query r best hs = Some (h, f) \<longrightarrow>
        best = Some (h, f) \<or> (h \<in> set hs \<and> fits query r h f))"
proof (induction hs arbitrary: best)
  case (Cons x xs)
  define nb where "nb = (case query (h_ID x) of
        Inl e \<Rightarrow> best
      | Inr c \<Rightarrow>
        if freeVcpus c < r_Vcpus r \<or> freeMem c < r_MemMiB r then best
        else (case best of
            None \<Rightarrow> Some (x, freeMem c)
          | Some (b, bestFreeMem) \<Rightarrow>
            if freeMem c > bestFreeMem \<or> (freeMem c = bestFreeMem \<and> str_less (h_Name x) (h_Name b))
            then Some (x, freeMem c) else best))"
  have step: "chooseHost_loop query r best (x # xs) = chooseHost_loop query r nb xs"
    by (simp add: nb_def)
  have old: "\<exists>n. nb = Some n \<and> as_good n b" if "best = Some b" for b
    using that by (cases b) (auto simp: nb_def as_good_def split: sum.splits dest: str_less_trans)
  have new: "\<exists>n. nb = Some n \<and> as_good n (x, f)" if fit: "fits query r x f" for f
  proof -
    obtain c where c: "query (h_ID x) = Inr c" "r_Vcpus r \<le> freeVcpus c" "r_MemMiB r \<le> freeMem c"
      "f = freeMem c" using fit unfolding fits_def by blast
    show ?thesis
    proof (cases best)
      case (Some b)
      then show ?thesis using c by (cases b) (auto simp: nb_def as_good_def)
    qed (use c in \<open>auto simp: nb_def\<close>)
  qed
  have src: "best = Some n \<or> (fst n = x \<and> fits query r x (snd n))" if "nb = Some n" for n
    using that by (auto simp: nb_def fits_def split: sum.splits if_splits option.splits prod.splits)
  note IH = Cons.IH [of nb]
  show ?case unfolding step
  proof (intro conjI allI impI)
    fix b assume "best = Some b"
    then obtain n where "nb = Some n" "as_good n b" using old by blast
    moreover from this IH obtain r' where "chooseHost_loop query r nb xs = Some r'" "as_good r' n" by blast
    ultimately show "\<exists>r'. chooseHost_loop query r nb xs = Some r' \<and> as_good r' b"
      using as_good_trans by blast
  next
    fix h f assume hf: "h \<in> set (x # xs) \<and> fits query r h f"
    show "\<exists>r'. chooseHost_loop query r nb xs = Some r' \<and> as_good r' (h, f)"
    proof (cases "h = x")
      case True
      with hf obtain n where "nb = Some n" "as_good n (h, f)" using new by blast
      moreover from this IH obtain r' where "chooseHost_loop query r nb xs = Some r'" "as_good r' n" by blast
      ultimately show ?thesis using as_good_trans by blast
    qed (use hf IH in auto)
  next
    fix h f assume "chooseHost_loop query r nb xs = Some (h, f)"
    then have "nb = Some (h, f) \<or> (h \<in> set xs \<and> fits query r h f)" using IH by blast
    then show "best = Some (h, f) \<or> h \<in> set (x # xs) \<and> fits query r h f"
      using src by fastforce
  qed
qed auto

end
