(* ===== verification/Machine_State.thy ===== *)
theory Machine_State
  imports Store_Model
begin

text \<open>
  The machine state machine (\<open>machine/state.go\<close>, \<open>machine/transition.go\<close>): the table of
  legal transitions and the guarded compare-and-set that writes the state change and its
  audit event in one transaction. The locale \<open>audited_transition\<close> is the contract the
  service and the poller rely on; its lemmas say what any such operation keeps of the
  database invariant, and its interpretation discharges the contract for \<open>Transition\<close>.
\<close>

section \<open>The transition table\<close>

fun allowed :: "state \<Rightarrow> state list" where
  "allowed StateRequested = [StateProvisioning, StateError]"
| "allowed StateProvisioning = [StateRunning, StateError]"
| "allowed StateRunning = [StateStopping, StateHibernating, StateError]"
| "allowed StateStopping = [StateStopped, StateError]"
| "allowed StateHibernating = [StateStopped, StateError]"
| "allowed StateStopped = [StateStarting]"
| "allowed StateStarting = [StateRunning, StateError]"
| "allowed StateError = [StateStarting]"

definition CanTransition :: "state \<Rightarrow> state \<Rightarrow> bool" where
  "CanTransition from_state to_state = (to_state \<in> set (allowed from_state))"

fun Transitional :: "state \<Rightarrow> bool" where
  "Transitional StateProvisioning = True"
| "Transitional StateStarting = True"
| "Transitional StateStopping = True"
| "Transitional StateHibernating = True"
| "Transitional _ = False"

definition EventTransition :: string where "EventTransition = ''transition''"
definition EventError :: string where "EventError = ''error''"
definition EventInfo :: string where "EventInfo = ''info''"
definition ActorAPI :: string where "ActorAPI = ''system:api''"
definition ActorPoller :: string where "ActorPoller = ''system:poller''"
definition ActorUser :: "string \<Rightarrow> string" where "ActorUser user_id = ''user:'' @ user_id"

section \<open>The guarded transition\<close>

record transition_params =
  tp_MachineID :: pg_uuid
  tp_From :: state
  tp_To :: state
  tp_Actor :: string
  tp_EventType :: string
  tp_Payload :: "json_object option"
  tp_LastError :: "string option"

text \<open>
  Statements of the transaction run on the working copy; a failure before the commit rolls
  it back. A sequence is not rolled back, so a failed commit keeps the advanced
  \<open>t_event_seq\<close>.
\<close>

definition Transition ::
  "dbctx \<Rightarrow> db \<Rightarrow> transition_params \<Rightarrow> db \<times> (machine \<times> machine_event) res" where
  "Transition c d p =
     (if \<not> CanTransition (tp_From p) (tp_To p)
      then (d, Inl (ErrInvalidTransition (state_string (tp_From p)) (state_string (tp_To p))))
      else case run_query c (QBegin (tp_MachineID p) (tp_To p)) (Inr ()) of
        Inl e \<Rightarrow> (d, Inl (Errorf ''begin tx: '' e []))
      | Inr _ \<Rightarrow>
        (case UpdateMachineState c d (tp_MachineID p) (tp_From p) (tp_To p) (tp_LastError p) of
           Inl e \<Rightarrow>
             (d, Inl (if errors_Is e ErrNoRows then Sentinel ErrStateConflict
                      else Errorf ''update state: '' e []))
         | Inr (d1, m) \<Rightarrow>
           (let eventType = (if tp_EventType p = [] then EventTransition else tp_EventType p);
                payload = (case tp_Payload p of None \<Rightarrow> [] | Some b \<Rightarrow> b)
            in case InsertMachineEvent c d1 (tp_MachineID p) eventType (Some (tp_From p))
                      (Some (tp_To p)) (tp_Actor p) payload of
                 Inl e \<Rightarrow> (d, Inl (Errorf ''insert event: '' e []))
               | Inr (d2, ev) \<Rightarrow>
                 (case run_query c (QCommit (tp_MachineID p) (tp_To p)) (Inr ()) of
                    Inl e \<Rightarrow> (d\<lparr>t_event_seq := t_event_seq d2\<rparr>, Inl (Errorf ''commit: '' e []))
                  | Inr _ \<Rightarrow> (d2, Inr (m, ev))))))"

section \<open>The database invariant\<close>

text \<open>
  A path through the transition table, read off the state columns of a list of events.
\<close>

fun chain :: "state \<Rightarrow> (state option \<times> state option) list \<Rightarrow> state \<Rightarrow> bool" where
  "chain s [] t = (s = t)"
| "chain s ((Some a, Some b) # es) t = (a = s \<and> CanTransition a b \<and> chain b es t)"
| "chain s _ t = False"

text \<open>The state changes the audit log records for a machine, oldest first.\<close>

definition state_log :: "db \<Rightarrow> pg_uuid \<Rightarrow> (state option \<times> state option) list" where
  "state_log d i = map (\<lambda>e. (ev_FromState e, ev_ToState e))
     (filter (\<lambda>e. ev_MachineID e = i \<and> ev_ToState e \<noteq> None) (t_events d))"

definition audited :: "db \<Rightarrow> bool" where
  "audited d = (\<forall>m \<in> set (t_machines d). chain StateRequested (state_log d (m_ID m)) (m_State m))"

definition keys_ok :: "db \<Rightarrow> bool" where
  "keys_ok d = (distinct (map m_ID (t_machines d)) \<and> (\<forall>i \<in> m_ID ` set (t_machines d). proper_uuid i)
     \<and> distinct (map sn_MachineID (t_snapshots d))
     \<and> distinct (map d_MachineID (t_disks d)) \<and> distinct (map np_MachineID (t_policies d)))"

definition refs_ok :: "db \<Rightarrow> bool" where
  "refs_ok d = (ev_MachineID ` set (t_events d) \<subseteq> m_ID ` set (t_machines d)
     \<and> d_MachineID ` set (t_disks d) \<subseteq> m_ID ` set (t_machines d)
     \<and> sn_MachineID ` set (t_snapshots d) \<subseteq> m_ID ` set (t_machines d)
     \<and> np_MachineID ` set (t_policies d) \<subseteq> m_ID ` set (t_machines d)
     \<and> at_MachineID ` set (t_tasks d) \<subseteq> m_ID ` set (t_machines d))"

definition event_ids_ok :: "db \<Rightarrow> bool" where
  "event_ids_ok d = (sorted_wrt (<) (map ev_ID (t_events d))
     \<and> (\<forall>e \<in> set (t_events d). ev_ID e \<le> t_event_seq d))"

definition db_inv :: "db \<Rightarrow> bool" where
  "db_inv d = (keys_ok d \<and> refs_ok d \<and> event_ids_ok d \<and> audited d)"

lemmas db_inv_defs = db_inv_def keys_ok_def refs_ok_def event_ids_ok_def audited_def

lemma chain_snoc:
  "chain s (es @ [(Some a, Some b)]) t \<longleftrightarrow> chain s es a \<and> CanTransition a b \<and> b = t"
proof (induction s es a rule: chain.induct)
  case (2 s a' b' es t')
  then show ?case by auto
qed auto

lemma state_log_cong:
  "t_events d' = t_events d \<Longrightarrow> state_log d' i = state_log d i"
  by (simp add: state_log_def)

lemma state_log_snoc:
  "t_events d' = t_events d @ [e] \<Longrightarrow>
   state_log d' i = state_log d i
     @ (if ev_MachineID e = i \<and> ev_ToState e \<noteq> None then [(ev_FromState e, ev_ToState e)] else [])"
  by (simp add: state_log_def)

lemma db_inv_seq: "db_inv d \<Longrightarrow> t_event_seq d \<le> n \<Longrightarrow> db_inv (d\<lparr>t_event_seq := n\<rparr>)"
  by (fastforce simp: db_inv_defs state_log_def)

text \<open>
  The changes that leave identity, ownership and state of every machine row alone.
\<close>

definition same_lifecycle :: "(machine \<Rightarrow> machine) \<Rightarrow> bool" where
  "same_lifecycle f = (\<forall>m. m_ID (f m) = m_ID m \<and> m_UserID (f m) = m_UserID m
     \<and> m_State (f m) = m_State m)"

lemma m_ID_tbl_update:
  "(\<And>m. m_ID (f m) = m_ID m) \<Longrightarrow> m_ID ` set (tbl_update p f ms) = m_ID ` set ms"
  using map_tbl_update [of m_ID f p ms] by (metis list.set_map)

lemma db_inv_row_update:
  assumes "db_inv d" and f: "same_lifecycle f"
  shows "db_inv (d\<lparr>t_machines := tbl_update p f (t_machines d)\<rparr>)"
proof -
  let ?d = "d\<lparr>t_machines := tbl_update p f (t_machines d)\<rparr>"
  have fid: "\<And>m. m_ID (f m) = m_ID m" and fst: "\<And>m. m_State (f m) = m_State m"
    using f by (simp_all add: same_lifecycle_def)
  have log: "state_log ?d i = state_log d i" for i by (rule state_log_cong) simp
  have "audited ?d"
    using assms(1) by (auto simp: audited_def db_inv_def log set_tbl_update fid fst)
  moreover have "keys_ok ?d" "refs_ok ?d" "event_ids_ok ?d"
    using assms(1)
    by (simp_all add: db_inv_def keys_ok_def refs_ok_def event_ids_ok_def
        map_tbl_update [where k = m_ID] fid m_ID_tbl_update)
  ultimately show ?thesis by (simp add: db_inv_def)
qed

section \<open>The contract of an audited transition\<close>

locale audited_transition =
  fixes T :: "dbctx \<Rightarrow> db \<Rightarrow> transition_params \<Rightarrow> db \<times> (machine \<times> machine_event) res"
  assumes T_error: "T c d p = (d', Inl e) \<Longrightarrow>
      \<exists>n. t_event_seq d \<le> n \<and> d' = d\<lparr>t_event_seq := n\<rparr>"
    and T_legal: "T c d p = (d', Inr (m', ev)) \<Longrightarrow> CanTransition (tp_From p) (tp_To p)"
    and T_row: "T c d p = (d', Inr (m', ev)) \<Longrightarrow>
      \<exists>m t. find_machine d (tp_MachineID p) = Some m \<and> m_State m = tp_From p
        \<and> m' = m\<lparr>m_State := tp_To p, m_LastError := tp_LastError p, m_UpdatedAt := t\<rparr>
        \<and> d' = d\<lparr>t_machines := tbl_update (\<lambda>r. m_ID r = tp_MachineID p)
                    (\<lambda>m. m\<lparr>m_State := tp_To p, m_LastError := tp_LastError p, m_UpdatedAt := t\<rparr>)
                    (t_machines d),
                  t_events := t_events d @ [ev], t_event_seq := ev_ID ev\<rparr>"
    and T_event: "T c d p = (d', Inr (m', ev)) \<Longrightarrow>
      ev_MachineID ev = tp_MachineID p \<and> ev_FromState ev = Some (tp_From p)
      \<and> ev_ToState ev = Some (tp_To p) \<and> ev_Actor ev = tp_Actor p
      \<and> ev_ID ev = t_event_seq d + 1"
begin

lemma T_inv:
  assumes inv: "db_inv d" and T: "T c d p = (d', r)"
  shows "db_inv d'"
proof (cases r)
  case (Inl e)
  then obtain n where "t_event_seq d \<le> n" "d' = d\<lparr>t_event_seq := n\<rparr>"
    using T_error T by blast
  with inv show ?thesis by (simp add: db_inv_seq)
next
  case (Inr x)
  then obtain m' ev where ok: "T c d p = (d', Inr (m', ev))" using T by (cases x) auto
  define i where "i = tp_MachineID p"
  from T_row [OF ok] obtain m t where m: "find_machine d i = Some m" "m_State m = tp_From p"
    and d': "d' = d\<lparr>t_machines := tbl_update (\<lambda>r. m_ID r = i)
                    (\<lambda>m. m\<lparr>m_State := tp_To p, m_LastError := tp_LastError p, m_UpdatedAt := t\<rparr>)
                    (t_machines d),
                  t_events := t_events d @ [ev], t_event_seq := ev_ID ev\<rparr>"
    unfolding i_def by blast
  note ev = T_event [OF ok, folded i_def]
  from m(1) have mem: "m \<in> set (t_machines d)" and mi: "m_ID m = i"
    using find_machine_Some by blast+
  have log: "state_log d' k = state_log d k @ (if k = i then [(Some (tp_From p), Some (tp_To p))] else [])"
    for k using ev by (subst state_log_snoc [where d = d and e = ev]) (auto simp: d')
  have uniq: "m_State r = tp_From p" if "r \<in> set (t_machines d)" "m_ID r = i" for r
  proof -
    have "r = m" using that mem mi inv
      by (simp add: db_inv_def keys_ok_def distinct_map inj_on_def)
    with m(2) show ?thesis by simp
  qed
  have chain: "chain StateRequested (state_log d (m_ID r)) (m_State r)" if "r \<in> set (t_machines d)" for r
    using inv that by (simp add: db_inv_def audited_def)
  have "audited d'"
  proof -
    have "chain StateRequested (state_log d' (m_ID r)) (if m_ID r = i then tp_To p else m_State r)"
      if r: "r \<in> set (t_machines d)" for r
      using chain [OF r] uniq [OF r] T_legal [OF ok] by (auto simp: log chain_snoc)
    moreover have "\<exists>r \<in> set (t_machines d). m_ID q = m_ID r
        \<and> m_State q = (if m_ID r = i then tp_To p else m_State r)"
      if "q \<in> set (t_machines d')" for q
      using that by (auto simp: d' set_tbl_update)
    ultimately show ?thesis by (metis audited_def)
  qed
  moreover have "keys_ok d'" "refs_ok d'"
    using inv ev mem mi
    by (auto simp: d' db_inv_def keys_ok_def refs_ok_def map_tbl_update [where k = m_ID] m_ID_tbl_update)
  moreover have "event_ids_ok d'"
    using inv ev by (fastforce simp: d' db_inv_def event_ids_ok_def sorted_wrt_append)
  ultimately show ?thesis by (simp add: db_inv_def)
qed

text \<open>Rows of other machines, and every other table, are left alone.\<close>

lemma T_frame:
  assumes "T c d p = (d', r)"
  shows "filter (\<lambda>m. m_ID m \<noteq> tp_MachineID p) (t_machines d')
           = filter (\<lambda>m. m_ID m \<noteq> tp_MachineID p) (t_machines d)
       \<and> filter (\<lambda>e. ev_MachineID e \<noteq> tp_MachineID p) (t_events d')
           = filter (\<lambda>e. ev_MachineID e \<noteq> tp_MachineID p) (t_events d)
       \<and> t_disks d' = t_disks d \<and> t_snapshots d' = t_snapshots d \<and> t_policies d' = t_policies d
       \<and> t_hosts d' = t_hosts d \<and> t_tasks d' = t_tasks d"
proof (cases r)
  case (Inl e)
  then show ?thesis using T_error assms by fastforce
next
  case (Inr x)
  then obtain m' ev where ok: "T c d p = (d', Inr (m', ev))" using assms by (cases x) auto
  show ?thesis using T_row [OF ok] T_event [OF ok]
    by (auto simp: filter_tbl_update)
qed

text \<open>No transition moves a machine to another owner or changes the set of machines.\<close>

lemma T_owner:
  assumes "T c d p = (d', r)"
  shows "map (\<lambda>m. (m_ID m, m_UserID m)) (t_machines d')
    = map (\<lambda>m. (m_ID m, m_UserID m)) (t_machines d)"
proof (cases r)
  case (Inl e)
  then show ?thesis using T_error assms by fastforce
next
  case (Inr x)
  then obtain m' ev where ok: "T c d p = (d', Inr (m', ev))" using assms by (cases x) auto
  show ?thesis using T_row [OF ok] by (auto simp: map_tbl_update)
qed

end

section \<open>\<open>Transition\<close> meets the contract\<close>

lemma UpdateMachineState_InrD:
  assumes "UpdateMachineState c d i a b le = Inr (d', m')"
  shows "\<exists>m t. find_machine d i = Some m \<and> m_State m = a
    \<and> m' = m\<lparr>m_State := b, m_LastError := le, m_UpdatedAt := t\<rparr>
    \<and> d' = d\<lparr>t_machines := tbl_update (\<lambda>r. m_ID r = i)
         (\<lambda>m. m\<lparr>m_State := b, m_LastError := le, m_UpdatedAt := t\<rparr>) (t_machines d)\<rparr>"
  using assms unfolding UpdateMachineState_def
  by (blast dest!: run_query_InrD update_machine_InrD)

lemma InsertMachineEvent_InrD:
  assumes "InsertMachineEvent c d i typ f t a pl = Inr (d', ev)"
  shows "d' = d\<lparr>t_events := t_events d @ [ev], t_event_seq := ev_ID ev\<rparr>
    \<and> ev_ID ev = t_event_seq d + 1 \<and> ev_MachineID ev = i \<and> ev_Type ev = typ
    \<and> ev_FromState ev = f \<and> ev_ToState ev = t \<and> ev_Actor ev = a \<and> ev_Payload ev = pl
    \<and> find_machine d i \<noteq> None"
  using assms unfolding InsertMachineEvent_def
  by (auto simp: Let_def split: if_splits dest!: run_query_InrD)

lemma Transition_InrD:
  assumes "Transition c d p = (d', Inr (m', ev))"
  shows "CanTransition (tp_From p) (tp_To p) \<and>
    (\<exists>d1. UpdateMachineState c d (tp_MachineID p) (tp_From p) (tp_To p) (tp_LastError p) = Inr (d1, m')
      \<and> InsertMachineEvent c d1 (tp_MachineID p)
          (if tp_EventType p = [] then EventTransition else tp_EventType p)
          (Some (tp_From p)) (Some (tp_To p)) (tp_Actor p)
          (case tp_Payload p of None \<Rightarrow> [] | Some b \<Rightarrow> b) = Inr (d', ev))"
  using assms unfolding Transition_def
  by (auto simp: Let_def split: if_splits sum.splits)

lemma Transition_InlD:
  assumes "Transition c d p = (d', Inl e)"
  shows "d' = d \<or> d' = d\<lparr>t_event_seq := t_event_seq d + 1\<rparr>"
  using assms unfolding Transition_def
  by (auto simp: Let_def split: if_splits sum.splits dest!: InsertMachineEvent_InrD UpdateMachineState_InrD)

interpretation txn: audited_transition Transition
proof unfold_locales
  fix c d p d' e
  assume "Transition c d p = (d', Inl e)"
  from Transition_InlD [OF this] show "\<exists>n. t_event_seq d \<le> n \<and> d' = d\<lparr>t_event_seq := n\<rparr>"
  proof
    assume "d' = d"
    then have "d' = d\<lparr>t_event_seq := t_event_seq d\<rparr>" by simp
    then show ?thesis by blast
  qed (auto intro!: exI [of _ "t_event_seq d + 1"])
next
  fix c d p d' m' ev
  assume ok: "Transition c d p = (d', Inr (m', ev))"
  note D = Transition_InrD [OF ok]
  from D show "CanTransition (tp_From p) (tp_To p)" by blast
  from D obtain d1 where
    u: "UpdateMachineState c d (tp_MachineID p) (tp_From p) (tp_To p) (tp_LastError p) = Inr (d1, m')"
    and "InsertMachineEvent c d1 (tp_MachineID p)
          (if tp_EventType p = [] then EventTransition else tp_EventType p)
          (Some (tp_From p)) (Some (tp_To p)) (tp_Actor p)
          (case tp_Payload p of None \<Rightarrow> [] | Some b \<Rightarrow> b) = Inr (d', ev)" by blast
  note ins = InsertMachineEvent_InrD [OF this(2)]
  from UpdateMachineState_InrD [OF u] ins
  show "\<exists>m t. find_machine d (tp_MachineID p) = Some m \<and> m_State m = tp_From p
        \<and> m' = m\<lparr>m_State := tp_To p, m_LastError := tp_LastError p, m_UpdatedAt := t\<rparr>
        \<and> d' = d\<lparr>t_machines := tbl_update (\<lambda>r. m_ID r = tp_MachineID p)
                    (\<lambda>m. m\<lparr>m_State := tp_To p, m_LastError := tp_LastError p, m_UpdatedAt := t\<rparr>)
                    (t_machines d),
                  t_events := t_events d @ [ev], t_event_seq := ev_ID ev\<rparr>"
    by auto
  from UpdateMachineState_InrD [OF u] ins
  show "ev_MachineID ev = tp_MachineID p \<and> ev_FromState ev = Some (tp_From p)
      \<and> ev_ToState ev = Some (tp_To p) \<and> ev_Actor ev = tp_Actor p
      \<and> ev_ID ev = t_event_seq d + 1"
    by auto
qed

text \<open>The exact error of each failing branch, and when the operation succeeds.\<close>

lemma Transition_illegal:
  "\<not> CanTransition (tp_From p) (tp_To p) \<Longrightarrow>
   Transition c d p = (d, Inl (ErrInvalidTransition (state_string (tp_From p)) (state_string (tp_To p))))"
  by (simp add: Transition_def)

lemma Transition_conflict:
  assumes "CanTransition (tp_From p) (tp_To p)" "fault c = (\<lambda>_. None)"
    and "\<forall>m. find_machine d (tp_MachineID p) = Some m \<longrightarrow> m_State m \<noteq> tp_From p"
  shows "Transition c d p = (d, Inl (Sentinel ErrStateConflict))"
  using assms
  by (auto simp: Transition_def UpdateMachineState_def update_machine_def split: option.splits)

lemma Transition_succeeds:
  assumes "CanTransition (tp_From p) (tp_To p)" "fault c = (\<lambda>_. None)"
    and m: "find_machine d (tp_MachineID p) = Some m" and st: "m_State m = tp_From p"
  shows "\<exists>d' m' ev. Transition c d p = (d', Inr (m', ev))"
proof -
  obtain d1 m' where u: "UpdateMachineState c d (tp_MachineID p) (tp_From p) (tp_To p) (tp_LastError p) = Inr (d1, m')"
    using m st assms(2) by (simp add: UpdateMachineState_def update_machine_def)
  then have "find_machine d1 (tp_MachineID p) \<noteq> None"
    using UpdateMachineState_InrD [OF u] m
    by (auto simp: find_machine_def find_key_tbl_update)
  then obtain d2 ev where "InsertMachineEvent c d1 (tp_MachineID p)
      (if tp_EventType p = [] then EventTransition else tp_EventType p)
      (Some (tp_From p)) (Some (tp_To p)) (tp_Actor p)
      (case tp_Payload p of None \<Rightarrow> [] | Some b \<Rightarrow> b) = Inr (d2, ev)"
    using assms(2) by (simp add: InsertMachineEvent_def Let_def)
  with u assms show ?thesis by (simp add: Transition_def Let_def)
qed

end
