(* ===== verification/Go_Regexp.thy ===== *)
theory Go_Regexp
  imports Go_Prelude
begin

text \<open>
  The regular expressions the program compiles with \<open>regexp.MustCompile\<close>, as terms that
  mirror the pattern text, with an executable matcher by derivatives for patterns anchored
  at both ends and its correctness against the language of the expression.
\<close>

datatype rx = Zero | Eps | Cls "char \<Rightarrow> bool" | Seq rx rx | Alt rx rx | Star rx

definition Plus :: "rx \<Rightarrow> rx" where "Plus r = Seq r (Star r)"
definition Opt :: "rx \<Rightarrow> rx" where "Opt r = Alt Eps r"
definition Lit :: "char \<Rightarrow> rx" where "Lit c = Cls (\<lambda>d. d = c)"

fun nullable :: "rx \<Rightarrow> bool" where
  "nullable Zero = False"
| "nullable Eps = True"
| "nullable (Cls p) = False"
| "nullable (Seq r s) = (nullable r \<and> nullable s)"
| "nullable (Alt r s) = (nullable r \<or> nullable s)"
| "nullable (Star r) = True"

fun deriv :: "char \<Rightarrow> rx \<Rightarrow> rx" where
  "deriv c Zero = Zero"
| "deriv c Eps = Zero"
| "deriv c (Cls p) = (if p c then Eps else Zero)"
| "deriv c (Seq r s) =
     (if nullable r then Alt (Seq (deriv c r) s) (deriv c s) else Seq (deriv c r) s)"
| "deriv c (Alt r s) = Alt (deriv c r) (deriv c s)"
| "deriv c (Star r) = Seq (deriv c r) (Star r)"

fun MatchString :: "rx \<Rightarrow> string \<Rightarrow> bool" where
  "MatchString r [] = nullable r"
| "MatchString r (c # cs) = MatchString (deriv c r) cs"

section \<open>Languages\<close>

fun lang :: "rx \<Rightarrow> string set" where
  "lang Zero = {}"
| "lang Eps = {[]}"
| "lang (Cls p) = {[c] |c. p c}"
| "lang (Seq r s) = {x @ y |x y. x \<in> lang r \<and> y \<in> lang s}"
| "lang (Alt r s) = lang r \<union> lang s"
| "lang (Star r) = {concat ws |ws. set ws \<subseteq> lang r}"

lemma nullable_iff: "nullable r \<longleftrightarrow> [] \<in> lang r"
proof (induction r)
  case (Star r)
  show ?case by (auto intro: exI [of _ "[]"])
qed auto

lemma star_Cons:
  assumes "set ws \<subseteq> A" "concat ws = c # w"
  shows "\<exists>u ws'. c # u \<in> A \<and> set ws' \<subseteq> A \<and> w = u @ concat ws'"
  using assms
proof (induction ws)
  case (Cons x ws)
  then show ?case
  proof (cases x)
    case Nil
    with Cons show ?thesis by auto
  next
    case (Cons d u)
    with Cons.prems show ?thesis by auto
  qed
qed simp

lemma lang_deriv: "lang (deriv c r) = {w. c # w \<in> lang r}"
proof (induction r)
  case (Seq r s)
  have "c # w = x @ y \<longleftrightarrow> (x = [] \<and> c # w = y) \<or> (\<exists>x'. x = c # x' \<and> w = x' @ y)" for w x y
    by (auto simp: Cons_eq_append_conv)
  with Seq show ?case by (auto simp: nullable_iff Cons_eq_append_conv)
next
  case (Star r)
  show ?case
  proof (intro set_eqI iffI)
    fix w assume "w \<in> lang (deriv c (Star r))"
    then obtain u ws where "w = u @ concat ws" "c # u \<in> lang r" "set ws \<subseteq> lang r"
      using Star.IH by auto
    then have "c # w = concat ((c # u) # ws)" "set ((c # u) # ws) \<subseteq> lang r" by simp_all
    then show "w \<in> {w. c # w \<in> lang (Star r)}" unfolding lang.simps(6) by blast
  next
    fix w assume "w \<in> {w. c # w \<in> lang (Star r)}"
    then obtain ws where "set ws \<subseteq> lang r" "concat ws = c # w" by auto
    from star_Cons [OF this] Star.IH show "w \<in> lang (deriv c (Star r))" by auto
  qed
qed auto

lemma MatchString_iff: "MatchString r s \<longleftrightarrow> s \<in> lang r"
  by (induction s arbitrary: r) (simp_all add: nullable_iff lang_deriv)

text \<open>Repetitions of one character class.\<close>

lemma lang_Star_Cls: "lang (Star (Cls p)) = {w. list_all p w}"
proof -
  have "list_all p (concat ws)" if "set ws \<subseteq> {[c] |c. p c}" for ws
    using that by (induction ws) auto
  moreover have "\<exists>ws. w = concat ws \<and> set ws \<subseteq> {[c] |c. p c}" if "list_all p w" for w
    using that by (intro exI [of _ "map (\<lambda>c. [c]) w"]) (auto simp: list_all_iff)
  ultimately show ?thesis by auto
qed

section \<open>Character classes\<close>

definition is_lower :: "char \<Rightarrow> bool" where
  "is_lower c = (97 \<le> (of_char c :: nat) \<and> (of_char c :: nat) \<le> 122)"

definition is_upper :: "char \<Rightarrow> bool" where
  "is_upper c = (65 \<le> (of_char c :: nat) \<and> (of_char c :: nat) \<le> 90)"

definition is_letter :: "char \<Rightarrow> bool" where
  "is_letter c = (is_lower c \<or> is_upper c)"

definition is_alnum :: "char \<Rightarrow> bool" where
  "is_alnum c = (is_letter c \<or> is_digit c)"

end
