(* ===== verification/Go_Strings.thy ===== *)
theory Go_Strings
  imports Go_Prelude
begin

text \<open>
  Functions of Go's \<open>strings\<close> and \<open>strconv\<close> packages that several components
  call: \<open>TrimSpace\<close>, \<open>EqualFold\<close> against an ASCII token, splitting at a separator or after the
  first newline, and \<open>ParseUint\<close> with 32 bits.
\<close>

section \<open>White space\<close>

text \<open>
  \<open>strings.TrimSpace\<close>: the byte sequences of the Unicode white-space characters, removed
  from both ends.
\<close>

definition space_seqs :: "string list" where
  "space_seqs = [[CHR 0x09], [CHR 0x0A], [CHR 0x0B], [CHR 0x0C], [CHR 0x0D], [CHR 0x20],
     [CHR 0xC2, CHR 0x85], [CHR 0xC2, CHR 0xA0], [CHR 0xE1, CHR 0x9A, CHR 0x80]]
     @ map (\<lambda>n. [CHR 0xE2, CHR 0x80, char_of (n :: nat)]) ([128 ..< 139] @ [168, 169, 175])
     @ [[CHR 0xE2, CHR 0x81, CHR 0x9F], [CHR 0xE3, CHR 0x80, CHR 0x80]]"

definition strip_one :: "string list \<Rightarrow> string \<Rightarrow> string option" where
  "strip_one ps s = map_option (\<lambda>p. drop (length p) s) (find (\<lambda>p. p \<noteq> [] \<and> take (length p) s = p) ps)"

lemma strip_one_shorter: "strip_one ps s = Some t \<Longrightarrow> length t < length s"
proof -
  assume "strip_one ps s = Some t"
  then obtain p where p: "find (\<lambda>p. p \<noteq> [] \<and> take (length p) s = p) ps = Some p"
    and t: "t = drop (length p) s" by (auto simp: strip_one_def)
  then have "p \<noteq> []" "take (length p) s = p" by (auto simp: find_Some_iff)
  moreover from this have "0 < length s" by (cases s) auto
  ultimately show ?thesis by (simp add: t)
qed

function trim_left :: "string list \<Rightarrow> string \<Rightarrow> string" where
  "trim_left ps s = (case strip_one ps s of None \<Rightarrow> s | Some t \<Rightarrow> trim_left ps t)"
  by pat_completeness auto
termination
  by (relation "measure (\<lambda>(ps, s). length s)") (auto dest: strip_one_shorter)

declare trim_left.simps [simp del]

definition TrimSpace :: "string \<Rightarrow> string" where
  "TrimSpace s = rev (trim_left (map rev space_seqs) (rev (trim_left space_seqs s)))"

lemma strip_one_None: "s = [] \<or> hd s \<notin> hd ` set ps \<Longrightarrow> strip_one ps s = None"
proof -
  assume a: "s = [] \<or> hd s \<notin> hd ` set ps"
  have "\<not> (p \<noteq> [] \<and> take (length p) s = p)" if "p \<in> set ps" for p
    using a that by (cases p; cases s) (auto simp: image_iff)
  then show ?thesis by (simp add: strip_one_def find_None_iff)
qed

lemma trim_left_id: "s = [] \<or> hd s \<notin> hd ` set ps \<Longrightarrow> trim_left ps s = s"
  by (subst trim_left.simps) (simp add: strip_one_None)

lemma trim_left_step: "strip_one ps s = Some t \<Longrightarrow> trim_left ps s = trim_left ps t"
  by (subst trim_left.simps) simp

lemma digit_no_space:
  assumes "is_digit c"
  shows "c \<notin> hd ` set space_seqs" "c \<notin> hd ` set (map rev space_seqs)"
  using assms by (auto simp: is_digit_def space_seqs_def upt_rec)

text \<open>A line that holds a number, as read by \<open>ReadString('\n')\<close>.\<close>

lemma TrimSpace_digits_line:
  assumes "ds \<noteq> []" "list_all is_digit ds"
  shows "TrimSpace (ds @ [CHR 0x0A]) = ds"
proof -
  have d: "is_digit (hd ds)" "is_digit (hd (rev ds))" "hd (ds @ [CHR 0x0A]) = hd ds"
    using assms by (auto simp: list_all_iff hd_rev)
  have "strip_one (map rev space_seqs) (CHR 0x0A # rev ds) = Some (rev ds)"
    by (simp add: strip_one_def space_seqs_def)
  then have "trim_left (map rev space_seqs) (CHR 0x0A # rev ds) = rev ds"
    using trim_left_step trim_left_id digit_no_space(2) [OF d(2)] by metis
  moreover have "trim_left space_seqs (ds @ [CHR 0x0A]) = ds @ [CHR 0x0A]"
    using trim_left_id digit_no_space(1) [OF d(1)] d(3) by metis
  ultimately show ?thesis by (simp add: TrimSpace_def)
qed

section \<open>Splitting\<close>

text \<open>\<open>bufio.Reader.ReadString\<close>: the bytes up to the first newline inclusive, and the bytes still buffered.\<close>

fun read_line :: "string \<Rightarrow> (string \<times> string) option" where
  "read_line [] = None"
| "read_line (c # cs) = (if c = CHR 0x0A then Some ([c], cs)
     else map_option (\<lambda>(l, r). (c # l, r)) (read_line cs))"

lemma read_line_append: "CHR 0x0A \<notin> set l \<Longrightarrow> read_line (l @ CHR 0x0A # r) = Some (l @ [CHR 0x0A], r)"
  by (induction l) auto

text \<open>\<open>strings.Split\<close> at a one-byte separator.\<close>

fun split_char :: "char \<Rightarrow> string \<Rightarrow> string list" where
  "split_char c [] = [[]]"
| "split_char c (x # xs) = (if x = c then [] # split_char c xs
     else case split_char c xs of f # fs \<Rightarrow> (x # f) # fs | [] \<Rightarrow> [[x]])"

lemma split_char_nonempty [simp]: "split_char c s \<noteq> []"
  by (induction s) (auto split: list.splits)

lemma split_char_append: "c \<notin> set s \<Longrightarrow> split_char c (s @ c # t) = s # split_char c t"
  by (induction s) auto

lemma split_char_single: "c \<notin> set s \<Longrightarrow> split_char c s = [s]"
  by (induction s) auto

lemma split_char_no_sep: "e \<in> set (split_char c s) \<Longrightarrow> c \<notin> set e"
  by (induction s arbitrary: e) (auto split: if_splits list.splits)

lemma split_char_sep: "split_char c (a @ c # b) = split_char c a @ split_char c b"
proof (induction a)
  case (Cons x a)
  obtain f fs where "split_char c a = f # fs" by (cases "split_char c a") auto
  with Cons show ?case by auto
qed simp

section \<open>UTF-8\<close>

text \<open>
  \<open>utf8.DecodeRune\<close>: the number of bytes of the well-formed rune at the front, 0 when there is none.
  \<open>strings.ToValidUTF8(s, "")\<close> drops every byte that starts none.
\<close>

definition byte_in :: "nat \<Rightarrow> nat \<Rightarrow> string \<Rightarrow> nat \<Rightarrow> bool" where
  "byte_in lo hi s i = (i < length s \<and> lo \<le> of_char (s ! i) \<and> of_char (s ! i) \<le> hi)"

definition rune_len :: "string \<Rightarrow> nat" where
  "rune_len s =
     (let cont = byte_in 0x80 0xBF s
      in if byte_in 0 0x7F s 0 then 1
         else if byte_in 0xC2 0xDF s 0 \<and> cont 1 then 2
         else if ((byte_in 0xE0 0xE0 s 0 \<and> byte_in 0xA0 0xBF s 1) \<or> (byte_in 0xE1 0xEC s 0 \<and> cont 1)
              \<or> (byte_in 0xED 0xED s 0 \<and> byte_in 0x80 0x9F s 1) \<or> (byte_in 0xEE 0xEF s 0 \<and> cont 1)) \<and> cont 2 then 3
         else if ((byte_in 0xF0 0xF0 s 0 \<and> byte_in 0x90 0xBF s 1) \<or> (byte_in 0xF1 0xF3 s 0 \<and> cont 1)
              \<or> (byte_in 0xF4 0xF4 s 0 \<and> byte_in 0x80 0x8F s 1)) \<and> cont 2 \<and> cont 3 then 4
         else 0)"

fun valid_utf8 :: "nat \<Rightarrow> string \<Rightarrow> string" where
  "valid_utf8 k [] = []"
| "valid_utf8 (Suc k) (c # cs) = c # valid_utf8 k cs"
| "valid_utf8 0 (c # cs) = (case rune_len (c # cs) of 0 \<Rightarrow> valid_utf8 0 cs | Suc n \<Rightarrow> c # valid_utf8 n cs)"

definition ToValidUTF8 :: "string \<Rightarrow> string" where
  "ToValidUTF8 s = valid_utf8 0 s"

lemma valid_utf8_length: "length (valid_utf8 k s) \<le> length s"
  by (induction k s rule: valid_utf8.induct) (auto split: nat.splits intro: le_SucI)

lemma ToValidUTF8_length: "length (ToValidUTF8 s) \<le> length s"
  by (simp add: ToValidUTF8_def valid_utf8_length)

lemma ToValidUTF8_ascii: "list_all (\<lambda>c. (of_char c :: nat) < 128) s \<Longrightarrow> ToValidUTF8 s = s"
proof (unfold ToValidUTF8_def, induction s)
  case (Cons c cs)
  then have "rune_len (c # cs) = Suc 0" by (simp add: rune_len_def byte_in_def Let_def)
  with Cons show ?case by simp
qed simp

text \<open>\<open>strings.Fields\<close>: the maximal runs without white space.\<close>

function fields_acc :: "string \<Rightarrow> string \<Rightarrow> string list" where
  "fields_acc cur s =
     (case s of [] \<Rightarrow> (if cur = [] then [] else [rev cur])
      | c # cs \<Rightarrow> (case strip_one space_seqs s of
            Some t \<Rightarrow> (if cur = [] then fields_acc [] t else rev cur # fields_acc [] t)
          | None \<Rightarrow> fields_acc (c # cur) cs))"
  by pat_completeness auto
termination
  by (relation "measure (\<lambda>(cur, s). length s)") (auto dest: strip_one_shorter)

declare fields_acc.simps [simp del]

definition Fields :: "string \<Rightarrow> string list" where
  "Fields s = fields_acc [] s"

text \<open>Fields are not empty.\<close>

lemma fields_acc_nonempty: "f \<in> set (fields_acc cur s) \<Longrightarrow> f \<noteq> []"
proof (induction cur s arbitrary: f rule: fields_acc.induct)
  case (1 cur s)
  note f = "1.prems" [unfolded fields_acc.simps [of cur s]]
  show ?case
  proof (cases s)
    case (Cons c cs)
    show ?thesis
    proof (cases "strip_one space_seqs s")
      case None
      with f Cons "1.IH"(1) [OF Cons None] show ?thesis by simp
    next
      case (Some t)
      with f Cons "1.IH"(2,3) [OF Cons] show ?thesis by (cases "cur = []") auto
    qed
  qed (use f in \<open>simp split: if_splits\<close>)
qed

section \<open>Comparison without case\<close>

text \<open>
  \<open>strings.EqualFold\<close> against an ASCII token. Two letters outside ASCII fold to ASCII ones: the
  long s (U+017F) and the Kelvin sign (U+212A).
\<close>

definition lower_byte :: "char \<Rightarrow> char" where
  "lower_byte c = (let n = (of_char c :: nat) in if 65 \<le> n \<and> n \<le> 90 then char_of (n + 32) else c)"

fun EqualFold :: "string \<Rightarrow> string \<Rightarrow> bool" where
  "EqualFold s [] = (s = [])"
| "EqualFold s (t # ts) =
     (if s \<noteq> [] \<and> lower_byte (hd s) = lower_byte t then EqualFold (tl s) ts
      else if lower_byte t = CHR ''s'' \<and> take 2 s = [CHR 0xC5, CHR 0xBF] then EqualFold (drop 2 s) ts
      else if lower_byte t = CHR ''k'' \<and> take 3 s = [CHR 0xE2, CHR 0x84, CHR 0xAA] then EqualFold (drop 3 s) ts
      else False)"

lemma EqualFold_refl [simp]: "EqualFold s s"
  by (induction s) auto

section \<open>Unsigned numbers\<close>

text \<open>\<open>strconv.ParseUint(s, 10, 32)\<close>.\<close>

definition ParseUint32 :: "string \<Rightarrow> 32 word option" where
  "ParseUint32 s = (if s \<noteq> [] \<and> list_all is_digit s \<and> digits_val s < 2 ^ 32 then Some (word_of_nat (digits_val s)) else None)"

lemma ParseUint32_nat_str [simp]: "ParseUint32 (nat_str (unat (p :: 32 word))) = Some p"
proof -
  have "unat p < 2 ^ LENGTH(32)" by (rule unsigned_less)
  then show ?thesis by (simp add: ParseUint32_def nat_str_digits)
qed

lemma newline_not_digit: "list_all is_digit ds \<Longrightarrow> CHR 0x0A \<notin> set ds"
  by (auto simp: list_all_iff is_digit_def)

end
