(* ===== verification/Machine_NetworkPolicy.thy ===== *)
theory Machine_NetworkPolicy
  imports Machine_State Go_Regexp Agent_Api Go_Strings
begin

text \<open>
  Network policies (\<open>machine/networkpolicy.go\<close>): validation of a mode and its domain list,
  and the lookup with its \<open>allow_all\<close> default. The ownership-checked operations that read,
  write and delete a policy are in the service theory, which owns the ownership check.
\<close>

definition validNetworkPolicyModes :: "string list" where
  "validNetworkPolicyModes = [NetworkPolicyAllowAll, NetworkPolicyDenyAll,
     NetworkPolicyAllowDomains, NetworkPolicyDenyDomains]"

record network_policy =
  pol_MachineID :: string
  pol_Mode :: string
  pol_Domains :: "string list"
  pol_UpdatedAt :: "nat option"

section \<open>Domains\<close>

text \<open>\<open>^([a-zA-Z0-9]([a-zA-Z0-9-]*[a-zA-Z0-9])?\.)+[a-zA-Z]{2,}$\<close>\<close>

definition label_rx :: rx where
  "label_rx = Seq (Cls is_alnum)
     (Opt (Seq (Star (Cls (\<lambda>c. is_alnum c \<or> c = CHR ''-''))) (Cls is_alnum)))"

definition domainPattern :: rx where
  "domainPattern = Seq (Plus (Seq label_rx (Lit (CHR ''.''))))
     (Seq (Cls is_letter) (Seq (Cls is_letter) (Star (Cls is_letter))))"

fun bad_domain :: "string list \<Rightarrow> string option" where
  "bad_domain [] = None"
| "bad_domain (d # ds) =
     (let d = TrimSpace d
      in if d = [] \<or> \<not> MatchString domainPattern d then Some d else bad_domain ds)"

definition ValidateNetworkPolicy :: "string \<Rightarrow> string list \<Rightarrow> error option" where
  "ValidateNetworkPolicy mode domains =
     (if mode \<notin> set validNetworkPolicyModes
      then Some (Errorf [] (Sentinel ErrInvalidNetworkPolicy) ('': unknown mode '' @ go_quote mode))
      else if mode \<noteq> NetworkPolicyAllowDomains \<and> mode \<noteq> NetworkPolicyDenyDomains then None
      else case bad_domain domains of
        None \<Rightarrow> None
      | Some d \<Rightarrow> Some (Errorf [] (Sentinel ErrInvalidNetworkPolicy) ('': invalid domain '' @ go_quote d)))"

section \<open>Lookup\<close>

definition defaultNetworkPolicy :: "string \<Rightarrow> network_policy" where
  "defaultNetworkPolicy machine_id = \<lparr>pol_MachineID = machine_id, pol_Mode = NetworkPolicyAllowAll,
     pol_Domains = [], pol_UpdatedAt = None\<rparr>"

definition toNetworkPolicy :: "network_policy_row \<Rightarrow> network_policy" where
  "toNetworkPolicy row = \<lparr>pol_MachineID = UUIDString (np_MachineID row), pol_Mode = np_Mode row,
     pol_Domains = np_Domains row, pol_UpdatedAt = Some (np_UpdatedAt row)\<rparr>"

definition getNetworkPolicy :: "dbctx \<Rightarrow> db \<Rightarrow> pg_uuid \<Rightarrow> network_policy res" where
  "getNetworkPolicy c d machine_id =
     (case Store_Model.GetNetworkPolicy c d machine_id of
        Inl e \<Rightarrow> if errors_Is e ErrNoRows then Inr (defaultNetworkPolicy (UUIDString machine_id)) else Inl e
      | Inr row \<Rightarrow> Inr (toNetworkPolicy row))"

section \<open>What validation guarantees\<close>

definition label_ok :: "string \<Rightarrow> bool" where
  "label_ok l = (l \<noteq> [] \<and> is_alnum (hd l) \<and> is_alnum (last l)
     \<and> list_all (\<lambda>c. is_alnum c \<or> c = CHR ''-'') l)"

definition tld_ok :: "string \<Rightarrow> bool" where
  "tld_ok l = (2 \<le> length l \<and> list_all is_letter l)"

lemma label_rx_lang: "w \<in> lang label_rx \<longleftrightarrow> label_ok w"
proof
  assume "w \<in> lang label_rx"
  then obtain a where "is_alnum a" and "w = [a] \<or> (\<exists>m b. w = a # m @ [b] \<and> is_alnum b
      \<and> list_all (\<lambda>c. is_alnum c \<or> c = CHR ''-'') m)"
    unfolding label_rx_def Opt_def lang.simps(3-5) lang_Star_Cls by fastforce
  then show "label_ok w" by (auto simp: label_ok_def)
next
  assume ok: "label_ok w"
  then obtain a w' where w: "w = a # w'" "is_alnum a" by (cases w) (auto simp: label_ok_def)
  show "w \<in> lang label_rx"
  proof (cases w' rule: rev_cases)
    case Nil
    with w show ?thesis by (auto simp: label_rx_def Opt_def)
  next
    case (snoc m b)
    with ok w have "is_alnum b" "list_all (\<lambda>c. is_alnum c \<or> c = CHR ''-'') m"
      by (simp_all add: label_ok_def)
    then have "m @ [b] \<in> lang (Seq (Star (Cls (\<lambda>c. is_alnum c \<or> c = CHR ''-''))) (Cls is_alnum))"
      unfolding lang.simps(3,4) lang_Star_Cls by blast
    then have "m @ [b] \<in> lang (Opt (Seq (Star (Cls (\<lambda>c. is_alnum c \<or> c = CHR ''-''))) (Cls is_alnum)))"
      unfolding Opt_def lang.simps(5) by blast
    moreover have "[a] \<in> lang (Cls is_alnum)" using w by simp
    ultimately have "[a] @ (m @ [b]) \<in> lang label_rx"
      unfolding label_rx_def lang.simps(4) by blast
    with w snoc show ?thesis by simp
  qed
qed

lemma tld_lang:
  "w \<in> lang (Seq (Cls is_letter) (Seq (Cls is_letter) (Star (Cls is_letter)))) \<longleftrightarrow> tld_ok w"
proof
  assume "w \<in> lang (Seq (Cls is_letter) (Seq (Cls is_letter) (Star (Cls is_letter))))"
  then obtain a b m where "w = [a] @ [b] @ m" "is_letter a" "is_letter b" "m \<in> lang (Star (Cls is_letter))"
    unfolding lang.simps(3,4) by blast
  then show "tld_ok w" by (simp add: lang_Star_Cls tld_ok_def del: lang.simps)
next
  assume ok: "tld_ok w"
  then obtain a b m where w: "w = [a] @ [b] @ m"
    by (cases w; cases "tl w") (auto simp: tld_ok_def)
  with ok have "is_letter a" "is_letter b" "m \<in> lang (Star (Cls is_letter))"
    by (simp_all add: lang_Star_Cls tld_ok_def del: lang.simps)
  then show "w \<in> lang (Seq (Cls is_letter) (Seq (Cls is_letter) (Star (Cls is_letter))))"
    unfolding lang.simps(3,4) w by blast
qed

lemma plus_lang: "w \<in> lang (Plus r) \<longleftrightarrow> (\<exists>ws. ws \<noteq> [] \<and> set ws \<subseteq> lang r \<and> w = concat ws)"
proof
  assume "w \<in> lang (Plus r)"
  then obtain x ws where "w = x @ concat ws" "x \<in> lang r" "set ws \<subseteq> lang r" by (auto simp: Plus_def)
  then show "\<exists>ws. ws \<noteq> [] \<and> set ws \<subseteq> lang r \<and> w = concat ws"
    by (intro exI [of _ "x # ws"]) auto
next
  assume "\<exists>ws. ws \<noteq> [] \<and> set ws \<subseteq> lang r \<and> w = concat ws"
  then obtain x ws where "set (x # ws) \<subseteq> lang r" "w = concat (x # ws)" by (metis list.exhaust)
  then have "w = x @ concat ws" "x \<in> lang r" "set ws \<subseteq> lang r" by auto
  then show "w \<in> lang (Plus r)" unfolding Plus_def lang.simps(4,6) by blast
qed

text \<open>The pattern accepts exactly dot-separated host labels before an alphabetic last label.\<close>

lemma domainPattern_iff:
  "MatchString domainPattern w \<longleftrightarrow>
   (\<exists>ls tld. ls \<noteq> [] \<and> list_all label_ok ls \<and> tld_ok tld
      \<and> w = concat (map (\<lambda>l. l @ [CHR ''.'']) ls) @ tld)"
proof -
  have dot: "x \<in> lang (Seq label_rx (Lit (CHR ''.''))) \<longleftrightarrow> (\<exists>l. label_ok l \<and> x = l @ [CHR ''.''])" for x
    by (auto simp: label_rx_lang Lit_def)
  have words: "(\<exists>ws. ws \<noteq> [] \<and> set ws \<subseteq> lang (Seq label_rx (Lit (CHR ''.''))) \<and> v = concat ws) \<longleftrightarrow>
      (\<exists>ls. ls \<noteq> [] \<and> list_all label_ok ls \<and> v = concat (map (\<lambda>l. l @ [CHR ''.'']) ls))" for v
  proof
    assume "\<exists>ws. ws \<noteq> [] \<and> set ws \<subseteq> lang (Seq label_rx (Lit (CHR ''.''))) \<and> v = concat ws"
    then obtain ws where ws: "ws \<noteq> []" "\<forall>x \<in> set ws. \<exists>l. label_ok l \<and> x = l @ [CHR ''.'']" "v = concat ws"
      using dot by blast
    then have "ws = map (\<lambda>l. l @ [CHR ''.'']) (map butlast ws)" "list_all label_ok (map butlast ws)"
      by (fastforce simp: list_all_iff intro!: map_idI [symmetric])+
    with ws show "\<exists>ls. ls \<noteq> [] \<and> list_all label_ok ls \<and> v = concat (map (\<lambda>l. l @ [CHR ''.'']) ls)"
      by (metis map_is_Nil_conv)
  next
    assume "\<exists>ls. ls \<noteq> [] \<and> list_all label_ok ls \<and> v = concat (map (\<lambda>l. l @ [CHR ''.'']) ls)"
    then obtain ls where "ls \<noteq> []" "list_all label_ok ls" "v = concat (map (\<lambda>l. l @ [CHR ''.'']) ls)" by blast
    then show "\<exists>ws. ws \<noteq> [] \<and> set ws \<subseteq> lang (Seq label_rx (Lit (CHR ''.''))) \<and> v = concat ws"
      using dot by (intro exI [of _ "map (\<lambda>l. l @ [CHR ''.'']) ls"]) (auto simp: list_all_iff simp del: lang.simps)
  qed
  have "MatchString domainPattern w \<longleftrightarrow>
      (\<exists>v tld. w = v @ tld \<and> v \<in> lang (Plus (Seq label_rx (Lit (CHR ''.'')))) \<and> tld_ok tld)"
    unfolding MatchString_iff domainPattern_def lang.simps(4) [of "Plus _"] tld_lang [symmetric] by blast
  also have "\<dots> \<longleftrightarrow> (\<exists>ls tld. ls \<noteq> [] \<and> list_all label_ok ls \<and> tld_ok tld
      \<and> w = concat (map (\<lambda>l. l @ [CHR ''.'']) ls) @ tld)"
    unfolding plus_lang words by blast
  finally show ?thesis .
qed

lemma domain_chars:
  assumes "MatchString domainPattern w"
  shows "list_all (\<lambda>c. is_alnum c \<or> c = CHR ''-'' \<or> c = CHR ''.'') w"
proof -
  obtain ls tld where "list_all label_ok ls" "tld_ok tld" "w = concat (map (\<lambda>l. l @ [CHR ''.'']) ls) @ tld"
    using assms domainPattern_iff by blast
  then show ?thesis
    by (auto simp: list_all_iff label_ok_def tld_ok_def is_alnum_def)
qed

lemma bad_domain_None:
  "bad_domain ds = None \<longleftrightarrow> (\<forall>d \<in> set ds. TrimSpace d \<noteq> [] \<and> MatchString domainPattern (TrimSpace d))"
  by (induction ds) (auto simp: Let_def)

lemma ValidateNetworkPolicy_None:
  "ValidateNetworkPolicy mode ds = None \<longleftrightarrow>
   mode \<in> set validNetworkPolicyModes
   \<and> (mode \<in> {NetworkPolicyAllowDomains, NetworkPolicyDenyDomains} \<longrightarrow>
       (\<forall>d \<in> set ds. MatchString domainPattern (TrimSpace d)))"
proof -
  have "\<not> MatchString domainPattern []"
    by (simp add: domainPattern_def)
  then have "bad_domain ds = None \<longleftrightarrow> (\<forall>d \<in> set ds. MatchString domainPattern (TrimSpace d))"
    by (auto simp: bad_domain_None)
  then show ?thesis by (auto simp: ValidateNetworkPolicy_def split: option.splits)
qed

end
