(* ===== verification/Go_Channel.thy ===== *)
theory Go_Channel
  imports Go_Prelude "HOL-Library.AList"
begin

text \<open>
  Buffered Go channels as the broker and the task-event hub use them: a heap of channels
  addressed by reference, the non-blocking send of \<open>select { case ch <- v: default: }\<close>,
  \<open>close\<close>, and the receive of a consumer. Sending on a closed channel and closing a closed
  channel panic; \<open>None\<close> is the panic. The locale \<open>fan_out\<close> is what the two hubs promise
  their subscribers.
\<close>

lemma AList_update_fresh: "k \<notin> fst ` set al \<Longrightarrow> AList.update k v al = al @ [(k, v)]"
  by (induction al) auto

record 'a chan =
  ch_buf :: "'a list"
  ch_cap :: nat
  ch_closed :: bool

type_synonym 'a chan_heap = "'a chan list"

definition make_chan :: "nat \<Rightarrow> 'a chan_heap \<Rightarrow> 'a chan_heap \<times> nat" where
  "make_chan cap h = (h @ [\<lparr>ch_buf = [], ch_cap = cap, ch_closed = False\<rparr>], length h)"

definition push :: "'a \<Rightarrow> 'a chan \<Rightarrow> 'a chan" where
  "push v ch = (if length (ch_buf ch) < ch_cap ch then ch\<lparr>ch_buf := ch_buf ch @ [v]\<rparr> else ch)"

definition try_send :: "nat \<Rightarrow> 'a \<Rightarrow> 'a chan_heap \<Rightarrow> 'a chan_heap option" where
  "try_send r v h =
     (if r < length h \<and> \<not> ch_closed (h ! r) then Some (h[r := push v (h ! r)]) else None)"

fun send_all :: "nat list \<Rightarrow> 'a \<Rightarrow> 'a chan_heap \<Rightarrow> 'a chan_heap option" where
  "send_all [] v h = Some h"
| "send_all (r # rs) v h = (case try_send r v h of None \<Rightarrow> None | Some h' \<Rightarrow> send_all rs v h')"

definition close_chan :: "nat \<Rightarrow> 'a chan_heap \<Rightarrow> 'a chan_heap option" where
  "close_chan r h =
     (if r < length h \<and> \<not> ch_closed (h ! r) then Some (h[r := (h ! r)\<lparr>ch_closed := True\<rparr>]) else None)"

definition recv :: "nat \<Rightarrow> 'a chan_heap \<Rightarrow> 'a option \<times> 'a chan_heap" where
  "recv r h = (if r < length h \<and> ch_buf (h ! r) \<noteq> []
     then (Some (hd (ch_buf (h ! r))), h[r := (h ! r)\<lparr>ch_buf := tl (ch_buf (h ! r))\<rparr>])
     else (None, h))"

definition open_chan :: "'a chan_heap \<Rightarrow> nat \<Rightarrow> bool" where
  "open_chan h r = (r < length h \<and> \<not> ch_closed (h ! r))"

lemma push_simps [simp]:
  "ch_cap (push v ch) = ch_cap ch" "ch_closed (push v ch) = ch_closed ch"
  by (simp_all add: push_def)

lemma length_ch_buf_push: "length (ch_buf ch) \<le> ch_cap ch \<Longrightarrow> length (ch_buf (push v ch)) \<le> ch_cap ch"
  by (simp add: push_def)

lemma open_chan_update [simp]:
  "open_chan (h[r := push v (h ! r)]) r' = open_chan h r'"
  by (cases "r < length h") (auto simp: open_chan_def nth_list_update)

lemma open_chan_make: "open_chan h r \<Longrightarrow> open_chan (h @ [c]) r"
  by (auto simp: open_chan_def nth_append)

lemma open_chan_fresh: "open_chan (h @ [\<lparr>ch_buf = [], ch_cap = n, ch_closed = False\<rparr>]) (length h)"
  by (simp add: open_chan_def)

lemma send_all_open:
  assumes "\<forall>r \<in> set rs. open_chan h r"
  shows "\<exists>h'. send_all rs v h = Some h' \<and> length h' = length h \<and> (\<forall>r. open_chan h' r = open_chan h r)"
  using assms
proof (induction rs arbitrary: h)
  case (Cons r rs)
  then have "try_send r v h = Some (h[r := push v (h ! r)])"
    by (simp add: try_send_def open_chan_def)
  with Cons.IH [of "h[r := push v (h ! r)]"] Cons.prems show ?case by auto
qed simp

lemma send_all_nth:
  assumes "distinct rs" "send_all rs v h = Some h'"
  shows "length h' = length h
    \<and> (\<forall>k < length h. h' ! k = (if k \<in> set rs then push v (h ! k) else h ! k))"
  using assms
proof (induction rs arbitrary: h)
  case (Cons r rs)
  let ?h = "h[r := push v (h ! r)]"
  from Cons.prems have r: "r < length h" and "send_all rs v ?h = Some h'"
    by (auto simp: try_send_def split: option.splits if_splits)
  with Cons.IH [of ?h] Cons.prems(1) show ?case by (auto simp: nth_list_update)
qed simp

section \<open>What a hub promises its subscribers\<close>

text \<open>
  \<open>targets s v\<close> are the references of the channels a publication \<open>v\<close> is addressed to,
  \<open>chans s\<close> is the heap, \<open>frame s v\<close> the frame a publication puts on the wire, and \<open>inv\<close> the
  hub's own invariant.
\<close>

locale fan_out =
  fixes publish :: "'s \<Rightarrow> 'v \<Rightarrow> 's option"
    and targets :: "'s \<Rightarrow> 'v \<Rightarrow> nat list"
    and chans :: "'s \<Rightarrow> 'f chan_heap"
    and frame :: "'s \<Rightarrow> 'v \<Rightarrow> 'f"
    and hub_inv :: "'s \<Rightarrow> bool"
  assumes no_panic: "hub_inv s \<Longrightarrow> \<exists>s'. publish s v = Some s'"
    and keeps_inv: "hub_inv s \<Longrightarrow> publish s v = Some s' \<Longrightarrow> hub_inv s'"
    and keeps_targets: "hub_inv s \<Longrightarrow> publish s v = Some s' \<Longrightarrow> targets s' w = targets s w"
    and delivers: "hub_inv s \<Longrightarrow> publish s v = Some s' \<Longrightarrow> r < length (chans s) \<Longrightarrow>
      length (chans s') = length (chans s)
      \<and> chans s' ! r = (if r \<in> set (targets s v) then push (frame s v) (chans s ! r) else chans s ! r)"
begin

primrec publish_all :: "'v list \<Rightarrow> 's \<Rightarrow> 's option" where
  "publish_all [] s = Some s"
| "publish_all (v # vs) s = (case publish s v of None \<Rightarrow> None | Some s' \<Rightarrow> publish_all vs s')"

text \<open>The frames addressed to channel \<open>r\<close> by a run of publications.\<close>

primrec addressed :: "nat \<Rightarrow> 'v list \<Rightarrow> 's \<Rightarrow> 'f list" where
  "addressed r [] s = []"
| "addressed r (v # vs) s = (if r \<in> set (targets s v) then [frame s v] else [])
     @ (case publish s v of None \<Rightarrow> [] | Some s' \<Rightarrow> addressed r vs s')"

lemma publish_all_total: "hub_inv s \<Longrightarrow> \<exists>s'. publish_all vs s = Some s' \<and> hub_inv s'"
proof (induction vs arbitrary: s)
  case (Cons v vs)
  then obtain s' where "publish s v = Some s'" "hub_inv s'" using no_panic keeps_inv by blast
  with Cons.IH show ?case by auto
qed simp

text \<open>
  A subscriber sees the frames addressed to it in order: what its channel gains is a
  subsequence of them, and all of them while the buffer has room.
\<close>

lemma delivered_in_order:
  assumes "hub_inv s" "r < length (chans s)" "publish_all vs s = Some s'"
  shows "\<exists>fs. ch_buf (chans s' ! r) = ch_buf (chans s ! r) @ fs \<and> subseq fs (addressed r vs s)"
  using assms
proof (induction vs arbitrary: s)
  case (Cons v vs)
  from Cons.prems obtain t where t: "publish s v = Some t" and rest: "publish_all vs t = Some s'"
    by (auto split: option.splits)
  note del = delivers [OF Cons.prems(1) t Cons.prems(2)]
  with Cons.IH [OF keeps_inv [OF Cons.prems(1) t] _ rest] Cons.prems(2) obtain fs where
    fs: "ch_buf (chans s' ! r) = ch_buf (chans t ! r) @ fs" "subseq fs (addressed r vs t)" by auto
  show ?case
  proof (cases "r \<in> set (targets s v) \<and> length (ch_buf (chans s ! r)) < ch_cap (chans s ! r)")
    case True
    then have "ch_buf (chans s' ! r) = ch_buf (chans s ! r) @ (frame s v # fs)"
      using fs(1) del by (simp add: push_def)
    moreover have "subseq (frame s v # fs) (addressed r (v # vs) s)" using fs(2) t True by simp
    ultimately show ?thesis by blast
  next
    case False
    then have "ch_buf (chans s' ! r) = ch_buf (chans s ! r) @ fs" using fs(1) del by (auto simp: push_def)
    moreover have "subseq fs (addressed r (v # vs) s)" using fs(2) t by auto
    ultimately show ?thesis by blast
  qed
qed simp

lemma length_addressed: "length (addressed r vs s) \<le> length vs"
proof (induction vs arbitrary: s)
  case (Cons v vs)
  show ?case using Cons.IH by (auto split: option.splits simp: le_SucI)
qed simp

lemma all_delivered:
  assumes "hub_inv s" "r < length (chans s)" "publish_all vs s = Some s'"
    and "length (ch_buf (chans s ! r)) + length (addressed r vs s) \<le> ch_cap (chans s ! r)"
  shows "ch_buf (chans s' ! r) = ch_buf (chans s ! r) @ addressed r vs s"
  using assms
proof (induction vs arbitrary: s)
  case (Cons v vs)
  from Cons.prems obtain t where t: "publish s v = Some t" and rest: "publish_all vs t = Some s'"
    by (auto split: option.splits)
  note del = delivers [OF Cons.prems(1) t Cons.prems(2)]
  have "r < length (chans t)" using del Cons.prems(2) by simp
  from Cons.IH [OF keeps_inv [OF Cons.prems(1) t] this rest] Cons.prems(4) del
  show ?case by (auto simp: push_def t)
qed simp

end

end
