(* ===== verification/Machine_Broker.thy ===== *)
theory Machine_Broker
  imports Store_Model Go_Channel "HOL-Library.Multiset"
begin

text \<open>
  The in-process publish/subscribe broker for machine updates (\<open>machine/broker.go\<close>). The
  nested map \<open>map[UUID]map[int]chan\<close> is an association list of association lists; channels
  live in a heap, since the subscriber and the broker share them. A method that could panic
  (send on a closed channel, double close) returns \<open>None\<close> for the panic.
\<close>

section \<open>State and operations\<close>

record update =
  u_Machine :: "machine option"
  u_Event :: "machine_event option"
  u_Deleted :: bool
  u_Shutdown :: bool

record broker =
  b_nextID :: int
  b_subs :: "(pg_uuid \<times> (int \<times> nat) list) list"
  b_all :: "(int \<times> nat) list"
  b_chans :: "update chan_heap"

definition zero_uuid :: pg_uuid where
  "zero_uuid = \<lparr>Bytes = replicate 16 0, Valid = False\<rparr>"

definition u_owner :: "update \<Rightarrow> pg_uuid" where
  "u_owner u = (case u_Machine u of Some m \<Rightarrow> m_UserID m | None \<Rightarrow> zero_uuid)"

definition NewBroker :: broker where
  "NewBroker = \<lparr>b_nextID = 0, b_subs = [], b_all = [], b_chans = []\<rparr>"

definition peers :: "broker \<Rightarrow> pg_uuid \<Rightarrow> (int \<times> nat) list" where
  "peers b user_id = (case map_of (b_subs b) user_id of None \<Rightarrow> [] | Some ps \<Rightarrow> ps)"

text \<open>Returns the broker, the subscription id and the channel's reference.\<close>

definition Subscribe :: "broker \<Rightarrow> pg_uuid \<Rightarrow> broker \<times> int \<times> nat" where
  "Subscribe b user_id =
     (let (h, ch) = make_chan 32 (b_chans b); i = b_nextID b
      in (b\<lparr>b_nextID := i + 1, b_chans := h,
            b_subs := AList.update user_id (AList.update i ch (peers b user_id)) (b_subs b)\<rparr>, i, ch))"

text \<open>The cancel function \<open>Subscribe\<close> returns.\<close>

definition Subscribe_cancel :: "broker \<Rightarrow> pg_uuid \<Rightarrow> int \<Rightarrow> broker option" where
  "Subscribe_cancel b user_id i =
     (case map_of (b_subs b) user_id of
        None \<Rightarrow> Some b
      | Some ps \<Rightarrow>
        (case map_of ps i of
           None \<Rightarrow> Some (if ps = [] then b\<lparr>b_subs := AList.delete user_id (b_subs b)\<rparr> else b)
         | Some c \<Rightarrow>
           (let ps' = AList.delete i ps
            in map_option (\<lambda>h. b\<lparr>b_chans := h,
                 b_subs := (if ps' = [] then AList.delete user_id (b_subs b)
                            else AList.update user_id ps' (b_subs b))\<rparr>)
               (close_chan c (b_chans b)))))"

definition SubscribeAll :: "broker \<Rightarrow> broker \<times> int \<times> nat" where
  "SubscribeAll b =
     (let (h, ch) = make_chan 32 (b_chans b); i = b_nextID b
      in (b\<lparr>b_nextID := i + 1, b_chans := h, b_all := AList.update i ch (b_all b)\<rparr>, i, ch))"

definition SubscribeAll_cancel :: "broker \<Rightarrow> int \<Rightarrow> broker option" where
  "SubscribeAll_cancel b i =
     (case map_of (b_all b) i of
        None \<Rightarrow> Some b
      | Some c \<Rightarrow> map_option (\<lambda>h. b\<lparr>b_chans := h, b_all := AList.delete i (b_all b)\<rparr>)
          (close_chan c (b_chans b)))"

definition shutdown_update :: update where
  "shutdown_update = \<lparr>u_Machine = None, u_Event = None, u_Deleted = False, u_Shutdown = True\<rparr>"

definition Shutdown :: "broker \<Rightarrow> broker option" where
  "Shutdown b = map_option (\<lambda>h. b\<lparr>b_chans := h\<rparr>)
     (send_all (map snd (concat (map snd (b_subs b))) @ map snd (b_all b)) shutdown_update (b_chans b))"

definition Publish :: "broker \<Rightarrow> update \<Rightarrow> broker option" where
  "Publish b u = map_option (\<lambda>h. b\<lparr>b_chans := h\<rparr>)
     (send_all (map snd (peers b (u_owner u)) @ map snd (b_all b)) u (b_chans b))"

section \<open>Invariant\<close>

definition registered :: "broker \<Rightarrow> (int \<times> nat) list" where
  "registered b = concat (map snd (b_subs b)) @ b_all b"

definition broker_inv :: "broker \<Rightarrow> bool" where
  "broker_inv b = (distinct (map fst (b_subs b)) \<and> distinct (map fst (registered b))
     \<and> distinct (map snd (registered b))
     \<and> (\<forall>(i, r) \<in> set (registered b). i < b_nextID b \<and> open_chan (b_chans b) r))"

lemma mset_concat_update:
  "distinct (map fst al) \<Longrightarrow>
   mset (concat (map snd (AList.update k v al)))
     + mset (case map_of al k of None \<Rightarrow> [] | Some v0 \<Rightarrow> v0)
   = mset (concat (map snd al)) + mset v"
  by (induction al) (auto simp: ac_simps)

lemma mset_concat_delete:
  "distinct (map fst al) \<Longrightarrow>
   mset (concat (map snd (AList.delete k al)))
     + mset (case map_of al k of None \<Rightarrow> [] | Some v0 \<Rightarrow> v0)
   = mset (concat (map snd al))"
proof (induction al)
  case (Cons x al)
  then show ?case
  proof (cases "fst x = k")
    case True
    with Cons.prems have "map_of al k = None" by (auto simp: map_of_eq_None_iff)
    with Cons True show ?thesis by (cases x) (simp add: ac_simps)
  qed (cases x, auto simp: ac_simps)
qed simp

lemma mset_delete_key:
  "distinct (map fst al) \<Longrightarrow> map_of al k = Some v \<Longrightarrow> mset al = add_mset (k, v) (mset (AList.delete k al))"
proof (induction al)
  case (Cons x al)
  then show ?case
  proof (cases "fst x = k")
    case True
    with Cons.prems have "AList.delete k al = al" by (intro delete_id) auto
    with Cons True show ?thesis by (cases x) simp
  qed (cases x, auto simp:)
qed simp

text \<open>The invariant only depends on the registered pairs up to their order.\<close>

definition regs_ok :: "int \<Rightarrow> update chan_heap \<Rightarrow> (int \<times> nat) list \<Rightarrow> bool" where
  "regs_ok n h xs = (distinct (map fst xs) \<and> distinct (map snd xs)
     \<and> (\<forall>(i, r) \<in> set xs. i < n \<and> open_chan h r))"

lemma broker_inv_regs: "broker_inv b \<longleftrightarrow> distinct (map fst (b_subs b)) \<and> regs_ok (b_nextID b) (b_chans b) (registered b)"
  by (auto simp: broker_inv_def regs_ok_def)

lemma regs_ok_perm: "mset xs = mset ys \<Longrightarrow> regs_ok n h xs = regs_ok n h ys"
  unfolding regs_ok_def
  by (metis mset_eq_imp_distinct_iff mset_eq_setD mset_map)

lemma regs_ok_permI: "mset xs = mset ys \<Longrightarrow> regs_ok n h ys \<Longrightarrow> regs_ok n h xs"
  by (simp add: regs_ok_perm [of xs ys])

lemma peers_subset: "set (peers b u) \<subseteq> set (registered b)"
proof (cases "map_of (b_subs b) u")
  case (Some ps)
  then have "(u, ps) \<in> set (b_subs b)" by (rule map_of_SomeD)
  with Some show ?thesis by (force simp: peers_def registered_def)
qed (simp add: peers_def)

lemma peers_distinct:
  assumes "broker_inv b"
  shows "distinct (map fst (peers b u)) \<and> distinct (map snd (peers b u))"
proof (cases "map_of (b_subs b) u")
  case (Some ps)
  then have "(u, ps) \<in> set (b_subs b)" by (rule map_of_SomeD)
  then obtain xs ys where "b_subs b = xs @ (u, ps) # ys" by (meson split_list)
  then have "registered b = concat (map snd xs) @ ps @ concat (map snd ys) @ b_all b"
    by (simp add: registered_def)
  with assms Some show ?thesis by (auto simp: broker_inv_def peers_def)
qed (simp add: peers_def)

lemma regs_ok_add:
  "regs_ok n h xs \<Longrightarrow>
   regs_ok (n + 1) (h @ [\<lparr>ch_buf = [], ch_cap = m, ch_closed = False\<rparr>]) ((n, length h) # xs)"
  by (fastforce simp: regs_ok_def open_chan_fresh intro: open_chan_make dest: open_chan_def [THEN iffD1])

lemma regs_ok_remove:
  assumes "regs_ok n h ((i, c) # xs)"
  shows "\<exists>h'. close_chan c h = Some h' \<and> regs_ok n h' xs"
proof -
  have c: "open_chan h c" and cx: "c \<notin> snd ` set xs"
    using assms by (auto simp: regs_ok_def)
  let ?h = "h[c := (h ! c)\<lparr>ch_closed := True\<rparr>]"
  have "open_chan ?h r" if "open_chan h r" "r \<noteq> c" for r
    using that by (simp add: open_chan_def)
  with assms cx have "regs_ok n ?h xs" by (force simp: regs_ok_def)
  with c show ?thesis by (simp add: close_chan_def open_chan_def)
qed

lemma NewBroker_inv: "broker_inv NewBroker"
  by (simp add: broker_inv_def NewBroker_def registered_def)

lemma Subscribe_inv:
  assumes inv: "broker_inv b" and sub: "Subscribe b u = (b', i, ch)"
  shows "broker_inv b' \<and> (i, ch) \<in> set (peers b' u) \<and> b_chans b' ! ch = \<lparr>ch_buf = [], ch_cap = 32, ch_closed = False\<rparr>"
proof -
  have fresh: "b_nextID b \<notin> fst ` set (peers b u)"
    using inv peers_subset [of b u] by (fastforce simp: broker_inv_def)
  have b': "b' = b\<lparr>b_nextID := b_nextID b + 1,
      b_chans := b_chans b @ [\<lparr>ch_buf = [], ch_cap = 32, ch_closed = False\<rparr>],
      b_subs := AList.update u (peers b u @ [(i, ch)]) (b_subs b)\<rparr>"
    and i: "i = b_nextID b" "ch = length (b_chans b)"
    using sub fresh by (auto simp: Subscribe_def make_chan_def AList_update_fresh Let_def)
  have d: "distinct (map fst (b_subs b))" using inv by (simp add: broker_inv_def)
  have "mset (registered b') = mset ((i, ch) # registered b)"
    using mset_concat_update [OF d, of u "peers b u @ [(i, ch)]"]
    by (auto simp: registered_def b' peers_def split: option.splits)
  moreover have "regs_ok (b_nextID b') (b_chans b') ((i, ch) # registered b)"
    using inv by (simp add: b' i broker_inv_regs regs_ok_add)
  moreover have "distinct (map fst (b_subs b'))" using d by (simp add: b' distinct_update)
  ultimately have "broker_inv b'" unfolding broker_inv_regs by (blast intro: regs_ok_permI)
  moreover have "peers b' u = peers b u @ [(i, ch)]"
    by (simp add: b' peers_def [of "b\<lparr>b_nextID := n, b_chans := h, b_subs := s\<rparr>" for n h s] update_conv')
  ultimately show ?thesis by (simp add: b' i)
qed

lemma Subscribe_cancel_inv:
  assumes inv: "broker_inv b"
  shows "\<exists>b'. Subscribe_cancel b u i = Some b' \<and> broker_inv b' \<and> i \<notin> fst ` set (peers b' u)"
proof (cases "map_of (b_subs b) u")
  case None
  with inv show ?thesis by (simp add: Subscribe_cancel_def peers_def)
next
  case (Some ps)
  have d: "distinct (map fst (b_subs b))" using inv by (simp add: broker_inv_def)
  have ps: "peers b u = ps" using Some by (simp add: peers_def)
  have dps: "distinct (map fst ps)" using peers_distinct [OF inv, of u] ps by simp
  show ?thesis
  proof (cases "map_of ps i")
    case None
    let ?b = "b\<lparr>b_subs := AList.delete u (b_subs b)\<rparr>"
    have "mset (registered ?b) = mset (registered b)" if "ps = []"
      using mset_concat_delete [OF d, of u] Some that by (simp add: registered_def)
    then have "regs_ok (b_nextID b) (b_chans b) (registered ?b)" if "ps = []"
      using inv that by (simp add: broker_inv_regs regs_ok_perm [of "registered ?b"])
    then have "broker_inv (if ps = [] then ?b else b)"
      using inv d by (simp add: broker_inv_regs distinct_delete)
    moreover have "Subscribe_cancel b u i = Some (if ps = [] then ?b else b)"
      using None Some by (simp add: Subscribe_cancel_def)
    moreover have "i \<notin> fst ` set (peers (if ps = [] then ?b else b) u)"
      using None ps by (cases "ps = []") (simp_all add: peers_def [of ?b] delete_conv' map_of_eq_None_iff)
    ultimately show ?thesis by blast
  next
    case (Some c)
    note c = this
    define ps' where "ps' = AList.delete i ps"
    define subs' where "subs' = (if ps' = [] then AList.delete u (b_subs b) else AList.update u ps' (b_subs b))"
    have "mset ps = add_mset (i, c) (mset ps')" using dps c by (simp add: ps'_def mset_delete_key)
    then have "mset (registered b) = mset ((i, c) # concat (map snd subs') @ b_all b)"
      using mset_concat_delete [OF d, of u] mset_concat_update [OF d, of u ps'] \<open>map_of (b_subs b) u = Some ps\<close>
      by (auto simp: registered_def subs'_def)
    then have "regs_ok (b_nextID b) (b_chans b) ((i, c) # concat (map snd subs') @ b_all b)"
      using inv by (metis broker_inv_regs regs_ok_permI)
    then obtain h' where h': "close_chan c (b_chans b) = Some h'"
      "regs_ok (b_nextID b) h' (concat (map snd subs') @ b_all b)"
      using regs_ok_remove by blast
    let ?b = "b\<lparr>b_chans := h', b_subs := subs'\<rparr>"
    have "distinct (map fst subs')" using d by (simp add: subs'_def distinct_delete distinct_update)
    with h'(2) have "broker_inv ?b" by (simp add: broker_inv_regs registered_def)
    moreover have "Subscribe_cancel b u i = Some ?b"
      using \<open>map_of (b_subs b) u = Some ps\<close> c h'(1)
      by (simp add: Subscribe_cancel_def subs'_def ps'_def Let_def)
    moreover have "i \<notin> fst ` set (peers ?b u)"
      using delete_notin_dom [of i ps]
      by (cases "ps' = []") (simp_all add: peers_def subs'_def delete_conv' update_conv' flip: ps'_def)
    ultimately show ?thesis by blast
  qed
qed

lemma SubscribeAll_inv:
  assumes inv: "broker_inv b" and sub: "SubscribeAll b = (b', i, ch)"
  shows "broker_inv b' \<and> (i, ch) \<in> set (b_all b')"
proof -
  have "b_nextID b \<notin> fst ` set (b_all b)"
    using inv by (fastforce simp: broker_inv_def registered_def)
  then have b': "b' = b\<lparr>b_nextID := b_nextID b + 1,
      b_chans := b_chans b @ [\<lparr>ch_buf = [], ch_cap = 32, ch_closed = False\<rparr>],
      b_all := b_all b @ [(i, ch)]\<rparr>" and i: "i = b_nextID b" "ch = length (b_chans b)"
    using sub by (auto simp: SubscribeAll_def make_chan_def AList_update_fresh Let_def)
  have "regs_ok (b_nextID b') (b_chans b') ((i, ch) # registered b)"
    using inv by (simp add: b' i broker_inv_regs regs_ok_add)
  moreover have "mset (registered b') = mset ((i, ch) # registered b)"
    by (simp add: registered_def b')
  ultimately have "regs_ok (b_nextID b') (b_chans b') (registered b')"
    by (blast intro: regs_ok_permI)
  with inv show ?thesis by (simp add: broker_inv_regs b')
qed

lemma SubscribeAll_cancel_inv:
  assumes inv: "broker_inv b"
  shows "\<exists>b'. SubscribeAll_cancel b i = Some b' \<and> broker_inv b'"
proof (cases "map_of (b_all b) i")
  case (Some c)
  have "distinct (map fst (b_all b))" using inv by (simp add: broker_inv_def registered_def)
  then have "mset (registered b) = mset ((i, c) # concat (map snd (b_subs b)) @ AList.delete i (b_all b))"
    using mset_delete_key [OF _ Some] by (simp add: registered_def)
  then have "regs_ok (b_nextID b) (b_chans b) ((i, c) # concat (map snd (b_subs b)) @ AList.delete i (b_all b))"
    using inv by (metis broker_inv_regs regs_ok_permI)
  from regs_ok_remove [OF this] Some inv show ?thesis
    by (auto simp: SubscribeAll_cancel_def broker_inv_regs registered_def)
qed (use inv in \<open>simp add: SubscribeAll_cancel_def\<close>)

section \<open>The broker is a fan-out\<close>

definition publish_targets :: "broker \<Rightarrow> update \<Rightarrow> nat list" where
  "publish_targets b u = map snd (peers b (u_owner u)) @ map snd (b_all b)"

lemma publish_targets_distinct:
  assumes "broker_inv b"
  shows "distinct (publish_targets b u)"
proof -
  have "set (peers b u') \<inter> set (b_all b) = {}" "snd ` set (peers b u') \<inter> snd ` set (b_all b) = {}" for u'
  proof -
    have "set (peers b u') \<subseteq> set (concat (map snd (b_subs b)))"
    proof (cases "map_of (b_subs b) u'")
      case (Some ps)
      then have "(u', ps) \<in> set (b_subs b)" by (rule map_of_SomeD)
      with Some show ?thesis by (force simp: peers_def)
    qed (simp add: peers_def)
    then have "snd ` set (peers b u') \<subseteq> set (map snd (concat (map snd (b_subs b))))"
      by (metis image_mono list.set_map)
    moreover have "distinct (map snd (concat (map snd (b_subs b))) @ map snd (b_all b))"
      using assms by (simp add: broker_inv_def registered_def)
    ultimately show "snd ` set (peers b u') \<inter> snd ` set (b_all b) = {}"
      unfolding distinct_append set_map by blast
    then show "set (peers b u') \<inter> set (b_all b) = {}" by blast
  qed
  with peers_distinct [OF assms] assms show ?thesis
    by (simp add: publish_targets_def broker_inv_def registered_def)
qed

lemma publish_targets_open: "broker_inv b \<Longrightarrow> r \<in> set (publish_targets b u) \<Longrightarrow> open_chan (b_chans b) r"
  using peers_subset [of b "u_owner u"]
  by (fastforce simp: publish_targets_def broker_inv_def registered_def)

lemma Publish_alt: "Publish b u = map_option (\<lambda>h. b\<lparr>b_chans := h\<rparr>) (send_all (publish_targets b u) u (b_chans b))"
  by (simp add: Publish_def publish_targets_def)

lemma broker_inv_heap:
  "broker_inv b \<Longrightarrow> (\<And>r. open_chan h r = open_chan (b_chans b) r) \<Longrightarrow> broker_inv (b\<lparr>b_chans := h\<rparr>)"
  by (simp add: broker_inv_def registered_def)

lemma Publish_Some:
  assumes "broker_inv b"
  shows "\<exists>h. Publish b u = Some (b\<lparr>b_chans := h\<rparr>) \<and> broker_inv (b\<lparr>b_chans := h\<rparr>)
    \<and> send_all (publish_targets b u) u (b_chans b) = Some h"
proof -
  obtain h where "send_all (publish_targets b u) u (b_chans b) = Some h"
    "\<And>r. open_chan h r = open_chan (b_chans b) r"
    using send_all_open publish_targets_open [OF assms] by metis
  with assms show ?thesis by (simp add: Publish_alt broker_inv_heap)
qed

interpretation brk: fan_out Publish publish_targets b_chans "\<lambda>b u. u" broker_inv
proof unfold_locales
  fix b u assume "broker_inv b"
  then show "\<exists>b'. Publish b u = Some b'" using Publish_Some by blast
next
  fix b u b' assume "broker_inv b" "Publish b u = Some b'"
  then show "broker_inv b'" using Publish_Some [of b u] by auto
next
  fix b u b' w assume "broker_inv b" "Publish b u = Some b'"
  then show "publish_targets b' w = publish_targets b w"
    using Publish_Some [of b u] by (auto simp: publish_targets_def peers_def)
next
  fix b u b' r assume "broker_inv b" "Publish b u = Some b'" "r < length (b_chans b)"
  then show "length (b_chans b') = length (b_chans b)
      \<and> b_chans b' ! r = (if r \<in> set (publish_targets b u) then push u (b_chans b ! r) else b_chans b ! r)"
    using Publish_Some [of b u] send_all_nth [OF publish_targets_distinct] by fastforce
qed

lemma Shutdown_inv:
  assumes "broker_inv b"
  shows "\<exists>b'. Shutdown b = Some b' \<and> broker_inv b'"
proof -
  have "\<forall>r \<in> set (map snd (concat (map snd (b_subs b))) @ map snd (b_all b)). open_chan (b_chans b) r"
    using assms by (fastforce simp: broker_inv_def registered_def)
  from send_all_open [OF this, of shutdown_update] obtain h where
    "send_all (map snd (concat (map snd (b_subs b))) @ map snd (b_all b)) shutdown_update (b_chans b) = Some h"
    "\<And>r. open_chan h r = open_chan (b_chans b) r" by blast
  with assms show ?thesis by (simp add: Shutdown_def broker_inv_heap)
qed

end
