(* ===== verification/Go_Base64.thy ===== *)
theory Go_Base64
  imports Go_Prelude
begin

text \<open>
  Go's \<open>base64.StdEncoding\<close> on byte lists: the encoder, the decoder with its strict padding
  (newlines in the input are skipped, non-zero trailing bits are accepted), and the round trip;
  and the encoder of \<open>base64.RawURLEncoding\<close>.
\<close>

section \<open>Encoding\<close>

definition b64_char :: "nat \<Rightarrow> char" where
  "b64_char n = (if n < 26 then char_of (65 + n) else if n < 52 then char_of (71 + n)
     else if n < 62 then char_of (n - 4) else if n = 62 then CHR ''+'' else CHR ''/'')"

fun b64_encode :: "8 word list \<Rightarrow> string" where
  "b64_encode [] = []"
| "b64_encode [a] =
     (let n = unat a * 65536
      in [b64_char (n div 262144), b64_char (n div 4096 mod 64), CHR ''='', CHR ''=''])"
| "b64_encode [a, b] =
     (let n = unat a * 65536 + unat b * 256
      in [b64_char (n div 262144), b64_char (n div 4096 mod 64), b64_char (n div 64 mod 64), CHR ''=''])"
| "b64_encode (a # b # c # bs) =
     (let n = unat a * 65536 + unat b * 256 + unat c
      in [b64_char (n div 262144), b64_char (n div 4096 mod 64), b64_char (n div 64 mod 64),
          b64_char (n mod 64)] @ b64_encode bs)"

section \<open>Decoding\<close>

definition b64_val :: "char \<Rightarrow> nat option" where
  "b64_val ch = (let n = (of_char ch :: nat) in
     if 65 \<le> n \<and> n \<le> 90 then Some (n - 65) else if 97 \<le> n \<and> n \<le> 122 then Some (n - 71)
     else if 48 \<le> n \<and> n \<le> 57 then Some (n + 4) else if n = 43 then Some 62 else if n = 47 then Some 63 else None)"

fun b64_quads :: "string \<Rightarrow> 8 word list option" where
  "b64_quads [] = Some []"
| "b64_quads (a # b # c # d # rest) =
     (case (b64_val a, b64_val b) of
        (Some x, Some y) \<Rightarrow>
          if c = CHR ''='' then (if d = CHR ''='' \<and> rest = [] then Some [word_of_nat ((x * 64 + y) div 16)] else None)
          else (case b64_val c of
            None \<Rightarrow> None
          | Some z \<Rightarrow>
            if d = CHR ''='' then (if rest = []
              then Some [word_of_nat ((x * 64 + y) div 16), word_of_nat ((y * 64 + z) div 4)] else None)
            else (case b64_val d of
              None \<Rightarrow> None
            | Some w \<Rightarrow> map_option (\<lambda>bs. word_of_nat ((x * 64 + y) div 16) # word_of_nat ((y * 64 + z) div 4)
                                       # word_of_nat (z * 64 + w) # bs) (b64_quads rest)))
      | _ \<Rightarrow> None)"
| "b64_quads _ = None"

definition b64_decode :: "string \<Rightarrow> 8 word list option" where
  "b64_decode s = b64_quads (filter (\<lambda>c. c \<noteq> CHR 0x0A \<and> c \<noteq> CHR 0x0D) s)"

lemma of_char_b64_char:
  "n < 64 \<Longrightarrow> (of_char (b64_char n) :: nat)
     = (if n < 26 then 65 + n else if n < 52 then 71 + n else if n < 62 then n - 4 else if n = 62 then 43 else 47)"
  by (simp add: b64_char_def)

lemma b64_val_char [simp]: "n < 64 \<Longrightarrow> b64_val (b64_char n) = Some n"
  by (auto simp: b64_val_def of_char_b64_char Let_def)

lemma b64_char_plain:
  assumes "n < 64"
  shows "b64_char n \<noteq> CHR ''=''" "b64_char n \<noteq> CHR 0x0A" "b64_char n \<noteq> CHR 0x0D"
proof -
  have "(of_char (b64_char n) :: nat) \<noteq> 61 \<and> (of_char (b64_char n) :: nat) \<noteq> 10 \<and> (of_char (b64_char n) :: nat) \<noteq> 13"
    using assms by (auto simp: of_char_b64_char)
  then show "b64_char n \<noteq> CHR ''=''" "b64_char n \<noteq> CHR 0x0A" "b64_char n \<noteq> CHR 0x0D" by auto
qed

lemma byte_lt: "unat (b :: 8 word) < 256"
proof -
  have "unat b < 2 ^ LENGTH(8)" by (rule unsigned_less)
  then show ?thesis by simp
qed

lemma byte_of_mod: "k mod 256 = unat (b :: 8 word) \<Longrightarrow> word_of_nat k = b"
proof -
  assume "k mod 256 = unat b"
  moreover have "unat (word_of_nat k :: 8 word) = k mod 256" by (simp add: unat_of_nat)
  ultimately show ?thesis by (simp add: word_unat_eq_iff)
qed

lemma quad_nat:
  assumes "a < 256" "b < 256" "c < (256 :: nat)"
  defines "n \<equiv> a * 65536 + b * 256 + c"
  shows "((n div 262144 * 64 + n div 4096 mod 64) div 16) mod 256 = a"
    "((n div 4096 mod 64 * 64 + n div 64 mod 64) div 4) mod 256 = b"
    "(n div 64 mod 64 * 64 + n mod 64) mod 256 = c" "n div 262144 < 64"
proof -
  obtain q where q: "q = b + 256 * a" by simp
  then have n: "n = c + q * 256" by (simp add: n_def)
  have "n div 256 = q" "n mod 256 = c" unfolding n using assms(3) by simp_all
  then have n256: "n div 256 = b + 256 * a" "n mod 256 = c" by (simp_all only: q)
  have hi: "n div 65536 = a" "n div 256 mod 256 = b"
    using assms(2) div_mult2_eq [of n 256 256] by (simp_all add: n256)
  have d: "n div 4096 = n div 64 div 64" "n div 256 = n div 64 div 4" "n div 262144 = n div 4096 div 64" "n div 65536 = n div 4096 div 16"
    using div_mult2_eq [of n 64 64] div_mult2_eq [of n 64 4] div_mult2_eq [of n 4096 64] div_mult2_eq [of n 4096 16] by simp_all
  have "n div 262144 * 64 + n div 4096 mod 64 = n div 4096" unfolding d(3) by (rule div_mult_mod_eq)
  then show "((n div 262144 * 64 + n div 4096 mod 64) div 16) mod 256 = a" using d(4) hi(1) assms(1) by simp
  have m: "m div 64 mod 64 * 64 + m mod 64 = m mod 4096" for m :: nat using mod_mult2_eq [of m 64 64] by simp
  have q: "(m mod 4096) div 4 mod 256 = m div 4 mod 256" for m :: nat
  proof -
    have "m mod 4096 = 4 * (m div 4 mod 1024) + m mod 4" using mod_mult2_eq [of m 4 1024] by simp
    then have "(m mod 4096) div 4 = m div 4 mod 1024" by simp
    moreover have "m div 4 mod 1024 mod 256 = m div 4 mod 256" by (rule mod_mod_cancel) simp
    ultimately show ?thesis by simp
  qed
  show "((n div 4096 mod 64 * 64 + n div 64 mod 64) div 4) mod 256 = b"
    using m [of "n div 64"] q [of "n div 64"] hi(2) d(1,2) by simp
  have "n mod 4096 mod 256 = n mod 256" by (rule mod_mod_cancel) simp
  then show "(n div 64 mod 64 * 64 + n mod 64) mod 256 = c" unfolding m using n256(2) by simp
  have "n < 64 * 262144" using assms unfolding n_def by linarith
  then show "n div 262144 < 64" by (rule less_mult_imp_div_less) 
qed

lemma quad_bytes:
  fixes a b c :: "8 word"
  defines "n \<equiv> unat a * 65536 + unat b * 256 + unat c"
  shows "word_of_nat ((n div 262144 * 64 + n div 4096 mod 64) div 16) = a"
    "word_of_nat ((n div 4096 mod 64 * 64 + n div 64 mod 64) div 4) = b"
    "word_of_nat (n div 64 mod 64 * 64 + n mod 64) = c" "n div 262144 < 64"
  unfolding n_def by (rule byte_of_mod, rule quad_nat, (rule byte_lt)+)+ (rule quad_nat(4), (rule byte_lt)+)

lemma b64_quads_encode: "b64_quads (b64_encode bs) = Some bs"
proof (induction bs rule: b64_encode.induct)
  case (2 a)
  show ?case using quad_bytes(1,4) [of a 0 0] by (simp add: Let_def)
next
  case (3 a b)
  show ?case using quad_bytes(1,2,4) [of a b 0] by (simp add: Let_def b64_char_plain)
next
  case (4 a b c bs)
  then show ?case using quad_bytes [of a b c] by (simp add: Let_def b64_char_plain)
qed simp

lemma b64_encode_plain: "c \<in> set (b64_encode bs) \<Longrightarrow> c \<noteq> CHR 0x0A \<and> c \<noteq> CHR 0x0D"
proof (induction bs rule: b64_encode.induct)
  case (2 a)
  then show ?case using quad_bytes(4) [of a 0 0] by (auto simp: Let_def b64_char_plain)
next
  case (3 a b)
  then show ?case using quad_bytes(4) [of a b 0] by (auto simp: Let_def b64_char_plain)
next
  case (4 a b c bs)
  then show ?case using quad_bytes(4) [of a b c] by (auto simp: Let_def b64_char_plain)
qed simp

theorem b64_decode_encode [simp]: "b64_decode (b64_encode bs) = Some bs"
proof -
  have "filter (\<lambda>c. c \<noteq> CHR 0x0A \<and> c \<noteq> CHR 0x0D) (b64_encode bs) = b64_encode bs"
    by (rule filter_True) (use b64_encode_plain in blast)
  then show ?thesis by (simp add: b64_decode_def b64_quads_encode)
qed

section \<open>The URL alphabet without padding\<close>

text \<open>\<open>base64.RawURLEncoding.EncodeToString\<close>.\<close>

definition url_char :: "char \<Rightarrow> char" where
  "url_char ch = (if ch = CHR ''+'' then CHR ''-'' else if ch = CHR ''/'' then CHR ''_'' else ch)"

definition rawurl_encode :: "8 word list \<Rightarrow> string" where
  "rawurl_encode bs = map url_char (takeWhile (\<lambda>ch. ch \<noteq> CHR ''='') (b64_encode bs))"

end
