(* ===== verification/Secret_Store.thy ===== *)
theory Secret_Store
  imports Go_Base64
begin

text \<open>
  The secret store (\<open>controlplane/internal/secrets\<close>): the \<open>Store\<close> interface as a record of
  operations over a state, its helpers (path conventions, minting and reading a machine's
  volume key, the start-up self check, the dump migration), and the two backends under
  \<open>src/\<close> that need no network, \<open>MemStore\<close> and \<open>FileStore\<close>. The locale \<open>secret_store\<close> is what
  callers rely on; both backends interpret it.
\<close>

type_synonym fields = "string \<rightharpoonup> string"

record 'st store_ops =
  Put :: "'st \<Rightarrow> string \<Rightarrow> fields \<Rightarrow> 'st \<times> unit res"
  Get :: "'st \<Rightarrow> string \<Rightarrow> fields res"
  Delete :: "'st \<Rightarrow> string \<Rightarrow> 'st \<times> unit res"

section \<open>Paths\<close>

definition UserGitHubPath :: "string \<Rightarrow> string" where
  "UserGitHubPath user_id = ''secret/users/'' @ user_id @ ''/github''"

definition UserGitHostPath :: "string \<Rightarrow> string \<Rightarrow> string" where
  "UserGitHostPath user_id hst = ''secret/users/'' @ user_id @ ''/githosts/''
     @ map (\<lambda>c. if c = CHR '':'' then CHR ''_'' else c) hst"

definition UserProviderPath :: "string \<Rightarrow> string \<Rightarrow> string" where
  "UserProviderPath user_id provider_key = ''secret/users/'' @ user_id @ ''/providers/'' @ provider_key"

definition UserProfilePath :: "string \<Rightarrow> string \<Rightarrow> string" where
  "UserProfilePath user_id key = ''secret/users/'' @ user_id @ ''/profile/'' @ key"

definition MachineVolumeKeyPath :: "string \<Rightarrow> string" where
  "MachineVolumeKeyPath machine_id = ''secret/machines/'' @ machine_id @ ''/volume-key''"

definition selfCheckPath :: string where
  "selfCheckPath = ''secret/machines/_selfcheck/probe''"

definition volumeKeyField :: string where
  "volumeKeyField = ''key_b64''"

section \<open>Helpers over the interface\<close>

definition SelfCheck :: "'st store_ops \<Rightarrow> 'st \<Rightarrow> 'st \<times> unit res" where
  "SelfCheck S s =
     (case Put S s selfCheckPath [''probe'' \<mapsto> ''ok''] of
        (s1, Inl e) \<Rightarrow> (s1, Inl (Errorf (''secrets self-check: write '' @ selfCheckPath @
           '' failed (does the backend policy grant create/update on machine paths?): '') e []))
      | (s1, Inr _) \<Rightarrow>
        (let r = (case Get S s1 selfCheckPath of
             Inl e \<Rightarrow> Inl (Errorf (''secrets self-check: read-back '' @ selfCheckPath @ '' failed: '') e [])
           | Inr got \<Rightarrow>
             if got ''probe'' \<noteq> Some ''ok''
             then Inl (ErrorText (''secrets self-check: read-back mismatch on '' @ selfCheckPath))
             else Inr ())
         in (fst (Delete S s1 selfCheckPath), r)))"

text \<open>\<open>rnd\<close> is what \<open>io.ReadFull\<close> yields: 32 random bytes or an error.\<close>

definition MintMachineVolumeKey ::
  "'st store_ops \<Rightarrow> 'st \<Rightarrow> 8 word list res \<Rightarrow> string \<Rightarrow> 'st \<times> string res" where
  "MintMachineVolumeKey S s rnd machine_id =
     (case rnd of
        Inl e \<Rightarrow> (s, Inl (Errorf ''generate volume key: '' e []))
      | Inr key \<Rightarrow>
        (let keyB64 = b64_encode key
         in case Put S s (MachineVolumeKeyPath machine_id) [volumeKeyField \<mapsto> keyB64] of
              (s', Inl e) \<Rightarrow> (s', Inl (Errorf ''store volume key: '' e []))
            | (s', Inr _) \<Rightarrow> (s', Inr keyB64)))"

definition GetMachineVolumeKey :: "'st store_ops \<Rightarrow> 'st \<Rightarrow> string \<Rightarrow> string res" where
  "GetMachineVolumeKey S s machine_id =
     (case Get S s (MachineVolumeKeyPath machine_id) of
        Inl e \<Rightarrow> Inl e
      | Inr data \<Rightarrow> (case data volumeKeyField of None \<Rightarrow> Inl (Sentinel ErrSecretNotFound) | Some k \<Rightarrow> Inr k))"

text \<open>
  The copy loop of \<open>MigrateFromFile\<close> over the paths of the parsed dump, in the order the
  range loop visits them.
\<close>

fun MigrateFromFile :: "'st store_ops \<Rightarrow> (string \<times> fields) list \<Rightarrow> nat \<Rightarrow> 'st \<Rightarrow> 'st \<times> nat \<times> unit res" where
  "MigrateFromFile S [] n s = (s, n, Inr ())"
| "MigrateFromFile S ((path, data) # rest) n s =
     (case Put S s path data of
        (s', Inl e) \<Rightarrow> (s', n, Inl (Errorf (''migrate \"'' @ path @ ''\": '') e []))
      | (s', Inr _) \<Rightarrow> MigrateFromFile S rest (n + 1) s')"

section \<open>What callers rely on\<close>

locale secret_store =
  fixes S :: "'st store_ops"
    and sinv :: "'st \<Rightarrow> bool"
  assumes get_put: "sinv s \<Longrightarrow> Put S s p x = (s', Inr ()) \<Longrightarrow> Get S s' p = Inr x"
    and put_failed: "sinv s \<Longrightarrow> Put S s p x = (s', Inl e) \<Longrightarrow> Get S s' q = Get S s q"
    and put_other: "sinv s \<Longrightarrow> Put S s p x = (s', r) \<Longrightarrow> q \<noteq> p \<Longrightarrow> Get S s' q = Get S s q"
    and get_delete: "sinv s \<Longrightarrow> Delete S s p = (s', Inr ()) \<Longrightarrow> Get S s' p = Inl (Sentinel ErrSecretNotFound)"
    and delete_other: "sinv s \<Longrightarrow> Delete S s p = (s', r) \<Longrightarrow> q \<noteq> p \<Longrightarrow> Get S s' q = Get S s q"
    and put_inv: "sinv s \<Longrightarrow> Put S s p x = (s', r) \<Longrightarrow> sinv s'"
    and delete_inv: "sinv s \<Longrightarrow> Delete S s p = (s', r) \<Longrightarrow> sinv s'"
begin

text \<open>A minted key is the key every later read of that machine gets; no other path changes.\<close>

lemma mint_then_get:
  assumes "sinv s" "MintMachineVolumeKey S s rnd i = (s', Inr k)"
  shows "GetMachineVolumeKey S s' i = Inr k"
  using assms get_put
  by (fastforce simp: MintMachineVolumeKey_def GetMachineVolumeKey_def Let_def split: sum.splits prod.splits)

lemma mint_other:
  assumes "sinv s" "MintMachineVolumeKey S s rnd i = (s', r)" "q \<noteq> MachineVolumeKeyPath i"
  shows "Get S s' q = Get S s q"
  using assms put_other
  by (fastforce simp: MintMachineVolumeKey_def Let_def split: sum.splits prod.splits)

lemma mint_inv:
  assumes "sinv s" "MintMachineVolumeKey S s rnd i = (s', r)"
  shows "sinv s'"
  using assms put_inv
  by (fastforce simp: MintMachineVolumeKey_def Let_def split: sum.splits prod.splits)

text \<open>The self check passes exactly when the write does, and leaves every other path alone.\<close>

lemma self_check_ok:
  assumes "sinv s"
  shows "snd (SelfCheck S s) = Inr () \<longleftrightarrow> snd (Put S s selfCheckPath [''probe'' \<mapsto> ''ok'']) = Inr ()"
proof (cases "Put S s selfCheckPath [''probe'' \<mapsto> ''ok'']")
  case (Pair s1 r)
  with get_put [OF assms] show ?thesis
    by (cases r) (auto simp: SelfCheck_def Let_def)
qed

lemma self_check_other:
  assumes "sinv s" "q \<noteq> selfCheckPath"
  shows "Get S (fst (SelfCheck S s)) q = Get S s q"
proof (cases "Put S s selfCheckPath [''probe'' \<mapsto> ''ok'']")
  case (Pair s1 r)
  then have "sinv s1" "Get S s1 q = Get S s q" using put_inv put_other assms by blast+
  moreover have "Get S (fst (Delete S s1 selfCheckPath)) q = Get S s1 q"
    using delete_other [OF \<open>sinv s1\<close>] assms(2) by (metis prod.collapse)
  ultimately show ?thesis using Pair by (cases r) (simp_all add: SelfCheck_def Let_def)
qed

text \<open>A migration that reports success has copied every path of a dump with distinct paths.\<close>

lemma migrate_copies:
  assumes "sinv s" "MigrateFromFile S xs n s = (s', k, Inr ())" "distinct (map fst xs)"
  shows "k = n + length xs \<and> (\<forall>(p, x) \<in> set xs. Get S s' p = Inr x)
    \<and> (\<forall>q. q \<notin> fst ` set xs \<longrightarrow> Get S s' q = Get S s q)"
  using assms
proof (induction xs arbitrary: s n)
  case (Cons y ys)
  obtain p x where y: "y = (p, x)" by (cases y)
  from Cons.prems(2) y obtain t where put: "Put S s p x = (t, Inr ())"
    and rest: "MigrateFromFile S ys (n + 1) t = (s', k, Inr ())"
    by (auto split: prod.splits sum.splits)
  from Cons.IH [OF put_inv [OF Cons.prems(1) put] rest] Cons.prems(3) y
  have IH: "k = n + 1 + length ys" "\<forall>(p, x) \<in> set ys. Get S s' p = Inr x"
    "\<forall>q. q \<notin> fst ` set ys \<longrightarrow> Get S s' q = Get S t q" by auto
  have "Get S s' p = Inr x" using IH(3) get_put [OF Cons.prems(1) put] Cons.prems(3) y by auto
  with IH put_other [OF Cons.prems(1) put] y show ?case by auto
qed simp

end

section \<open>MemStore\<close>

type_synonym mem_state = "string \<rightharpoonup> fields"

definition mem_Put :: "mem_state \<Rightarrow> string \<Rightarrow> fields \<Rightarrow> mem_state \<times> unit res" where
  "mem_Put s path data = (s(path \<mapsto> data), Inr ())"

definition mem_Get :: "mem_state \<Rightarrow> string \<Rightarrow> fields res" where
  "mem_Get s path = (case s path of None \<Rightarrow> Inl (Sentinel ErrSecretNotFound) | Some d \<Rightarrow> Inr d)"

definition mem_Delete :: "mem_state \<Rightarrow> string \<Rightarrow> mem_state \<times> unit res" where
  "mem_Delete s path = (s(path := None), Inr ())"

definition NewMemStore :: mem_state where
  "NewMemStore = Map.empty"

definition mem_ops :: "mem_state store_ops" where
  "mem_ops = \<lparr>Put = mem_Put, Get = mem_Get, Delete = mem_Delete\<rparr>"

interpretation mem: secret_store mem_ops "\<lambda>_. True"
  by unfold_locales (auto simp: mem_ops_def mem_Put_def mem_Get_def mem_Delete_def)

section \<open>FileStore\<close>

text \<open>
  The content of the JSON file: absent, empty, a parsed object, the literal \<open>null\<close> (which
  unmarshals to a nil map), or text that does not parse. \<open>fsctx\<close> holds the I/O errors.
\<close>

datatype file_content = Missing | Blank | Object mem_state | JsonNull | Malformed string

record file_state =
  fs_file :: file_content
  fs_tmp :: file_content

record fsctx =
  fx_mkdir :: "string option"
  fx_read :: "string option"
  fx_write :: "string option"
  fx_rename :: "string option"

definition readAll :: "fsctx \<Rightarrow> file_state \<Rightarrow> mem_state option res" where
  "readAll c s = (case fs_file s of
       Missing \<Rightarrow> Inr (Some Map.empty)
     | f \<Rightarrow> (case fx_read c of
         Some e \<Rightarrow> Inl (Errorf ''read secrets file: '' (ErrorText e) [])
       | None \<Rightarrow> (case f of
           Missing \<Rightarrow> Inr (Some Map.empty)
         | Blank \<Rightarrow> Inr (Some Map.empty)
         | Object m \<Rightarrow> Inr (Some m)
         | JsonNull \<Rightarrow> Inr None
         | Malformed e \<Rightarrow> Inl (Errorf ''parse secrets file: '' (ErrorText e) []))))"

definition writeAll :: "fsctx \<Rightarrow> file_state \<Rightarrow> file_content \<Rightarrow> file_state \<times> unit res" where
  "writeAll c s content = (case fx_write c of
       Some e \<Rightarrow> (s, Inl (Errorf ''write secrets file: '' (ErrorText e) []))
     | None \<Rightarrow> (case fx_rename c of
         Some e \<Rightarrow> (s\<lparr>fs_tmp := content\<rparr>, Inl (Errorf ''rename secrets file: '' (ErrorText e) []))
       | None \<Rightarrow> (\<lparr>fs_file = content, fs_tmp = Missing\<rparr>, Inr ())))"

definition NewFileStore :: "fsctx \<Rightarrow> file_state \<Rightarrow> file_state \<times> unit res" where
  "NewFileStore c s = (case fx_mkdir c of
       Some e \<Rightarrow> (s, Inl (Errorf ''create secrets dir: '' (ErrorText e) []))
     | None \<Rightarrow> if fs_file s = Missing then writeAll c s (Object Map.empty) else (s, Inr ()))"

text \<open>Assigning into the nil map of a \<open>null\<close> file panics.\<close>

definition nil_map_panic :: error where
  "nil_map_panic = ErrorText ''panic: assignment to entry in nil map''"

definition file_Put :: "fsctx \<Rightarrow> file_state \<Rightarrow> string \<Rightarrow> fields \<Rightarrow> file_state \<times> unit res" where
  "file_Put c s path data = (case readAll c s of
       Inl e \<Rightarrow> (s, Inl e)
     | Inr None \<Rightarrow> (s, Inl nil_map_panic)
     | Inr (Some all) \<Rightarrow> writeAll c s (Object (all(path \<mapsto> data))))"

definition file_Get :: "fsctx \<Rightarrow> file_state \<Rightarrow> string \<Rightarrow> fields res" where
  "file_Get c s path = (case readAll c s of
       Inl e \<Rightarrow> Inl e
     | Inr None \<Rightarrow> Inl (Sentinel ErrSecretNotFound)
     | Inr (Some all) \<Rightarrow> (case all path of None \<Rightarrow> Inl (Sentinel ErrSecretNotFound) | Some d \<Rightarrow> Inr d))"

definition file_Delete :: "fsctx \<Rightarrow> file_state \<Rightarrow> string \<Rightarrow> file_state \<times> unit res" where
  "file_Delete c s path = (case readAll c s of
       Inl e \<Rightarrow> (s, Inl e)
     | Inr None \<Rightarrow> writeAll c s JsonNull
     | Inr (Some all) \<Rightarrow> writeAll c s (Object (all(path := None))))"

definition file_ops :: "fsctx \<Rightarrow> file_state store_ops" where
  "file_ops c = \<lparr>Put = file_Put c, Get = file_Get c, Delete = file_Delete c\<rparr>"

lemma writeAll_Inr: "writeAll c s f = (s', Inr ()) \<Longrightarrow> s' = \<lparr>fs_file = f, fs_tmp = Missing\<rparr>"
  by (auto simp: writeAll_def split: option.splits)

lemma writeAll_Inl: "writeAll c s f = (s', Inl e) \<Longrightarrow> fs_file s' = fs_file s"
  by (auto simp: writeAll_def split: option.splits)

lemma readAll_file: "fs_file s' = fs_file s \<Longrightarrow> readAll c s' = readAll c s"
  by (simp add: readAll_def)

text \<open>
  While reads succeed. A missing file needs no read, so a put into it can succeed although
  the read-back would not; the store's users open it with \<open>NewFileStore\<close>, which creates it.
\<close>

interpretation fstore: secret_store "file_ops c" "\<lambda>s. fx_read c = None" for c
proof unfold_locales
  fix s p x s'
  assume ok: "fx_read c = None" and put: "Put (file_ops c) s p x = (s', Inr ())"
  then show "Get (file_ops c) s' p = Inr x"
    by (auto simp: file_ops_def file_Put_def file_Get_def readAll_def
        split: sum.splits option.splits dest!: writeAll_Inr)
next
  fix s p x s' e q
  assume "fx_read c = None" "Put (file_ops c) s p x = (s', Inl e)"
  then have "fs_file s' = fs_file s"
    by (auto simp: file_ops_def file_Put_def split: sum.splits option.splits dest: writeAll_Inl)
  from readAll_file [OF this] show "Get (file_ops c) s' q = Get (file_ops c) s q"
    by (simp add: file_ops_def file_Get_def)
next
  fix s p x s' r q
  assume ok: "fx_read c = None" and put: "Put (file_ops c) s p x = (s', r)" and "q \<noteq> p"
  then show "Get (file_ops c) s' q = Get (file_ops c) s q"
    by (cases r) (auto simp: file_ops_def file_Put_def file_Get_def split: sum.splits option.splits
        dest!: writeAll_Inr dest: writeAll_Inl readAll_file [of s' s c] simp: readAll_def)
next
  fix s p s'
  assume ok: "fx_read c = None" and del: "Delete (file_ops c) s p = (s', Inr ())"
  then show "Get (file_ops c) s' p = Inl (Sentinel ErrSecretNotFound)"
    by (auto simp: file_ops_def file_Delete_def file_Get_def readAll_def
        split: sum.splits option.splits dest!: writeAll_Inr)
next
  fix s p s' r q
  assume ok: "fx_read c = None" and del: "Delete (file_ops c) s p = (s', r)" and "q \<noteq> p"
  then show "Get (file_ops c) s' q = Get (file_ops c) s q"
    by (cases r) (auto simp: file_ops_def file_Delete_def file_Get_def split: sum.splits option.splits
        dest!: writeAll_Inr dest: writeAll_Inl readAll_file [of s' s c] simp: readAll_def)
qed

end
