(* ===== verification/Machine_Service.thy ===== *)
theory Machine_Service
  imports Machine_Scheduler Machine_NetworkPolicy Machine_Broker Secret_Store
begin

text \<open>
  The machine lifecycle service (\<open>machine/service.go\<close>, \<open>machine/sessionexport.go\<close> and the
  policy operations of \<open>machine/networkpolicy.go\<close>), every operation with all its error
  branches. \<open>deps\<close> holds what the \<open>Service\<close> struct is wired with and what one call meets:
  the node-agent client, the secret store's operations, the configuration, the database
  context, the randomness, the identifiers the database draws and the export file system.
  \<open>world\<close> is what an operation changes: database, secrets, broker, the calls made to the
  node-agent (newest last), the exported files, and whether a broker send has panicked.
\<close>

section \<open>Calls to the node-agent\<close>

datatype agent_call =
    CallEnsure string ensure_request
  | CallStop string string
  | CallDestroy string
  | CallStatus string
  | CallList
  | CallCapacity pg_uuid

section \<open>Session export records\<close>

record session_export_record =
  se_ID :: string
  se_MachineID :: string
  se_MachineName :: string
  se_Status :: string
  se_Provider :: string
  se_Project :: string
  se_Prompt :: string
  se_AgentSessionID :: string
  se_Usage :: "string option"
  se_ResultSummary :: string
  se_Error :: string
  se_CreatedAt :: string
  se_StartedAt :: string
  se_EndedAt :: string

record session_export_result =
  x_Total :: nat
  x_Exported :: nat
  x_Failed :: "string list"

section \<open>Dependencies and world\<close>

record 'st deps =
  dp_db :: dbctx
  dp_secrets :: "'st store_ops"
  dp_spec :: spec
  dp_Ensure :: "string \<Rightarrow> ensure_request \<Rightarrow> string res"
  dp_Stop :: "string \<Rightarrow> string \<Rightarrow> unit res"
  dp_Destroy :: "string \<Rightarrow> unit res"
  dp_Capacity :: "pg_uuid \<Rightarrow> capacity res"
  dp_rand :: "8 word list res"
  dp_machine_id :: pg_uuid
  dp_disk_id :: pg_uuid
  dp_MkdirAll :: "string \<Rightarrow> unit res"
  dp_Join :: "string \<Rightarrow> string \<Rightarrow> string"
  dp_MarshalIndent :: "session_export_record \<Rightarrow> string res"
  dp_WriteFile :: "string \<Rightarrow> string \<Rightarrow> unit res"
  dp_RFC3339 :: "nat \<Rightarrow> string"

record 'st world =
  w_db :: db
  w_secrets :: 'st
  w_broker :: "broker option"
  w_calls :: "agent_call list"
  w_files :: "(string \<times> string) list"
  w_panicked :: bool

definition publish :: "'st world \<Rightarrow> update \<Rightarrow> 'st world" where
  "publish w u = (case w_broker w of
       None \<Rightarrow> w
     | Some b \<Rightarrow> (case Publish b u of
         None \<Rightarrow> w\<lparr>w_panicked := True\<rparr>
       | Some b' \<Rightarrow> w\<lparr>w_broker := Some b'\<rparr>))"

definition call :: "'st world \<Rightarrow> agent_call \<Rightarrow> 'st world" where
  "call w a = w\<lparr>w_calls := w_calls w @ [a]\<rparr>"

section \<open>Reads\<close>

definition Service_Get :: "'st deps \<Rightarrow> 'st world \<Rightarrow> pg_uuid \<Rightarrow> machine res" where
  "Service_Get dp w user_id =
     (case GetMachineByUserID (dp_db dp) (w_db w) user_id of
        Inl e \<Rightarrow> Inl (if errors_Is e ErrNoRows then Sentinel ErrNoMachine else e)
      | Inr m \<Rightarrow> Inr m)"

definition Service_List :: "'st deps \<Rightarrow> 'st world \<Rightarrow> pg_uuid \<Rightarrow> machine list res" where
  "Service_List dp w user_id = ListMachinesByUserID (dp_db dp) (w_db w) user_id"

definition OnlyMachine :: "'st deps \<Rightarrow> 'st world \<Rightarrow> pg_uuid \<Rightarrow> machine res" where
  "OnlyMachine dp w user_id =
     (case ListMachinesByUserID (dp_db dp) (w_db w) user_id of
        Inl e \<Rightarrow> Inl e
      | Inr [] \<Rightarrow> Inl (Sentinel ErrNoMachine)
      | Inr [m] \<Rightarrow> Inr m
      | Inr _ \<Rightarrow> Inl (Sentinel ErrAmbiguous))"

definition getOwned :: "'st deps \<Rightarrow> 'st world \<Rightarrow> pg_uuid \<Rightarrow> pg_uuid \<Rightarrow> machine res" where
  "getOwned dp w user_id machine_id =
     (case GetMachineByID (dp_db dp) (w_db w) machine_id of
        Inl e \<Rightarrow> if errors_Is e ErrNoRows then Inl (Sentinel ErrNoMachine) else Inl e
      | Inr m \<Rightarrow>
        if \<not> Valid (m_UserID m) \<or> \<not> Valid user_id \<or> Bytes (m_UserID m) \<noteq> Bytes user_id
        then Inl (Sentinel ErrNoMachine) else Inr m)"

definition GetByID :: "'st deps \<Rightarrow> 'st world \<Rightarrow> pg_uuid \<Rightarrow> machine res" where
  "GetByID dp w i =
     (case GetMachineByID (dp_db dp) (w_db w) i of
        Inl e \<Rightarrow> Inl (if errors_Is e ErrNoRows then Sentinel ErrNoMachine else e)
      | Inr m \<Rightarrow> Inr m)"

definition DiskFor :: "'st deps \<Rightarrow> 'st world \<Rightarrow> pg_uuid \<Rightarrow> disk option res" where
  "DiskFor dp w i = (case GetDiskByMachineID (dp_db dp) (w_db w) i of
       Inl e \<Rightarrow> if errors_Is e ErrNoRows then Inr None else Inl e
     | Inr k \<Rightarrow> Inr (Some k))"

definition SnapshotFor :: "'st deps \<Rightarrow> 'st world \<Rightarrow> pg_uuid \<Rightarrow> snapshot option res" where
  "SnapshotFor dp w i = (case GetSnapshot (dp_db dp) (w_db w) i of
       Inl e \<Rightarrow> if errors_Is e ErrNoRows then Inr None else Inl e
     | Inr s \<Rightarrow> Inr (Some s))"

text \<open>A nil map reads like an empty one, so the early return is the empty map.\<close>

definition DisksFor :: "'st deps \<Rightarrow> 'st world \<Rightarrow> pg_uuid list \<Rightarrow> (pg_uuid \<rightharpoonup> disk) res" where
  "DisksFor dp w ids =
     (if ids = [] then Inr Map.empty
      else case ListDisksByMachineIDs (dp_db dp) (w_db w) ids of
        Inl e \<Rightarrow> Inl e
      | Inr ks \<Rightarrow> Inr (foldl (\<lambda>out k. out(d_MachineID k \<mapsto> k)) Map.empty ks))"

definition SnapshotsFor :: "'st deps \<Rightarrow> 'st world \<Rightarrow> pg_uuid list \<Rightarrow> (pg_uuid \<rightharpoonup> snapshot) res" where
  "SnapshotsFor dp w ids =
     (if ids = [] then Inr Map.empty
      else case ListSnapshotsByMachineIDs (dp_db dp) (w_db w) ids of
        Inl e \<Rightarrow> Inl e
      | Inr ss \<Rightarrow> Inr (foldl (\<lambda>out s. out(sn_MachineID s \<mapsto> s)) Map.empty ss))"

section \<open>State changes\<close>

definition svc_transition ::
  "'st deps \<Rightarrow> 'st world \<Rightarrow> pg_uuid \<Rightarrow> state \<Rightarrow> state \<Rightarrow> string \<Rightarrow> string \<Rightarrow> json_object option
     \<Rightarrow> string option \<Rightarrow> 'st world \<times> (machine \<times> machine_event) res" where
  "svc_transition dp w i from_state to_state actor eventType payload lastErr =
     (case Transition (dp_db dp) (w_db w)
        \<lparr>tp_MachineID = i, tp_From = from_state, tp_To = to_state, tp_Actor = actor,
         tp_EventType = eventType, tp_Payload = payload, tp_LastError = lastErr\<rparr> of
        (d, Inl e) \<Rightarrow> (w\<lparr>w_db := d\<rparr>, Inl e)
      | (d, Inr (m, ev)) \<Rightarrow>
        (publish (w\<lparr>w_db := d\<rparr>)
           \<lparr>u_Machine = Some m, u_Event = Some ev, u_Deleted = False, u_Shutdown = False\<rparr>,
         Inr (m, ev)))"

definition mapTransitionErr :: "error \<Rightarrow> error" where
  "mapTransitionErr e =
     (if errors_As_InvalidTransition e \<or> errors_Is e ErrStateConflict
      then Sentinel ErrInvalidState else e)"

definition svc_fail ::
  "'st deps \<Rightarrow> 'st world \<Rightarrow> pg_uuid \<Rightarrow> state \<Rightarrow> string \<Rightarrow> 'st world \<times> machine res" where
  "svc_fail dp w i from_state reason =
     (case svc_transition dp w i from_state StateError ActorAPI EventError
        (Some [(''reason'', JStr reason)]) (Some reason) of
        (w', Inl terr) \<Rightarrow>
          (w', Inl (ErrorText (reason @ '' (and could not record error: '' @ Error terr @ '')'')))
      | (w', Inr (errored, _)) \<Rightarrow> (w', Inr errored))"

definition buildEnsureRequest ::
  "'st deps \<Rightarrow> 'st world \<Rightarrow> machine \<Rightarrow> string \<Rightarrow> string \<Rightarrow> ensure_request res" where
  "buildEnsureRequest dp w m kernelRef rootfsRef =
     (let r = parseResources (m_ResourceSpec m);
          (vcpus, memMiB) = (if r_Vcpus r > 0 \<and> r_MemMiB r > 0 then (r_Vcpus r, r_MemMiB r)
                             else (s_Vcpus (dp_spec dp), s_MemMiB (dp_spec dp)));
          (diskID, diskMiB) = (case GetDiskByMachineID (dp_db dp) (w_db w) (m_ID m) of
              Inl e \<Rightarrow> ([], 0)
            | Inr k \<Rightarrow> (UUIDString (d_ID k), d_SizeMib k))
      in case GetMachineVolumeKey (dp_secrets dp) (w_secrets w) (UUIDString (m_ID m)) of
           Inl e \<Rightarrow> Inl (Errorf ''fetch volume key: '' e [])
         | Inr keyB64 \<Rightarrow>
           (case getNetworkPolicy (dp_db dp) (w_db w) (m_ID m) of
              Inl e \<Rightarrow> Inl (Errorf ''load network policy: '' e [])
            | Inr policy \<Rightarrow>
              Inr \<lparr>er_Vcpus = vcpus, er_MemMiB = memMiB, er_KernelRef = kernelRef,
                   er_RootfsRef = rootfsRef, er_DiskID = diskID, er_DiskMiB = diskMiB,
                   er_VolumeKeyB64 = keyB64,
                   er_NetworkPolicy = Some (pol_Mode policy, pol_Domains policy)\<rparr>))"

definition ensureOnAgent ::
  "'st deps \<Rightarrow> 'st world \<Rightarrow> machine \<Rightarrow> string \<Rightarrow> string \<Rightarrow> 'st world \<times> machine res" where
  "ensureOnAgent dp w m kernelRef rootfsRef =
     (case buildEnsureRequest dp w m kernelRef rootfsRef of
        Inl e \<Rightarrow> svc_fail dp w (m_ID m) (m_State m) (Error e)
      | Inr req \<Rightarrow>
        (let w1 = call w (CallEnsure (UUIDString (m_ID m)) req)
         in case dp_Ensure dp (UUIDString (m_ID m)) req of
              Inl e \<Rightarrow> svc_fail dp w1 (m_ID m) (m_State m) (''node-agent ensure failed: '' @ Error e)
            | Inr handle \<Rightarrow>
              (case SetMachineRuntime (dp_db dp) (w_db w1) (m_ID m) (Some handle) None of
                 Inl e \<Rightarrow> (w1, Inl (Errorf ''record handle: '' e []))
               | Inr (d, updated) \<Rightarrow> (w1\<lparr>w_db := d\<rparr>, Inr updated))))"

definition RetryEnsure :: "'st deps \<Rightarrow> 'st world \<Rightarrow> machine \<Rightarrow> 'st world \<times> unit res" where
  "RetryEnsure dp w m =
     (case buildEnsureRequest dp w m (m_KernelRef m) (m_RootfsRef m) of
        Inl e \<Rightarrow> (w, Inl e)
      | Inr req \<Rightarrow>
        (call w (CallEnsure (UUIDString (m_ID m)) req),
         case dp_Ensure dp (UUIDString (m_ID m)) req of Inl e \<Rightarrow> Inl e | Inr _ \<Rightarrow> Inr ()))"

section \<open>Create\<close>

text \<open>
  The steps between the insert and the transition to provisioning. A failure also carries
  the identifier held by the Go variable \<open>m\<close> at that moment, which the deferred
  compensation reads: \<open>m, err = s.q.SetMachineDisk(...)\<close> and \<open>m, _, err = s.transition(...)\<close>
  overwrite it with the zero row when they fail.
\<close>

definition Create_setup ::
  "'st deps \<Rightarrow> 'st world \<Rightarrow> machine \<Rightarrow> pg_uuid \<Rightarrow> resources
     \<Rightarrow> 'st world \<times> ((pg_uuid \<times> error) + machine)" where
  "Create_setup dp w m user_id r =
     (case CreateDisk (dp_db dp) (dp_disk_id dp) (w_db w) (m_ID m) (int32 (r_DiskMiB r)) of
        Inl e \<Rightarrow> (w, Inl (m_ID m, Errorf ''create disk: '' e []))
      | Inr (d1, disk) \<Rightarrow>
        (case SetMachineDisk (dp_db dp) d1 (m_ID m) (d_ID disk) of
           Inl e \<Rightarrow> (w\<lparr>w_db := d1\<rparr>, Inl (zero_uuid, Errorf ''attach disk: '' e []))
         | Inr (d2, m2) \<Rightarrow>
           (case MintMachineVolumeKey (dp_secrets dp) (w_secrets w) (dp_rand dp) (UUIDString (m_ID m2)) of
              (st, Inl e) \<Rightarrow>
                (w\<lparr>w_db := d2, w_secrets := st\<rparr>, Inl (m_ID m2, Errorf ''mint volume key: '' e []))
            | (st, Inr _) \<Rightarrow>
              (case svc_transition dp (w\<lparr>w_db := d2, w_secrets := st\<rparr>) (m_ID m2)
                 StateRequested StateProvisioning (ActorUser (UUIDString user_id)) EventTransition None None of
                 (w3, Inl e) \<Rightarrow> (w3, Inl (zero_uuid, e))
               | (w3, Inr (m3, _)) \<Rightarrow> (w3, Inr m3)))))"

text \<open>The deferred compensation; a failing delete is only logged.\<close>

definition compensate :: "'st deps \<Rightarrow> 'st world \<Rightarrow> pg_uuid \<Rightarrow> 'st world" where
  "compensate dp w i = (case DeleteMachine (dp_db dp) (w_db w) i of Inl e \<Rightarrow> w | Inr d \<Rightarrow> w\<lparr>w_db := d\<rparr>)"

definition create_name :: "'st deps \<Rightarrow> 'st world \<Rightarrow> pg_uuid \<Rightarrow> create_options \<Rightarrow> string res" where
  "create_name dp w user_id opts =
     (if o_Name opts \<noteq> [] then Inr (o_Name opts)
      else case ListMachinesByUserID (dp_db dp) (w_db w) user_id of
        Inl e \<Rightarrow> Inl (Errorf ''list machines: '' e [])
      | Inr existing \<Rightarrow> Inr (nextMachineName existing))"

definition Create ::
  "'st deps \<Rightarrow> 'st world \<Rightarrow> pg_uuid \<Rightarrow> create_options \<Rightarrow> 'st world \<times> machine res" where
  "Create dp w user_id opts =
     (case CountMachinesByUserID (dp_db dp) (w_db w) user_id of
        Inl e \<Rightarrow> (w, Inl (Errorf ''count machines: '' e []))
      | Inr cnt \<Rightarrow>
        if cnt \<ge> MaxPerUser (dp_spec dp) then (w, Inl (Sentinel ErrMachineLimit))
        else case create_name dp w user_id opts of
          Inl e \<Rightarrow> (w, Inl e)
        | Inr name \<Rightarrow>
          (case resolveCreate (dp_spec dp) opts of
             Inl e \<Rightarrow> (w, Inl e)
           | Inr (rootfsRef, kernelRef, r, templateID) \<Rightarrow>
             (case chooseHost (dp_db dp) (w_db w) (dp_Capacity dp) r of
                (queried, hres) \<Rightarrow>
                  let w1 = w\<lparr>w_calls := w_calls w @ map CallCapacity queried\<rparr>
                  in case hres of
                    Inl e \<Rightarrow> (w1, Inl e)
                  | Inr host \<Rightarrow>
                    (case CreateMachine (dp_db dp) (dp_machine_id dp) (w_db w1)
                       \<lparr>cm_UserID = user_id, cm_HostID = h_ID host, cm_Name = name,
                        cm_KernelRef = kernelRef, cm_RootfsRef = rootfsRef,
                        cm_ResourceSpec = spec_json r, cm_TemplateID = templateID\<rparr> of
                       Inl e \<Rightarrow> (w1, Inl (Errorf ''create machine: '' e []))
                     | Inr (d2, m) \<Rightarrow>
                       (case Create_setup dp (w1\<lparr>w_db := d2\<rparr>) m user_id r of
                          (w3, Inl (held, e)) \<Rightarrow> (compensate dp w3 held, Inl e)
                        | (w3, Inr m3) \<Rightarrow> ensureOnAgent dp w3 m3 kernelRef rootfsRef)))))"

section \<open>Start and Stop\<close>

definition Start :: "'st deps \<Rightarrow> 'st world \<Rightarrow> pg_uuid \<Rightarrow> pg_uuid \<Rightarrow> 'st world \<times> machine res" where
  "Start dp w user_id machine_id =
     (case getOwned dp w user_id machine_id of
        Inl e \<Rightarrow> (w, Inl e)
      | Inr m \<Rightarrow>
        if m_State m \<noteq> StateStopped \<and> m_State m \<noteq> StateError
        then (w, Inl (Sentinel ErrInvalidState))
        else case svc_transition dp w (m_ID m) (m_State m) StateStarting
               (ActorUser (UUIDString user_id)) EventTransition None None of
          (w1, Inl e) \<Rightarrow> (w1, Inl (mapTransitionErr e))
        | (w1, Inr (m1, _)) \<Rightarrow> ensureOnAgent dp w1 m1 (m_KernelRef m1) (m_RootfsRef m1))"

definition Stop :: "'st deps \<Rightarrow> 'st world \<Rightarrow> pg_uuid \<Rightarrow> pg_uuid \<Rightarrow> 'st world \<times> machine res" where
  "Stop dp w user_id machine_id =
     (case getOwned dp w user_id machine_id of
        Inl e \<Rightarrow> (w, Inl e)
      | Inr m \<Rightarrow>
        if m_State m \<noteq> StateRunning then (w, Inl (Sentinel ErrInvalidState))
        else case svc_transition dp w (m_ID m) StateRunning StateHibernating
               (ActorUser (UUIDString user_id)) EventTransition None None of
          (w1, Inl e) \<Rightarrow> (w1, Inl (mapTransitionErr e))
        | (w1, Inr (m1, _)) \<Rightarrow>
          (let w2 = call w1 (CallStop (UUIDString (m_ID m1)) StopModeHibernate)
           in case dp_Stop dp (UUIDString (m_ID m1)) StopModeHibernate of
                Inl e \<Rightarrow> svc_fail dp w2 (m_ID m1) StateHibernating (''node-agent stop failed: '' @ Error e)
              | Inr _ \<Rightarrow> (w2, Inr m1)))"

section \<open>Session export\<close>

text \<open>\<open>[^A-Za-z0-9._-]+\<close> collapses to one underscore; \<open>runs\<close> says a run is being collapsed.\<close>

definition safe_filename_char :: "char \<Rightarrow> bool" where
  "safe_filename_char c = (is_alnum c \<or> c = CHR ''.'' \<or> c = CHR ''_'' \<or> c = CHR ''-'')"

fun collapse_unsafe :: "bool \<Rightarrow> string \<Rightarrow> string" where
  "collapse_unsafe runs [] = []"
| "collapse_unsafe runs (c # cs) =
     (if safe_filename_char c then c # collapse_unsafe False cs
      else if runs then collapse_unsafe True cs else CHR ''_'' # collapse_unsafe True cs)"

definition sanitizeFilenamePart :: "string \<Rightarrow> string" where
  "sanitizeFilenamePart s = (let t = collapse_unsafe False s in if t = [] then ''machine'' else t)"

definition formatTimestamp :: "'st deps \<Rightarrow> nat option \<Rightarrow> string" where
  "formatTimestamp dp t = (case t of None \<Rightarrow> [] | Some n \<Rightarrow> dp_RFC3339 dp n)"

definition export_record :: "'st deps \<Rightarrow> machine \<Rightarrow> agent_task \<Rightarrow> session_export_record" where
  "export_record dp m t =
     \<lparr>se_ID = UUIDString (at_ID t), se_MachineID = UUIDString (at_MachineID t),
      se_MachineName = m_Name m, se_Status = at_Status t, se_Provider = at_Provider t,
      se_Project = at_Project t, se_Prompt = at_Prompt t, se_AgentSessionID = at_AgentSessionID t,
      se_Usage = (if at_Usage t \<noteq> [] \<and> at_Usage t \<noteq> ''{}'' then Some (at_Usage t) else None),
      se_ResultSummary = at_ResultSummary t, se_Error = at_Error t,
      se_CreatedAt = formatTimestamp dp (Some (at_CreatedAt t)),
      se_StartedAt = formatTimestamp dp (at_StartedAt t),
      se_EndedAt = formatTimestamp dp (at_EndedAt t)\<rparr>"

definition export_path :: "'st deps \<Rightarrow> string \<Rightarrow> machine \<Rightarrow> agent_task \<Rightarrow> string" where
  "export_path dp dir m t = dp_Join dp dir (sanitizeFilenamePart (m_Name m) @ ''_'' @ UUIDString (at_ID t) @ ''.json'')"

fun export_loop ::
  "'st deps \<Rightarrow> string \<Rightarrow> machine \<Rightarrow> agent_task list \<Rightarrow> 'st world \<times> session_export_result
     \<Rightarrow> 'st world \<times> session_export_result" where
  "export_loop dp dir m [] (w, res) = (w, res)"
| "export_loop dp dir m (t # ts) (w, res) = export_loop dp dir m ts
     (case dp_MarshalIndent dp (export_record dp m t) of
        Inl e \<Rightarrow> (w, res\<lparr>x_Failed := x_Failed res @ [UUIDString (at_ID t) @ '': '' @ Error e]\<rparr>)
      | Inr data \<Rightarrow>
        (case dp_WriteFile dp (export_path dp dir m t) data of
           Inl e \<Rightarrow> (w, res\<lparr>x_Failed := x_Failed res @ [UUIDString (at_ID t) @ '': '' @ Error e]\<rparr>)
         | Inr _ \<Rightarrow> (w\<lparr>w_files := w_files w @ [(export_path dp dir m t, data)]\<rparr>,
                     res\<lparr>x_Exported := x_Exported res + 1\<rparr>)))"

definition export_ok :: "session_export_result \<Rightarrow> bool" where
  "export_ok res = (x_Failed res = [])"

fun join_semi :: "string list \<Rightarrow> string" where
  "join_semi [] = []"
| "join_semi [x] = x"
| "join_semi (x # xs) = x @ ''; '' @ join_semi xs"

definition export_summary :: "session_export_result \<Rightarrow> string" where
  "export_summary res =
     (if export_ok res
      then nat_str (x_Exported res) @ ''/'' @ nat_str (x_Total res) @ '' sessions exported''
      else nat_str (length (x_Failed res)) @ ''/'' @ nat_str (x_Total res)
           @ '' sessions failed to export: '' @ join_semi (x_Failed res))"

definition defaultSessionExportDir :: string where
  "defaultSessionExportDir = ''./exports/sessions/''"

definition exportSessions ::
  "'st deps \<Rightarrow> 'st world \<Rightarrow> machine \<Rightarrow> 'st world \<times> session_export_result res" where
  "exportSessions dp w m =
     (case ListAgentTasksByMachine (dp_db dp) (w_db w) (m_ID m) of
        Inl e \<Rightarrow> (w, Inl (Errorf ''list sessions: '' e []))
      | Inr rows \<Rightarrow>
        (let res = \<lparr>x_Total = length rows, x_Exported = 0, x_Failed = []\<rparr>;
             dir = (if s_SessionExportDir (dp_spec dp) = [] then defaultSessionExportDir
                    else s_SessionExportDir (dp_spec dp))
         in if rows = [] then (w, Inr res)
            else case dp_MkdirAll dp dir of
              Inl e \<Rightarrow> (w, Inl (Errorf (''create export dir '' @ go_quote dir @ '': '') e []))
            | Inr _ \<Rightarrow> (case export_loop dp dir m rows (w, res) of (w', res') \<Rightarrow> (w', Inr res'))))"

section \<open>Destroy\<close>

text \<open>\<open>Some e\<close> when the outcome of the export blocks the destroy.\<close>

definition export_blocks :: "bool \<Rightarrow> session_export_result res \<Rightarrow> error option" where
  "export_blocks force r = (case r of
       Inl e \<Rightarrow> if force then None else Some (Errorf [] (Sentinel ErrSessionExportFailed) ('': '' @ Error e))
     | Inr res \<Rightarrow> if \<not> export_ok res \<and> \<not> force
                  then Some (Errorf [] (Sentinel ErrSessionExportFailed) ('': '' @ export_summary res)) else None)"

text \<open>The tail after the agent has torn the machine down: key, row, notification.\<close>

definition Destroy_finish :: "'st deps \<Rightarrow> 'st world \<Rightarrow> machine \<Rightarrow> 'st world \<times> unit res" where
  "Destroy_finish dp w m =
     (let st = fst (Delete (dp_secrets dp) (w_secrets w) (MachineVolumeKeyPath (UUIDString (m_ID m))));
          w1 = w\<lparr>w_secrets := st\<rparr>
      in case DeleteMachine (dp_db dp) (w_db w1) (m_ID m) of
           Inl e \<Rightarrow> (w1, Inl (Errorf ''delete machine: '' e []))
         | Inr d \<Rightarrow>
           (publish (w1\<lparr>w_db := d\<rparr>)
              \<lparr>u_Machine = Some m, u_Event = None, u_Deleted = True, u_Shutdown = False\<rparr>, Inr ()))"

definition Destroy :: "'st deps \<Rightarrow> 'st world \<Rightarrow> pg_uuid \<Rightarrow> pg_uuid \<Rightarrow> bool \<Rightarrow> 'st world \<times> unit res" where
  "Destroy dp w user_id machine_id force =
     (case getOwned dp w user_id machine_id of
        Inl e \<Rightarrow> (w, Inl e)
      | Inr m \<Rightarrow>
        (case exportSessions dp w m of (w1, xr) \<Rightarrow>
          (case export_blocks force xr of
             Some e \<Rightarrow> (w1, Inl e)
           | None \<Rightarrow>
             (let w2 = call w1 (CallDestroy (UUIDString (m_ID m)))
              in case dp_Destroy dp (UUIDString (m_ID m)) of
                   Inl e \<Rightarrow>
                     if errors_Is e ErrUnknownMachine then Destroy_finish dp w2 m
                     else (w2, Inl (Errorf ''node-agent destroy failed: '' e []))
                 | Inr _ \<Rightarrow> Destroy_finish dp w2 m))))"

record destroy_result =
  dr_MachineID :: pg_uuid
  dr_Name :: string
  dr_Err :: "error option"

text \<open>\<open>dps k\<close> is what the \<open>k\<close>-th call of the batch meets.\<close>

fun DestroyAll_loop ::
  "(nat \<Rightarrow> 'st deps) \<Rightarrow> pg_uuid \<Rightarrow> bool \<Rightarrow> nat \<Rightarrow> machine list \<Rightarrow> 'st world \<Rightarrow> 'st world \<times> destroy_result list" where
  "DestroyAll_loop dps u force k [] w = (w, [])"
| "DestroyAll_loop dps u force k (m # ms) w =
     (case Destroy (dps k) w u (m_ID m) force of (w1, r) \<Rightarrow>
       (case DestroyAll_loop dps u force (k + 1) ms w1 of (w2, rs) \<Rightarrow>
         (w2, \<lparr>dr_MachineID = m_ID m, dr_Name = m_Name m,
               dr_Err = (case r of Inl e \<Rightarrow> Some e | Inr _ \<Rightarrow> None)\<rparr> # rs)))"

definition DestroyAll ::
  "(nat \<Rightarrow> 'st deps) \<Rightarrow> 'st world \<Rightarrow> pg_uuid \<Rightarrow> bool \<Rightarrow> 'st world \<times> destroy_result list res" where
  "DestroyAll dps w user_id force =
     (case ListMachinesByUserID (dp_db (dps 0)) (w_db w) user_id of
        Inl e \<Rightarrow> (w, Inl e)
      | Inr ms \<Rightarrow> (case DestroyAll_loop dps user_id force 0 ms w of (w', rs) \<Rightarrow> (w', Inr rs)))"

section \<open>CreateUpToLimit and Rename\<close>

text \<open>The loop: \<open>n\<close> machines still to create; it stops early at the limit error.\<close>

fun CreateUpToLimit_loop ::
  "(nat \<Rightarrow> 'st deps) \<Rightarrow> pg_uuid \<Rightarrow> nat \<Rightarrow> nat \<Rightarrow> 'st world \<Rightarrow> 'st world \<times> machine res list" where
  "CreateUpToLimit_loop dps u k 0 w = (w, [])"
| "CreateUpToLimit_loop dps u k (Suc n) w =
     (case Create (dps k) w u no_options of (w1, r) \<Rightarrow>
       (case r of
          Inl e \<Rightarrow>
            if errors_Is e ErrMachineLimit then (w1, [r])
            else (case CreateUpToLimit_loop dps u (k + 1) n w1 of (w2, rs) \<Rightarrow> (w2, r # rs))
        | Inr _ \<Rightarrow> (case CreateUpToLimit_loop dps u (k + 1) n w1 of (w2, rs) \<Rightarrow> (w2, r # rs))))"

definition CreateUpToLimit ::
  "(nat \<Rightarrow> 'st deps) \<Rightarrow> 'st world \<Rightarrow> pg_uuid \<Rightarrow> 'st world \<times> machine res list res" where
  "CreateUpToLimit dps w user_id =
     (case CountMachinesByUserID (dp_db (dps 0)) (w_db w) user_id of
        Inl e \<Rightarrow> (w, Inl (Errorf ''count machines: '' e []))
      | Inr cnt \<Rightarrow>
        (let toCreate = MaxPerUser (dp_spec (dps 0)) - cnt
         in if toCreate \<le> 0 then (w, Inr [])
            else case CreateUpToLimit_loop dps user_id 0 (nat toCreate) w of (w', rs) \<Rightarrow> (w', Inr rs)))"

definition Rename ::
  "'st deps \<Rightarrow> 'st world \<Rightarrow> pg_uuid \<Rightarrow> pg_uuid \<Rightarrow> string \<Rightarrow> 'st world \<times> machine res" where
  "Rename dp w user_id machine_id name =
     (case getOwned dp w user_id machine_id of
        Inl e \<Rightarrow> (w, Inl e)
      | Inr _ \<Rightarrow>
        (case RenameMachine (dp_db dp) (w_db w) machine_id name of
           Inl e \<Rightarrow> (w, Inl (Errorf ''rename machine: '' e []))
         | Inr (d1, m) \<Rightarrow>
           (case InsertMachineEvent (dp_db dp) d1 machine_id EventInfo None None
              (ActorUser (UUIDString user_id)) [(''name'', JStr name)] of
              Inl e \<Rightarrow> (w\<lparr>w_db := d1\<rparr>, Inr m)
            | Inr (d2, ev) \<Rightarrow>
              (publish (w\<lparr>w_db := d2\<rparr>)
                 \<lparr>u_Machine = Some m, u_Event = Some ev, u_Deleted = False, u_Shutdown = False\<rparr>,
               Inr m))))"

section \<open>Network policy operations\<close>

definition NetworkPolicyFor ::
  "'st deps \<Rightarrow> 'st world \<Rightarrow> pg_uuid \<Rightarrow> pg_uuid \<Rightarrow> network_policy res" where
  "NetworkPolicyFor dp w user_id machine_id =
     (case getOwned dp w user_id machine_id of
        Inl e \<Rightarrow> Inl e
      | Inr _ \<Rightarrow> getNetworkPolicy (dp_db dp) (w_db w) machine_id)"

definition SetNetworkPolicy ::
  "'st deps \<Rightarrow> 'st world \<Rightarrow> pg_uuid \<Rightarrow> pg_uuid \<Rightarrow> string \<Rightarrow> string list \<Rightarrow> 'st world \<times> network_policy res" where
  "SetNetworkPolicy dp w user_id machine_id mode domains =
     (case getOwned dp w user_id machine_id of
        Inl e \<Rightarrow> (w, Inl e)
      | Inr _ \<Rightarrow>
        (case ValidateNetworkPolicy mode domains of
           Some e \<Rightarrow> (w, Inl e)
         | None \<Rightarrow>
           (case UpsertNetworkPolicy (dp_db dp) (w_db w) machine_id mode domains of
              Inl e \<Rightarrow> (w, Inl (Errorf ''upsert network policy: '' e []))
            | Inr (d, row) \<Rightarrow> (w\<lparr>w_db := d\<rparr>, Inr (toNetworkPolicy row)))))"

definition Service_DeleteNetworkPolicy ::
  "'st deps \<Rightarrow> 'st world \<Rightarrow> pg_uuid \<Rightarrow> pg_uuid \<Rightarrow> 'st world \<times> unit res" where
  "Service_DeleteNetworkPolicy dp w user_id machine_id =
     (case getOwned dp w user_id machine_id of
        Inl e \<Rightarrow> (w, Inl e)
      | Inr _ \<Rightarrow>
        (case DeleteNetworkPolicy (dp_db dp) (w_db w) machine_id of
           Inl e \<Rightarrow> (w, Inl (Errorf ''delete network policy: '' e []))
         | Inr d \<Rightarrow> (w\<lparr>w_db := d\<rparr>, Inr ())))"

end
