(* ===== verification/Machine_Poller.thy ===== *)
theory Machine_Poller
  imports Machine_Service
begin

text \<open>
  The poller (\<open>machine/poller.go\<close>): the only actor that moves machines out of transitional
  states. \<open>poller\<close> holds the two failure counters and the notifications the post-running
  hook received; \<open>poller_deps\<close> what one pass meets: the service's dependencies, the
  node-agent's answers, \<open>netip.ParseAddr\<close> and the two optional hooks. A counter is a partial
  map from a machine's canonical id, as in the code; an absent entry reads as zero.
\<close>

section \<open>Limits\<close>

definition BlipThreshold :: int where "BlipThreshold = 3"
definition MaxStartRetries :: int where "MaxStartRetries = 3"

section \<open>State\<close>

type_synonym counter = "string \<rightharpoonup> int"

record poller =
  blipCount :: counter
  startRetryCount :: counter
  notified :: "(string \<times> string) list"

record 'st poller_deps =
  pd_svc :: "'st deps"
  pd_Status :: "string \<Rightarrow> machine_status res"
  pd_List :: "machine_status list res"
  pd_ParseAddr :: "string \<Rightarrow> string option"
  pd_onRunning :: bool
  pd_retryEnsure :: "('st world \<Rightarrow> machine \<Rightarrow> 'st world \<times> unit res) option"

definition NewPoller :: poller where
  "NewPoller = \<lparr>blipCount = Map.empty, startRetryCount = Map.empty, notified = []\<rparr>"

definition counter_at :: "counter \<Rightarrow> string \<Rightarrow> int" where
  "counter_at c i = (case c i of None \<Rightarrow> 0 | Some n \<Rightarrow> n)"

definition blipIncr :: "poller \<Rightarrow> string \<Rightarrow> poller \<times> int" where
  "blipIncr p i = (let n = counter_at (blipCount p) i + 1
     in (p\<lparr>blipCount := (blipCount p)(i \<mapsto> n)\<rparr>, n))"

definition blipReset :: "poller \<Rightarrow> string \<Rightarrow> poller" where
  "blipReset p i = p\<lparr>blipCount := (blipCount p)(i := None)\<rparr>"

definition startRetryIncr :: "poller \<Rightarrow> string \<Rightarrow> poller \<times> int" where
  "startRetryIncr p i = (let n = counter_at (startRetryCount p) i + 1
     in (p\<lparr>startRetryCount := (startRetryCount p)(i \<mapsto> n)\<rparr>, n))"

definition startRetryReset :: "poller \<Rightarrow> string \<Rightarrow> poller" where
  "startRetryReset p i = p\<lparr>startRetryCount := (startRetryCount p)(i := None)\<rparr>"

section \<open>Payloads\<close>

definition agentReason :: "machine_status \<Rightarrow> string \<Rightarrow> string" where
  "agentReason st fallback = (if st_Reason st \<noteq> [] then st_Reason st else fallback)"

definition bootPayload :: "machine_status \<Rightarrow> json_object option" where
  "bootPayload st = (if st_Boot st = [] then None else Some [(''boot'', JStr (st_Boot st))])"

text \<open>\<open>json.Marshal\<close> writes the members of a map in the order of their keys.\<close>

definition snapshotPayload :: "machine_status \<Rightarrow> json_object option" where
  "snapshotPayload st =
     (let sn = st_Snapshot st
      in Some ((if si_Present sn
                then [(''fc_version'', JStr (si_FCVersion sn)), (''mem_bytes'', JInt (si_MemBytes sn))]
                else []) @ [(''snapshot_present'', JBool (si_Present sn))]))"

section \<open>Transitions\<close>

definition p_transition ::
  "'st poller_deps \<Rightarrow> 'st world \<Rightarrow> machine \<Rightarrow> state \<Rightarrow> state \<Rightarrow> string \<Rightarrow> string \<Rightarrow> json_object option
     \<Rightarrow> string option \<Rightarrow> 'st world" where
  "p_transition pd w m from_state to_state actor eventType payload lastErr =
     (case Transition (dp_db (pd_svc pd)) (w_db w)
        \<lparr>tp_MachineID = m_ID m, tp_From = from_state, tp_To = to_state, tp_Actor = actor,
         tp_EventType = eventType, tp_Payload = payload, tp_LastError = lastErr\<rparr> of
        (d, Inl e) \<Rightarrow> w\<lparr>w_db := d\<rparr>
      | (d, Inr (updated, ev)) \<Rightarrow>
        publish (w\<lparr>w_db := d\<rparr>)
          \<lparr>u_Machine = Some updated, u_Event = Some ev, u_Deleted = False, u_Shutdown = False\<rparr>)"

definition toError ::
  "'st poller_deps \<Rightarrow> 'st world \<Rightarrow> machine \<Rightarrow> state \<Rightarrow> string \<Rightarrow> 'st world" where
  "toError pd w m from_state reason =
     p_transition pd w m from_state StateError ActorPoller EventError
       (Some [(''reason'', JStr reason)]) (Some reason)"

text \<open>A failing bookkeeping statement is logged and skipped: the database stays as it was.\<close>

definition or_skip :: "'st world \<Rightarrow> (db \<times> 'r) res \<Rightarrow> 'st world" where
  "or_skip w r = (case r of Inl e \<Rightarrow> w | Inr (d, _) \<Rightarrow> w\<lparr>w_db := d\<rparr>)"

definition clear_snapshot :: "'st poller_deps \<Rightarrow> 'st world \<Rightarrow> pg_uuid \<Rightarrow> 'st world" where
  "clear_snapshot pd w i =
     (case DeleteSnapshot (dp_db (pd_svc pd)) (w_db w) i of Inl e \<Rightarrow> w | Inr d \<Rightarrow> w\<lparr>w_db := d\<rparr>)"

definition toStopped ::
  "'st poller_deps \<Rightarrow> 'st world \<Rightarrow> machine \<Rightarrow> state \<Rightarrow> machine_status \<Rightarrow> 'st world" where
  "toStopped pd w m from_state st =
     (let w1 = (if si_Present (st_Snapshot st)
                then or_skip w (UpsertSnapshot (dp_db (pd_svc pd)) (w_db w) (m_ID m)
                       (si_FCVersion (st_Snapshot st)) (si_MemBytes (st_Snapshot st))
                       (m_KernelRef m) (m_RootfsRef m))
                else clear_snapshot pd w (m_ID m))
      in p_transition pd w1 m from_state StateStopped ActorPoller EventTransition (snapshotPayload st) None)"

definition toRunning ::
  "'st poller_deps \<Rightarrow> 'st world \<Rightarrow> poller \<Rightarrow> machine \<Rightarrow> state \<Rightarrow> machine_status
     \<Rightarrow> 'st world \<times> poller" where
  "toRunning pd w p m from_state st =
     (let c = dp_db (pd_svc pd);
          guestIp = (if st_GuestIP st \<noteq> [] then pd_ParseAddr pd (st_GuestIP st) else None);
          w1 = or_skip w (SetMachineRuntime c (w_db w) (m_ID m) (Some (st_Handle st)) guestIp);
          w2 = (if st_Boot st \<noteq> []
                then or_skip w1 (SetMachineBoot c (w_db w1) (m_ID m) (Some (st_Boot st))) else w1);
          w3 = clear_snapshot pd w2 (m_ID m);
          w4 = p_transition pd w3 m from_state StateRunning ActorPoller EventTransition (bootPayload st) None
      in (w4, if pd_onRunning pd
              then p\<lparr>notified := notified p @ [(UUIDString (m_UserID m), UUIDString (m_ID m))]\<rparr>
              else p))"

section \<open>Retries\<close>

definition retryStart ::
  "'st poller_deps \<Rightarrow> 'st world \<Rightarrow> poller \<Rightarrow> machine \<Rightarrow> state \<Rightarrow> error \<Rightarrow> 'st world \<times> poller" where
  "retryStart pd w p m from_state pollErr =
     (let i = UUIDString (m_ID m);
          (p1, attempt) = startRetryIncr p i
      in if attempt \<ge> MaxStartRetries
         then (toError pd w m from_state (''machine did not become reachable after ''
                 @ itoa MaxStartRetries @ '' start attempts: '' @ Error pollErr),
               startRetryReset p1 i)
         else case pd_retryEnsure pd of
           None \<Rightarrow> (w, p1)
         | Some retry \<Rightarrow> (fst (retry w m), p1))"

section \<open>One transitional machine\<close>

definition advanceOne ::
  "'st poller_deps \<Rightarrow> 'st world \<times> poller \<Rightarrow> machine \<Rightarrow> 'st world \<times> poller" where
  "advanceOne pd wp m =
     (let (w0, p) = wp; i = UUIDString (m_ID m); from_state = m_State m;
          w = call w0 (CallStatus i)
      in case pd_Status pd i of
           Inl e \<Rightarrow>
             if errors_Is e ErrUnknownMachine then
               (if from_state = StateStopping \<or> from_state = StateHibernating
                then (p_transition pd w m from_state StateStopped ActorPoller EventTransition None None, p)
                else (toError pd w m from_state ''node-agent no longer tracks this machine'', p))
             else if from_state = StateProvisioning \<or> from_state = StateStarting
             then retryStart pd w p m from_state e
             else (toError pd w m from_state (''node-agent unreachable: '' @ Error e), p)
         | Inr st \<Rightarrow>
           (let p1 = startRetryReset p i
            in if from_state = StateProvisioning \<or> from_state = StateStarting then
                 (if st_State st = AgentRunning then toRunning pd w p1 m from_state st
                  else if st_State st = AgentError
                  then (toError pd w m from_state (agentReason st ''boot failed''), p1)
                  else if st_State st = AgentCreating then (w, p1)
                  else (toError pd w m from_state (''unexpected agent state during boot: '' @ st_State st), p1))
               else if from_state = StateStopping \<or> from_state = StateHibernating then
                 (if st_State st = AgentStopped then (toStopped pd w m from_state st, p1)
                  else if st_State st = AgentError
                  then (toError pd w m from_state (agentReason st ''stop failed''), p1)
                  else (w, p1))
               else (w, p1)))"

definition transitional_states :: "state list" where
  "transitional_states = [StateProvisioning, StateStarting, StateStopping, StateHibernating]"

definition AdvanceTransitional ::
  "'st poller_deps \<Rightarrow> 'st world \<times> poller \<Rightarrow> 'st world \<times> poller" where
  "AdvanceTransitional pd wp =
     (case ListMachinesInStates (dp_db (pd_svc pd)) (w_db (fst wp)) transitional_states of
        Inl e \<Rightarrow> wp
      | Inr machines \<Rightarrow> foldl (advanceOne pd) wp machines)"

section \<open>The running sweep\<close>

text \<open>One machine while the agent is unreachable.\<close>

definition sweep_unreachable ::
  "'st poller_deps \<Rightarrow> error \<Rightarrow> 'st world \<times> poller \<Rightarrow> machine \<Rightarrow> 'st world \<times> poller" where
  "sweep_unreachable pd e wp m =
     (let (w, p) = wp; i = UUIDString (m_ID m); (p1, n) = blipIncr p i
      in if n \<ge> BlipThreshold
         then (toError pd w m StateRunning (''node-agent unreachable during running sweep: '' @ Error e),
               blipReset p1 i)
         else (w, p1))"

text \<open>One machine against the agent's list; the map built from it keeps the last entry of an id.\<close>

definition sweep_reachable ::
  "'st poller_deps \<Rightarrow> (string \<rightharpoonup> machine_status) \<Rightarrow> 'st world \<times> poller \<Rightarrow> machine
     \<Rightarrow> 'st world \<times> poller" where
  "sweep_reachable pd byID wp m =
     (let (w, p) = wp; i = UUIDString (m_ID m)
      in case byID i of
           None \<Rightarrow> (toError pd w m StateRunning ''node-agent no longer tracks this machine during sweep'',
                    blipReset p i)
         | Some st \<Rightarrow>
           (if st_State st \<noteq> AgentRunning
            then toError pd w m StateRunning
                   (''vm no longer running (agent reports '' @ st_State st @ '')''
                    @ (if st_Reason st \<noteq> [] then '': '' @ st_Reason st else []))
            else w, blipReset p i))"

definition SweepRunning ::
  "'st poller_deps \<Rightarrow> 'st world \<times> poller \<Rightarrow> 'st world \<times> poller" where
  "SweepRunning pd wp =
     (case ListMachinesInStates (dp_db (pd_svc pd)) (w_db (fst wp)) [StateRunning] of
        Inl e \<Rightarrow> wp
      | Inr machines \<Rightarrow>
        if machines = [] then wp
        else let wp1 = (call (fst wp) CallList, snd wp)
             in case pd_List pd of
                  Inl e \<Rightarrow> foldl (sweep_unreachable pd e) wp1 machines
                | Inr statuses \<Rightarrow>
                  foldl (sweep_reachable pd
                    (foldl (\<lambda>bm st. bm(st_MachineID st \<mapsto> st)) Map.empty statuses)) wp1 machines)"

end
