(* ===== verification/Machine_Safety.thy ===== *)
theory Machine_Safety
  imports Machine_Poller
begin

text \<open>
  What every operation on a machine keeps. \<open>dmoves u i d d'\<close> says that a step from \<open>d\<close> to
  \<open>d'\<close> on behalf of machine \<open>i\<close> of user \<open>u\<close> keeps the database invariant and the ownership of
  \<open>i\<close> and leaves the rows of every other machine alone; \<open>moves\<close> adds the broker. Both are
  reflexive and transitive, so an operation inherits them from the statements it runs. The
  locale \<open>tenant_op\<close> is the contract of a user-facing operation on one machine: from it
  follow isolation between users and preservation of the invariant, for each operation.
\<close>

section \<open>Steps on behalf of one machine\<close>

definition frame :: "pg_uuid \<Rightarrow> db \<Rightarrow> db \<Rightarrow> bool" where
  "frame i d d' =
     (filter (\<lambda>r. m_ID r \<noteq> i) (t_machines d') = filter (\<lambda>r. m_ID r \<noteq> i) (t_machines d)
    \<and> filter (\<lambda>r. ev_MachineID r \<noteq> i) (t_events d') = filter (\<lambda>r. ev_MachineID r \<noteq> i) (t_events d)
    \<and> filter (\<lambda>r. d_MachineID r \<noteq> i) (t_disks d') = filter (\<lambda>r. d_MachineID r \<noteq> i) (t_disks d)
    \<and> filter (\<lambda>r. sn_MachineID r \<noteq> i) (t_snapshots d') = filter (\<lambda>r. sn_MachineID r \<noteq> i) (t_snapshots d)
    \<and> filter (\<lambda>r. np_MachineID r \<noteq> i) (t_policies d') = filter (\<lambda>r. np_MachineID r \<noteq> i) (t_policies d)
    \<and> filter (\<lambda>r. at_MachineID r \<noteq> i) (t_tasks d') = filter (\<lambda>r. at_MachineID r \<noteq> i) (t_tasks d)
    \<and> t_hosts d' = t_hosts d)"

definition owned_by :: "pg_uuid \<Rightarrow> pg_uuid \<Rightarrow> db \<Rightarrow> bool" where
  "owned_by u i d = (\<forall>m \<in> set (t_machines d). m_ID m = i \<longrightarrow> m_UserID m = u)"

definition dmoves :: "pg_uuid \<Rightarrow> pg_uuid \<Rightarrow> db \<Rightarrow> db \<Rightarrow> bool" where
  "dmoves u i d d' = (db_inv d \<and> owned_by u i d \<longrightarrow> db_inv d' \<and> owned_by u i d' \<and> frame i d d')"

lemma frame_refl [simp]: "frame i d d"
  by (simp add: frame_def)

lemma frame_trans: "frame i a b \<Longrightarrow> frame i b c \<Longrightarrow> frame i a c"
  by (simp add: frame_def)

lemma dmoves_refl [simp, intro]: "dmoves u i d d"
  by (simp add: dmoves_def)

lemma dmoves_trans [trans]: "dmoves u i a b \<Longrightarrow> dmoves u i b c \<Longrightarrow> dmoves u i a c"
  unfolding dmoves_def using frame_trans by blast

lemma owned_by_fresh: "i \<notin> m_ID ` set (t_machines d) \<Longrightarrow> owned_by u i d"
  by (auto simp: owned_by_def)

lemma dmovesI:
  assumes "db_inv d \<Longrightarrow> owned_by u i d \<Longrightarrow> db_inv d' \<and> owned_by u i d' \<and> frame i d d'"
  shows "dmoves u i d d'"
  using assms by (simp add: dmoves_def)

section \<open>The statements\<close>

lemma dmoves_row:
  assumes f: "same_lifecycle f"
  shows "dmoves u i d (d\<lparr>t_machines := tbl_update (\<lambda>r. m_ID r = i) f (t_machines d)\<rparr>)"
proof (rule dmovesI)
  assume inv: "db_inv d" and ow: "owned_by u i d"
  have "\<And>r. m_ID (f r) = m_ID r" "\<And>r. m_UserID (f r) = m_UserID r"
    using f by (simp_all add: same_lifecycle_def)
  then show "db_inv (d\<lparr>t_machines := tbl_update (\<lambda>r. m_ID r = i) f (t_machines d)\<rparr>)
    \<and> owned_by u i (d\<lparr>t_machines := tbl_update (\<lambda>r. m_ID r = i) f (t_machines d)\<rparr>)
    \<and> frame i d (d\<lparr>t_machines := tbl_update (\<lambda>r. m_ID r = i) f (t_machines d)\<rparr>)"
    using db_inv_row_update [OF inv f] ow
    by (auto simp: owned_by_def frame_def set_tbl_update filter_tbl_update)
qed

lemma dmoves_update_machine:
  assumes "update_machine d i g f = Inr (d', m')" "same_lifecycle f"
  shows "dmoves u i d d'"
  using update_machine_InrD [OF assms(1)] dmoves_row [OF assms(2)] by auto

lemma dmoves_SetMachineRuntime: "SetMachineRuntime c d i h g = Inr (d', m') \<Longrightarrow> dmoves u i d d'"
  unfolding SetMachineRuntime_def Let_def
  by (drule run_query_InrD) (auto elim!: dmoves_update_machine simp: same_lifecycle_def)

lemma dmoves_SetMachineBoot: "SetMachineBoot c d i b = Inr (d', m') \<Longrightarrow> dmoves u i d d'"
  unfolding SetMachineBoot_def
  by (drule run_query_InrD) (auto elim!: dmoves_update_machine simp: same_lifecycle_def)

lemma dmoves_SetMachineDisk: "SetMachineDisk c d i k = Inr (d', m') \<Longrightarrow> dmoves u i d d'"
  unfolding SetMachineDisk_def
  by (drule run_query_InrD) (auto elim!: dmoves_update_machine simp: same_lifecycle_def split: if_splits)

lemma dmoves_RenameMachine: "RenameMachine c d i n = Inr (d', m') \<Longrightarrow> dmoves u i d d'"
  unfolding RenameMachine_def
  by (drule run_query_InrD) (auto elim!: dmoves_update_machine simp: same_lifecycle_def)

lemma dmoves_Transition: "Transition c d p = (d', r) \<Longrightarrow> tp_MachineID p = i \<Longrightarrow> dmoves u i d d'"
proof (rule dmovesI)
  assume T: "Transition c d p = (d', r)" and i: "tp_MachineID p = i"
    and inv: "db_inv d" and ow: "owned_by u i d"
  have "owned_by u i d'"
  proof -
    have "(\<lambda>m. (m_ID m, m_UserID m)) ` set (t_machines d') = (\<lambda>m. (m_ID m, m_UserID m)) ` set (t_machines d)"
      using txn.T_owner [OF T] by (metis list.set_map)
    moreover have "owned_by u i e \<longleftrightarrow> (\<forall>x \<in> (\<lambda>m. (m_ID m, m_UserID m)) ` set (t_machines e). fst x = i \<longrightarrow> snd x = u)"
      for e by (auto simp: owned_by_def)
    ultimately show ?thesis using ow by metis
  qed
  then show "db_inv d' \<and> owned_by u i d' \<and> frame i d d'"
    using txn.T_inv [OF inv T] txn.T_frame [OF T] i by (simp add: frame_def)
qed

lemma state_log_fresh: "refs_ok d \<Longrightarrow> i \<notin> m_ID ` set (t_machines d) \<Longrightarrow> state_log d i = []"
  by (auto simp: state_log_def refs_ok_def filter_empty_conv)

lemma dmoves_CreateMachine:
  assumes C: "CreateMachine c i d p = Inr (d', m')" and v: "proper_uuid i"
  shows "dmoves (cm_UserID p) i d d' \<and> m_ID m' = i \<and> m_State m' = StateRequested
    \<and> m_UserID m' = cm_UserID p \<and> d' = d\<lparr>t_machines := t_machines d @ [m']\<rparr>
    \<and> i \<notin> m_ID ` set (t_machines d)"
proof -
  from C have fresh: "i \<notin> m_ID ` set (t_machines d)"
    and m': "m_ID m' = i" "m_UserID m' = cm_UserID p" "m_State m' = StateRequested"
    and d': "d' = d\<lparr>t_machines := t_machines d @ [m']\<rparr>"
    unfolding CreateMachine_def find_machine_None [symmetric]
    by (auto simp: Let_def split: if_splits dest!: run_query_InrD)
  have "dmoves (cm_UserID p) i d d'"
  proof (rule dmovesI)
    assume inv: "db_inv d" and ow: "owned_by (cm_UserID p) i d"
    have log: "state_log d' k = state_log d k" for k by (rule state_log_cong) (simp add: d')
    have "state_log d i = []" using inv fresh by (simp add: db_inv_def state_log_fresh)
    then have "audited d'" using inv m' by (auto simp: d' db_inv_def audited_def log [unfolded d'])
    moreover have "keys_ok d'" "refs_ok d'" "event_ids_ok d'"
      using inv m' v fresh
      by (auto simp: d' db_inv_def keys_ok_def refs_ok_def event_ids_ok_def)
    ultimately show "db_inv d' \<and> owned_by (cm_UserID p) i d' \<and> frame i d d'"
      using ow m' by (auto simp: d' db_inv_def owned_by_def frame_def)
  qed
  with m' d' fresh show ?thesis by simp
qed

lemma filter_same_key: "(\<And>r. r \<in> set rs \<Longrightarrow> k r \<noteq> i) \<Longrightarrow> filter (\<lambda>r. k r \<noteq> i) rs = rs"
  by (simp add: filter_id_conv)

lemma state_log_delete:
  "k \<noteq> i \<Longrightarrow> t_events d' = tbl_delete (\<lambda>r. ev_MachineID r = i) (t_events d) \<Longrightarrow> state_log d' k = state_log d k"
  by (simp add: state_log_def) (subst filter_tbl_delete, auto)

lemma sorted_event_ids_delete:
  "sorted_wrt (<) (map ev_ID es) \<Longrightarrow> sorted_wrt (<) (map ev_ID (tbl_delete p es))"
  by (induction es) auto

lemma tbl_delete_foreign: "k ` set rs \<subseteq> S \<Longrightarrow> i \<notin> S \<Longrightarrow> tbl_delete (\<lambda>r. k r = i) rs = rs"
  by (intro tbl_delete_id) auto

lemma db_inv_delete:
  assumes inv: "db_inv d"
    and d': "d' = d\<lparr>t_machines := tbl_delete (\<lambda>r. m_ID r = i) (t_machines d),
             t_events := tbl_delete (\<lambda>r. ev_MachineID r = i) (t_events d),
             t_disks := tbl_delete (\<lambda>r. d_MachineID r = i) (t_disks d),
             t_snapshots := tbl_delete (\<lambda>r. sn_MachineID r = i) (t_snapshots d),
             t_policies := tbl_delete (\<lambda>r. np_MachineID r = i) (t_policies d),
             t_tasks := tbl_delete (\<lambda>r. at_MachineID r = i) (t_tasks d)\<rparr>"
  shows "db_inv d'"
proof -
  have "state_log d' k = state_log d k" if "k \<noteq> i" for k
    using that by (rule state_log_delete) (simp add: d')
  then have "audited d'" using inv by (auto simp: d' db_inv_def audited_def)
  moreover have "keys_ok d'"
    using inv by (auto simp: d' db_inv_def keys_ok_def intro: distinct_map_tbl_delete)
  moreover have "refs_ok d'" using inv by (auto simp: d' db_inv_def refs_ok_def)
  moreover have "event_ids_ok d'"
  proof -
    have "sorted_wrt (<) (map ev_ID (t_events d))" using inv by (simp add: db_inv_def event_ids_ok_def)
    from sorted_event_ids_delete [OF this] show ?thesis using inv by (simp add: d' db_inv_def event_ids_ok_def)
  qed
  ultimately show ?thesis by (simp add: db_inv_def)
qed

lemma DeleteMachine_InrD:
  "DeleteMachine c d i = Inr d' \<Longrightarrow>
   d' = d\<lparr>t_machines := tbl_delete (\<lambda>r. m_ID r = i) (t_machines d),
             t_events := tbl_delete (\<lambda>r. ev_MachineID r = i) (t_events d),
             t_disks := tbl_delete (\<lambda>r. d_MachineID r = i) (t_disks d),
             t_snapshots := tbl_delete (\<lambda>r. sn_MachineID r = i) (t_snapshots d),
             t_policies := tbl_delete (\<lambda>r. np_MachineID r = i) (t_policies d),
             t_tasks := tbl_delete (\<lambda>r. at_MachineID r = i) (t_tasks d)\<rparr>"
  unfolding DeleteMachine_def by (drule run_query_InrD) simp

lemma dmoves_DeleteMachine:
  assumes "DeleteMachine c d i = Inr d'"
  shows "dmoves u i d d'"
proof (rule dmovesI)
  assume inv: "db_inv d" and "owned_by u i d"
  note d' = DeleteMachine_InrD [OF assms]
  have "db_inv d'" by (rule db_inv_delete [OF inv d'])
  then show "db_inv d' \<and> owned_by u i d' \<and> frame i d d'"
    by (auto simp: d' owned_by_def frame_def tbl_delete_def)
qed

text \<open>Deleting the machine of a null id deletes nothing.\<close>

lemma DeleteMachine_absent:
  assumes "DeleteMachine c d i = Inr d'" "db_inv d" "i \<notin> m_ID ` set (t_machines d)"
  shows "d' = d"
  using assms(2) DeleteMachine_InrD [OF assms(1)]
  by (simp add: db_inv_def refs_ok_def tbl_delete_foreign [OF _ assms(3)])

text \<open>Statements that touch one of the side tables only.\<close>

lemma db_inv_side:
  assumes inv: "db_inv d" and same: "t_machines d' = t_machines d" "t_events d' = t_events d"
    "t_event_seq d' = t_event_seq d" "t_tasks d' = t_tasks d"
    and keys: "distinct (map sn_MachineID (t_snapshots d'))" "distinct (map d_MachineID (t_disks d'))"
      "distinct (map np_MachineID (t_policies d'))"
    and refs: "d_MachineID ` set (t_disks d') \<subseteq> m_ID ` set (t_machines d)"
      "sn_MachineID ` set (t_snapshots d') \<subseteq> m_ID ` set (t_machines d)"
      "np_MachineID ` set (t_policies d') \<subseteq> m_ID ` set (t_machines d)"
  shows "db_inv d'"
proof -
  have "state_log d' i = state_log d i" for i by (rule state_log_cong) (simp add: same)
  with assms show ?thesis by (simp add: db_inv_defs)
qed

lemma dmoves_CreateDisk:
  assumes "CreateDisk c di d i sz = Inr (d', k)"
  shows "dmoves u i d d' \<and> t_machines d' = t_machines d \<and> d_ID k = di \<and> d_MachineID k = i
    \<and> t_disks d' = t_disks d @ [k]"
proof -
  from assms have m: "i \<in> m_ID ` set (t_machines d)" and fresh: "i \<notin> d_MachineID ` set (t_disks d)"
    and k: "d_MachineID k = i" "d_ID k = di" and d': "d' = d\<lparr>t_disks := t_disks d @ [k]\<rparr>"
    unfolding CreateDisk_def find_machine_None
    by (auto simp: Let_def split: if_splits dest!: run_query_InrD)
  have "dmoves u i d d'"
  proof (rule dmovesI)
    assume inv: "db_inv d" and ow: "owned_by u i d"
    have "db_inv d'" by (rule db_inv_side [OF inv]) (use inv m fresh k in \<open>auto simp: d' db_inv_defs\<close>)
    with ow k show "db_inv d' \<and> owned_by u i d' \<and> frame i d d'"
      by (simp add: d' owned_by_def frame_def)
  qed
  with k d' show ?thesis by simp
qed

lemma upsert_map:
  assumes "k s = i" and "distinct (map k rs)"
  shows "distinct (map k (if i \<in> k ` set rs then tbl_update (\<lambda>r. k r = i) (\<lambda>_. s) rs else rs @ [s]))"
    and "k ` set (if i \<in> k ` set rs then tbl_update (\<lambda>r. k r = i) (\<lambda>_. s) rs else rs @ [s]) = insert i (k ` set rs)"
    and "filter (\<lambda>r. k r \<noteq> i) (if i \<in> k ` set rs then tbl_update (\<lambda>r. k r = i) (\<lambda>_. s) rs else rs @ [s])
       = filter (\<lambda>r. k r \<noteq> i) rs"
proof -
  have keys: "map k (tbl_update (\<lambda>r. k r = i) (\<lambda>_. s) rs) = map k rs"
    using assms(1) by (induction rs) auto
  then have "k ` set (tbl_update (\<lambda>r. k r = i) (\<lambda>_. s) rs) = k ` set rs" by (metis list.set_map)
  with keys assms show "distinct (map k (if i \<in> k ` set rs then tbl_update (\<lambda>r. k r = i) (\<lambda>_. s) rs else rs @ [s]))"
    "k ` set (if i \<in> k ` set rs then tbl_update (\<lambda>r. k r = i) (\<lambda>_. s) rs else rs @ [s]) = insert i (k ` set rs)"
    by auto
  have "filter (\<lambda>r. k r \<noteq> i) (tbl_update (\<lambda>r. k r = i) (\<lambda>_. s) rs) = filter (\<lambda>r. k r \<noteq> i) rs"
    using assms(1) by (induction rs) auto
  with assms(1) show "filter (\<lambda>r. k r \<noteq> i) (if i \<in> k ` set rs then tbl_update (\<lambda>r. k r = i) (\<lambda>_. s) rs else rs @ [s])
       = filter (\<lambda>r. k r \<noteq> i) rs" by simp
qed

lemma UpsertSnapshot_InrD:
  assumes "UpsertSnapshot c d i v b kr rr = Inr (d', s)"
  shows "i \<in> m_ID ` set (t_machines d) \<and> sn_MachineID s = i
    \<and> d' = d\<lparr>t_snapshots := (if i \<in> sn_MachineID ` set (t_snapshots d)
                   then tbl_update (\<lambda>r. sn_MachineID r = i) (\<lambda>_. s) (t_snapshots d)
                   else t_snapshots d @ [s])\<rparr>"
  using assms unfolding UpsertSnapshot_def find_machine_None
  by (auto simp: Let_def split: if_splits dest!: run_query_InrD)

lemma dmoves_UpsertSnapshot:
  assumes "UpsertSnapshot c d i v b kr rr = Inr (d', s)"
  shows "dmoves u i d d'"
proof (rule dmovesI)
  assume inv: "db_inv d" and ow: "owned_by u i d"
  note D = UpsertSnapshot_InrD [OF assms]
  have keys: "distinct (map sn_MachineID (t_snapshots d))" using inv by (simp add: db_inv_defs)
  note up = upsert_map [of sn_MachineID s i "t_snapshots d", OF _ keys]
  have "db_inv d'"
    by (rule db_inv_side [OF inv]) (use inv D up(1) up(2) in \<open>simp_all add: db_inv_defs del: if_image_distrib\<close>)
  with ow D up(3) show "db_inv d' \<and> owned_by u i d' \<and> frame i d d'"
    by (simp add: owned_by_def frame_def)
qed

lemma dmoves_DeleteSnapshot:
  assumes "DeleteSnapshot c d i = Inr d'"
  shows "dmoves u i d d'"
proof (rule dmovesI)
  assume inv: "db_inv d" and ow: "owned_by u i d"
  have d': "d' = d\<lparr>t_snapshots := tbl_delete (\<lambda>r. sn_MachineID r = i) (t_snapshots d)\<rparr>"
    using assms unfolding DeleteSnapshot_def by (auto dest!: run_query_InrD)
  have "db_inv d'"
    by (rule db_inv_side [OF inv])
       (use inv in \<open>auto simp: d' db_inv_defs intro: distinct_map_tbl_delete\<close>)
  with ow show "db_inv d' \<and> owned_by u i d' \<and> frame i d d'"
    by (simp add: d' owned_by_def frame_def tbl_delete_def)
qed

lemma UpsertNetworkPolicy_InrD:
  assumes "UpsertNetworkPolicy c d i mode doms = Inr (d', s)"
  shows "i \<in> m_ID ` set (t_machines d) \<and> np_MachineID s = i \<and> np_Mode s = mode \<and> np_Domains s = doms
    \<and> d' = d\<lparr>t_policies := (if i \<in> np_MachineID ` set (t_policies d)
                   then tbl_update (\<lambda>r. np_MachineID r = i) (\<lambda>_. s) (t_policies d)
                   else t_policies d @ [s])\<rparr>"
proof (cases "find (\<lambda>r. np_MachineID r = i) (t_policies d)")
  case None
  then have "i \<notin> np_MachineID ` set (t_policies d)" by (simp add: find_key_None)
  with None assms show ?thesis unfolding UpsertNetworkPolicy_def find_machine_None
    by (auto simp: Let_def split: if_splits dest!: run_query_InrD)
next
  case (Some r)
  from find_key_in [OF this] have "np_MachineID r = i" "i \<in> np_MachineID ` set (t_policies d)" by auto
  with Some assms show ?thesis unfolding UpsertNetworkPolicy_def find_machine_None
    by (auto simp: Let_def split: if_splits dest!: run_query_InrD)
qed

lemma dmoves_UpsertNetworkPolicy:
  assumes "UpsertNetworkPolicy c d i mode doms = Inr (d', s)"
  shows "dmoves u i d d'"
proof (rule dmovesI)
  assume inv: "db_inv d" and ow: "owned_by u i d"
  note D = UpsertNetworkPolicy_InrD [OF assms]
  have keys: "distinct (map np_MachineID (t_policies d))" using inv by (simp add: db_inv_defs)
  note up = upsert_map [of np_MachineID s i "t_policies d", OF _ keys]
  have "db_inv d'"
    by (rule db_inv_side [OF inv]) (use inv D up(1) up(2) in \<open>simp_all add: db_inv_defs del: if_image_distrib\<close>)
  with ow D up(3) show "db_inv d' \<and> owned_by u i d' \<and> frame i d d'"
    by (simp add: owned_by_def frame_def)
qed

lemma dmoves_DeleteNetworkPolicy:
  assumes "DeleteNetworkPolicy c d i = Inr d'"
  shows "dmoves u i d d'"
proof (rule dmovesI)
  assume inv: "db_inv d" and ow: "owned_by u i d"
  have d': "d' = d\<lparr>t_policies := tbl_delete (\<lambda>r. np_MachineID r = i) (t_policies d)\<rparr>"
    using assms unfolding DeleteNetworkPolicy_def by (auto dest!: run_query_InrD)
  have "db_inv d'"
    by (rule db_inv_side [OF inv])
       (use inv in \<open>auto simp: d' db_inv_defs intro: distinct_map_tbl_delete\<close>)
  with ow show "db_inv d' \<and> owned_by u i d' \<and> frame i d d'"
    by (simp add: d' owned_by_def frame_def tbl_delete_def)
qed

text \<open>An event without a target state leaves the audited path as it is.\<close>

lemma dmoves_InsertMachineEvent:
  assumes "InsertMachineEvent c d i typ None None a pl = Inr (d', ev)"
  shows "dmoves u i d d'"
proof (rule dmovesI)
  assume inv: "db_inv d" and ow: "owned_by u i d"
  note D = InsertMachineEvent_InrD [OF assms]
  have mem: "i \<in> m_ID ` set (t_machines d)" using D find_machine_None by metis
  have log: "state_log d' k = state_log d k" for k
    using D by (subst state_log_snoc [where d = d and e = ev]) auto
  have "audited d'" using inv D log by (simp add: db_inv_def audited_def)
  moreover have "keys_ok d'" "refs_ok d'" using inv D mem by (simp_all add: db_inv_def keys_ok_def refs_ok_def)
  moreover have "event_ids_ok d'"
    using inv D by (fastforce simp: db_inv_def event_ids_ok_def sorted_wrt_append)
  ultimately show "db_inv d' \<and> owned_by u i d' \<and> frame i d d'"
    using ow D by (simp add: db_inv_def owned_by_def frame_def)
qed

section \<open>The broker, and steps of the whole world\<close>

definition broker_ok :: "'st world \<Rightarrow> bool" where
  "broker_ok w = (\<not> w_panicked w \<and> (case w_broker w of None \<Rightarrow> True | Some b \<Rightarrow> broker_inv b))"

definition world_ok :: "'st world \<Rightarrow> bool" where
  "world_ok w = (db_inv (w_db w) \<and> broker_ok w)"

definition moves :: "pg_uuid \<Rightarrow> pg_uuid \<Rightarrow> 'st world \<Rightarrow> 'st world \<Rightarrow> bool" where
  "moves u i w w' = (dmoves u i (w_db w) (w_db w') \<and> (broker_ok w \<longrightarrow> broker_ok w'))"

lemma moves_refl [simp, intro]: "moves u i w w"
  by (simp add: moves_def)

lemma moves_trans [trans]: "moves u i a b \<Longrightarrow> moves u i b c \<Longrightarrow> moves u i a c"
  unfolding moves_def using dmoves_trans by blast

lemma broker_ok_update [simp]:
  "broker_ok (w\<lparr>w_db := d\<rparr>) = broker_ok w" "broker_ok (w\<lparr>w_secrets := st\<rparr>) = broker_ok w"
  "broker_ok (w\<lparr>w_calls := cs\<rparr>) = broker_ok w" "broker_ok (w\<lparr>w_files := fs\<rparr>) = broker_ok w"
  "broker_ok (call w a) = broker_ok w"
  by (simp_all add: broker_ok_def call_def)

lemma call_db [simp]: "w_db (call w a) = w_db w" "w_broker (call w a) = w_broker w"
  "w_secrets (call w a) = w_secrets w"
  by (simp_all add: call_def)

lemma publish_db [simp]: "w_db (publish w x) = w_db w" "w_secrets (publish w x) = w_secrets w"
  "w_calls (publish w x) = w_calls w" "w_files (publish w x) = w_files w"
  by (auto simp: publish_def split: option.splits)

lemma publish_broker_ok:
  assumes "broker_ok w"
  shows "broker_ok (publish w x)"
proof (cases "w_broker w")
  case None
  with assms show ?thesis by (simp add: publish_def)
next
  case (Some b)
  with assms have "broker_inv b" by (simp add: broker_ok_def)
  from Publish_Some [OF this] obtain h where "Publish b x = Some (b\<lparr>b_chans := h\<rparr>)"
    "broker_inv (b\<lparr>b_chans := h\<rparr>)" by blast
  with Some assms show ?thesis by (simp add: publish_def broker_ok_def)
qed

lemma moves_db: "dmoves u i (w_db w) d \<Longrightarrow> moves u i w (w\<lparr>w_db := d\<rparr>)"
  by (simp add: moves_def)

lemma moves_publish: "moves u i w w' \<Longrightarrow> moves u i w (publish w' x)"
  by (simp add: moves_def publish_broker_ok)

lemma moves_call: "moves u i (call w a) w' \<longleftrightarrow> moves u i w w'" "moves u i w (call w' a) \<longleftrightarrow> moves u i w w'"
  by (simp_all add: moves_def)

lemma moves_same: "w_db w' = w_db w \<Longrightarrow> (broker_ok w \<Longrightarrow> broker_ok w') \<Longrightarrow> moves u i w w'"
  by (simp add: moves_def)

section \<open>The service's steps\<close>

lemma svc_transition_moves:
  "svc_transition dp w i a b ac et pl le = (w', r) \<Longrightarrow> moves u i w w'"
  unfolding svc_transition_def
  by (auto split: prod.splits sum.splits intro!: moves_publish moves_db intro: dmoves_Transition)

lemma find_machine_update:
  "find_machine d i = Some m \<Longrightarrow> (\<And>r. m_ID (f r) = m_ID r) \<Longrightarrow>
   find_machine (d\<lparr>t_machines := tbl_update (\<lambda>r. m_ID r = i) f (t_machines d)\<rparr>) i = Some (f m)"
  using find_key_in [of m_ID i "t_machines d" m]
  by (simp add: find_machine_def find_key_tbl_update)

lemma find_machine_update_other:
  assumes "k \<noteq> i" and f: "\<And>r. m_ID (f r) = m_ID r"
  shows "find_machine (d\<lparr>t_machines := tbl_update (\<lambda>r. m_ID r = i) f (t_machines d)\<rparr>) k = find_machine d k"
proof (cases "find_machine d k")
  case None
  then show ?thesis by (simp add: find_machine_def find_key_tbl_update [of m_ID f, OF f])
next
  case (Some m)
  with find_machine_Some [OF Some] assms(1) show ?thesis
    by (simp add: find_machine_def find_key_tbl_update [of m_ID f, OF f])
qed

lemma find_machine_tables [simp]:
  "find_machine (d\<lparr>t_events := es\<rparr>) i = find_machine d i"
  "find_machine (d\<lparr>t_event_seq := n\<rparr>) i = find_machine d i"
  "find_machine (d\<lparr>t_disks := ks\<rparr>) i = find_machine d i"
  "find_machine (d\<lparr>t_snapshots := ss\<rparr>) i = find_machine d i"
  "find_machine (d\<lparr>t_policies := ps\<rparr>) i = find_machine d i"
  by (simp_all add: find_machine_def)

lemma svc_transition_InrD:
  assumes "svc_transition dp w i a b ac et pl le = (w', Inr (m', ev))"
  shows "find_machine (w_db w) i \<noteq> None \<and> m_ID m' = i \<and> m_State m' = b \<and> find_machine (w_db w') i = Some m'"
proof -
  obtain d where T: "Transition (dp_db dp) (w_db w)
        \<lparr>tp_MachineID = i, tp_From = a, tp_To = b, tp_Actor = ac,
         tp_EventType = et, tp_Payload = pl, tp_LastError = le\<rparr> = (d, Inr (m', ev))"
    and d: "w_db w' = d"
    using assms unfolding svc_transition_def by (auto split: prod.splits sum.splits)
  from txn.T_row [OF T] d show ?thesis
    by (auto simp: find_machine_def find_key_tbl_update dest: find_key_in)
qed

lemma svc_fail_moves: "svc_fail dp w i a rs = (w', r) \<Longrightarrow> moves u i w w'"
  unfolding svc_fail_def
  by (auto split: prod.splits sum.splits dest: svc_transition_moves)

lemma ensureOnAgent_moves:
  "ensureOnAgent dp w m kr rr = (w', r) \<Longrightarrow> moves u (m_ID m) w w'"
  unfolding ensureOnAgent_def Let_def
  by (auto split: prod.splits sum.splits simp: moves_call
      dest!: svc_fail_moves dest: dmoves_SetMachineRuntime intro!: moves_db [THEN moves_call(1) [THEN iffD1]])

lemma RetryEnsure_moves: "moves u (m_ID m) w (fst (RetryEnsure dp w m))"
  by (simp add: RetryEnsure_def moves_call split: sum.splits)

lemma export_loop_same:
  "export_loop dp dir m ts (w, res) = (w', res') \<Longrightarrow>
   w_db w' = w_db w \<and> w_broker w' = w_broker w \<and> w_secrets w' = w_secrets w \<and> w_calls w' = w_calls w
   \<and> w_panicked w' = w_panicked w"
proof (induction ts arbitrary: w res)
  case (Cons t ts)
  then show ?case by (fastforce split: sum.splits)
qed simp

lemma exportSessions_same:
  "exportSessions dp w m = (w', r) \<Longrightarrow>
   w_db w' = w_db w \<and> w_broker w' = w_broker w \<and> w_secrets w' = w_secrets w \<and> w_calls w' = w_calls w
   \<and> w_panicked w' = w_panicked w"
  unfolding exportSessions_def Let_def
  by (auto split: sum.splits if_splits prod.splits dest: export_loop_same)

lemma exportSessions_moves: "exportSessions dp w m = (w', r) \<Longrightarrow> moves u i w w'"
  by (drule exportSessions_same) (simp add: moves_def broker_ok_def)

lemma Destroy_finish_moves: "moves u (m_ID m) w (fst (Destroy_finish dp w m))"
  by (auto simp: Destroy_finish_def Let_def moves_def publish_broker_ok split: sum.splits
      intro: dmoves_DeleteMachine)

section \<open>Operations of a user on one machine\<close>

lemma getOwned_InrD:
  "getOwned dp w u i = Inr m \<Longrightarrow> find_machine (w_db w) i = Some m \<and> m_ID m = i \<and> m_UserID m = u"
  unfolding getOwned_def
  by (auto split: sum.splits if_splits dest!: GetMachineByID_InrD dest: find_machine_Some)

lemma keys_ok_owned:
  "keys_ok d \<Longrightarrow> find_machine d i = Some m \<Longrightarrow> owned_by (m_UserID m) i d"
  by (auto simp: keys_ok_def owned_by_def distinct_map inj_on_def dest!: find_machine_Some)

text \<open>What a user can see of the database.\<close>

definition ids_of :: "pg_uuid \<Rightarrow> db \<Rightarrow> pg_uuid set" where
  "ids_of v d = m_ID ` {m \<in> set (t_machines d). m_UserID m = v}"

definition tenant_view :: "pg_uuid \<Rightarrow> db \<Rightarrow>
    machine list \<times> machine_event list \<times> disk list \<times> snapshot list \<times> network_policy_row list \<times> agent_task list" where
  "tenant_view v d =
     (filter (\<lambda>r. m_UserID r = v) (t_machines d),
      filter (\<lambda>r. ev_MachineID r \<in> ids_of v d) (t_events d),
      filter (\<lambda>r. d_MachineID r \<in> ids_of v d) (t_disks d),
      filter (\<lambda>r. sn_MachineID r \<in> ids_of v d) (t_snapshots d),
      filter (\<lambda>r. np_MachineID r \<in> ids_of v d) (t_policies d),
      filter (\<lambda>r. at_MachineID r \<in> ids_of v d) (t_tasks d))"

lemma filter_frame:
  assumes "filter (\<lambda>r. k r \<noteq> i) rs' = filter (\<lambda>r. k r \<noteq> i) rs" and "i \<notin> S"
  shows "filter (\<lambda>r. k r \<in> S) rs' = filter (\<lambda>r. k r \<in> S) rs"
proof -
  have "filter (\<lambda>r. k r \<in> S) xs = filter (\<lambda>r. k r \<in> S) (filter (\<lambda>r. k r \<noteq> i) xs)" for xs
    using assms(2) by (auto intro: filter_cong)
  with assms(1) show ?thesis by metis
qed

lemma owned_by_view:
  assumes "v \<noteq> u" "owned_by u i d" "owned_by u i d'" "frame i d d'"
  shows "tenant_view v d' = tenant_view v d"
proof -
  have notin: "i \<notin> ids_of v d" using assms(1,2) by (auto simp: ids_of_def owned_by_def)
  have part: "filter (\<lambda>r. m_UserID r = v) (t_machines e)
      = filter (\<lambda>r. m_UserID r = v) (filter (\<lambda>r. m_ID r \<noteq> i) (t_machines e))" if "owned_by u i e" for e
    using that assms(1) by (auto simp: owned_by_def intro!: filter_cong)
  have ms: "filter (\<lambda>r. m_UserID r = v) (t_machines d') = filter (\<lambda>r. m_UserID r = v) (t_machines d)"
    using part [OF assms(2)] part [OF assms(3)] assms(4) [unfolded frame_def] by metis
  have "ids_of v e = m_ID ` set (filter (\<lambda>r. m_UserID r = v) (t_machines e))" for e
    by (simp add: ids_of_def)
  then have ids: "ids_of v d' = ids_of v d" using ms by metis
  have F: "filter (\<lambda>r. ev_MachineID r \<noteq> i) (t_events d') = filter (\<lambda>r. ev_MachineID r \<noteq> i) (t_events d)"
     "filter (\<lambda>r. d_MachineID r \<noteq> i) (t_disks d') = filter (\<lambda>r. d_MachineID r \<noteq> i) (t_disks d)"
     "filter (\<lambda>r. sn_MachineID r \<noteq> i) (t_snapshots d') = filter (\<lambda>r. sn_MachineID r \<noteq> i) (t_snapshots d)"
     "filter (\<lambda>r. np_MachineID r \<noteq> i) (t_policies d') = filter (\<lambda>r. np_MachineID r \<noteq> i) (t_policies d)"
     "filter (\<lambda>r. at_MachineID r \<noteq> i) (t_tasks d') = filter (\<lambda>r. at_MachineID r \<noteq> i) (t_tasks d)"
    using assms(4) by (simp_all add: frame_def)
  show ?thesis
    by (simp add: tenant_view_def ids ms F [THEN filter_frame, OF notin])
qed

locale tenant_op =
  fixes step :: "'st deps \<Rightarrow> 'st world \<Rightarrow> pg_uuid \<Rightarrow> pg_uuid \<Rightarrow> 'st world \<times> 'r res"
  assumes guarded: "getOwned dp w u i = Inl e \<Longrightarrow> step dp w u i = (w, Inl e)"
    and step_moves: "getOwned dp w u i = Inr m \<Longrightarrow> moves u i w (fst (step dp w u i))"
begin

lemma keeps_world:
  assumes "world_ok w"
  shows "world_ok (fst (step dp w u i))"
proof (cases "getOwned dp w u i")
  case (Inl e)
  with assms show ?thesis by (simp add: guarded)
next
  case (Inr m)
  from getOwned_InrD [OF this] assms have "owned_by u i (w_db w)"
    using keys_ok_owned by (auto simp: world_ok_def db_inv_def)
  with step_moves [OF Inr] assms show ?thesis by (simp add: world_ok_def moves_def dmoves_def)
qed

lemma isolates:
  assumes "world_ok w" and "v \<noteq> u"
  shows "tenant_view v (w_db (fst (step dp w u i))) = tenant_view v (w_db w)"
proof (cases "getOwned dp w u i")
  case (Inl e)
  then show ?thesis by (simp add: guarded)
next
  case (Inr m)
  from getOwned_InrD [OF this] assms have "owned_by u i (w_db w)"
    using keys_ok_owned by (auto simp: world_ok_def db_inv_def)
  with step_moves [OF Inr] assms show ?thesis
    by (intro owned_by_view [of v u i]) (simp_all add: world_ok_def moves_def dmoves_def)
qed

text \<open>A machine of somebody else answers exactly as a machine that does not exist.\<close>

lemma hides:
  assumes "fault (dp_db dp) (QGetMachineByID i) = None"
    and "\<forall>m. find_machine (w_db w) i = Some m \<longrightarrow> m_UserID m \<noteq> u"
  shows "step dp w u i = (w, Inl (Sentinel ErrNoMachine))"
proof (rule guarded)
  show "getOwned dp w u i = Inl (Sentinel ErrNoMachine)"
  proof (cases "find_machine (w_db w) i")
    case None
    then show ?thesis using assms(1) by (simp add: getOwned_def GetMachineByID_def row_of_def)
  next
    case (Some m)
    with assms(2) have "m_UserID m \<noteq> u" by simp
    with Some assms(1) show ?thesis
      by (auto simp: getOwned_def GetMachineByID_def row_of_def)
  qed
qed

end

section \<open>The user-facing operations meet the contract\<close>

lemma Start_moves:
  assumes "getOwned dp w u i = Inr m"
  shows "moves u i w (fst (Start dp w u i))"
proof -
  note m = getOwned_InrD [OF assms]
  show ?thesis
  proof (cases "m_State m \<noteq> StateStopped \<and> m_State m \<noteq> StateError")
    case True
    then show ?thesis using assms by (simp add: Start_def)
  next
    case False
    obtain w1 r where T: "svc_transition dp w (m_ID m) (m_State m) StateStarting
        (ActorUser (UUIDString u)) EventTransition None None = (w1, r)" by fastforce
    have m1: "moves u i w w1" using svc_transition_moves [OF T] m by simp
    show ?thesis
    proof (cases r)
      case (Inl e)
      then show ?thesis using m1 assms False T by (auto simp: Start_def)
    next
      case (Inr x)
      then obtain mm ev where x: "x = (mm, ev)" by (cases x)
      have "m_ID mm = i" using svc_transition_InrD T Inr x m by blast
      then have "moves u i w1 (fst (ensureOnAgent dp w1 mm (m_KernelRef mm) (m_RootfsRef mm)))"
        using ensureOnAgent_moves surjective_pairing by metis
      with m1 have "moves u i w (fst (ensureOnAgent dp w1 mm (m_KernelRef mm) (m_RootfsRef mm)))"
        by (rule moves_trans)
      then show ?thesis using assms False T Inr x by (auto simp: Start_def)
    qed
  qed
qed

lemma Stop_moves:
  assumes "getOwned dp w u i = Inr m"
  shows "moves u i w (fst (Stop dp w u i))"
proof -
  note m = getOwned_InrD [OF assms]
  obtain w1 r where T: "svc_transition dp w (m_ID m) StateRunning StateHibernating
      (ActorUser (UUIDString u)) EventTransition None None = (w1, r)" by fastforce
  have m1: "moves u i w w1" using svc_transition_moves [OF T] m by simp
  have "moves u i w (fst (svc_fail dp (call w1 a) (m_ID mm) st rs))" if "r = Inr (mm, ev)" for a mm ev st rs
  proof -
    have "m_ID mm = i" using svc_transition_InrD T that m by blast
    then have "moves u i w1 (fst (svc_fail dp (call w1 a) (m_ID mm) st rs))"
      using svc_fail_moves surjective_pairing moves_call(1) by metis
    with m1 show ?thesis by (rule moves_trans)
  qed
  then show ?thesis using assms T m1
    by (auto simp: Stop_def Let_def moves_call split: sum.splits prod.splits)
qed

lemma Destroy_moves:
  assumes "getOwned dp w u i = Inr m"
  shows "moves u i w (fst (Destroy dp w u i force))"
proof -
  note m = getOwned_InrD [OF assms]
  obtain w1 xr where X: "exportSessions dp w m = (w1, xr)" by fastforce
  have m1: "moves u i w w1" by (rule exportSessions_moves [OF X])
  have "moves u i w1 (fst (Destroy_finish dp (call w1 a) m))" for a
    using Destroy_finish_moves [of u m "call w1 a" dp] m by (simp add: moves_call)
  then have "moves u i w (fst (Destroy_finish dp (call w1 a) m))" for a
    using m1 moves_trans by blast
  then show ?thesis using assms X m1
    by (auto simp: Destroy_def Let_def moves_call split: sum.splits option.splits)
qed

lemma Rename_moves:
  assumes "getOwned dp w u i = Inr m"
  shows "moves u i w (fst (Rename dp w u i nm))"
proof (cases "RenameMachine (dp_db dp) (w_db w) i nm")
  case (Inl e)
  then show ?thesis using assms by (simp add: Rename_def)
next
  case (Inr x)
  then obtain d1 m1 where R: "RenameMachine (dp_db dp) (w_db w) i nm = Inr (d1, m1)" by (cases x) auto
  have r: "dmoves u i (w_db w) d1" by (rule dmoves_RenameMachine [OF R])
  have "dmoves u i (w_db w) d2" if "InsertMachineEvent (dp_db dp) d1 i ty None None a pl = Inr (d2, ev)"
    for d2 ty a pl ev using r dmoves_InsertMachineEvent [OF that] by (rule dmoves_trans)
  then show ?thesis using assms R r
    by (auto simp: Rename_def intro!: moves_publish moves_db split: sum.splits)
qed

lemma SetNetworkPolicy_moves:
  "getOwned dp w u i = Inr m \<Longrightarrow> moves u i w (fst (SetNetworkPolicy dp w u i mode doms))"
  by (auto simp: SetNetworkPolicy_def split: sum.splits option.splits
      intro!: moves_db dest: dmoves_UpsertNetworkPolicy)

lemma DeleteNetworkPolicy_moves:
  "getOwned dp w u i = Inr m \<Longrightarrow> moves u i w (fst (Service_DeleteNetworkPolicy dp w u i))"
  by (auto simp: Service_DeleteNetworkPolicy_def split: sum.splits
      intro!: moves_db dest: dmoves_DeleteNetworkPolicy)

interpretation start: tenant_op Start
  by unfold_locales (simp_all add: Start_moves, simp add: Start_def)

interpretation stop: tenant_op Stop
  by unfold_locales (simp_all add: Stop_moves, simp add: Stop_def)

interpretation destroy: tenant_op "\<lambda>dp w u i. Destroy dp w u i force" for force
  by unfold_locales (simp_all add: Destroy_moves, simp add: Destroy_def)

interpretation rename: tenant_op "\<lambda>dp w u i. Rename dp w u i nm" for nm
  by unfold_locales (simp_all add: Rename_moves, simp add: Rename_def)

interpretation set_policy: tenant_op "\<lambda>dp w u i. SetNetworkPolicy dp w u i mode doms" for mode doms
  by unfold_locales (simp_all add: SetNetworkPolicy_moves, simp add: SetNetworkPolicy_def)

interpretation del_policy: tenant_op Service_DeleteNetworkPolicy
  by unfold_locales (simp_all add: DeleteNetworkPolicy_moves, simp add: Service_DeleteNetworkPolicy_def)

end
