(* ===== verification/Machine_System.thy ===== *)
theory Machine_System
  imports Machine_Safety
begin

text \<open>
  The machine subsystem as a whole: the lemmas of \<open>Create\<close>, of the batch operations and of
  the poller's passes, the step relation in which users, the poller and the subscribers of
  the broker take turns, and the invariants of every reachable state. A step is one
  operation; what it meets (database faults, agent answers, drawn identifiers) is arbitrary.
\<close>

section \<open>Create\<close>

lemma compensate_moves:
  assumes "held = i \<or> \<not> proper_uuid held"
  shows "moves u i w (compensate dp w held)"
proof (cases "DeleteMachine (dp_db dp) (w_db w) held")
  case (Inl e)
  then show ?thesis by (simp add: compensate_def)
next
  case (Inr d)
  have "dmoves u i (w_db w) d"
  proof (cases "held = i")
    case True
    then show ?thesis using Inr dmoves_DeleteMachine by blast
  next
    case False
    with assms have "held \<notin> m_ID ` set (t_machines (w_db w))" if "db_inv (w_db w)"
      using that by (auto simp: db_inv_def keys_ok_def)
    then show ?thesis using DeleteMachine_absent [OF Inr] by (auto intro!: dmovesI)
  qed
  then show ?thesis using Inr by (simp add: compensate_def moves_db)
qed

lemma SetMachineDisk_InrD:
  "SetMachineDisk c d i k = Inr (d', m') \<Longrightarrow> m_ID m' = i"
  unfolding SetMachineDisk_def
  by (auto dest!: run_query_InrD update_machine_InrD find_machine_Some split: if_splits)

lemma Create_setup_moves:
  assumes "Create_setup dp w m u r = (w', x)"
  shows "moves v (m_ID m) w w' \<and> (\<forall>h e. x = Inl (h, e) \<longrightarrow> h = m_ID m \<or> h = zero_uuid)
    \<and> (\<forall>m'. x = Inr m' \<longrightarrow> m_ID m' = m_ID m)"
proof (cases "CreateDisk (dp_db dp) (dp_disk_id dp) (w_db w) (m_ID m) (int32 (r_DiskMiB r))")
  case (Inl e)
  then show ?thesis using assms by (auto simp: Create_setup_def)
next
  case (Inr y)
  then obtain d1 k where D: "CreateDisk (dp_db dp) (dp_disk_id dp) (w_db w) (m_ID m) (int32 (r_DiskMiB r)) = Inr (d1, k)"
    by (cases y) auto
  then have c1: "dmoves v (m_ID m) (w_db w) d1" using dmoves_CreateDisk by blast
  show ?thesis
  proof (cases "SetMachineDisk (dp_db dp) d1 (m_ID m) (d_ID k)")
    case (Inl e)
    then show ?thesis using assms D c1 by (auto simp: Create_setup_def intro: moves_db)
  next
    case (Inr z)
    then obtain d2 m2 where S: "SetMachineDisk (dp_db dp) d1 (m_ID m) (d_ID k) = Inr (d2, m2)"
      by (cases z) auto
    have c2: "dmoves v (m_ID m) (w_db w) d2" using c1 dmoves_SetMachineDisk [OF S] by (rule dmoves_trans)
    have id2: "m_ID m2 = m_ID m" by (rule SetMachineDisk_InrD [OF S])
    obtain st kr where M: "MintMachineVolumeKey (dp_secrets dp) (w_secrets w) (dp_rand dp) (UUIDString (m_ID m2)) = (st, kr)"
      by fastforce
    have m2: "moves v (m_ID m) w (w\<lparr>w_db := d2, w_secrets := st\<rparr>)" using c2 by (simp add: moves_def)
    obtain w3 tr where T: "svc_transition dp (w\<lparr>w_db := d2, w_secrets := st\<rparr>) (m_ID m2)
        StateRequested StateProvisioning (ActorUser (UUIDString u)) EventTransition None None = (w3, tr)"
      by fastforce
    have m3: "moves v (m_ID m) w w3" using m2 svc_transition_moves [OF T] id2 moves_trans by metis
    show ?thesis
    proof (cases kr)
      case (Inl e)
      then show ?thesis using assms D S M m2 id2 by (auto simp: Create_setup_def)
    next
      case kr: (Inr _)
      show ?thesis
      proof (cases tr)
        case (Inl e)
        then show ?thesis using assms D S M T kr m3 by (auto simp: Create_setup_def)
      next
        case (Inr y)
        then obtain m' ev where y: "tr = Inr (m', ev)" by (cases y) auto
        with T have "m_ID m' = m_ID m" using svc_transition_InrD id2 by metis
        with y show ?thesis using assms D S M T kr m3 by (auto simp: Create_setup_def)
      qed
    qed
  qed
qed

text \<open>How a call of \<open>Create\<close> can go: it stops before the insert, or the insert goes through.\<close>

lemma Create_cases:
  assumes "Create dp w u opts = (w', r)"
  obtains (early) cs e where "w' = w\<lparr>w_calls := w_calls w @ cs\<rparr>" "r = Inl e"
  | (row) n name rr kr rs tid host queried d2 m where
      "CountMachinesByUserID (dp_db dp) (w_db w) u = Inr n" "n < MaxPerUser (dp_spec dp)"
      "create_name dp w u opts = Inr name"
      "resolveCreate (dp_spec dp) opts = Inr (rr, kr, rs, tid)"
      "chooseHost (dp_db dp) (w_db w) (dp_Capacity dp) rs = (queried, Inr host)"
      "CreateMachine (dp_db dp) (dp_machine_id dp) (w_db w)
         \<lparr>cm_UserID = u, cm_HostID = h_ID host, cm_Name = name, cm_KernelRef = kr, cm_RootfsRef = rr,
          cm_ResourceSpec = spec_json rs, cm_TemplateID = tid\<rparr> = Inr (d2, m)"
      "(case Create_setup dp (w\<lparr>w_calls := w_calls w @ map CallCapacity queried, w_db := d2\<rparr>) m u rs of
          (w3, Inl (held, e)) \<Rightarrow> (compensate dp w3 held, Inl e)
        | (w3, Inr m3) \<Rightarrow> ensureOnAgent dp w3 m3 kr rr) = (w', r)"
proof -
  have same: "w = w\<lparr>w_calls := w_calls w @ []\<rparr>" by simp
  show thesis
  proof (cases "\<exists>e. r = Inl e \<and> w' = w")
    case True
    then show ?thesis using early same by metis
  next
    case False
    then obtain n name rr kr rs tid where pre:
      "CountMachinesByUserID (dp_db dp) (w_db w) u = Inr n" "n < MaxPerUser (dp_spec dp)"
      "create_name dp w u opts = Inr name"
      "resolveCreate (dp_spec dp) opts = Inr (rr, kr, rs, tid)"
      using assms unfolding Create_def by (auto split: sum.splits if_splits)
    obtain queried hres where H: "chooseHost (dp_db dp) (w_db w) (dp_Capacity dp) rs = (queried, hres)"
      by fastforce
    let ?p = "\<lambda>host. \<lparr>cm_UserID = u, cm_HostID = h_ID host, cm_Name = name, cm_KernelRef = kr,
      cm_RootfsRef = rr, cm_ResourceSpec = spec_json rs, cm_TemplateID = tid\<rparr>"
    show ?thesis
    proof (cases hres)
      case (Inl e)
      then show ?thesis using assms pre H early by (auto simp: Create_def Let_def)
    next
      case host: (Inr host)
      show ?thesis
      proof (cases "CreateMachine (dp_db dp) (dp_machine_id dp) (w_db w) (?p host)")
        case (Inl e)
        then show ?thesis using assms pre H host early by (auto simp: Create_def Let_def)
      next
        case (Inr x)
        then obtain d2 m where C: "CreateMachine (dp_db dp) (dp_machine_id dp) (w_db w) (?p host) = Inr (d2, m)"
          by (cases x) auto
        with assms pre H host have "(case Create_setup dp
            (w\<lparr>w_calls := w_calls w @ map CallCapacity queried, w_db := d2\<rparr>) m u rs of
          (w3, Inl (held, e)) \<Rightarrow> (compensate dp w3 held, Inl e)
        | (w3, Inr m3) \<Rightarrow> ensureOnAgent dp w3 m3 kr rr) = (w', r)"
          by (simp add: Create_def Let_def)
        with pre H host C show ?thesis by (intro row) auto
      qed
    qed
  qed
qed

text \<open>
  Every outcome of \<open>Create\<close>: either the database is untouched, or a row with the drawn
  identifier was inserted and everything after it worked for that machine.
\<close>

lemma Create_moves:
  assumes "Create dp w u opts = (w', r)" and "proper_uuid (dp_machine_id dp)"
  shows "(w_db w' = w_db w \<and> (broker_ok w \<longrightarrow> broker_ok w'))
    \<or> (dp_machine_id dp \<notin> m_ID ` set (t_machines (w_db w)) \<and> moves u (dp_machine_id dp) w w')"
proof -
  let ?i = "dp_machine_id dp"
  show ?thesis using assms(1)
  proof (cases rule: Create_cases)
    case early
    then show ?thesis by simp
  next
    case (row n name rr kr rs tid host queried d2 m)
    note rest = row(7)
    let ?w2 = "w\<lparr>w_calls := w_calls w @ map CallCapacity queried, w_db := d2\<rparr>"
    note cm = dmoves_CreateMachine [OF row(6) assms(2), simplified]
    then have a: "moves u ?i w ?w2" by (auto simp: moves_def)
    obtain w3 x where S: "Create_setup dp ?w2 m u rs = (w3, x)" by fastforce
    note s = Create_setup_moves [OF S, of u]
    have b: "moves u ?i w w3" using a s cm moves_trans by metis
    have z: "\<not> proper_uuid zero_uuid" by (simp add: zero_uuid_def proper_uuid_def)
    have "moves u ?i w w'"
    proof (cases x)
      case (Inl y)
      then obtain h e where "x = Inl (h, e)" by (cases y) auto
      then have "h = ?i \<or> \<not> proper_uuid h" "w' = compensate dp w3 h" using s S rest cm z by auto
      then have "moves u ?i w3 w'" using compensate_moves by metis
      with b show ?thesis by (rule moves_trans)
    next
      case (Inr m3)
      then have "ensureOnAgent dp w3 m3 kr rr = (w', r)" "m_ID m3 = ?i" using s S rest cm by auto
      then have "moves u ?i w3 w'" using ensureOnAgent_moves by metis
      with b show ?thesis by (rule moves_trans)
    qed
    with cm show ?thesis by simp
  qed
qed

lemma moves_fresh_ok:
  assumes "moves u i w w'" "i \<notin> m_ID ` set (t_machines (w_db w))" "world_ok w"
  shows "world_ok w' \<and> (v \<noteq> u \<longrightarrow> tenant_view v (w_db w') = tenant_view v (w_db w))"
proof -
  have "owned_by u i (w_db w)" using assms(2) by (auto simp: owned_by_def)
  with assms show ?thesis by (auto simp: moves_def dmoves_def world_ok_def intro: owned_by_view)
qed

lemma Create_ok:
  assumes "Create dp w u opts = (w', r)" "proper_uuid (dp_machine_id dp)" "world_ok w"
  shows "world_ok w' \<and> (v \<noteq> u \<longrightarrow> tenant_view v (w_db w') = tenant_view v (w_db w))"
  using Create_moves [OF assms(1,2)] moves_fresh_ok [OF _ _ assms(3)] assms(3)
  by (auto simp: world_ok_def)

section \<open>Batches\<close>

lemma DestroyAll_loop_ok:
  assumes "DestroyAll_loop dps u force k ms w = (w', rs)" "world_ok w"
  shows "world_ok w' \<and> (v \<noteq> u \<longrightarrow> tenant_view v (w_db w') = tenant_view v (w_db w))"
  using assms
proof (induction ms arbitrary: k w rs)
  case (Cons m ms)
  obtain w1 r where D: "Destroy (dps k) w u (m_ID m) force = (w1, r)" by fastforce
  with Cons.prems(1) obtain rs' where L: "DestroyAll_loop dps u force (k + 1) ms w1 = (w', rs')"
    by (auto split: prod.splits)
  have "world_ok w1" using destroy.keeps_world [OF Cons.prems(2), of "dps k" u "m_ID m" force] D by simp
  moreover have "v \<noteq> u \<longrightarrow> tenant_view v (w_db w1) = tenant_view v (w_db w)"
    using destroy.isolates [OF Cons.prems(2), of v u "dps k" "m_ID m" force] D by simp
  ultimately show ?case using Cons.IH [OF L] by simp
qed simp

lemma DestroyAll_ok:
  assumes "DestroyAll dps w u force = (w', r)" "world_ok w"
  shows "world_ok w' \<and> (v \<noteq> u \<longrightarrow> tenant_view v (w_db w') = tenant_view v (w_db w))"
  using assms DestroyAll_loop_ok [OF _ assms(2)] unfolding DestroyAll_def
  by (auto split: sum.splits prod.splits)

lemma CreateUpToLimit_loop_ok:
  assumes "CreateUpToLimit_loop dps u k n w = (w', rs)" "world_ok w" "\<forall>j. proper_uuid (dp_machine_id (dps j))"
  shows "world_ok w' \<and> (v \<noteq> u \<longrightarrow> tenant_view v (w_db w') = tenant_view v (w_db w))"
  using assms(1,2)
proof (induction n arbitrary: k w rs)
  case (Suc n)
  obtain w1 r where C: "Create (dps k) w u no_options = (w1, r)" by fastforce
  have ok: "world_ok w1 \<and> (v \<noteq> u \<longrightarrow> tenant_view v (w_db w1) = tenant_view v (w_db w))"
    using Create_ok [OF C _ Suc.prems(2)] assms(3) by blast
  consider "w' = w1" | rs' where "CreateUpToLimit_loop dps u (k + 1) n w1 = (w', rs')"
    using Suc.prems(1) C by (auto split: prod.splits sum.splits if_splits)
  then show ?case
  proof cases
    case 2
    then show ?thesis using Suc.IH [OF 2] ok by simp
  qed (use ok in simp)
qed simp

lemma CreateUpToLimit_ok:
  assumes "CreateUpToLimit dps w u = (w', r)" "world_ok w" "\<forall>j. proper_uuid (dp_machine_id (dps j))"
  shows "world_ok w' \<and> (v \<noteq> u \<longrightarrow> tenant_view v (w_db w') = tenant_view v (w_db w))"
  using assms CreateUpToLimit_loop_ok [OF _ assms(2,3)] unfolding CreateUpToLimit_def Let_def
  by (auto split: sum.splits prod.splits if_splits)

section \<open>The poller\<close>

lemma p_transition_moves: "moves u (m_ID m) w (p_transition pd w m a b ac et pl le)"
  unfolding p_transition_def
  by (auto split: prod.splits sum.splits intro!: moves_publish moves_db intro: dmoves_Transition)

lemma toError_moves: "moves u (m_ID m) w (toError pd w m a rs)"
  unfolding toError_def by (rule p_transition_moves)

lemma clear_snapshot_moves: "moves u i w (clear_snapshot pd w i)"
  by (auto simp: clear_snapshot_def split: sum.splits intro: moves_db dest: dmoves_DeleteSnapshot)

lemma or_skip_moves: "(\<And>d x. r = Inr (d, x) \<Longrightarrow> dmoves u i (w_db w) d) \<Longrightarrow> moves u i w (or_skip w r)"
  by (auto simp: or_skip_def split: sum.splits intro: moves_db)

lemma toStopped_moves: "moves u (m_ID m) w (toStopped pd w m a st)"
proof -
  have "moves u (m_ID m) w (if si_Present (st_Snapshot st)
      then or_skip w (UpsertSnapshot (dp_db (pd_svc pd)) (w_db w) (m_ID m) (si_FCVersion (st_Snapshot st))
             (si_MemBytes (st_Snapshot st)) (m_KernelRef m) (m_RootfsRef m))
      else clear_snapshot pd w (m_ID m))"
    using clear_snapshot_moves dmoves_UpsertSnapshot by (auto intro!: or_skip_moves)
  then show ?thesis unfolding toStopped_def Let_def using p_transition_moves by (rule moves_trans)
qed

lemma toRunning_moves: "moves u (m_ID m) w (fst (toRunning pd w p m a st))"
proof -
  let ?c = "dp_db (pd_svc pd)"
  define w1 where "w1 = or_skip w (SetMachineRuntime ?c (w_db w) (m_ID m) (Some (st_Handle st))
      (if st_GuestIP st \<noteq> [] then pd_ParseAddr pd (st_GuestIP st) else None))"
  define w2 where "w2 = (if st_Boot st \<noteq> []
      then or_skip w1 (SetMachineBoot ?c (w_db w1) (m_ID m) (Some (st_Boot st))) else w1)"
  have "moves u (m_ID m) w w1" unfolding w1_def by (rule or_skip_moves) (rule dmoves_SetMachineRuntime)
  also have "moves u (m_ID m) w1 w2"
    unfolding w2_def by (auto intro!: or_skip_moves dest: dmoves_SetMachineBoot)
  also have "moves u (m_ID m) w2 (clear_snapshot pd w2 (m_ID m))" by (rule clear_snapshot_moves)
  also have "moves u (m_ID m) (clear_snapshot pd w2 (m_ID m)) (p_transition pd (clear_snapshot pd w2 (m_ID m)) m a
      StateRunning ActorPoller EventTransition (bootPayload st) None)" by (rule p_transition_moves)
  finally show ?thesis unfolding toRunning_def Let_def fst_conv w2_def w1_def .
qed

text \<open>The hook wired by \<open>main\<close> is \<open>Service.RetryEnsure\<close> or nothing.\<close>

definition wired :: "'st poller_deps \<Rightarrow> bool" where
  "wired pd = (pd_retryEnsure pd = None \<or> pd_retryEnsure pd = Some (RetryEnsure (pd_svc pd)))"

lemma retryStart_moves: "wired pd \<Longrightarrow> moves u (m_ID m) w (fst (retryStart pd w p m a e))"
  unfolding retryStart_def Let_def wired_def
  by (auto split: prod.splits option.splits intro: toError_moves RetryEnsure_moves)

lemma advanceOne_moves: "wired pd \<Longrightarrow> moves u (m_ID m) w (fst (advanceOne pd (w, p) m))"
  unfolding advanceOne_def Let_def prod.case
  by (auto simp: moves_call split: sum.splits
      intro!: p_transition_moves [THEN moves_call(1) [THEN iffD1]]
        toError_moves [THEN moves_call(1) [THEN iffD1]] toRunning_moves [THEN moves_call(1) [THEN iffD1]]
        toStopped_moves [THEN moves_call(1) [THEN iffD1]] retryStart_moves [THEN moves_call(1) [THEN iffD1]])

lemma sweep_unreachable_moves: "moves u (m_ID m) w (fst (sweep_unreachable pd e (w, p) m))"
  unfolding sweep_unreachable_def Let_def by (auto split: prod.splits intro: toError_moves)

lemma sweep_reachable_moves: "moves u (m_ID m) w (fst (sweep_reachable pd byID (w, p) m))"
  unfolding sweep_reachable_def Let_def by (auto split: prod.splits option.splits intro: toError_moves)

lemma moves_any_ok:
  assumes "\<And>u. moves u i w w'" "world_ok w"
  shows "world_ok w'"
proof -
  have "\<exists>u. owned_by u i (w_db w)"
  proof (cases "find_machine (w_db w) i")
    case None
    then show ?thesis by (auto simp: owned_by_def find_machine_None)
  next
    case (Some m)
    then show ?thesis using assms(2) keys_ok_owned by (auto simp: world_ok_def db_inv_def)
  qed
  with assms show ?thesis by (auto simp: moves_def dmoves_def world_ok_def)
qed

lemma fold_pass_ok:
  assumes "\<And>wp m u. moves u (m_ID m) (fst wp) (fst (f wp m))" "world_ok (fst wp)"
  shows "world_ok (fst (foldl f wp ms))"
  using assms(2)
proof (induction ms arbitrary: wp)
  case (Cons m ms)
  have "world_ok (fst (f wp m))" by (rule moves_any_ok [OF assms(1) Cons.prems])
  with Cons.IH show ?case by simp
qed simp

lemma world_ok_call [simp]: "world_ok (call w a) = world_ok w"
  by (simp add: world_ok_def)

lemma AdvanceTransitional_ok:
  assumes "wired pd" "world_ok (fst wp)"
  shows "world_ok (fst (AdvanceTransitional pd wp))"
proof -
  have "moves u (m_ID m) (fst wp) (fst (advanceOne pd wp m))" for u m and wp :: "'a world \<times> poller"
    using advanceOne_moves [OF assms(1), of u m "fst wp" "snd wp"] by simp
  from fold_pass_ok [of "advanceOne pd", OF this assms(2)] show ?thesis
    using assms(2) by (auto simp: AdvanceTransitional_def split: sum.splits)
qed

lemma SweepRunning_ok:
  assumes "world_ok (fst wp)"
  shows "world_ok (fst (SweepRunning pd wp))"
proof -
  have "moves u (m_ID m) (fst wp) (fst (sweep_unreachable pd e wp m))" for u m e and wp :: "'a world \<times> poller"
    using sweep_unreachable_moves [of u m "fst wp" pd e "snd wp"] by simp
  note un = fold_pass_ok [of "sweep_unreachable pd e" for e, OF this]
  have "moves u (m_ID m) (fst wp) (fst (sweep_reachable pd b wp m))" for u m b and wp :: "'a world \<times> poller"
    using sweep_reachable_moves [of u m "fst wp" pd b "snd wp"] by simp
  note re = fold_pass_ok [of "sweep_reachable pd b" for b, OF this]
  show ?thesis using assms by (auto simp: SweepRunning_def Let_def split: sum.splits intro!: un re)
qed

section \<open>The step relation\<close>

text \<open>
  Subscribers act on the broker of the world; \<open>on_broker\<close> runs such an action, a panic of
  which is recorded like a panic of \<open>publish\<close>. With no broker there is nobody to act.
\<close>

definition on_broker :: "'st world \<Rightarrow> (broker \<Rightarrow> broker option) \<Rightarrow> 'st world" where
  "on_broker w f = (case w_broker w of
       None \<Rightarrow> w
     | Some b \<Rightarrow> (case f b of None \<Rightarrow> w\<lparr>w_panicked := True\<rparr> | Some b' \<Rightarrow> w\<lparr>w_broker := Some b'\<rparr>))"

inductive sys_step :: "'st world \<times> poller \<Rightarrow> 'st world \<times> poller \<Rightarrow> bool" where
  create: "proper_uuid (dp_machine_id dp) \<Longrightarrow> sys_step (w, p) (fst (Create dp w u opts), p)"
| create_up_to_limit: "\<forall>j. proper_uuid (dp_machine_id (dps j)) \<Longrightarrow> sys_step (w, p) (fst (CreateUpToLimit dps w u), p)"
| start: "sys_step (w, p) (fst (Start dp w u i), p)"
| stop: "sys_step (w, p) (fst (Stop dp w u i), p)"
| destroy: "sys_step (w, p) (fst (Destroy dp w u i force), p)"
| destroy_all: "sys_step (w, p) (fst (DestroyAll dps w u force), p)"
| rename: "sys_step (w, p) (fst (Rename dp w u i nm), p)"
| set_policy: "sys_step (w, p) (fst (SetNetworkPolicy dp w u i mode doms), p)"
| delete_policy: "sys_step (w, p) (fst (Service_DeleteNetworkPolicy dp w u i), p)"
| advance: "wired pd \<Longrightarrow> sys_step (w, p) (AdvanceTransitional pd (w, p))"
| sweep: "sys_step (w, p) (SweepRunning pd (w, p))"
| subscribe: "sys_step (w, p) (on_broker w (\<lambda>b. Some (fst (Subscribe b u))), p)"
| cancel: "sys_step (w, p) (on_broker w (\<lambda>b. Subscribe_cancel b u n), p)"
| subscribe_all: "sys_step (w, p) (on_broker w (\<lambda>b. Some (fst (SubscribeAll b))), p)"
| cancel_all: "sys_step (w, p) (on_broker w (\<lambda>b. SubscribeAll_cancel b n), p)"
| receive: "sys_step (w, p) (on_broker w (\<lambda>b. Some (b\<lparr>b_chans := snd (recv r (b_chans b))\<rparr>)), p)"
| shutdown: "sys_step (w, p) (on_broker w Shutdown, p)"

inductive reachable :: "'st world \<times> poller \<Rightarrow> bool" where
  init: "reachable (\<lparr>w_db = \<lparr>t_machines = [], t_events = [], t_event_seq = 0, t_disks = [], t_snapshots = [],
      t_policies = [], t_hosts = hosts, t_tasks = []\<rparr>, w_secrets = st, w_broker = b, w_calls = [],
      w_files = [], w_panicked = False\<rparr>, NewPoller)" if "b = None \<or> b = Some NewBroker"
| step: "reachable s \<Longrightarrow> sys_step s s' \<Longrightarrow> reachable s'"

lemma on_broker_ok:
  assumes "world_ok w" "\<And>b. broker_inv b \<Longrightarrow> \<exists>b'. f b = Some b' \<and> broker_inv b'"
  shows "world_ok (on_broker w f)"
proof (cases "w_broker w")
  case None
  with assms(1) show ?thesis by (simp add: on_broker_def)
next
  case (Some b)
  with assms(1) have "broker_inv b" by (simp add: world_ok_def broker_ok_def)
  from assms(2) [OF this] Some assms(1) show ?thesis
    by (auto simp: on_broker_def world_ok_def broker_ok_def)
qed

lemma open_chan_recv: "open_chan (snd (recv q h)) r = open_chan h r"
  by (cases "r = q") (auto simp: recv_def open_chan_def)

lemma broker_step_inv:
  assumes "broker_inv b"
  shows "broker_inv (fst (Subscribe b u))" "broker_inv (fst (SubscribeAll b))"
    "broker_inv (b\<lparr>b_chans := snd (recv r (b_chans b))\<rparr>)"
proof -
  obtain b1 i1 c1 where "Subscribe b u = (b1, i1, c1)" by (metis prod_cases3)
  then show "broker_inv (fst (Subscribe b u))" using Subscribe_inv [OF assms] by fastforce
  obtain b2 i2 c2 where "SubscribeAll b = (b2, i2, c2)" by (metis prod_cases3)
  then show "broker_inv (fst (SubscribeAll b))" using SubscribeAll_inv [OF assms] by fastforce
  show "broker_inv (b\<lparr>b_chans := snd (recv r (b_chans b))\<rparr>)"
    by (rule broker_inv_heap [OF assms open_chan_recv])
qed

lemmas step_world_facts =
  Create_ok [OF surjective_pairing, THEN conjunct1]
  CreateUpToLimit_ok [OF surjective_pairing, THEN conjunct1]
  DestroyAll_ok [OF surjective_pairing, THEN conjunct1]
  start.keeps_world stop.keeps_world destroy.keeps_world rename.keeps_world
  set_policy.keeps_world del_policy.keeps_world

lemma sys_step_ok:
  assumes "sys_step s s'" "world_ok (fst s)"
  shows "world_ok (fst s')"
  using assms
proof (induction rule: sys_step.induct)
  case (advance pd w p)
  then show ?case by (simp add: AdvanceTransitional_ok)
next
  case (sweep w p pd)
  then show ?case by (simp add: SweepRunning_ok)
next
  case (cancel w p u n)
  then show ?case using Subscribe_cancel_inv by (fastforce intro!: on_broker_ok)
next
  case (cancel_all w p n)
  then show ?case using SubscribeAll_cancel_inv by (fastforce intro!: on_broker_ok)
next
  case (shutdown w p)
  then show ?case using Shutdown_inv by (fastforce intro!: on_broker_ok)
qed (simp_all add: step_world_facts on_broker_ok broker_step_inv)

lemma reachable_world_ok: "reachable s \<Longrightarrow> world_ok (fst s)"
proof (induction rule: reachable.induct)
  case (init b hosts st)
  then show ?case
    by (auto simp: world_ok_def broker_ok_def NewBroker_inv db_inv_defs)
next
  case (step s s')
  then show ?case by (simp add: sys_step_ok)
qed

end
