(* ===== verification/Example_World.thy ===== *)
theory Example_World
  imports Machine_System
begin

text \<open>
  A small concrete installation: two users, one active host, one machine of the first user,
  a node-agent that accepts everything, and the in-memory secret store. The witnesses of
  the properties are evaluated on it.
\<close>

definition uid :: "8 word \<Rightarrow> pg_uuid" where
  "uid k = \<lparr>Bytes = replicate 15 0 @ [k], Valid = True\<rparr>"

definition ex_ctx :: dbctx where
  "ex_ctx = \<lparr>fault = (\<lambda>_. None), now = (\<lambda>_. 7)\<rparr>"

definition ex_machine :: "state \<Rightarrow> machine" where
  "ex_machine s = \<lparr>m_ID = uid 1, m_UserID = uid 101, m_State = s, m_HostID = uid 50, m_VmHandle = None,
     m_GuestIp = None, m_KernelRef = ''k1'', m_RootfsRef = ''r1'', m_ResourceSpec = [], m_LastError = None,
     m_LastActiveAt = None, m_CreatedAt = 1, m_UpdatedAt = 1, m_DiskID = None, m_Boot = None,
     m_Name = ''machine-1'', m_TemplateID = None\<rparr>"

definition ex_host :: host where
  "ex_host = \<lparr>h_ID = uid 50, h_Name = ''host-a'', h_AgentUrl = ''http://a'', h_Status = ''active'', h_CreatedAt = 0\<rparr>"

definition ex_db :: "machine list \<Rightarrow> db" where
  "ex_db ms = \<lparr>t_machines = ms, t_events = [], t_event_seq = 0, t_disks = [], t_snapshots = [],
     t_policies = [], t_hosts = [ex_host], t_tasks = []\<rparr>"

definition ex_spec :: spec where
  "ex_spec = \<lparr>s_Vcpus = 2, s_MemMiB = 512, s_DiskMiB = 1024, s_KernelRef = ''k1'', s_RootfsRef = ''r1'',
     s_MaxPerUser = 2, s_Catalog = zero_catalog, s_Limits = NewResourceLimits 4 4096 20480,
     s_SessionExportDir = ''/exports''\<rparr>"

definition ex_deps :: "mem_state deps" where
  "ex_deps = \<lparr>dp_db = ex_ctx, dp_secrets = mem_ops, dp_spec = ex_spec,
     dp_Ensure = (\<lambda>_ _. Inr ''vm-1''), dp_Stop = (\<lambda>_ _. Inr ()), dp_Destroy = (\<lambda>_. Inr ()),
     dp_Capacity = (\<lambda>_. Inl (ErrorText ''down'')), dp_rand = Inr (replicate 32 7),
     dp_machine_id = uid 1, dp_disk_id = uid 60, dp_MkdirAll = (\<lambda>_. Inr ()),
     dp_Join = (\<lambda>a b. a @ ''/'' @ b), dp_MarshalIndent = (\<lambda>r. Inr (se_ID r)),
     dp_WriteFile = (\<lambda>_ _. Inr ()), dp_RFC3339 = nat_str\<rparr>"

definition ex_world :: "machine list \<Rightarrow> mem_state world" where
  "ex_world ms = \<lparr>w_db = ex_db ms, w_secrets = NewMemStore(MachineVolumeKeyPath (UUIDString (uid 1)) \<mapsto> [volumeKeyField \<mapsto> ''k'']),
     w_broker = Some NewBroker, w_calls = [], w_files = [], w_panicked = False\<rparr>"

definition ex_status :: "string \<Rightarrow> machine_status" where
  "ex_status s = \<lparr>st_MachineID = UUIDString (uid 1), st_State = s, st_Reason = [], st_Handle = ''vm-1'',
     st_GuestIP = ''10.0.0.2'', st_Boot = ''resumed'', st_DiskID = [],
     st_Snapshot = \<lparr>si_Present = True, si_CreatedAt = [], si_FCVersion = ''1.7'', si_MemBytes = 512\<rparr>\<rparr>"

definition ex_pd :: "machine_status res \<Rightarrow> mem_state poller_deps" where
  "ex_pd s = \<lparr>pd_svc = ex_deps, pd_Status = (\<lambda>_. s), pd_List = (case s of Inl e \<Rightarrow> Inl e | Inr x \<Rightarrow> Inr [x]),
     pd_ParseAddr = (\<lambda>a. Some a), pd_onRunning = True, pd_retryEnsure = Some (RetryEnsure ex_deps)\<rparr>"

lemmas ex_defs = ex_ctx_def ex_machine_def ex_host_def ex_db_def ex_spec_def ex_deps_def ex_world_def
  ex_status_def ex_pd_def

text \<open>The equations a concrete run of an operation unfolds.\<close>

lemmas store_eval = CountMachinesByUserID_def ListMachinesByUserID_def ListActiveHosts_def CreateMachine_def
  find_machine_def CreateDisk_def SetMachineDisk_def update_machine_def UpdateMachineState_def
  InsertMachineEvent_def GetNetworkPolicy_def row_of_def GetDiskByMachineID_def SetMachineRuntime_def
  SetMachineBoot_def GetMachineByID_def DeleteMachine_def DeleteSnapshot_def UpsertSnapshot_def
  ListMachinesInStates_def ListAgentTasksByMachine_def UpsertNetworkPolicy_def
lemmas secret_eval = MintMachineVolumeKey_def mem_ops_def mem_Put_def mem_Get_def mem_Delete_def
  GetMachineVolumeKey_def
lemmas create_eval = MaxPerUser_def create_name_def no_options_def nextMachineName_def resolveCreate_def
  catalog_Default_def zero_catalog_def chooseHost_def Create_setup_def compensate_def Create_def
lemmas service_eval = svc_transition_def Transition_def CanTransition_def publish_def Publish_def peers_def
  NewBroker_def ensureOnAgent_def buildEnsureRequest_def getNetworkPolicy_def call_def Let_def
  EventTransition_def EventError_def ActorAPI_def ActorPoller_def svc_fail_def getOwned_def
lemmas poller_eval = p_transition_def toError_def or_skip_def clear_snapshot_def toStopped_def toRunning_def
  retryStart_def advanceOne_def AdvanceTransitional_def sweep_unreachable_def sweep_reachable_def
  SweepRunning_def startRetryIncr_def startRetryReset_def blipIncr_def blipReset_def counter_at_def
  transitional_states_def BlipThreshold_def MaxStartRetries_def NewPoller_def bootPayload_def
  snapshotPayload_def

lemma uid_inj [simp]: "uid a = uid b \<longleftrightarrow> a = b"
  by (simp add: uid_def)

lemma Valid_uid [simp]: "Valid (uid a)"
  by (simp add: uid_def)

lemma proper_uid [simp]: "proper_uuid (uid a)"
  by (simp add: uid_def proper_uuid_def)

lemma ex_selectors [simp]:
  "dp_db ex_deps = ex_ctx" "dp_spec ex_deps = ex_spec" "dp_secrets ex_deps = mem_ops"
  "dp_machine_id ex_deps = uid 1" "dp_disk_id ex_deps = uid 60" "dp_rand ex_deps = Inr (replicate 32 7)"
  "dp_Ensure ex_deps i req = Inr ''vm-1''" "fault ex_ctx q = None" "MaxPerUser ex_spec = 2"
  "w_db (ex_world ms) = ex_db ms" "t_machines (ex_db ms) = ms" "t_disks (ex_db ms) = []"
  "t_snapshots (ex_db ms) = []" "t_policies (ex_db ms) = []" "t_tasks (ex_db ms) = []" "t_events (ex_db ms) = []"
  "m_ID (ex_machine s) = uid 1" "m_UserID (ex_machine s) = uid 101" "m_State (ex_machine s) = s"
  "w_calls (ex_world ms) = []" "pd_svc (ex_pd r) = ex_deps" "pd_Status (ex_pd r) i = r"
  "pd_onRunning (ex_pd r)" "st_State (ex_status a) = a"
  by (simp_all add: ex_defs MaxPerUser_def)

lemma ex_find [simp]: "find_machine (ex_db [ex_machine s]) (uid 1) = Some (ex_machine s)"
  by (simp add: find_machine_def)

lemma ex_initial: "reachable (ex_world []\<lparr>w_secrets := st\<rparr>, NewPoller)"
  unfolding ex_world_def ex_db_def by (simp add: reachable.init)

text \<open>The requested row of the example is a legal start of an audited path.\<close>

lemma ex_world_ok [simp]: "world_ok (ex_world [ex_machine StateRequested])"
  by (simp add: world_ok_def broker_ok_def NewBroker_inv db_inv_defs ex_world_def ex_db_def ex_machine_def
      state_log_def)

end
