(* ===== verification/Machine_Behaviour.thy ===== *)
theory Machine_Behaviour
  imports Example_World
begin

text \<open>
  What the building blocks of the lifecycle operations do when the database answers: the
  service's transition, the failure path, the ensure request and the ensure call. The
  properties of \<open>Create\<close>, \<open>Start\<close>, \<open>Stop\<close>, \<open>Destroy\<close> and the poller rest on these.
\<close>

definition no_faults :: "dbctx \<Rightarrow> bool" where
  "no_faults c = (fault c = (\<lambda>_. None))"

lemma no_faultsD [simp]: "no_faults c \<Longrightarrow> fault c q = None"
  by (simp add: no_faults_def)

lemma ex_no_faults: "no_faults ex_ctx"
  by (simp add: no_faults_def fun_eq_iff)

text \<open>The parts of the world a broker publication cannot touch.\<close>

definition same_but_db :: "'st world \<Rightarrow> 'st world \<Rightarrow> bool" where
  "same_but_db w w' = (w_secrets w' = w_secrets w \<and> w_calls w' = w_calls w \<and> w_files w' = w_files w)"

lemma same_but_db_simps [simp]:
  "same_but_db w w" "same_but_db w (w\<lparr>w_db := d\<rparr>)" "same_but_db w (publish w' x) = same_but_db w w'"
  by (auto simp: same_but_db_def)

lemma same_but_db_trans: "same_but_db a b \<Longrightarrow> same_but_db b c \<Longrightarrow> same_but_db a c"
  by (simp add: same_but_db_def)

definition set_state :: "state \<Rightarrow> string option \<Rightarrow> nat \<Rightarrow> machine \<Rightarrow> machine" where
  "set_state b le t m = m\<lparr>m_State := b, m_LastError := le, m_UpdatedAt := t\<rparr>"

lemma set_state_simps [simp]:
  "m_ID (set_state b le t m) = m_ID m" "m_UserID (set_state b le t m) = m_UserID m"
  "m_State (set_state b le t m) = b" "m_LastError (set_state b le t m) = le"
  "m_KernelRef (set_state b le t m) = m_KernelRef m" "m_RootfsRef (set_state b le t m) = m_RootfsRef m"
  "m_DiskID (set_state b le t m) = m_DiskID m" "m_HostID (set_state b le t m) = m_HostID m"
  "m_ResourceSpec (set_state b le t m) = m_ResourceSpec m" "m_Name (set_state b le t m) = m_Name m"
  "m_VmHandle (set_state b le t m) = m_VmHandle m"
  by (simp_all add: set_state_def)

text \<open>A transition of the service that goes through.\<close>

lemma svc_transition_ok:
  assumes "no_faults (dp_db dp)" "CanTransition a b" "find_machine (w_db w) i = Some m" "m_State m = a"
  shows "\<exists>w' ev t. svc_transition dp w i a b ac et pl le = (w', Inr (set_state b le t m, ev))
    \<and> find_machine (w_db w') i = Some (set_state b le t m) \<and> same_but_db w w'
    \<and> t_disks (w_db w') = t_disks (w_db w) \<and> t_policies (w_db w') = t_policies (w_db w)
    \<and> t_snapshots (w_db w') = t_snapshots (w_db w)
    \<and> t_events (w_db w') = t_events (w_db w) @ [ev] \<and> ev_MachineID ev = i
    \<and> ev_FromState ev = Some a \<and> ev_ToState ev = Some b \<and> ev_Actor ev = ac"
proof -
  let ?p = "\<lparr>tp_MachineID = i, tp_From = a, tp_To = b, tp_Actor = ac, tp_EventType = et,
    tp_Payload = pl, tp_LastError = le\<rparr>"
  obtain d' m' ev where T: "Transition (dp_db dp) (w_db w) ?p = (d', Inr (m', ev))"
    using Transition_succeeds [of ?p "dp_db dp" "w_db w" m] assms by (auto simp: no_faults_def)
  from txn.T_row [OF T] assms(3) obtain t where m': "m' = set_state b le t m"
    and d': "d' = w_db w\<lparr>t_machines := tbl_update (\<lambda>r. m_ID r = i) (set_state b le t) (t_machines (w_db w)),
       t_events := t_events (w_db w) @ [ev], t_event_seq := ev_ID ev\<rparr>"
    by (auto simp: set_state_def [abs_def])
  have "find_machine d' i = Some m'"
    using find_machine_update [OF assms(3), of "set_state b le t"] by (simp add: d' m')
  then show ?thesis using T txn.T_event [OF T] unfolding svc_transition_def
    by (intro exI [of _ "publish (w\<lparr>w_db := d'\<rparr>)
      \<lparr>u_Machine = Some m', u_Event = Some ev, u_Deleted = False, u_Shutdown = False\<rparr>"] exI [of _ ev] exI [of _ t])
       (simp add: m' [symmetric] d')
qed

text \<open>A stale expectation: the operation reports the conflict and nothing has changed.\<close>

lemma svc_transition_conflict:
  assumes "no_faults (dp_db dp)" "CanTransition a b" "find_machine (w_db w) i = Some m" "m_State m \<noteq> a"
  shows "svc_transition dp w i a b ac et pl le = (w, Inl (Sentinel ErrStateConflict))"
  using Transition_conflict [of "\<lparr>tp_MachineID = i, tp_From = a, tp_To = b, tp_Actor = ac, tp_EventType = et,
    tp_Payload = pl, tp_LastError = le\<rparr>" "dp_db dp" "w_db w"] assms
  by (simp add: svc_transition_def no_faults_def)

lemma svc_fail_ok:
  assumes "no_faults (dp_db dp)" "CanTransition a StateError" "find_machine (w_db w) i = Some m" "m_State m = a"
  shows "\<exists>w' t. svc_fail dp w i a rs = (w', Inr (set_state StateError (Some rs) t m))
    \<and> find_machine (w_db w') i = Some (set_state StateError (Some rs) t m) \<and> same_but_db w w'"
  using svc_transition_ok [OF assms, of ActorAPI EventError "Some [(''reason'', JStr rs)]" "Some rs"]
  by (fastforce simp: svc_fail_def)

lemma getOwned_ok:
  "no_faults (dp_db dp) \<Longrightarrow> find_machine (w_db w) i = Some m \<Longrightarrow> m_UserID m = u \<Longrightarrow> Valid u \<Longrightarrow>
   getOwned dp w u i = Inr m"
  by (simp add: getOwned_def GetMachineByID_def row_of_def)

text \<open>The ensure request: shape, pinned images, disk, key and policy.\<close>

definition shape_of :: "spec \<Rightarrow> machine \<Rightarrow> int \<times> int" where
  "shape_of sp m = (let r = parseResources (m_ResourceSpec m)
     in if r_Vcpus r > 0 \<and> r_MemMiB r > 0 then (r_Vcpus r, r_MemMiB r) else (s_Vcpus sp, s_MemMiB sp))"

lemma buildEnsureRequest_ok:
  assumes "no_faults (dp_db dp)" "GetMachineVolumeKey (dp_secrets dp) (w_secrets w) (UUIDString (m_ID m)) = Inr key"
  shows "\<exists>req. buildEnsureRequest dp w m kr rr = Inr req \<and> er_VolumeKeyB64 req = key
    \<and> er_KernelRef req = kr \<and> er_RootfsRef req = rr \<and> (er_Vcpus req, er_MemMiB req) = shape_of (dp_spec dp) m
    \<and> er_NetworkPolicy req = (case find (\<lambda>r. np_MachineID r = m_ID m) (t_policies (w_db w)) of
         None \<Rightarrow> Some (NetworkPolicyAllowAll, []) | Some r \<Rightarrow> Some (np_Mode r, np_Domains r))"
  using assms
  by (auto simp: buildEnsureRequest_def Let_def shape_of_def getNetworkPolicy_def GetNetworkPolicy_def row_of_def
      defaultNetworkPolicy_def toNetworkPolicy_def split: option.splits sum.splits prod.splits)

lemma find_machine_SetMachineRuntime:
  assumes "no_faults c" "find_machine d i = Some m"
  shows "\<exists>d' t. SetMachineRuntime c d i h g = Inr (d', m\<lparr>m_VmHandle := h, m_GuestIp := g,
      m_LastActiveAt := Some t, m_UpdatedAt := t\<rparr>)
    \<and> find_machine d' i = Some (m\<lparr>m_VmHandle := h, m_GuestIp := g, m_LastActiveAt := Some t, m_UpdatedAt := t\<rparr>)
    \<and> t_disks d' = t_disks d \<and> t_snapshots d' = t_snapshots d \<and> t_events d' = t_events d"
proof -
  let ?t = "now c (QSetMachineRuntime i)"
  let ?f = "\<lambda>m :: machine. m\<lparr>m_VmHandle := h, m_GuestIp := g, m_LastActiveAt := Some ?t, m_UpdatedAt := ?t\<rparr>"
  let ?d = "d\<lparr>t_machines := tbl_update (\<lambda>r. m_ID r = i) ?f (t_machines d)\<rparr>"
  have "SetMachineRuntime c d i h g = Inr (?d, ?f m)"
    using assms by (simp add: SetMachineRuntime_def update_machine_def Let_def)
  moreover have "find_machine ?d i = Some (?f m)" by (rule find_machine_update [OF assms(2)]) simp
  ultimately show ?thesis by (intro exI [of _ ?d] exI [of _ ?t]) simp
qed

lemma ensureOnAgent_ok:
  assumes "no_faults (dp_db dp)" "find_machine (w_db w) (m_ID m) = Some m"
    and "GetMachineVolumeKey (dp_secrets dp) (w_secrets w) (UUIDString (m_ID m)) = Inr key"
    and "\<And>req. dp_Ensure dp (UUIDString (m_ID m)) req = Inr handle"
  shows "\<exists>w' m' req. ensureOnAgent dp w m kr rr = (w', Inr m')
    \<and> find_machine (w_db w') (m_ID m) = Some m' \<and> m_State m' = m_State m \<and> m_ID m' = m_ID m
    \<and> m_VmHandle m' = Some handle \<and> m_UserID m' = m_UserID m \<and> m_HostID m' = m_HostID m
    \<and> m_DiskID m' = m_DiskID m \<and> m_LastError m' = m_LastError m \<and> w_secrets w' = w_secrets w \<and> t_disks (w_db w') = t_disks (w_db w)
    \<and> w_calls w' = w_calls w @ [CallEnsure (UUIDString (m_ID m)) req]
    \<and> er_VolumeKeyB64 req = key \<and> er_KernelRef req = kr \<and> er_RootfsRef req = rr
    \<and> (er_Vcpus req, er_MemMiB req) = shape_of (dp_spec dp) m"
proof -
  obtain req where req: "buildEnsureRequest dp w m kr rr = Inr req" "er_VolumeKeyB64 req = key"
    "er_KernelRef req = kr" "er_RootfsRef req = rr" "(er_Vcpus req, er_MemMiB req) = shape_of (dp_spec dp) m"
    using buildEnsureRequest_ok [OF assms(1,3)] by blast
  obtain d' t where S: "SetMachineRuntime (dp_db dp) (w_db w) (m_ID m) (Some handle) None
      = Inr (d', m\<lparr>m_VmHandle := Some handle, m_GuestIp := None, m_LastActiveAt := Some t, m_UpdatedAt := t\<rparr>)"
    "find_machine d' (m_ID m) = Some (m\<lparr>m_VmHandle := Some handle, m_GuestIp := None, m_LastActiveAt := Some t,
       m_UpdatedAt := t\<rparr>)" "t_disks d' = t_disks (w_db w)"
    using find_machine_SetMachineRuntime [OF assms(1,2)] by blast
  show ?thesis
    unfolding ensureOnAgent_def
    using req S assms(4)
    by (intro exI [of _ "(call w (CallEnsure (UUIDString (m_ID m)) req))\<lparr>w_db := d'\<rparr>"]
        exI [of _ "m\<lparr>m_VmHandle := Some handle, m_GuestIp := None, m_LastActiveAt := Some t, m_UpdatedAt := t\<rparr>"]
        exI [of _ req]) (simp add: Let_def call_def)
qed

lemma ensureOnAgent_refused:
  assumes "no_faults (dp_db dp)" "find_machine (w_db w) (m_ID m) = Some m" "CanTransition (m_State m) StateError"
    and "GetMachineVolumeKey (dp_secrets dp) (w_secrets w) (UUIDString (m_ID m)) = Inr key"
    and "\<And>req. dp_Ensure dp (UUIDString (m_ID m)) req = Inl e"
  shows "\<exists>w' t. ensureOnAgent dp w m kr rr
      = (w', Inr (set_state StateError (Some (''node-agent ensure failed: '' @ Error e)) t m))
    \<and> find_machine (w_db w') (m_ID m)
      = Some (set_state StateError (Some (''node-agent ensure failed: '' @ Error e)) t m)"
proof -
  obtain req where "buildEnsureRequest dp w m kr rr = Inr req" using buildEnsureRequest_ok [OF assms(1,4)] by blast
  with svc_fail_ok [OF assms(1,3), of "call w (CallEnsure (UUIDString (m_ID m)) req)" "m_ID m" m] assms(2,5)
  show ?thesis by (fastforce simp: ensureOnAgent_def Let_def)
qed

section \<open>The set-up part of Create\<close>

text \<open>Disk and key in place, the row as the transition to provisioning meets it.\<close>

lemma Create_setup_disk:
  assumes f: "fault (dp_db dp) (QCreateDisk (m_ID m)) = None" "fault (dp_db dp) (QSetMachineDisk (m_ID m)) = None"
    and "db_inv (w_db w)" "find_machine (w_db w) (m_ID m) = Some m"
    and "m_ID m \<notin> d_MachineID ` set (t_disks (w_db w))" "dp_disk_id dp \<notin> d_ID ` set (t_disks (w_db w))"
  shows "\<exists>d1 k d2 t. CreateDisk (dp_db dp) (dp_disk_id dp) (w_db w) (m_ID m) (int32 (r_DiskMiB r)) = Inr (d1, k)
    \<and> SetMachineDisk (dp_db dp) d1 (m_ID m) (d_ID k) = Inr (d2, m\<lparr>m_DiskID := Some (dp_disk_id dp), m_UpdatedAt := t\<rparr>)
    \<and> find_machine d2 (m_ID m) = Some (m\<lparr>m_DiskID := Some (dp_disk_id dp), m_UpdatedAt := t\<rparr>)
    \<and> t_disks d2 = t_disks (w_db w) @ [k] \<and> d_MachineID k = m_ID m \<and> d_ID k = dp_disk_id dp
    \<and> t_policies d2 = t_policies (w_db w) \<and> db_inv d2"
proof -
  let ?i = "m_ID m"
  define k where "k = \<lparr>d_ID = dp_disk_id dp, d_MachineID = ?i, d_SizeMib = int32 (r_DiskMiB r),
    d_CreatedAt = now (dp_db dp) (QCreateDisk ?i)\<rparr>"
  define d1 where "d1 = w_db w\<lparr>t_disks := t_disks (w_db w) @ [k]\<rparr>"
  define f where "f = (\<lambda>m :: machine. m\<lparr>m_DiskID := Some (dp_disk_id dp), m_UpdatedAt := now (dp_db dp) (QSetMachineDisk ?i)\<rparr>)"
  define d2 where "d2 = d1\<lparr>t_machines := tbl_update (\<lambda>r. m_ID r = ?i) f (t_machines d1)\<rparr>"
  have C: "CreateDisk (dp_db dp) (dp_disk_id dp) (w_db w) ?i (int32 (r_DiskMiB r)) = Inr (d1, k)"
    using assms by (simp add: CreateDisk_def Let_def d1_def k_def)
  have m1: "find_machine d1 ?i = Some m" using assms(4) by (simp add: d1_def)
  have S: "SetMachineDisk (dp_db dp) d1 ?i (d_ID k) = Inr (d2, f m)"
    using f m1 by (simp add: SetMachineDisk_def update_machine_def d2_def f_def d1_def k_def)
  have F: "find_machine d2 ?i = Some (f m)"
    unfolding d2_def by (rule find_machine_update [OF m1]) (simp add: f_def)
  have "owned_by (m_UserID m) ?i (w_db w)" using assms(3,4) keys_ok_owned by (simp add: db_inv_def)
  moreover have "dmoves (m_UserID m) ?i (w_db w) d2"
    using dmoves_CreateDisk [OF C, THEN conjunct1] dmoves_SetMachineDisk [OF S] by (rule dmoves_trans)
  ultimately have inv: "db_inv d2" using assms(3) by (simp add: dmoves_def)
  show ?thesis using C S F inv
    by (intro exI [of _ d1] exI [of _ k] exI [of _ d2] exI [of _ "now (dp_db dp) (QSetMachineDisk ?i)"])
       (simp add: f_def d2_def d1_def k_def)
qed

text \<open>
  The common beginning of every \<open>Create\<close> that reaches the secret store: row and disk are in
  the database \<open>d3\<close>, and what remains is the mint, the transition and the agent.
\<close>

definition create_ready :: "'st deps \<Rightarrow> 'st world \<Rightarrow> pg_uuid \<Rightarrow> bool" where
  "create_ready dp w u = (world_ok w \<and> proper_uuid (dp_machine_id dp)
     \<and> dp_machine_id dp \<notin> m_ID ` set (t_machines (w_db w)) \<and> dp_disk_id dp \<notin> d_ID ` set (t_disks (w_db w))
     \<and> int (length (filter (\<lambda>m. m_UserID m = u) (t_machines (w_db w)))) < MaxPerUser (dp_spec dp)
     \<and> list_all (\<lambda>q. fault (dp_db dp) q = None) [QCountMachinesByUserID u, QListMachinesByUserID u,
          QCreateMachine u, QCreateDisk (dp_machine_id dp), QSetMachineDisk (dp_machine_id dp)])"

definition row_inserted :: "'st deps \<Rightarrow> 'st world \<Rightarrow> pg_uuid \<Rightarrow> host \<Rightarrow> db \<Rightarrow> machine \<Rightarrow> bool" where
  "row_inserted dp w u host d m = (m_ID m = dp_machine_id dp \<and> m_UserID m = u \<and> m_State m = StateRequested
     \<and> m_HostID m = h_ID host \<and> m_DiskID m = Some (dp_disk_id dp) \<and> find_machine d (dp_machine_id dp) = Some m
     \<and> (\<exists>k \<in> set (t_disks d). d_MachineID k = dp_machine_id dp \<and> d_ID k = dp_disk_id dp)
     \<and> db_inv d \<and> frame (dp_machine_id dp) (w_db w) d \<and> t_event_seq d = t_event_seq (w_db w))"

definition Create_rest ::
  "'st deps \<Rightarrow> 'st world \<Rightarrow> machine \<Rightarrow> pg_uuid \<Rightarrow> string \<Rightarrow> string \<Rightarrow> 'st world \<times> machine res" where
  "Create_rest dp w m u kr rr =
     (case (case MintMachineVolumeKey (dp_secrets dp) (w_secrets w) (dp_rand dp) (UUIDString (m_ID m)) of
              (st, Inl e) \<Rightarrow> (w\<lparr>w_secrets := st\<rparr>, Inl (m_ID m, Errorf ''mint volume key: '' e []))
            | (st, Inr _) \<Rightarrow>
              (case svc_transition dp (w\<lparr>w_secrets := st\<rparr>) (m_ID m)
                 StateRequested StateProvisioning (ActorUser (UUIDString u)) EventTransition None None of
                 (w3, Inl e) \<Rightarrow> (w3, Inl (zero_uuid, e))
               | (w3, Inr (m3, _)) \<Rightarrow> (w3, Inr m3))) of
        (w3, Inl (held, e)) \<Rightarrow> (compensate dp w3 held, Inl e)
      | (w3, Inr m3) \<Rightarrow> ensureOnAgent dp w3 m3 kr rr)"

lemma Create_prefix:
  assumes ready: "create_ready dp w u"
    and rc: "resolveCreate (dp_spec dp) opts = Inr (rr, kr, rs, tid)"
    and host: "chooseHost (dp_db dp) (w_db w) (dp_Capacity dp) rs = (queried, Inr host)"
  shows "\<exists>d m. row_inserted dp w u host d m
    \<and> Create dp w u opts = Create_rest dp (w\<lparr>w_calls := w_calls w @ map CallCapacity queried, w_db := d\<rparr>) m u kr rr"
proof -
  let ?i = "dp_machine_id dp"
  have inv: "db_inv (w_db w)" and fresh: "?i \<notin> m_ID ` set (t_machines (w_db w))"
    "dp_disk_id dp \<notin> d_ID ` set (t_disks (w_db w))" and v: "proper_uuid ?i"
    using ready by (simp_all add: create_ready_def world_ok_def)
  have flt: "fault (dp_db dp) (QCountMachinesByUserID u) = None" "fault (dp_db dp) (QListMachinesByUserID u) = None"
    "fault (dp_db dp) (QCreateMachine u) = None" "fault (dp_db dp) (QCreateDisk ?i) = None"
    "fault (dp_db dp) (QSetMachineDisk ?i) = None"
    using ready by (simp_all add: create_ready_def)
  obtain name where nm: "create_name dp w u opts = Inr name"
    unfolding create_name_def ListMachinesByUserID_def using flt by (cases "o_Name opts = []") auto
  let ?p = "\<lparr>cm_UserID = u, cm_HostID = h_ID host, cm_Name = name, cm_KernelRef = kr, cm_RootfsRef = rr,
          cm_ResourceSpec = spec_json rs, cm_TemplateID = tid\<rparr>"
  obtain d1 m1 where C: "CreateMachine (dp_db dp) ?i (w_db w) ?p = Inr (d1, m1)" and hid: "m_HostID m1 = h_ID host"
    using flt fresh(1) find_machine_None [of "w_db w" ?i] by (simp add: CreateMachine_def Let_def)
  note cm = dmoves_CreateMachine [OF C v, simplified]
  have c1: "db_inv d1 \<and> frame ?i (w_db w) d1" using cm inv fresh(1) by (auto simp: dmoves_def owned_by_fresh)
  have f1: "find_machine d1 (m_ID m1) = Some m1"
    using cm find_machine_None [of "w_db w" ?i] by (simp add: find_machine_def find_append_row)
  let ?w1 = "w\<lparr>w_calls := w_calls w @ map CallCapacity queried, w_db := d1\<rparr>"
  have "d_MachineID ` set (t_disks (w_db w)) \<subseteq> m_ID ` set (t_machines (w_db w))"
    using inv by (simp add: db_inv_def refs_ok_def)
  with fresh(1) have nodisk: "m_ID m1 \<notin> d_MachineID ` set (t_disks (w_db ?w1))" using cm by auto
  obtain d2 k d3 t where D: "CreateDisk (dp_db dp) (dp_disk_id dp) d1 (m_ID m1) (int32 (r_DiskMiB rs)) = Inr (d2, k)"
    "SetMachineDisk (dp_db dp) d2 (m_ID m1) (d_ID k) = Inr (d3, m1\<lparr>m_DiskID := Some (dp_disk_id dp), m_UpdatedAt := t\<rparr>)"
    "find_machine d3 (m_ID m1) = Some (m1\<lparr>m_DiskID := Some (dp_disk_id dp), m_UpdatedAt := t\<rparr>)"
    "k \<in> set (t_disks d3)" "d_MachineID k = m_ID m1" "d_ID k = dp_disk_id dp"
    using Create_setup_disk [of dp m1 ?w1 rs] flt c1 f1 nodisk fresh(2) cm by auto
  let ?m2 = "m1\<lparr>m_DiskID := Some (dp_disk_id dp), m_UpdatedAt := t\<rparr>"
  have "dmoves u ?i d1 d3"
    using dmoves_CreateDisk [OF D(1), THEN conjunct1] dmoves_SetMachineDisk [OF D(2)] dmoves_trans cm by metis
  moreover have "owned_by u ?i d1" using f1 cm keys_ok_owned c1 by (metis db_inv_def)
  ultimately have d3: "db_inv d3" "frame ?i (w_db w) d3" using c1 frame_trans by (auto simp: dmoves_def)
  have "t_event_seq d2 = t_event_seq (w_db w)"
    using D(1) cm by (auto simp: CreateDisk_def Let_def split: if_splits dest!: run_query_InrD)
  then have seq: "t_event_seq d3 = t_event_seq (w_db w)"
    using D(2) by (auto simp: SetMachineDisk_def split: if_splits dest!: run_query_InrD update_machine_InrD)
  have "row_inserted dp w u host d3 ?m2"
    using D cm hid d3 seq by (auto simp: row_inserted_def)
  moreover have "Create dp w u opts = Create_rest dp (w\<lparr>w_calls := w_calls w @ map CallCapacity queried, w_db := d3\<rparr>) ?m2 u kr rr"
    using ready nm rc host C D flt
    by (simp add: Create_def Create_setup_def Create_rest_def CountMachinesByUserID_def create_ready_def Let_def
        split: prod.split sum.split)
  ultimately show ?thesis by blast
qed

text \<open>Deleting the one inserted machine gives back the database it was inserted into.\<close>

lemma delete_inserted:
  assumes "DeleteMachine c d i = Inr d'" "frame i d0 d" "db_inv d0" "i \<notin> m_ID ` set (t_machines d0)"
    "t_event_seq d = t_event_seq d0"
  shows "d' = d0"
proof -
  have id: "filter (\<lambda>r. m_ID r \<noteq> i) (t_machines d0) = t_machines d0"
    "filter (\<lambda>r. ev_MachineID r \<noteq> i) (t_events d0) = t_events d0"
    "filter (\<lambda>r. d_MachineID r \<noteq> i) (t_disks d0) = t_disks d0"
    "filter (\<lambda>r. sn_MachineID r \<noteq> i) (t_snapshots d0) = t_snapshots d0"
    "filter (\<lambda>r. np_MachineID r \<noteq> i) (t_policies d0) = t_policies d0"
    "filter (\<lambda>r. at_MachineID r \<noteq> i) (t_tasks d0) = t_tasks d0"
    using assms(3,4) unfolding db_inv_def refs_ok_def by (auto simp: filter_id_conv)
  show ?thesis
    using DeleteMachine_InrD [OF assms(1)] assms(2,5) id unfolding frame_def
    by (simp add: tbl_delete_def)
qed

end
