(* ===== verification/Machine_Claims.thy ===== *)
theory Machine_Claims
  imports Machine_Behaviour
begin

text \<open>
  The properties of the machine subsystem: what holds in every reachable state, what users
  can do to each other's machines, and what each lifecycle operation does on each of its
  branches. Each property is followed by a witness on the installation of \<open>Example_World\<close>.
\<close>

section \<open>A user's step\<close>

inductive user_step :: "pg_uuid \<Rightarrow> 'st world \<Rightarrow> 'st world \<Rightarrow> bool" for u :: pg_uuid where
  "proper_uuid (dp_machine_id dp) \<Longrightarrow> user_step u w (fst (Create dp w u opts))"
| "\<forall>j. proper_uuid (dp_machine_id (dps j)) \<Longrightarrow> user_step u w (fst (CreateUpToLimit dps w u))"
| "user_step u w (fst (Start dp w u i))"
| "user_step u w (fst (Stop dp w u i))"
| "user_step u w (fst (Destroy dp w u i force))"
| "user_step u w (fst (DestroyAll dps w u force))"
| "user_step u w (fst (Rename dp w u i nm))"
| "user_step u w (fst (SetNetworkPolicy dp w u i mode doms))"
| "user_step u w (fst (Service_DeleteNetworkPolicy dp w u i))"

definition ex_created :: "mem_state world" where
  "ex_created = fst (Create ex_deps (ex_world []\<lparr>w_secrets := NewMemStore\<rparr>) (uid 101) no_options)"

lemma ex_created_reachable: "reachable (ex_created, NewPoller)"
  unfolding ex_created_def
  by (rule reachable.step [OF ex_initial sys_step.create]) (simp add: ex_deps_def)

lemma ex_created_machines: "map (\<lambda>m. (m_ID m, m_UserID m, m_State m, m_VmHandle m)) (t_machines (w_db ex_created))
    = [(uid 1, uid 101, StateProvisioning, Some ''vm-1'')]"
  by (simp add: ex_created_def ex_defs store_eval secret_eval create_eval service_eval)

section \<open>Every reachable state\<close>



text \<open>
  C2. Publishing never panics: in every reachable state no send hit a closed channel, every
  registered subscription's channel is open, and no channel is registered twice, whatever
  interleaving of operations, subscriptions, cancellations and shutdown led there.
\<close>

theorem broker_never_panics:
  assumes "reachable (w, p)" and "w_broker w = Some b"
  shows "\<not> w_panicked w \<and> broker_inv b"
  using reachable_world_ok [OF assms(1)] assms(2) by (simp add: world_ok_def broker_ok_def)

theorem broker_never_panics_witness: "\<not> w_panicked ex_created \<and> (\<exists>b. w_broker ex_created = Some b \<and> broker_inv b)"
proof -
  have "w_broker ex_created \<noteq> None"
    by (simp add: ex_created_def ex_defs store_eval secret_eval create_eval service_eval)
  then show ?thesis using broker_never_panics [OF ex_created_reachable] by blast
qed

section \<open>Isolation between users\<close>

text \<open>
  C3. Whatever one user does, in any reachable state, the rows another user owns stay as
  they were: machines, audit events, disks, snapshots, network policies and agent tasks.
\<close>

theorem user_isolation:
  assumes "reachable (w, p)" and "user_step u w w'" and "v \<noteq> u"
  shows "tenant_view v (w_db w') = tenant_view v (w_db w)"
proof -
  have ok: "world_ok w" using reachable_world_ok [OF assms(1)] by simp
  from assms(2) show ?thesis
    by cases (simp_all add: ok assms(3) start.isolates stop.isolates destroy.isolates rename.isolates
        set_policy.isolates del_policy.isolates Create_ok [OF surjective_pairing]
        CreateUpToLimit_ok [OF surjective_pairing] DestroyAll_ok [OF surjective_pairing])
qed

theorem user_isolation_witness:
  "tenant_view (uid 101) (w_db (fst (Destroy ex_deps ex_created (uid 102) (uid 1) True)))
     = tenant_view (uid 101) (w_db ex_created)"
  by (rule user_isolation [OF ex_created_reachable, of "uid 102"]) (simp_all add: user_step.intros)

text \<open>
  A machine of somebody else is indistinguishable from one that does not exist: every
  operation on it answers \<open>ErrNoMachine\<close> and changes nothing, and no call reaches the agent.
\<close>

theorem foreign_machine_hidden:
  assumes "find_machine (w_db w) i = Some m" and "m_UserID m \<noteq> u"
    and "fault (dp_db dp) (QGetMachineByID i) = None"
  shows "Start dp w u i = (w, Inl (Sentinel ErrNoMachine))
    \<and> Stop dp w u i = (w, Inl (Sentinel ErrNoMachine))
    \<and> Destroy dp w u i force = (w, Inl (Sentinel ErrNoMachine))
    \<and> Rename dp w u i nm = (w, Inl (Sentinel ErrNoMachine))
    \<and> SetNetworkPolicy dp w u i mode doms = (w, Inl (Sentinel ErrNoMachine))
    \<and> Service_DeleteNetworkPolicy dp w u i = (w, Inl (Sentinel ErrNoMachine))
    \<and> NetworkPolicyFor dp w u i = Inl (Sentinel ErrNoMachine)"
proof -
  have "getOwned dp w u i = Inl (Sentinel ErrNoMachine)"
    using assms by (auto simp: getOwned_def GetMachineByID_def row_of_def)
  then show ?thesis
    by (simp add: start.guarded stop.guarded destroy.guarded rename.guarded set_policy.guarded
        del_policy.guarded NetworkPolicyFor_def)
qed

theorem foreign_machine_hidden_witness:
  "Destroy ex_deps (ex_world [ex_machine StateRunning]) (uid 102) (uid 1) True
     = (ex_world [ex_machine StateRunning], Inl (Sentinel ErrNoMachine))"
  using foreign_machine_hidden [of "ex_world [ex_machine StateRunning]" "uid 1" "ex_machine StateRunning"
      "uid 102" ex_deps True]
  by (simp add: ex_defs find_machine_def)

section \<open>The guarded transition\<close>

text \<open>
  C5. \<open>Transition\<close> without database faults: it succeeds exactly when the step is in the
  table and the row is in the expected state. Then the row carries the new state and error,
  one event with both states, actor and payload is appended, and nothing else changes.
  Otherwise no row and no event changes.
\<close>

theorem Transition_correct:
  assumes "fault c = (\<lambda>_. None)"
  shows "case Transition c d p of
      (d', Inr (m', ev)) \<Rightarrow>
        CanTransition (tp_From p) (tp_To p)
        \<and> (\<exists>m. find_machine d (tp_MachineID p) = Some m \<and> m_State m = tp_From p
             \<and> m_State m' = tp_To p \<and> m_LastError m' = tp_LastError p \<and> m_UserID m' = m_UserID m)
        \<and> find_machine d' (tp_MachineID p) = Some m'
        \<and> t_events d' = t_events d @ [ev] \<and> ev_MachineID ev = tp_MachineID p
        \<and> ev_FromState ev = Some (tp_From p) \<and> ev_ToState ev = Some (tp_To p) \<and> ev_Actor ev = tp_Actor p
        \<and> frame (tp_MachineID p) d d'
    | (d', Inl e) \<Rightarrow>
        d' = d
        \<and> (if CanTransition (tp_From p) (tp_To p)
           then e = Sentinel ErrStateConflict
             \<and> (\<forall>m. find_machine d (tp_MachineID p) = Some m \<longrightarrow> m_State m \<noteq> tp_From p)
           else e = ErrInvalidTransition (state_string (tp_From p)) (state_string (tp_To p)))"
proof -
  obtain d' r where T: "Transition c d p = (d', r)" by fastforce
  show ?thesis
  proof (cases r)
    case (Inl e)
    show ?thesis
    proof (cases "CanTransition (tp_From p) (tp_To p)")
      case True
      then have no: "\<forall>m. find_machine d (tp_MachineID p) = Some m \<longrightarrow> m_State m \<noteq> tp_From p"
        using Transition_succeeds [OF True assms] T Inl by fastforce
      with Transition_conflict [OF True assms no] True show ?thesis by simp
    qed (simp add: Transition_illegal)
  next
    case (Inr x)
    then obtain m' ev where ok: "Transition c d p = (d', Inr (m', ev))" using T by (cases x) auto
    from txn.T_row [OF ok] obtain m t where m: "find_machine d (tp_MachineID p) = Some m" "m_State m = tp_From p"
      and m': "m' = m\<lparr>m_State := tp_To p, m_LastError := tp_LastError p, m_UpdatedAt := t\<rparr>"
      and d': "d' = d\<lparr>t_machines := tbl_update (\<lambda>r. m_ID r = tp_MachineID p)
                    (\<lambda>m. m\<lparr>m_State := tp_To p, m_LastError := tp_LastError p, m_UpdatedAt := t\<rparr>)
                    (t_machines d), t_events := t_events d @ [ev], t_event_seq := ev_ID ev\<rparr>" by blast
    have "find_machine d' (tp_MachineID p) = Some m'"
      using find_machine_update [OF m(1)] by (simp add: d' m')
    moreover have "frame (tp_MachineID p) d d'" using txn.T_frame [OF ok] by (simp add: frame_def)
    ultimately show ?thesis
      using ok m m' d' txn.T_legal [OF ok] txn.T_event [OF ok] by simp
  qed
qed

theorem Transition_correct_witness:
  "\<exists>d' m' ev. Transition ex_ctx (ex_db [ex_machine StateStopped])
      \<lparr>tp_MachineID = uid 1, tp_From = StateStopped, tp_To = StateStarting, tp_Actor = ''a'',
       tp_EventType = [], tp_Payload = None, tp_LastError = None\<rparr> = (d', Inr (m', ev))
    \<and> t_events d' = [ev] \<and> m_State m' = StateStarting"
  using Transition_correct [of ex_ctx "ex_db [ex_machine StateStopped]"
     "\<lparr>tp_MachineID = uid 1, tp_From = StateStopped, tp_To = StateStarting, tp_Actor = ''a'',
       tp_EventType = [], tp_Payload = None, tp_LastError = None\<rparr>"]
  by (auto simp: ex_defs find_machine_def CanTransition_def split: prod.splits sum.splits)

text \<open>
  Two actors race for the same machine with the same expected state: once the first
  transition has committed, the second, run on the resulting database, always loses with
  \<open>ErrStateConflict\<close> and changes nothing.
\<close>

theorem Transition_race:
  assumes "Transition c d p = (d1, Inr (m1, ev1))"
    and "tp_MachineID q = tp_MachineID p" "tp_From q = tp_From p" "CanTransition (tp_From q) (tp_To q)"
    and "fault c' = (\<lambda>_. None)"
  shows "Transition c' d1 q = (d1, Inl (Sentinel ErrStateConflict))"
proof (rule Transition_conflict [OF assms(4,5)])
  have legal: "CanTransition (tp_From p) (tp_To p)" using txn.T_legal [OF assms(1)] .
  then have "tp_To p \<noteq> tp_From p" by (cases "tp_From p") (auto simp: CanTransition_def)
  moreover have "find_machine d1 (tp_MachineID p) = Some m1"
    using txn.T_row [OF assms(1)] find_machine_update by fastforce
  moreover have "m_State m1 = tp_To p" using txn.T_row [OF assms(1)] by auto
  ultimately show "\<forall>m. find_machine d1 (tp_MachineID q) = Some m \<longrightarrow> m_State m \<noteq> tp_From q"
    using assms(2,3) by simp
qed

definition ex_params :: "state \<Rightarrow> transition_params" where
  "ex_params t = \<lparr>tp_MachineID = uid 1, tp_From = StateRunning, tp_To = t, tp_Actor = ''a'',
     tp_EventType = [], tp_Payload = None, tp_LastError = None\<rparr>"

theorem Transition_race_witness:
  "Transition ex_ctx (fst (Transition ex_ctx (ex_db [ex_machine StateRunning]) (ex_params StateHibernating)))
     (ex_params StateError)
   = (fst (Transition ex_ctx (ex_db [ex_machine StateRunning]) (ex_params StateHibernating)),
      Inl (Sentinel ErrStateConflict))"
proof -
  obtain d1 m1 ev1 where "Transition ex_ctx (ex_db [ex_machine StateRunning]) (ex_params StateHibernating)
      = (d1, Inr (m1, ev1))"
    using Transition_succeeds [of "ex_params StateHibernating" ex_ctx "ex_db [ex_machine StateRunning]"]
    by (auto simp: ex_defs ex_params_def find_machine_def CanTransition_def)
  from Transition_race [OF this, of "ex_params StateError" ex_ctx] this show ?thesis
    by (simp add: ex_params_def CanTransition_def ex_ctx_def)
qed

section \<open>Create\<close>

definition machines_of :: "pg_uuid \<Rightarrow> db \<Rightarrow> machine list" where
  "machines_of u d = filter (\<lambda>m. m_UserID m = u) (t_machines d)"

lemma length_machines_of_frame:
  assumes "frame i d d'" "distinct (map m_ID (t_machines d'))" "i \<notin> m_ID ` set (t_machines d)"
  shows "length (machines_of u d') \<le> length (machines_of u d) + 1"
proof -
  let ?P = "\<lambda>m. m_UserID m = u"
  have split: "length (filter ?P xs) \<le> length (filter ?P (filter (\<lambda>m. m_ID m \<noteq> i) xs)) + length (filter (\<lambda>m. m_ID m = i) xs)"
    for xs by (induction xs) auto
  have "length (filter (\<lambda>m. m_ID m = i) xs) \<le> 1" if "distinct (map m_ID xs)" for xs
    using that
  proof (induction xs)
    case (Cons x xs)
    have "filter (\<lambda>m. m_ID m = i) xs = []" if "m_ID x = i"
      using that Cons.prems by (simp add: filter_empty_conv image_iff) metis
    with Cons show ?case by auto
  qed simp
  from this [OF assms(2)] split [of "t_machines d'"]
  have "length (machines_of u d') \<le> length (filter ?P (filter (\<lambda>m. m_ID m \<noteq> i) (t_machines d'))) + 1"
    by (simp add: machines_of_def)
  also have "filter (\<lambda>m. m_ID m \<noteq> i) (t_machines d') = t_machines d"
    using assms(1,3) by (auto simp: frame_def filter_id_conv)
  finally show ?thesis by (simp add: machines_of_def)
qed

text \<open>
  \<open>Create\<close> respects the per-user cap: a user at or over the cap is refused with
  \<open>ErrMachineLimit\<close> and nothing happens; and no call of \<open>Create\<close>, whatever it meets, takes a
  user from below the cap to above it.
\<close>

theorem Create_cap:
  assumes "world_ok w" and "proper_uuid (dp_machine_id dp)"
  shows "(fault (dp_db dp) (QCountMachinesByUserID u) = None
       \<and> int (length (machines_of u (w_db w))) \<ge> MaxPerUser (dp_spec dp)
       \<longrightarrow> Create dp w u opts = (w, Inl (Sentinel ErrMachineLimit)))
    \<and> int (length (machines_of u (w_db (fst (Create dp w u opts)))))
        \<le> max (int (length (machines_of u (w_db w)))) (MaxPerUser (dp_spec dp))"
proof
  show "fault (dp_db dp) (QCountMachinesByUserID u) = None
       \<and> int (length (machines_of u (w_db w))) \<ge> MaxPerUser (dp_spec dp)
       \<longrightarrow> Create dp w u opts = (w, Inl (Sentinel ErrMachineLimit))"
    by (simp add: Create_def CountMachinesByUserID_def machines_of_def)
  obtain w' r where C: "Create dp w u opts = (w', r)" by fastforce
  then show "int (length (machines_of u (w_db (fst (Create dp w u opts)))))
        \<le> max (int (length (machines_of u (w_db w)))) (MaxPerUser (dp_spec dp))"
  proof (cases rule: Create_cases)
    case early
    with C show ?thesis by simp
  next
    case (row n name rr kr rs tid host queried d2 m)
    have n: "n = int (length (machines_of u (w_db w)))"
      using row(1) by (auto simp: CountMachinesByUserID_def machines_of_def dest!: run_query_InrD)
    have fresh: "dp_machine_id dp \<notin> m_ID ` set (t_machines (w_db w))"
      using dmoves_CreateMachine [OF row(6) assms(2)] by simp
    from Create_moves [OF C assms(2)] show ?thesis
    proof
      assume "dp_machine_id dp \<notin> m_ID ` set (t_machines (w_db w)) \<and> moves u (dp_machine_id dp) w w'"
      then have "db_inv (w_db w') \<and> frame (dp_machine_id dp) (w_db w) (w_db w')"
        using assms(1) by (auto simp: moves_def dmoves_def world_ok_def owned_by_fresh)
      then have "length (machines_of u (w_db w')) \<le> length (machines_of u (w_db w)) + 1"
        using length_machines_of_frame fresh by (auto simp: db_inv_def keys_ok_def)
      with n row(2) C show ?thesis by simp
    qed (use C in simp)
  qed
qed

theorem Create_cap_witness:
  "int (length (machines_of (uid 101) (w_db (fst (Create ex_deps (ex_world [ex_machine StateRequested]) (uid 101) no_options))))) \<le> 2"
  using Create_cap [of "ex_world [ex_machine StateRequested]" ex_deps "uid 101" no_options]
  by (simp add: machines_of_def)

text \<open>
  C8. When the user is below the cap, the options resolve, a host is found and the database,
  the secret store and the agent answer, \<open>Create\<close> returns the new machine: owned by the user, in
  \<open>provisioning\<close>, placed on the chosen host, with its disk attached, its key in the secret
  store, and the agent asked once to ensure it with exactly that key and the resolved images.
\<close>

theorem Create_succeeds:
  assumes "no_faults (dp_db dp)" "create_ready dp w u" "dp_secrets dp = mem_ops"
    and rc: "resolveCreate (dp_spec dp) opts = Inr (rr, kr, rs, tid)"
    and host: "chooseHost (dp_db dp) (w_db w) (dp_Capacity dp) rs = (queried, Inr host)"
    and key: "dp_rand dp = Inr key" and ens: "\<And>i req. dp_Ensure dp i req = Inr handle"
  shows "\<exists>w' m k req. Create dp w u opts = (w', Inr m) \<and> find_machine (w_db w') (dp_machine_id dp) = Some m
    \<and> m_UserID m = u \<and> m_State m = StateProvisioning \<and> m_HostID m = h_ID host \<and> m_VmHandle m = Some handle
    \<and> k \<in> set (t_disks (w_db w')) \<and> d_MachineID k = dp_machine_id dp \<and> m_DiskID m = Some (d_ID k)
    \<and> GetMachineVolumeKey mem_ops (w_secrets w') (UUIDString (dp_machine_id dp)) = Inr (b64_encode key)
    \<and> w_calls w' = w_calls w @ map CallCapacity queried @ [CallEnsure (UUIDString (dp_machine_id dp)) req]
    \<and> er_VolumeKeyB64 req = b64_encode key \<and> er_KernelRef req = kr \<and> er_RootfsRef req = rr"
proof -
  let ?i = "dp_machine_id dp"
  obtain d m2 where row: "row_inserted dp w u host d m2"
    and C: "Create dp w u opts = Create_rest dp (w\<lparr>w_calls := w_calls w @ map CallCapacity queried, w_db := d\<rparr>) m2 u kr rr"
    using Create_prefix [OF assms(2) rc host] by blast
  have id: "m_ID m2 = ?i" using row by (simp add: row_inserted_def)
  let ?st = "(w_secrets w)(MachineVolumeKeyPath (UUIDString ?i) \<mapsto> [volumeKeyField \<mapsto> b64_encode key])"
  let ?w2 = "w\<lparr>w_calls := w_calls w @ map CallCapacity queried, w_db := d, w_secrets := ?st\<rparr>"
  have "CanTransition StateRequested StateProvisioning" by (simp add: CanTransition_def)
  from svc_transition_ok [OF assms(1) this, of ?w2 ?i m2 "ActorUser (UUIDString u)" EventTransition None None] row
  obtain w3 ev t where T: "svc_transition dp ?w2 ?i StateRequested StateProvisioning
       (ActorUser (UUIDString u)) EventTransition None None = (w3, Inr (set_state StateProvisioning None t m2, ev))"
    "find_machine (w_db w3) ?i = Some (set_state StateProvisioning None t m2)" "same_but_db ?w2 w3"
    "t_disks (w_db w3) = t_disks d" by (auto simp: row_inserted_def)
  let ?m3 = "set_state StateProvisioning None t m2"
  have K: "GetMachineVolumeKey (dp_secrets dp) (w_secrets w3) (UUIDString (m_ID ?m3)) = Inr (b64_encode key)"
    using T(3) id by (simp add: same_but_db_def assms(3) GetMachineVolumeKey_def mem_ops_def mem_Get_def)
  obtain w4 m4 req where E: "ensureOnAgent dp w3 ?m3 kr rr = (w4, Inr m4)"
    "find_machine (w_db w4) ?i = Some m4" "m_State m4 = StateProvisioning" "m_VmHandle m4 = Some handle"
    "m_UserID m4 = u" "m_HostID m4 = h_ID host" "m_DiskID m4 = Some (dp_disk_id dp)" "w_secrets w4 = w_secrets w3"
    "t_disks (w_db w4) = t_disks d" "w_calls w4 = w_calls w3 @ [CallEnsure (UUIDString ?i) req]"
    "er_VolumeKeyB64 req = b64_encode key" "er_KernelRef req = kr" "er_RootfsRef req = rr"
    using ensureOnAgent_ok [OF assms(1) _ K ens, of kr rr] T(2,4) row by (auto simp: row_inserted_def)
  have "Create dp w u opts = (w4, Inr m4)"
    using C T(1) E(1) id
    by (simp add: Create_rest_def MintMachineVolumeKey_def key assms(3) mem_ops_def mem_Put_def Let_def)
  moreover have "w_calls w3 = w_calls w @ map CallCapacity queried" using T(3) by (simp add: same_but_db_def)
  moreover obtain k where "k \<in> set (t_disks d)" "d_MachineID k = ?i" "d_ID k = dp_disk_id dp"
    using row by (auto simp: row_inserted_def)
  ultimately show ?thesis using E K id
    by (intro exI [of _ w4] exI [of _ m4] exI [of _ k] exI [of _ req]) (simp add: assms(3))
qed

lemma ex_ready: "create_ready ex_deps (ex_world []) (uid 101)"
  by (simp add: create_ready_def world_ok_def broker_ok_def NewBroker_inv db_inv_defs ex_world_def)

lemma ex_resolve: "resolveCreate ex_spec no_options
    = Inr (''r1'', ''k1'', \<lparr>r_Vcpus = 2, r_MemMiB = 512, r_DiskMiB = 1024\<rparr>, None)"
  by (simp add: resolveCreate_def ex_spec_def catalog_Default_def zero_catalog_def)

lemma ex_choose: "chooseHost ex_ctx (ex_db ms) f r = ([], Inr ex_host)"
  by (simp add: chooseHost_def ListActiveHosts_def ex_db_def ex_host_def)

theorem Create_succeeds_witness:
  "\<exists>w' m. Create ex_deps (ex_world []) (uid 101) no_options = (w', Inr m) \<and> m_State m = StateProvisioning"
  using Create_succeeds [of ex_deps "ex_world []" "uid 101" no_options "''r1''" "''k1''"
      "\<lparr>r_Vcpus = 2, r_MemMiB = 512, r_DiskMiB = 1024\<rparr>" None "[]" ex_host "replicate 32 7" "''vm-1''"]
    ex_ready ex_resolve ex_choose
  by (auto simp: no_faults_def fun_eq_iff)

text \<open>
  C9. When the volume key cannot be minted, the compensation of \<open>Create\<close> takes the inserted
  row and its disk out again: the database is exactly what it was, and the error says why.
\<close>

theorem Create_compensates:
  assumes ready: "create_ready dp w u" and del: "fault (dp_db dp) (QDeleteMachine (dp_machine_id dp)) = None"
    and rc: "resolveCreate (dp_spec dp) opts = Inr (rr, kr, rs, tid)"
    and host: "chooseHost (dp_db dp) (w_db w) (dp_Capacity dp) rs = (queried, Inr host)"
    and mint: "MintMachineVolumeKey (dp_secrets dp) (w_secrets w) (dp_rand dp) (UUIDString (dp_machine_id dp)) = (st, Inl e)"
  shows "\<exists>w'. Create dp w u opts = (w', Inl (Errorf ''mint volume key: '' e [])) \<and> w_db w' = w_db w"
proof -
  let ?i = "dp_machine_id dp"
  obtain d m where row: "row_inserted dp w u host d m"
    and C: "Create dp w u opts = Create_rest dp (w\<lparr>w_calls := w_calls w @ map CallCapacity queried, w_db := d\<rparr>) m u kr rr"
    using Create_prefix [OF ready rc host] by blast
  obtain d' where D: "DeleteMachine (dp_db dp) d ?i = Inr d'" using del by (simp add: DeleteMachine_def)
  have "d' = w_db w"
    using delete_inserted [OF D, of "w_db w"] row ready
    by (simp add: row_inserted_def create_ready_def world_ok_def)
  with C mint D row show ?thesis by (simp add: Create_rest_def compensate_def row_inserted_def)
qed

definition ex_norand :: "mem_state deps" where
  "ex_norand = ex_deps\<lparr>dp_rand := Inl (ErrorText ''entropy'')\<rparr>"

lemma ex_norand_ready: "create_ready ex_norand (ex_world []) (uid 101)"
  using ex_ready by (simp add: create_ready_def ex_norand_def)

theorem Create_compensates_witness:
  "\<exists>w' e. Create ex_norand (ex_world []) (uid 101) no_options = (w', Inl e) \<and> w_db w' = ex_db []"
  using Create_compensates [of ex_norand "ex_world []" "uid 101" no_options "''r1''" "''k1''"
      "\<lparr>r_Vcpus = 2, r_MemMiB = 512, r_DiskMiB = 1024\<rparr>" None "[]" ex_host]
    ex_norand_ready ex_resolve ex_choose
  by (auto simp: ex_norand_def MintMachineVolumeKey_def)

text \<open>
  The compensation does not cover the last set-up step. When the commit of the transition to
  \<open>provisioning\<close> fails, \<open>Create\<close> reports the error, but the variable the deferred function
  reads has been overwritten with the zero row, so it deletes nothing: the machine stays
  behind in \<open>requested\<close>, a state \<open>Start\<close> refuses, and the user's slot stays taken.
\<close>

theorem Create_orphan:
  assumes ready: "create_ready dp w u"
    and flt: "fault (dp_db dp) = (\<lambda>q. if q = QCommit (dp_machine_id dp) StateProvisioning then Some t else None)"
    and rc: "resolveCreate (dp_spec dp) opts = Inr (rr, kr, rs, tid)"
    and host: "chooseHost (dp_db dp) (w_db w) (dp_Capacity dp) rs = (queried, Inr host)"
    and mint: "MintMachineVolumeKey (dp_secrets dp) (w_secrets w) (dp_rand dp) (UUIDString (dp_machine_id dp)) = (st, Inr key)"
    and u: "Valid u"
  shows "\<exists>w' m. Create dp w u opts = (w', Inl (Errorf ''commit: '' (ErrorText t) []))
    \<and> find_machine (w_db w') (dp_machine_id dp) = Some m \<and> m_State m = StateRequested
    \<and> Start dp w' u (dp_machine_id dp) = (w', Inl (Sentinel ErrInvalidState))"
proof -
  let ?i = "dp_machine_id dp"
  obtain d m where row: "row_inserted dp w u host d m"
    and C: "Create dp w u opts = Create_rest dp (w\<lparr>w_calls := w_calls w @ map CallCapacity queried, w_db := d\<rparr>) m u kr rr"
    using Create_prefix [OF ready rc host] by blast
  let ?w2 = "w\<lparr>w_calls := w_calls w @ map CallCapacity queried, w_db := d, w_secrets := st\<rparr>"
  let ?p = "\<lparr>tp_MachineID = ?i, tp_From = StateRequested, tp_To = StateProvisioning,
    tp_Actor = ActorUser (UUIDString u), tp_EventType = EventTransition, tp_Payload = None, tp_LastError = None\<rparr>"
  obtain d2 where T: "Transition (dp_db dp) d ?p = (d2, Inl (Errorf ''commit: '' (ErrorText t) []))"
    using row by (simp add: Transition_def UpdateMachineState_def update_machine_def InsertMachineEvent_def flt
        row_inserted_def CanTransition_def Let_def find_machine_def find_key_tbl_update split: option.splits)
  from Transition_InlD [OF T] have d2: "find_machine d2 ?i = Some m" "db_inv d2"
    using row db_inv_seq [of d "t_event_seq d + 1"] by (auto simp: row_inserted_def)
  have "proper_uuid i" if "i \<in> m_ID ` set (t_machines d2)" for i
    using d2(2) that by (auto simp: db_inv_def keys_ok_def)
  from this [of zero_uuid] have "zero_uuid \<notin> m_ID ` set (t_machines d2)" by (auto simp: zero_uuid_def proper_uuid_def)
  then have "compensate dp (?w2\<lparr>w_db := d2\<rparr>) zero_uuid = ?w2\<lparr>w_db := d2\<rparr>"
    using DeleteMachine_absent [OF _ d2(2)] by (fastforce simp: compensate_def split: sum.splits)
  then have "Create dp w u opts = (?w2\<lparr>w_db := d2\<rparr>, Inl (Errorf ''commit: '' (ErrorText t) []))"
    using C T mint row by (simp add: Create_rest_def svc_transition_def row_inserted_def)
  moreover have "Start dp (?w2\<lparr>w_db := d2\<rparr>) u ?i = (?w2\<lparr>w_db := d2\<rparr>, Inl (Sentinel ErrInvalidState))"
    using d2 row u flt by (simp add: Start_def getOwned_def GetMachineByID_def row_of_def row_inserted_def)
  ultimately show ?thesis using d2 row by (auto simp: row_inserted_def)
qed

definition ex_badcommit :: "mem_state deps" where
  "ex_badcommit = ex_deps\<lparr>dp_db := ex_ctx\<lparr>fault := (\<lambda>q. if q = QCommit (uid 1) StateProvisioning then Some ''lost'' else None)\<rparr>\<rparr>"

lemma ex_badcommit_ready: "create_ready ex_badcommit (ex_world []) (uid 101)"
  using ex_ready by (simp add: create_ready_def ex_badcommit_def)

theorem Create_orphan_witness:
  "\<exists>w' e m. Create ex_badcommit (ex_world []) (uid 101) no_options = (w', Inl e)
     \<and> find_machine (w_db w') (uid 1) = Some m \<and> m_State m = StateRequested"
proof -
  have "chooseHost (dp_db ex_badcommit) (ex_db ms) f r = ([], Inr ex_host)" for ms f r
    by (simp add: chooseHost_def ListActiveHosts_def ex_db_def ex_host_def ex_badcommit_def)
  then show ?thesis
    using Create_orphan [of ex_badcommit "ex_world []" "uid 101" "''lost''" no_options "''r1''" "''k1''"
      "\<lparr>r_Vcpus = 2, r_MemMiB = 512, r_DiskMiB = 1024\<rparr>" None "[]" ex_host] ex_badcommit_ready ex_resolve
    by (auto simp: ex_badcommit_def MintMachineVolumeKey_def mem_ops_def mem_Put_def Let_def)
qed

end
