(* ===== verification/Lifecycle_Claims.thy ===== *)
theory Lifecycle_Claims
  imports Machine_Behaviour
begin

text \<open>
  The properties of \<open>Start\<close>, \<open>Stop\<close> and \<open>Destroy\<close> on every branch, and of the session
  export that guards a destroy.
\<close>

section \<open>Start and Stop\<close>

text \<open>What remains of a \<open>Start\<close> once its transition has committed.\<close>

lemma Start_reduces:
  assumes "no_faults (dp_db dp)" "find_machine (w_db w) i = Some m" "m_UserID m = u" "Valid u"
    and st: "m_State m \<in> {StateStopped, StateError}"
  shows "\<exists>w1 t. Start dp w u i = ensureOnAgent dp w1 (set_state StateStarting None t m) (m_KernelRef m) (m_RootfsRef m)
    \<and> find_machine (w_db w1) i = Some (set_state StateStarting None t m) \<and> same_but_db w w1"
proof -
  have own: "getOwned dp w u i = Inr m" by (rule getOwned_ok [OF assms(1-4)])
  have mid: "m_ID m = i" using find_machine_Some [OF assms(2)] by simp
  have "CanTransition (m_State m) StateStarting" using st by (auto simp: CanTransition_def)
  from svc_transition_ok [OF assms(1) this assms(2) refl, of "ActorUser (UUIDString u)" EventTransition None None]
  obtain w1 ev t where T: "svc_transition dp w i (m_State m) StateStarting (ActorUser (UUIDString u)) EventTransition None None
      = (w1, Inr (set_state StateStarting None t m, ev))"
    "find_machine (w_db w1) i = Some (set_state StateStarting None t m)" "same_but_db w w1" by blast
  have "Start dp w u i = ensureOnAgent dp w1 (set_state StateStarting None t m) (m_KernelRef m) (m_RootfsRef m)"
    using own st T(1) mid by (auto simp: Start_def)
  with T show ?thesis by blast
qed


lemma ex_key: "GetMachineVolumeKey mem_ops (w_secrets (ex_world ms)) (UUIDString (uid 1)) = Inr ''k''"
  by (simp add: ex_world_def GetMachineVolumeKey_def mem_ops_def mem_Get_def)


text \<open>
  C12. \<open>Stop\<close> by the owner with the database answering. Only a running machine can be
  stopped; it moves to \<open>hibernating\<close> and the agent is asked once to hibernate it, never to
  power it off; if the agent refuses, the machine ends in \<open>error\<close> with the agent's reason.
\<close>

theorem Stop_correct:
  assumes "no_faults (dp_db dp)" "find_machine (w_db w) i = Some m" "m_UserID m = u" "Valid u"
  shows "(m_State m \<noteq> StateRunning \<longrightarrow> Stop dp w u i = (w, Inl (Sentinel ErrInvalidState)))
    \<and> (m_State m = StateRunning \<longrightarrow>
        (\<exists>w' m'. Stop dp w u i = (w', Inr m') \<and> find_machine (w_db w') i = Some m'
          \<and> w_calls w' = w_calls w @ [CallStop (UUIDString i) StopModeHibernate]
          \<and> (case dp_Stop dp (UUIDString i) StopModeHibernate of
               Inr _ \<Rightarrow> m_State m' = StateHibernating
             | Inl e \<Rightarrow> m_State m' = StateError \<and> m_LastError m' = Some (''node-agent stop failed: '' @ Error e))))"
proof (intro conjI impI)
  have own: "getOwned dp w u i = Inr m" by (rule getOwned_ok [OF assms(1-4)])
  show "Stop dp w u i = (w, Inl (Sentinel ErrInvalidState))" if "m_State m \<noteq> StateRunning"
    using own that by (simp add: Stop_def)
  assume st: "m_State m = StateRunning"
  have mid: "m_ID m = i" using find_machine_Some [OF assms(2)] by simp
  have "CanTransition StateRunning StateHibernating" by (simp add: CanTransition_def)
  from svc_transition_ok [OF assms(1) this assms(2) st, of "ActorUser (UUIDString u)" EventTransition None None]
  obtain w1 ev t where T: "svc_transition dp w i StateRunning StateHibernating (ActorUser (UUIDString u)) EventTransition None None
      = (w1, Inr (set_state StateHibernating None t m, ev))"
    "find_machine (w_db w1) i = Some (set_state StateHibernating None t m)" "same_but_db w w1" by blast
  let ?w2 = "call w1 (CallStop (UUIDString i) StopModeHibernate)"
  have calls: "w_calls ?w2 = w_calls w @ [CallStop (UUIDString i) StopModeHibernate]"
    using T(3) by (simp add: same_but_db_def call_def)
  show "\<exists>w' m'. Stop dp w u i = (w', Inr m') \<and> find_machine (w_db w') i = Some m'
          \<and> w_calls w' = w_calls w @ [CallStop (UUIDString i) StopModeHibernate]
          \<and> (case dp_Stop dp (UUIDString i) StopModeHibernate of
               Inr _ \<Rightarrow> m_State m' = StateHibernating
             | Inl e \<Rightarrow> m_State m' = StateError \<and> m_LastError m' = Some (''node-agent stop failed: '' @ Error e))"
  proof (cases "dp_Stop dp (UUIDString i) StopModeHibernate")
    case (Inl e)
    have "CanTransition StateHibernating StateError" by (simp add: CanTransition_def)
    from svc_fail_ok [OF assms(1) this, of ?w2 i "set_state StateHibernating None t m" "''node-agent stop failed: '' @ Error e"] T(2)
    obtain w3 t3 where F: "svc_fail dp ?w2 i StateHibernating (''node-agent stop failed: '' @ Error e)
        = (w3, Inr (set_state StateError (Some (''node-agent stop failed: '' @ Error e)) t3 (set_state StateHibernating None t m)))"
      "find_machine (w_db w3) i = Some (set_state StateError (Some (''node-agent stop failed: '' @ Error e)) t3 (set_state StateHibernating None t m))"
      "same_but_db ?w2 w3" by auto
    with own st T(1) mid Inl calls show ?thesis by (auto simp: Stop_def Let_def same_but_db_def)
  next
    case (Inr x)
    with own st T mid calls show ?thesis by (auto simp: Stop_def Let_def)
  qed
qed

theorem Stop_correct_witness:
  "\<exists>w' m'. Stop ex_deps (ex_world [ex_machine StateRunning]) (uid 101) (uid 1) = (w', Inr m')
     \<and> m_State m' = StateHibernating"
proof -
  have "dp_Stop ex_deps i md = Inr ()" for i md by (simp add: ex_deps_def)
  then show ?thesis
    using Stop_correct [of ex_deps "ex_world [ex_machine StateRunning]" "uid 1" "ex_machine StateRunning" "uid 101"]
      ex_no_faults by auto
qed

section \<open>Destroy\<close>

definition no_rows :: "pg_uuid \<Rightarrow> db \<Rightarrow> bool" where
  "no_rows i d = (i \<notin> m_ID ` set (t_machines d) \<and> i \<notin> ev_MachineID ` set (t_events d)
     \<and> i \<notin> d_MachineID ` set (t_disks d) \<and> i \<notin> sn_MachineID ` set (t_snapshots d)
     \<and> i \<notin> np_MachineID ` set (t_policies d) \<and> i \<notin> at_MachineID ` set (t_tasks d))"

lemma no_rows_delete: "DeleteMachine c d i = Inr d' \<Longrightarrow> no_rows i d' \<and> frame i d d'"
  by (drule DeleteMachine_InrD) (auto simp: no_rows_def frame_def tbl_delete_def)

lemma Destroy_finish_ok:
  assumes "fault (dp_db dp) (QDeleteMachine (m_ID m)) = None" "dp_secrets dp = mem_ops"
  shows "\<exists>w'. Destroy_finish dp w m = (w', Inr ()) \<and> no_rows (m_ID m) (w_db w') \<and> frame (m_ID m) (w_db w) (w_db w')
    \<and> w_secrets w' = (w_secrets w)(MachineVolumeKeyPath (UUIDString (m_ID m)) := None)
    \<and> w_calls w' = w_calls w \<and> w_files w' = w_files w"
proof -
  obtain d where D: "DeleteMachine (dp_db dp) (w_db w) (m_ID m) = Inr d" using assms(1) by (simp add: DeleteMachine_def)
  from no_rows_delete [OF D] D assms(2) show ?thesis
    by (simp add: Destroy_finish_def mem_ops_def mem_Delete_def Let_def)
qed


lemma ex_export: "exportSessions ex_deps (ex_world [ex_machine s]) (ex_machine s)
    = (ex_world [ex_machine s], Inr \<lparr>x_Total = 0, x_Exported = 0, x_Failed = []\<rparr>)"
  by (simp add: exportSessions_def ListAgentTasksByMachine_def)


section \<open>No session is lost\<close>

lemma export_loop_files:
  assumes "export_loop dp dir m ts (w, res) = (w', res')" "x_Failed res' = []"
  shows "x_Failed res = [] \<and> set (w_files w) \<subseteq> set (w_files w') \<and> x_Exported res' = x_Exported res + length ts
    \<and> (\<forall>t \<in> set ts. \<exists>data. dp_MarshalIndent dp (export_record dp m t) = Inr data
         \<and> (export_path dp dir m t, data) \<in> set (w_files w'))"
  using assms
proof (induction ts arbitrary: w res)
  case (Cons t ts)
  define s where "s = (case dp_MarshalIndent dp (export_record dp m t) of
        Inl e \<Rightarrow> (w, res\<lparr>x_Failed := x_Failed res @ [UUIDString (at_ID t) @ '': '' @ Error e]\<rparr>)
      | Inr data \<Rightarrow>
        (case dp_WriteFile dp (export_path dp dir m t) data of
           Inl e \<Rightarrow> (w, res\<lparr>x_Failed := x_Failed res @ [UUIDString (at_ID t) @ '': '' @ Error e]\<rparr>)
         | Inr _ \<Rightarrow> (w\<lparr>w_files := w_files w @ [(export_path dp dir m t, data)]\<rparr>,
                     res\<lparr>x_Exported := x_Exported res + 1\<rparr>)))"
  obtain w1 r1 where s: "s = (w1, r1)" by fastforce
  have step: "export_loop dp dir m (t # ts) (w, res) = export_loop dp dir m ts s" by (simp add: s_def)
  note IH = Cons.IH [of w1 r1] Cons.prems
  have r1: "x_Failed r1 = []" "set (w_files w1) \<subseteq> set (w_files w')" "x_Exported res' = x_Exported r1 + length ts"
    "\<forall>t \<in> set ts. \<exists>data. dp_MarshalIndent dp (export_record dp m t) = Inr data
         \<and> (export_path dp dir m t, data) \<in> set (w_files w')"
    using IH step s by auto
  from r1(1) s obtain data where "dp_MarshalIndent dp (export_record dp m t) = Inr data" "x_Failed res = []"
    "w1 = w\<lparr>w_files := w_files w @ [(export_path dp dir m t, data)]\<rparr>" "r1 = res\<lparr>x_Exported := x_Exported res + 1\<rparr>"
    unfolding s_def by (auto split: sum.splits)
  with r1 show ?case by auto
qed simp

text \<open>
  C14. No session is lost: a \<open>Destroy\<close> without force that succeeds has first written a file for
  every agent task of the machine, holding that task's record.
\<close>

theorem Destroy_exports_all:
  assumes "Destroy dp w u i False = (w', Inr ())" and "t \<in> set (t_tasks (w_db w))" and "at_MachineID t = i"
  shows "\<exists>m dir data. find_machine (w_db w) i = Some m \<and> dp_MarshalIndent dp (export_record dp m t) = Inr data
    \<and> (export_path dp dir m t, data) \<in> set (w_files w')"
proof -
  obtain m where own: "getOwned dp w u i = Inr m"
    using assms(1) by (cases "getOwned dp w u i") (auto simp: Destroy_def)
  note m = getOwned_InrD [OF own]
  obtain w1 xr where x: "exportSessions dp w m = (w1, xr)" by fastforce
  have nb: "export_blocks False xr = None" and files: "set (w_files w1) \<subseteq> set (w_files w')"
  proof -
    have "w_files (fst (Destroy_finish dp (call w1 a) m)) = w_files w1" for a
      by (simp add: Destroy_finish_def Let_def call_def split: sum.splits)
    then have ff: "w_files w2 = w_files w1" if "Destroy_finish dp (call w1 a) m = (w2, r)" for a w2 r
      using that by (metis fst_conv)
    show "export_blocks False xr = None" "set (w_files w1) \<subseteq> set (w_files w')"
      using assms(1) own x
      by (auto simp: Destroy_def Let_def split: option.splits sum.splits if_splits dest!: ff)
  qed
  from nb obtain res where res: "xr = Inr res" "x_Failed res = []"
    by (cases xr) (auto simp: export_blocks_def export_ok_def split: if_splits)
  obtain rows where rows: "ListAgentTasksByMachine (dp_db dp) (w_db w) (m_ID m) = Inr rows"
    using x res by (cases "ListAgentTasksByMachine (dp_db dp) (w_db w) (m_ID m)") (auto simp: exportSessions_def)
  have t: "t \<in> set rows" using rows assms(2,3) m by (auto simp: ListAgentTasksByMachine_def dest!: run_query_InrD)
  then have "rows \<noteq> []" by auto
  then obtain dir where "export_loop dp dir m rows (w, \<lparr>x_Total = length rows, x_Exported = 0, x_Failed = []\<rparr>) = (w1, res)"
    using x res rows by (auto simp: exportSessions_def Let_def split: sum.splits prod.splits if_splits)
  from export_loop_files [OF this res(2)] t files m show ?thesis by blast
qed

definition ex_task :: agent_task where
  "ex_task = \<lparr>at_ID = uid 70, at_MachineID = uid 1, at_UserID = uid 101, at_Provider = ''p'', at_Project = ''q'',
     at_Prompt = ''do'', at_Status = ''done'', at_AgentSessionID = [], at_Usage = ''{}'', at_ResultSummary = [],
     at_Error = [], at_CreatedAt = 3, at_StartedAt = None, at_EndedAt = None\<rparr>"

definition ex_tasks_world :: "mem_state world" where
  "ex_tasks_world = (ex_world [ex_machine StateStopped])\<lparr>w_db := (ex_db [ex_machine StateStopped])\<lparr>t_tasks := [ex_task]\<rparr>\<rparr>"

theorem Destroy_exports_all_witness:
  "\<exists>w' m dir data. Destroy ex_deps ex_tasks_world (uid 101) (uid 1) False = (w', Inr ())
     \<and> (export_path ex_deps dir m ex_task, data) \<in> set (w_files w')"
proof -
  have "snd (Destroy ex_deps ex_tasks_world (uid 101) (uid 1) False) = Inr ()"
    by (simp add: Destroy_def getOwned_def store_eval exportSessions_def ex_tasks_world_def ex_task_def ex_defs
        export_blocks_def export_ok_def Destroy_finish_def secret_eval Let_def export_record_def)
  then obtain w' where "Destroy ex_deps ex_tasks_world (uid 101) (uid 1) False = (w', Inr ())"
    by (metis prod.collapse)
  moreover from Destroy_exports_all [OF this, of ex_task] obtain m dir data where
    "(export_path ex_deps dir m ex_task, data) \<in> set (w_files w')"
    by (auto simp: ex_tasks_world_def ex_task_def)
  ultimately show ?thesis by blast
qed

lemma collapse_unsafe_safe: "list_all safe_filename_char (collapse_unsafe b s)"
  by (induction b s rule: collapse_unsafe.induct) (auto simp: safe_filename_char_def)

lemma collapse_unsafe_id: "list_all safe_filename_char s \<Longrightarrow> collapse_unsafe b s = s"
  by (induction s arbitrary: b) auto

text \<open>
  The file name part the export derives from a machine name is never empty and contains
  only letters, digits, dot, underscore and dash, whatever the user named the machine: no
  separator can move the export out of its directory. Names that are already safe are kept as they are.
\<close>

theorem sanitizeFilenamePart_safe:
  "sanitizeFilenamePart s \<noteq> [] \<and> list_all safe_filename_char (sanitizeFilenamePart s)
    \<and> CHR ''/'' \<notin> set (sanitizeFilenamePart s)
    \<and> (s \<noteq> [] \<and> list_all safe_filename_char s \<longrightarrow> sanitizeFilenamePart s = s)"
proof -
  have all: "list_all safe_filename_char (sanitizeFilenamePart s)"
    using collapse_unsafe_safe [of False s]
    by (simp add: sanitizeFilenamePart_def Let_def safe_filename_char_def is_alnum_def is_letter_def is_lower_def is_upper_def is_digit_def)
  moreover have "\<not> safe_filename_char (CHR ''/'')"
    by (simp add: safe_filename_char_def is_alnum_def is_letter_def is_lower_def is_upper_def is_digit_def)
  ultimately have "CHR ''/'' \<notin> set (sanitizeFilenamePart s)" by (auto simp: list_all_iff)
  with all show ?thesis by (auto simp: sanitizeFilenamePart_def Let_def collapse_unsafe_id)
qed

theorem sanitizeFilenamePart_safe_witness:
  "sanitizeFilenamePart ''web-1'' = ''web-1''"
  using sanitizeFilenamePart_safe [of "''web-1''"]
  by (simp add: safe_filename_char_def is_alnum_def is_letter_def is_lower_def is_upper_def is_digit_def)

end
