(* ===== verification/Poller_Claims.thy ===== *)
theory Poller_Claims
  imports Machine_Behaviour
begin

text \<open>
  The properties of the poller's passes. \<open>pview i\<close> is what a pass can do to machine \<open>i\<close>: its
  row, its snapshot, its two counters. The work on other machines of the pass leaves it
  alone, so the effect of a whole pass on a machine is the effect of its own iteration.
\<close>

section \<open>A pass, seen from one machine\<close>

definition pview :: "pg_uuid \<Rightarrow> 'st world \<times> poller \<Rightarrow> machine option \<times> snapshot list \<times> int \<times> int" where
  "pview i wp = (find_machine (w_db (fst wp)) i,
     filter (\<lambda>s. sn_MachineID s = i) (t_snapshots (w_db (fst wp))),
     counter_at (blipCount (snd wp)) (UUIDString i), counter_at (startRetryCount (snd wp)) (UUIDString i))"

lemma fold_one:
  assumes "m \<in> set ms" "distinct (map k ms)"
    and inv: "\<And>wp x. I wp \<Longrightarrow> I (f wp x)"
    and other: "\<And>wp x. I wp \<Longrightarrow> x \<in> set ms \<Longrightarrow> k x \<noteq> k m \<Longrightarrow> obs (f wp x) = obs wp"
    and "I wp"
  shows "\<exists>wp1. I wp1 \<and> obs wp1 = obs wp \<and> obs (foldl f wp ms) = obs (f wp1 m)"
proof -
  obtain xs ys where ms: "ms = xs @ m # ys" using assms(1) by (meson split_list)
  have keep: "I (foldl f v zs) \<and> obs (foldl f v zs) = obs v" if "I v" "set zs \<subseteq> {x \<in> set ms. k x \<noteq> k m}" for v zs
    using that by (induction zs arbitrary: v) (auto simp: inv other)
  have "set xs \<subseteq> {x \<in> set ms. k x \<noteq> k m}" "set ys \<subseteq> {x \<in> set ms. k x \<noteq> k m}"
    using assms(2) by (auto simp: ms image_iff)
  with keep [OF assms(5), of xs] keep [of "f (foldl f wp xs) m" ys] inv show ?thesis
    by (intro exI [of _ "foldl f wp xs"]) (simp add: ms)
qed

lemma filter_eq_key: "filter (\<lambda>r. k r \<noteq> j) xs = filter (\<lambda>r. k r \<noteq> j) ys \<Longrightarrow> i \<noteq> j \<Longrightarrow>
    filter (\<lambda>r. k r = i) xs = filter (\<lambda>r. k r = i) ys"
proof -
  assume a: "filter (\<lambda>r. k r \<noteq> j) xs = filter (\<lambda>r. k r \<noteq> j) ys" "i \<noteq> j"
  have "filter (\<lambda>r. k r = i) zs = filter (\<lambda>r. k r = i) (filter (\<lambda>r. k r \<noteq> j) zs)" for zs
    using a(2) by (auto intro: filter_cong)
  with a(1) show ?thesis by metis
qed

lemma find_as_filter: "find (\<lambda>r. k r = i) xs = (case filter (\<lambda>r. k r = i) xs of [] \<Rightarrow> None | r # _ \<Rightarrow> Some r)"
  by (induction xs) auto

lemma frame_view:
  assumes "frame j d d'" "i \<noteq> j"
  shows "find_machine d' i = find_machine d i"
    "filter (\<lambda>s. sn_MachineID s = i) (t_snapshots d') = filter (\<lambda>s. sn_MachineID s = i) (t_snapshots d)"
proof -
  have "filter (\<lambda>m. m_ID m = i) (t_machines d') = filter (\<lambda>m. m_ID m = i) (t_machines d)"
    using assms by (intro filter_eq_key [of m_ID j]) (auto simp: frame_def)
  then show "find_machine d' i = find_machine d i" by (simp add: find_machine_def find_as_filter)
  show "filter (\<lambda>s. sn_MachineID s = i) (t_snapshots d') = filter (\<lambda>s. sn_MachineID s = i) (t_snapshots d)"
    using assms by (intro filter_eq_key [of sn_MachineID j]) (auto simp: frame_def)
qed

lemma moves_frame:
  assumes "\<And>u. moves u i w w'" "world_ok w"
  shows "frame i (w_db w) (w_db w')"
proof -
  have "\<exists>u. owned_by u i (w_db w)"
  proof (cases "find_machine (w_db w) i")
    case None
    then show ?thesis by (auto simp: owned_by_def find_machine_None)
  next
    case (Some m)
    then show ?thesis using assms(2) keys_ok_owned by (auto simp: world_ok_def db_inv_def)
  qed
  with assms show ?thesis by (auto simp: moves_def dmoves_def world_ok_def)
qed

lemma counter_at_update [simp]:
  "counter_at (c(i \<mapsto> n)) j = (if j = i then n else counter_at c j)"
  "counter_at (c(i := None)) j = (if j = i then 0 else counter_at c j)"
  by (simp_all add: counter_at_def)

lemma blip_simps [simp]:
  "blipCount (startRetryReset p i) = blipCount p" "blipCount (fst (startRetryIncr p i)) = blipCount p"
  "startRetryCount (blipReset p i) = startRetryCount p" "startRetryCount (fst (blipIncr p i)) = startRetryCount p"
  by (simp_all add: startRetryReset_def startRetryIncr_def blipReset_def blipIncr_def Let_def)

lemma advanceOne_counters:
  "blipCount (snd (advanceOne pd wp x)) = blipCount (snd wp)
   \<and> (j \<noteq> UUIDString (m_ID x) \<longrightarrow>
        counter_at (startRetryCount (snd (advanceOne pd wp x))) j = counter_at (startRetryCount (snd wp)) j)"
  by (auto simp: advanceOne_def Let_def toRunning_def retryStart_def startRetryIncr_def startRetryReset_def
      split: prod.splits sum.splits option.splits)

lemma proper_ids:
  "world_ok w \<Longrightarrow> x \<in> set (t_machines (w_db w)) \<Longrightarrow> proper_uuid (m_ID x)"
  by (simp add: world_ok_def db_inv_def keys_ok_def)

lemma advanceOne_other:
  assumes "wired pd" "world_ok (fst wp)" "proper_uuid (m_ID x)" "proper_uuid i" "m_ID x \<noteq> i"
  shows "pview i (advanceOne pd wp x) = pview i wp"
proof -
  have "frame (m_ID x) (w_db (fst wp)) (w_db (fst (advanceOne pd wp x)))"
    using moves_frame [of "m_ID x" "fst wp", OF _ assms(2)] advanceOne_moves [OF assms(1), of _ x "fst wp" "snd wp"] by simp
  moreover have "UUIDString i \<noteq> UUIDString (m_ID x)" using UUIDString_inj assms(3-5) by metis
  ultimately show ?thesis
    using frame_view [of "m_ID x" _ _ i] assms(5) advanceOne_counters [of pd wp x "UUIDString i"]
    by (simp add: pview_def)
qed

lemma listed:
  assumes "no_faults c" "keys_ok d" "find_machine d i = Some m" "m_State m \<in> set ss"
  obtains ms where "ListMachinesInStates c d ss = Inr ms" "m \<in> set ms" "distinct (map m_ID ms)"
    "set ms \<subseteq> set (t_machines d)"
proof -
  let ?ms = "sort_key m_UpdatedAt (filter (\<lambda>m. m_State m \<in> set ss) (t_machines d))"
  have "distinct (map m_ID (filter (\<lambda>m. m_State m \<in> set ss) (t_machines d)))"
    using assms(2) by (simp add: keys_ok_def distinct_map_filter)
  then have "distinct (map m_ID ?ms)" by (simp add: distinct_map inj_on_def)
  moreover have "m \<in> set ?ms" using assms(3,4) find_machine_Some by auto
  moreover have "ListMachinesInStates c d ss = Inr ?ms" using assms(1) by (simp add: ListMachinesInStates_def)
  ultimately show ?thesis using that [of ?ms] by auto
qed

lemma AdvanceTransitional_view:
  assumes "wired pd" "no_faults (dp_db (pd_svc pd))" "world_ok w"
    and m: "find_machine (w_db w) i = Some m" "Transitional (m_State m)"
  shows "\<exists>w1 p1. world_ok w1 \<and> pview i (w1, p1) = pview i (w, p)
    \<and> pview i (AdvanceTransitional pd (w, p)) = pview i (advanceOne pd (w1, p1) m)"
proof -
  have mid: "m_ID m = i" and mem: "m \<in> set (t_machines (w_db w))" using find_machine_Some [OF m(1)] by auto
  have "m_State m \<in> set transitional_states" using m(2) by (cases "m_State m") (auto simp: transitional_states_def)
  then obtain ms where ms: "ListMachinesInStates (dp_db (pd_svc pd)) (w_db w) transitional_states = Inr ms"
    "m \<in> set ms" "distinct (map m_ID ms)" "set ms \<subseteq> set (t_machines (w_db w))"
    using listed [OF assms(2) _ m(1), of transitional_states] assms(3) by (auto simp: world_ok_def db_inv_def)
  have I: "world_ok (fst (advanceOne pd wp x))" if "world_ok (fst wp)" for wp x
    using moves_any_ok [of "m_ID x" "fst wp", OF _ that] advanceOne_moves [OF assms(1), of _ x "fst wp" "snd wp"] by simp
  have other: "pview i (advanceOne pd wp x) = pview i wp"
    if "world_ok (fst wp)" "x \<in> set ms" "m_ID x \<noteq> m_ID m" for wp x
    using advanceOne_other [OF assms(1) that(1)] that ms(4) proper_ids [OF assms(3)] mem mid by blast
  from fold_one [of m ms m_ID "\<lambda>wp. world_ok (fst wp)" "advanceOne pd" "pview i" "(w, p)", OF ms(2,3) I other]
  obtain w1 p1 where "world_ok w1" "pview i (w1, p1) = pview i (w, p)"
    "pview i (foldl (advanceOne pd) (w, p) ms) = pview i (advanceOne pd (w1, p1) m)"
    using assms(3) by auto
  then show ?thesis using ms(1) by (auto simp: AdvanceTransitional_def)
qed

section \<open>One iteration\<close>

lemma p_transition_svc:
  "p_transition pd w m a b ac et pl le = fst (svc_transition (pd_svc pd) w (m_ID m) a b ac et pl le)"
  by (simp add: p_transition_def svc_transition_def split: prod.splits sum.splits)

lemma p_transition_ok:
  assumes "no_faults (dp_db (pd_svc pd))" "CanTransition a b" "find_machine (w_db w) (m_ID m) = Some m0" "m_State m0 = a"
  shows "\<exists>t. find_machine (w_db (p_transition pd w m a b ac et pl le)) (m_ID m) = Some (set_state b le t m0)
    \<and> t_snapshots (w_db (p_transition pd w m a b ac et pl le)) = t_snapshots (w_db w)"
  using svc_transition_ok [OF assms, of ac et pl le] by (auto simp: p_transition_svc)

lemma toError_ok:
  assumes "no_faults (dp_db (pd_svc pd))" "CanTransition a StateError" "find_machine (w_db w) (m_ID m) = Some m0" "m_State m0 = a"
  shows "\<exists>t. find_machine (w_db (toError pd w m a rs)) (m_ID m) = Some (set_state StateError (Some rs) t m0)
    \<and> t_snapshots (w_db (toError pd w m a rs)) = t_snapshots (w_db w)"
  unfolding toError_def by (rule p_transition_ok [OF assms])

lemma RetryEnsure_db [simp]: "w_db (fst (RetryEnsure dp w m)) = w_db w"
  by (simp add: RetryEnsure_def split: sum.splits)

definition boot_timeout :: "error \<Rightarrow> string" where
  "boot_timeout e = ''machine did not become reachable after '' @ itoa MaxStartRetries @ '' start attempts: '' @ Error e"

text \<open>One unreachable poll of a booting machine, through a whole pass.\<close>

lemma unreachable_pass:
  assumes "wired pd" "no_faults (dp_db (pd_svc pd))" "world_ok w"
    and m: "find_machine (w_db w) i = Some m" "m_State m = StateProvisioning \<or> m_State m = StateStarting"
    and st: "pd_Status pd (UUIDString i) = Inl e" "\<not> errors_Is e ErrUnknownMachine"
  shows "if counter_at (startRetryCount p) (UUIDString i) + 1 < MaxStartRetries
    then pview i (AdvanceTransitional pd (w, p)) = (Some m, filter (\<lambda>s. sn_MachineID s = i) (t_snapshots (w_db w)),
        counter_at (blipCount p) (UUIDString i), counter_at (startRetryCount p) (UUIDString i) + 1)
    else \<exists>t. pview i (AdvanceTransitional pd (w, p)) = (Some (set_state StateError (Some (boot_timeout e)) t m),
        filter (\<lambda>s. sn_MachineID s = i) (t_snapshots (w_db w)), counter_at (blipCount p) (UUIDString i), 0)"
proof -
  have mid: "m_ID m = i" using find_machine_Some [OF m(1)] by simp
  have tr: "Transitional (m_State m)" "CanTransition (m_State m) StateError" using m(2) by (auto simp: CanTransition_def)
  obtain w1 p1 where v: "world_ok w1" "pview i (w1, p1) = pview i (w, p)"
    "pview i (AdvanceTransitional pd (w, p)) = pview i (advanceOne pd (w1, p1) m)"
    using AdvanceTransitional_view [OF assms(1-3) m(1) tr(1)] by blast
  have f1: "find_machine (w_db (call w1 a)) (m_ID m) = Some m" for a using v(2) m(1) mid by (simp add: pview_def)
  from toError_ok [OF assms(2) tr(2) f1 refl, of "CallStatus (UUIDString i)" "boot_timeout e"]
  obtain t where err: "find_machine (w_db (toError pd (call w1 (CallStatus (UUIDString i))) m (m_State m) (boot_timeout e))) i
      = Some (set_state StateError (Some (boot_timeout e)) t m)"
    "t_snapshots (w_db (toError pd (call w1 (CallStatus (UUIDString i))) m (m_State m) (boot_timeout e))) = t_snapshots (w_db w1)"
    using mid by auto
  have A: "advanceOne pd (w1, p1) m = retryStart pd (call w1 (CallStatus (UUIDString i))) p1 m (m_State m) e"
    using st m(2) mid by (simp add: advanceOne_def Let_def)
  let ?W = "call w1 (CallStatus (UUIDString i))"
  have ens: "w_db (case pd_retryEnsure pd of None \<Rightarrow> ?W | Some r \<Rightarrow> fst (r ?W m)) = w_db w1"
    using assms(1) by (auto simp: wired_def)
  have cnt: "counter_at (startRetryCount p1) (UUIDString i) = counter_at (startRetryCount p) (UUIDString i)"
    "counter_at (blipCount p1) (UUIDString i) = counter_at (blipCount p) (UUIDString i)"
    "filter (\<lambda>s. sn_MachineID s = i) (t_snapshots (w_db w1)) = filter (\<lambda>s. sn_MachineID s = i) (t_snapshots (w_db w))"
    using v(2) by (simp_all add: pview_def)
  show ?thesis
  proof (cases "counter_at (startRetryCount p) (UUIDString i) + 1 < MaxStartRetries")
    case True
    have "retryStart pd ?W p1 m (m_State m) e
        = (case pd_retryEnsure pd of None \<Rightarrow> ?W | Some r \<Rightarrow> fst (r ?W m), fst (startRetryIncr p1 (UUIDString i)))"
      using True cnt(1) mid by (simp add: retryStart_def startRetryIncr_def Let_def split: option.split)
    with True v(3) A ens f1 cnt mid show ?thesis by (simp add: pview_def startRetryIncr_def Let_def)
  next
    case False
    have "retryStart pd ?W p1 m (m_State m) e
        = (toError pd ?W m (m_State m) (boot_timeout e), startRetryReset (fst (startRetryIncr p1 (UUIDString i))) (UUIDString i))"
      using False cnt(1) mid by (simp add: retryStart_def startRetryIncr_def Let_def boot_timeout_def)
    with False v(3) A err cnt show ?thesis
      by (auto simp: pview_def startRetryReset_def startRetryIncr_def Let_def)
  qed
qed

text \<open>The sweep, seen from one running machine.\<close>

definition sweep_iteration :: "'st poller_deps \<Rightarrow> 'st world \<times> poller \<Rightarrow> machine \<Rightarrow> 'st world \<times> poller" where
  "sweep_iteration pd = (case pd_List pd of
       Inl e \<Rightarrow> sweep_unreachable pd e
     | Inr statuses \<Rightarrow> sweep_reachable pd (foldl (\<lambda>bm st. bm(st_MachineID st \<mapsto> st)) Map.empty statuses))"

lemma sweep_iteration_moves: "moves u (m_ID x) (fst wp) (fst (sweep_iteration pd wp x))"
  using sweep_unreachable_moves [of u x "fst wp" pd _ "snd wp"] sweep_reachable_moves [of u x "fst wp" pd _ "snd wp"]
  by (simp add: sweep_iteration_def split: sum.splits)

lemma sweep_iteration_other:
  assumes "world_ok (fst wp)" "proper_uuid (m_ID x)" "proper_uuid i" "m_ID x \<noteq> i"
  shows "pview i (sweep_iteration pd wp x) = pview i wp"
proof -
  have "frame (m_ID x) (w_db (fst wp)) (w_db (fst (sweep_iteration pd wp x)))"
    using moves_frame [of "m_ID x" "fst wp", OF sweep_iteration_moves assms(1)] .
  moreover have "UUIDString i \<noteq> UUIDString (m_ID x)" using UUIDString_inj assms(2-4) by metis
  then have "counter_at (blipCount (snd (sweep_iteration pd wp x))) (UUIDString i) = counter_at (blipCount (snd wp)) (UUIDString i)
      \<and> startRetryCount (snd (sweep_iteration pd wp x)) = startRetryCount (snd wp)"
    by (auto simp: sweep_iteration_def sweep_unreachable_def sweep_reachable_def blipIncr_def blipReset_def Let_def
        split: sum.splits prod.splits option.splits)
  ultimately show ?thesis
    using frame_view [of "m_ID x" _ _ i] assms(4) by (simp add: pview_def)
qed

lemma SweepRunning_view:
  assumes "no_faults (dp_db (pd_svc pd))" "world_ok w"
    and m: "find_machine (w_db w) i = Some m" "m_State m = StateRunning"
  shows "\<exists>w1 p1. world_ok w1 \<and> pview i (w1, p1) = pview i (w, p)
    \<and> pview i (SweepRunning pd (w, p)) = pview i (sweep_iteration pd (w1, p1) m)"
proof -
  have mid: "m_ID m = i" and mem: "m \<in> set (t_machines (w_db w))" using find_machine_Some [OF m(1)] by auto
  obtain ms where ms: "ListMachinesInStates (dp_db (pd_svc pd)) (w_db w) [StateRunning] = Inr ms"
    "m \<in> set ms" "distinct (map m_ID ms)" "set ms \<subseteq> set (t_machines (w_db w))"
    using listed [OF assms(1) _ m(1), of "[StateRunning]"] assms(2) m(2) by (auto simp: world_ok_def db_inv_def)
  have I: "world_ok (fst (sweep_iteration pd wp x))" if "world_ok (fst wp)" for wp x
    by (rule moves_any_ok [OF sweep_iteration_moves that])
  have other: "pview i (sweep_iteration pd wp x) = pview i wp"
    if "world_ok (fst wp)" "x \<in> set ms" "m_ID x \<noteq> m_ID m" for wp x
    using sweep_iteration_other [OF that(1)] that ms(4) proper_ids [OF assms(2)] mem mid by blast
  from fold_one [of m ms m_ID "\<lambda>wp. world_ok (fst wp)" "sweep_iteration pd" "pview i" "(call w CallList, p)",
      OF ms(2,3) I other]
  obtain w1 p1 where "world_ok w1" "pview i (w1, p1) = pview i (call w CallList, p)"
    "pview i (foldl (sweep_iteration pd) (call w CallList, p) ms) = pview i (sweep_iteration pd (w1, p1) m)"
    using assms(2) by auto
  moreover have "ms \<noteq> []" using ms(2) by auto
  then have "SweepRunning pd (w, p) = foldl (sweep_iteration pd) (call w CallList, p) ms"
    using ms(1) by (simp add: SweepRunning_def sweep_iteration_def Let_def split: sum.split)
  ultimately show ?thesis by (auto simp: pview_def)
qed

definition blip_reason :: "error \<Rightarrow> string" where
  "blip_reason e = ''node-agent unreachable during running sweep: '' @ Error e"

lemma blip_pass:
  assumes "no_faults (dp_db (pd_svc pd))" "world_ok w" "find_machine (w_db w) i = Some m" "m_State m = StateRunning"
    and l: "pd_List pd = Inl e"
  shows "if counter_at (blipCount p) (UUIDString i) + 1 < BlipThreshold
    then pview i (SweepRunning pd (w, p)) = (Some m, filter (\<lambda>s. sn_MachineID s = i) (t_snapshots (w_db w)),
        counter_at (blipCount p) (UUIDString i) + 1, counter_at (startRetryCount p) (UUIDString i))
    else \<exists>t. pview i (SweepRunning pd (w, p)) = (Some (set_state StateError (Some (blip_reason e)) t m),
        filter (\<lambda>s. sn_MachineID s = i) (t_snapshots (w_db w)), 0, counter_at (startRetryCount p) (UUIDString i))"
proof -
  have mid: "m_ID m = i" using find_machine_Some [OF assms(3)] by simp
  obtain w1 p1 where v: "world_ok w1" "pview i (w1, p1) = pview i (w, p)"
    "pview i (SweepRunning pd (w, p)) = pview i (sweep_iteration pd (w1, p1) m)"
    using SweepRunning_view [OF assms(1-4)] by blast
  have f1: "find_machine (w_db w1) (m_ID m) = Some m" using v(2) assms(3) mid by (simp add: pview_def)
  have "CanTransition StateRunning StateError" by (simp add: CanTransition_def)
  from toError_ok [OF assms(1) this f1 assms(4), of "blip_reason e"]
  obtain t where err: "find_machine (w_db (toError pd w1 m StateRunning (blip_reason e))) i
      = Some (set_state StateError (Some (blip_reason e)) t m)"
    "t_snapshots (w_db (toError pd w1 m StateRunning (blip_reason e))) = t_snapshots (w_db w1)"
    using mid by auto
  have cnt: "counter_at (startRetryCount p1) (UUIDString i) = counter_at (startRetryCount p) (UUIDString i)"
    "counter_at (blipCount p1) (UUIDString i) = counter_at (blipCount p) (UUIDString i)"
    "filter (\<lambda>s. sn_MachineID s = i) (t_snapshots (w_db w1)) = filter (\<lambda>s. sn_MachineID s = i) (t_snapshots (w_db w))"
    using v(2) by (simp_all add: pview_def)
  have S: "sweep_iteration pd (w1, p1) m =
      (if counter_at (blipCount p1) (UUIDString i) + 1 < BlipThreshold then (w1, fst (blipIncr p1 (UUIDString i)))
       else (toError pd w1 m StateRunning (blip_reason e), blipReset (fst (blipIncr p1 (UUIDString i))) (UUIDString i)))"
    using l mid by (simp add: sweep_iteration_def sweep_unreachable_def blipIncr_def Let_def blip_reason_def)
  show ?thesis using v(3) S f1 err cnt mid
    by (auto simp: blipIncr_def blipReset_def Let_def pview_def)
qed

section \<open>Retries and blips are bounded\<close>

text \<open>
  A booting machine whose agent cannot be reached survives exactly two polls and fails at
  the third: with a clear counter, after one and after two passes its row is unchanged, and
  the third pass moves it to \<open>error\<close> with the reason and clears its counter, so that a
  machine is never stuck in \<open>provisioning\<close> or \<open>starting\<close> while its agent is away.
\<close>

theorem start_retries_bounded:
  assumes pd: "wired pd" "no_faults (dp_db (pd_svc pd))" and ok: "world_ok w"
    and m: "find_machine (w_db w) i = Some m" "m_State m = StateProvisioning \<or> m_State m = StateStarting"
    and st: "pd_Status pd (UUIDString i) = Inl e" "\<not> errors_Is e ErrUnknownMachine"
    and fresh: "counter_at (startRetryCount p) (UUIDString i) = 0"
  shows "let wp1 = AdvanceTransitional pd (w, p); wp2 = AdvanceTransitional pd wp1; wp3 = AdvanceTransitional pd wp2 in
    find_machine (w_db (fst wp1)) i = Some m \<and> find_machine (w_db (fst wp2)) i = Some m
    \<and> (\<exists>t. find_machine (w_db (fst wp3)) i = Some (set_state StateError (Some (boot_timeout e)) t m))
    \<and> counter_at (startRetryCount (snd wp3)) (UUIDString i) = 0"
proof -
  obtain w1 p1 where wp1: "AdvanceTransitional pd (w, p) = (w1, p1)" by fastforce
  have 1: "find_machine (w_db w1) i = Some m" "counter_at (startRetryCount p1) (UUIDString i) = 1" "world_ok w1"
    using unreachable_pass [OF pd ok m st, of p] fresh wp1 AdvanceTransitional_ok [OF pd(1), of "(w, p)"] ok
    by (auto simp: pview_def MaxStartRetries_def)
  obtain w2 p2 where wp2: "AdvanceTransitional pd (w1, p1) = (w2, p2)" by fastforce
  have 2: "find_machine (w_db w2) i = Some m" "counter_at (startRetryCount p2) (UUIDString i) = 2" "world_ok w2"
    using unreachable_pass [OF pd 1(3,1) m(2) st, of p1] 1 wp2 AdvanceTransitional_ok [OF pd(1), of "(w1, p1)"]
    by (auto simp: pview_def MaxStartRetries_def)
  have 3: "\<exists>t. pview i (AdvanceTransitional pd (w2, p2)) = (Some (set_state StateError (Some (boot_timeout e)) t m),
        filter (\<lambda>s. sn_MachineID s = i) (t_snapshots (w_db w2)), counter_at (blipCount p2) (UUIDString i), 0)"
    using unreachable_pass [OF pd 2(3,1) m(2) st, of p2] 2(2) by (simp add: MaxStartRetries_def)
  show ?thesis using 1 2 3 by (auto simp: wp1 wp2 pview_def Let_def)
qed

lemma ex_wired: "wired (ex_pd r)"
  by (simp add: wired_def ex_pd_def)

text \<open>A machine row with the audit trail that brought it to a state.\<close>

definition ex_event :: "int \<Rightarrow> state \<Rightarrow> state \<Rightarrow> machine_event" where
  "ex_event n a b = \<lparr>ev_ID = n, ev_MachineID = uid 1, ev_Type = ''transition'', ev_FromState = Some a,
     ev_ToState = Some b, ev_Actor = ''t'', ev_Payload = [], ev_CreatedAt = 1\<rparr>"

definition ex_audited :: "state \<Rightarrow> mem_state world" where
  "ex_audited s = (ex_world [ex_machine s])\<lparr>w_db := (ex_db [ex_machine s])\<lparr>t_event_seq := 9, t_events :=
     [ex_event 1 StateRequested StateProvisioning]
     @ (if s = StateProvisioning then [] else [ex_event 2 StateProvisioning StateRunning])
     @ (if s \<in> {StateProvisioning, StateRunning} then [] else [ex_event 3 StateRunning s])\<rparr>\<rparr>"

lemma ex_audited_ok:
  "world_ok (ex_audited StateProvisioning)" "world_ok (ex_audited StateRunning)" "world_ok (ex_audited StateHibernating)"
  by (simp_all add: ex_audited_def world_ok_def broker_ok_def NewBroker_inv db_inv_defs ex_world_def state_log_def
      ex_event_def CanTransition_def)

lemma ex_audited_find [simp]: "find_machine (w_db (ex_audited s)) (uid 1) = Some (ex_machine s)"
  by (simp add: ex_audited_def find_machine_def)

theorem start_retries_bounded_witness:
  "let pd = ex_pd (Inl (ErrorText ''timeout''));
       wp3 = AdvanceTransitional pd (AdvanceTransitional pd (AdvanceTransitional pd (ex_audited StateProvisioning, NewPoller)))
   in \<exists>m. find_machine (w_db (fst wp3)) (uid 1) = Some m \<and> m_State m = StateError"
  using start_retries_bounded [of "ex_pd (Inl (ErrorText ''timeout''))" "ex_audited StateProvisioning" "uid 1"
      "ex_machine StateProvisioning" "ErrorText ''timeout''" NewPoller] ex_wired ex_no_faults ex_audited_ok
  by (auto simp: Let_def NewPoller_def counter_at_def)

text \<open>
  A running machine survives two consecutive sweeps without an answer from the agent and is
  moved to \<open>error\<close> by the third, with the reason recorded and its counter cleared.
\<close>

theorem blips_bounded:
  assumes pd: "no_faults (dp_db (pd_svc pd))" and ok: "world_ok w"
    and m: "find_machine (w_db w) i = Some m" "m_State m = StateRunning"
    and l: "pd_List pd = Inl e" and fresh: "counter_at (blipCount p) (UUIDString i) = 0"
  shows "let wp1 = SweepRunning pd (w, p); wp2 = SweepRunning pd wp1; wp3 = SweepRunning pd wp2 in
    find_machine (w_db (fst wp1)) i = Some m \<and> find_machine (w_db (fst wp2)) i = Some m
    \<and> (\<exists>t. find_machine (w_db (fst wp3)) i = Some (set_state StateError (Some (blip_reason e)) t m))
    \<and> counter_at (blipCount (snd wp3)) (UUIDString i) = 0"
proof -
  obtain w1 p1 where wp1: "SweepRunning pd (w, p) = (w1, p1)" by fastforce
  have 1: "find_machine (w_db w1) i = Some m" "counter_at (blipCount p1) (UUIDString i) = 1" "world_ok w1"
    using blip_pass [OF pd ok m l, of p] fresh wp1 SweepRunning_ok [of "(w, p)" pd] ok
    by (auto simp: pview_def BlipThreshold_def)
  obtain w2 p2 where wp2: "SweepRunning pd (w1, p1) = (w2, p2)" by fastforce
  have 2: "find_machine (w_db w2) i = Some m" "counter_at (blipCount p2) (UUIDString i) = 2" "world_ok w2"
    using blip_pass [OF pd 1(3,1) m(2) l, of p1] 1 wp2 SweepRunning_ok [of "(w1, p1)" pd]
    by (auto simp: pview_def BlipThreshold_def)
  have 3: "\<exists>t. pview i (SweepRunning pd (w2, p2)) = (Some (set_state StateError (Some (blip_reason e)) t m),
        filter (\<lambda>s. sn_MachineID s = i) (t_snapshots (w_db w2)), 0, counter_at (startRetryCount p2) (UUIDString i))"
    using blip_pass [OF pd 2(3,1) m(2) l, of p2] 2(2) by (simp add: BlipThreshold_def)
  show ?thesis using 1 2 3 by (auto simp: wp1 wp2 pview_def Let_def)
qed

theorem blips_bounded_witness:
  "let pd = ex_pd (Inl (ErrorText ''timeout''));
       wp2 = SweepRunning pd (SweepRunning pd (ex_audited StateRunning, NewPoller))
   in find_machine (w_db (fst wp2)) (uid 1) = Some (ex_machine StateRunning)"
proof -
  have "pd_List (ex_pd (Inl e)) = Inl e" for e by (simp add: ex_pd_def)
  then show ?thesis
    using blips_bounded [of "ex_pd (Inl (ErrorText ''timeout''))" "ex_audited StateRunning" "uid 1"
      "ex_machine StateRunning" "ErrorText ''timeout''" NewPoller] ex_no_faults ex_audited_ok
    by (auto simp: Let_def NewPoller_def counter_at_def)
qed

section \<open>Boots and hibernations complete\<close>

lemma upsert_one:
  assumes "distinct (map k xs)" "k s = i"
  shows "filter (\<lambda>r. k r = i) (if i \<in> k ` set xs then tbl_update (\<lambda>r. k r = i) (\<lambda>_. s) xs else xs @ [s]) = [s]"
  using assms
proof (induction xs)
  case (Cons x xs)
  have absent: "filter (\<lambda>r. k r = i) (tbl_update (\<lambda>r. k r = i) (\<lambda>_. s) xs) = []" if "i \<notin> k ` set xs"
    using that by (induction xs) auto
  show ?case
  proof (cases "k x = i")
    case True
    with Cons.prems have "i \<notin> k ` set xs" by auto
    with absent True Cons.prems(2) show ?thesis by simp
  next
    case False
    with Cons.IH Cons.prems show ?thesis by (auto split: if_splits)
  qed
qed simp

lemma clear_snapshot_ok:
  assumes "no_faults (dp_db (pd_svc pd))"
  shows "w_db (clear_snapshot pd w i) = (w_db w)\<lparr>t_snapshots := tbl_delete (\<lambda>r. sn_MachineID r = i) (t_snapshots (w_db w))\<rparr>"
  using assms by (simp add: clear_snapshot_def DeleteSnapshot_def)

lemma find_machine_SetMachineBoot:
  assumes "no_faults c" "find_machine d i = Some m"
  shows "\<exists>d' t. SetMachineBoot c d i b = Inr (d', m\<lparr>m_Boot := b, m_UpdatedAt := t\<rparr>)
    \<and> find_machine d' i = Some (m\<lparr>m_Boot := b, m_UpdatedAt := t\<rparr>) \<and> t_snapshots d' = t_snapshots d"
proof -
  let ?f = "\<lambda>m :: machine. m\<lparr>m_Boot := b, m_UpdatedAt := now c (QSetMachineBoot i)\<rparr>"
  let ?d = "d\<lparr>t_machines := tbl_update (\<lambda>r. m_ID r = i) ?f (t_machines d)\<rparr>"
  have "SetMachineBoot c d i b = Inr (?d, ?f m)" using assms by (simp add: SetMachineBoot_def update_machine_def)
  moreover have "find_machine ?d i = Some (?f m)" by (rule find_machine_update [OF assms(2)]) simp
  ultimately show ?thesis by (intro exI [of _ ?d] exI [of _ "now c (QSetMachineBoot i)"]) simp
qed

definition booted :: "'st poller_deps \<Rightarrow> machine_status \<Rightarrow> machine \<Rightarrow> machine \<Rightarrow> bool" where
  "booted pd st m m' = (m_ID m' = m_ID m \<and> m_UserID m' = m_UserID m \<and> m_State m' = StateRunning
     \<and> m_LastError m' = None \<and> m_VmHandle m' = Some (st_Handle st)
     \<and> m_GuestIp m' = (if st_GuestIP st \<noteq> [] then pd_ParseAddr pd (st_GuestIP st) else None)
     \<and> m_Boot m' = (if st_Boot st \<noteq> [] then Some (st_Boot st) else m_Boot m))"

lemma toRunning_ok:
  assumes "no_faults (dp_db (pd_svc pd))" "find_machine (w_db w) (m_ID m) = Some m" "CanTransition (m_State m) StateRunning"
  shows "\<exists>m'. find_machine (w_db (fst (toRunning pd w p m (m_State m) st))) (m_ID m) = Some m' \<and> booted pd st m m'
    \<and> filter (\<lambda>s. sn_MachineID s = m_ID m) (t_snapshots (w_db (fst (toRunning pd w p m (m_State m) st)))) = []"
proof -
  let ?c = "dp_db (pd_svc pd)" and ?i = "m_ID m"
  define ip where "ip = (if st_GuestIP st \<noteq> [] then pd_ParseAddr pd (st_GuestIP st) else None)"
  define w1 where "w1 = or_skip w (SetMachineRuntime ?c (w_db w) ?i (Some (st_Handle st)) ip)"
  define w2 where "w2 = (if st_Boot st \<noteq> [] then or_skip w1 (SetMachineBoot ?c (w_db w1) ?i (Some (st_Boot st))) else w1)"
  obtain m1 where 1: "find_machine (w_db w1) ?i = Some m1" "m_State m1 = m_State m" "m_ID m1 = ?i" "m_UserID m1 = m_UserID m"
    "m_VmHandle m1 = Some (st_Handle st)" "m_GuestIp m1 = ip" "m_Boot m1 = m_Boot m"
  proof -
    obtain d' t where "SetMachineRuntime ?c (w_db w) ?i (Some (st_Handle st)) ip = Inr (d', m\<lparr>m_VmHandle := Some (st_Handle st),
        m_GuestIp := ip, m_LastActiveAt := Some t, m_UpdatedAt := t\<rparr>)"
      "find_machine d' ?i = Some (m\<lparr>m_VmHandle := Some (st_Handle st), m_GuestIp := ip, m_LastActiveAt := Some t, m_UpdatedAt := t\<rparr>)"
      using find_machine_SetMachineRuntime [OF assms(1,2)] by blast
    then show thesis by (intro that [of "m\<lparr>m_VmHandle := Some (st_Handle st), m_GuestIp := ip,
        m_LastActiveAt := Some t, m_UpdatedAt := t\<rparr>"]) (simp_all add: w1_def or_skip_def)
  qed
  obtain m2 where 2: "find_machine (w_db w2) ?i = Some m2" "m_State m2 = m_State m" "m_ID m2 = ?i" "m_UserID m2 = m_UserID m"
    "m_VmHandle m2 = Some (st_Handle st)" "m_GuestIp m2 = ip"
    "m_Boot m2 = (if st_Boot st \<noteq> [] then Some (st_Boot st) else m_Boot m)"
  proof (cases "st_Boot st = []")
    case True
    with 1 show thesis by (intro that [of m1]) (simp_all add: w2_def)
  next
    case False
    obtain d' t where "SetMachineBoot ?c (w_db w1) ?i (Some (st_Boot st)) = Inr (d', m1\<lparr>m_Boot := Some (st_Boot st), m_UpdatedAt := t\<rparr>)"
      "find_machine d' ?i = Some (m1\<lparr>m_Boot := Some (st_Boot st), m_UpdatedAt := t\<rparr>)"
      using find_machine_SetMachineBoot [OF assms(1) 1(1)] by blast
    with False 1 show thesis
      by (intro that [of "m1\<lparr>m_Boot := Some (st_Boot st), m_UpdatedAt := t\<rparr>"]) (simp_all add: w2_def or_skip_def)
  qed
  let ?w3 = "clear_snapshot pd w2 ?i"
  have f3: "find_machine (w_db ?w3) ?i = Some m2" using 2(1) clear_snapshot_ok [OF assms(1)] by simp
  have s3: "filter (\<lambda>s. sn_MachineID s = ?i) (t_snapshots (w_db ?w3)) = []"
    using clear_snapshot_ok [OF assms(1)] by (simp add: filter_empty_conv)
  obtain t where T: "find_machine (w_db (p_transition pd ?w3 m (m_State m) StateRunning ActorPoller EventTransition (bootPayload st) None)) ?i
      = Some (set_state StateRunning None t m2)"
    "t_snapshots (w_db (p_transition pd ?w3 m (m_State m) StateRunning ActorPoller EventTransition (bootPayload st) None)) = t_snapshots (w_db ?w3)"
    using p_transition_ok [OF assms(1,3) f3 2(2)] by blast
  have R: "fst (toRunning pd w p m (m_State m) st)
      = p_transition pd ?w3 m (m_State m) StateRunning ActorPoller EventTransition (bootPayload st) None"
    unfolding toRunning_def Let_def fst_conv w2_def w1_def ip_def ..
  have "booted pd st m (set_state StateRunning None t m2)" using 2 by (simp add: booted_def set_state_def ip_def)
  with T s3 R show ?thesis by simp
qed

text \<open>
  C18. When the agent reports a booting machine as running, one pass moves it to \<open>running\<close>
  with the agent's handle, guest address and boot kind in its row, its last error cleared
  and no snapshot left behind; whatever the other machines of the pass do.
\<close>

theorem boot_completes:
  assumes "wired pd" "no_faults (dp_db (pd_svc pd))" "world_ok w"
    and m: "find_machine (w_db w) i = Some m" "m_State m = StateProvisioning \<or> m_State m = StateStarting"
    and st: "pd_Status pd (UUIDString i) = Inr st" "st_State st = AgentRunning"
  shows "\<exists>m'. find_machine (w_db (fst (AdvanceTransitional pd (w, p)))) i = Some m' \<and> booted pd st m m'
    \<and> filter (\<lambda>s. sn_MachineID s = i) (t_snapshots (w_db (fst (AdvanceTransitional pd (w, p))))) = []
    \<and> counter_at (startRetryCount (snd (AdvanceTransitional pd (w, p)))) (UUIDString i) = 0"
proof -
  have mid: "m_ID m = i" using find_machine_Some [OF m(1)] by simp
  have tr: "Transitional (m_State m)" "CanTransition (m_State m) StateRunning" using m(2) by (auto simp: CanTransition_def)
  obtain w1 p1 where v: "world_ok w1" "pview i (w1, p1) = pview i (w, p)"
    "pview i (AdvanceTransitional pd (w, p)) = pview i (advanceOne pd (w1, p1) m)"
    using AdvanceTransitional_view [OF assms(1-3) m(1) tr(1)] by blast
  let ?W = "call w1 (CallStatus (UUIDString i))" and ?p = "startRetryReset p1 (UUIDString i)"
  have f1: "find_machine (w_db ?W) (m_ID m) = Some m" using v(2) m(1) mid by (simp add: pview_def)
  have A: "advanceOne pd (w1, p1) m = toRunning pd ?W ?p m (m_State m) st"
    using st m(2) mid by (auto simp: advanceOne_def Let_def)
  have c: "counter_at (startRetryCount (snd (toRunning pd ?W ?p m (m_State m) st))) (UUIDString i) = 0"
    by (simp add: toRunning_def Let_def startRetryReset_def)
  show ?thesis using toRunning_ok [OF assms(2) f1 tr(2), of ?p st] v(3) A c mid by (auto simp: pview_def)
qed

theorem boot_completes_witness:
  "\<exists>m'. find_machine (w_db (fst (AdvanceTransitional (ex_pd (Inr (ex_status AgentRunning))) (ex_audited StateProvisioning, NewPoller)))) (uid 1)
     = Some m' \<and> m_State m' = StateRunning"
  using boot_completes [of "ex_pd (Inr (ex_status AgentRunning))" "ex_audited StateProvisioning" "uid 1"
      "ex_machine StateProvisioning" "ex_status AgentRunning" NewPoller] ex_wired ex_no_faults ex_audited_ok
  by (auto simp: booted_def)

text \<open>
  When the agent reports a hibernating machine as stopped, one pass moves it to
  \<open>stopped\<close>, and the snapshot table then describes exactly the snapshot the agent reports:
  one row with its version, its size and the images of the machine, or no row after a cold stop.
\<close>

theorem hibernation_completes:
  assumes "wired pd" "no_faults (dp_db (pd_svc pd))" "world_ok w"
    and m: "find_machine (w_db w) i = Some m" "m_State m = StateStopping \<or> m_State m = StateHibernating"
    and st: "pd_Status pd (UUIDString i) = Inr st" "st_State st = AgentStopped"
  shows "\<exists>m' ss. find_machine (w_db (fst (AdvanceTransitional pd (w, p)))) i = Some m' \<and> m_State m' = StateStopped
    \<and> filter (\<lambda>s. sn_MachineID s = i) (t_snapshots (w_db (fst (AdvanceTransitional pd (w, p))))) = ss
    \<and> (if si_Present (st_Snapshot st)
       then \<exists>s. ss = [s] \<and> sn_FcVersion s = si_FCVersion (st_Snapshot st) \<and> sn_MemBytes s = si_MemBytes (st_Snapshot st)
              \<and> sn_KernelRef s = m_KernelRef m \<and> sn_RootfsRef s = m_RootfsRef m
       else ss = [])"
proof -
  have mid: "m_ID m = i" using find_machine_Some [OF m(1)] by simp
  have tr: "Transitional (m_State m)" "CanTransition (m_State m) StateStopped" using m(2) by (auto simp: CanTransition_def)
  obtain w1 p1 where v: "world_ok w1" "pview i (w1, p1) = pview i (w, p)"
    "pview i (AdvanceTransitional pd (w, p)) = pview i (advanceOne pd (w1, p1) m)"
    using AdvanceTransitional_view [OF assms(1-3) m(1) tr(1)] by blast
  let ?W = "call w1 (CallStatus (UUIDString i))"
  have f1: "find_machine (w_db w1) i = Some m" using v(2) m(1) by (simp add: pview_def)
  have keys: "distinct (map sn_MachineID (t_snapshots (w_db w1)))" using v(1) by (simp add: world_ok_def db_inv_def keys_ok_def)
  define w2 where "w2 = (if si_Present (st_Snapshot st)
      then or_skip ?W (UpsertSnapshot (dp_db (pd_svc pd)) (w_db ?W) (m_ID m) (si_FCVersion (st_Snapshot st))
             (si_MemBytes (st_Snapshot st)) (m_KernelRef m) (m_RootfsRef m))
      else clear_snapshot pd ?W (m_ID m))"
  have w2: "find_machine (w_db w2) i = Some m \<and> (if si_Present (st_Snapshot st)
       then \<exists>s. filter (\<lambda>s. sn_MachineID s = i) (t_snapshots (w_db w2)) = [s] \<and> sn_FcVersion s = si_FCVersion (st_Snapshot st)
              \<and> sn_MemBytes s = si_MemBytes (st_Snapshot st) \<and> sn_KernelRef s = m_KernelRef m \<and> sn_RootfsRef s = m_RootfsRef m
       else filter (\<lambda>s. sn_MachineID s = i) (t_snapshots (w_db w2)) = [])"
  proof (cases "si_Present (st_Snapshot st)")
    case True
    let ?s = "\<lparr>sn_MachineID = i, sn_FcVersion = si_FCVersion (st_Snapshot st), sn_MemBytes = si_MemBytes (st_Snapshot st),
      sn_KernelRef = m_KernelRef m, sn_RootfsRef = m_RootfsRef m, sn_CreatedAt = now (dp_db (pd_svc pd)) (QUpsertSnapshot i)\<rparr>"
    have one: "filter (\<lambda>s. sn_MachineID s = i) (if i \<in> sn_MachineID ` set xs
        then tbl_update (\<lambda>r. sn_MachineID r = i) (\<lambda>_. ?s) xs else xs @ [?s]) = [?s]"
      if "distinct (map sn_MachineID xs)" for xs
      using that by (rule upsert_one) simp
    show ?thesis using True f1 mid assms(2) one [OF keys]
      by (simp add: w2_def or_skip_def UpsertSnapshot_def Let_def del: if_image_distrib)
  next
    case False
    then show ?thesis using f1 mid clear_snapshot_ok [OF assms(2)] by (simp add: w2_def filter_empty_conv)
  qed
  have A: "advanceOne pd (w1, p1) m = (p_transition pd w2 m (m_State m) StateStopped ActorPoller EventTransition
      (snapshotPayload st) None, startRetryReset p1 (UUIDString i))"
    using st m(2) mid by (auto simp: advanceOne_def toStopped_def Let_def w2_def agent_states)
  have f2: "find_machine (w_db w2) (m_ID m) = Some m" using w2 mid by simp
  from p_transition_ok [OF assms(2) tr(2) f2 refl] v(3) A w2 mid show ?thesis
    by (fastforce simp: pview_def)
qed

theorem hibernation_completes_witness:
  "\<exists>m'. find_machine (w_db (fst (AdvanceTransitional (ex_pd (Inr (ex_status AgentStopped))) (ex_audited StateHibernating, NewPoller)))) (uid 1)
     = Some m' \<and> m_State m' = StateStopped"
  using hibernation_completes [of "ex_pd (Inr (ex_status AgentStopped))" "ex_audited StateHibernating" "uid 1"
      "ex_machine StateHibernating" "ex_status AgentStopped" NewPoller] ex_wired ex_no_faults ex_audited_ok
  by auto

text \<open>
  The blip counter outlives the run it was counted in. No pass over transitional machines
  touches it, so misses counted before a stop are still there after the next start; with two
  of them a single unanswered sweep is enough to fail a machine that has just booted.
\<close>

theorem stale_blips:
  assumes "no_faults (dp_db (pd_svc pd))" "world_ok w"
    and m: "find_machine (w_db w) i = Some m" "m_State m = StateRunning"
    and l: "pd_List pd = Inl e" and p: "p = snd (AdvanceTransitional pd' (w', p'))"
    and stale: "counter_at (blipCount p') (UUIDString i) = 2"
  shows "blipCount p = blipCount p'
    \<and> (\<exists>t. find_machine (w_db (fst (SweepRunning pd (w, p)))) i = Some (set_state StateError (Some (blip_reason e)) t m))"
proof -
  have fold: "blipCount (snd (foldl (advanceOne pd') wp ms)) = blipCount (snd wp)" for wp ms
    by (induction ms arbitrary: wp) (simp_all add: advanceOne_counters)
  then have same: "blipCount p = blipCount p'" by (simp add: p AdvanceTransitional_def split: sum.splits)
  with blip_pass [OF assms(1,2) m l, of p] stale show ?thesis by (auto simp: pview_def BlipThreshold_def)
qed

theorem stale_blips_witness:
  "\<exists>m p. find_machine (w_db (fst (SweepRunning (ex_pd (Inl (ErrorText ''timeout''))) (ex_audited StateRunning, p)))) (uid 1) = Some m
     \<and> m_State m = StateError"
proof -
  have l: "pd_List (ex_pd (Inl e)) = Inl e" for e by (simp add: ex_pd_def)
  let ?p = "NewPoller\<lparr>blipCount := [UUIDString (uid 1) \<mapsto> 2]\<rparr>"
  show ?thesis
    using stale_blips [of "ex_pd (Inl (ErrorText ''timeout''))" "ex_audited StateRunning" "uid 1" "ex_machine StateRunning"
      "ErrorText ''timeout''" _ "ex_pd (Inr (ex_status AgentRunning))" "ex_audited StateProvisioning" ?p, OF _ _ _ _ l refl]
      ex_no_faults ex_audited_ok
    by (fastforce simp: counter_at_def)
qed

section \<open>A running machine has no snapshot\<close>

definition no_stale_snapshot :: "db \<Rightarrow> bool" where
  "no_stale_snapshot d = (\<forall>m \<in> set (t_machines d). m_State m = StateRunning \<longrightarrow> m_ID m \<notin> sn_MachineID ` set (t_snapshots d))"

lemma find_unique: "keys_ok d \<Longrightarrow> m \<in> set (t_machines d) \<Longrightarrow> find_machine d (m_ID m) = Some m"
proof -
  assume k: "keys_ok d" and m: "m \<in> set (t_machines d)"
  then have "find_machine d (m_ID m) \<noteq> None" using find_machine_None [of d "m_ID m"] by auto
  then obtain m' where "find_machine d (m_ID m) = Some m'" by blast
  moreover from find_machine_Some [OF this] have "m' = m"
    using k m by (auto simp: keys_ok_def distinct_map inj_on_def)
  ultimately show ?thesis by simp
qed

lemma toStopped_find:
  assumes "no_faults (dp_db (pd_svc pd))" "find_machine (w_db w) (m_ID m) = Some m" "CanTransition (m_State m) StateStopped"
  shows "\<exists>t. find_machine (w_db (toStopped pd w m (m_State m) st)) (m_ID m) = Some (set_state StateStopped None t m)"
proof -
  define w2 where "w2 = (if si_Present (st_Snapshot st)
      then or_skip w (UpsertSnapshot (dp_db (pd_svc pd)) (w_db w) (m_ID m) (si_FCVersion (st_Snapshot st))
             (si_MemBytes (st_Snapshot st)) (m_KernelRef m) (m_RootfsRef m))
      else clear_snapshot pd w (m_ID m))"
  have "find_machine (w_db w2) (m_ID m) = Some m"
    using assms(1,2) clear_snapshot_ok [OF assms(1)]
    by (auto simp: w2_def or_skip_def split: sum.splits dest!: UpsertSnapshot_InrD)
  from p_transition_ok [OF assms(1,3) this refl] show ?thesis
    by (fastforce simp: toStopped_def Let_def w2_def [symmetric])
qed

lemma error_branch:
  assumes "no_faults (dp_db (pd_svc pd))" "find_machine (w_db w) (m_ID m) = Some m" "Transitional (m_State m)"
    "find_machine (w_db (toError pd w m (m_State m) rs)) (m_ID m) = Some m'"
  shows "m_State m' \<noteq> StateRunning"
proof -
  have "CanTransition (m_State m) StateError" using assms(3) by (cases "m_State m") (auto simp: CanTransition_def)
  from toError_ok [OF assms(1) this assms(2) refl, of rs] assms(4) show ?thesis by auto
qed

text \<open>The only iteration that makes a machine running is the one that clears its snapshot.\<close>

lemma advanceOne_running:
  assumes w: "wired pd" "no_faults (dp_db (pd_svc pd))" "find_machine (w_db w) (m_ID m) = Some m" "Transitional (m_State m)"
    and r: "find_machine (w_db (fst (advanceOne pd (w, p) m))) (m_ID m) = Some m'" "m_State m' = StateRunning"
  shows "filter (\<lambda>s. sn_MachineID s = m_ID m) (t_snapshots (w_db (fst (advanceOne pd (w, p) m)))) = []"
proof -
  let ?W = "call w (CallStatus (UUIDString (m_ID m)))"
  have f: "find_machine (w_db ?W) (m_ID m) = Some m" using w(3) by simp
  have still: "m_State m \<noteq> StateRunning" using w(4) by auto
  have stop: "CanTransition (m_State m) StateStopped" if "m_State m = StateStopping \<or> m_State m = StateHibernating"
    using that by (auto simp: CanTransition_def)
  have err: False if "find_machine (w_db (toError pd ?W m (m_State m) rs)) (m_ID m) = Some m'" for rs
    using error_branch [OF w(2) f w(4) that] r(2) by simp
  have ens: "w_db (fst (rt ?W m)) = w_db w" if "pd_retryEnsure pd = Some rt" for rt
    using w(1) that by (auto simp: wired_def)
  have retry: False if "find_machine (w_db (fst (retryStart pd ?W q m (m_State m) e))) (m_ID m) = Some m'" for q e
    using that ens err w(3) r(2) still
    by (auto simp: retryStart_def startRetryIncr_def Let_def split: option.splits if_splits)
  have gone: False if "m_State m = StateStopping \<or> m_State m = StateHibernating"
      "find_machine (w_db (p_transition pd ?W m (m_State m) StateStopped ActorPoller EventTransition None None)) (m_ID m) = Some m'"
    using p_transition_ok [OF w(2) stop [OF that(1)] f refl, of ActorPoller EventTransition None None] that(2) r(2) by auto
  have stopped: False if "m_State m = StateStopping \<or> m_State m = StateHibernating"
      "find_machine (w_db (toStopped pd ?W m (m_State m) st)) (m_ID m) = Some m'" for st
    using toStopped_find [OF w(2) f stop [OF that(1)], of st] that(2) r(2) by auto
  have run: "filter (\<lambda>s. sn_MachineID s = m_ID m) (t_snapshots (w_db (fst (toRunning pd ?W q m (m_State m) st)))) = []"
    if "m_State m = StateProvisioning \<or> m_State m = StateStarting" for q st
    using toRunning_ok [OF w(2) f, of q st] that by (auto simp: CanTransition_def)
  have id: False if "find_machine (w_db ?W) (m_ID m) = Some m'" using that w(3) r(2) still by simp
  show ?thesis
  proof (cases "pd_Status pd (UUIDString (m_ID m))")
    case (Inl e)
    with r(1) err retry gone show ?thesis by (auto simp: advanceOne_def Let_def split: if_splits)
  next
    case (Inr st)
    show ?thesis
    proof (cases "m_State m = StateProvisioning \<or> m_State m = StateStarting")
      case boot: True
      show ?thesis
      proof (cases "st_State st = AgentRunning")
        case True
        with boot Inr run show ?thesis by (simp add: advanceOne_def Let_def)
      next
        case False
        then have "(\<exists>rs. fst (advanceOne pd (w, p) m) = toError pd ?W m (m_State m) rs) \<or> fst (advanceOne pd (w, p) m) = ?W"
          using boot Inr by (auto simp: advanceOne_def Let_def)
        with r(1) err id show ?thesis by metis
      qed
    next
      case False
      then have halt: "m_State m = StateStopping \<or> m_State m = StateHibernating" using w(4) by (cases "m_State m") auto
      then have "(\<exists>rs. fst (advanceOne pd (w, p) m) = toError pd ?W m (m_State m) rs)
          \<or> fst (advanceOne pd (w, p) m) = toStopped pd ?W m (m_State m) st \<or> fst (advanceOne pd (w, p) m) = ?W"
        using False Inr by (auto simp: advanceOne_def Let_def)
      with r(1) err id stopped [OF halt] show ?thesis by metis
    qed
  qed
qed

lemma AdvanceTransitional_untouched:
  assumes "wired pd" "no_faults (dp_db (pd_svc pd))" "world_ok w" "proper_uuid i"
    and "\<forall>m. find_machine (w_db w) i = Some m \<longrightarrow> \<not> Transitional (m_State m)"
  shows "pview i (AdvanceTransitional pd (w, p)) = pview i (w, p)"
proof -
  let ?ms = "sort_key m_UpdatedAt (filter (\<lambda>m. m_State m \<in> set transitional_states) (t_machines (w_db w)))"
  have ids: "proper_uuid (m_ID x) \<and> m_ID x \<noteq> i" if "x \<in> set ?ms" for x
  proof -
    from that have x: "x \<in> set (t_machines (w_db w))" "Transitional (m_State x)"
      by (auto simp: transitional_states_def)
    then have "find_machine (w_db w) (m_ID x) = Some x"
      using find_unique assms(3) by (simp add: world_ok_def db_inv_def)
    with x assms(5) proper_ids [OF assms(3) x(1)] show ?thesis by auto
  qed
  have "world_ok (fst (foldl (advanceOne pd) wp xs)) \<and> pview i (foldl (advanceOne pd) wp xs) = pview i wp"
    if "world_ok (fst wp)" "set xs \<subseteq> set ?ms" for wp xs
    using that
  proof (induction xs arbitrary: wp)
    case (Cons x xs)
    have "world_ok (fst (advanceOne pd wp x))"
      using moves_any_ok [of "m_ID x" "fst wp", OF _ Cons.prems(1)]
        advanceOne_moves [OF assms(1), of _ x "fst wp" "snd wp"] by simp
    moreover have "pview i (advanceOne pd wp x) = pview i wp"
      using advanceOne_other [OF assms(1) Cons.prems(1)] ids [of x] Cons.prems(2) assms(4) by simp
    ultimately show ?case using Cons.IH [of "advanceOne pd wp x"] Cons.prems(2) by simp
  qed simp
  from this [of "(w, p)" ?ms] assms(2,3) show ?thesis
    by (simp add: AdvanceTransitional_def ListMachinesInStates_def)
qed



end
