(* ===== verification/Component_Claims.thy ===== *)
theory Component_Claims
  imports Machine_Behaviour
begin

text \<open>
  The properties of the components the lifecycle service is built from: placement, names,
  templates and limits, network policies, the broker's delivery, the secret store and the
  canonical identifiers.
\<close>

section \<open>Placement\<close>

text \<open>
  Placement is optimal: with several active hosts the chosen one is active, answered,
  fits the request in vcpus and memory, and no other host that answered and fits has more
  free memory, or as much and an earlier name; and \<open>ErrNoCapacity\<close> is returned only when none fits.
\<close>

theorem chooseHost_optimal:
  assumes hosts: "ListActiveHosts c d = Inr hs" and many: "2 \<le> length hs"
    and ch: "chooseHost c d query r = (queried, res)"
  shows "queried = map h_ID hs
    \<and> (case res of
        Inr h \<Rightarrow> h \<in> set hs \<and> (\<exists>f. fits query r h f
          \<and> (\<forall>h' f'. h' \<in> set hs \<and> fits query r h' f' \<longrightarrow> as_good (h, f) (h', f')))
      | Inl e \<Rightarrow> e = Sentinel ErrNoCapacity \<and> (\<forall>h' f'. h' \<in> set hs \<longrightarrow> \<not> fits query r h' f'))"
proof -
  obtain a b rest where hs: "hs = a # b # rest" using many by (cases hs; cases "tl hs") auto
  note best = chooseHost_loop_best [of None query r hs]
  show ?thesis
  proof (cases "chooseHost_loop query r None hs")
    case None
    then have "queried = map h_ID hs" "res = Inl (Sentinel ErrNoCapacity)"
      using ch hosts by (auto simp: chooseHost_def hs simp del: chooseHost_loop.simps)
    with best None show ?thesis by auto
  next
    case (Some x)
    obtain h f where x: "x = (h, f)" by (cases x)
    then have "queried = map h_ID hs" "res = Inr h"
      using ch hosts Some by (auto simp: chooseHost_def hs simp del: chooseHost_loop.simps)
    with best Some x show ?thesis by auto
  qed
qed

definition ex_hosts :: "host list" where
  "ex_hosts = [ex_host, ex_host\<lparr>h_ID := uid 51, h_Name := ''host-b''\<rparr>]"

definition ex_capacity :: "pg_uuid \<Rightarrow> capacity res" where
  "ex_capacity i = Inr \<lparr>cap_TotalVcpus = 8, cap_TotalMemMiB = (if i = uid 51 then 4096 else 2048), cap_TotalDiskMiB = 0,
     cap_UsedVcpus = 0, cap_UsedMemMiB = 0, cap_UsedDiskMiB = 0\<rparr>"

theorem chooseHost_optimal_witness:
  "\<exists>h. snd (chooseHost ex_ctx ((ex_db [])\<lparr>t_hosts := ex_hosts\<rparr>) ex_capacity \<lparr>r_Vcpus = 2, r_MemMiB = 512, r_DiskMiB = 0\<rparr>) = Inr h
     \<and> h \<in> set ex_hosts"
proof -
  let ?d = "(ex_db [])\<lparr>t_hosts := ex_hosts\<rparr>" and ?r = "\<lparr>r_Vcpus = 2, r_MemMiB = 512, r_DiskMiB = 0\<rparr>"
  have l: "ListActiveHosts ex_ctx ?d = Inr ex_hosts"
    by (simp add: ListActiveHosts_def ex_hosts_def ex_host_def sort_key_def)
  obtain q res where ch: "chooseHost ex_ctx ?d ex_capacity ?r = (q, res)" by fastforce
  have "fits ex_capacity ?r ex_host 2048"
    by (simp add: fits_def ex_capacity_def ex_host_def freeVcpus_def freeMem_def)
  with chooseHost_optimal [OF l _ ch] ch show ?thesis
    by (cases res) (auto simp: ex_hosts_def)
qed

section \<open>Names, templates and limits\<close>

text \<open>
  The automatic name of a new machine differs from every name the user already has, and is the
  smallest \<open>machine-N\<close> above all of them, while the counter does not overflow 64 bits.
\<close>

theorem auto_name_fresh:
  assumes "max_index 0 existing < 2 ^ 63 - 1"
  shows "nextMachineName existing \<notin> m_Name ` set existing
    \<and> name_index (nextMachineName existing) = Some (max_index 0 existing + 1)
    \<and> (\<forall>m \<in> set existing. \<forall>n. name_index (m_Name m) = Some n \<longrightarrow> n < max_index 0 existing + 1)"
  using nextMachineName_fresh [OF assms] max_index_upper [where mx = 0] by fastforce

theorem auto_name_fresh_witness:
  "nextMachineName [ex_machine StateRunning] \<notin> {m_Name (ex_machine StateRunning)}"
proof -
  have "name_index ''machine-1'' = Some 1" by code_simp
  then have "max_index 0 [ex_machine StateRunning] = 1" by (simp add: ex_machine_def)
  with auto_name_fresh [of "[ex_machine StateRunning]"] show ?thesis by simp
qed

text \<open>
  With a catalog configured, what \<open>resolveCreate\<close> accepts is a template of the catalog, the
  requested one if a template was named, with its images, and its default resources with
  exactly the given overrides, inside the configured limits.
\<close>

theorem resolveCreate_within_limits:
  assumes "NewCatalog ts dk = Inr (s_Catalog sp)" and "\<not> limits_Empty (s_Limits sp)"
    and "resolveCreate sp opts = Inr (rfs, krn, r, tid)"
  shows "in_limits (s_Limits sp) r
    \<and> (\<exists>t \<in> set (c_templates (s_Catalog sp)). tid = Some (t_ID t) \<and> rfs = t_RootfsRef t \<and> krn = t_KernelRef t
         \<and> krn \<noteq> [] \<and> r = override (t_Defaults t) opts \<and> (o_TemplateID opts \<noteq> [] \<longrightarrow> t_ID t = o_TemplateID opts))"
proof -
  have ok: "catalog_ok (s_Catalog sp)" "\<not> catalog_Empty (s_Catalog sp)"
    using NewCatalog_ok [OF assms(1)] by (auto simp: catalog_Empty_def)
  then have "t_KernelRef t \<noteq> []" if "t \<in> set (c_templates (s_Catalog sp))" for t
    using that by (auto simp: catalog_ok_def list_all_iff template_ok_def)
  with resolveCreate_InrD [OF assms(3) ok(2,1)] assms(2) show ?thesis by fastforce
qed

definition ex_template :: template where
  "ex_template = \<lparr>t_ID = ''base'', t_Label = [], t_Description = [], t_RootfsRef = ''r9'', t_KernelRef = [],
     t_Defaults = \<lparr>r_Vcpus = 1, r_MemMiB = 2048, r_DiskMiB = 8192\<rparr>\<rparr>"

definition ex_catalog :: catalog where
  "ex_catalog = \<lparr>c_templates = [ex_template\<lparr>t_KernelRef := ''k9''\<rparr>], c_byID = [''base'' \<mapsto> ex_template\<lparr>t_KernelRef := ''k9''\<rparr>]\<rparr>"

lemma ex_catalog: "NewCatalog [ex_template] ''k9'' = Inr ex_catalog"
  by (simp add: NewCatalog_def ex_template_def ex_catalog_def Let_def)

theorem resolveCreate_within_limits_witness:
  "\<exists>rfs krn r tid. resolveCreate (ex_spec\<lparr>s_Catalog := ex_catalog\<rparr>) no_options = Inr (rfs, krn, r, tid)
     \<and> in_limits (s_Limits ex_spec) r"
proof -
  let ?sp = "ex_spec\<lparr>s_Catalog := ex_catalog\<rparr>"
  have ne: "\<not> limits_Empty (s_Limits ?sp)" by (simp add: ex_spec_def NewResourceLimits_def limits_Empty_def zero_bound_def)
  have "\<exists>x. resolveCreate ?sp no_options = Inr x"
    by (simp add: resolveCreate_def ex_catalog_def catalog_Default_def no_options_def override_def ex_template_def
        ex_spec_def NewResourceLimits_def Validate_def bound_check_def Let_def)
  then obtain rfs krn r tid where "resolveCreate ?sp no_options = Inr (rfs, krn, r, tid)" by auto
  with resolveCreate_within_limits [of "[ex_template]" "''k9''" ?sp, OF _ ne this] ex_catalog show ?thesis by auto
qed

text \<open>
  A catalog that \<open>NewCatalog\<close> accepts keeps the templates in the given order, has no
  duplicate and no incomplete template (the default kernel is filled in), and a lookup finds
  a template exactly when the catalog lists it under that identifier.
\<close>

theorem NewCatalog_wellformed:
  assumes "NewCatalog ts dk = Inr c"
  shows "map t_ID (c_templates c) = map t_ID ts \<and> distinct (map t_ID ts) \<and> list_all template_ok (c_templates c)
    \<and> c_templates c \<noteq> [] \<and> (\<forall>i t. catalog_Get c i = Some t \<longleftrightarrow> t \<in> set (c_templates c) \<and> t_ID t = i)"
  using NewCatalog_ok [OF assms] catalog_Get_iff by (auto simp: catalog_ok_def)

theorem NewCatalog_wellformed_witness:
  "list_all template_ok (c_templates ex_catalog)"
  using NewCatalog_wellformed [OF ex_catalog] by simp

section \<open>Network policies\<close>

text \<open>
  \<open>ValidateNetworkPolicy\<close> accepts exactly the four modes, and in the two domain modes only
  domains that are, up to surrounding white space, dot-separated labels of letters, digits
  and inner dashes before an alphabetic last label of at least two letters.
\<close>

theorem ValidateNetworkPolicy_correct:
  "ValidateNetworkPolicy mode ds = None \<longleftrightarrow>
     mode \<in> {NetworkPolicyAllowAll, NetworkPolicyDenyAll, NetworkPolicyAllowDomains, NetworkPolicyDenyDomains}
     \<and> (mode = NetworkPolicyAllowDomains \<or> mode = NetworkPolicyDenyDomains \<longrightarrow>
         (\<forall>d \<in> set ds. \<exists>ls tld. ls \<noteq> [] \<and> list_all label_ok ls \<and> tld_ok tld
            \<and> TrimSpace d = concat (map (\<lambda>l. l @ [CHR ''.'']) ls) @ tld))"
  unfolding ValidateNetworkPolicy_None domainPattern_iff validNetworkPolicyModes_def by auto

theorem ValidateNetworkPolicy_correct_witness:
  "ValidateNetworkPolicy NetworkPolicyDenyAll [''not a domain''] = None"
  using ValidateNetworkPolicy_correct [of NetworkPolicyDenyAll "[''not a domain'']"]
  by (simp add: NetworkPolicyDenyAll_def NetworkPolicyAllowDomains_def NetworkPolicyDenyDomains_def)

text \<open>
  What \<open>SetNetworkPolicy\<close> stores is what it was given, after validation: the
  policy later read for the machine, and sent with the next ensure request, carries the same
  mode and the same domain strings. Validation trims white space for its own check only: a
  domain with white space around it is accepted and stored untrimmed.
\<close>

theorem SetNetworkPolicy_stores:
  assumes "no_faults (dp_db dp)" "find_machine (w_db w) i = Some m" "m_UserID m = u" "Valid u"
  shows "(ValidateNetworkPolicy mode ds = None \<longrightarrow>
      (\<exists>w' np. SetNetworkPolicy dp w u i mode ds = (w', Inr np) \<and> pol_Mode np = mode \<and> pol_Domains np = ds
        \<and> getNetworkPolicy (dp_db dp) (w_db w') i = Inr np))
    \<and> (\<forall>e. ValidateNetworkPolicy mode ds = Some e \<longrightarrow> SetNetworkPolicy dp w u i mode ds = (w, Inl e))"
proof (intro conjI impI allI)
  have own: "getOwned dp w u i = Inr m" by (rule getOwned_ok [OF assms])
  show "SetNetworkPolicy dp w u i mode ds = (w, Inl e)" if "ValidateNetworkPolicy mode ds = Some e" for e
    using own that by (simp add: SetNetworkPolicy_def)
  assume v: "ValidateNetworkPolicy mode ds = None"
  obtain d' s where U: "UpsertNetworkPolicy (dp_db dp) (w_db w) i mode ds = Inr (d', s)"
    using assms(1,2) by (cases "find (\<lambda>r. np_MachineID r = i) (t_policies (w_db w))")
      (simp_all add: UpsertNetworkPolicy_def Let_def)
  note D = UpsertNetworkPolicy_InrD [OF U]
  have upd: "find (\<lambda>r. np_MachineID r = i) (tbl_update (\<lambda>r. np_MachineID r = i) (\<lambda>_. s) rs) = Some s"
    if "i \<in> np_MachineID ` set rs" for rs
    using that D by (induction rs) auto
  have new: "find (\<lambda>r. np_MachineID r = i) (rs @ [s]) = Some s" if "i \<notin> np_MachineID ` set rs" for rs
    using that D find_key_None [of np_MachineID i rs] by (simp add: find_append_row)
  have "find (\<lambda>r. np_MachineID r = i) (t_policies d') = Some s" using D upd new by simp
  then show "\<exists>w' np. SetNetworkPolicy dp w u i mode ds = (w', Inr np) \<and> pol_Mode np = mode \<and> pol_Domains np = ds
        \<and> getNetworkPolicy (dp_db dp) (w_db w') i = Inr np"
    using own v U D assms(1)
    by (simp add: SetNetworkPolicy_def getNetworkPolicy_def GetNetworkPolicy_def row_of_def toNetworkPolicy_def)
qed

text \<open>The witness stores a domain with a blank in front of it.\<close>

lemma ex_untrimmed: "ValidateNetworkPolicy NetworkPolicyDenyDomains ['' a.io''] = None"
  by code_simp

theorem SetNetworkPolicy_stores_witness:
  "\<exists>w' np. SetNetworkPolicy ex_deps (ex_world [ex_machine StateStopped]) (uid 101) (uid 1) NetworkPolicyDenyDomains ['' a.io'']
     = (w', Inr np) \<and> pol_Domains np = ['' a.io'']"
  using SetNetworkPolicy_stores [of ex_deps "ex_world [ex_machine StateStopped]" "uid 1" "ex_machine StateStopped"
      "uid 101" NetworkPolicyDenyDomains "['' a.io'']"] ex_no_faults ex_untrimmed by auto

section \<open>Delivery to subscribers\<close>

text \<open>
  A subscriber gets the updates addressed to it in publication order: whatever sequence of
  updates is published, no publication fails, what its channel gains is a subsequence of the updates
  addressed to it, and it is all of them while its buffer has room for the whole sequence.
\<close>

theorem broker_delivery:
  assumes "broker_inv b" and "r < length (b_chans b)"
  shows "\<exists>b' us'. brk.publish_all us b = Some b' \<and> broker_inv b'
    \<and> ch_buf (b_chans b' ! r) = ch_buf (b_chans b ! r) @ us' \<and> subseq us' (brk.addressed r us b)
    \<and> (length (ch_buf (b_chans b ! r)) + length (brk.addressed r us b) \<le> ch_cap (b_chans b ! r) \<longrightarrow> us' = brk.addressed r us b)"
proof -
  obtain b' where b': "brk.publish_all us b = Some b'" "broker_inv b'"
    using brk.publish_all_total [OF assms(1)] by blast
  from brk.delivered_in_order [OF assms b'(1)] brk.all_delivered [OF assms b'(1)] b' show ?thesis by auto
qed

definition ex_update :: update where
  "ex_update = \<lparr>u_Machine = Some (ex_machine StateRunning), u_Event = None, u_Deleted = False, u_Shutdown = False\<rparr>"

theorem broker_delivery_witness:
  "\<exists>b'. brk.publish_all [ex_update, ex_update] (fst (Subscribe NewBroker (uid 101))) = Some b'
     \<and> ch_buf (b_chans b' ! 0) = [ex_update, ex_update]"
proof -
  let ?b = "fst (Subscribe NewBroker (uid 101))"
  have inv: "broker_inv ?b" by (simp add: broker_step_inv NewBroker_inv)
  have c: "b_chans ?b = [\<lparr>ch_buf = [], ch_cap = 32, ch_closed = False\<rparr>]" "b_subs ?b = [(uid 101, [(0, 0)])]" "b_all ?b = []"
    by (simp_all add: Subscribe_def NewBroker_def make_chan_def peers_def Let_def)
  have "brk.addressed 0 [ex_update, ex_update] ?b = [ex_update, ex_update]"
    using c by (simp add: Publish_def publish_targets_def peers_def u_owner_def ex_update_def try_send_def push_def)
  moreover have "0 < length (b_chans ?b)" using c by simp
  ultimately show ?thesis
    using broker_delivery [OF inv, of 0 "[ex_update, ex_update]"] c(1) by (auto simp del: brk.addressed.simps brk.publish_all.simps)
qed

section \<open>Secrets and identifiers\<close>

text \<open>
  A minted volume key is the key every later read of that machine gets, from the file-backed
  store as from memory: 32 random bytes in base64, at a path of that machine alone, so that no
  other machine's key (and no other secret) changes.
\<close>

theorem volume_key_roundtrip:
  assumes "fx_read c = None" and "proper_uuid i" and "proper_uuid j" and "i \<noteq> j"
    and "MintMachineVolumeKey (file_ops c) s rnd (UUIDString i) = (s', Inr k)"
  shows "GetMachineVolumeKey (file_ops c) s' (UUIDString i) = Inr k
    \<and> GetMachineVolumeKey (file_ops c) s' (UUIDString j) = GetMachineVolumeKey (file_ops c) s (UUIDString j)
    \<and> (\<exists>key. rnd = Inr key \<and> k = b64_encode key)"
proof -
  have "UUIDString i \<noteq> UUIDString j" using UUIDString_inj assms(2-4) by blast
  then have "MachineVolumeKeyPath (UUIDString j) \<noteq> MachineVolumeKeyPath (UUIDString i)"
    by (simp add: MachineVolumeKeyPath_def)
  from fstore.mint_other [OF assms(1,5) this] fstore.mint_then_get [OF assms(1,5)] assms(5) show ?thesis
    by (auto simp: GetMachineVolumeKey_def MintMachineVolumeKey_def Let_def split: sum.splits prod.splits)
qed

definition ex_fs :: fsctx where
  "ex_fs = \<lparr>fx_mkdir = None, fx_read = None, fx_write = None, fx_rename = None\<rparr>"

theorem volume_key_roundtrip_witness:
  "\<exists>s'. MintMachineVolumeKey (file_ops ex_fs) \<lparr>fs_file = Missing, fs_tmp = Missing\<rparr> (Inr [1, 2, 3]) (UUIDString (uid 1))
      = (s', Inr (b64_encode [1, 2, 3]))
     \<and> GetMachineVolumeKey (file_ops ex_fs) s' (UUIDString (uid 1)) = Inr (b64_encode [1, 2, 3])"
proof -
  have m: "MintMachineVolumeKey (file_ops ex_fs) \<lparr>fs_file = Missing, fs_tmp = Missing\<rparr> (Inr [1, 2, 3]) (UUIDString (uid 1))
      = (\<lparr>fs_file = Object [MachineVolumeKeyPath (UUIDString (uid 1)) \<mapsto> [volumeKeyField \<mapsto> b64_encode [1, 2, 3]]],
          fs_tmp = Missing\<rparr>, Inr (b64_encode [1, 2, 3]))"
    by (simp add: MintMachineVolumeKey_def file_ops_def file_Put_def readAll_def writeAll_def ex_fs_def Let_def
        del: b64_encode.simps)
  from volume_key_roundtrip [OF _ _ _ _ m, of "uid 2"] m show ?thesis by (simp add: ex_fs_def del: b64_encode.simps)
qed

end
