(* ===== verification/Task_Hub.thy ===== *)
theory Task_Hub
  imports Go_Channel
begin

text \<open>
  The fan-out of agent-task events (\<open>taskevents/hub.go\<close>). A stream is a ring of the last
  frames with its subscribers; streams have an identity (\<open>sm_ref\<close>), since the code compares
  stream pointers. Timers are modelled as the code sees them: an armed timer can be stopped,
  one that has fired runs its callback when it gets the lock. Channels live in a heap; a
  panic (send on or close of a closed channel) is \<open>None\<close>. The hub is the second interpretation of
  \<open>fan_out\<close>.
\<close>

record frame =
  fr_Seq :: int
  fr_Data :: string
  fr_Terminal :: bool

record stream =
  sm_ref :: nat
  sm_seq :: int
  sm_turnStart :: int
  sm_buf :: "frame list"
  sm_truncated :: bool
  sm_terminal :: bool
  sm_subs :: "(int \<times> nat) list"
  sm_nextSub :: int
  sm_reaper :: "nat option"

record hub =
  hb_bufSize :: int
  hb_retention :: int
  hb_tasks :: "string \<rightharpoonup> stream"
  hb_shutdown :: bool
  hb_chans :: "frame chan_heap"
  hb_next :: nat
  hb_armed :: "(nat \<times> string \<times> nat) list"
  hb_fired :: "(string \<times> nat) list"

definition DefaultBufferSize :: int where "DefaultBufferSize = 500"
definition DefaultRetention :: int where "DefaultRetention = 300000000000"

definition NewHub :: "int \<Rightarrow> int \<Rightarrow> hub" where
  "NewHub bufSize retention =
     \<lparr>hb_bufSize = (if bufSize \<le> 0 then DefaultBufferSize else bufSize),
      hb_retention = (if retention \<le> 0 then DefaultRetention else retention),
      hb_tasks = Map.empty, hb_shutdown = False, hb_chans = [], hb_next = 0, hb_armed = [], hb_fired = []\<rparr>"

definition Hub_Shutdown :: "hub \<Rightarrow> hub" where
  "Hub_Shutdown h = h\<lparr>hb_shutdown := True\<rparr>"

definition new_stream :: "nat \<Rightarrow> stream" where
  "new_stream r = \<lparr>sm_ref = r, sm_seq = 0, sm_turnStart = 0, sm_buf = [], sm_truncated = False,
     sm_terminal = False, sm_subs = [], sm_nextSub = 0, sm_reaper = None\<rparr>"

text \<open>The stream of a task, created and registered when there is none.\<close>

definition stream_of :: "hub \<Rightarrow> string \<Rightarrow> hub \<times> stream" where
  "stream_of h t = (case hb_tasks h t of
       Some s \<Rightarrow> (h, s)
     | None \<Rightarrow> let s = new_stream (hb_next h)
               in (h\<lparr>hb_next := hb_next h + 1, hb_tasks := (hb_tasks h)(t \<mapsto> s)\<rparr>, s))"

definition put_stream :: "hub \<Rightarrow> string \<Rightarrow> stream \<Rightarrow> hub" where
  "put_stream h t s = h\<lparr>hb_tasks := (hb_tasks h)(t \<mapsto> s)\<rparr>"

text \<open>\<open>reaper.Stop()\<close>: an armed timer is gone, one that has fired is not.\<close>

definition stop_timer :: "hub \<Rightarrow> nat option \<Rightarrow> hub" where
  "stop_timer h r = (case r of None \<Rightarrow> h | Some k \<Rightarrow> h\<lparr>hb_armed := filter (\<lambda>x. fst x \<noteq> k) (hb_armed h)\<rparr>)"

definition scheduleReap :: "hub \<Rightarrow> string \<Rightarrow> stream \<Rightarrow> hub" where
  "scheduleReap h t s =
     (let h1 = stop_timer h (sm_reaper s); k = hb_next h1
      in put_stream (h1\<lparr>hb_next := k + 1, hb_armed := hb_armed h1 @ [(k, t, sm_ref s)]\<rparr>) t (s\<lparr>sm_reaper := Some k\<rparr>))"

definition fire :: "hub \<Rightarrow> nat \<Rightarrow> hub" where
  "fire h k = h\<lparr>hb_armed := filter (\<lambda>x. fst x \<noteq> k) (hb_armed h),
     hb_fired := hb_fired h @ map snd (filter (\<lambda>x. fst x = k) (hb_armed h))\<rparr>"

text \<open>The callback of a fired timer, once it holds the lock.\<close>

definition reap :: "hub \<Rightarrow> string \<Rightarrow> nat \<Rightarrow> hub" where
  "reap h t r = (case hb_tasks h t of
       Some s \<Rightarrow> if sm_ref s = r \<and> sm_subs s = [] then h\<lparr>hb_tasks := (hb_tasks h)(t := None)\<rparr> else h
     | None \<Rightarrow> h)"

definition push_frame :: "int \<Rightarrow> stream \<Rightarrow> frame \<Rightarrow> stream \<times> bool" where
  "push_frame bufSize s f =
     (let buf = sm_buf s @ [f]
      in if int (length buf) > bufSize
         then (s\<lparr>sm_seq := fr_Seq f, sm_buf := drop (length buf - nat bufSize) buf, sm_truncated := True\<rparr>, \<not> sm_truncated s)
         else (s\<lparr>sm_seq := fr_Seq f, sm_buf := buf\<rparr>, False))"

definition next_frame :: "stream \<Rightarrow> string \<Rightarrow> bool \<Rightarrow> frame" where
  "next_frame s data terminal = \<lparr>fr_Seq = sm_seq s + 1, fr_Data = data, fr_Terminal = terminal\<rparr>"

definition Hub_Publish :: "hub \<Rightarrow> string \<Rightarrow> string \<Rightarrow> bool \<Rightarrow> (hub \<times> bool) option" where
  "Hub_Publish h t data terminal =
     (let (h1, s) = stream_of h t; f = next_frame s data terminal; (s1, firstTruncation) = push_frame (hb_bufSize h1) s f
      in case send_all (map snd (sm_subs s1)) f (hb_chans h1) of
           None \<Rightarrow> None
         | Some cs \<Rightarrow>
           (let h2 = h1\<lparr>hb_chans := cs\<rparr>
            in if terminal then Some (scheduleReap h2 t (s1\<lparr>sm_terminal := True\<rparr>), firstTruncation)
               else Some (put_stream h2 t s1, firstTruncation)))"

text \<open>Backlog, subscription (stream identity, id, channel) and whether the run has ended.\<close>

definition Hub_Subscribe :: "hub \<Rightarrow> string \<Rightarrow> int \<Rightarrow> hub \<times> frame list \<times> (nat \<times> int \<times> nat) \<times> bool" where
  "Hub_Subscribe h t afterSeq =
     (let (h1, s) = stream_of h t;
          h2 = stop_timer h1 (sm_reaper s);
          lower = max afterSeq (sm_turnStart s);
          backlog = filter (\<lambda>f. fr_Seq f > lower) (sm_buf s);
          (cs, live) = make_chan 64 (hb_chans h2);
          i = sm_nextSub s
      in (put_stream (h2\<lparr>hb_chans := cs\<rparr>) t
            (s\<lparr>sm_reaper := None, sm_nextSub := i + 1, sm_subs := sm_subs s @ [(i, live)]\<rparr>),
          backlog, (sm_ref s, i, live), sm_terminal s))"

definition Hub_cancel :: "hub \<Rightarrow> string \<Rightarrow> nat \<times> int \<times> nat \<Rightarrow> hub option" where
  "Hub_cancel h t sub =
     (let (r, i, live) = sub
      in case hb_tasks h t of
           None \<Rightarrow> Some h
         | Some s \<Rightarrow>
           if sm_ref s \<noteq> r then Some h
           else case close_chan live (hb_chans h) of
             None \<Rightarrow> None
           | Some cs \<Rightarrow>
             (let s1 = s\<lparr>sm_subs := filter (\<lambda>x. fst x \<noteq> i) (sm_subs s)\<rparr>; h1 = h\<lparr>hb_chans := cs\<rparr>
              in Some (if sm_terminal s1 \<and> sm_subs s1 = [] then scheduleReap h1 t s1 else put_stream h1 t s1)))"

definition Reopen :: "hub \<Rightarrow> string \<Rightarrow> hub" where
  "Reopen h t =
     (let (h1, s) = stream_of h t
      in put_stream (stop_timer h1 (sm_reaper s)) t
           (s\<lparr>sm_terminal := False, sm_turnStart := sm_seq s, sm_reaper := None\<rparr>))"

section \<open>Invariant\<close>

definition ring_ok :: "int \<Rightarrow> stream \<Rightarrow> bool" where
  "ring_ok n s = (0 \<le> sm_turnStart s \<and> sm_turnStart s \<le> sm_seq s \<and> int (length (sm_buf s)) \<le> n
     \<and> int (length (sm_buf s)) \<le> sm_seq s
     \<and> map fr_Seq (sm_buf s) = [sm_seq s - int (length (sm_buf s)) + 1 .. sm_seq s])"

definition subs_ok :: "frame chan_heap \<Rightarrow> stream \<Rightarrow> bool" where
  "subs_ok cs s = (distinct (map fst (sm_subs s)) \<and> distinct (map snd (sm_subs s))
     \<and> (\<forall>(i, c) \<in> set (sm_subs s). i < sm_nextSub s \<and> open_chan cs c))"

definition subs_at :: "hub \<Rightarrow> string \<Rightarrow> nat set" where
  "subs_at h t = (case hb_tasks h t of None \<Rightarrow> {} | Some s \<Rightarrow> snd ` set (sm_subs s))"

definition hub_ok :: "hub \<Rightarrow> bool" where
  "hub_ok h = (0 < hb_bufSize h
     \<and> (\<forall>t s. hb_tasks h t = Some s \<longrightarrow> ring_ok (hb_bufSize h) s \<and> subs_ok (hb_chans h) s)
     \<and> (\<forall>t1 t2. t1 \<noteq> t2 \<longrightarrow> subs_at h t1 \<inter> subs_at h t2 = {}))"

lemma hub_okI:
  assumes "0 < hb_bufSize h" "\<And>t s. hb_tasks h t = Some s \<Longrightarrow> ring_ok (hb_bufSize h) s \<and> subs_ok (hb_chans h) s"
    "\<And>t1 t2. t1 \<noteq> t2 \<Longrightarrow> subs_at h t1 \<inter> subs_at h t2 = {}"
  shows "hub_ok h"
  using assms by (simp add: hub_ok_def)

lemma hub_okD:
  assumes "hub_ok h"
  shows "0 < hb_bufSize h" "hb_tasks h t = Some s \<Longrightarrow> ring_ok (hb_bufSize h) s \<and> subs_ok (hb_chans h) s"
    "t1 \<noteq> t2 \<Longrightarrow> subs_at h t1 \<inter> subs_at h t2 = {}"
  using assms by (simp_all add: hub_ok_def)

lemma NewHub_ok: "hub_ok (NewHub n r)"
  by (rule hub_okI) (simp_all add: NewHub_def DefaultBufferSize_def subs_at_def)

lemma new_stream_ok [simp]: "0 < n \<Longrightarrow> ring_ok n (new_stream r)" "subs_ok cs (new_stream r)" "sm_subs (new_stream r) = []"
  by (simp_all add: new_stream_def ring_ok_def subs_ok_def)

lemma stream_of_ok:
  assumes "hub_ok h" "stream_of h t = (h1, s)"
  shows "hub_ok h1" "hb_tasks h1 t = Some s" "hb_chans h1 = hb_chans h" "hb_bufSize h1 = hb_bufSize h"
    "(hb_tasks h1)(t \<mapsto> x) = (hb_tasks h)(t \<mapsto> x)" "subs_at h1 t' = subs_at h t'"
    "hb_tasks h t = Some s0 \<Longrightarrow> s = s0" "ring_ok (hb_bufSize h) s" "subs_ok (hb_chans h) s"
    "subs_at h t = snd ` set (sm_subs s)"
proof -
  let ?h = "h\<lparr>hb_next := hb_next h + 1, hb_tasks := (hb_tasks h)(t \<mapsto> new_stream (hb_next h))\<rparr>"
  have new: "h1 = ?h \<and> s = new_stream (hb_next h)" if "hb_tasks h t = None"
    using that assms(2) by (auto simp: stream_of_def Let_def)
  have old: "h1 = h \<and> s = s0" if "hb_tasks h t = Some s0" for s0
    using that assms(2) by (auto simp: stream_of_def)
  show tasks: "hb_tasks h1 t = Some s" and chans: "hb_chans h1 = hb_chans h" and buf: "hb_bufSize h1 = hb_bufSize h"
    and "(hb_tasks h1)(t \<mapsto> x) = (hb_tasks h)(t \<mapsto> x)"
    using new old by (cases "hb_tasks h t"; simp)+
  have at: "subs_at h1 t' = subs_at h t'" for t'
    using new old by (cases "hb_tasks h t") (auto simp: subs_at_def)
  then show "subs_at h1 t' = subs_at h t'" .
  show ok: "hub_ok h1"
  proof (cases "hb_tasks h t")
    case None
    have subs: "subs_at ?h t' = subs_at h t'" for t' using None by (simp add: subs_at_def)
    have "hub_ok ?h"
    proof (rule hub_okI)
      show "0 < hb_bufSize ?h" using hub_okD [OF assms(1)] by simp
      show "ring_ok (hb_bufSize ?h) r \<and> subs_ok (hb_chans ?h) r" if "hb_tasks ?h t' = Some r" for t' r
        using that hub_okD(1,2) [OF assms(1)] by (auto split: if_splits)
      show "subs_at ?h t1 \<inter> subs_at ?h t2 = {}" if "t1 \<noteq> t2" for t1 t2
        unfolding subs using hub_okD(3) [OF assms(1) that] .
    qed
    with new None show ?thesis by simp
  qed (use old assms(1) in auto)
  show "s = s0" if "hb_tasks h t = Some s0" using old that by simp
  from hub_okD(2) [OF ok tasks] chans buf
  show "ring_ok (hb_bufSize h) s" "subs_ok (hb_chans h) s" by simp_all
  show "subs_at h t = snd ` set (sm_subs s)" using at [of t] tasks by (simp add: subs_at_def)
qed

lemma hub_ok_tables [simp]:
  "hub_ok (h\<lparr>hb_armed := a\<rparr>) = hub_ok h" "hub_ok (h\<lparr>hb_fired := f\<rparr>) = hub_ok h"
  "hub_ok (h\<lparr>hb_next := n\<rparr>) = hub_ok h" "hub_ok (h\<lparr>hb_shutdown := b\<rparr>) = hub_ok h"
  by (simp_all add: hub_ok_def subs_at_def)

lemma stop_timer_simps [simp]:
  "hub_ok (stop_timer h r) = hub_ok h" "hb_tasks (stop_timer h r) = hb_tasks h"
  "hb_chans (stop_timer h r) = hb_chans h" "hb_bufSize (stop_timer h r) = hb_bufSize h"
  by (simp_all add: stop_timer_def split: option.splits)

text \<open>
  Replacing one stream: what the new one has to satisfy in the new heap, and that the heap
  kept the other streams' channels open.
\<close>

lemma put_stream_ok:
  assumes ok: "hub_ok h" and new: "ring_ok (hb_bufSize h) s" "subs_ok cs s"
    and others: "\<And>t'. t' \<noteq> t \<Longrightarrow> subs_at h t' \<inter> snd ` set (sm_subs s) = {}"
    and opened: "\<And>t' c. t' \<noteq> t \<Longrightarrow> c \<in> subs_at h t' \<Longrightarrow> open_chan (hb_chans h) c \<Longrightarrow> open_chan cs c"
  shows "hub_ok (put_stream (h\<lparr>hb_chans := cs\<rparr>) t s)"
proof (rule hub_okI)
  let ?h = "put_stream (h\<lparr>hb_chans := cs\<rparr>) t s"
  show "0 < hb_bufSize ?h" using hub_okD(1) [OF ok] by (simp add: put_stream_def)
  have at: "subs_at ?h t' = (if t' = t then snd ` set (sm_subs s) else subs_at h t')" for t'
    by (simp add: subs_at_def put_stream_def)
  show "ring_ok (hb_bufSize ?h) r \<and> subs_ok (hb_chans ?h) r" if r: "hb_tasks ?h t' = Some r" for t' r
  proof (cases "t' = t")
    case True
    with r new show ?thesis by (simp add: put_stream_def)
  next
    case False
    with r have "hb_tasks h t' = Some r" by (simp add: put_stream_def)
    moreover from this have "c \<in> subs_at h t'" if "(i, c) \<in> set (sm_subs r)" for i c
      using that by (force simp: subs_at_def)
    ultimately show ?thesis
      using hub_okD(2) [OF ok, of t' r] opened [OF False] by (fastforce simp: put_stream_def subs_ok_def)
  qed
  show "subs_at ?h t1 \<inter> subs_at ?h t2 = {}" if "t1 \<noteq> t2" for t1 t2
    using that others [of t1] others [of t2] hub_okD(3) [OF ok that] by (auto simp: at)
qed

lemma put_stream_same:
  assumes "hub_ok h" "ring_ok (hb_bufSize h) s" "subs_ok (hb_chans h) s" "snd ` set (sm_subs s) \<subseteq> subs_at h t"
  shows "hub_ok (put_stream h t s)"
proof -
  have "subs_at h t' \<inter> snd ` set (sm_subs s) = {}" if "t' \<noteq> t" for t'
    using hub_okD(3) [OF assms(1) that] assms(4) by auto
  from put_stream_ok [OF assms(1-3) this] show ?thesis by simp
qed

lemma scheduleReap_ok:
  assumes "hub_ok h" "ring_ok (hb_bufSize h) s" "subs_ok (hb_chans h) s" "snd ` set (sm_subs s) \<subseteq> subs_at h t"
  shows "hub_ok (scheduleReap h t s)"
proof -
  let ?h1 = "stop_timer h (sm_reaper s)"
  have "hub_ok (?h1\<lparr>hb_next := hb_next ?h1 + 1, hb_armed := hb_armed ?h1 @ [(hb_next ?h1, t, sm_ref s)]\<rparr>)"
    using assms(1) by simp
  from put_stream_same [OF this, of "s\<lparr>sm_reaper := Some (hb_next ?h1)\<rparr>" t] assms(2-4) show ?thesis
    by (simp add: scheduleReap_def Let_def ring_ok_def subs_ok_def subs_at_def)
qed

section \<open>Every operation keeps the invariant\<close>

lemma push_frame_ok:
  assumes "ring_ok n s" "0 < n" "push_frame n s (next_frame s d b) = (s1, first)"
  shows "ring_ok n s1 \<and> sm_subs s1 = sm_subs s \<and> sm_nextSub s1 = sm_nextSub s \<and> sm_seq s1 = sm_seq s + 1
    \<and> sm_turnStart s1 = sm_turnStart s \<and> sm_ref s1 = sm_ref s \<and> sm_terminal s1 = sm_terminal s
    \<and> sm_reaper s1 = sm_reaper s \<and> last (sm_buf s1) = next_frame s d b \<and> sm_buf s1 \<noteq> []"
proof -
  let ?b = "sm_buf s @ [next_frame s d b]"
  have r: "map fr_Seq (sm_buf s) = [sm_seq s - int (length (sm_buf s)) + 1 .. sm_seq s]"
    "int (length (sm_buf s)) \<le> n" "int (length (sm_buf s)) \<le> sm_seq s"
    "0 \<le> sm_turnStart s" "sm_turnStart s \<le> sm_seq s"
    using assms(1) by (simp_all add: ring_ok_def)
  have all: "map fr_Seq ?b = [sm_seq s + 1 - int (length ?b) + 1 .. sm_seq s + 1]"
    using r(1) by (simp add: next_frame_def upto_rec2 [of "sm_seq s - int (length (sm_buf s)) + 1" "sm_seq s + 1"])
  show ?thesis
  proof (cases "int (length ?b) > n")
    case False
    with assms(3) have "s1 = s\<lparr>sm_seq := sm_seq s + 1, sm_buf := ?b\<rparr>"
      by (auto simp: push_frame_def Let_def next_frame_def)
    with all r False show ?thesis by (simp add: ring_ok_def next_frame_def)
  next
    case True
    then have n: "int (length (sm_buf s)) = n" using r(2) by simp
    with assms(3) have s1: "s1 = s\<lparr>sm_seq := sm_seq s + 1, sm_buf := drop 1 ?b, sm_truncated := True\<rparr>"
      by (auto simp: push_frame_def Let_def next_frame_def)
    obtain f fs where fs: "sm_buf s = f # fs" using n assms(2) by (cases "sm_buf s") auto
    with all have "map fr_Seq (drop 1 ?b) = [sm_seq s + 1 - int (length (drop 1 ?b)) + 1 .. sm_seq s + 1]"
      by (simp add: upto_rec1 [of "sm_seq s - int (length fs)"] split: if_splits)
    with s1 r n fs show ?thesis by (simp add: ring_ok_def next_frame_def)
  qed
qed

definition hub_targets :: "hub \<Rightarrow> string \<times> string \<times> bool \<Rightarrow> nat list" where
  "hub_targets h p = (case hb_tasks h (fst p) of None \<Rightarrow> [] | Some s \<Rightarrow> map snd (sm_subs s))"

definition hub_frame :: "hub \<Rightarrow> string \<times> string \<times> bool \<Rightarrow> frame" where
  "hub_frame h p = next_frame (case hb_tasks h (fst p) of None \<Rightarrow> new_stream (hb_next h) | Some s \<Rightarrow> s) (fst (snd p)) (snd (snd p))"

definition hub_publish :: "hub \<Rightarrow> string \<times> string \<times> bool \<Rightarrow> hub option" where
  "hub_publish h p = map_option fst (Hub_Publish h (fst p) (fst (snd p)) (snd (snd p)))"

definition seq_of :: "hub \<Rightarrow> string \<Rightarrow> int" where
  "seq_of h t = (case hb_tasks h t of None \<Rightarrow> 0 | Some s \<Rightarrow> sm_seq s)"

definition subs_of :: "hub \<Rightarrow> string \<Rightarrow> (int \<times> nat) list" where
  "subs_of h t = (case hb_tasks h t of None \<Rightarrow> [] | Some s \<Rightarrow> sm_subs s)"

lemma put_stream_tasks [simp]: "hb_tasks (put_stream h t s) = (hb_tasks h)(t \<mapsto> s)"
  "hb_chans (put_stream h t s) = hb_chans h" "hb_bufSize (put_stream h t s) = hb_bufSize h"
  by (simp_all add: put_stream_def)

lemma scheduleReap_tasks [simp]:
  "hb_tasks (scheduleReap h t s) = (hb_tasks h)(t \<mapsto> s\<lparr>sm_reaper := Some (hb_next (stop_timer h (sm_reaper s)))\<rparr>)"
  "hb_chans (scheduleReap h t s) = hb_chans h" "hb_bufSize (scheduleReap h t s) = hb_bufSize h"
  by (simp_all add: scheduleReap_def Let_def)

lemma stream_of_fields:
  "stream_of h t = (h1, s) \<Longrightarrow> sm_seq s = seq_of h t \<and> sm_subs s = subs_of h t"
  by (auto simp: stream_of_def seq_of_def subs_of_def new_stream_def Let_def split: option.splits)

text \<open>What a publication does, in one place: it cannot panic, and only touches its own task.\<close>

lemma Hub_Publish_effect:
  assumes "hub_ok h"
  shows "\<exists>h' first s' cs. Hub_Publish h t d b = Some (h', first) \<and> hub_ok h' \<and> hb_tasks h' = (hb_tasks h)(t \<mapsto> s')
    \<and> sm_subs s' = subs_of h t \<and> sm_seq s' = seq_of h t + 1
    \<and> send_all (map snd (subs_of h t)) (hub_frame h (t, d, b)) (hb_chans h) = Some cs \<and> hb_chans h' = cs
    \<and> hb_bufSize h' = hb_bufSize h
    \<and> (\<forall>s. hb_tasks h t = Some s \<longrightarrow> sm_ref s' = sm_ref s \<and> sm_turnStart s' = sm_turnStart s
         \<and> sm_terminal s' = (b \<or> sm_terminal s))"
proof -
  obtain h1 s where so: "stream_of h t = (h1, s)" by fastforce
  note ok1 = stream_of_ok [OF assms so] and flds = stream_of_fields [OF so]
  obtain s1 first where pf: "push_frame (hb_bufSize h) s (next_frame s d b) = (s1, first)" by fastforce
  note pf1 = push_frame_ok [OF ok1(8) hub_okD(1) [OF assms] pf]
  have fr: "hub_frame h (t, d, b) = next_frame s d b"
    using so by (auto simp: hub_frame_def stream_of_def Let_def split: option.splits)
  have "\<forall>r \<in> set (map snd (sm_subs s1)). open_chan (hb_chans h) r"
    using ok1(9) pf1 by (auto simp: subs_ok_def)
  from send_all_open [OF this] obtain cs where cs:
    "send_all (map snd (sm_subs s1)) (next_frame s d b) (hb_chans h) = Some cs"
    "\<And>r. open_chan cs r = open_chan (hb_chans h) r" by blast
  let ?h2 = "h1\<lparr>hb_chans := cs\<rparr>"
  have h2: "hub_ok ?h2" using ok1(1,3) cs(2) by (simp add: hub_ok_def subs_ok_def subs_at_def)
  have at: "subs_at ?h2 t = snd ` set (sm_subs s)" using ok1(2) by (simp add: subs_at_def)
  have s1: "ring_ok (hb_bufSize ?h2) s1" "subs_ok (hb_chans ?h2) s1" "snd ` set (sm_subs s1) \<subseteq> subs_at ?h2 t"
    using pf1 ok1(4,9) cs(2) at by (simp_all add: subs_ok_def)
  let ?s2 = "s1\<lparr>sm_terminal := True\<rparr>"
  have put: "hub_ok (put_stream ?h2 t s1)" using put_stream_same [OF h2 s1] .
  have sched: "hub_ok (scheduleReap ?h2 t ?s2)"
    using scheduleReap_ok [OF h2, of ?s2 t] s1 by (simp add: ring_ok_def subs_ok_def)
  show ?thesis
  proof (cases b)
    case True
    then have "Hub_Publish h t d b = Some (scheduleReap ?h2 t ?s2, first)"
      using so pf cs(1) ok1(3,4) by (simp add: Hub_Publish_def)
    then show ?thesis using True sched cs(1) pf1 flds ok1(4,5,7) fr by auto
  next
    case False
    then have "Hub_Publish h t d b = Some (put_stream ?h2 t s1, first)"
      using so pf cs(1) ok1(3,4) by (simp add: Hub_Publish_def)
    then show ?thesis using False put cs(1) pf1 flds ok1(4,5,7) fr by auto
  qed
qed

interpretation tasks: fan_out hub_publish hub_targets hb_chans hub_frame hub_ok
proof unfold_locales
  fix h p assume "hub_ok h"
  then show "\<exists>h'. hub_publish h p = Some h'"
    using Hub_Publish_effect [of h "fst p" "fst (snd p)" "snd (snd p)"] by (auto simp: hub_publish_def)
next
  fix h p h' assume "hub_ok h" "hub_publish h p = Some h'"
  then show "hub_ok h'"
    using Hub_Publish_effect [of h "fst p" "fst (snd p)" "snd (snd p)"] by (auto simp: hub_publish_def)
next
  fix h p h' w assume "hub_ok h" "hub_publish h p = Some h'"
  then show "hub_targets h' w = hub_targets h w"
    using Hub_Publish_effect [of h "fst p" "fst (snd p)" "snd (snd p)"]
    by (fastforce simp: hub_publish_def hub_targets_def subs_of_def split: option.splits if_splits)
next
  fix h p h' r assume h: "hub_ok h" "hub_publish h p = Some h'" "r < length (hb_chans h)"
  obtain t d b where p: "p = (t, d, b)" by (cases p)
  have "distinct (map snd (subs_of h t))" "hub_targets h p = map snd (subs_of h t)"
    using hub_okD(2) [OF h(1)] p by (auto simp: subs_of_def subs_ok_def hub_targets_def split: option.splits)
  then show "length (hb_chans h') = length (hb_chans h)
      \<and> hb_chans h' ! r = (if r \<in> set (hub_targets h p) then push (hub_frame h p) (hb_chans h ! r) else hb_chans h ! r)"
    using Hub_Publish_effect [OF h(1), of t d b] send_all_nth [of "map snd (subs_of h t)"] h(2,3) p
    by (fastforce simp: hub_publish_def)
qed

lemma Hub_Subscribe_effect:
  assumes "hub_ok h" "Hub_Subscribe h t n = (h', backlog, (r, i, c), ended)"
  shows "hub_ok h' \<and> c = length (hb_chans h)
    \<and> hb_chans h' = hb_chans h @ [\<lparr>ch_buf = [], ch_cap = 64, ch_closed = False\<rparr>]
    \<and> hb_bufSize h' = hb_bufSize h
    \<and> (\<exists>s'. hb_tasks h' = (hb_tasks h)(t \<mapsto> s') \<and> sm_subs s' = subs_of h t @ [(i, c)] \<and> sm_ref s' = r
         \<and> sm_seq s' = seq_of h t \<and> ring_ok (hb_bufSize h) s'
         \<and> backlog = filter (\<lambda>f. fr_Seq f > max n (sm_turnStart s')) (sm_buf s') \<and> ended = sm_terminal s'
         \<and> (\<forall>s. hb_tasks h t = Some s \<longrightarrow> sm_ref s' = sm_ref s))
    \<and> i \<notin> fst ` set (subs_of h t)"
proof -
  obtain h1 s where so: "stream_of h t = (h1, s)" by fastforce
  note ok1 = stream_of_ok [OF assms(1) so] and flds = stream_of_fields [OF so]
  let ?c = "length (hb_chans h)" and ?i = "sm_nextSub s"
  let ?cs = "hb_chans h @ [\<lparr>ch_buf = [], ch_cap = 64, ch_closed = False\<rparr>]"
  let ?s' = "s\<lparr>sm_reaper := None, sm_nextSub := ?i + 1, sm_subs := sm_subs s @ [(?i, ?c)]\<rparr>"
  let ?h2 = "stop_timer h1 (sm_reaper s)"
  have lt: "k < ?c" if "k \<in> subs_at h t'" for k t'
    using that hub_okD(2) [OF assms(1)] by (fastforce simp: subs_at_def subs_ok_def open_chan_def split: option.splits)
  have i: "?i \<notin> fst ` set (sm_subs s)" using ok1(9) by (auto simp: subs_ok_def)
  have "?c \<notin> snd ` set (sm_subs s)" using lt [of ?c t] ok1(10) by auto
  then have new: "subs_ok ?cs ?s'"
    using ok1(9) i by (fastforce simp: subs_ok_def open_chan_fresh intro: open_chan_make)
  have ring: "ring_ok (hb_bufSize ?h2) ?s'" using ok1(4,8) by (simp add: ring_ok_def)
  have at: "subs_at ?h2 t' = subs_at h t'" for t' using ok1(6) by (simp add: subs_at_def)
  have disj: "subs_at ?h2 t' \<inter> snd ` set (sm_subs ?s') = {}" if "t' \<noteq> t" for t'
    using hub_okD(3) [OF assms(1) that] lt [of ?c t'] ok1(10) by (auto simp: at)
  have "hub_ok (put_stream (?h2\<lparr>hb_chans := ?cs\<rparr>) t ?s')"
    by (rule put_stream_ok [OF _ ring new disj]) (use ok1(1,3) in \<open>auto intro: open_chan_make\<close>)
  moreover have "h' = put_stream (?h2\<lparr>hb_chans := ?cs\<rparr>) t ?s'" "i = ?i" "c = ?c" "r = sm_ref s" "ended = sm_terminal s"
    "backlog = filter (\<lambda>f. fr_Seq f > max n (sm_turnStart s)) (sm_buf s)"
    using assms(2) so ok1(3) by (auto simp: Hub_Subscribe_def make_chan_def Let_def)
  ultimately show ?thesis using i ring flds ok1(4,5,7) by auto
qed

lemma Hub_cancel_effect:
  assumes "hub_ok h" "hb_tasks h t = Some s" "sm_ref s = r" "(i, c) \<in> set (sm_subs s)"
  shows "\<exists>h' s'. Hub_cancel h t (r, i, c) = Some h' \<and> hub_ok h' \<and> hb_tasks h' = (hb_tasks h)(t \<mapsto> s')
    \<and> sm_ref s' = r \<and> sm_subs s' = filter (\<lambda>x. fst x \<noteq> i) (sm_subs s)"
proof -
  have rs: "ring_ok (hb_bufSize h) s" "subs_ok (hb_chans h) s" using assms(1,2) hub_okD by blast+
  have c: "open_chan (hb_chans h) c" using rs(2) assms(4) by (auto simp: subs_ok_def)
  let ?cs = "(hb_chans h)[c := (hb_chans h ! c)\<lparr>ch_closed := True\<rparr>]"
  let ?s = "s\<lparr>sm_subs := filter (\<lambda>x. fst x \<noteq> i) (sm_subs s)\<rparr>"
  have close: "close_chan c (hb_chans h) = Some ?cs" using c by (simp add: close_chan_def open_chan_def)
  have opn: "open_chan ?cs k" if "open_chan (hb_chans h) k" "k \<noteq> c" for k using that by (simp add: open_chan_def)
  have rest: "k \<noteq> c" if "(j, k) \<in> set (sm_subs s)" "j \<noteq> i" for j k
    using that assms(4) rs(2) by (fastforce simp: subs_ok_def distinct_map inj_on_def)
  have so: "subs_ok ?cs ?s"
    using rs(2) opn rest by (auto simp: subs_ok_def intro: distinct_map_filter)
  have ro: "ring_ok n ?s = ring_ok n s" for n by (simp add: ring_ok_def)
  have sub: "snd ` set (sm_subs ?s) \<subseteq> subs_at h t" using assms(2) by (auto simp: subs_at_def)
  have disj: "subs_at h t' \<inter> snd ` set (sm_subs ?s) = {}" if "t' \<noteq> t" for t'
    using hub_okD(3) [OF assms(1) that] sub by blast
  have other: "open_chan ?cs k" if "t' \<noteq> t" "k \<in> subs_at h t'" "open_chan (hb_chans h) k" for t' k
    using that hub_okD(3) [OF assms(1) that(1)] assms(2,4) opn by (force simp: subs_at_def)
  have ok: "hub_ok (put_stream (h\<lparr>hb_chans := ?cs\<rparr>) t ?s)"
    using rs(1) so disj other by (intro put_stream_ok [OF assms(1)]) (auto simp: ro)
  let ?h = "put_stream (h\<lparr>hb_chans := ?cs\<rparr>) t ?s"
  have "hub_ok (scheduleReap ?h t ?s)"
    using rs(1) so by (intro scheduleReap_ok [OF ok]) (auto simp: ro subs_at_def)
  moreover have "scheduleReap ?h t ?s = scheduleReap (h\<lparr>hb_chans := ?cs\<rparr>) t ?s"
    by (simp add: scheduleReap_def put_stream_def stop_timer_def Let_def split: option.splits)
  ultimately show ?thesis using assms(2,3) close ok by (auto simp: Hub_cancel_def Let_def)
qed

lemma Reopen_effect:
  assumes "hub_ok h"
  shows "hub_ok (Reopen h t) \<and> (\<exists>s'. hb_tasks (Reopen h t) = (hb_tasks h)(t \<mapsto> s') \<and> sm_subs s' = subs_of h t
    \<and> \<not> sm_terminal s' \<and> sm_turnStart s' = seq_of h t \<and> sm_seq s' = seq_of h t
    \<and> (\<forall>s. hb_tasks h t = Some s \<longrightarrow> sm_ref s' = sm_ref s)) \<and> hb_chans (Reopen h t) = hb_chans h"
proof -
  obtain h1 s where so: "stream_of h t = (h1, s)" by fastforce
  note ok1 = stream_of_ok [OF assms so] and flds = stream_of_fields [OF so]
  let ?s = "s\<lparr>sm_terminal := False, sm_turnStart := sm_seq s, sm_reaper := None\<rparr>"
  have "hub_ok (put_stream (stop_timer h1 (sm_reaper s)) t ?s)"
  proof (rule put_stream_same)
    show "snd ` set (sm_subs ?s) \<subseteq> subs_at (stop_timer h1 (sm_reaper s)) t" using ok1(2) by (simp add: subs_at_def)
  qed (use ok1(1,3,4,8,9) in \<open>simp_all add: ring_ok_def subs_ok_def\<close>)
  then show ?thesis using so flds ok1(3,5,7) by (auto simp: Reopen_def Let_def)
qed

lemma reap_ok: assumes "hub_ok h" shows "hub_ok (reap h t r)"
proof -
  have "hub_ok (h\<lparr>hb_tasks := (hb_tasks h)(t := None)\<rparr>)"
  proof (rule hub_okI)
    have at: "subs_at (h\<lparr>hb_tasks := (hb_tasks h)(t := None)\<rparr>) t' \<subseteq> subs_at h t'" for t'
      by (auto simp: subs_at_def)
    show "subs_at (h\<lparr>hb_tasks := (hb_tasks h)(t := None)\<rparr>) t1 \<inter> subs_at (h\<lparr>hb_tasks := (hb_tasks h)(t := None)\<rparr>) t2 = {}"
      if "t1 \<noteq> t2" for t1 t2 using hub_okD(3) [OF assms that] at by blast
  qed (use hub_okD(1,2) [OF assms] in \<open>auto split: if_splits\<close>)
  with assms show ?thesis by (simp add: reap_def split: option.splits)
qed

lemma fire_ok: "hub_ok (fire h k) = hub_ok h"
  by (simp add: fire_def hub_ok_def subs_at_def)

section \<open>Histories of a hub\<close>

text \<open>
  The states reached by any interleaving of the operations, with the subscriptions that have
  been handed out and not cancelled yet: \<open>cancel\<close> is called once per subscription, as its
  callers do (\<open>defer cancel()\<close>). A timer's callback runs only after the timer fired.
\<close>

type_synonym held = "(string \<times> nat \<times> int \<times> nat) list"

inductive hub_step :: "hub \<times> held \<Rightarrow> hub \<times> held \<Rightarrow> bool" where
  publish: "Hub_Publish h t d b = Some (h', first) \<Longrightarrow> hub_step (h, H) (h', H)"
| subscribe: "Hub_Subscribe h t n = (h', backlog, (r, i, c), ended) \<Longrightarrow> hub_step (h, H) (h', (t, r, i, c) # H)"
| cancel: "(t, r, i, c) \<in> set H \<Longrightarrow> Hub_cancel h t (r, i, c) = Some h' \<Longrightarrow> hub_step (h, H) (h', removeAll (t, r, i, c) H)"
| reopen: "hub_step (h, H) (Reopen h t, H)"
| fires: "hub_step (h, H) (fire h k, H)"
| reaps: "(t, r) \<in> set (hb_fired h) \<Longrightarrow> hub_step (h, H) (reap (h\<lparr>hb_fired := remove1 (t, r) (hb_fired h)\<rparr>) t r, H)"
| receive: "hub_step (h, H) (h\<lparr>hb_chans := snd (recv c (hb_chans h))\<rparr>, H)"
| shutdown: "hub_step (h, H) (Hub_Shutdown h, H)"

inductive hub_reachable :: "hub \<times> held \<Rightarrow> bool" where
  start: "hub_reachable (NewHub n r, [])"
| step: "hub_reachable x \<Longrightarrow> hub_step x y \<Longrightarrow> hub_reachable y"

definition held_ok :: "hub \<Rightarrow> held \<Rightarrow> bool" where
  "held_ok h H = (\<forall>(t, r, i, c) \<in> set H. \<exists>s. hb_tasks h t = Some s \<and> sm_ref s = r \<and> (i, c) \<in> set (sm_subs s))"

lemma held_okD: "held_ok h H \<Longrightarrow> (t, r, i, c) \<in> set H \<Longrightarrow>
    \<exists>s. hb_tasks h t = Some s \<and> sm_ref s = r \<and> (i, c) \<in> set (sm_subs s)"
  by (auto simp: held_ok_def)

lemma held_okI:
  "(\<And>t r i c. (t, r, i, c) \<in> set H \<Longrightarrow> \<exists>s. hb_tasks h t = Some s \<and> sm_ref s = r \<and> (i, c) \<in> set (sm_subs s))
   \<Longrightarrow> held_ok h H"
  by (auto simp: held_ok_def)

lemma held_ok_mono:
  assumes "held_ok h H" "hb_tasks h' = (hb_tasks h)(t \<mapsto> s')" "set (subs_of h t) \<subseteq> set (sm_subs s')"
    "\<And>s. hb_tasks h t = Some s \<Longrightarrow> sm_ref s' = sm_ref s"
  shows "held_ok h' H"
  using assms unfolding held_ok_def subs_of_def by fastforce

lemma recv_open: "open_chan (snd (recv c cs)) k = open_chan cs k"
  by (auto simp: recv_def open_chan_def nth_list_update)

lemma held_ok_cong: "held_ok h H \<Longrightarrow> hb_tasks h' = hb_tasks h \<Longrightarrow> held_ok h' H"
  by (simp add: held_ok_def)

lemma held_ok_cancel:
  assumes "held_ok h H" "hub_ok h" "hb_tasks h t = Some s" "(i, c) \<in> set (sm_subs s)" "sm_ref s = r"
    "hb_tasks h' = (hb_tasks h)(t \<mapsto> s')" "sm_ref s' = r" "sm_subs s' = filter (\<lambda>x. fst x \<noteq> i) (sm_subs s)"
  shows "held_ok h' (removeAll (t, r, i, c) H)"
proof (rule held_okI)
  fix t1 r1 i1 c1 assume "(t1, r1, i1, c1) \<in> set (removeAll (t, r, i, c) H)"
  then have mem: "(t1, r1, i1, c1) \<in> set H" and ne: "(t1, r1, i1, c1) \<noteq> (t, r, i, c)" by auto
  obtain s1 where s1: "hb_tasks h t1 = Some s1" "sm_ref s1 = r1" "(i1, c1) \<in> set (sm_subs s1)"
    using held_okD [OF assms(1) mem] by blast
  have "i1 \<noteq> i" if "t1 = t"
    using that ne s1 assms(3-5) hub_okD(2) [OF assms(2,3)] by (fastforce simp: subs_ok_def distinct_map inj_on_def)
  then show "\<exists>s. hb_tasks h' t1 = Some s \<and> sm_ref s = r1 \<and> (i1, c1) \<in> set (sm_subs s)"
    using s1 assms(3,5-8) by (cases "t1 = t") auto
qed

lemma held_ok_reap:
  assumes "held_ok h H"
  shows "held_ok (reap h t r) H"
proof (rule held_okI)
  fix t1 r1 i1 c1 assume mem: "(t1, r1, i1, c1) \<in> set H"
  obtain s1 where s1: "hb_tasks h t1 = Some s1" "sm_ref s1 = r1" "(i1, c1) \<in> set (sm_subs s1)"
    using held_okD [OF assms mem] by blast
  then show "\<exists>s. hb_tasks (reap h t r) t1 = Some s \<and> sm_ref s = r1 \<and> (i1, c1) \<in> set (sm_subs s)"
    by (cases "t1 = t") (auto simp: reap_def split: option.splits)
qed

lemma hub_step_ok:
  assumes "hub_step x y" "hub_ok (fst x) \<and> held_ok (fst x) (snd x)"
  shows "hub_ok (fst y) \<and> held_ok (fst y) (snd y)"
  using assms
proof (induction rule: hub_step.induct)
  case (publish h t d b h' first H)
  then show ?case using Hub_Publish_effect [of h t d b] held_ok_mono [of h H h' t] by auto
next
  case (subscribe h t n h' backlog r i c ended H)
  from subscribe.prems have ok: "hub_ok h" "held_ok h H" by simp_all
  from Hub_Subscribe_effect [OF ok(1) subscribe.hyps] obtain s' where s': "hub_ok h'"
    "hb_tasks h' = (hb_tasks h)(t \<mapsto> s')" "sm_subs s' = subs_of h t @ [(i, c)]" "sm_ref s' = r"
    "\<And>s. hb_tasks h t = Some s \<Longrightarrow> sm_ref s' = sm_ref s" by blast
  have "held_ok h' H" using held_ok_mono [OF ok(2) s'(2)] s'(3,5) by auto
  with s' show ?case by (simp add: held_ok_def)
next
  case (cancel t r i c H h h')
  then obtain s where "hb_tasks h t = Some s" "sm_ref s = r" "(i, c) \<in> set (sm_subs s)"
    using held_okD by fastforce
  with cancel Hub_cancel_effect [of h t s r i c] held_ok_cancel [of h H t s i c r h'] show ?case by auto
next
  case (reopen h H t)
  then show ?case using Reopen_effect [of h t] held_ok_mono [of h H "Reopen h t" t] by auto
next
  case (fires h H k)
  then show ?case using held_ok_cong [of h H "fire h k"] by (simp add: fire_ok fire_def)
next
  case (reaps t r h H)
  then have "hub_ok (h\<lparr>hb_fired := remove1 (t, r) (hb_fired h)\<rparr>)" "held_ok (h\<lparr>hb_fired := remove1 (t, r) (hb_fired h)\<rparr>) H"
    using held_ok_cong by auto
  then show ?case by (simp add: reap_ok held_ok_reap)
next
  case (receive h H c)
  then show ?case
    using held_ok_cong [of h H] by (auto simp: hub_ok_def subs_ok_def subs_at_def recv_open)
next
  case (shutdown h H)
  then show ?case using held_ok_cong [of h H] by (simp add: Hub_Shutdown_def)
qed

lemma hub_reachable_ok: "hub_reachable x \<Longrightarrow> hub_ok (fst x) \<and> held_ok (fst x) (snd x)"
proof (induction rule: hub_reachable.induct)
  case (start n r)
  then show ?case by (simp add: NewHub_ok held_ok_def)
next
  case (step x y)
  then show ?case using hub_step_ok by blast
qed

end
