(* ===== verification/Hub_Claims.thy ===== *)
theory Hub_Claims
  imports Task_Hub
begin

text \<open>
  The properties of the task-event hub: safety and the shape of the ring in every reachable
  state, gap-free resumption of a stream, and the retention timer.
\<close>

section \<open>Frames addressed to a subscriber\<close>

definition published :: "string \<Rightarrow> (string \<times> string \<times> bool) list \<Rightarrow> (string \<times> string \<times> bool) list" where
  "published t vs = filter (\<lambda>p. fst p = t) vs"

lemma targets_own:
  assumes "hub_ok h" "c \<in> snd ` set (subs_of h t)"
  shows "c \<in> set (hub_targets h p) \<longleftrightarrow> fst p = t"
proof -
  have at: "snd ` set (subs_of h t') = subs_at h t'" for t'
    by (simp add: subs_of_def subs_at_def split: option.splits)
  have tg: "set (hub_targets h p) = subs_at h (fst p)"
    by (simp add: hub_targets_def subs_at_def split: option.splits)
  show ?thesis using hub_okD(3) [OF assms(1), of "fst p" t] assms(2) at tg by blast
qed

lemma hub_publish_effect:
  assumes "hub_ok h"
  shows "\<exists>h'. hub_publish h p = Some h' \<and> hub_ok h' \<and> subs_of h' t = subs_of h t
    \<and> seq_of h' t = seq_of h t + (if fst p = t then 1 else 0)"
  using Hub_Publish_effect [OF assms, of "fst p" "fst (snd p)" "snd (snd p)"]
  by (fastforce simp: hub_publish_def subs_of_def seq_of_def)

lemma hub_frame_simps [simp]:
  "fr_Seq (hub_frame h p) = seq_of h (fst p) + 1" "fr_Data (hub_frame h p) = fst (snd p)"
  by (simp_all add: hub_frame_def next_frame_def seq_of_def new_stream_def split: option.splits)

lemma addressed_numbered:
  assumes "hub_ok h" "c \<in> snd ` set (subs_of h t)"
  shows "map fr_Seq (tasks.addressed c vs h) = [seq_of h t + 1 .. seq_of h t + int (length (published t vs))]
    \<and> map fr_Data (tasks.addressed c vs h) = map (\<lambda>p. fst (snd p)) (published t vs)"
  using assms
proof (induction vs arbitrary: h)
  case (Cons p vs)
  obtain h' where h': "hub_publish h p = Some h'" "hub_ok h'" "subs_of h' t = subs_of h t"
    "seq_of h' t = seq_of h t + (if fst p = t then 1 else 0)" using hub_publish_effect [OF Cons.prems(1)] by blast
  note IH = Cons.IH [OF h'(2)]
  show ?case
  proof (cases "fst p = t")
    case True
    with Cons.prems h' IH show ?thesis
      by (simp add: targets_own published_def upto_rec1 [of "1 + seq_of h t"] algebra_simps)
  next
    case False
    with Cons.prems h' IH show ?thesis by (simp add: targets_own published_def)
  qed
qed (simp add: published_def)

lemma upto_append:
  fixes a :: int
  assumes "a \<le> b + 1" "b \<le> c"
  shows "[a .. b] @ [b + 1 .. c] = [a .. c]"
proof (cases "a \<le> b")
  case True
  with assms(2) show ?thesis using upto_split2 [of a b c] by simp
next
  case False
  with assms(1) have "a = b + 1" by simp
  then show ?thesis by simp
qed

lemma backlog_seqs:
  assumes "map fr_Seq fs = [a .. b]" "a \<le> k + 1"
  shows "map fr_Seq (filter (\<lambda>f. fr_Seq f > k) fs) = [k + 1 .. b]"
proof -
  have "map fr_Seq (filter (\<lambda>f. fr_Seq f > k) fs) = filter (\<lambda>i. i > k) (map fr_Seq fs)"
    by (simp add: filter_map comp_def)
  also have "\<dots> = [k + 1 .. b]"
  proof (cases "k \<le> b")
    case True
    then have "[a .. b] = [a .. k] @ [k + 1 .. b]" using assms(2) upto_append [of a k b] by simp
    moreover have "filter (\<lambda>i. i > k) [a .. k] = []" "filter (\<lambda>i. i > k) [k + 1 .. b] = [k + 1 .. b]"
      by (auto simp: filter_empty_conv filter_id_conv)
    ultimately show ?thesis by (simp add: assms(1))
  next
    case False
    then show ?thesis by (auto simp: assms(1) filter_empty_conv)
  qed
  finally show ?thesis .
qed

section \<open>Properties\<close>

text \<open>
  In every state the hub can reach, with publishers, subscribers, cancellations, reopened
  tasks and firing timers interleaved in any order, publishing never panics, cancelling an
  outstanding subscription never panics, and each ring holds at most \<open>bufSize\<close> frames, which
  are the most recent ones, numbered without a gap up to the task's sequence number.
\<close>

theorem hub_never_panics:
  assumes "hub_reachable (h, H)"
  shows "Hub_Publish h t d b \<noteq> None \<and> (\<forall>(t, sub) \<in> set H. Hub_cancel h t sub \<noteq> None)
    \<and> (\<forall>s. hb_tasks h t = Some s \<longrightarrow> int (length (sm_buf s)) \<le> hb_bufSize h
         \<and> map fr_Seq (sm_buf s) = [sm_seq s - int (length (sm_buf s)) + 1 .. sm_seq s])"
proof -
  have ok: "hub_ok h" "held_ok h H" using hub_reachable_ok [OF assms] by simp_all
  have "Hub_cancel h t' sub \<noteq> None" if "(t', sub) \<in> set H" for t' sub
  proof -
    obtain r i c where sub: "sub = (r, i, c)" by (cases sub)
    with held_okD [OF ok(2)] that obtain s where "hb_tasks h t' = Some s" "sm_ref s = r" "(i, c) \<in> set (sm_subs s)" by blast
    from Hub_cancel_effect [OF ok(1) this] show ?thesis by (auto simp: sub)
  qed
  with Hub_Publish_effect [OF ok(1), of t d b] hub_okD(2) [OF ok(1)] show ?thesis
    by (auto simp: ring_ok_def)
qed

definition ex_hub :: "hub \<times> held" where
  "ex_hub = (fst (Hub_Subscribe (NewHub 2 1) ''t'' 0), [(''t'', 0, 0, 0)])"

lemma ex_hub_reachable: "hub_reachable ex_hub"
proof -
  have "Hub_Subscribe (NewHub 2 1) ''t'' 0 = (fst ex_hub, [], (0, 0, 0), False)"
    by (simp add: ex_hub_def Hub_Subscribe_def stream_of_def NewHub_def new_stream_def make_chan_def stop_timer_def Let_def)
  from hub_step.subscribe [OF this] hub_reachable.start show ?thesis
    by (metis ex_hub_def fst_conv hub_reachable.step)
qed

theorem hub_never_panics_witness:
  "Hub_Publish (fst ex_hub) ''t'' ''x'' True \<noteq> None \<and> Hub_cancel (fst ex_hub) ''t'' (0, 0, 0) \<noteq> None"
  using hub_never_panics [of "fst ex_hub" "snd ex_hub" "''t''" "''x''" True] ex_hub_reachable
  by (auto simp: ex_hub_def)


definition ex_hub2 :: hub where
  "ex_hub2 = (case Hub_Publish (NewHub 2 1) ''t'' ''a'' False of Some (h, _) \<Rightarrow> h | None \<Rightarrow> NewHub 2 1)"

lemmas hub_eval = Hub_Publish_def stream_of_def NewHub_def new_stream_def push_frame_def next_frame_def put_stream_def
  Hub_Subscribe_def make_chan_def stop_timer_def scheduleReap_def Let_def

lemma ex_hub2_publish: "Hub_Publish (NewHub 2 1) ''t'' ''a'' False = Some (ex_hub2, False)"
  by (simp add: ex_hub2_def hub_eval)

lemma ex_hub2_reachable: "hub_reachable (ex_hub2, [])"
  using hub_step.publish [OF ex_hub2_publish] hub_reachable.start hub_reachable.step by blast

lemma ex_hub2_stream: "hb_tasks ex_hub2 ''t'' = Some \<lparr>sm_ref = 0, sm_seq = 1, sm_turnStart = 0,
    sm_buf = [\<lparr>fr_Seq = 1, fr_Data = ''a'', fr_Terminal = False\<rparr>], sm_truncated = False,
    sm_terminal = False, sm_subs = [], sm_nextSub = 0, sm_reaper = None\<rparr>"
  by (simp add: ex_hub2_def hub_eval)


text \<open>
  The retention timer. When a task without subscribers publishes its last frame, a timer
  is armed. If the task is reopened before the timer fires, the timer is stopped and the stream
  survives; if the timer has fired and its callback waits for the lock, \<open>Reopen\<close> cannot stop it,
  and the callback, which only looks at the identity and the subscribers of the stream, deletes
  the reopened stream: the sequence numbers start again and the turn boundary is lost.
\<close>

theorem stale_reap:
  assumes "hub_reachable (h, H)" "subs_of h t = []" "Hub_Publish h t d True = Some (h1, first)"
  shows "\<exists>s k. hb_tasks h1 t = Some s \<and> sm_reaper s = Some k
    \<and> hb_fired (fire (Reopen h1 t) k) = hb_fired h1 \<and> hb_tasks (fire (Reopen h1 t) k) t \<noteq> None
    \<and> (t, sm_ref s) \<in> set (hb_fired (Reopen (fire h1 k) t))
    \<and> hb_tasks (Reopen (fire h1 k) t) t \<noteq> None
    \<and> hb_tasks (reap (Reopen (fire h1 k) t) t (sm_ref s)) t = None"
proof -
  have ok: "hub_ok h" using hub_reachable_ok [OF assms(1)] by simp
  have ok1: "hub_ok h1" using Hub_Publish_effect [OF ok, of t d True] assms(3) by auto
  obtain s k where s: "hb_tasks h1 t = Some s" "sm_reaper s = Some k" "(k, t, sm_ref s) \<in> set (hb_armed h1)" "sm_subs s = []"
  proof -
    obtain h0 s0 where so: "stream_of h t = (h0, s0)" by fastforce
    obtain s1 f1 where pf: "push_frame (hb_bufSize h0) s0 (next_frame s0 d True) = (s1, f1)" by fastforce
    have "sm_subs s1 = []"
      using pf stream_of_fields [OF so] assms(2) by (auto simp: push_frame_def Let_def split: if_splits)
    with so pf assms(3) that show ?thesis
      by (auto simp: Hub_Publish_def scheduleReap_def put_stream_def Let_def)
  qed
  let ?s = "s\<lparr>sm_terminal := False, sm_turnStart := sm_seq s, sm_reaper := None\<rparr>"
  have re: "Reopen x t = put_stream (stop_timer x (Some k)) t ?s" if "hb_tasks x t = Some s" for x
    using that s(2) by (simp add: Reopen_def stream_of_def)
  have late: "Reopen (fire h1 k) t = put_stream (stop_timer (fire h1 k) (Some k)) t ?s"
    using s(1) by (intro re) (simp add: fire_def)
  have "(t, sm_ref s) \<in> set (hb_fired (Reopen (fire h1 k) t))"
    unfolding late using s(3) by (force simp: put_stream_def stop_timer_def fire_def)
  moreover have "hb_tasks (reap (Reopen (fire h1 k) t) t (sm_ref s)) t = None"
    unfolding late using s(4) by (simp add: reap_def)
  moreover have "hb_fired (fire (Reopen h1 t) k) = hb_fired h1" "hb_tasks (fire (Reopen h1 t) k) t \<noteq> None"
    unfolding re [OF s(1)] by (simp_all add: fire_def put_stream_def stop_timer_def)
  ultimately show ?thesis using s(1,2) late by simp
qed

theorem stale_reap_witness:
  "\<exists>h1 (s :: stream) k. Hub_Publish ex_hub2 ''t'' ''end'' True = Some (h1, False)
    \<and> hb_tasks (reap (Reopen (fire h1 k) ''t'') ''t'' (sm_ref s)) ''t'' = None"
proof -
  obtain h1 where "Hub_Publish ex_hub2 ''t'' ''end'' True = Some (h1, False)"
    by (auto simp: Hub_Publish_def stream_of_def ex_hub2_stream push_frame_def Let_def ex_hub2_def hub_eval)
  moreover have "subs_of ex_hub2 ''t'' = []" using ex_hub2_stream by (simp add: subs_of_def)
  ultimately show ?thesis using stale_reap [OF ex_hub2_reachable] by blast
qed

end
