(* ===== verification/Auth_Store.thy ===== *)
theory Auth_Store
  imports Store_Model
begin

text \<open>
  The identity tables of the relational store: users, browser sessions and personal access
  tokens, with the queries of \<open>queries.sql.go\<close> on them. As in \<open>Store_Model\<close> a query is a function
  of a context: \<open>ac_fault\<close> is the infrastructure error the named statement meets, \<open>ac_now\<close> the
  database's \<open>now()\<close>, \<open>ac_uuid\<close> the value of \<open>gen_random_uuid()\<close>. Instants are nanoseconds. The
  context also holds what a caller draws from its process: its clock, random bytes and SHA-256.
\<close>

section \<open>Rows and tables\<close>

record user_row =
  us_ID :: pg_uuid
  us_GithubUserID :: "int option"
  us_Login :: string
  us_Email :: string
  us_AvatarUrl :: string
  us_Status :: string
  us_CreatedAt :: int
  us_DownloadAsIs :: bool
  us_ClaudeAttribution :: bool
  us_OidcIssuer :: "string option"
  us_OidcSubject :: "string option"
  us_SshEnabled :: bool
  us_IsAdmin :: bool

record session_row =
  ss_ID :: pg_uuid
  ss_UserID :: pg_uuid
  ss_TokenHash :: "8 word list"
  ss_CreatedAt :: int
  ss_ExpiresAt :: int
  ss_RevokedAt :: "int option"

record pat_row =
  pt_ID :: pg_uuid
  pt_UserID :: pg_uuid
  pt_Name :: string
  pt_TokenHash :: "8 word list"
  pt_Prefix :: string
  pt_CreatedAt :: int
  pt_ExpiresAt :: "int option"
  pt_LastUsedAt :: "int option"
  pt_RevokedAt :: "int option"

record auth_db =
  au_users :: "user_row list"
  au_sessions :: "session_row list"
  au_pats :: "pat_row list"

record authctx =
  ac_fault :: "string \<Rightarrow> string option"
  ac_now :: int
  ac_uuid :: pg_uuid
  ac_time :: int
  ac_rand :: "string + 8 word list"
  ac_sha256 :: "string \<Rightarrow> 8 word list"

definition run_stmt :: "authctx \<Rightarrow> string \<Rightarrow> 'a res \<Rightarrow> 'a res" where
  "run_stmt c nm r = (case ac_fault c nm of Some t \<Rightarrow> Inl (ErrorText t) | None \<Rightarrow> r)"

definition find_user :: "auth_db \<Rightarrow> pg_uuid \<Rightarrow> user_row option" where
  "find_user d i = find (\<lambda>u. us_ID u = i) (au_users d)"

section \<open>Sessions\<close>

definition CreateSession :: "authctx \<Rightarrow> auth_db \<Rightarrow> pg_uuid \<Rightarrow> 8 word list \<Rightarrow> int \<Rightarrow> (auth_db \<times> session_row) res" where
  "CreateSession c d user_id h expires_at = run_stmt c ''CreateSession''
     (if find_user d user_id = None then Inl fk_violation
      else if h \<in> ss_TokenHash ` set (au_sessions d) \<or> ac_uuid c \<in> ss_ID ` set (au_sessions d) then Inl unique_violation
      else let s = \<lparr>ss_ID = ac_uuid c, ss_UserID = user_id, ss_TokenHash = h, ss_CreatedAt = ac_now c,
                    ss_ExpiresAt = expires_at, ss_RevokedAt = None\<rparr>
           in Inr (d\<lparr>au_sessions := au_sessions d @ [s]\<rparr>, s))"

text \<open>The row that satisfies a \<open>WHERE\<close> clause, joined with its user.\<close>

definition join_user :: "auth_db \<Rightarrow> ('r \<Rightarrow> pg_uuid) \<Rightarrow> 'r option \<Rightarrow> (user_row \<times> 'r) res" where
  "join_user d uid r = (case r of
       None \<Rightarrow> Inl (Sentinel ErrNoRows)
     | Some x \<Rightarrow> (case find_user d (uid x) of None \<Rightarrow> Inl (Sentinel ErrNoRows) | Some u \<Rightarrow> Inr (u, x)))"

definition session_live :: "authctx \<Rightarrow> session_row \<Rightarrow> bool" where
  "session_live c s = (ss_RevokedAt s = None \<and> ss_ExpiresAt s > ac_now c)"

definition GetSessionByTokenHash :: "authctx \<Rightarrow> auth_db \<Rightarrow> 8 word list \<Rightarrow> (user_row \<times> session_row) res" where
  "GetSessionByTokenHash c d h = run_stmt c ''GetSessionByTokenHash''
     (join_user d ss_UserID (find (\<lambda>s. ss_TokenHash s = h \<and> session_live c s) (au_sessions d)))"

definition GetSessionByID :: "authctx \<Rightarrow> auth_db \<Rightarrow> pg_uuid \<Rightarrow> (user_row \<times> session_row) res" where
  "GetSessionByID c d i = run_stmt c ''GetSessionByID''
     (join_user d ss_UserID (find (\<lambda>s. ss_ID s = i \<and> session_live c s) (au_sessions d)))"

definition RevokeSession :: "authctx \<Rightarrow> auth_db \<Rightarrow> 8 word list \<Rightarrow> (auth_db \<times> pg_uuid) res" where
  "RevokeSession c d h = run_stmt c ''RevokeSession''
     (case find (\<lambda>s. ss_TokenHash s = h \<and> ss_RevokedAt s = None) (au_sessions d) of
        None \<Rightarrow> Inl (Sentinel ErrNoRows)
      | Some s \<Rightarrow> Inr (d\<lparr>au_sessions := tbl_update (\<lambda>s. ss_TokenHash s = h \<and> ss_RevokedAt s = None)
                         (\<lambda>s. s\<lparr>ss_RevokedAt := Some (ac_now c)\<rparr>) (au_sessions d)\<rparr>, ss_ID s))"

definition TouchSession :: "authctx \<Rightarrow> auth_db \<Rightarrow> pg_uuid \<Rightarrow> int \<Rightarrow> auth_db res" where
  "TouchSession c d i expires_at = run_stmt c ''TouchSession''
     (Inr (d\<lparr>au_sessions := tbl_update (\<lambda>s. ss_ID s = i) (\<lambda>s. s\<lparr>ss_ExpiresAt := expires_at\<rparr>) (au_sessions d)\<rparr>))"

section \<open>Personal access tokens\<close>

definition CreatePAT :: "authctx \<Rightarrow> auth_db \<Rightarrow> pg_uuid \<Rightarrow> string \<Rightarrow> 8 word list \<Rightarrow> string \<Rightarrow> int option \<Rightarrow> (auth_db \<times> pat_row) res" where
  "CreatePAT c d user_id nm h pre expires_at = run_stmt c ''CreatePAT''
     (if find_user d user_id = None then Inl fk_violation
      else if h \<in> pt_TokenHash ` set (au_pats d) \<or> ac_uuid c \<in> pt_ID ` set (au_pats d) then Inl unique_violation
      else let p = \<lparr>pt_ID = ac_uuid c, pt_UserID = user_id, pt_Name = nm, pt_TokenHash = h, pt_Prefix = pre,
                    pt_CreatedAt = ac_now c, pt_ExpiresAt = expires_at, pt_LastUsedAt = None, pt_RevokedAt = None\<rparr>
           in Inr (d\<lparr>au_pats := au_pats d @ [p]\<rparr>, p))"

definition pat_live :: "authctx \<Rightarrow> pat_row \<Rightarrow> bool" where
  "pat_live c p = (pt_RevokedAt p = None \<and> (case pt_ExpiresAt p of None \<Rightarrow> True | Some t \<Rightarrow> t > ac_now c))"

definition GetPATByTokenHash :: "authctx \<Rightarrow> auth_db \<Rightarrow> 8 word list \<Rightarrow> (user_row \<times> pat_row) res" where
  "GetPATByTokenHash c d h = run_stmt c ''GetPATByTokenHash''
     (join_user d pt_UserID (find (\<lambda>p. pt_TokenHash p = h \<and> pat_live c p) (au_pats d)))"

definition ListPATsByUserID :: "authctx \<Rightarrow> auth_db \<Rightarrow> pg_uuid \<Rightarrow> pat_row list res" where
  "ListPATsByUserID c d u = run_stmt c ''ListPATsByUserID''
     (Inr (sort_key (\<lambda>p. - pt_CreatedAt p) (filter (\<lambda>p. pt_UserID p = u \<and> pt_RevokedAt p = None) (au_pats d))))"

definition RevokePAT :: "authctx \<Rightarrow> auth_db \<Rightarrow> pg_uuid \<Rightarrow> pg_uuid \<Rightarrow> (auth_db \<times> pg_uuid) res" where
  "RevokePAT c d i u = run_stmt c ''RevokePAT''
     (case find (\<lambda>p. pt_ID p = i \<and> pt_UserID p = u \<and> pt_RevokedAt p = None) (au_pats d) of
        None \<Rightarrow> Inl (Sentinel ErrNoRows)
      | Some p \<Rightarrow> Inr (d\<lparr>au_pats := tbl_update (\<lambda>p. pt_ID p = i \<and> pt_UserID p = u \<and> pt_RevokedAt p = None)
                         (\<lambda>p. p\<lparr>pt_RevokedAt := Some (ac_now c)\<rparr>) (au_pats d)\<rparr>, pt_ID p))"

definition TouchPATLastUsed :: "authctx \<Rightarrow> auth_db \<Rightarrow> pg_uuid \<Rightarrow> auth_db res" where
  "TouchPATLastUsed c d i = run_stmt c ''TouchPATLastUsed''
     (Inr (d\<lparr>au_pats := tbl_update (\<lambda>p. pt_ID p = i) (\<lambda>p. p\<lparr>pt_LastUsedAt := Some (ac_now c)\<rparr>) (au_pats d)\<rparr>))"

section \<open>Users\<close>

definition same_identity :: "string \<Rightarrow> string \<Rightarrow> user_row \<Rightarrow> bool" where
  "same_identity issuer subject u = (us_OidcIssuer u = Some issuer \<and> us_OidcSubject u = Some subject)"

definition GetUserByID :: "authctx \<Rightarrow> auth_db \<Rightarrow> pg_uuid \<Rightarrow> user_row res" where
  "GetUserByID c d i = run_stmt c ''GetUserByID'' (row_of (find_user d i))"

definition GetUserByOIDC :: "authctx \<Rightarrow> auth_db \<Rightarrow> string \<Rightarrow> string \<Rightarrow> user_row res" where
  "GetUserByOIDC c d issuer subject = run_stmt c ''GetUserByOIDC''
     (row_of (find (same_identity issuer subject) (au_users d)))"

definition new_user :: "authctx \<Rightarrow> user_row" where
  "new_user c = \<lparr>us_ID = ac_uuid c, us_GithubUserID = None, us_Login = [], us_Email = [], us_AvatarUrl = [],
     us_Status = ''active'', us_CreatedAt = ac_now c, us_DownloadAsIs = False, us_ClaudeAttribution = True,
     us_OidcIssuer = None, us_OidcSubject = None, us_SshEnabled = False, us_IsAdmin = False\<rparr>"

definition CreateOIDCUser :: "authctx \<Rightarrow> auth_db \<Rightarrow> string \<Rightarrow> string \<Rightarrow> string \<Rightarrow> string \<Rightarrow> string \<Rightarrow> bool
    \<Rightarrow> (auth_db \<times> user_row) res" where
  "CreateOIDCUser c d issuer subject login email avatar is_admin = run_stmt c ''CreateOIDCUser''
     (if ac_uuid c \<in> us_ID ` set (au_users d) \<or> list_ex (same_identity issuer subject) (au_users d) then Inl unique_violation
      else let u = (new_user c)\<lparr>us_Login := login, us_Email := email, us_AvatarUrl := avatar,
                    us_OidcIssuer := Some issuer, us_OidcSubject := Some subject, us_IsAdmin := is_admin\<rparr>
           in Inr (d\<lparr>au_users := au_users d @ [u]\<rparr>, u))"

text \<open>An \<open>UPDATE users ... RETURNING\<close> of the row that satisfies a condition.\<close>

definition update_user :: "auth_db \<Rightarrow> (user_row \<Rightarrow> bool) \<Rightarrow> (user_row \<Rightarrow> user_row) \<Rightarrow> (auth_db \<times> user_row) res" where
  "update_user d p f = (case find p (au_users d) of
       None \<Rightarrow> Inl (Sentinel ErrNoRows)
     | Some u \<Rightarrow> Inr (d\<lparr>au_users := tbl_update p f (au_users d)\<rparr>, f u))"

definition LinkUserOIDC :: "authctx \<Rightarrow> auth_db \<Rightarrow> pg_uuid \<Rightarrow> string \<Rightarrow> string \<Rightarrow> bool \<Rightarrow> (auth_db \<times> user_row) res" where
  "LinkUserOIDC c d i issuer subject is_admin = run_stmt c ''LinkUserOIDC''
     (if list_ex (\<lambda>u. us_ID u = i \<and> us_OidcSubject u = None) (au_users d)
         \<and> list_ex (same_identity issuer subject) (au_users d) then Inl unique_violation
      else update_user d (\<lambda>u. us_ID u = i \<and> us_OidcSubject u = None)
        (\<lambda>u. u\<lparr>us_OidcIssuer := Some issuer, us_OidcSubject := Some subject, us_IsAdmin := is_admin\<rparr>))"

definition ListLinkableUsersByEmail :: "authctx \<Rightarrow> auth_db \<Rightarrow> string \<Rightarrow> user_row list res" where
  "ListLinkableUsersByEmail c d email = run_stmt c ''ListLinkableUsersByEmail''
     (Inr (filter (\<lambda>u. us_Email u = email \<and> us_OidcSubject u = None) (au_users d)))"

definition UpdateOIDCUserProfile :: "authctx \<Rightarrow> auth_db \<Rightarrow> string \<Rightarrow> string \<Rightarrow> string \<Rightarrow> string \<Rightarrow> string \<Rightarrow> bool
    \<Rightarrow> (auth_db \<times> user_row) res" where
  "UpdateOIDCUserProfile c d issuer subject login email avatar is_admin = run_stmt c ''UpdateOIDCUserProfile''
     (update_user d (same_identity issuer subject)
        (\<lambda>u. u\<lparr>us_Login := login, us_Email := email, us_AvatarUrl := avatar, us_IsAdmin := is_admin\<rparr>))"

definition SetUserGitHub :: "authctx \<Rightarrow> auth_db \<Rightarrow> pg_uuid \<Rightarrow> int option \<Rightarrow> (auth_db \<times> user_row) res" where
  "SetUserGitHub c d i gh = run_stmt c ''SetUserGitHub''
     (if gh \<noteq> None \<and> list_ex (\<lambda>u. us_ID u \<noteq> i \<and> us_GithubUserID u = gh) (au_users d)
         \<and> find_user d i \<noteq> None then Inl unique_violation
      else update_user d (\<lambda>u. us_ID u = i) (\<lambda>u. u\<lparr>us_GithubUserID := gh\<rparr>))"

definition SetUserSSHEnabled :: "authctx \<Rightarrow> auth_db \<Rightarrow> pg_uuid \<Rightarrow> bool \<Rightarrow> (auth_db \<times> user_row) res" where
  "SetUserSSHEnabled c d i v = run_stmt c ''SetUserSSHEnabled'' (update_user d (\<lambda>u. us_ID u = i) (\<lambda>u. u\<lparr>us_SshEnabled := v\<rparr>))"

definition GetUserSSHEnabled :: "authctx \<Rightarrow> auth_db \<Rightarrow> pg_uuid \<Rightarrow> bool res" where
  "GetUserSSHEnabled c d i = run_stmt c ''GetUserSSHEnabled'' (row_of (map_option us_SshEnabled (find_user d i)))"

definition SetUserClaudeAttribution :: "authctx \<Rightarrow> auth_db \<Rightarrow> pg_uuid \<Rightarrow> bool \<Rightarrow> (auth_db \<times> user_row) res" where
  "SetUserClaudeAttribution c d i v = run_stmt c ''SetUserClaudeAttribution''
     (update_user d (\<lambda>u. us_ID u = i) (\<lambda>u. u\<lparr>us_ClaudeAttribution := v\<rparr>))"

definition SetUserDownloadAsIs :: "authctx \<Rightarrow> auth_db \<Rightarrow> pg_uuid \<Rightarrow> bool \<Rightarrow> (auth_db \<times> user_row) res" where
  "SetUserDownloadAsIs c d i v = run_stmt c ''SetUserDownloadAsIs''
     (update_user d (\<lambda>u. us_ID u = i) (\<lambda>u. u\<lparr>us_DownloadAsIs := v\<rparr>))"

text \<open>The schema's constraints, as an invariant of the tables.\<close>

definition identity_of :: "user_row \<Rightarrow> (string \<times> string) option" where
  "identity_of u = (case (us_OidcIssuer u, us_OidcSubject u) of (Some a, Some b) \<Rightarrow> Some (a, b) | _ \<Rightarrow> None)"

definition uniq_by :: "(user_row \<Rightarrow> 'k option) \<Rightarrow> user_row list \<Rightarrow> bool" where
  "uniq_by key us = (\<forall>u \<in> set us. \<forall>v \<in> set us. \<forall>k. key u = Some k \<longrightarrow> key v = Some k \<longrightarrow> us_ID u = us_ID v)"

definition auth_ok :: "auth_db \<Rightarrow> bool" where
  "auth_ok d = (distinct (map us_ID (au_users d))
     \<and> distinct (map ss_TokenHash (au_sessions d)) \<and> distinct (map ss_ID (au_sessions d))
     \<and> distinct (map pt_TokenHash (au_pats d)) \<and> distinct (map pt_ID (au_pats d))
     \<and> (\<forall>s \<in> set (au_sessions d). ss_UserID s \<in> us_ID ` set (au_users d))
     \<and> (\<forall>p \<in> set (au_pats d). pt_UserID p \<in> us_ID ` set (au_users d))
     \<and> uniq_by identity_of (au_users d) \<and> uniq_by us_GithubUserID (au_users d)
     \<and> (\<forall>u \<in> set (au_users d). us_OidcSubject u = None \<longleftrightarrow> us_OidcIssuer u = None))"

lemma uniq_byD: "uniq_by key us \<Longrightarrow> u \<in> set us \<Longrightarrow> v \<in> set us \<Longrightarrow> key u = Some k \<Longrightarrow> key v = Some k \<Longrightarrow> us_ID u = us_ID v"
  unfolding uniq_by_def by blast

lemma uniq_byI: "(\<And>u v k. u \<in> set us \<Longrightarrow> v \<in> set us \<Longrightarrow> key u = Some k \<Longrightarrow> key v = Some k \<Longrightarrow> us_ID u = us_ID v) \<Longrightarrow> uniq_by key us"
  unfolding uniq_by_def by blast

lemma uniq_add: "uniq_by key us \<Longrightarrow> (\<And>k v. key u = Some k \<Longrightarrow> v \<in> set us \<Longrightarrow> key v \<noteq> Some k) \<Longrightarrow> uniq_by key (us @ [u])"
  by (rule uniq_byI) (auto dest: uniq_byD)

lemma uniq_by_images:
  assumes "uniq_by key us" "\<And>u'. u' \<in> set us' \<Longrightarrow> \<exists>u \<in> set us. key u' = key u \<and> us_ID u' = us_ID u"
  shows "uniq_by key us'"
proof (rule uniq_byI)
  fix u v k
  assume uv: "u \<in> set us'" "v \<in> set us'" "key u = Some k" "key v = Some k"
  obtain u0 v0 where "u0 \<in> set us" "key u = key u0" "us_ID u = us_ID u0" "v0 \<in> set us" "key v = key v0" "us_ID v = us_ID v0"
    using assms(2) uv(1,2) by metis
  with uniq_byD [OF assms(1), of u0 v0 k] uv(3,4) show "us_ID u = us_ID v" by simp
qed

lemma uniq_same:
  assumes "uniq_by key us" "\<And>u. p u \<Longrightarrow> key (f u) = key u \<and> us_ID (f u) = us_ID u"
  shows "uniq_by key (tbl_update p f us)"
  by (rule uniq_by_images [OF assms(1)]) (use assms(2) in \<open>auto simp: set_tbl_update\<close>)

lemma uniq_set:
  assumes "uniq_by key us" "\<And>u. p u \<Longrightarrow> us_ID u = i \<and> us_ID (f u) = i \<and> key (f u) = kv"
    and "kv = None \<or> (\<forall>u \<in> set us. key u = kv \<longrightarrow> us_ID u = i)"
  shows "uniq_by key (tbl_update p f us)"
proof (rule uniq_byI)
  have r: "(u \<in> set us \<and> \<not> p u) \<or> (us_ID u = i \<and> key u = kv)" if "u \<in> set (tbl_update p f us)" for u
    using that assms(2) by (auto simp: set_tbl_update)
  fix u v k
  assume uv: "u \<in> set (tbl_update p f us)" "v \<in> set (tbl_update p f us)" "key u = Some k" "key v = Some k"
  show "us_ID u = us_ID v"
  proof (cases "kv = Some k")
    case True
    with assms(3) r [OF uv(1)] r [OF uv(2)] uv(3,4) show ?thesis by auto
  next
    case False
    with r [OF uv(1)] r [OF uv(2)] uv(3,4) have "u \<in> set us" "v \<in> set us" by auto
    then show ?thesis using uniq_byD [OF assms(1)] uv(3,4) by blast
  qed
qed

lemma identity_of_Some: "us_OidcIssuer u = Some a \<Longrightarrow> us_OidcSubject u = Some b \<Longrightarrow> identity_of u = Some (a, b)"
  by (simp add: identity_of_def)

lemma identity_of_other [simp]:
  "identity_of (u\<lparr>us_IsAdmin := adm\<rparr>) = identity_of u" "identity_of (u\<lparr>us_AvatarUrl := t\<rparr>) = identity_of u"
  "identity_of (u\<lparr>us_Email := t\<rparr>) = identity_of u" "identity_of (u\<lparr>us_Login := t\<rparr>) = identity_of u"
  "identity_of (u\<lparr>us_GithubUserID := g\<rparr>) = identity_of u" "identity_of (u\<lparr>us_SshEnabled := adm\<rparr>) = identity_of u"
  "identity_of (u\<lparr>us_ClaudeAttribution := adm\<rparr>) = identity_of u" "identity_of (u\<lparr>us_DownloadAsIs := adm\<rparr>) = identity_of u"
  by (simp_all add: identity_of_def)

lemma identity_of_same: "same_identity a b u \<longleftrightarrow> identity_of u = Some (a, b)"
  by (auto simp: same_identity_def identity_of_def split: option.splits)

section \<open>Inversion\<close>

lemma run_stmt_InrD [result_elims]: "run_stmt c nm r = Inr x \<Longrightarrow> ac_fault c nm = None \<and> r = Inr x"
  by (auto simp: run_stmt_def split: option.splits)

lemma run_stmt_no_fault [simp]: "ac_fault c nm = None \<Longrightarrow> run_stmt c nm r = r"
  by (simp add: run_stmt_def)

lemma join_user_InrD: "join_user d uid r = Inr (u, x) \<Longrightarrow> r = Some x \<and> find_user d (uid x) = Some u"
  by (auto simp: join_user_def split: option.splits)

lemma find_user_Some: "find_user d i = Some u \<Longrightarrow> u \<in> set (au_users d) \<and> us_ID u = i"
  by (auto simp: find_user_def dest: find_key_in)

lemma find_user_None: "find_user d i = None \<longleftrightarrow> i \<notin> us_ID ` set (au_users d)"
  by (simp add: find_user_def find_key_None)

lemma find_InD: "find p xs = Some x \<Longrightarrow> x \<in> set xs \<and> p x"
  by (induction xs) (auto split: if_splits)

lemma update_user_InrD:
  "update_user d p f = Inr (d', u') \<Longrightarrow> \<exists>u. find p (au_users d) = Some u \<and> u' = f u
     \<and> d' = d\<lparr>au_users := tbl_update p f (au_users d)\<rparr>"
  by (auto simp: update_user_def split: option.splits)

end
