(* ===== verification/Auth_Session.thy ===== *)
theory Auth_Session
  imports Auth_Store Go_Base64
begin

text \<open>
  Browser sessions (\<open>controlplane/internal/session\<close>) and personal access tokens
  (\<open>controlplane/internal/token\<close>): opaque credentials of which only the SHA-256 hash is stored.
  An operation takes the tables and returns them, with the result; \<open>session_Revoke\<close> also returns
  the identifiers handed to the revocation listener. Durations are nanoseconds.
\<close>

section \<open>Sessions\<close>

definition refreshThreshold :: int where "refreshThreshold = 3600000000000"

definition hashToken :: "authctx \<Rightarrow> string \<Rightarrow> 8 word list" where
  "hashToken c token = ac_sha256 c token"

definition random_text :: "authctx \<Rightarrow> string res" where
  "random_text c = (case ac_rand c of
       Inl e \<Rightarrow> Inl (Errorf ''generate token: '' (ErrorText e) [])
     | Inr raw \<Rightarrow> Inr (rawurl_encode raw))"

definition session_Create :: "authctx \<Rightarrow> int \<Rightarrow> auth_db \<Rightarrow> pg_uuid \<Rightarrow> auth_db \<times> string res" where
  "session_Create c ttl d user_id = (case random_text c of
       Inl e \<Rightarrow> (d, Inl e)
     | Inr token \<Rightarrow> (case CreateSession c d user_id (hashToken c token) (ac_time c + ttl) of
         Inl e \<Rightarrow> (d, Inl (Errorf ''create session: '' e []))
       | Inr (d', _) \<Rightarrow> (d', Inr token)))"

definition slide :: "authctx \<Rightarrow> int \<Rightarrow> auth_db \<Rightarrow> session_row \<Rightarrow> auth_db" where
  "slide c ttl d s = (if ss_ExpiresAt s - ac_time c < ttl - refreshThreshold
     then (case TouchSession c d (ss_ID s) (ac_time c + ttl) of Inl _ \<Rightarrow> d | Inr d' \<Rightarrow> d') else d)"

definition session_Authenticate :: "authctx \<Rightarrow> int \<Rightarrow> auth_db \<Rightarrow> string \<Rightarrow> auth_db \<times> (user_row \<times> session_row) res" where
  "session_Authenticate c ttl d token =
     (if token = [] then (d, Inl (Sentinel ErrInvalidSession))
      else case GetSessionByTokenHash c d (hashToken c token) of
        Inl e \<Rightarrow> (d, Inl (if errors_Is e ErrNoRows then Sentinel ErrInvalidSession else Errorf ''lookup session: '' e []))
      | Inr (u, s) \<Rightarrow> (slide c ttl d s, Inr (u, s)))"

definition AliveByID :: "authctx \<Rightarrow> auth_db \<Rightarrow> pg_uuid \<Rightarrow> user_row res" where
  "AliveByID c d i =
     (if \<not> Valid i then Inl (Sentinel ErrInvalidSession)
      else case GetSessionByID c d i of
        Inl e \<Rightarrow> Inl (if errors_Is e ErrNoRows then Sentinel ErrInvalidSession else Errorf ''lookup session by id: '' e [])
      | Inr (u, _) \<Rightarrow> Inr u)"

definition SessionIDString :: "pg_uuid \<Rightarrow> string" where
  "SessionIDString u = UUIDString u"

definition session_Revoke :: "authctx \<Rightarrow> bool \<Rightarrow> auth_db \<Rightarrow> string \<Rightarrow> auth_db \<times> string list \<times> error option" where
  "session_Revoke c revoker d token =
     (if token = [] then (d, [], None)
      else case RevokeSession c d (hashToken c token) of
        Inl e \<Rightarrow> (d, [], if errors_Is e ErrNoRows then None else Some (Errorf ''revoke session: '' e []))
      | Inr (d', i) \<Rightarrow> (d', if revoker \<and> Valid i then [SessionIDString i] else [], None))"

section \<open>Personal access tokens\<close>

definition plaintextPrefix :: string where "plaintextPrefix = ''proteos_pat_''"
definition displayPrefixLen :: nat where "displayPrefixLen = length plaintextPrefix + 6"
definition touchThreshold :: int where "touchThreshold = 60000000000"

definition LooksLikePAT :: "string \<Rightarrow> bool" where
  "LooksLikePAT bearer = (take (length plaintextPrefix) bearer = plaintextPrefix)"

definition pat_Create :: "authctx \<Rightarrow> auth_db \<Rightarrow> pg_uuid \<Rightarrow> string \<Rightarrow> int \<Rightarrow> auth_db \<times> (string \<times> pat_row) res" where
  "pat_Create c d user_id nm expiresIn = (case random_text c of
       Inl e \<Rightarrow> (d, Inl e)
     | Inr text \<Rightarrow>
       (let plaintext = plaintextPrefix @ text;
            expiresAt = (if expiresIn > 0 then Some (ac_time c + expiresIn) else None)
        in case CreatePAT c d user_id nm (hashToken c plaintext) (take displayPrefixLen plaintext) expiresAt of
             Inl e \<Rightarrow> (d, Inl (Errorf ''create token: '' e []))
           | Inr (d', r) \<Rightarrow> (d', Inr (plaintext, r))))"

definition mark_used :: "authctx \<Rightarrow> auth_db \<Rightarrow> pat_row \<Rightarrow> auth_db" where
  "mark_used c d p = (if (case pt_LastUsedAt p of None \<Rightarrow> True | Some t \<Rightarrow> ac_time c - t > touchThreshold)
     then (case TouchPATLastUsed c d (pt_ID p) of Inl _ \<Rightarrow> d | Inr d' \<Rightarrow> d') else d)"

definition pat_Authenticate :: "authctx \<Rightarrow> auth_db \<Rightarrow> string \<Rightarrow> auth_db \<times> (user_row \<times> pat_row) res" where
  "pat_Authenticate c d plaintext =
     (if plaintext = [] then (d, Inl (Sentinel ErrInvalidToken))
      else case GetPATByTokenHash c d (hashToken c plaintext) of
        Inl e \<Rightarrow> (d, Inl (if errors_Is e ErrNoRows then Sentinel ErrInvalidToken else Errorf ''lookup token: '' e []))
      | Inr (u, p) \<Rightarrow> (mark_used c d p, Inr (u, p)))"

definition pat_List :: "authctx \<Rightarrow> auth_db \<Rightarrow> pg_uuid \<Rightarrow> pat_row list res" where
  "pat_List c d u = ListPATsByUserID c d u"

definition pat_Revoke :: "authctx \<Rightarrow> auth_db \<Rightarrow> pg_uuid \<Rightarrow> pg_uuid \<Rightarrow> auth_db \<times> bool res" where
  "pat_Revoke c d user_id i = (case RevokePAT c d i user_id of
       Inl e \<Rightarrow> (d, if errors_Is e ErrNoRows then Inr False else Inl (Errorf ''revoke token: '' e []))
     | Inr (d', _) \<Rightarrow> (d', Inr True))"

text \<open>
  The lifetime the HTTP handler computes from a number of days, a 64-bit product of durations
  (\<open>httpapi/tokens.go\<close>); zero and negative lifetimes never expire.
\<close>

definition expires_in :: "int \<Rightarrow> int" where
  "expires_in days = (if days > 0 then int64 (int64 (days * 24) * 3600000000000) else 0)"

section \<open>Statements as steps\<close>

text \<open>
  Requests run concurrently and each statement is atomic, so the history of the tables is a
  sequence of statements, whatever requests they come from. The label names the credential or
  the row a statement writes.
\<close>

datatype stmt =
    SCreateSession "8 word list" | STouchSession pg_uuid | SRevokeSession "8 word list"
  | SCreatePAT "8 word list" | STouchPAT pg_uuid | SRevokePAT pg_uuid pg_uuid | SUser

inductive auth_step :: "auth_db \<Rightarrow> stmt \<Rightarrow> auth_db \<Rightarrow> bool" where
  st_create: "CreateSession c d u h t = Inr (d', s) \<Longrightarrow> auth_step d (SCreateSession h) d'"
| st_touch: "TouchSession c d i t = Inr d' \<Longrightarrow> auth_step d (STouchSession i) d'"
| st_revoke: "RevokeSession c d h = Inr (d', i) \<Longrightarrow> auth_step d (SRevokeSession h) d'"
| st_create_pat: "CreatePAT c d u nm h pre t = Inr (d', p) \<Longrightarrow> auth_step d (SCreatePAT h) d'"
| st_touch_pat: "TouchPATLastUsed c d i = Inr d' \<Longrightarrow> auth_step d (STouchPAT i) d'"
| st_revoke_pat: "RevokePAT c d i u = Inr (d', j) \<Longrightarrow> auth_step d (SRevokePAT i u) d'"
| st_new_user: "CreateOIDCUser c d iss sub l e a adm = Inr (d', v) \<Longrightarrow> auth_step d SUser d'"
| st_link: "LinkUserOIDC c d i iss sub adm = Inr (d', v) \<Longrightarrow> auth_step d SUser d'"
| st_profile: "UpdateOIDCUserProfile c d iss sub l e a adm = Inr (d', v) \<Longrightarrow> auth_step d SUser d'"
| st_github: "SetUserGitHub c d i g = Inr (d', v) \<Longrightarrow> auth_step d SUser d'"
| st_ssh: "SetUserSSHEnabled c d i b = Inr (d', v) \<Longrightarrow> auth_step d SUser d'"
| st_attribution: "SetUserClaudeAttribution c d i b = Inr (d', v) \<Longrightarrow> auth_step d SUser d'"
| st_download: "SetUserDownloadAsIs c d i b = Inr (d', v) \<Longrightarrow> auth_step d SUser d'"

inductive auth_run :: "auth_db \<Rightarrow> stmt list \<Rightarrow> auth_db \<Rightarrow> bool" where
  ar_none: "auth_run d [] d"
| ar_step: "auth_step d l d1 \<Longrightarrow> auth_run d1 ls d2 \<Longrightarrow> auth_run d (l # ls) d2"

text \<open>What a statement does to the three tables.\<close>

lemmas stmt_defs = CreateSession_def TouchSession_def RevokeSession_def CreatePAT_def TouchPATLastUsed_def RevokePAT_def
  CreateOIDCUser_def LinkUserOIDC_def UpdateOIDCUserProfile_def SetUserGitHub_def SetUserSSHEnabled_def
  SetUserClaudeAttribution_def SetUserDownloadAsIs_def update_user_def Let_def

definition same_session :: "stmt \<Rightarrow> session_row \<Rightarrow> session_row \<Rightarrow> bool" where
  "same_session l s s' = (ss_ID s' = ss_ID s \<and> ss_TokenHash s' = ss_TokenHash s \<and> ss_UserID s' = ss_UserID s
     \<and> (ss_RevokedAt s \<noteq> None \<longrightarrow> ss_RevokedAt s' = ss_RevokedAt s)
     \<and> (l \<noteq> STouchSession (ss_ID s) \<longrightarrow> ss_ExpiresAt s' = ss_ExpiresAt s)
     \<and> (l \<noteq> SRevokeSession (ss_TokenHash s) \<longrightarrow> ss_RevokedAt s' = ss_RevokedAt s))"

definition same_pat :: "stmt \<Rightarrow> pat_row \<Rightarrow> pat_row \<Rightarrow> bool" where
  "same_pat l p p' = (pt_ID p' = pt_ID p \<and> pt_TokenHash p' = pt_TokenHash p \<and> pt_UserID p' = pt_UserID p
     \<and> pt_ExpiresAt p' = pt_ExpiresAt p \<and> (pt_RevokedAt p \<noteq> None \<longrightarrow> pt_RevokedAt p' = pt_RevokedAt p)
     \<and> (l \<noteq> SRevokePAT (pt_ID p) (pt_UserID p) \<longrightarrow> pt_RevokedAt p' = pt_RevokedAt p))"

text \<open>
  How a table evolves in one statement: its rows, each related by \<open>R\<close> to what it becomes, and at
  most one appended row.
\<close>

definition rows_evolve :: "('r \<Rightarrow> 'r \<Rightarrow> bool) \<Rightarrow> ('r \<Rightarrow> bool) \<Rightarrow> 'r list \<Rightarrow> 'r list \<Rightarrow> bool" where
  "rows_evolve R fresh rs rs' = (\<exists>old new. rs' = old @ new \<and> list_all2 R rs old \<and> (\<forall>r \<in> set new. fresh r) \<and> length new \<le> 1)"

lemma rows_evolve_refl: "(\<And>r. R r r) \<Longrightarrow> rows_evolve R F rs rs"
  unfolding rows_evolve_def by (rule exI [of _ rs], rule exI [of _ "[]"]) (simp add: list_all2_refl)

lemma rows_evolve_add: "(\<And>r. R r r) \<Longrightarrow> F r \<Longrightarrow> rows_evolve R F rs (rs @ [r])"
  unfolding rows_evolve_def by (rule exI [of _ rs], rule exI [of _ "[r]"]) (simp add: list_all2_refl)

lemma rows_evolve_update: "(\<And>r. R r r) \<Longrightarrow> (\<And>r. p r \<Longrightarrow> R r (f r)) \<Longrightarrow> rows_evolve R F rs (tbl_update p f rs)"
  unfolding rows_evolve_def
  by (rule exI [of _ "tbl_update p f rs"], rule exI [of _ "[]"]) (simp add: tbl_update_def list_all2_conv_all_nth)

lemma rows_evolve_row:
  assumes "rows_evolve R F rs rs'" "r \<in> set rs"
  shows "\<exists>r' \<in> set rs'. R r r'"
proof -
  obtain old new where e: "rs' = old @ new" "list_all2 R rs old" using assms(1) by (auto simp: rows_evolve_def)
  from e(2) assms(2) have "\<exists>r' \<in> set old. R r r'" by (induction rule: list_all2_induct) auto
  with e(1) show ?thesis by auto
qed

lemma rows_evolve_key:
  assumes "rows_evolve R F rs rs'" "\<And>r r'. R r r' \<Longrightarrow> k r' = k r" "\<And>r. F r \<Longrightarrow> k r \<notin> k ` set rs" "distinct (map k rs)"
  shows "distinct (map k rs')"
proof -
  obtain old new where e: "rs' = old @ new" "list_all2 R rs old" "\<forall>r \<in> set new. F r" "length new \<le> 1"
    using assms(1) by (auto simp: rows_evolve_def)
  have "list_all2 (\<lambda>r r'. k r' = k r) rs old" using e(2) assms(2) by (rule list_all2_mono)
  then have m: "map k old = map k rs" by (induction rule: list_all2_induct) simp_all
  then have "k ` set old = k ` set rs" by (metis list.set_map)
  moreover have "distinct (map k new)" using e(4) by (cases new) auto
  moreover have "k ` set new \<inter> k ` set rs = {}" using e(3) assms(3) by blast
  ultimately show ?thesis using e(1) assms(4) m by (simp add: Int_commute)
qed

lemma rows_evolve_all:
  assumes "rows_evolve R F rs rs'" "\<forall>r \<in> set rs. P r" "\<And>r r'. R r r' \<Longrightarrow> P r \<Longrightarrow> P r'" "\<And>r. F r \<Longrightarrow> P r"
  shows "\<forall>r \<in> set rs'. P r"
proof -
  obtain old new where e: "rs' = old @ new" "list_all2 R rs old" "\<forall>r \<in> set new. F r" using assms(1) by (auto simp: rows_evolve_def)
  from e(2) assms(2) have "\<forall>r \<in> set old. P r" by (induction rule: list_all2_induct) (auto intro: assms(3))
  with e(1,3) assms(4) show ?thesis by auto
qed

text \<open>Each statement evolves the sessions and the access tokens by what its label says.\<close>

lemma same_refl [simp]: "same_session l s s" "same_pat l p p"
  by (simp_all add: same_session_def same_pat_def)

definition fresh_session :: "auth_db \<Rightarrow> session_row \<Rightarrow> bool" where
  "fresh_session d s = (ss_TokenHash s \<notin> ss_TokenHash ` set (au_sessions d) \<and> ss_ID s \<notin> ss_ID ` set (au_sessions d)
     \<and> ss_UserID s \<in> us_ID ` set (au_users d))"

definition fresh_pat :: "auth_db \<Rightarrow> pat_row \<Rightarrow> bool" where
  "fresh_pat d p = (pt_TokenHash p \<notin> pt_TokenHash ` set (au_pats d) \<and> pt_ID p \<notin> pt_ID ` set (au_pats d)
     \<and> pt_UserID p \<in> us_ID ` set (au_users d))"

lemma step_sessions:
  assumes "auth_step d l d'"
  shows "rows_evolve (same_session l) (fresh_session d) (au_sessions d) (au_sessions d')"
  using assms
  by cases (auto simp: stmt_defs same_session_def fresh_session_def find_user_None
      intro!: rows_evolve_refl rows_evolve_add rows_evolve_update dest!: run_stmt_InrD split: if_splits option.splits)

lemma step_pats:
  assumes "auth_step d l d'"
  shows "rows_evolve (same_pat l) (fresh_pat d) (au_pats d) (au_pats d')"
  using assms
  by cases (auto simp: stmt_defs same_pat_def fresh_pat_def find_user_None
      intro!: rows_evolve_refl rows_evolve_add rows_evolve_update dest!: run_stmt_InrD split: if_splits option.splits)

end
