(* ===== verification/Auth_Oidc.thy ===== *)
theory Auth_Oidc
  imports Auth_Session Go_Strings
begin

text \<open>
  The OpenID Connect client (\<open>controlplane/internal/oidc/client.go\<close>). The identity provider is the
  context \<open>oidcctx\<close>: what its endpoints answer. An answer is the failure of building or sending the
  request, or a status code with what its body decodes to (\<open>None\<close> for a decoding error). The client
  keeps the discovery document it has fetched.
\<close>

datatype 'a reply = BadRequest string | NoReply string | Reply nat "'a option"

record discovery =
  dc_Issuer :: string
  dc_AuthorizationEndpoint :: string
  dc_TokenEndpoint :: string
  dc_UserinfoEndpoint :: string

record user_info =
  ui_Subject :: string
  ui_Name :: string
  ui_PreferredUsername :: string
  ui_Email :: string
  ui_EmailVerified :: bool
  ui_Picture :: string
  ui_Roles :: "string \<rightharpoonup> (string \<rightharpoonup> string)"

record oidc_token =
  ot_AccessToken :: string
  ot_TokenType :: string
  ot_ExpiresIn :: int
  ot_IDToken :: string

record oidcctx =
  oc_discovery :: "string \<Rightarrow> discovery reply"
  oc_token :: "string \<Rightarrow> string \<Rightarrow> (oidc_token option \<times> string option) reply"
  oc_userinfo :: "string \<Rightarrow> string \<Rightarrow> user_info reply"

record oidc_client =
  cl_issuer :: string
  cl_clientID :: string
  cl_disc :: "discovery option"

definition trim_slashes :: "string \<Rightarrow> string" where
  "trim_slashes s = rev (dropWhile (\<lambda>c. c = CHR ''/'') (rev s))"

definition NewOidcClient :: "string \<Rightarrow> string \<Rightarrow> oidc_client" where
  "NewOidcClient issuer client_id = \<lparr>cl_issuer = trim_slashes issuer, cl_clientID = client_id, cl_disc = None\<rparr>"

section \<open>Discovery\<close>

definition status_error :: "string \<Rightarrow> nat \<Rightarrow> error" where
  "status_error what n = ErrorText (what @ '': status '' @ nat_str n)"

definition discover :: "oidcctx \<Rightarrow> oidc_client \<Rightarrow> oidc_client \<times> discovery res" where
  "discover o' c = (case cl_disc c of
       Some d \<Rightarrow> (c, Inr d)
     | None \<Rightarrow> (case oc_discovery o' (cl_issuer c @ ''/.well-known/openid-configuration'') of
         BadRequest e \<Rightarrow> (c, Inl (ErrorText e))
       | NoReply e \<Rightarrow> (c, Inl (Errorf ''oidc discovery: '' (ErrorText e) []))
       | Reply n body \<Rightarrow>
           (if n \<noteq> 200 then (c, Inl (status_error ''oidc discovery'' n))
            else case body of
              None \<Rightarrow> (c, Inl (Errorf ''decode oidc discovery: '' (ErrorText ''json'') []))
            | Some d \<Rightarrow>
                (if dc_AuthorizationEndpoint d = [] \<or> dc_TokenEndpoint d = [] \<or> dc_UserinfoEndpoint d = []
                 then (c, Inl (ErrorText ''oidc discovery: document missing endpoints''))
                 else (c\<lparr>cl_disc := Some d\<rparr>, Inr d)))))"

definition Issuer :: "oidcctx \<Rightarrow> oidc_client \<Rightarrow> oidc_client \<times> string res" where
  "Issuer o' c = (case discover o' c of
       (c', Inl e) \<Rightarrow> (c', Inl e)
     | (c', Inr d) \<Rightarrow> (c', Inr (if dc_Issuer d \<noteq> [] then dc_Issuer d else cl_issuer c')))"

section \<open>Authorization request\<close>

text \<open>\<open>url.QueryEscape\<close> and \<open>url.Values.Encode\<close>, which sorts by key; the keys here are sorted already.\<close>

definition unreserved :: "char \<Rightarrow> bool" where
  "unreserved c = (let n = (of_char c :: nat) in
     (48 \<le> n \<and> n \<le> 57) \<or> (65 \<le> n \<and> n \<le> 90) \<or> (97 \<le> n \<and> n \<le> 122) \<or> c \<in> set ''-_.~'')"

definition upper_hex :: "nat \<Rightarrow> char" where
  "upper_hex n = (if n < 10 then char_of (48 + n) else char_of (55 + n))"

definition QueryEscape :: "string \<Rightarrow> string" where
  "QueryEscape s = concat (map (\<lambda>c. if unreserved c then [c] else if c = CHR '' '' then ''+''
     else [CHR 0x25, upper_hex (of_char c div 16), upper_hex (of_char c mod 16)]) s)"

fun encode_values :: "(string \<times> string) list \<Rightarrow> string" where
  "encode_values [] = []"
| "encode_values [(k, v)] = QueryEscape k @ ''='' @ QueryEscape v"
| "encode_values ((k, v) # kvs) = QueryEscape k @ ''='' @ QueryEscape v @ ''&'' @ encode_values kvs"

definition NewVerifier :: "string + 8 word list \<Rightarrow> string res" where
  "NewVerifier rnd = (case rnd of Inl e \<Rightarrow> Inl (ErrorText e) | Inr raw \<Rightarrow> Inr (rawurl_encode raw))"

definition challengeS256 :: "authctx \<Rightarrow> string \<Rightarrow> string" where
  "challengeS256 c verifier = rawurl_encode (ac_sha256 c verifier)"

definition AuthorizeURL :: "authctx \<Rightarrow> oidcctx \<Rightarrow> oidc_client \<Rightarrow> string \<Rightarrow> string \<Rightarrow> string \<Rightarrow> oidc_client \<times> string res" where
  "AuthorizeURL x o' c state redirect verifier = (case discover o' c of
       (c', Inl e) \<Rightarrow> (c', Inl e)
     | (c', Inr d) \<Rightarrow> (c', Inr (dc_AuthorizationEndpoint d
         @ (if CHR ''?'' \<in> set (dc_AuthorizationEndpoint d) then ''&'' else ''?'')
         @ encode_values
            [(''client_id'', cl_clientID c'), (''code_challenge'', challengeS256 x verifier),
             (''code_challenge_method'', ''S256''), (''redirect_uri'', redirect), (''response_type'', ''code''),
             (''scope'', ''openid profile email urn:zitadel:iam:org:projects:roles''), (''state'', state)])))"

section \<open>Code exchange and claims\<close>

definition exchange_form :: "oidc_client \<Rightarrow> string \<Rightarrow> string \<Rightarrow> string \<Rightarrow> string" where
  "exchange_form c code redirect verifier = encode_values
     [(''client_id'', cl_clientID c), (''code'', code), (''code_verifier'', verifier),
      (''grant_type'', ''authorization_code''), (''redirect_uri'', redirect)]"

definition oidc_Exchange :: "oidcctx \<Rightarrow> oidc_client \<Rightarrow> string \<Rightarrow> string \<Rightarrow> string \<Rightarrow> oidc_client \<times> oidc_token res" where
  "oidc_Exchange o' c code redirect verifier = (case discover o' c of
       (c', Inl e) \<Rightarrow> (c', Inl e)
     | (c', Inr d) \<Rightarrow> (c', (case oc_token o' (dc_TokenEndpoint d) (exchange_form c' code redirect verifier) of
         BadRequest e \<Rightarrow> Inl (ErrorText e)
       | NoReply e \<Rightarrow> Inl (Errorf ''token exchange: '' (ErrorText e) [])
       | Reply n body \<Rightarrow>
           (let terr = (case body of Some (_, Some t) \<Rightarrow> t | _ \<Rightarrow> []);
                tok = (case body of Some (t, _) \<Rightarrow> t | None \<Rightarrow> None)
            in if n \<noteq> 200 then Inl (if terr \<noteq> [] then ErrorText (''token exchange: '' @ terr) else status_error ''token exchange'' n)
               else case tok of
                 None \<Rightarrow> Inl (Errorf ''decode token: '' (ErrorText ''json'') [])
               | Some t \<Rightarrow> (if ot_AccessToken t = [] then Inl (ErrorText ''token exchange: empty access token'') else Inr t)))))"

definition GetUserInfo :: "oidcctx \<Rightarrow> oidc_client \<Rightarrow> string \<Rightarrow> oidc_client \<times> user_info res" where
  "GetUserInfo o' c token = (case discover o' c of
       (c', Inl e) \<Rightarrow> (c', Inl e)
     | (c', Inr d) \<Rightarrow> (c', (case oc_userinfo o' (dc_UserinfoEndpoint d) token of
         BadRequest e \<Rightarrow> Inl (ErrorText e)
       | NoReply e \<Rightarrow> Inl (Errorf ''get userinfo: '' (ErrorText e) [])
       | Reply n body \<Rightarrow>
           (if n \<noteq> 200 then Inl (status_error ''get userinfo'' n)
            else case body of
              None \<Rightarrow> Inl (Errorf ''decode userinfo: '' (ErrorText ''json'') [])
            | Some u \<Rightarrow> (if ui_Subject u = [] then Inl (ErrorText ''get userinfo: missing sub'') else Inr u)))))"

definition HasRole :: "user_info \<Rightarrow> string \<Rightarrow> bool" where
  "HasRole u k = (ui_Roles u k \<noteq> None)"

definition ui_Login :: "user_info \<Rightarrow> string" where
  "ui_Login u = (if ui_PreferredUsername u \<noteq> [] then ui_PreferredUsername u
     else if ui_Name u \<noteq> [] then ui_Name u else ui_Email u)"

section \<open>Facts\<close>

text \<open>The document is fetched once: afterwards the client answers from what it keeps.\<close>

lemma discover_cached: "discover o1 c = (c', Inr d) \<Longrightarrow> cl_disc c' = Some d \<and> discover o2 c' = (c', Inr d)"
  by (auto simp: discover_def split: option.splits reply.splits if_splits)

lemma discover_error: "discover o1 c = (c', Inl e) \<Longrightarrow> c' = c"
  by (auto simp: discover_def split: option.splits reply.splits if_splits)

lemma GetUserInfo_subject: "GetUserInfo o' c token = (c', Inr u) \<Longrightarrow> ui_Subject u \<noteq> []"
  by (auto simp: GetUserInfo_def split: prod.splits sum.splits reply.splits option.splits if_splits)

end
