(* ===== verification/Go_Path.thy ===== *)
theory Go_Path
  imports Go_Strings
begin

text \<open>
  Go's lexical path processing (\<open>path.Clean\<close>; \<open>filepath.Clean\<close> is the same on Unix) by its
  documented rules on the elements of a path, and the fact its callers rely on: a cleaned rooted
  path has no parent reference, so a prefix test on it is a test of containment.
\<close>

fun join_with :: "string \<Rightarrow> string list \<Rightarrow> string" where
  "join_with sep [] = []"
| "join_with sep [x] = x"
| "join_with sep (x # y # ys) = x @ sep @ join_with sep (y # ys)"

text \<open>One element appended to the cleaned elements, the last one first.\<close>

definition clean_push :: "bool \<Rightarrow> string list \<Rightarrow> string \<Rightarrow> string list" where
  "clean_push rooted st e =
     (if e = [] \<or> e = ''.'' then st
      else if e = ''..'' then
        (if st \<noteq> [] \<and> hd st \<noteq> ''..'' then tl st else if rooted then st else e # st)
      else e # st)"

definition clean_elems :: "bool \<Rightarrow> string list \<Rightarrow> string list" where
  "clean_elems rooted es = rev (foldl (clean_push rooted) [] es)"

definition rooted_path :: "string \<Rightarrow> bool" where
  "rooted_path s = (s \<noteq> [] \<and> hd s = CHR ''/'')"

definition Clean :: "string \<Rightarrow> string" where
  "Clean s =
     (if s = [] then ''.''
      else let es = clean_elems (rooted_path s) (split_char CHR ''/'' s)
           in if rooted_path s then CHR ''/'' # join_with ''/'' es
              else if es = [] then ''.'' else join_with ''/'' es)"

definition HasPrefix :: "string \<Rightarrow> string \<Rightarrow> bool" where
  "HasPrefix s p = (take (length p) s = p)"

definition HasSuffix :: "string \<Rightarrow> string \<Rightarrow> bool" where
  "HasSuffix s p = (length p \<le> length s \<and> drop (length s - length p) s = p)"

lemma HasPrefix_append [simp]: "HasPrefix (p @ s) p"
  by (simp add: HasPrefix_def)

lemma HasPrefixE: "HasPrefix s p \<Longrightarrow> \<exists>t. s = p @ t"
  unfolding HasPrefix_def by (metis append_take_drop_id)

section \<open>Elements of a path\<close>

lemma split_join:
  assumes "es \<noteq> []" "\<And>e. e \<in> set es \<Longrightarrow> c \<notin> set e"
  shows "split_char c (join_with [c] es) = es"
  using assms
proof (induction "[c]" es rule: join_with.induct)
  case (3 x y ys)
  then show ?case using split_char_sep [of c x "join_with [c] (y # ys)"] by (simp add: split_char_single)
qed (simp_all add: split_char_single)

text \<open>The elements that name something, and what a path without parent references is.\<close>

definition elems :: "string \<Rightarrow> string list" where
  "elems s = filter (\<lambda>e. e \<noteq> []) (split_char CHR ''/'' s)"

definition no_parent :: "string \<Rightarrow> bool" where
  "no_parent s = (rooted_path s \<and> ''..'' \<notin> set (elems s))"

definition plain_elem :: "string \<Rightarrow> bool" where
  "plain_elem e = (e \<noteq> [] \<and> e \<noteq> ''.'' \<and> e \<noteq> ''..'' \<and> CHR ''/'' \<notin> set e)"

lemma foldl_list_all:
  assumes "\<And>st x. list_all P st \<Longrightarrow> Q x \<Longrightarrow> list_all P (f st x)" "list_all P st" "list_all Q xs"
  shows "list_all P (foldl f st xs)"
  using assms(2,3) by (induction xs arbitrary: st) (simp_all add: assms(1))

lemma split_char_parts: "list_all (\<lambda>e. c \<notin> set e) (split_char c s)"
  using split_char_no_sep by (fastforce simp: list_all_iff)

lemma clean_elems_rooted: "list_all plain_elem (clean_elems True (split_char CHR ''/'' s))"
proof -
  have "list_all plain_elem (clean_push True st x)" if "list_all plain_elem st" "CHR ''/'' \<notin> set x" for st x
    using that by (cases st) (simp_all add: clean_push_def plain_elem_def)
  from foldl_list_all [where st = "[]", OF this _ split_char_parts] show ?thesis by (simp add: clean_elems_def)
qed

lemma clean_elems_plain: "list_all (\<lambda>e. e \<noteq> [] \<and> CHR ''/'' \<notin> set e) (clean_elems r (split_char CHR ''/'' s))"
proof -
  let ?P = "\<lambda>e. e \<noteq> [] \<and> CHR ''/'' \<notin> set e"
  have "list_all ?P (clean_push r st x)" if "list_all ?P st" "CHR ''/'' \<notin> set x" for st x
    using that by (cases st) (simp_all add: clean_push_def)
  from foldl_list_all [where st = "[]", OF this _ split_char_parts] show ?thesis by (simp add: clean_elems_def)
qed

lemma elems_rooted_join:
  assumes "list_all (\<lambda>e. e \<noteq> [] \<and> CHR ''/'' \<notin> set e) es"
  shows "elems (CHR ''/'' # join_with ''/'' es) = es"
proof (cases "es = []")
  case False
  have "CHR ''/'' \<notin> set e" if "e \<in> set es" for e using that assms by (auto simp: list_all_iff)
  then have "split_char CHR ''/'' (join_with ''/'' es) = es" using split_join [OF False] by blast
  then show ?thesis using assms by (simp add: elems_def list_all_iff)
qed (simp add: elems_def)

lemma Clean_rooted:
  assumes "rooted_path s"
  shows "elems (Clean s) = clean_elems True (split_char CHR ''/'' s)" "no_parent (Clean s)" "rooted_path (Clean s)"
proof -
  have c: "Clean s = CHR ''/'' # join_with ''/'' (clean_elems True (split_char CHR ''/'' s))"
    using assms by (simp add: Clean_def rooted_path_def)
  show e: "elems (Clean s) = clean_elems True (split_char CHR ''/'' s)"
    unfolding c by (rule elems_rooted_join [OF clean_elems_plain])
  show r: "rooted_path (Clean s)" by (simp add: c rooted_path_def)
  have "''..'' \<notin> set (clean_elems True (split_char CHR ''/'' s))"
    using clean_elems_rooted [of s] by (auto simp: list_all_iff plain_elem_def)
  with e r show "no_parent (Clean s)" by (simp add: no_parent_def)
qed

lemma clean_elems_id:
  assumes "list_all (\<lambda>e. e \<noteq> ''.'' \<and> e \<noteq> ''..'') es"
  shows "clean_elems True es = filter (\<lambda>e. e \<noteq> []) es"
proof -
  have "foldl (clean_push True) st es = rev (filter (\<lambda>e. e \<noteq> []) es) @ st" for st
    using assms by (induction es arbitrary: st) (simp_all add: clean_push_def)
  then show ?thesis by (simp add: clean_elems_def)
qed

text \<open>Cleaning a cleaned path changes nothing.\<close>

lemma Clean_idem:
  assumes "rooted_path s"
  shows "Clean (Clean s) = Clean s"
proof -
  let ?es = "clean_elems True (split_char CHR ''/'' s)"
  have c: "Clean t = CHR ''/'' # join_with ''/'' (clean_elems True (split_char CHR ''/'' t))" if "rooted_path t" for t
    using that by (simp add: Clean_def rooted_path_def)
  have "clean_elems True (split_char CHR ''/'' (Clean s)) = elems (Clean s)"
    unfolding elems_def
  proof (rule clean_elems_id)
    have "''.'' \<notin> set (elems (Clean s))" "''..'' \<notin> set (elems (Clean s))"
      using clean_elems_rooted [of s] Clean_rooted(1) [OF assms] by (auto simp: list_all_iff plain_elem_def)
    then show "list_all (\<lambda>e. e \<noteq> ''.'' \<and> e \<noteq> ''..'') (split_char CHR ''/'' (Clean s))"
      by (auto simp: elems_def list_all_iff)
  qed
  then show ?thesis using c [OF Clean_rooted(3) [OF assms]] c [OF assms] Clean_rooted(1) [OF assms] by simp
qed

text \<open>A relative path stays relative.\<close>

lemma Clean_relative:
  assumes "\<not> rooted_path s"
  shows "\<not> rooted_path (Clean s)"
proof (cases "clean_elems False (split_char CHR ''/'' s)")
  case Nil
  with assms show ?thesis by (auto simp: Clean_def rooted_path_def)
next
  case (Cons e es)
  then have "e \<noteq> []" "CHR ''/'' \<notin> set e" using clean_elems_plain [of False s] by simp_all
  then have h: "hd e \<noteq> CHR ''/''" by (cases e) auto
  have "hd (join_with ''/'' (e # es)) = hd e" using \<open>e \<noteq> []\<close> by (cases es) simp_all
  with h Cons assms show ?thesis by (auto simp: Clean_def Let_def rooted_path_def)
qed

section \<open>Containment\<close>

text \<open>A path lies under a root when it has no parent reference and its elements extend the root's.\<close>

definition under :: "string \<Rightarrow> string \<Rightarrow> bool" where
  "under root p = (no_parent p \<and> (\<exists>rest. elems p = elems root @ rest))"

lemma under_self: "no_parent p \<Longrightarrow> under p p"
  by (simp add: under_def)

lemma under_prefix:
  assumes "no_parent p" "p = root @ ''/'' @ t"
  shows "under root p"
  using assms split_char_sep [of "CHR ''/''" root t] by (simp add: under_def elems_def)

text \<open>The test the code makes on a cleaned path is containment in the cleaned root.\<close>

lemma clean_prefix_under:
  assumes "rooted_path root" "Clean dir = Clean root \<or> HasPrefix (Clean dir) (Clean root @ ''/'')"
  shows "under (Clean root) (Clean dir)"
proof -
  have rr: "rooted_path (Clean root)" using Clean_rooted(3) assms(1) .
  have "rooted_path (Clean dir)"
  proof (cases "Clean dir = Clean root")
    case False
    then obtain t where "Clean dir = Clean root @ ''/'' @ t" using assms(2) HasPrefixE by fastforce
    with rr show ?thesis by (auto simp: rooted_path_def)
  qed (use rr in simp)
  then have "rooted_path dir" using Clean_relative by blast
  then have n: "no_parent (Clean dir)" using Clean_rooted(2) by blast
  show ?thesis
  proof (cases "Clean dir = Clean root")
    case True
    with n under_self show ?thesis by simp
  next
    case False
    then obtain t where "Clean dir = Clean root @ ''/'' @ t" using assms(2) HasPrefixE by fastforce
    with under_prefix n show ?thesis by blast
  qed
qed

end
