(* ===== verification/Guest_Wire.thy ===== *)
theory Guest_Wire
  imports Go_Path
begin

text \<open>
  The wire contract between the control plane and the guest agent (\<open>guestagent/api/guestwire.go\<close>):
  the operations and error codes of the control channel, its messages, and the validators both
  sides apply to paths, branch names and session names. A Go \<open>range\<close> over a string sees control
  characters and ASCII letters as bytes, so the character tests are on bytes.
\<close>

section \<open>Operations and error codes\<close>

definition OpGitConfigure :: string where "OpGitConfigure = ''git.configure''"
definition OpGitClone :: string where "OpGitClone = ''git.clone''"
definition OpGitCloneDone :: string where "OpGitCloneDone = ''git.clone.done''"
definition OpGitCredential :: string where "OpGitCredential = ''git.credential''"
definition OpGitPush :: string where "OpGitPush = ''git.push''"
definition OpGitPushDone :: string where "OpGitPushDone = ''git.push.done''"
definition OpAgentRun :: string where "OpAgentRun = ''agent.run''"
definition OpAgentDone :: string where "OpAgentDone = ''agent.done''"
definition OpAgentCancel :: string where "OpAgentCancel = ''agent.cancel''"
definition OpAgentEvent :: string where "OpAgentEvent = ''agent.event''"
definition OpProjectsList :: string where "OpProjectsList = ''projects.list''"
definition OpKVGet :: string where "OpKVGet = ''kv.get''"
definition OpKVSet :: string where "OpKVSet = ''kv.set''"
definition OpGitStatus :: string where "OpGitStatus = ''git.status''"
definition OpGitDiff :: string where "OpGitDiff = ''git.diff''"
definition OpGitBranch :: string where "OpGitBranch = ''git.branch''"
definition OpGitCommit :: string where "OpGitCommit = ''git.commit''"
definition OpClaudeConfigure :: string where "OpClaudeConfigure = ''claude.configure''"

lemmas ops = OpGitConfigure_def OpGitClone_def OpGitCloneDone_def OpGitCredential_def OpGitPush_def OpGitPushDone_def
  OpAgentRun_def OpAgentDone_def OpAgentCancel_def OpAgentEvent_def OpProjectsList_def OpKVGet_def OpKVSet_def
  OpGitStatus_def OpGitDiff_def OpGitBranch_def OpGitCommit_def OpClaudeConfigure_def

definition ErrCodeReconnectGitHub :: string where "ErrCodeReconnectGitHub = ''reconnect_github''"
definition ErrCodeForbiddenHost :: string where "ErrCodeForbiddenHost = ''forbidden_host''"
definition ErrCodeUnavailable :: string where "ErrCodeUnavailable = ''unavailable''"
definition ErrCodeBranchExists :: string where "ErrCodeBranchExists = ''branch_exists''"
definition ErrCodeInvalidBranch :: string where "ErrCodeInvalidBranch = ''invalid_branch''"
definition ErrCodeGitFailed :: string where "ErrCodeGitFailed = ''git_failed''"
definition ErrCodeEmptyMessage :: string where "ErrCodeEmptyMessage = ''empty_message''"
definition ErrCodeNothingToCommit :: string where "ErrCodeNothingToCommit = ''nothing_to_commit''"

section \<open>Messages\<close>

record control_error =
  ce_Code :: string
  ce_Message :: string

record git_file_status =
  gf_Path :: string
  gf_Orig :: string
  gf_Index :: string
  gf_Worktree :: string

record git_status_response =
  gs_Branch :: string
  gs_Files :: "git_file_status list"

record git_diff_response =
  gd_Diff :: string
  gd_Truncated :: bool

record git_commit_response =
  gc_Sha :: string
  gc_Subject :: string

record git_push_payload =
  gp_Path :: string
  gp_Branch :: string
  gp_SetUpstream :: bool
  gp_OpID :: string

record agent_run_payload =
  ar_TaskID :: string
  ar_Path :: string
  ar_Prompt :: string
  ar_Provider :: string
  ar_SessionID :: string

text \<open>\<open>CostUSD\<close> is a float: it is kept as the literals that are added up, in that order.\<close>

record agent_done_payload =
  ad_TaskID :: string
  ad_OK :: bool
  ad_Canceled :: bool
  ad_SessionID :: string
  ad_Summary :: string
  ad_CostUSD :: "string list"
  ad_NumTurns :: int
  ad_DurationMS :: int
  ad_Error :: string

definition AgentEventAssistantText :: string where "AgentEventAssistantText = ''assistant_text''"
definition AgentEventToolUse :: string where "AgentEventToolUse = ''tool_use''"
definition AgentEventToolResult :: string where "AgentEventToolResult = ''tool_result''"
definition AgentEventResult :: string where "AgentEventResult = ''result''"
definition AgentEventTextCap :: nat where "AgentEventTextCap = 16384"
definition AgentEventToolCap :: nat where "AgentEventToolCap = 8192"

record agent_event_payload =
  av_TaskID :: string
  av_Kind :: string
  av_Text :: string
  av_Tool :: string
  av_ToolID :: string
  av_Input :: string
  av_Output :: string
  av_IsError :: bool

record project =
  pj_Name :: string
  pj_Path :: string
  pj_Remote :: string
  pj_Branch :: string
  pj_Dirty :: bool
  pj_LastCommitAt :: string
  pj_LastCommitMsg :: string

record provider_def =
  pd_Command :: string
  pd_Env :: "(string \<times> string) list"
  pd_SetupCommand :: string

record file_def =
  fd_Path :: string
  fd_Mode :: "32 word"
  fd_Content :: string

section \<open>Validators\<close>

definition control_byte :: "char \<Rightarrow> bool" where
  "control_byte c = ((of_char c :: nat) < 32 \<or> (of_char c :: nat) = 127)"

definition ValidCommitPath :: "string \<Rightarrow> bool" where
  "ValidCommitPath p =
     (if p = [] \<or> length p > 4096 \<or> HasPrefix p ''/'' then False
      else if list_ex control_byte p then False
      else ''..'' \<notin> set (split_char CHR ''/'' p))"

definition contains :: "string \<Rightarrow> string \<Rightarrow> bool" where
  "contains s t = list_ex (\<lambda>i. take (length t) (drop i s) = t) [0 ..< Suc (length s)]"

definition branchNameMaxLen :: nat where "branchNameMaxLen = 200"

definition forbidden_ref_byte :: "char \<Rightarrow> bool" where
  "forbidden_ref_byte c = (c \<in> set [CHR ''~'', CHR 0x5E, CHR '':'', CHR ''?'', CHR ''*'', CHR ''['', CHR 0x5C])"

definition ValidBranchName :: "string \<Rightarrow> bool" where
  "ValidBranchName name =
     (if name = [] \<or> length name > branchNameMaxLen then False
      else if HasPrefix name ''-'' \<or> HasPrefix name ''/'' \<or> HasPrefix name ''.'' then False
      else if HasSuffix name ''/'' \<or> HasSuffix name ''.'' \<or> HasSuffix name ''.lock'' then False
      else if contains name ''..'' \<or> contains name ''//'' \<or> contains name [CHR ''@'', CHR ''{''] then False
      else list_all (\<lambda>c. \<not> control_byte c \<and> c \<noteq> CHR '' '' \<and> \<not> forbidden_ref_byte c) name)"

definition ValidStartPoint :: "string \<Rightarrow> bool" where
  "ValidStartPoint from =
     (if from = [] then True
      else if length from > branchNameMaxLen \<or> HasPrefix from ''-'' then False
      else list_all (\<lambda>c. \<not> control_byte c \<and> c \<noteq> CHR '' '') from)"

text \<open>\<open>^[a-z0-9-]{1,32}$\<close>\<close>

definition ValidSessionName :: "string \<Rightarrow> bool" where
  "ValidSessionName name = (1 \<le> length name \<and> length name \<le> 32
     \<and> list_all (\<lambda>c. is_digit c \<or> (97 \<le> (of_char c :: nat) \<and> (of_char c :: nat) \<le> 122) \<or> c = CHR ''-'') name)"

definition AgentSessionPrefix :: string where "AgentSessionPrefix = ''agent-''"

definition ProviderKeyFromSession :: "string \<Rightarrow> string option" where
  "ProviderKeyFromSession session =
     (if length session > length AgentSessionPrefix \<and> take (length AgentSessionPrefix) session = AgentSessionPrefix
      then Some (drop (length AgentSessionPrefix) session) else None)"

definition WorkspaceRoot :: string where "WorkspaceRoot = ''/workspace''"

definition CleanWorkdirUnder :: "string \<Rightarrow> string \<Rightarrow> string option" where
  "CleanWorkdirUnder dir root =
     (if dir = [] then None
      else if Clean dir = Clean root \<or> HasPrefix (Clean dir) (Clean root @ ''/'') then Some (Clean dir) else None)"

definition CleanWorkdir :: "string \<Rightarrow> string option" where
  "CleanWorkdir dir = CleanWorkdirUnder dir WorkspaceRoot"

section \<open>What the validators give\<close>

lemma CleanWorkdirUnder_under:
  assumes "CleanWorkdirUnder dir root = Some c" "rooted_path root"
  shows "c = Clean dir \<and> under (Clean root) c"
  using assms clean_prefix_under [OF assms(2)] by (auto simp: CleanWorkdirUnder_def split: if_splits)

text \<open>A string git cannot take for an option.\<close>

definition not_option :: "string \<Rightarrow> bool" where
  "not_option a = (\<not> HasPrefix a ''-'')"

lemma branch_not_option: "ValidBranchName name \<Longrightarrow> not_option name \<and> name \<noteq> []"
  by (auto simp: ValidBranchName_def not_option_def split: if_splits)

lemma start_not_option: "ValidStartPoint from \<Longrightarrow> from \<noteq> [] \<Longrightarrow> not_option from"
  by (auto simp: ValidStartPoint_def not_option_def split: if_splits)

text \<open>A path to commit names something below the repository: joined to a root it stays under it.\<close>

lemma commit_path_under:
  assumes "ValidCommitPath p" "no_parent root"
  shows "under root (root @ ''/'' @ p)"
proof (rule under_prefix)
  have "''..'' \<notin> set (split_char CHR ''/'' p)" using assms(1) by (auto simp: ValidCommitPath_def split: if_splits)
  then have "''..'' \<notin> set (elems (root @ ''/'' @ p))"
    using assms(2) split_char_sep [of "CHR ''/''" root p] by (auto simp: elems_def no_parent_def)
  moreover have "rooted_path (root @ ''/'' @ p)" using assms(2) by (auto simp: no_parent_def rooted_path_def)
  ultimately show "no_parent (root @ ''/'' @ p)" by (simp add: no_parent_def)
qed simp

end
