(* ===== verification/Go_Json.thy ===== *)
theory Go_Json
  imports Go_Strings
begin

text \<open>
  JSON documents as \<open>encoding/json\<close> reads them. A value carries its source text, which is what a
  \<open>json.RawMessage\<close> holds. The decoders follow \<open>json.Unmarshal\<close> into a struct: keys match without
  regard to case, unknown keys are skipped, a missing key leaves the zero value, a key that occurs
  twice takes its last value, \<open>null\<close> changes nothing, and a value of the wrong kind is an error.
  Parsing text to documents is the standard library's.
\<close>

datatype json = Json (json_text: string) (json_val: jvalue)
  and jvalue = JNull | JBool bool | JNum string | JStr string | JArr "json list" | JObj "(string \<times> json) list"

section \<open>Fields of a struct\<close>

definition field_vals :: "string \<Rightarrow> (string \<times> json) list \<Rightarrow> jvalue list" where
  "field_vals name kvs = map (json_val \<circ> snd) (filter (\<lambda>(k, _). EqualFold k name) kvs)"

definition dec_field :: "('a \<Rightarrow> jvalue \<Rightarrow> 'a option) \<Rightarrow> 'a \<Rightarrow> string \<Rightarrow> (string \<times> json) list \<Rightarrow> 'a option" where
  "dec_field f z name kvs = foldl (\<lambda>acc v. case acc of None \<Rightarrow> None | Some a \<Rightarrow> f a v) (Some z) (field_vals name kvs)"

fun set_str :: "string \<Rightarrow> jvalue \<Rightarrow> string option" where
  "set_str a JNull = Some a"
| "set_str a (JStr s) = Some s"
| "set_str a _ = None"

fun set_bool :: "bool \<Rightarrow> jvalue \<Rightarrow> bool option" where
  "set_bool a JNull = Some a"
| "set_bool a (JBool b) = Some b"
| "set_bool a _ = None"

text \<open>\<open>strconv.ParseInt(s, 10, 64)\<close> on a number literal: a fraction or an exponent is an error.\<close>

definition ParseInt64 :: "string \<Rightarrow> int option" where
  "ParseInt64 s =
     (let neg = (s \<noteq> [] \<and> hd s = CHR ''-''); ds = (if neg then tl s else s);
          n = (if neg then - int (digits_val ds) else int (digits_val ds))
      in if ds \<noteq> [] \<and> list_all is_digit ds \<and> - (2 ^ 63) \<le> n \<and> n < 2 ^ 63 then Some n else None)"

fun set_int :: "int \<Rightarrow> jvalue \<Rightarrow> int option" where
  "set_int a JNull = Some a"
| "set_int a (JNum s) = ParseInt64 s"
| "set_int a _ = None"

text \<open>A float is kept as its literal; literals outside the range of \<open>float64\<close> are not considered.\<close>

fun set_float :: "string list \<Rightarrow> jvalue \<Rightarrow> string list option" where
  "set_float a JNull = Some a"
| "set_float a (JNum s) = Some [s]"
| "set_float a _ = None"

fun dec_all :: "('a \<Rightarrow> 'b option) \<Rightarrow> 'a list \<Rightarrow> 'b list option" where
  "dec_all f [] = Some []"
| "dec_all f (x # xs) = (case f x of None \<Rightarrow> None | Some y \<Rightarrow> map_option (\<lambda>ys. y # ys) (dec_all f xs))"

fun set_list :: "(jvalue \<Rightarrow> 'a option) \<Rightarrow> 'a list \<Rightarrow> jvalue \<Rightarrow> 'a list option" where
  "set_list f a JNull = Some []"
| "set_list f a (JArr js) = dec_all (\<lambda>j. f (json_val j)) js"
| "set_list f a _ = None"

text \<open>A pointer to a struct: \<open>null\<close> makes it nil.\<close>

definition set_ptr :: "(jvalue \<Rightarrow> 'a option) \<Rightarrow> 'a option \<Rightarrow> jvalue \<Rightarrow> 'a option option" where
  "set_ptr f a v = (if v = JNull then Some None else map_option Some (f v))"

text \<open>A raw field: the last value under the key, whatever it is, and empty when there is none.\<close>

definition dec_raw :: "string \<Rightarrow> (string \<times> json) list \<Rightarrow> json option" where
  "dec_raw name kvs = (case filter (\<lambda>(k, _). EqualFold k name) kvs of [] \<Rightarrow> None | xs \<Rightarrow> Some (snd (last xs)))"

definition raw_text :: "json option \<Rightarrow> string" where
  "raw_text r = (case r of None \<Rightarrow> [] | Some j \<Rightarrow> json_text j)"

text \<open>A struct from a document: \<open>null\<close> leaves it zero, anything but an object is an error.\<close>

definition dec_struct :: "((string \<times> json) list \<Rightarrow> 'a option) \<Rightarrow> jvalue \<Rightarrow> 'a option" where
  "dec_struct f v = (case v of JObj kvs \<Rightarrow> f kvs | JNull \<Rightarrow> f [] | _ \<Rightarrow> None)"

definition dec_str :: "string \<Rightarrow> (string \<times> json) list \<Rightarrow> string option" where
  "dec_str = dec_field set_str []"

definition dec_bool :: "string \<Rightarrow> (string \<times> json) list \<Rightarrow> bool option" where
  "dec_bool = dec_field set_bool False"

definition dec_int :: "string \<Rightarrow> (string \<times> json) list \<Rightarrow> int option" where
  "dec_int = dec_field set_int 0"

definition dec_strs :: "string \<Rightarrow> (string \<times> json) list \<Rightarrow> string list option" where
  "dec_strs = dec_field (set_list (set_str [])) []"

lemmas dec_defs = dec_str_def dec_bool_def dec_int_def dec_strs_def dec_field_def field_vals_def dec_struct_def

text \<open>A struct of string and Boolean fields as \<open>json.Marshal\<close> writes it.\<close>

definition jstr :: "string \<Rightarrow> string \<Rightarrow> string \<times> json" where
  "jstr k s = (k, Json [] (JStr s))"

definition jbool :: "string \<Rightarrow> bool \<Rightarrow> string \<times> json" where
  "jbool k b = (k, Json [] (JBool b))"

text \<open>The standard library's parser.\<close>

record jsonctx =
  jx_parse :: "string \<Rightarrow> json option"

definition Unmarshal :: "jsonctx \<Rightarrow> (jvalue \<Rightarrow> 'a option) \<Rightarrow> string \<Rightarrow> 'a option" where
  "Unmarshal jx f s = (case jx_parse jx s of None \<Rightarrow> None | Some j \<Rightarrow> f (json_val j))"

end
