(* ===== verification/Git_Links.thy ===== *)
theory Git_Links
  imports Auth_Store Secret_Store Go_Json "HOL-Library.AList"
begin

text \<open>
  The tables of the git integration: the GitHub grant of a user (\<open>github_links\<close>), the access tokens
  for other git hosts (\<open>git_host_links\<close>) and the git identity of the portable profile
  (\<open>user_git_identity\<close>), with their queries. Tokens are never in these tables: a row holds a
  reference into the secret store. A \<open>jsonb\<close> column is the document it holds, its source text and
  the order of its members being irrelevant.
\<close>

record github_link =
  gl_UserID :: pg_uuid
  gl_Metadata :: jvalue
  gl_SecretRef :: string
  gl_CreatedAt :: int
  gl_UpdatedAt :: int

record git_host_link =
  gh_UserID :: pg_uuid
  gh_Host :: string
  gh_Metadata :: jvalue
  gh_SecretRef :: string
  gh_CreatedAt :: int
  gh_UpdatedAt :: int

record git_identity =
  gi_UserID :: pg_uuid
  gi_Name :: string
  gi_Email :: string
  gi_UpdatedAt :: int

record link_db =
  ld_auth :: auth_db
  ld_github :: "github_link list"
  ld_hosts :: "git_host_link list"
  ld_idents :: "git_identity list"

text \<open>\<open>INSERT ... ON CONFLICT DO UPDATE\<close>: the row that satisfies a condition, or a new one.\<close>

definition upsert :: "('r \<Rightarrow> bool) \<Rightarrow> ('r \<Rightarrow> 'r) \<Rightarrow> 'r \<Rightarrow> 'r list \<Rightarrow> 'r list" where
  "upsert p f new rs = (case find p rs of None \<Rightarrow> rs @ [new] | Some _ \<Rightarrow> tbl_update p f rs)"

definition upserted :: "('r \<Rightarrow> bool) \<Rightarrow> ('r \<Rightarrow> 'r) \<Rightarrow> 'r \<Rightarrow> 'r list \<Rightarrow> 'r" where
  "upserted p f new rs = (case find p rs of None \<Rightarrow> new | Some r \<Rightarrow> f r)"

section \<open>The GitHub grant\<close>

definition GetGitHubLink :: "authctx \<Rightarrow> link_db \<Rightarrow> pg_uuid \<Rightarrow> github_link res" where
  "GetGitHubLink c d u = run_stmt c ''GetGitHubLink'' (row_of (find (\<lambda>l. gl_UserID l = u) (ld_github d)))"

definition github_row :: "authctx \<Rightarrow> pg_uuid \<Rightarrow> jvalue \<Rightarrow> string \<Rightarrow> github_link" where
  "github_row c u meta ref = \<lparr>gl_UserID = u, gl_Metadata = meta, gl_SecretRef = ref, gl_CreatedAt = ac_now c, gl_UpdatedAt = ac_now c\<rparr>"

definition UpsertGitHubLink :: "authctx \<Rightarrow> link_db \<Rightarrow> pg_uuid \<Rightarrow> jvalue \<Rightarrow> string \<Rightarrow> (link_db \<times> github_link) res" where
  "UpsertGitHubLink c d u meta ref = run_stmt c ''UpsertGitHubLink''
     (if find_user (ld_auth d) u = None then Inl fk_violation
      else let p = (\<lambda>l. gl_UserID l = u); new = github_row c u meta ref;
               f = (\<lambda>l. l\<lparr>gl_Metadata := meta, gl_SecretRef := ref, gl_UpdatedAt := ac_now c\<rparr>)
           in Inr (d\<lparr>ld_github := upsert p f new (ld_github d)\<rparr>, upserted p f new (ld_github d)))"

section \<open>Tokens for other git hosts\<close>

definition host_key :: "pg_uuid \<Rightarrow> string \<Rightarrow> git_host_link \<Rightarrow> bool" where
  "host_key u hst l = (gh_UserID l = u \<and> gh_Host l = hst)"

definition GetGitHostLink :: "authctx \<Rightarrow> link_db \<Rightarrow> pg_uuid \<Rightarrow> string \<Rightarrow> git_host_link res" where
  "GetGitHostLink c d u hst = run_stmt c ''GetGitHostLink'' (row_of (find (host_key u hst) (ld_hosts d)))"

definition ListGitHostLinks :: "authctx \<Rightarrow> link_db \<Rightarrow> pg_uuid \<Rightarrow> git_host_link list res" where
  "ListGitHostLinks c d u = run_stmt c ''ListGitHostLinks''
     (Inr (sort_key (\<lambda>l. map (of_char :: char \<Rightarrow> nat) (gh_Host l)) (filter (\<lambda>l. gh_UserID l = u) (ld_hosts d))))"

definition UpsertGitHostLink :: "authctx \<Rightarrow> link_db \<Rightarrow> pg_uuid \<Rightarrow> string \<Rightarrow> jvalue \<Rightarrow> string \<Rightarrow> (link_db \<times> git_host_link) res" where
  "UpsertGitHostLink c d u hst meta ref = run_stmt c ''UpsertGitHostLink''
     (if find_user (ld_auth d) u = None then Inl fk_violation
      else let new = \<lparr>gh_UserID = u, gh_Host = hst, gh_Metadata = meta, gh_SecretRef = ref, gh_CreatedAt = ac_now c, gh_UpdatedAt = ac_now c\<rparr>;
               f = (\<lambda>l. l\<lparr>gh_Metadata := meta, gh_SecretRef := ref, gh_UpdatedAt := ac_now c\<rparr>)
           in Inr (d\<lparr>ld_hosts := upsert (host_key u hst) f new (ld_hosts d)\<rparr>, upserted (host_key u hst) f new (ld_hosts d)))"

definition DeleteGitHostLink :: "authctx \<Rightarrow> link_db \<Rightarrow> pg_uuid \<Rightarrow> string \<Rightarrow> link_db res" where
  "DeleteGitHostLink c d u hst = run_stmt c ''DeleteGitHostLink''
     (Inr (d\<lparr>ld_hosts := tbl_delete (host_key u hst) (ld_hosts d)\<rparr>))"

section \<open>The git identity\<close>

definition GetGitIdentity :: "authctx \<Rightarrow> link_db \<Rightarrow> pg_uuid \<Rightarrow> (string \<times> string) res" where
  "GetGitIdentity c d u = run_stmt c ''GetGitIdentity''
     (row_of (map_option (\<lambda>i. (gi_Name i, gi_Email i)) (find (\<lambda>i. gi_UserID i = u) (ld_idents d))))"

definition UpsertGitIdentity :: "authctx \<Rightarrow> link_db \<Rightarrow> pg_uuid \<Rightarrow> string \<Rightarrow> string \<Rightarrow> (link_db \<times> git_identity) res" where
  "UpsertGitIdentity c d u name email = run_stmt c ''UpsertGitIdentity''
     (if find_user (ld_auth d) u = None then Inl fk_violation
      else let p = (\<lambda>i. gi_UserID i = u); new = \<lparr>gi_UserID = u, gi_Name = name, gi_Email = email, gi_UpdatedAt = ac_now c\<rparr>;
               f = (\<lambda>i. i\<lparr>gi_Name := name, gi_Email := email, gi_UpdatedAt := ac_now c\<rparr>)
           in Inr (d\<lparr>ld_idents := upsert p f new (ld_idents d)\<rparr>, upserted p f new (ld_idents d)))"

definition DeleteGitIdentity :: "authctx \<Rightarrow> link_db \<Rightarrow> pg_uuid \<Rightarrow> (link_db \<times> int) res" where
  "DeleteGitIdentity c d u = run_stmt c ''DeleteGitIdentity''
     (Inr (d\<lparr>ld_idents := tbl_delete (\<lambda>i. gi_UserID i = u) (ld_idents d)\<rparr>,
           int (length (filter (\<lambda>i. gi_UserID i = u) (ld_idents d)))))"

section \<open>Metadata\<close>

text \<open>The members are decoded best effort: a member of the wrong kind is skipped.\<close>

definition meta_members :: "jvalue \<Rightarrow> (string \<times> json) list" where
  "meta_members v = (case v of JObj kvs \<Rightarrow> kvs | _ \<Rightarrow> [])"

definition metadataRevoked :: "jvalue \<Rightarrow> bool" where
  "metadataRevoked v = foldl (\<lambda>a x. case x of JBool b \<Rightarrow> b | _ \<Rightarrow> a) False (field_vals ''revoked'' (meta_members v))"

definition loginFromMetadata :: "jvalue \<Rightarrow> string" where
  "loginFromMetadata v = foldl (\<lambda>a x. case x of JStr s \<Rightarrow> s | _ \<Rightarrow> a) [] (field_vals ''login'' (meta_members v))"

text \<open>
  The metadata with the revoked flag set; \<open>None\<close> is the panic of assigning into the nil map that
  the document \<open>null\<close> decodes to.
\<close>

definition revoked_meta :: "jvalue \<Rightarrow> jvalue option" where
  "revoked_meta v = (if v = JNull then None
     else Some (JObj (AList.update ''revoked'' (Json [] (JBool True)) (meta_members v))))"

text \<open>The metadata of a grant as it is written on connecting and on every refresh.\<close>

definition jnum :: "string \<Rightarrow> int \<Rightarrow> string \<times> json" where
  "jnum k i = (k, Json [] (JNum (itoa i)))"

definition grant_meta :: "int \<Rightarrow> int \<Rightarrow> string \<Rightarrow> bool \<Rightarrow> jvalue" where
  "grant_meta expires refresh_expires scope revoked = JObj
     [jnum ''expires_in'' expires, jnum ''refresh_token_expires_in'' refresh_expires, jstr ''scope'' scope, jbool ''revoked'' revoked]"

lemma grant_meta_revoked [simp]: "metadataRevoked (grant_meta a b s r) = r"
  by (simp add: metadataRevoked_def grant_meta_def meta_members_def field_vals_def jnum_def jstr_def jbool_def lower_byte_def)

lemma revoked_grant_meta [simp]: "revoked_meta (grant_meta a b s r) = Some (grant_meta a b s True)"
  by (simp add: revoked_meta_def grant_meta_def meta_members_def jnum_def jstr_def jbool_def)

section \<open>Facts\<close>

text \<open>Every link refers to the secrets of its own user and host, and its metadata is as the code writes it.\<close>

definition links_ok :: "link_db \<Rightarrow> bool" where
  "links_ok d = (distinct (map gl_UserID (ld_github d))
     \<and> (\<forall>l \<in> set (ld_github d). gl_SecretRef l = UserGitHubPath (UUIDString (gl_UserID l))
          \<and> (\<exists>a b s r. gl_Metadata l = grant_meta a b s r))
     \<and> distinct (map (\<lambda>l. (gh_UserID l, gh_Host l)) (ld_hosts d))
     \<and> (\<forall>l \<in> set (ld_hosts d). gh_SecretRef l = UserGitHostPath (UUIDString (gh_UserID l)) (gh_Host l)))"

lemma find_upsert:
  assumes "\<And>r. p r \<Longrightarrow> p (f r)" "p new"
  shows "find p (upsert p f new rs) = Some (upserted p f new rs)"
proof (induction rs)
  case (Cons r rs)
  then show ?case using assms by (cases "p r"; cases "find p rs") (auto simp: upsert_def upserted_def)
qed (use assms in \<open>simp add: upsert_def upserted_def\<close>)

lemma find_upsert_other:
  assumes "\<And>r. p r \<Longrightarrow> \<not> q r" "\<And>r. p r \<Longrightarrow> \<not> q (f r)" "\<not> q new"
  shows "find q (upsert p f new rs) = find q rs"
proof -
  have "find q (tbl_update p f rs) = find q rs"
    using assms by (induction rs) auto
  moreover have "find q (rs @ [new]) = find q rs" using assms(3) by (induction rs) auto
  ultimately show ?thesis by (simp add: upsert_def split: option.splits)
qed

lemma set_upsert: "set (upsert p f new rs) \<subseteq> insert new (set rs \<union> f ` {r \<in> set rs. p r})"
  by (auto simp: upsert_def set_tbl_update split: option.splits)

lemma map_key_upsert:
  assumes "\<And>r. p r \<Longrightarrow> key (f r) = key r" "\<And>r. p r \<longleftrightarrow> key r = key new"
  shows "distinct (map key rs) \<Longrightarrow> distinct (map key (upsert p f new rs))"
proof -
  assume d: "distinct (map key rs)"
  have "map key (tbl_update p f rs) = map key rs"
    using assms(1) by (induction rs) auto
  moreover have "find p rs = None \<Longrightarrow> key new \<notin> key ` set rs"
    using assms(2) by (auto simp: find_None_iff)
  ultimately show ?thesis using d by (auto simp: upsert_def split: option.splits)
qed

lemma Upsert_Get:
  assumes "UpsertGitHubLink c d u meta ref = Inr (d', l)"
  shows "find (\<lambda>l. gl_UserID l = v) (ld_github d') = (if v = u then Some l else find (\<lambda>l. gl_UserID l = v) (ld_github d))"
    "gl_UserID l = u" "gl_Metadata l = meta" "gl_SecretRef l = ref" "ld_auth d' = ld_auth d" "ld_hosts d' = ld_hosts d"
    "ld_idents d' = ld_idents d"
proof -
  let ?f = "\<lambda>l. l\<lparr>gl_Metadata := meta, gl_SecretRef := ref, gl_UpdatedAt := ac_now c\<rparr>"
  let ?new = "github_row c u meta ref"
  have d': "d' = d\<lparr>ld_github := upsert (\<lambda>l. gl_UserID l = u) ?f ?new (ld_github d)\<rparr>"
    and l: "l = upserted (\<lambda>l. gl_UserID l = u) ?f ?new (ld_github d)"
    using assms by (auto simp: UpsertGitHubLink_def run_stmt_def Let_def split: option.splits if_splits)
  show "gl_UserID l = u" "gl_Metadata l = meta" "gl_SecretRef l = ref"
    using find_Some_iff [of "\<lambda>l. gl_UserID l = u" "ld_github d"]
    by (auto simp: l upserted_def github_row_def split: option.splits)
  show "ld_auth d' = ld_auth d" "ld_hosts d' = ld_hosts d" "ld_idents d' = ld_idents d" by (simp_all add: d')
  show "find (\<lambda>l. gl_UserID l = v) (ld_github d') = (if v = u then Some l else find (\<lambda>l. gl_UserID l = v) (ld_github d))"
    using find_upsert [of "\<lambda>l. gl_UserID l = u" ?f ?new "ld_github d"]
      find_upsert_other [of "\<lambda>l. gl_UserID l = u" "\<lambda>l. gl_UserID l = v" ?f ?new "ld_github d"]
    by (auto simp: d' l github_row_def)
qed

lemma GetGitHubLink_row: "GetGitHubLink c d u = Inr l \<Longrightarrow> find (\<lambda>l. gl_UserID l = u) (ld_github d) = Some l \<and> l \<in> set (ld_github d) \<and> gl_UserID l = u"
  by (auto simp: GetGitHubLink_def run_stmt_def row_of_def find_Some_iff split: option.splits)

lemma Upsert_links_ok:
  assumes "links_ok d" "UpsertGitHubLink c d u (grant_meta a b s r) (UserGitHubPath (UUIDString u)) = Inr (d', l)"
  shows "links_ok d'"
proof -
  let ?ref = "UserGitHubPath (UUIDString u)"
  let ?m = "grant_meta a b s r"
  let ?p = "\<lambda>l. gl_UserID l = u"
  let ?f = "\<lambda>l. l\<lparr>gl_Metadata := ?m, gl_SecretRef := ?ref, gl_UpdatedAt := ac_now c\<rparr>"
  let ?new = "github_row c u ?m ?ref"
  have d': "d' = d\<lparr>ld_github := upsert ?p ?f ?new (ld_github d)\<rparr>"
    using assms(2) by (auto simp: UpsertGitHubLink_def run_stmt_def Let_def split: option.splits if_splits)
  have "distinct (map gl_UserID (upsert ?p ?f ?new (ld_github d)))"
    by (rule map_key_upsert) (use assms(1) in \<open>auto simp: links_ok_def github_row_def\<close>)
  moreover have "gl_SecretRef l = UserGitHubPath (UUIDString (gl_UserID l)) \<and> (\<exists>a b s r. gl_Metadata l = grant_meta a b s r)" if "l \<in> set (upsert ?p ?f ?new (ld_github d))" for l
    using subsetD [OF set_upsert that] assms(1) unfolding links_ok_def by (fastforce simp: github_row_def)
  ultimately show ?thesis using assms(1) by (simp add: d' links_ok_def)
qed

end
