(* ===== verification/GitHub_Client.thy ===== *)
theory GitHub_Client
  imports Auth_Oidc Guest_Wire Git_Links
begin

text \<open>
  The GitHub client (\<open>controlplane/internal/github/client.go\<close>). GitHub is the context \<open>ghctx\<close>: what its
  endpoints answer, a status code with the parsed body (\<open>None\<close> when the body is not JSON, which a
  body over the read limit is not either), or the failure to build or send the request. The context
  also carries the time format RFC 3339 of the standard library and the UUID parser of the database
  driver.
\<close>

record gh_client =
  gcl_clientID :: string
  gcl_clientSecret :: string
  gcl_authorizeURL :: string
  gcl_tokenURL :: string
  gcl_apiBaseURL :: string

record ghctx =
  hx_token :: "string \<Rightarrow> string \<Rightarrow> json reply"
  hx_get :: "nat \<Rightarrow> string \<Rightarrow> string \<Rightarrow> json reply"
  hx_post :: "string \<Rightarrow> string \<Rightarrow> (string \<times> string) list \<Rightarrow> json reply"
  hx_done :: "nat \<Rightarrow> string option"
  hx_format :: "int \<Rightarrow> string"
  hx_parse :: "string \<Rightarrow> int option"
  hx_uuid :: "string \<Rightarrow> pg_uuid option"

definition orDefault :: "string \<Rightarrow> string \<Rightarrow> string" where
  "orDefault v def = (if v = [] then def else v)"

definition DefaultAuthorizeURL :: string where "DefaultAuthorizeURL = ''https://github.com/login/oauth/authorize''"
definition DefaultTokenURL :: string where "DefaultTokenURL = ''https://github.com/login/oauth/access_token''"
definition DefaultAPIBaseURL :: string where "DefaultAPIBaseURL = ''https://api.github.com''"

definition NewGitHubClient :: "gh_client \<Rightarrow> gh_client" where
  "NewGitHubClient cfg = \<lparr>gcl_clientID = gcl_clientID cfg, gcl_clientSecret = gcl_clientSecret cfg,
     gcl_authorizeURL = orDefault (gcl_authorizeURL cfg) DefaultAuthorizeURL,
     gcl_tokenURL = orDefault (gcl_tokenURL cfg) DefaultTokenURL,
     gcl_apiBaseURL = trim_slashes (orDefault (gcl_apiBaseURL cfg) DefaultAPIBaseURL)\<rparr>"

definition gh_AuthorizeURL :: "gh_client \<Rightarrow> string \<Rightarrow> string \<Rightarrow> string" where
  "gh_AuthorizeURL c state redirect = gcl_authorizeURL c @ ''?''
     @ encode_values [(''client_id'', gcl_clientID c), (''redirect_uri'', redirect), (''state'', state)]"

section \<open>Tokens\<close>

record gh_token =
  gt_AccessToken :: string
  gt_RefreshToken :: string
  gt_ExpiresIn :: int
  gt_RefreshTokenExpiresIn :: int
  gt_TokenType :: string
  gt_Scope :: string

definition dec_Token :: "(string \<times> json) list \<Rightarrow> gh_token option" where
  "dec_Token kvs =
     (case (dec_str ''access_token'' kvs, dec_str ''refresh_token'' kvs, dec_int ''expires_in'' kvs,
            dec_int ''refresh_token_expires_in'' kvs, dec_str ''token_type'' kvs, dec_str ''scope'' kvs) of
        (Some a, Some r, Some e, Some x, Some t, Some s) \<Rightarrow>
          Some \<lparr>gt_AccessToken = a, gt_RefreshToken = r, gt_ExpiresIn = e, gt_RefreshTokenExpiresIn = x, gt_TokenType = t, gt_Scope = s\<rparr>
      | _ \<Rightarrow> None)"

text \<open>The \<open>error\<close> field of the body, empty when it has none or does not decode.\<close>

definition token_error :: "json option \<Rightarrow> string" where
  "token_error body = (case body of None \<Rightarrow> [] | Some j \<Rightarrow>
     (case dec_struct (\<lambda>kvs. case (dec_str ''error'' kvs, dec_str ''error_description'' kvs) of (Some e, Some _) \<Rightarrow> Some e | _ \<Rightarrow> None) (json_val j)
      of None \<Rightarrow> [] | Some e \<Rightarrow> e))"

text \<open>
  The answer of the token endpoint, as both flows read it; \<open>rejected\<close> gives the error for a non-empty
  \<open>error\<close> field.
\<close>

definition token_answer :: "string \<Rightarrow> (string \<Rightarrow> error) \<Rightarrow> json reply \<Rightarrow> gh_token res" where
  "token_answer what rejected r = (case r of
       BadRequest e \<Rightarrow> Inl (ErrorText e)
     | NoReply e \<Rightarrow> Inl (Errorf (what @ '': '') (ErrorText e) [])
     | Reply n body \<Rightarrow>
         (if n \<noteq> 200 then Inl (status_error what n)
          else if token_error body \<noteq> [] then Inl (rejected (token_error body))
          else case (case body of None \<Rightarrow> None | Some j \<Rightarrow> dec_struct dec_Token (json_val j)) of
            None \<Rightarrow> Inl (Errorf ''decode token: '' (ErrorText ''json'') [])
          | Some t \<Rightarrow> (if gt_AccessToken t = [] then Inl (ErrorText (what @ '': empty access token'')) else Inr t)))"

definition gh_Exchange :: "ghctx \<Rightarrow> gh_client \<Rightarrow> string \<Rightarrow> string \<Rightarrow> gh_token res" where
  "gh_Exchange x c code redirect = token_answer ''token exchange'' (\<lambda>t. ErrorText (''token exchange: '' @ t))
     (hx_token x (gcl_tokenURL c) (encode_values [(''client_id'', gcl_clientID c), (''client_secret'', gcl_clientSecret c),
        (''code'', code), (''redirect_uri'', redirect)]))"

definition refresh_rejected :: "string \<Rightarrow> error" where
  "refresh_rejected t = (if t = ''bad_refresh_token'' \<or> t = ''unauthorized'' then Sentinel ErrBadRefreshToken
     else ErrorText (''token refresh: '' @ t))"

definition gh_Refresh :: "ghctx \<Rightarrow> gh_client \<Rightarrow> string \<Rightarrow> gh_token res" where
  "gh_Refresh x c refreshToken = token_answer ''token refresh'' refresh_rejected
     (hx_token x (gcl_tokenURL c) (encode_values [(''client_id'', gcl_clientID c), (''client_secret'', gcl_clientSecret c),
        (''grant_type'', ''refresh_token''), (''refresh_token'', refreshToken)]))"

section \<open>API calls\<close>

text \<open>
  \<open>getJSON\<close>: up to three attempts, repeated after a transport failure or a server error only.
  \<open>hx_done k\<close> is the error of a context that ends during the pause before attempt \<open>k\<close>; \<open>z\<close> is the
  value of the target before the call.
\<close>

definition maxRetries :: nat where "maxRetries = 3"

fun getJSON_from :: "ghctx \<Rightarrow> (jvalue \<Rightarrow> 'a option) \<Rightarrow> string \<Rightarrow> string \<Rightarrow> nat \<Rightarrow> nat \<Rightarrow> 'a res \<Rightarrow> 'a res" where
  "getJSON_from x dec token url attempt 0 last' = last'"
| "getJSON_from x dec token url attempt (Suc k) last' =
     (case (if attempt > 0 then hx_done x attempt else None) of
        Some e \<Rightarrow> Inl (ErrorText e)
      | None \<Rightarrow> (case hx_get x attempt url token of
          BadRequest e \<Rightarrow> Inl (ErrorText e)
        | NoReply e \<Rightarrow> getJSON_from x dec token url (attempt + 1) k (Inl (ErrorText e))
        | Reply n body \<Rightarrow>
            (if n \<ge> 500 then getJSON_from x dec token url (attempt + 1) k (Inl (ErrorText (''status '' @ nat_str n)))
             else if n = 401 then Inl (Sentinel ErrUnauthorized)
             else if n \<noteq> 200 then Inl (ErrorText (''status '' @ nat_str n))
             else case (case body of None \<Rightarrow> None | Some j \<Rightarrow> dec (json_val j)) of
               None \<Rightarrow> Inl (ErrorText ''json'')
             | Some v \<Rightarrow> Inr v)))"

definition getJSON :: "ghctx \<Rightarrow> gh_client \<Rightarrow> (jvalue \<Rightarrow> 'a option) \<Rightarrow> 'a \<Rightarrow> string \<Rightarrow> string \<Rightarrow> 'a res" where
  "getJSON x c dec z token path = getJSON_from x dec token (gcl_apiBaseURL c @ path) 0 maxRetries (Inr z)"

record gh_user =
  gu_ID :: int
  gu_Login :: string
  gu_Email :: string
  gu_AvatarURL :: string

definition dec_User :: "(string \<times> json) list \<Rightarrow> gh_user option" where
  "dec_User kvs = (case (dec_int ''id'' kvs, dec_str ''login'' kvs, dec_str ''email'' kvs, dec_str ''avatar_url'' kvs) of
     (Some i, Some l, Some e, Some a) \<Rightarrow> Some \<lparr>gu_ID = i, gu_Login = l, gu_Email = e, gu_AvatarURL = a\<rparr> | _ \<Rightarrow> None)"

definition gh_GetUser :: "ghctx \<Rightarrow> gh_client \<Rightarrow> string \<Rightarrow> gh_user res" where
  "gh_GetUser x c token = (case hx_get x 0 (gcl_apiBaseURL c @ ''/user'') token of
       BadRequest e \<Rightarrow> Inl (ErrorText e)
     | NoReply e \<Rightarrow> Inl (Errorf ''get user: '' (ErrorText e) [])
     | Reply n body \<Rightarrow>
         (if n \<noteq> 200 then Inl (status_error ''get user'' n)
          else case (case body of None \<Rightarrow> None | Some j \<Rightarrow> dec_struct dec_User (json_val j)) of
            None \<Rightarrow> Inl (Errorf ''decode user: '' (ErrorText ''json'') [])
          | Some u \<Rightarrow> (if gu_ID u = 0 then Inl (ErrorText ''get user: missing id'') else Inr u)))"

section \<open>Repositories\<close>

text \<open>\<open>rp_PushedAt\<close> is the instant, \<open>None\<close> the zero time, which precedes every other.\<close>

record repo =
  rp_FullName :: string
  rp_Private :: bool
  rp_DefaultBranch :: string
  rp_PushedAt :: "int option"

fun set_time :: "(string \<Rightarrow> int option) \<Rightarrow> int option \<Rightarrow> jvalue \<Rightarrow> int option option" where
  "set_time parse a JNull = Some a"
| "set_time parse a (JStr s) = map_option Some (parse s)"
| "set_time parse a _ = None"

definition dec_Repo :: "ghctx \<Rightarrow> (string \<times> json) list \<Rightarrow> repo option" where
  "dec_Repo x kvs =
     (case (dec_str ''full_name'' kvs, dec_bool ''private'' kvs, dec_str ''default_branch'' kvs,
            dec_field (set_time (hx_parse x)) None ''pushed_at'' kvs) of
        (Some f, Some p, Some d, Some t) \<Rightarrow> Some \<lparr>rp_FullName = f, rp_Private = p, rp_DefaultBranch = d, rp_PushedAt = t\<rparr>
      | _ \<Rightarrow> None)"

definition dec_installations :: "(string \<times> json) list \<Rightarrow> int list option" where
  "dec_installations kvs = dec_field (set_list (dec_struct (dec_int ''id''))) [] ''installations'' kvs"

definition dec_repos :: "ghctx \<Rightarrow> (string \<times> json) list \<Rightarrow> repo list option" where
  "dec_repos x kvs = dec_field (set_list (dec_struct (dec_Repo x))) [] ''repositories'' kvs"

definition repoPageSize :: nat where "repoPageSize = 100"

definition repos_path :: "int \<Rightarrow> nat \<Rightarrow> string" where
  "repos_path inst page = ''/user/installations/'' @ itoa inst @ ''/repositories?per_page='' @ nat_str repoPageSize @ ''&page='' @ nat_str page"

definition repos_page :: "ghctx \<Rightarrow> gh_client \<Rightarrow> string \<Rightarrow> int \<Rightarrow> nat \<Rightarrow> repo list res" where
  "repos_page x c token inst page = (case getJSON x c (dec_struct (dec_repos x)) [] token (repos_path inst page) of
       Inl e \<Rightarrow> Inl (Errorf (''list installation '' @ itoa inst @ '' repos: '') e [])
     | Inr rs \<Rightarrow> Inr rs)"

text \<open>The repositories of a page that have not been seen yet are appended.\<close>

definition add_repo :: "repo list \<Rightarrow> repo \<Rightarrow> repo list" where
  "add_repo out r = (if rp_FullName r \<in> rp_FullName ` set out then out else out @ [r])"

text \<open>The paging loop of one installation: \<open>None\<close> when it never ends.\<close>

partial_function (option) repo_pages :: "ghctx \<Rightarrow> gh_client \<Rightarrow> string \<Rightarrow> int \<Rightarrow> nat \<Rightarrow> repo list \<Rightarrow> repo list res option" where
  "repo_pages x c token inst page out =
     (case repos_page x c token inst page of
        Inl e \<Rightarrow> Some (Inl e)
      | Inr rs \<Rightarrow> (if length rs < repoPageSize then Some (Inr (foldl add_repo out rs))
                   else repo_pages x c token inst (page + 1) (foldl add_repo out rs)))"

fun all_installations :: "ghctx \<Rightarrow> gh_client \<Rightarrow> string \<Rightarrow> int list \<Rightarrow> repo list \<Rightarrow> repo list res option" where
  "all_installations x c token [] out = Some (Inr out)"
| "all_installations x c token (i # is) out =
     (case repo_pages x c token i 1 out of
        None \<Rightarrow> None
      | Some (Inl e) \<Rightarrow> Some (Inl e)
      | Some (Inr out') \<Rightarrow> all_installations x c token is out')"

text \<open>Newest first. The order of repositories pushed at the same instant is open in the code.\<close>

definition push_key :: "repo \<Rightarrow> int \<times> int" where
  "push_key r = (case rp_PushedAt r of None \<Rightarrow> (1, 0) | Some t \<Rightarrow> (0, - t))"

definition ListUserRepos :: "ghctx \<Rightarrow> gh_client \<Rightarrow> string \<Rightarrow> repo list res option" where
  "ListUserRepos x c token =
     (case getJSON x c (dec_struct dec_installations) [] token (''/user/installations?per_page='' @ nat_str repoPageSize) of
        Inl e \<Rightarrow> Some (Inl (Errorf ''list installations: '' e []))
      | Inr insts \<Rightarrow> (case all_installations x c token insts [] of
          None \<Rightarrow> None
        | Some (Inl e) \<Rightarrow> Some (Inl e)
        | Some (Inr out) \<Rightarrow> Some (Inr (sort_key push_key out))))"

text \<open>\<open>url.PathEscape\<close>.\<close>

definition PathEscape :: "string \<Rightarrow> string" where
  "PathEscape s = concat (map (\<lambda>c. if unreserved c \<or> c \<in> set [CHR ''$'', CHR ''&'', CHR ''+'', CHR ''='', CHR '':'', CHR ''@''] then [c]
     else [CHR 0x25, upper_hex (of_char c div 16), upper_hex (of_char c mod 16)]) s)"

definition zero_repo :: repo where
  "zero_repo = \<lparr>rp_FullName = [], rp_Private = False, rp_DefaultBranch = [], rp_PushedAt = None\<rparr>"

definition GetRepo :: "ghctx \<Rightarrow> gh_client \<Rightarrow> string \<Rightarrow> string \<Rightarrow> string \<Rightarrow> repo res" where
  "GetRepo x c token owner name =
     (case getJSON x c (dec_struct (dec_Repo x)) zero_repo token (''/repos/'' @ PathEscape owner @ ''/'' @ PathEscape name) of
        Inl e \<Rightarrow> Inl (Errorf ''get repo: '' e [])
      | Inr r \<Rightarrow> Inr r)"

section \<open>Pull requests\<close>

definition dec_PullRequest :: "(string \<times> json) list \<Rightarrow> (int \<times> string) option" where
  "dec_PullRequest kvs = (case (dec_int ''number'' kvs, dec_str ''html_url'' kvs) of (Some n, Some u) \<Rightarrow> Some (n, u) | _ \<Rightarrow> None)"

text \<open>
  The messages of a refusal, decoded best effort: a field of the wrong kind is skipped. \<open>strings.ToLower\<close>
  is bytewise, which suffices for the ASCII phrases looked for.
\<close>

definition ToLower :: "string \<Rightarrow> string" where
  "ToLower s = map lower_byte s"

definition message_of :: "jvalue \<Rightarrow> string" where
  "message_of v = foldl (\<lambda>a y. case y of JStr s \<Rightarrow> s | _ \<Rightarrow> a) [] (field_vals ''message'' (meta_members v))"

definition refusal_text :: "jvalue \<Rightarrow> string" where
  "refusal_text v = ToLower (message_of v)
     @ concat (map (\<lambda>j. '' '' @ ToLower (message_of (json_val j)))
         (foldl (\<lambda>a y. case y of JArr js \<Rightarrow> js | JNull \<Rightarrow> [] | _ \<Rightarrow> a) [] (field_vals ''errors'' (meta_members v))))"

definition gh_CreatePR :: "ghctx \<Rightarrow> gh_client \<Rightarrow> string \<Rightarrow> string \<Rightarrow> string \<Rightarrow> string \<Rightarrow> string \<Rightarrow> string \<Rightarrow> string \<Rightarrow> (int \<times> string) res" where
  "gh_CreatePR x c token owner name head' base title body' =
     (case hx_post x (gcl_apiBaseURL c @ ''/repos/'' @ PathEscape owner @ ''/'' @ PathEscape name @ ''/pulls'') token
             [(''title'', title), (''head'', head'), (''base'', base), (''body'', body')] of
        BadRequest e \<Rightarrow> Inl (ErrorText e)
      | NoReply e \<Rightarrow> Inl (Errorf ''create pr: '' (ErrorText e) [])
      | Reply n body \<Rightarrow>
          (if n = 201 then
             (case (case body of None \<Rightarrow> None | Some j \<Rightarrow> dec_struct dec_PullRequest (json_val j)) of
                None \<Rightarrow> Inl (Errorf ''decode pr: '' (ErrorText ''json'') [])
              | Some (k, u) \<Rightarrow> (if u = [] then Inl (ErrorText ''create pr: empty url'') else Inr (k, u)))
           else if n = 401 then Inl (Sentinel ErrUnauthorized)
           else if n = 422 then
             (let v = (case body of None \<Rightarrow> JNull | Some j \<Rightarrow> json_val j); joined = refusal_text v
              in if contains joined ''no commits between'' then Inl (Sentinel ErrNoPRCommits)
                 else if contains joined ''already exist'' then Inl (Sentinel ErrPRAlreadyExists)
                 else Inl (ErrorText (''create pr: '' @ message_of v)))
           else Inl (status_error ''create pr'' n)))"

section \<open>Facts\<close>

lemma gh_Refresh_token: "gh_Refresh x c r = Inr t \<Longrightarrow> gt_AccessToken t \<noteq> []"
  by (auto simp: gh_Refresh_def token_answer_def split: reply.splits option.splits if_splits)

lemma gh_Exchange_token: "gh_Exchange x c code u = Inr t \<Longrightarrow> gt_AccessToken t \<noteq> []"
  by (auto simp: gh_Exchange_def token_answer_def split: reply.splits option.splits if_splits)

text \<open>Only the two error codes that mean a dead grant are read as one.\<close>

lemma bad_refresh_iff:
  "(\<exists>e. gh_Refresh x c r = Inl e \<and> errors_Is e ErrBadRefreshToken) \<longleftrightarrow>
     (\<exists>body. hx_token x (gcl_tokenURL c) (encode_values [(''client_id'', gcl_clientID c), (''client_secret'', gcl_clientSecret c),
        (''grant_type'', ''refresh_token''), (''refresh_token'', r)]) = Reply 200 body
      \<and> token_error body \<in> {''bad_refresh_token'', ''unauthorized''})"
  by (auto simp: gh_Refresh_def token_answer_def refresh_rejected_def status_error_def
      split: reply.splits option.splits if_splits)

text \<open>The retries: an answer below 500 ends the loop, and at most three requests are made.\<close>

lemma getJSON_prefix:
  assumes "\<And>i. i < k \<Longrightarrow> (\<exists>e. hx_get x (a + i) url token = NoReply e) \<or> (\<exists>n b. hx_get x (a + i) url token = Reply n b \<and> n \<ge> 500)"
    and "\<And>i. hx_done x i = None" and "hx_get x (a + k) url token = Reply n body" and "n < 500"
  shows "getJSON_from x dec token url a (Suc (k + m)) l =
    (if n = 401 then Inl (Sentinel ErrUnauthorized) else if n \<noteq> 200 then Inl (ErrorText (''status '' @ nat_str n))
     else case (case body of None \<Rightarrow> None | Some j \<Rightarrow> dec (json_val j)) of None \<Rightarrow> Inl (ErrorText ''json'') | Some v \<Rightarrow> Inr v)"
  using assms
proof (induction k arbitrary: a l)
  case 0
  then show ?case by (cases a) auto
next
  case (Suc k)
  have "getJSON_from x dec token url (Suc a) (Suc (k + m)) l' =
    (if n = 401 then Inl (Sentinel ErrUnauthorized) else if n \<noteq> 200 then Inl (ErrorText (''status '' @ nat_str n))
     else case (case body of None \<Rightarrow> None | Some j \<Rightarrow> dec (json_val j)) of None \<Rightarrow> Inl (ErrorText ''json'') | Some v \<Rightarrow> Inr v)" for l'
    using Suc.prems(1) [of "Suc i" for i] Suc.prems(2,3,4) by (intro Suc.IH) auto
  with Suc.prems(1) [of 0] Suc.prems(2) show ?case by (cases a) auto
qed

text \<open>Paging ends as soon as some page is short or fails.\<close>

lemma repo_pages_ends:
  assumes "(case repos_page x c token inst (page + k) of Inl _ \<Rightarrow> True | Inr rs \<Rightarrow> length rs < repoPageSize)"
  shows "\<exists>r. repo_pages x c token inst page out = Some r"
  using assms
proof (induction k arbitrary: page out)
  case 0
  then show ?case by (subst repo_pages.simps) (auto split: sum.splits)
next
  case (Suc k)
  then have "\<exists>r. repo_pages x c token inst (page + 1) out' = Some r" for out' by simp
  then show ?case by (subst repo_pages.simps) (auto split: sum.splits)
qed

lemma add_repo_distinct: "distinct (map rp_FullName out) \<Longrightarrow> distinct (map rp_FullName (foldl add_repo out rs))"
  by (induction rs arbitrary: out) (auto simp: add_repo_def)

lemma add_repo_names: "rp_FullName ` set (foldl add_repo out rs) = rp_FullName ` set out \<union> rp_FullName ` set rs"
  by (induction rs arbitrary: out) (auto simp: add_repo_def)

lemma add_repo_mem: "set (foldl add_repo out rs) \<subseteq> set out \<union> set rs"
proof (induction rs arbitrary: out)
  case (Cons r rs)
  from Cons [of "add_repo out r"] show ?case by (auto simp: add_repo_def split: if_splits)
qed simp

end
