(* ===== verification/GitHub_Tokens.thy ===== *)
theory GitHub_Tokens
  imports GitHub_Client
begin

text \<open>
  The sources of git credentials: \<open>github/tokensource.go\<close> keeps a user's GitHub tokens valid and
  \<open>githost/patsource.go\<close> reads the personal access tokens for other hosts. The per-user lock makes an
  operation atomic with respect to the operations of the same user. The context of an operation holds
  its own clock and statement failures (\<open>kx_stmt\<close>), those of the statements that record a revoked
  grant (\<open>kx_mark\<close>) and GitHub (\<open>kx_gh\<close>).
\<close>

record tokenctx =
  kx_stmt :: authctx
  kx_mark :: authctx
  kx_gh :: ghctx

record 'st token_source =
  tk_client :: gh_client
  tk_db :: link_db
  tk_store :: 'st

record gh_cred =
  cr_AccessToken :: string
  cr_Expiry :: "int option"

definition refreshSkew :: int where "refreshSkew = 600000000000"

definition fld :: "fields \<Rightarrow> string \<Rightarrow> string" where
  "fld data k = (case data k of None \<Rightarrow> [] | Some v \<Rightarrow> v)"

definition fieldAccessToken :: string where "fieldAccessToken = ''access_token''"
definition fieldRefreshToken :: string where "fieldRefreshToken = ''refresh_token''"
definition fieldTokenType :: string where "fieldTokenType = ''token_type''"
definition fieldScope :: string where "fieldScope = ''scope''"
definition fieldAccessExpiresAt :: string where "fieldAccessExpiresAt = ''access_token_expires_at''"
definition fieldRefreshExpiresAt :: string where "fieldRefreshExpiresAt = ''refresh_token_expires_at''"

lemmas field_names = fieldAccessToken_def fieldRefreshToken_def fieldTokenType_def fieldScope_def
  fieldAccessExpiresAt_def fieldRefreshExpiresAt_def

section \<open>The GitHub token source\<close>

text \<open>The lifetimes are 64-bit products of seconds and the length of a second.\<close>

definition expiry_after :: "int \<Rightarrow> int \<Rightarrow> int" where
  "expiry_after t0 secs = t0 + int64 (secs * 1000000000)"

definition token_fields :: "ghctx \<Rightarrow> int \<Rightarrow> gh_token \<Rightarrow> fields" where
  "token_fields x t0 t = [fieldAccessToken \<mapsto> gt_AccessToken t, fieldRefreshToken \<mapsto> gt_RefreshToken t,
     fieldTokenType \<mapsto> gt_TokenType t, fieldScope \<mapsto> gt_Scope t,
     fieldAccessExpiresAt \<mapsto> hx_format x (expiry_after t0 (gt_ExpiresIn t)),
     fieldRefreshExpiresAt \<mapsto> hx_format x (expiry_after t0 (gt_RefreshTokenExpiresIn t))]"

definition parseTime :: "ghctx \<Rightarrow> string \<Rightarrow> int option" where
  "parseTime x s = (if s = [] then None else hx_parse x s)"

definition markRevoked :: "tokenctx \<Rightarrow> link_db \<Rightarrow> pg_uuid \<Rightarrow> jvalue \<Rightarrow> link_db \<times> unit res" where
  "markRevoked k d uid current = (case revoked_meta current of
       None \<Rightarrow> (d, Inl nil_map_panic)
     | Some meta \<Rightarrow> (case GetGitHubLink (kx_mark k) d uid of
         Inl e \<Rightarrow> (d, Inl e)
       | Inr link \<Rightarrow> (case UpsertGitHubLink (kx_mark k) d uid meta (gl_SecretRef link) of
           Inl e \<Rightarrow> (d, Inl e)
         | Inr (d', _) \<Rightarrow> (d', Inr ()))))"

definition persist_pair :: "'st store_ops \<Rightarrow> tokenctx \<Rightarrow> 'st token_source \<Rightarrow> pg_uuid \<Rightarrow> string \<Rightarrow> gh_token
    \<Rightarrow> 'st token_source \<times> gh_cred res" where
  "persist_pair S k ts uid ref t =
     (let t0 = ac_time (kx_stmt k) in
      case Put S (tk_store ts) ref (token_fields (kx_gh k) t0 t) of
        (st, Inl e) \<Rightarrow> (ts\<lparr>tk_store := st\<rparr>, Inl (Errorf ''persist rotated tokens: '' e []))
      | (st, Inr _) \<Rightarrow>
          (case UpsertGitHubLink (kx_stmt k) (tk_db ts) uid
                  (grant_meta (gt_ExpiresIn t) (gt_RefreshTokenExpiresIn t) (gt_Scope t) False) ref of
             Inl e \<Rightarrow> (ts\<lparr>tk_store := st\<rparr>, Inl (Errorf ''update github link metadata: '' e []))
           | Inr (d', _) \<Rightarrow> (ts\<lparr>tk_store := st, tk_db := d'\<rparr>,
               Inr \<lparr>cr_AccessToken = gt_AccessToken t, cr_Expiry = Some (expiry_after t0 (gt_ExpiresIn t))\<rparr>)))"

definition refreshLocked :: "'st store_ops \<Rightarrow> tokenctx \<Rightarrow> 'st token_source \<Rightarrow> pg_uuid \<Rightarrow> string \<Rightarrow> jvalue \<Rightarrow> fields
    \<Rightarrow> 'st token_source \<times> gh_cred res" where
  "refreshLocked S k ts uid ref meta data =
     (if fld data fieldRefreshToken = [] then (ts, Inl (Sentinel ErrReconnectGitHub))
      else case gh_Refresh (kx_gh k) (tk_client ts) (fld data fieldRefreshToken) of
        Inl e \<Rightarrow>
          (if errors_Is e ErrBadRefreshToken then
             (case markRevoked k (tk_db ts) uid meta of
                (d', Inl e') \<Rightarrow> (ts\<lparr>tk_db := d'\<rparr>, Inl (Errorf ''mark revoked: '' e' []))
              | (d', Inr _) \<Rightarrow> (ts\<lparr>tk_db := d'\<rparr>, Inl (Sentinel ErrReconnectGitHub)))
           else (ts, Inl (Errorf ''refresh token: '' e [])))
      | Inr t \<Rightarrow> persist_pair S k ts uid ref t)"

definition load_link :: "tokenctx \<Rightarrow> 'st token_source \<Rightarrow> pg_uuid \<Rightarrow> github_link res" where
  "load_link k ts uid = (case GetGitHubLink (kx_stmt k) (tk_db ts) uid of
       Inl e \<Rightarrow> Inl (if errors_Is e ErrNoRows then Sentinel ErrReconnectGitHub else Errorf ''load github link: '' e [])
     | Inr l \<Rightarrow> Inr l)"

definition read_tokens :: "'st store_ops \<Rightarrow> 'st token_source \<Rightarrow> string \<Rightarrow> fields res" where
  "read_tokens S ts ref = (case Get S (tk_store ts) ref of
       Inl e \<Rightarrow> Inl (if errors_Is e ErrSecretNotFound then Sentinel ErrReconnectGitHub else Errorf ''read github tokens: '' e [])
     | Inr data \<Rightarrow> Inr data)"

definition bad_user_id :: error where
  "bad_user_id = Errorf ''bad user id: '' (ErrorText ''uuid'') []"

text \<open>The stored access token, when it is good for more than \<open>refreshSkew\<close>.\<close>

definition fresh_cred :: "tokenctx \<Rightarrow> fields \<Rightarrow> gh_cred option" where
  "fresh_cred k data = (case parseTime (kx_gh k) (fld data fieldAccessExpiresAt) of
       Some t \<Rightarrow> (if fld data fieldAccessToken \<noteq> [] \<and> t - ac_time (kx_stmt k) > refreshSkew
         then Some \<lparr>cr_AccessToken = fld data fieldAccessToken, cr_Expiry = Some t\<rparr> else None)
     | None \<Rightarrow> None)"

definition Token :: "'st store_ops \<Rightarrow> tokenctx \<Rightarrow> 'st token_source \<Rightarrow> string \<Rightarrow> 'st token_source \<times> gh_cred res" where
  "Token S k ts userID = (case hx_uuid (kx_gh k) userID of
       None \<Rightarrow> (ts, Inl bad_user_id)
     | Some uid \<Rightarrow> (case load_link k ts uid of
         Inl e \<Rightarrow> (ts, Inl e)
       | Inr link \<Rightarrow>
           (if metadataRevoked (gl_Metadata link) then (ts, Inl (Sentinel ErrReconnectGitHub))
            else case read_tokens S ts (gl_SecretRef link) of
              Inl e \<Rightarrow> (ts, Inl e)
            | Inr data \<Rightarrow> (case fresh_cred k data of
                Some cred \<Rightarrow> (ts, Inr cred)
              | None \<Rightarrow> refreshLocked S k ts uid (gl_SecretRef link) (gl_Metadata link) data))))"

definition ForceRefresh :: "'st store_ops \<Rightarrow> tokenctx \<Rightarrow> 'st token_source \<Rightarrow> string \<Rightarrow> 'st token_source \<times> gh_cred res" where
  "ForceRefresh S k ts userID = (case hx_uuid (kx_gh k) userID of
       None \<Rightarrow> (ts, Inl bad_user_id)
     | Some uid \<Rightarrow> (case load_link k ts uid of
         Inl e \<Rightarrow> (ts, Inl e)
       | Inr link \<Rightarrow> (case read_tokens S ts (gl_SecretRef link) of
           Inl e \<Rightarrow> (ts, Inl e)
         | Inr data \<Rightarrow> refreshLocked S k ts uid (gl_SecretRef link) (gl_Metadata link) data)))"

text \<open>
  \<open>callGitHub\<close> (\<open>httpapi/git.go\<close>): one retry with a new token after GitHub has rejected the stored
  one. The closure \<open>fn\<close> is called with GitHub as it answers then, the variables \<open>c\<close> it captures and
  the token; it returns the variables with its result.
\<close>

definition callGitHub :: "'st store_ops \<Rightarrow> tokenctx \<Rightarrow> tokenctx \<Rightarrow> 'st token_source \<Rightarrow> string \<Rightarrow> (ghctx \<Rightarrow> 'c \<Rightarrow> string \<Rightarrow> 'c \<times> 'a res)
    \<Rightarrow> 'c \<Rightarrow> 'st token_source \<times> 'c \<times> 'a res" where
  "callGitHub S k k' ts uid fn c = (case Token S k ts uid of
       (ts1, Inl e) \<Rightarrow> (ts1, c, Inl e)
     | (ts1, Inr cred) \<Rightarrow> (case fn (kx_gh k) c (cr_AccessToken cred) of
         (c1, Inr v) \<Rightarrow> (ts1, c1, Inr v)
       | (c1, Inl e) \<Rightarrow>
           (if \<not> errors_Is e ErrUnauthorized then (ts1, c1, Inl e)
            else case ForceRefresh S k' ts1 uid of
              (ts2, Inl e') \<Rightarrow> (ts2, c1, Inl e')
            | (ts2, Inr cred') \<Rightarrow> (case fn (kx_gh k') c1 (cr_AccessToken cred') of
                (c2, Inr v) \<Rightarrow> (ts2, c2, Inr v)
              | (c2, Inl e') \<Rightarrow> (ts2, c2, Inl (if errors_Is e' ErrUnauthorized then Sentinel ErrReconnectGitHub else e'))))))"

section \<open>Tokens for other hosts\<close>

definition GitHostFieldToken :: string where "GitHostFieldToken = ''token''"
definition GitHostFieldLogin :: string where "GitHostFieldLogin = ''login''"

definition HostCredential :: "'st store_ops \<Rightarrow> tokenctx \<Rightarrow> 'st token_source \<Rightarrow> string \<Rightarrow> string \<Rightarrow> (string \<times> string) res" where
  "HostCredential S k ts userID hst = (case hx_uuid (kx_gh k) userID of
       None \<Rightarrow> Inl bad_user_id
     | Some uid \<Rightarrow> (case GetGitHostLink (kx_stmt k) (tk_db ts) uid (ToLower hst) of
         Inl e \<Rightarrow> Inl (if errors_Is e ErrNoRows then Sentinel ErrNoLink else Errorf ''load git host link: '' e [])
       | Inr link \<Rightarrow> (case Get S (tk_store ts) (gh_SecretRef link) of
           Inl e \<Rightarrow> Inl (if errors_Is e ErrSecretNotFound then Sentinel ErrNoLink else Errorf ''read git host secret: '' e [])
         | Inr data \<Rightarrow> (if fld data GitHostFieldToken = [] \<or> fld data GitHostFieldLogin = [] then Inl (Sentinel ErrNoLink)
             else Inr (fld data GitHostFieldLogin, fld data GitHostFieldToken)))))"

section \<open>Facts\<close>

lemma fld_token_fields [simp]:
  "fld (token_fields x t0 t) fieldAccessToken = gt_AccessToken t"
  "fld (token_fields x t0 t) fieldRefreshToken = gt_RefreshToken t"
  "fld (token_fields x t0 t) fieldAccessExpiresAt = hx_format x (expiry_after t0 (gt_ExpiresIn t))"
  by (simp_all add: token_fields_def fld_def field_names)

lemma load_link_row: "load_link k ts uid = Inr l \<Longrightarrow> find (\<lambda>l. gl_UserID l = uid) (ld_github (tk_db ts)) = Some l \<and> gl_UserID l = uid \<and> l \<in> set (ld_github (tk_db ts))"
  using GetGitHubLink_row by (auto simp: load_link_def split: sum.splits)

text \<open>Marking a grant writes the same row with the flag set, or nothing.\<close>

lemma markRevoked_cases:
  assumes "markRevoked k d uid (grant_meta a b s r) = (d', res)"
  shows "(\<exists>e. res = Inl e) \<and> d' = d
    \<or> res = Inr () \<and> (\<exists>l l'. find (\<lambda>l. gl_UserID l = uid) (ld_github d) = Some l
        \<and> UpsertGitHubLink (kx_mark k) d uid (grant_meta a b s True) (gl_SecretRef l) = Inr (d', l'))"
  using assms GetGitHubLink_row by (fastforce simp: markRevoked_def split: sum.splits)

text \<open>
  A rotated pair that cannot be stored is lost: the operation fails, and the store keeps the refresh
  token that GitHub has just consumed.
\<close>

lemma rotation_lost:
  assumes "gh_Refresh (kx_gh k) (tk_client ts) (fld data fieldRefreshToken) = Inr t" "fld data fieldRefreshToken \<noteq> []"
    and "Put S (tk_store ts) ref (token_fields (kx_gh k) (ac_time (kx_stmt k)) t) = (tk_store ts, Inl e)"
  shows "refreshLocked S k ts uid ref meta data = (ts, Inl (Errorf ''persist rotated tokens: '' e []))"
  using assms by (simp add: refreshLocked_def persist_pair_def Let_def)

end
