(* ===== verification/Gitea_Client.thy ===== *)
theory Gitea_Client
  imports GitHub_Client
begin

text \<open>
  The client of a Gitea or Forgejo host (\<open>controlplane/internal/gitea/client.go\<close>). The host is the
  context \<open>giteactx\<close>: what it answers to a method, a URL, a token (empty for none) and a payload.
\<close>

record giteactx =
  ge_call :: "string \<Rightarrow> string \<Rightarrow> string \<Rightarrow> (string \<times> string) list option \<Rightarrow> json reply"

definition gitea_New :: "string \<Rightarrow> string" where
  "gitea_New apiBaseURL = trim_slashes apiBaseURL"

definition APIBaseForHost :: "string \<Rightarrow> string" where
  "APIBaseForHost hst = ''https://'' @ hst @ ''/api/v1''"

definition gitea_refused :: "string \<Rightarrow> string \<Rightarrow> nat \<Rightarrow> string \<Rightarrow> error" where
  "gitea_refused method path n message =
     (if n = 401 \<or> n = 403 then Sentinel GiteaErrBadToken
      else if n = 404 then Sentinel GiteaErrNotFound
      else if n = 409 \<or> n = 422 then
        Sentinel (if contains (ToLower message) ''exist'' then GiteaErrPRAlreadyExists else GiteaErrNoPRCommits)
      else ErrorText (''gitea: '' @ method @ '' '' @ path @ '': http '' @ nat_str n @ '': '' @ message))"

definition gitea_do :: "giteactx \<Rightarrow> string \<Rightarrow> string \<Rightarrow> string \<Rightarrow> string \<Rightarrow> (string \<times> string) list option
    \<Rightarrow> (jvalue \<Rightarrow> 'a option) \<Rightarrow> 'a res" where
  "gitea_do g base token method path payload dec =
     (case ge_call g method (base @ path) token payload of
        BadRequest e \<Rightarrow> Inl (ErrorText e)
      | NoReply e \<Rightarrow> Inl (Errorf (''gitea: '' @ method @ '' '' @ path @ '': '') (ErrorText e) [])
      | Reply n body \<Rightarrow>
          (if 200 \<le> n \<and> n < 300 then
             (case (case body of None \<Rightarrow> None | Some j \<Rightarrow> dec (json_val j)) of None \<Rightarrow> Inl (ErrorText ''json'') | Some v \<Rightarrow> Inr v)
           else Inl (gitea_refused method path n (case body of None \<Rightarrow> [] | Some j \<Rightarrow> message_of (json_val j)))))"

definition gitea_GetUser :: "giteactx \<Rightarrow> string \<Rightarrow> string \<Rightarrow> string res" where
  "gitea_GetUser g base token = (case gitea_do g base token ''GET'' ''/user'' None (dec_struct (dec_str ''login'')) of
       Inl e \<Rightarrow> Inl e
     | Inr login \<Rightarrow> (if login = [] then Inl (ErrorText ''gitea: user response missing login'') else Inr login))"

definition dec_GiteaRepo :: "(string \<times> json) list \<Rightarrow> (string \<times> bool \<times> string) option" where
  "dec_GiteaRepo kvs = (case (dec_str ''full_name'' kvs, dec_bool ''private'' kvs, dec_str ''default_branch'' kvs) of
     (Some f, Some p, Some d) \<Rightarrow> Some (f, p, d) | _ \<Rightarrow> None)"

definition gitea_GetRepo :: "giteactx \<Rightarrow> string \<Rightarrow> string \<Rightarrow> string \<Rightarrow> string \<Rightarrow> (string \<times> bool \<times> string) res" where
  "gitea_GetRepo g base token owner name =
     gitea_do g base token ''GET'' (''/repos/'' @ owner @ ''/'' @ name) None (dec_struct dec_GiteaRepo)"

definition gitea_CreatePR :: "giteactx \<Rightarrow> string \<Rightarrow> string \<Rightarrow> string \<Rightarrow> string \<Rightarrow> string \<Rightarrow> string \<Rightarrow> string \<Rightarrow> string \<Rightarrow> (int \<times> string) res" where
  "gitea_CreatePR g base token owner name head' base' title body =
     gitea_do g base token ''POST'' (''/repos/'' @ owner @ ''/'' @ name @ ''/pulls'')
       (Some [(''head'', head'), (''base'', base'), (''title'', title), (''body'', body)]) (dec_struct dec_PullRequest)"

lemma gitea_GetUser_login: "gitea_GetUser g base token = Inr login \<Longrightarrow> login \<noteq> []"
  by (auto simp: gitea_GetUser_def split: sum.splits if_splits)

text \<open>A token is only called bad when the host said so.\<close>

lemma gitea_bad_token:
  "(\<exists>e. gitea_GetUser g base token = Inl e \<and> errors_Is e GiteaErrBadToken) \<longleftrightarrow>
     (\<exists>n body. ge_call g ''GET'' (base @ ''/user'') token None = Reply n body \<and> n \<in> {401, 403})"
  by (auto simp: gitea_GetUser_def gitea_do_def gitea_refused_def split: reply.splits option.splits sum.splits if_splits)

end
