(* ===== verification/Auth_System.thy ===== *)
theory Auth_System
  imports Auth_Session
begin

text \<open>
  The identity tables over time: the schema's constraints hold after every statement, users are
  never removed and their identities never rewritten, a revoked credential stays revoked, and an
  expiry moves only when its session is used.
\<close>

definition same_user :: "user_row \<Rightarrow> user_row \<Rightarrow> bool" where
  "same_user u u' = (us_ID u' = us_ID u \<and> (identity_of u \<noteq> None \<longrightarrow> identity_of u' = identity_of u))"

lemma same_user_refl [simp]: "same_user u u"
  by (simp add: same_user_def)

lemma step_users:
  assumes "auth_step d l d'"
  shows "rows_evolve same_user (\<lambda>u. us_ID u \<notin> us_ID ` set (au_users d)) (au_users d) (au_users d')"
  using assms
  by cases (auto simp: stmt_defs same_user_def identity_of_def find_user_None new_user_def
      intro!: rows_evolve_refl rows_evolve_add rows_evolve_update dest!: run_stmt_InrD split: if_splits option.splits)

lemma user_ids_grow:
  assumes "auth_step d l d'"
  shows "us_ID ` set (au_users d) \<subseteq> us_ID ` set (au_users d')"
proof
  fix i assume "i \<in> us_ID ` set (au_users d)"
  then obtain u where u: "u \<in> set (au_users d)" "us_ID u = i" by auto
  from rows_evolve_row [OF step_users [OF assms] u(1)] obtain u' where "u' \<in> set (au_users d')" "us_ID u' = i"
    using u(2) by (auto simp: same_user_def)
  then show "i \<in> us_ID ` set (au_users d')" by auto
qed

lemma step_identities:
  assumes "auth_step d l d'" "auth_ok d"
  shows "uniq_by identity_of (au_users d')" "uniq_by us_GithubUserID (au_users d')"
    "\<forall>u \<in> set (au_users d'). us_OidcSubject u = None \<longleftrightarrow> us_OidcIssuer u = None"
proof -
  have ok: "uniq_by identity_of (au_users d)" "uniq_by us_GithubUserID (au_users d)"
    "\<forall>u \<in> set (au_users d). us_OidcSubject u = None \<longleftrightarrow> us_OidcIssuer u = None" using assms(2) by (simp_all add: auth_ok_def)
  have "uniq_by identity_of (au_users d') \<and> uniq_by us_GithubUserID (au_users d')
    \<and> (\<forall>u \<in> set (au_users d'). us_OidcSubject u = None \<longleftrightarrow> us_OidcIssuer u = None)"
    using assms(1)
  proof cases
    case (st_new_user c iss sub l e a adm v)
    then obtain u where u: "d' = d\<lparr>au_users := au_users d @ [u]\<rparr>" "us_OidcIssuer u = Some iss" "us_OidcSubject u = Some sub"
      "us_GithubUserID u = None" "\<forall>v \<in> set (au_users d). identity_of v \<noteq> Some (iss, sub)"
      by (auto simp: stmt_defs identity_of_same new_user_def list_ex_iff dest!: run_stmt_InrD split: if_splits)
    then show ?thesis using ok by (auto simp: identity_of_Some intro!: uniq_add)
  next
    case (st_link c i iss sub adm v)
    let ?f = "\<lambda>u. u\<lparr>us_OidcIssuer := Some iss, us_OidcSubject := Some sub, us_IsAdmin := adm\<rparr>"
    let ?p = "\<lambda>u. us_ID u = i \<and> us_OidcSubject u = None"
    from st_link have d': "au_users d' = tbl_update ?p ?f (au_users d)"
      and free: "\<forall>u \<in> set (au_users d). identity_of u \<noteq> Some (iss, sub)"
      by (auto simp: stmt_defs identity_of_same list_ex_iff dest!: run_stmt_InrD find_InD split: if_splits option.splits)
    have "uniq_by identity_of (tbl_update ?p ?f (au_users d))"
      by (rule uniq_set [OF ok(1), where i = i and kv = "Some (iss, sub)"]) (use free in \<open>simp_all add: identity_of_Some\<close>)
    moreover have "uniq_by us_GithubUserID (tbl_update ?p ?f (au_users d))" by (rule uniq_same [OF ok(2)]) simp
    ultimately show ?thesis using ok(3) unfolding d' by (auto simp: set_tbl_update)
  next
    case (st_github c i g v)
    let ?f = "\<lambda>u. u\<lparr>us_GithubUserID := g\<rparr>" and ?p = "\<lambda>u. us_ID u = i"
    from st_github have d': "au_users d' = tbl_update ?p ?f (au_users d)"
      and free: "g = None \<or> (\<forall>u \<in> set (au_users d). us_GithubUserID u = g \<longrightarrow> us_ID u = i)"
      by (auto simp: stmt_defs list_ex_iff find_user_def dest!: run_stmt_InrD split: if_splits option.splits)
    have "uniq_by us_GithubUserID (tbl_update ?p ?f (au_users d))"
      by (rule uniq_set [OF ok(2), where i = i and kv = g]) (use free in simp_all)
    moreover have "uniq_by identity_of (tbl_update ?p ?f (au_users d))" by (rule uniq_same [OF ok(1)]) simp
    ultimately show ?thesis using ok(3) unfolding d' by (auto simp: set_tbl_update)
  qed (use ok in \<open>auto simp: stmt_defs set_tbl_update intro!: uniq_same dest!: run_stmt_InrD split: if_splits option.splits\<close>)
  then show "uniq_by identity_of (au_users d')" "uniq_by us_GithubUserID (au_users d')"
    "\<forall>u \<in> set (au_users d'). us_OidcSubject u = None \<longleftrightarrow> us_OidcIssuer u = None" by simp_all
qed

lemma step_auth_ok:
  assumes "auth_step d l d'" "auth_ok d"
  shows "auth_ok d'"
proof -
  note ids = user_ids_grow [OF assms(1)]
  have ok: "distinct (map us_ID (au_users d))" "distinct (map ss_TokenHash (au_sessions d))" "distinct (map ss_ID (au_sessions d))"
    "distinct (map pt_TokenHash (au_pats d))" "distinct (map pt_ID (au_pats d))"
    "\<forall>s \<in> set (au_sessions d). ss_UserID s \<in> us_ID ` set (au_users d')" "\<forall>p \<in> set (au_pats d). pt_UserID p \<in> us_ID ` set (au_users d')"
    using assms(2) ids by (auto simp: auth_ok_def)
  have "\<forall>s \<in> set (au_sessions d'). ss_UserID s \<in> us_ID ` set (au_users d')"
    by (rule rows_evolve_all [OF step_sessions [OF assms(1)] ok(6)]) (use ids in \<open>auto simp: same_session_def fresh_session_def\<close>)
  moreover have "\<forall>p \<in> set (au_pats d'). pt_UserID p \<in> us_ID ` set (au_users d')"
    by (rule rows_evolve_all [OF step_pats [OF assms(1)] ok(7)]) (use ids in \<open>auto simp: same_pat_def fresh_pat_def\<close>)
  moreover have "distinct (map us_ID (au_users d'))"
    by (rule rows_evolve_key [OF step_users [OF assms(1)] _ _ ok(1)]) (auto simp: same_user_def)
  moreover have "distinct (map ss_TokenHash (au_sessions d'))"
    by (rule rows_evolve_key [OF step_sessions [OF assms(1)] _ _ ok(2)]) (auto simp: same_session_def fresh_session_def)
  moreover have "distinct (map ss_ID (au_sessions d'))"
    by (rule rows_evolve_key [OF step_sessions [OF assms(1)] _ _ ok(3)]) (auto simp: same_session_def fresh_session_def)
  moreover have "distinct (map pt_TokenHash (au_pats d'))"
    by (rule rows_evolve_key [OF step_pats [OF assms(1)] _ _ ok(4)]) (auto simp: same_pat_def fresh_pat_def)
  moreover have "distinct (map pt_ID (au_pats d'))"
    by (rule rows_evolve_key [OF step_pats [OF assms(1)] _ _ ok(5)]) (auto simp: same_pat_def fresh_pat_def)
  ultimately show ?thesis using step_identities [OF assms] by (simp add: auth_ok_def)
qed

section \<open>Runs\<close>

lemma run_auth_ok: "auth_run d ls d' \<Longrightarrow> auth_ok d \<Longrightarrow> auth_ok d'"
  by (induction rule: auth_run.induct) (auto intro: step_auth_ok)

text \<open>What becomes of a session, an access token and a user in a run.\<close>

lemma run_session:
  assumes "auth_run d ls d'" "s \<in> set (au_sessions d)"
  shows "\<exists>s' \<in> set (au_sessions d'). ss_ID s' = ss_ID s \<and> ss_TokenHash s' = ss_TokenHash s \<and> ss_UserID s' = ss_UserID s
    \<and> (ss_RevokedAt s \<noteq> None \<longrightarrow> ss_RevokedAt s' = ss_RevokedAt s)
    \<and> (STouchSession (ss_ID s) \<notin> set ls \<longrightarrow> ss_ExpiresAt s' = ss_ExpiresAt s)
    \<and> (SRevokeSession (ss_TokenHash s) \<notin> set ls \<longrightarrow> ss_RevokedAt s' = ss_RevokedAt s)"
  using assms
proof (induction arbitrary: s rule: auth_run.induct)
  case (ar_step d l d1 ls d2)
  from rows_evolve_row [OF step_sessions [OF ar_step.hyps(1)] ar_step.prems] obtain s1 where
    s1: "s1 \<in> set (au_sessions d1)" "same_session l s s1" by blast
  from ar_step.IH [OF s1(1)] s1(2) show ?case by (fastforce simp: same_session_def)
qed auto

lemma run_pat:
  assumes "auth_run d ls d'" "p \<in> set (au_pats d)"
  shows "\<exists>p' \<in> set (au_pats d'). pt_ID p' = pt_ID p \<and> pt_TokenHash p' = pt_TokenHash p \<and> pt_UserID p' = pt_UserID p
    \<and> pt_ExpiresAt p' = pt_ExpiresAt p \<and> (pt_RevokedAt p \<noteq> None \<longrightarrow> pt_RevokedAt p' = pt_RevokedAt p)
    \<and> (SRevokePAT (pt_ID p) (pt_UserID p) \<notin> set ls \<longrightarrow> pt_RevokedAt p' = pt_RevokedAt p)"
  using assms
proof (induction arbitrary: p rule: auth_run.induct)
  case (ar_step d l d1 ls d2)
  from rows_evolve_row [OF step_pats [OF ar_step.hyps(1)] ar_step.prems] obtain p1 where
    p1: "p1 \<in> set (au_pats d1)" "same_pat l p p1" by blast
  from ar_step.IH [OF p1(1)] p1(2) show ?case by (fastforce simp: same_pat_def)
qed auto

lemma run_user:
  assumes "auth_run d ls d'" "u \<in> set (au_users d)"
  shows "\<exists>u' \<in> set (au_users d'). same_user u u'"
  using assms
proof (induction arbitrary: u rule: auth_run.induct)
  case (ar_step d l d1 ls d2)
  from rows_evolve_row [OF step_users [OF ar_step.hyps(1)] ar_step.prems] obtain u1 where
    u1: "u1 \<in> set (au_users d1)" "same_user u u1" by blast
  from ar_step.IH [OF u1(1)] u1(2) show ?case by (fastforce simp: same_user_def)
qed (use same_user_refl in blast)

section \<open>Lookups in well-formed tables\<close>

lemma find_row_unique:
  assumes "distinct (map k rs)" "r \<in> set rs" "\<And>x. p x \<longleftrightarrow> k x = k r \<and> q x"
  shows "find p rs = (if q r then Some r else None)"
proof -
  have "x = r" if "x \<in> set rs" "p x" for x using assms that by (metis distinct_map inj_onD)
  then show ?thesis using assms(2,3)
    by (metis (mono_tags, lifting) find_InD find_None_iff option.exhaust)
qed

lemma lookup_session:
  assumes "auth_ok d" "s \<in> set (au_sessions d)"
  shows "\<exists>u. find_user d (ss_UserID s) = Some u \<and> us_ID u = ss_UserID s
    \<and> GetSessionByTokenHash c d (ss_TokenHash s) = run_stmt c ''GetSessionByTokenHash''
        (if session_live c s then Inr (u, s) else Inl (Sentinel ErrNoRows))
    \<and> GetSessionByID c d (ss_ID s) = run_stmt c ''GetSessionByID''
        (if session_live c s then Inr (u, s) else Inl (Sentinel ErrNoRows))"
proof -
  have d: "distinct (map ss_TokenHash (au_sessions d))" "distinct (map ss_ID (au_sessions d))" "ss_UserID s \<in> us_ID ` set (au_users d)"
    using assms(1,2) by (auto simp: auth_ok_def)
  then obtain u where "find_user d (ss_UserID s) = Some u" using find_user_None [of d "ss_UserID s"] by auto
  moreover from this have "us_ID u = ss_UserID s" using find_user_Some by blast
  moreover have "find (\<lambda>x. ss_TokenHash x = ss_TokenHash s \<and> session_live c x) (au_sessions d) = (if session_live c s then Some s else None)"
    by (rule find_row_unique [OF d(1) assms(2)]) simp
  moreover have "find (\<lambda>x. ss_ID x = ss_ID s \<and> session_live c x) (au_sessions d) = (if session_live c s then Some s else None)"
    by (rule find_row_unique [OF d(2) assms(2)]) simp
  ultimately show ?thesis by (simp add: GetSessionByTokenHash_def GetSessionByID_def join_user_def)
qed

lemma lookup_pat:
  assumes "auth_ok d" "p \<in> set (au_pats d)" "ac_fault c ''GetPATByTokenHash'' = None"
  shows "\<exists>u. find_user d (pt_UserID p) = Some u
    \<and> GetPATByTokenHash c d (pt_TokenHash p) = (if pat_live c p then Inr (u, p) else Inl (Sentinel ErrNoRows))"
proof -
  have d: "distinct (map pt_TokenHash (au_pats d))" "pt_UserID p \<in> us_ID ` set (au_users d)" using assms(1,2) by (auto simp: auth_ok_def)
  then obtain u where "find_user d (pt_UserID p) = Some u" using find_user_None [of d "pt_UserID p"] by auto
  moreover have "find (\<lambda>x. pt_TokenHash x = pt_TokenHash p \<and> pat_live c x) (au_pats d) = (if pat_live c p then Some p else None)"
    by (rule find_row_unique [OF d(1) assms(2)]) simp
  ultimately show ?thesis using assms(3) by (simp add: GetPATByTokenHash_def join_user_def)
qed

end
