(* ===== verification/Auth_Login.thy ===== *)
theory Auth_Login
  imports Auth_Oidc Auth_System
begin

text \<open>
  Login (\<open>controlplane/internal/auth\<close>): the signed state, the browser's round trip through the
  identity provider, the resolution of an identity to a user, access tokens of the provider with
  their cache, and logout. HMAC-SHA256 is the parameter \<open>hc_hmac\<close> of the configuration; a request is
  its query parameters and cookies, a response what the handler writes: cookies, then a status
  with a redirect target or an error code. Redirect targets are as given to \<open>http.Redirect\<close>.
\<close>

section \<open>Signed state\<close>

definition stateTTL :: int where "stateTTL = 600000000000"

definition sign :: "(8 word list \<Rightarrow> string \<Rightarrow> 8 word list) \<Rightarrow> 8 word list \<Rightarrow> string \<Rightarrow> string" where
  "sign hmac key payload = rawurl_encode (hmac key payload)"

text \<open>\<open>Time.Unix\<close>: the seconds of an instant.\<close>

definition Unix :: "int \<Rightarrow> int" where
  "Unix t = t div 1000000000"

definition newState :: "(8 word list \<Rightarrow> string \<Rightarrow> 8 word list) \<Rightarrow> authctx \<Rightarrow> 8 word list \<Rightarrow> string res" where
  "newState hmac c key = (case ac_rand c of
       Inl e \<Rightarrow> Inl (ErrorText e)
     | Inr nonce \<Rightarrow>
       (let payload = rawurl_encode nonce @ ''.'' @ itoa (Unix (ac_time c + stateTTL))
        in Inr (payload @ ''.'' @ sign hmac key payload)))"

definition validateState :: "(8 word list \<Rightarrow> string \<Rightarrow> 8 word list) \<Rightarrow> authctx \<Rightarrow> 8 word list \<Rightarrow> string \<Rightarrow> error option" where
  "validateState hmac c key state = (case split_char CHR ''.'' state of
       [nonce, expiry, sig] \<Rightarrow>
         (if sign hmac key (nonce @ ''.'' @ expiry) \<noteq> sig then Some (Sentinel ErrBadState)
          else case Atoi expiry of
            None \<Rightarrow> Some (Sentinel ErrBadState)
          | Some exp \<Rightarrow> (if Unix (ac_time c) > exp then Some (Sentinel ErrBadState) else None))
     | _ \<Rightarrow> Some (Sentinel ErrBadState))"

text \<open>\<open>sanitizeNext\<close>: the destinations a login may end at.\<close>

definition sanitizeNext :: "string \<Rightarrow> string" where
  "sanitizeNext next' = (if next' = [] \<or> take 1 next' \<noteq> ''/'' \<or> take 2 next' = ''//'' \<or> take 2 next' = [CHR ''/'', CHR 0x5C]
     \<or> CHR 0x0D \<in> set next' \<or> CHR 0x0A \<in> set next' then ''/'' else next')"

section \<open>Bearer cache\<close>

definition bearerCacheTTL :: int where "bearerCacheTTL = 60000000000"
definition bearerCacheMax :: nat where "bearerCacheMax = 1024"

record bearer_entry =
  be_user :: user_row
  be_expiresAt :: int

type_synonym bearer_cache = "(8 word list \<times> bearer_entry) list"

definition cache_delete :: "8 word list \<Rightarrow> bearer_cache \<Rightarrow> bearer_cache" where
  "cache_delete k cache = filter (\<lambda>e. fst e \<noteq> k) cache"

definition cache_get :: "authctx \<Rightarrow> bearer_cache \<Rightarrow> 8 word list \<Rightarrow> bearer_cache \<times> user_row option" where
  "cache_get c cache k = (case map_of cache k of
       None \<Rightarrow> (cache, None)
     | Some e \<Rightarrow> (if ac_time c > be_expiresAt e then (cache_delete k cache, None) else (cache, Some (be_user e))))"

definition sweepLocked :: "authctx \<Rightarrow> bearer_cache \<Rightarrow> bearer_cache" where
  "sweepLocked c cache = filter (\<lambda>e. \<not> ac_time c > be_expiresAt (snd e)) cache"

definition cache_put :: "authctx \<Rightarrow> bearer_cache \<Rightarrow> 8 word list \<Rightarrow> user_row \<Rightarrow> bearer_cache" where
  "cache_put c cache k user =
     (let swept = (if length cache \<ge> bearerCacheMax then sweepLocked c cache else cache)
      in if length swept \<ge> bearerCacheMax then swept
         else (k, \<lparr>be_user = user, be_expiresAt = ac_time c + bearerCacheTTL\<rparr>) # cache_delete k swept)"

section \<open>The handler\<close>

record auth_config =
  hc_BaseURL :: string
  hc_StateKey :: "8 word list"
  hc_CookieSecure :: bool
  hc_SessionTTL :: int
  hc_ttl :: int
  hc_revoker :: bool
  hc_hmac :: "8 word list \<Rightarrow> string \<Rightarrow> 8 word list"

record audit_entry =
  ae_UserID :: string
  ae_Actor :: string
  ae_Action :: string
  ae_Target :: string
  ae_Metadata :: "(string \<times> string) list"

record auth_handler =
  ah_db :: auth_db
  ah_oidc :: oidc_client
  ah_cache :: bearer_cache
  ah_audit :: "audit_entry list"

definition oidcCallbackURL :: "auth_config \<Rightarrow> string" where
  "oidcCallbackURL cfg = hc_BaseURL cfg @ ''/api/auth/callback''"

text \<open>\<open>audit.Record\<close>: best effort, a failed insert is logged and dropped.\<close>

definition UserActor :: "string \<Rightarrow> string" where
  "UserActor user_id = ''user:'' @ user_id"

definition audit_Record :: "authctx \<Rightarrow> auth_handler \<Rightarrow> audit_entry \<Rightarrow> auth_handler" where
  "audit_Record c h e = (if ac_fault c ''InsertAuditLog'' \<noteq> None then h else h\<lparr>ah_audit := ah_audit h @ [e]\<rparr>)"

section \<open>Identities\<close>

definition RoleKeyAdmin :: string where "RoleKeyAdmin = ''proteos.admin''"

text \<open>The user of an identity that is already known.\<close>

definition refresh_user :: "authctx \<Rightarrow> auth_db \<Rightarrow> string \<Rightarrow> user_info \<Rightarrow> user_row \<Rightarrow> auth_db \<times> user_row" where
  "refresh_user c d issuer info user =
     (case UpdateOIDCUserProfile c d issuer (ui_Subject info) (ui_Login info) (ui_Email info) (ui_Picture info)
            (HasRole info RoleKeyAdmin) of
        Inl _ \<Rightarrow> (d, user\<lparr>us_IsAdmin := HasRole info RoleKeyAdmin\<rparr>)
      | Inr (d', updated) \<Rightarrow> (d', updated))"

text \<open>The user of a first login: linked by verified email, or created.\<close>

definition create_user :: "authctx \<Rightarrow> auth_db \<Rightarrow> string \<Rightarrow> user_info \<Rightarrow> auth_db \<times> (string + user_row)" where
  "create_user c d issuer info =
     (case CreateOIDCUser c d issuer (ui_Subject info) (ui_Login info) (ui_Email info) (ui_Picture info)
            (HasRole info RoleKeyAdmin) of
        Inl _ \<Rightarrow> (d, Inl ''internal'')
      | Inr (d', created) \<Rightarrow> (d', Inr created))"

definition first_login :: "authctx \<Rightarrow> auth_db \<Rightarrow> string \<Rightarrow> user_info \<Rightarrow> auth_db \<times> (string + user_row)" where
  "first_login c d issuer info =
     (if ui_EmailVerified info \<and> ui_Email info \<noteq> [] then
        (case ListLinkableUsersByEmail c d (ui_Email info) of
           Inl _ \<Rightarrow> (d, Inl ''internal'')
         | Inr candidates \<Rightarrow>
             (if length candidates > 1 then (d, Inl ''link_ambiguous'')
              else if length candidates = 1 then
                (case LinkUserOIDC c d (us_ID (hd candidates)) issuer (ui_Subject info) (HasRole info RoleKeyAdmin) of
                   Inl _ \<Rightarrow> (d, Inl ''internal'')
                 | Inr (d', linked) \<Rightarrow> (d', Inr linked))
              else create_user c d issuer info))
      else create_user c d issuer info)"

definition resolve_identity :: "authctx \<Rightarrow> auth_db \<Rightarrow> string \<Rightarrow> user_info \<Rightarrow> auth_db \<times> (string + user_row)" where
  "resolve_identity c d issuer info = (case GetUserByOIDC c d issuer (ui_Subject info) of
       Inr user \<Rightarrow> (case refresh_user c d issuer info user of (d', u) \<Rightarrow> (d', Inr u))
     | Inl e \<Rightarrow> (if errors_Is e ErrNoRows then first_login c d issuer info else (d, Inl ''internal'')))"

definition resolveOIDCUser :: "authctx \<Rightarrow> oidcctx \<Rightarrow> auth_handler \<Rightarrow> user_info \<Rightarrow> auth_handler \<times> (string + user_row)" where
  "resolveOIDCUser c o' h info = (case Issuer o' (ah_oidc h) of
       (cl, Inl _) \<Rightarrow> (h\<lparr>ah_oidc := cl\<rparr>, Inl ''internal'')
     | (cl, Inr issuer) \<Rightarrow> (case resolve_identity c (ah_db h) issuer info of
         (d', r) \<Rightarrow> (h\<lparr>ah_oidc := cl, ah_db := d'\<rparr>, r)))"

section \<open>Access tokens of the provider\<close>

definition AuthenticateBearer :: "authctx \<Rightarrow> oidcctx \<Rightarrow> auth_handler \<Rightarrow> string \<Rightarrow> auth_handler \<times> user_row res" where
  "AuthenticateBearer c o' h token =
     (if token = [] then (h, Inl (Sentinel ErrInvalidBearer))
      else let key = ac_sha256 c token in
        case cache_get c (ah_cache h) key of
          (cache, Some user) \<Rightarrow> (h\<lparr>ah_cache := cache\<rparr>, Inr user)
        | (cache, None) \<Rightarrow> (case GetUserInfo o' (ah_oidc h) token of
            (cl, Inl _) \<Rightarrow> (h\<lparr>ah_cache := cache, ah_oidc := cl\<rparr>, Inl (Sentinel ErrInvalidBearer))
          | (cl, Inr info) \<Rightarrow> (case resolveOIDCUser c o' (h\<lparr>ah_cache := cache, ah_oidc := cl\<rparr>) info of
              (h', Inl _) \<Rightarrow> (h', Inl (Sentinel ErrInvalidBearer))
            | (h', Inr user) \<Rightarrow> (h'\<lparr>ah_cache := cache_put c (ah_cache h') key user\<rparr>, Inr user))))"

section \<open>The browser's endpoints\<close>

record cookie =
  ck_Name :: string
  ck_Value :: string
  ck_Path :: string
  ck_Secure :: bool
  ck_Expires :: "int option"
  ck_MaxAge :: int

record browser_request =
  br_query :: "string \<Rightarrow> string"
  br_cookie :: "string \<rightharpoonup> string"

datatype reply_body = RedirectTo string | ErrorCode string | StatusOK

record auth_response =
  as_cookies :: "cookie list"
  as_status :: nat
  as_body :: reply_body

definition SessionCookieName :: string where "SessionCookieName = ''proteos_session''"
definition oidcStateCookieName :: string where "oidcStateCookieName = ''proteos_oidc_state''"
definition pkceCookieName :: string where "pkceCookieName = ''proteos_pkce''"
definition nextCookieName :: string where "nextCookieName = ''proteos_next''"

lemmas cookie_names = SessionCookieName_def oidcStateCookieName_def pkceCookieName_def nextCookieName_def

definition flow_cookie :: "auth_config \<Rightarrow> string \<Rightarrow> string \<Rightarrow> string \<Rightarrow> cookie" where
  "flow_cookie cfg nm v path = \<lparr>ck_Name = nm, ck_Value = v, ck_Path = path, ck_Secure = hc_CookieSecure cfg,
     ck_Expires = None, ck_MaxAge = stateTTL div 1000000000\<rparr>"

definition clear_cookie :: "auth_config \<Rightarrow> string \<Rightarrow> string \<Rightarrow> cookie" where
  "clear_cookie cfg nm path = \<lparr>ck_Name = nm, ck_Value = [], ck_Path = path, ck_Secure = hc_CookieSecure cfg,
     ck_Expires = None, ck_MaxAge = - 1\<rparr>"

definition sessionCookie :: "auth_config \<Rightarrow> authctx \<Rightarrow> string \<Rightarrow> cookie" where
  "sessionCookie cfg c token = \<lparr>ck_Name = SessionCookieName, ck_Value = token, ck_Path = ''/'', ck_Secure = hc_CookieSecure cfg,
     ck_Expires = Some (ac_time c + hc_SessionTTL cfg), ck_MaxAge = 0\<rparr>"

definition Redirect :: "cookie list \<Rightarrow> string \<Rightarrow> auth_response" where
  "Redirect cookies url = \<lparr>as_cookies = cookies, as_status = 302, as_body = RedirectTo url\<rparr>"

definition redirectLoginError :: "cookie list \<Rightarrow> string \<Rightarrow> auth_response" where
  "redirectLoginError cookies code = Redirect cookies (''/login?error='' @ code)"

definition state_error :: auth_response where
  "state_error = \<lparr>as_cookies = [], as_status = 500, as_body = ErrorCode ''state_error''\<rparr>"

text \<open>\<open>Login\<close> draws twice from the random source: the nonce of the state and \<open>vrand\<close>, the verifier.\<close>

definition Login :: "auth_config \<Rightarrow> authctx \<Rightarrow> oidcctx \<Rightarrow> string + 8 word list \<Rightarrow> auth_handler \<Rightarrow> browser_request
    \<Rightarrow> auth_handler \<times> auth_response" where
  "Login cfg c o' vrand h r = (case newState (hc_hmac cfg) c (hc_StateKey cfg) of
       Inl _ \<Rightarrow> (h, state_error)
     | Inr state \<Rightarrow> (case NewVerifier vrand of
         Inl _ \<Rightarrow> (h, state_error)
       | Inr verifier \<Rightarrow> (case AuthorizeURL c o' (ah_oidc h) state (oidcCallbackURL cfg) verifier of
           (cl, Inl _) \<Rightarrow> (h\<lparr>ah_oidc := cl\<rparr>, redirectLoginError [] ''idp_unreachable'')
         | (cl, Inr url) \<Rightarrow>
             (let next' = sanitizeNext (br_query r ''next'')
              in (h\<lparr>ah_oidc := cl\<rparr>,
                  Redirect ([flow_cookie cfg oidcStateCookieName state ''/api/auth'',
                             flow_cookie cfg pkceCookieName verifier ''/api/auth'']
                     @ (if next' \<noteq> ''/'' then [flow_cookie cfg nextCookieName next' ''/api/auth''] else [])) url)))))"

text \<open>What the callback does once the state is accepted: from the code to the session.\<close>

definition login_entry :: "user_row \<Rightarrow> user_info \<Rightarrow> audit_entry" where
  "login_entry user info = \<lparr>ae_UserID = UUIDString (us_ID user), ae_Actor = UserActor (UUIDString (us_ID user)),
     ae_Action = ''auth.login'', ae_Target = UUIDString (us_ID user), ae_Metadata = [(''oidc_subject'', ui_Subject info)]\<rparr>"

definition open_session :: "auth_config \<Rightarrow> authctx \<Rightarrow> auth_handler \<Rightarrow> user_row \<Rightarrow> user_info \<Rightarrow> auth_handler \<times> string res" where
  "open_session cfg c h user info = (case session_Create c (hc_ttl cfg) (ah_db h) (us_ID user) of
       (d', Inl e) \<Rightarrow> (h\<lparr>ah_db := d'\<rparr>, Inl e)
     | (d', Inr token) \<Rightarrow> (audit_Record c (h\<lparr>ah_db := d'\<rparr>) (login_entry user info), Inr token))"

definition complete_login :: "auth_config \<Rightarrow> authctx \<Rightarrow> oidcctx \<Rightarrow> auth_handler \<Rightarrow> string \<Rightarrow> string \<Rightarrow> auth_handler \<times> (string + string)" where
  "complete_login cfg c o' h code verifier = (case oidc_Exchange o' (ah_oidc h) code (oidcCallbackURL cfg) verifier of
       (cl, Inl _) \<Rightarrow> (h\<lparr>ah_oidc := cl\<rparr>, Inl ''exchange_failed'')
     | (cl, Inr tok) \<Rightarrow> (case GetUserInfo o' cl (ot_AccessToken tok) of
         (cl', Inl _) \<Rightarrow> (h\<lparr>ah_oidc := cl'\<rparr>, Inl ''user_fetch_failed'')
       | (cl', Inr info) \<Rightarrow> (case resolveOIDCUser c o' (h\<lparr>ah_oidc := cl'\<rparr>) info of
           (h', Inl code') \<Rightarrow> (h', Inl code')
         | (h', Inr user) \<Rightarrow> (case open_session cfg c h' user info of
             (h'', Inl _) \<Rightarrow> (h'', Inl ''internal'')
           | (h'', Inr token) \<Rightarrow> (h'', Inr token)))))"

definition cookie_value :: "browser_request \<Rightarrow> string \<Rightarrow> string" where
  "cookie_value r nm = (case br_cookie r nm of None \<Rightarrow> [] | Some v \<Rightarrow> v)"

definition Callback :: "auth_config \<Rightarrow> authctx \<Rightarrow> oidcctx \<Rightarrow> auth_handler \<Rightarrow> browser_request \<Rightarrow> auth_handler \<times> auth_response" where
  "Callback cfg c o' h r =
     (if br_query r ''error'' \<noteq> [] then (h, redirectLoginError [] ''idp_error'')
      else if cookie_value r oidcStateCookieName = [] then (h, redirectLoginError [] ''missing_state'')
      else if cookie_value r pkceCookieName = [] then (h, redirectLoginError [] ''missing_state'')
      else
        let next' = (case br_cookie r nextCookieName of None \<Rightarrow> ''/'' | Some v \<Rightarrow> sanitizeNext v);
            cleared = map (\<lambda>n. clear_cookie cfg n ''/api/auth'') [oidcStateCookieName, pkceCookieName, nextCookieName];
            state = br_query r ''state''
        in if state = [] \<or> cookie_value r oidcStateCookieName \<noteq> state then (h, redirectLoginError cleared ''bad_state'')
           else if validateState (hc_hmac cfg) c (hc_StateKey cfg) state \<noteq> None then (h, redirectLoginError cleared ''bad_state'')
           else if br_query r ''code'' = [] then (h, redirectLoginError cleared ''missing_code'')
           else case complete_login cfg c o' h (br_query r ''code'') (cookie_value r pkceCookieName) of
             (h', Inl code) \<Rightarrow> (h', redirectLoginError cleared code)
           | (h', Inr token) \<Rightarrow> (h', Redirect (cleared @ [sessionCookie cfg c token]) next'))"

definition Logout :: "auth_config \<Rightarrow> authctx \<Rightarrow> auth_handler \<Rightarrow> browser_request \<Rightarrow> auth_handler \<times> string list \<times> auth_response" where
  "Logout cfg c h r =
     (let answer = \<lparr>as_cookies = [clear_cookie cfg SessionCookieName ''/''], as_status = 200, as_body = StatusOK\<rparr>
      in if cookie_value r SessionCookieName = [] then (h, [], answer)
         else case session_Revoke c (hc_revoker cfg) (ah_db h) (cookie_value r SessionCookieName) of
           (d', revoked, _) \<Rightarrow> (h\<lparr>ah_db := d'\<rparr>, revoked, answer))"

end
