(* ===== verification/Auth_Middleware.thy ===== *)
theory Auth_Middleware
  imports Auth_Login
begin

text \<open>
  The control plane's authentication middleware (\<open>httpapi/middleware.go\<close>) and the handlers of
  access tokens and logout behind it (\<open>httpapi/tokens.go\<close>, \<open>handlers.go\<close>). A wrapped handler
  is a function of the request context and the state; a middleware's answer is its own refusal or
  the handler's. The rate limiter's decision is the parameter \<open>sx_allow\<close> (its buckets
  are floating point), \<open>net.SplitHostPort\<close> is \<open>sx_split\<close>.
\<close>

section \<open>Requests\<close>

record api_request =
  aq_Authorization :: string
  aq_RequestedBy :: string
  aq_SessionCookie :: "string option"
  aq_RealIP :: string
  aq_ForwardedFor :: string
  aq_RemoteAddr :: string

record serverctx =
  sx_cfg :: auth_config
  sx_auth :: authctx
  sx_oidc :: oidcctx
  sx_PATs :: bool
  sx_Auth :: bool
  sx_allow :: "string \<Rightarrow> bool"
  sx_split :: "string \<Rightarrow> string option"

record request_ctx =
  rc_User :: "user_row option"
  rc_SessionID :: "string option"
  rc_TokenAuth :: bool

datatype 'r answer = Refused nat string | Handled 'r

type_synonym 'r handler = "request_ctx \<Rightarrow> auth_handler \<Rightarrow> auth_handler \<times> 'r answer"

definition csrfHeaderValue :: string where "csrfHeaderValue = ''proteos''"

definition clientIP :: "serverctx \<Rightarrow> api_request \<Rightarrow> string" where
  "clientIP x r =
     (if aq_RealIP r \<noteq> [] then TrimSpace (aq_RealIP r)
      else if aq_ForwardedFor r \<noteq> [] then
        (let first = takeWhile (\<lambda>c. c \<noteq> CHR '','') (aq_ForwardedFor r)
         in TrimSpace (if first \<noteq> [] then first else aq_ForwardedFor r))
      else case sx_split x (aq_RemoteAddr r) of None \<Rightarrow> aq_RemoteAddr r | Some ip \<Rightarrow> ip)"

definition bearerToken :: "api_request \<Rightarrow> string" where
  "bearerToken r = (let h = aq_Authorization r; scheme = ''bearer ''
     in if length h > length scheme \<and> EqualFold (take (length scheme) h) scheme
        then TrimSpace (drop (length scheme) h) else [])"

section \<open>Authentication\<close>

definition authenticateBearer :: "serverctx \<Rightarrow> auth_handler \<Rightarrow> string \<Rightarrow> auth_handler \<times> user_row res" where
  "authenticateBearer x h bearer =
     (if LooksLikePAT bearer then
        (if \<not> sx_PATs x then (h, Inl (Sentinel ErrNoBearerValidator))
         else case pat_Authenticate (sx_auth x) (ah_db h) bearer of
           (d', Inl e) \<Rightarrow> (h\<lparr>ah_db := d'\<rparr>, Inl e)
         | (d', Inr (u, _)) \<Rightarrow> (h\<lparr>ah_db := d'\<rparr>, Inr u))
      else if \<not> sx_Auth x then (h, Inl (Sentinel ErrNoBearerValidator))
      else AuthenticateBearer (sx_auth x) (sx_oidc x) h bearer)"

definition requireAuth :: "serverctx \<Rightarrow> api_request \<Rightarrow> 'r handler \<Rightarrow> auth_handler \<Rightarrow> auth_handler \<times> 'r answer" where
  "requireAuth x r next' h =
     (if bearerToken r \<noteq> [] then
        (if \<not> sx_allow x (clientIP x r) then (h, Refused 429 ''rate_limited'')
         else case authenticateBearer x h (bearerToken r) of
           (h', Inl _) \<Rightarrow> (h', Refused 401 ''unauthorized'')
         | (h', Inr user) \<Rightarrow> next' \<lparr>rc_User = Some user, rc_SessionID = None, rc_TokenAuth = True\<rparr> h')
      else case aq_SessionCookie r of
        None \<Rightarrow> (h, Refused 401 ''unauthorized'')
      | Some cookie \<Rightarrow>
          (if cookie = [] then (h, Refused 401 ''unauthorized'')
           else case session_Authenticate (sx_auth x) (hc_ttl (sx_cfg x)) (ah_db h) cookie of
             (d', Inl _) \<Rightarrow> (h\<lparr>ah_db := d'\<rparr>, Refused 401 ''unauthorized'')
           | (d', Inr (user, sess)) \<Rightarrow>
               next' \<lparr>rc_User = Some user, rc_SessionID = Some (SessionIDString (ss_ID sess)), rc_TokenAuth = False\<rparr>
                 (h\<lparr>ah_db := d'\<rparr>)))"

definition admin_only :: "'r handler \<Rightarrow> 'r handler" where
  "admin_only next' ctx h = (case rc_User ctx of
       None \<Rightarrow> (h, Refused 401 ''unauthorized'')
     | Some user \<Rightarrow> (if \<not> us_IsAdmin user then (h, Refused 403 ''forbidden'') else next' ctx h))"

definition requireAdmin :: "serverctx \<Rightarrow> api_request \<Rightarrow> 'r handler \<Rightarrow> auth_handler \<Rightarrow> auth_handler \<times> 'r answer" where
  "requireAdmin x r next' h = requireAuth x r (admin_only next') h"

definition csrfHeader :: "api_request \<Rightarrow> 'r handler \<Rightarrow> 'r handler" where
  "csrfHeader r next' ctx h =
     (if rc_TokenAuth ctx then next' ctx h
      else if aq_RequestedBy r \<noteq> csrfHeaderValue then (h, Refused 403 ''csrf_required'')
      else next' ctx h)"

section \<open>Access tokens and logout behind the middleware\<close>

record created_token =
  ct_ID :: string
  ct_Name :: string
  ct_Token :: string
  ct_Prefix :: string
  ct_ExpiresAt :: "int option"

record token_view =
  tv_ID :: string
  tv_Name :: string
  tv_Prefix :: string
  tv_CreatedAt :: int
  tv_LastUsedAt :: "int option"
  tv_ExpiresAt :: "int option"

definition user_entry :: "user_row \<Rightarrow> string \<Rightarrow> string \<Rightarrow> (string \<times> string) list \<Rightarrow> audit_entry" where
  "user_entry user action target meta = \<lparr>ae_UserID = UUIDString (us_ID user), ae_Actor = UserActor (UUIDString (us_ID user)),
     ae_Action = action, ae_Target = target, ae_Metadata = meta\<rparr>"

text \<open>The body is the name and the number of days, \<open>None\<close> when it does not decode.\<close>

definition handleCreateToken :: "serverctx \<Rightarrow> (string \<times> int) option \<Rightarrow> created_token handler" where
  "handleCreateToken x body ctx h = (case rc_User ctx of
       None \<Rightarrow> (h, Refused 401 ''unauthorized'')
     | Some user \<Rightarrow> (case body of
         None \<Rightarrow> (h, Refused 400 ''bad_request'')
       | Some (nm, days) \<Rightarrow>
           (if days < 0 then (h, Refused 400 ''bad_request'')
            else case pat_Create (sx_auth x) (ah_db h) (us_ID user) nm (expires_in days) of
              (d', Inl _) \<Rightarrow> (h\<lparr>ah_db := d'\<rparr>, Refused 500 ''internal'')
            | (d', Inr (plaintext, p)) \<Rightarrow>
                (audit_Record (sx_auth x) (h\<lparr>ah_db := d'\<rparr>)
                   (user_entry user ''token.create'' (UUIDString (pt_ID p)) [(''name'', pt_Name p), (''prefix'', pt_Prefix p)]),
                 Handled \<lparr>ct_ID = UUIDString (pt_ID p), ct_Name = pt_Name p, ct_Token = plaintext,
                   ct_Prefix = pt_Prefix p, ct_ExpiresAt = pt_ExpiresAt p\<rparr>))))"

definition token_view_of :: "pat_row \<Rightarrow> token_view" where
  "token_view_of p = \<lparr>tv_ID = UUIDString (pt_ID p), tv_Name = pt_Name p, tv_Prefix = pt_Prefix p, tv_CreatedAt = pt_CreatedAt p,
     tv_LastUsedAt = pt_LastUsedAt p, tv_ExpiresAt = pt_ExpiresAt p\<rparr>"

definition handleListTokens :: "serverctx \<Rightarrow> token_view list handler" where
  "handleListTokens x ctx h = (case rc_User ctx of
       None \<Rightarrow> (h, Refused 401 ''unauthorized'')
     | Some user \<Rightarrow> (case pat_List (sx_auth x) (ah_db h) (us_ID user) of
         Inl _ \<Rightarrow> (h, Refused 500 ''list_failed'')
       | Inr rows \<Rightarrow> (h, Handled (map token_view_of rows))))"

text \<open>The path value is what \<open>ParseUUID\<close> makes of it.\<close>

definition handleRevokeToken :: "serverctx \<Rightarrow> pg_uuid option \<Rightarrow> unit handler" where
  "handleRevokeToken x tid ctx h = (case rc_User ctx of
       None \<Rightarrow> (h, Refused 401 ''unauthorized'')
     | Some user \<Rightarrow> (case tid of
         None \<Rightarrow> (h, Refused 404 ''no_token'')
       | Some i \<Rightarrow> (case pat_Revoke (sx_auth x) (ah_db h) (us_ID user) i of
           (d', Inl _) \<Rightarrow> (h\<lparr>ah_db := d'\<rparr>, Refused 500 ''internal'')
         | (d', Inr revoked) \<Rightarrow>
             (if \<not> revoked then (h\<lparr>ah_db := d'\<rparr>, Refused 404 ''no_token'')
              else (audit_Record (sx_auth x) (h\<lparr>ah_db := d'\<rparr>) (user_entry user ''token.revoke'' (UUIDString i) []), Handled ())))))"

definition handleLogout :: "serverctx \<Rightarrow> browser_request \<Rightarrow> (string list \<times> auth_response) handler" where
  "handleLogout x r ctx h = (case Logout (sx_cfg x) (sx_auth x) h r of
       (h', revoked, answer) \<Rightarrow> (case rc_User ctx of
         None \<Rightarrow> (h', Handled (revoked, answer))
       | Some user \<Rightarrow>
           (audit_Record (sx_auth x)
              (audit_Record (sx_auth x) h' (user_entry user ''auth.logout'' (UUIDString (us_ID user)) []))
              (user_entry user ''session.revoke'' (UUIDString (us_ID user)) []), Handled (revoked, answer))))"

end
