(* ===== verification/Git_Connect.thy ===== *)
theory Git_Connect
  imports GitHub_Tokens Gitea_Client Auth_Middleware
begin

text \<open>
  Connecting git accounts: the GitHub authorization flow (\<open>auth/auth.go\<close>: \<open>GitHubConnect\<close>,
  \<open>GitHubCallback\<close>) and the tokens for other hosts (\<open>httpapi/githosts.go\<close>). The state is that of the
  token sources together with the audit log. In the context \<open>kx_mark\<close> is the environment of the
  statements of a rollback.
\<close>

record 'st git_state =
  ga_ts :: "'st token_source"
  ga_audit :: "audit_entry list"

definition git_audit :: "tokenctx \<Rightarrow> 'st git_state \<Rightarrow> audit_entry \<Rightarrow> 'st git_state" where
  "git_audit k s e = (if ac_fault (kx_stmt k) ''InsertAuditLog'' \<noteq> None then s else s\<lparr>ga_audit := ga_audit s @ [e]\<rparr>)"

section \<open>Connect GitHub\<close>

definition ghStateCookieName :: string where "ghStateCookieName = ''proteos_oauth_state''"

definition githubCallbackURL :: "auth_config \<Rightarrow> string" where
  "githubCallbackURL cfg = hc_BaseURL cfg @ ''/api/auth/github/callback''"

definition redirectConnectError :: "cookie list \<Rightarrow> string \<Rightarrow> auth_response" where
  "redirectConnectError cookies code = Redirect cookies (''/?github_error='' @ code)"

definition GitHubConnect :: "auth_config \<Rightarrow> authctx \<Rightarrow> gh_client \<Rightarrow> auth_response" where
  "GitHubConnect cfg c cl = (case newState (hc_hmac cfg) c (hc_StateKey cfg) of
       Inl _ \<Rightarrow> state_error
     | Inr state \<Rightarrow> Redirect [flow_cookie cfg ghStateCookieName state ''/api/auth/github'']
         (gh_AuthorizeURL cl state (githubCallbackURL cfg)))"

definition set_user_github :: "authctx \<Rightarrow> link_db \<Rightarrow> pg_uuid \<Rightarrow> int option \<Rightarrow> link_db res" where
  "set_user_github c d u gh = (case SetUserGitHub c (ld_auth d) u gh of Inl e \<Rightarrow> Inl e | Inr (a, _) \<Rightarrow> Inr (d\<lparr>ld_auth := a\<rparr>))"

definition unsetUserGitHub :: "tokenctx \<Rightarrow> 'st token_source \<Rightarrow> pg_uuid \<Rightarrow> 'st token_source" where
  "unsetUserGitHub k ts u = (case set_user_github (kx_mark k) (tk_db ts) u None of Inl _ \<Rightarrow> ts | Inr d \<Rightarrow> ts\<lparr>tk_db := d\<rparr>)"

text \<open>From the accepted profile on: the link, the tokens, the metadata, and a rollback of the first.\<close>

definition connect_entry :: "user_row \<Rightarrow> gh_user \<Rightarrow> audit_entry" where
  "connect_entry user gu = user_entry user ''auth.github.connect'' (UUIDString (us_ID user)) [(''github_login'', gu_Login gu)]"

definition store_grant :: "'st store_ops \<Rightarrow> tokenctx \<Rightarrow> 'st token_source \<Rightarrow> user_row \<Rightarrow> gh_token \<Rightarrow> 'st token_source \<times> bool" where
  "store_grant S k ts user tok =
     (let ref = UserGitHubPath (UUIDString (us_ID user)) in
      case Put S (tk_store ts) ref (token_fields (kx_gh k) (ac_time (kx_stmt k)) tok) of
        (st, Inl _) \<Rightarrow> (unsetUserGitHub k (ts\<lparr>tk_store := st\<rparr>) (us_ID user), False)
      | (st, Inr _) \<Rightarrow>
          (case UpsertGitHubLink (kx_stmt k) (tk_db ts) (us_ID user)
                  (grant_meta (gt_ExpiresIn tok) (gt_RefreshTokenExpiresIn tok) (gt_Scope tok) False) ref of
             Inl _ \<Rightarrow> (unsetUserGitHub k (ts\<lparr>tk_store := st\<rparr>) (us_ID user), False)
           | Inr (d', _) \<Rightarrow> (ts\<lparr>tk_store := st, tk_db := d'\<rparr>, True)))"

definition link_account :: "'st store_ops \<Rightarrow> tokenctx \<Rightarrow> 'st git_state \<Rightarrow> user_row \<Rightarrow> gh_token \<Rightarrow> gh_user \<Rightarrow> 'st git_state \<times> string option" where
  "link_account S k s user tok gu =
     (case set_user_github (kx_stmt k) (tk_db (ga_ts s)) (us_ID user) (Some (gu_ID gu)) of
        Inl e \<Rightarrow> (s, Some (if e = unique_violation then ''github_already_linked'' else ''internal''))
      | Inr d \<Rightarrow> (case store_grant S k (ga_ts s\<lparr>tk_db := d\<rparr>) user tok of
          (ts, False) \<Rightarrow> (s\<lparr>ga_ts := ts\<rparr>, Some ''internal'')
        | (ts, True) \<Rightarrow> (git_audit k (s\<lparr>ga_ts := ts\<rparr>) (connect_entry user gu), None)))"

definition exchange_code :: "'st store_ops \<Rightarrow> auth_config \<Rightarrow> string list \<Rightarrow> tokenctx \<Rightarrow> 'st git_state \<Rightarrow> user_row \<Rightarrow> string
    \<Rightarrow> 'st git_state \<times> string option" where
  "exchange_code S cfg allowed k s user code =
     (case gh_Exchange (kx_gh k) (tk_client (ga_ts s)) code (githubCallbackURL cfg) of
        Inl _ \<Rightarrow> (s, Some ''exchange_failed'')
      | Inr tok \<Rightarrow> (case gh_GetUser (kx_gh k) (tk_client (ga_ts s)) (gt_AccessToken tok) of
          Inl _ \<Rightarrow> (s, Some ''user_fetch_failed'')
        | Inr gu \<Rightarrow> (if allowed \<noteq> [] \<and> gu_Login gu \<notin> set allowed then (s, Some ''not_invited'')
            else link_account S k s user tok gu)))"

definition GitHubCallback :: "'st store_ops \<Rightarrow> auth_config \<Rightarrow> string list \<Rightarrow> tokenctx \<Rightarrow> 'st git_state \<Rightarrow> user_row \<Rightarrow> browser_request
    \<Rightarrow> 'st git_state \<times> auth_response" where
  "GitHubCallback S cfg allowed k s user r =
     (if br_query r ''error'' \<noteq> [] then (s, redirectConnectError [] ''github_error'')
      else if cookie_value r ghStateCookieName = [] then (s, redirectConnectError [] ''missing_state'')
      else
        let cleared = [clear_cookie cfg ghStateCookieName ''/api/auth/github'']; state = br_query r ''state''
        in if state = [] \<or> cookie_value r ghStateCookieName \<noteq> state then (s, redirectConnectError cleared ''bad_state'')
           else if validateState (hc_hmac cfg) (kx_stmt k) (hc_StateKey cfg) state \<noteq> None then (s, redirectConnectError cleared ''bad_state'')
           else if br_query r ''code'' = [] then (s, redirectConnectError cleared ''missing_code'')
           else case exchange_code S cfg allowed k s user (br_query r ''code'') of
             (s', Some err) \<Rightarrow> (s', redirectConnectError cleared err)
           | (s', None) \<Rightarrow> (s', Redirect cleared ''/''))"

section \<open>Tokens for other hosts\<close>

record git_host_view =
  hv_Host :: string
  hv_Linked :: bool
  hv_Login :: string

definition handleGitHosts :: "string list \<Rightarrow> tokenctx \<Rightarrow> 'st git_state \<Rightarrow> user_row option \<Rightarrow> git_host_view list answer" where
  "handleGitHosts publicHosts k s user = (case user of
       None \<Rightarrow> Refused 401 ''unauthorized''
     | Some u \<Rightarrow> (case ListGitHostLinks (kx_stmt k) (tk_db (ga_ts s)) (us_ID u) of
         Inl _ \<Rightarrow> Refused 500 ''internal''
       | Inr links \<Rightarrow>
           (let logins = map_of (rev (map (\<lambda>l. (gh_Host l, loginFromMetadata (gh_Metadata l))) links))
            in Handled (map (\<lambda>h. \<lparr>hv_Host = h, hv_Linked = (logins h \<noteq> None), hv_Login = (case logins h of None \<Rightarrow> [] | Some l \<Rightarrow> l)\<rparr>)
                 publicHosts))))"

text \<open>\<open>body\<close> is the token of the request, \<open>None\<close> when the body does not decode; \<open>g\<close> is the host's API.\<close>

definition host_fields :: "string \<Rightarrow> string \<Rightarrow> fields" where
  "host_fields token login = [GitHostFieldToken \<mapsto> token, GitHostFieldLogin \<mapsto> login]"

definition save_host_token :: "'st store_ops \<Rightarrow> tokenctx \<Rightarrow> 'st git_state \<Rightarrow> user_row \<Rightarrow> string \<Rightarrow> string \<Rightarrow> string
    \<Rightarrow> 'st git_state \<times> git_host_view answer" where
  "save_host_token S k s u hst token login =
     (let ref = UserGitHostPath (UUIDString (us_ID u)) hst; ts = ga_ts s in
      case Put S (tk_store ts) ref (host_fields token login) of
        (st, Inl _) \<Rightarrow> (s\<lparr>ga_ts := ts\<lparr>tk_store := st\<rparr>\<rparr>, Refused 500 ''internal'')
      | (st, Inr _) \<Rightarrow> (case UpsertGitHostLink (kx_stmt k) (tk_db ts) (us_ID u) hst (JObj [jstr ''login'' login]) ref of
          Inl _ \<Rightarrow> (s\<lparr>ga_ts := ts\<lparr>tk_store := st\<rparr>\<rparr>, Refused 500 ''internal'')
        | Inr (d, _) \<Rightarrow> (git_audit k (s\<lparr>ga_ts := ts\<lparr>tk_store := st, tk_db := d\<rparr>\<rparr>)
              (user_entry u ''git.host.token.set'' hst [(''login'', login)]),
            Handled \<lparr>hv_Host = hst, hv_Linked = True, hv_Login = login\<rparr>)))"

definition handleSetGitHostToken :: "'st store_ops \<Rightarrow> string list \<Rightarrow> giteactx \<Rightarrow> tokenctx \<Rightarrow> 'st git_state \<Rightarrow> user_row option \<Rightarrow> string
    \<Rightarrow> string option \<Rightarrow> 'st git_state \<times> git_host_view answer" where
  "handleSetGitHostToken S publicHosts g k s user path body = (case user of
       None \<Rightarrow> (s, Refused 401 ''unauthorized'')
     | Some u \<Rightarrow>
         (let hst = ToLower path in
          if hst \<notin> set publicHosts then (s, Refused 404 ''unknown_host'')
          else case body of
            None \<Rightarrow> (s, Refused 400 ''bad_request'')
          | Some raw \<Rightarrow>
              (if TrimSpace raw = [] then (s, Refused 400 ''bad_request'')
               else case gitea_GetUser g (gitea_New (APIBaseForHost hst)) (TrimSpace raw) of
                 Inl e \<Rightarrow> (s, if errors_Is e GiteaErrBadToken then Refused 400 ''bad_token'' else Refused 502 ''githost_unavailable'')
               | Inr login \<Rightarrow> save_host_token S k s u hst (TrimSpace raw) login)))"

definition handleDeleteGitHostToken :: "'st store_ops \<Rightarrow> tokenctx \<Rightarrow> 'st git_state \<Rightarrow> user_row option \<Rightarrow> string \<Rightarrow> 'st git_state \<times> unit answer" where
  "handleDeleteGitHostToken S k s user path = (case user of
       None \<Rightarrow> (s, Refused 401 ''unauthorized'')
     | Some u \<Rightarrow>
         (let hst = ToLower path; ts = ga_ts s in
          case Delete S (tk_store ts) (UserGitHostPath (UUIDString (us_ID u)) hst) of
            (st, Inl _) \<Rightarrow> (s\<lparr>ga_ts := ts\<lparr>tk_store := st\<rparr>\<rparr>, Refused 500 ''internal'')
          | (st, Inr _) \<Rightarrow> (case DeleteGitHostLink (kx_stmt k) (tk_db ts) (us_ID u) hst of
              Inl _ \<Rightarrow> (s\<lparr>ga_ts := ts\<lparr>tk_store := st\<rparr>\<rparr>, Refused 500 ''internal'')
            | Inr d \<Rightarrow> (git_audit k (s\<lparr>ga_ts := ts\<lparr>tk_store := st, tk_db := d\<rparr>\<rparr>)
                (user_entry u ''git.host.token.delete'' hst []), Handled ()))))"

end
