(* ===== verification/Git_System.thy ===== *)
theory Git_System
  imports Git_Connect
begin

text \<open>
  All operations on git credentials as events, and what they leave alone: the secrets and links of a
  user change only by that user's own events. Two users' secrets live under different paths because
  the canonical text of an identifier has 36 characters and determines it.
\<close>

section \<open>Events\<close>

datatype git_event =
    EvToken pg_uuid
  | EvForce pg_uuid
  | EvConnect auth_config "string list" user_row browser_request
  | EvSetHost "string list" giteactx user_row string "string option"
  | EvDeleteHost user_row string

fun event_user :: "git_event \<Rightarrow> pg_uuid" where
  "event_user (EvToken u) = u"
| "event_user (EvForce u) = u"
| "event_user (EvConnect cfg allowed user r) = us_ID user"
| "event_user (EvSetHost hosts g user path body) = us_ID user"
| "event_user (EvDeleteHost user path) = us_ID user"

definition with_ts :: "'st git_state \<Rightarrow> 'st token_source \<Rightarrow> 'st git_state" where
  "with_ts s ts = s\<lparr>ga_ts := ts\<rparr>"

fun git_exec :: "'st store_ops \<Rightarrow> 'st git_state \<Rightarrow> tokenctx \<times> git_event \<Rightarrow> 'st git_state" where
  "git_exec S s (k, EvToken u) = with_ts s (fst (Token S k (ga_ts s) (UUIDString u)))"
| "git_exec S s (k, EvForce u) = with_ts s (fst (ForceRefresh S k (ga_ts s) (UUIDString u)))"
| "git_exec S s (k, EvConnect cfg allowed user r) = fst (GitHubCallback S cfg allowed k s user r)"
| "git_exec S s (k, EvSetHost hosts g user path body) = fst (handleSetGitHostToken S hosts g k s (Some user) path body)"
| "git_exec S s (k, EvDeleteHost user path) = fst (handleDeleteGitHostToken S k s (Some user) path)"

definition git_run :: "'st store_ops \<Rightarrow> 'st git_state \<Rightarrow> (tokenctx \<times> git_event) list \<Rightarrow> 'st git_state" where
  "git_run S s evs = foldl (git_exec S) s evs"

text \<open>The documented behaviour of the parser and of the time format, on the events of a run.\<close>

definition ctx_ok :: "tokenctx \<Rightarrow> bool" where
  "ctx_ok k = (\<forall>u. proper_uuid u \<longrightarrow> hx_uuid (kx_gh k) (UUIDString u) = Some u)"

definition event_ok :: "tokenctx \<times> git_event \<Rightarrow> bool" where
  "event_ok e = (ctx_ok (fst e) \<and> proper_uuid (event_user (snd e)))"

text \<open>
  Such a parser exists: the canonical text read back digit by digit.
\<close>

definition nibble_val :: "char \<Rightarrow> nat" where
  "nibble_val c = (let n = (of_char c :: nat) in if n < 58 then n - 48 else n - 87)"

fun hex_decode :: "string \<Rightarrow> 8 word list" where
  "hex_decode (a # b # r) = word_of_nat (16 * nibble_val a + nibble_val b) # hex_decode r"
| "hex_decode _ = []"

definition scan_uuid :: "string \<Rightarrow> pg_uuid option" where
  "scan_uuid s = (if length s = 36 then Some \<lparr>Bytes = hex_decode (take 8 s @ take 4 (drop 9 s) @ take 4 (drop 14 s)
     @ take 4 (drop 19 s) @ take 12 (drop 24 s)), Valid = True\<rparr> else None)"

lemma nibble_val_char [simp]: "d < 16 \<Longrightarrow> nibble_val (nibble_char d) = d"
  by (auto simp: nibble_val_def nibble_char_def Let_def)

lemma hex_decode_encode [simp]: "hex_decode (hex_encode bs) = bs"
proof (induction bs)
  case (Cons b bs)
  have "unat b < 2 ^ LENGTH(8)" by (rule unsigned_less)
  then have "unat b < 256" by simp
  then have "unat b div 16 < 16" "unat b mod 16 < 16" by (simp_all add: less_mult_imp_div_less)
  with Cons show ?case by (simp add: hex_encode_def)
qed (simp add: hex_encode_def)

lemma scan_uuid_text: "proper_uuid u \<Longrightarrow> scan_uuid (UUIDString u) = Some u"
proof -
  assume u: "proper_uuid u"
  then have "length (UUIDString u) = 36" by (simp add: UUIDString_def proper_uuid_def Let_def)
  then show ?thesis using u UUIDString_hex [OF u, symmetric] by (simp add: scan_uuid_def proper_uuid_def)
qed

section \<open>Paths\<close>

lemma UUIDString_length: "proper_uuid u \<Longrightarrow> length (UUIDString u) = 36"
  by (simp add: UUIDString_def proper_uuid_def Let_def)

definition own_path :: "pg_uuid \<Rightarrow> string \<Rightarrow> bool" where
  "own_path u p = (\<exists>rest. p = ''secret/users/'' @ UUIDString u @ rest)"

lemma own_paths [simp]: "own_path u (UserGitHubPath (UUIDString u))" "own_path u (UserGitHostPath (UUIDString u) h)"
  by (auto simp: own_path_def UserGitHubPath_def UserGitHostPath_def)

lemma own_path_unique: "proper_uuid u \<Longrightarrow> proper_uuid v \<Longrightarrow> own_path u p \<Longrightarrow> own_path v p \<Longrightarrow> u = v"
  using UUIDString_length by (auto simp: own_path_def append_eq_append_conv intro!: UUIDString_inj)

section \<open>What an event leaves alone\<close>

definition host_rows :: "pg_uuid \<Rightarrow> link_db \<Rightarrow> git_host_link list" where
  "host_rows u d = filter (\<lambda>l. gh_UserID l = u) (ld_hosts d)"

definition github_row_of :: "pg_uuid \<Rightarrow> link_db \<Rightarrow> github_link option" where
  "github_row_of u d = find (\<lambda>l. gl_UserID l = u) (ld_github d)"

definition same_links :: "pg_uuid \<Rightarrow> link_db \<Rightarrow> link_db \<Rightarrow> bool" where
  "same_links u d d' = (github_row_of u d' = github_row_of u d \<and> host_rows u d' = host_rows u d)"

lemma same_links_refl [simp]: "same_links u d d"
  by (simp add: same_links_def)

lemma same_links_trans: "same_links u d d1 \<Longrightarrow> same_links u d1 d2 \<Longrightarrow> same_links u d d2"
  by (simp add: same_links_def)

definition same_secrets :: "'st store_ops \<Rightarrow> pg_uuid \<Rightarrow> 'st \<Rightarrow> 'st \<Rightarrow> bool" where
  "same_secrets S u st st' = (\<forall>p. own_path u p \<longrightarrow> Get S st' p = Get S st p)"

lemma same_secrets_refl [simp]: "same_secrets S u st st"
  by (simp add: same_secrets_def)

definition same_creds :: "'st store_ops \<Rightarrow> pg_uuid \<Rightarrow> 'st token_source \<Rightarrow> 'st token_source \<Rightarrow> bool" where
  "same_creds S u ts ts' = (same_links u (tk_db ts) (tk_db ts') \<and> same_secrets S u (tk_store ts) (tk_store ts') \<and> tk_client ts' = tk_client ts)"

lemma same_creds_refl [simp]: "same_creds S u ts ts"
  by (simp add: same_creds_def)

lemma same_user_trans: "same_creds S u a b \<Longrightarrow> same_creds S u b c \<Longrightarrow> same_creds S u a c"
  by (auto simp: same_creds_def same_secrets_def intro: same_links_trans)

lemma Upsert_same_links: "UpsertGitHubLink c d v meta ref = Inr (d', l) \<Longrightarrow> v \<noteq> u \<Longrightarrow> same_links u d d'"
  using Upsert_Get(1,6) by (fastforce simp: same_links_def github_row_of_def host_rows_def)

lemma markRevoked_same: "markRevoked k d v meta = (d', r) \<Longrightarrow> v \<noteq> u \<Longrightarrow> same_links u d d'"
  by (auto simp: markRevoked_def intro: Upsert_same_links split: option.splits sum.splits)

lemma filter_upsert_other:
  assumes "\<And>l. p l \<Longrightarrow> \<not> q l" "\<And>l. p l \<Longrightarrow> \<not> q (f l)" "\<not> q new"
  shows "filter q (upsert p f new rs) = filter q rs"
proof -
  have "filter q (tbl_update p f rs) = filter q rs" using assms(1,2) by (induction rs) auto
  then show ?thesis using assms(3) by (simp add: upsert_def split: option.splits)
qed

lemma UpsertHost_same_links: "UpsertGitHostLink c d v hst meta ref = Inr (d', l) \<Longrightarrow> v \<noteq> u \<Longrightarrow> same_links u d d'"
  by (auto simp: UpsertGitHostLink_def run_stmt_def Let_def same_links_def github_row_of_def host_rows_def host_key_def
      intro!: filter_upsert_other split: option.splits if_splits)

lemma filter_tbl_delete_other: "(\<And>l. p l \<Longrightarrow> \<not> q l) \<Longrightarrow> filter q (tbl_delete p rs) = filter q rs"
  by (induction rs) auto

lemma DeleteHost_same_links: "DeleteGitHostLink c d v hst = Inr d' \<Longrightarrow> v \<noteq> u \<Longrightarrow> same_links u d d'"
  by (auto simp: DeleteGitHostLink_def run_stmt_def same_links_def github_row_of_def host_rows_def host_key_def
      intro!: filter_tbl_delete_other split: option.splits)

lemma set_github_same [simp]: "set_user_github c d v g = Inr d' \<Longrightarrow> same_links u d d' \<and> ld_github d' = ld_github d \<and> ld_hosts d' = ld_hosts d"
  by (auto simp: set_user_github_def same_links_def github_row_of_def host_rows_def split: sum.splits)

lemma unset_same [simp]: "same_creds S u ts (unsetUserGitHub k ts v)" "tk_store (unsetUserGitHub k ts v) = tk_store ts"
  "ld_github (tk_db (unsetUserGitHub k ts v)) = ld_github (tk_db ts)" "ld_hosts (tk_db (unsetUserGitHub k ts v)) = ld_hosts (tk_db ts)"
  by (auto simp: unsetUserGitHub_def same_creds_def split: sum.splits)

section \<open>The invariant of the links\<close>

lemma links_ok_same: "ld_github d' = ld_github d \<Longrightarrow> ld_hosts d' = ld_hosts d \<Longrightarrow> links_ok d \<Longrightarrow> links_ok d'"
  by (simp add: links_ok_def)

lemma markRevoked_ok:
  assumes "links_ok d" "l \<in> set (ld_github d)" "gl_UserID l = uid" "markRevoked k d uid (gl_Metadata l) = (d', res)"
  shows "links_ok d'"
proof -
  obtain a b s r where m: "gl_Metadata l = grant_meta a b s r" using assms(1,2) by (auto simp: links_ok_def)
  from markRevoked_cases [OF assms(4) [unfolded m]] show ?thesis
  proof
    assume "res = Inr () \<and> (\<exists>l l'. find (\<lambda>l. gl_UserID l = uid) (ld_github d) = Some l
        \<and> UpsertGitHubLink (kx_mark k) d uid (grant_meta a b s True) (gl_SecretRef l) = Inr (d', l'))"
    then obtain l1 l' where f: "find (\<lambda>l. gl_UserID l = uid) (ld_github d) = Some l1"
      and up: "UpsertGitHubLink (kx_mark k) d uid (grant_meta a b s True) (gl_SecretRef l1) = Inr (d', l')" by blast
    from f have "l1 \<in> set (ld_github d)" "gl_UserID l1 = uid" by (auto simp: find_Some_iff)
    with assms(1) have "gl_SecretRef l1 = UserGitHubPath (UUIDString uid)" by (auto simp: links_ok_def)
    with Upsert_links_ok [OF assms(1)] up show ?thesis by simp
  qed (use assms(1) in blast)
qed

lemma UpsertHost_ok:
  assumes "links_ok d" "UpsertGitHostLink c d u h meta (UserGitHostPath (UUIDString u) h) = Inr (d', l)"
  shows "links_ok d'"
proof -
  let ?ref = "UserGitHostPath (UUIDString u) h"
  let ?f = "\<lambda>l. l\<lparr>gh_Metadata := meta, gh_SecretRef := ?ref, gh_UpdatedAt := ac_now c\<rparr>"
  let ?new = "\<lparr>gh_UserID = u, gh_Host = h, gh_Metadata = meta, gh_SecretRef = ?ref, gh_CreatedAt = ac_now c, gh_UpdatedAt = ac_now c\<rparr>"
  have d': "d' = d\<lparr>ld_hosts := upsert (host_key u h) ?f ?new (ld_hosts d)\<rparr>"
    using assms(2) by (auto simp: UpsertGitHostLink_def run_stmt_def Let_def split: option.splits if_splits)
  have "distinct (map (\<lambda>l. (gh_UserID l, gh_Host l)) (upsert (host_key u h) ?f ?new (ld_hosts d)))"
    by (rule map_key_upsert) (use assms(1) in \<open>auto simp: links_ok_def host_key_def\<close>)
  moreover have "gh_SecretRef l = UserGitHostPath (UUIDString (gh_UserID l)) (gh_Host l)" if "l \<in> set (upsert (host_key u h) ?f ?new (ld_hosts d))" for l
    using subsetD [OF set_upsert that] assms(1) unfolding links_ok_def by (fastforce simp: host_key_def)
  ultimately show ?thesis using assms(1) by (simp add: d' links_ok_def)
qed

lemma DeleteHost_ok: "links_ok d \<Longrightarrow> DeleteGitHostLink c d u h = Inr d' \<Longrightarrow> links_ok d'"
  by (auto simp: DeleteGitHostLink_def run_stmt_def links_ok_def tbl_delete_def distinct_map inj_on_def split: option.splits)

section \<open>The branches of the token operations\<close>

lemma Token_eq:
  assumes "ctx_ok k" "proper_uuid v"
  shows "Token S k ts (UUIDString v) = (case load_link k ts v of Inl e \<Rightarrow> (ts, Inl e)
    | Inr link \<Rightarrow> if metadataRevoked (gl_Metadata link) then (ts, Inl (Sentinel ErrReconnectGitHub))
        else case read_tokens S ts (gl_SecretRef link) of Inl e \<Rightarrow> (ts, Inl e)
        | Inr data \<Rightarrow> (case fresh_cred k data of Some cred \<Rightarrow> (ts, Inr cred)
            | None \<Rightarrow> refreshLocked S k ts v (gl_SecretRef link) (gl_Metadata link) data))"
  using assms by (simp add: Token_def ctx_ok_def)

lemma ForceRefresh_eq:
  assumes "ctx_ok k" "proper_uuid v"
  shows "ForceRefresh S k ts (UUIDString v) = (case load_link k ts v of Inl e \<Rightarrow> (ts, Inl e)
    | Inr link \<Rightarrow> (case read_tokens S ts (gl_SecretRef link) of Inl e \<Rightarrow> (ts, Inl e)
        | Inr data \<Rightarrow> refreshLocked S k ts v (gl_SecretRef link) (gl_Metadata link) data))"
  using assms by (simp add: ForceRefresh_def ctx_ok_def)

lemma Token_cases:
  assumes "ctx_ok k" "proper_uuid v" "Token S k ts (UUIDString v) = (ts', r)"
  shows "ts' = ts \<or> (\<exists>l data. load_link k ts v = Inr l \<and> read_tokens S ts (gl_SecretRef l) = Inr data
    \<and> refreshLocked S k ts v (gl_SecretRef l) (gl_Metadata l) data = (ts', r))"
proof (cases "load_link k ts v")
  case (Inr l)
  then show ?thesis using assms(3) unfolding Token_eq [OF assms(1,2)]
    by (cases "read_tokens S ts (gl_SecretRef l)") (auto split: if_splits option.splits)
next
  case (Inl e)
  then show ?thesis using assms(3) unfolding Token_eq [OF assms(1,2)] by simp
qed

lemma ForceRefresh_cases:
  assumes "ctx_ok k" "proper_uuid v" "ForceRefresh S k ts (UUIDString v) = (ts', r)"
  shows "ts' = ts \<and> (\<exists>e. r = Inl e) \<or> (\<exists>l data. load_link k ts v = Inr l \<and> read_tokens S ts (gl_SecretRef l) = Inr data
    \<and> refreshLocked S k ts v (gl_SecretRef l) (gl_Metadata l) data = (ts', r))"
proof (cases "load_link k ts v")
  case (Inr l)
  then show ?thesis using assms(3) unfolding ForceRefresh_eq [OF assms(1,2)]
    by (cases "read_tokens S ts (gl_SecretRef l)") auto
next
  case (Inl e)
  then show ?thesis using assms(3) unfolding ForceRefresh_eq [OF assms(1,2)] by auto
qed

text \<open>Nothing written, a grant marked as revoked, or a new pair.\<close>

lemma refreshLocked_cases:
  assumes "refreshLocked S k ts v ref meta data = (ts', r)"
  shows "ts' = ts \<and> (\<exists>e. r = Inl e)
    \<or> (\<exists>e d' r'. gh_Refresh (kx_gh k) (tk_client ts) (fld data fieldRefreshToken) = Inl e \<and> errors_Is e ErrBadRefreshToken
        \<and> markRevoked k (tk_db ts) v meta = (d', r') \<and> ts' = ts\<lparr>tk_db := d'\<rparr> \<and> (\<exists>e. r = Inl e)
        \<and> (r = Inl (Sentinel ErrReconnectGitHub) \<longrightarrow> r' = Inr ()))
    \<or> (\<exists>t. gh_Refresh (kx_gh k) (tk_client ts) (fld data fieldRefreshToken) = Inr t \<and> persist_pair S k ts v ref t = (ts', r))"
proof (cases "fld data fieldRefreshToken = []")
  case False
  show ?thesis
  proof (cases "gh_Refresh (kx_gh k) (tk_client ts) (fld data fieldRefreshToken)")
    case (Inl e)
    obtain d' r' where m: "markRevoked k (tk_db ts) v meta = (d', r')" by fastforce
    show ?thesis using assms False Inl m unfolding refreshLocked_def
      by (cases "errors_Is e ErrBadRefreshToken"; cases r') auto
  next
    case (Inr t)
    then show ?thesis using assms False unfolding refreshLocked_def by simp
  qed
qed (use assms in \<open>auto simp: refreshLocked_def\<close>)

section \<open>Over any store that keeps its contract\<close>

definition git_ok :: "('st \<Rightarrow> bool) \<Rightarrow> 'st token_source \<Rightarrow> bool" where
  "git_ok sinv ts = (links_ok (tk_db ts) \<and> sinv (tk_store ts))"

context secret_store
begin

lemma put_same:
  assumes "sinv st" "Put S st p x = (st', r)" "own_path v p" "proper_uuid u" "proper_uuid v" "v \<noteq> u"
  shows "same_secrets S u st st'"
  unfolding same_secrets_def
proof (intro allI impI)
  fix q
  assume "own_path u q"
  then have "q \<noteq> p" using own_path_unique [OF assms(4,5) _ assms(3)] assms(6) by metis
  then show "Get S st' q = Get S st q" by (rule put_other [OF assms(1,2)])
qed

lemma delete_same:
  assumes "sinv st" "Delete S st p = (st', r)" "own_path v p" "proper_uuid u" "proper_uuid v" "v \<noteq> u"
  shows "same_secrets S u st st'"
  unfolding same_secrets_def
proof (intro allI impI)
  fix q
  assume "own_path u q"
  then have "q \<noteq> p" using own_path_unique [OF assms(4,5) _ assms(3)] assms(6) by metis
  then show "Get S st' q = Get S st q" by (rule delete_other [OF assms(1,2)])
qed

text \<open>What an operation of user \<open>v\<close> gives: the invariant, and nothing of another user has changed.\<close>

definition good_op :: "pg_uuid \<Rightarrow> 'st token_source \<Rightarrow> 'st token_source \<Rightarrow> bool" where
  "good_op v ts ts' = (git_ok sinv ts' \<and> (\<forall>u. proper_uuid u \<longrightarrow> u \<noteq> v \<longrightarrow> same_creds S u ts ts'))"

lemma good_refl: "git_ok sinv ts \<Longrightarrow> good_op v ts ts"
  by (simp add: good_op_def)

lemma good_trans: "good_op v a b \<Longrightarrow> good_op v b c \<Longrightarrow> good_op v a c"
  by (auto simp: good_op_def intro: same_user_trans)

lemma good_store:
  assumes "git_ok sinv ts" "sinv st" "\<And>u. proper_uuid u \<Longrightarrow> u \<noteq> v \<Longrightarrow> same_secrets S u (tk_store ts) st"
  shows "good_op v ts (ts\<lparr>tk_store := st\<rparr>)"
proof -
  have "links_ok (tk_db ts)" using assms(1) unfolding git_ok_def by blast
  then show ?thesis using assms(2,3) unfolding good_op_def git_ok_def same_creds_def by simp
qed

lemma good_put:
  assumes "git_ok sinv ts" "Put S (tk_store ts) p x = (st, r)" "own_path v p" "proper_uuid v"
  shows "good_op v ts (ts\<lparr>tk_store := st\<rparr>)"
proof (rule good_store [OF assms(1)])
  have i: "sinv (tk_store ts)" using assms(1) unfolding git_ok_def by blast
  show "sinv st" by (rule put_inv [OF i assms(2)])
  show "same_secrets S u (tk_store ts) st" if "proper_uuid u" "u \<noteq> v" for u
    by (rule put_same [OF i assms(2,3) that(1) assms(4)]) (use that in blast)
qed

lemma good_delete:
  assumes "git_ok sinv ts" "Delete S (tk_store ts) p = (st, r)" "own_path v p" "proper_uuid v"
  shows "good_op v ts (ts\<lparr>tk_store := st\<rparr>)"
proof (rule good_store [OF assms(1)])
  have i: "sinv (tk_store ts)" using assms(1) unfolding git_ok_def by blast
  show "sinv st" by (rule delete_inv [OF i assms(2)])
  show "same_secrets S u (tk_store ts) st" if "proper_uuid u" "u \<noteq> v" for u
    by (rule delete_same [OF i assms(2,3) that(1) assms(4)]) (use that in blast)
qed

lemma good_db:
  assumes "git_ok sinv ts" "links_ok d'" "\<And>u. u \<noteq> v \<Longrightarrow> same_links u (tk_db ts) d'"
  shows "good_op v ts (ts\<lparr>tk_db := d'\<rparr>)"
  using assms by (auto simp: good_op_def git_ok_def same_creds_def)

lemma good_upsert:
  assumes "git_ok sinv ts" "UpsertGitHubLink c (tk_db ts) v (grant_meta a b s r) (UserGitHubPath (UUIDString v)) = Inr (d', l)"
  shows "good_op v ts (ts\<lparr>tk_db := d'\<rparr>)"
  using assms Upsert_links_ok Upsert_same_links by (intro good_db) (auto simp: git_ok_def)

lemma good_persist:
  assumes "git_ok sinv ts" "persist_pair S k ts v (UserGitHubPath (UUIDString v)) t = (ts', r)" "proper_uuid v"
  shows "good_op v ts ts'"
proof -
  obtain st r1 where put: "Put S (tk_store ts) (UserGitHubPath (UUIDString v)) (token_fields (kx_gh k) (ac_time (kx_stmt k)) t) = (st, r1)"
    by (cases "Put S (tk_store ts) (UserGitHubPath (UUIDString v)) (token_fields (kx_gh k) (ac_time (kx_stmt k)) t)")
  have 1: "good_op v ts (ts\<lparr>tk_store := st\<rparr>)" by (rule good_put [OF assms(1) put _ assms(3)]) simp
  then have ok: "git_ok sinv (ts\<lparr>tk_store := st\<rparr>)" by (simp add: good_op_def)
  let ?up = "UpsertGitHubLink (kx_stmt k) (tk_db ts) v
      (grant_meta (gt_ExpiresIn t) (gt_RefreshTokenExpiresIn t) (gt_Scope t) False) (UserGitHubPath (UUIDString v))"
  consider "ts' = ts\<lparr>tk_store := st\<rparr>" | d' l where "?up = Inr (d', l)" "ts' = ts\<lparr>tk_store := st\<rparr>\<lparr>tk_db := d'\<rparr>"
    using assms(2) put by (cases r1; cases ?up) (auto simp: persist_pair_def Let_def)
  then show ?thesis
  proof cases
    case (2 d' l)
    have "good_op v (ts\<lparr>tk_store := st\<rparr>) (ts\<lparr>tk_store := st\<rparr>\<lparr>tk_db := d'\<rparr>)"
      by (rule good_upsert [OF ok]) (use 2(1) in simp)
    with 2(2) show ?thesis using good_trans [OF 1] by simp
  qed (use 1 in simp)
qed

lemma good_refreshLocked:
  assumes "git_ok sinv ts" "proper_uuid v" "l \<in> set (ld_github (tk_db ts))" "gl_UserID l = v"
    "refreshLocked S k ts v (gl_SecretRef l) (gl_Metadata l) data = (ts', r)"
  shows "good_op v ts ts'"
proof -
  have ref: "gl_SecretRef l = UserGitHubPath (UUIDString v)" using assms(1,3,4) by (auto simp: git_ok_def links_ok_def)
  from refreshLocked_cases [OF assms(5)] consider (same) "ts' = ts"
    | (mark) d' r' where "markRevoked k (tk_db ts) v (gl_Metadata l) = (d', r')" "ts' = ts\<lparr>tk_db := d'\<rparr>"
    | (persist) t where "persist_pair S k ts v (gl_SecretRef l) t = (ts', r)" by blast
  then show ?thesis
  proof cases
    case (mark d' r')
    have "links_ok (tk_db ts)" using assms(1) unfolding git_ok_def by blast
    then have "links_ok d'" by (rule markRevoked_ok [OF _ assms(3,4) mark(1)])
    then show ?thesis unfolding mark(2) using markRevoked_same [OF mark(1)] by (intro good_db [OF assms(1)]) (simp, metis)
  next
    case (persist t)
    then show ?thesis unfolding ref by (rule good_persist [OF assms(1) _ assms(2)])
  next
    case same
    then show ?thesis using good_refl [OF assms(1)] by simp
  qed
qed

lemma good_Token:
  assumes "git_ok sinv ts" "proper_uuid v" "ctx_ok k" "Token S k ts (UUIDString v) = (ts', r)"
  shows "good_op v ts ts'"
  using Token_cases [OF assms(3,2,4)]
proof
  assume "ts' = ts"
  then show ?thesis using good_refl [OF assms(1)] by simp
next
  assume "\<exists>l data. load_link k ts v = Inr l \<and> read_tokens S ts (gl_SecretRef l) = Inr data
    \<and> refreshLocked S k ts v (gl_SecretRef l) (gl_Metadata l) data = (ts', r)"
  then obtain l data where l: "load_link k ts v = Inr l" and r: "refreshLocked S k ts v (gl_SecretRef l) (gl_Metadata l) data = (ts', r)" by blast
  from load_link_row [OF l] have "l \<in> set (ld_github (tk_db ts))" "gl_UserID l = v" by blast+
  from good_refreshLocked [OF assms(1,2) this r] show ?thesis .
qed

lemma good_ForceRefresh:
  assumes "git_ok sinv ts" "proper_uuid v" "ctx_ok k" "ForceRefresh S k ts (UUIDString v) = (ts', r)"
  shows "good_op v ts ts'"
  using ForceRefresh_cases [OF assms(3,2,4)]
proof
  assume "ts' = ts \<and> (\<exists>e. r = Inl e)"
  then show ?thesis using good_refl [OF assms(1)] by simp
next
  assume "\<exists>l data. load_link k ts v = Inr l \<and> read_tokens S ts (gl_SecretRef l) = Inr data
    \<and> refreshLocked S k ts v (gl_SecretRef l) (gl_Metadata l) data = (ts', r)"
  then obtain l data where l: "load_link k ts v = Inr l" and r: "refreshLocked S k ts v (gl_SecretRef l) (gl_Metadata l) data = (ts', r)" by blast
  from load_link_row [OF l] have "l \<in> set (ld_github (tk_db ts))" "gl_UserID l = v" by blast+
  from good_refreshLocked [OF assms(1,2) this r] show ?thesis .
qed

lemma good_unset: "git_ok sinv ts \<Longrightarrow> good_op v ts (unsetUserGitHub k ts v)"
proof -
  assume ok: "git_ok sinv ts"
  then have "links_ok (tk_db ts)" by (simp add: git_ok_def)
  then have "links_ok (tk_db (unsetUserGitHub k ts v))" by (rule links_ok_same [OF unset_same(3,4)])
  with ok show ?thesis by (simp add: good_op_def git_ok_def)
qed

lemma good_store_grant:
  assumes "git_ok sinv ts" "proper_uuid (us_ID user)" "store_grant S k ts user tok = (ts', b)"
  shows "good_op (us_ID user) ts ts'"
proof -
  let ?v = "us_ID user"
  let ?ref = "UserGitHubPath (UUIDString ?v)"
  let ?up = "UpsertGitHubLink (kx_stmt k) (tk_db ts) ?v (grant_meta (gt_ExpiresIn tok) (gt_RefreshTokenExpiresIn tok) (gt_Scope tok) False) ?ref"
  obtain st r1 where put: "Put S (tk_store ts) ?ref (token_fields (kx_gh k) (ac_time (kx_stmt k)) tok) = (st, r1)"
    by (cases "Put S (tk_store ts) ?ref (token_fields (kx_gh k) (ac_time (kx_stmt k)) tok)")
  have 1: "good_op ?v ts (ts\<lparr>tk_store := st\<rparr>)" by (rule good_put [OF assms(1) put _ assms(2)]) simp
  then have ok: "git_ok sinv (ts\<lparr>tk_store := st\<rparr>)" by (simp add: good_op_def)
  consider "ts' = unsetUserGitHub k (ts\<lparr>tk_store := st\<rparr>) ?v" | d' l where "?up = Inr (d', l)" "ts' = ts\<lparr>tk_store := st\<rparr>\<lparr>tk_db := d'\<rparr>"
    using assms(3) put by (cases r1; cases ?up) (auto simp: store_grant_def Let_def)
  then show ?thesis
  proof cases
    case 1
    then show ?thesis using good_trans [OF \<open>good_op ?v ts (ts\<lparr>tk_store := st\<rparr>)\<close> good_unset [OF ok]] by simp
  next
    case (2 d' l)
    have "good_op ?v (ts\<lparr>tk_store := st\<rparr>) (ts\<lparr>tk_store := st\<rparr>\<lparr>tk_db := d'\<rparr>)"
      by (rule good_upsert [OF ok]) (use 2(1) in simp)
    with 2(2) show ?thesis using good_trans [OF 1] by simp
  qed
qed

lemma good_link_account:
  assumes "git_ok sinv (ga_ts s)" "proper_uuid (us_ID user)"
  shows "good_op (us_ID user) (ga_ts s) (ga_ts (fst (link_account S k s user tok gu)))"
proof (cases "set_user_github (kx_stmt k) (tk_db (ga_ts s)) (us_ID user) (Some (gu_ID gu))")
  case (Inl e)
  then show ?thesis using good_refl [OF assms(1)] by (simp add: link_account_def)
next
  case (Inr d)
  have l: "ld_github d = ld_github (tk_db (ga_ts s))" "ld_hosts d = ld_hosts (tk_db (ga_ts s))" "\<And>u. same_links u (tk_db (ga_ts s)) d"
    using set_github_same [OF Inr] by blast+
  have 1: "good_op (us_ID user) (ga_ts s) (ga_ts s\<lparr>tk_db := d\<rparr>)"
    using l assms(1) links_ok_same [OF l(1,2)] by (intro good_db) (auto simp: git_ok_def)
  then have ok: "git_ok sinv (ga_ts s\<lparr>tk_db := d\<rparr>)" by (simp add: good_op_def)
  obtain ts' b where g: "store_grant S k (ga_ts s\<lparr>tk_db := d\<rparr>) user tok = (ts', b)" by fastforce
  have "ga_ts (fst (link_account S k s user tok gu)) = ts'"
    using Inr g by (cases b) (simp_all add: link_account_def git_audit_def)
  with good_trans [OF 1 good_store_grant [OF ok assms(2) g]] show ?thesis by simp
qed

lemma good_callback:
  assumes "git_ok sinv (ga_ts s)" "proper_uuid (us_ID user)"
  shows "good_op (us_ID user) (ga_ts s) (ga_ts (fst (GitHubCallback S cfg allowed k s user r)))"
proof -
  have x: "good_op (us_ID user) (ga_ts s) (ga_ts (fst (exchange_code S cfg allowed k s user code)))" for code
    using good_link_account [OF assms] good_refl [OF assms(1)]
    by (simp add: exchange_code_def split: sum.split)
  have "fst (GitHubCallback S cfg allowed k s user r) = s
      \<or> fst (GitHubCallback S cfg allowed k s user r) = fst (exchange_code S cfg allowed k s user (br_query r ''code''))"
    by (simp add: GitHubCallback_def Let_def split: prod.split option.split)
  with x good_refl [OF assms(1)] show ?thesis by metis
qed

lemma good_save_host:
  assumes "git_ok sinv (ga_ts s)" "proper_uuid (us_ID user)"
  shows "good_op (us_ID user) (ga_ts s) (ga_ts (fst (save_host_token S k s user h token login)))"
proof -
  let ?v = "us_ID user"
  let ?ts = "ga_ts s"
  let ?ref = "UserGitHostPath (UUIDString ?v) h"
  let ?up = "UpsertGitHostLink (kx_stmt k) (tk_db ?ts) ?v h (JObj [jstr ''login'' login]) ?ref"
  obtain st r1 where put: "Put S (tk_store ?ts) ?ref (host_fields token login) = (st, r1)" by fastforce
  have 1: "good_op ?v ?ts (?ts\<lparr>tk_store := st\<rparr>)" by (rule good_put [OF assms(1) put _ assms(2)]) simp
  then have ok: "git_ok sinv (?ts\<lparr>tk_store := st\<rparr>)" by (simp add: good_op_def)
  consider "ga_ts (fst (save_host_token S k s user h token login)) = ?ts\<lparr>tk_store := st\<rparr>"
    | d' l where "?up = Inr (d', l)" "ga_ts (fst (save_host_token S k s user h token login)) = ?ts\<lparr>tk_store := st\<rparr>\<lparr>tk_db := d'\<rparr>"
    using put by (cases r1; cases ?up) (auto simp: save_host_token_def Let_def git_audit_def)
  then show ?thesis
  proof cases
    case (2 d' l)
    have "links_ok (tk_db ?ts)" using assms(1) by (simp add: git_ok_def)
    then have "links_ok d'" by (rule UpsertHost_ok) (use 2(1) in simp)
    then have "good_op ?v (?ts\<lparr>tk_store := st\<rparr>) (?ts\<lparr>tk_store := st\<rparr>\<lparr>tk_db := d'\<rparr>)"
      using UpsertHost_same_links [OF 2(1)] by (intro good_db [OF ok]) (simp, fastforce)
    with 2(2) show ?thesis using good_trans [OF 1] by simp
  qed (use 1 in simp)
qed

lemma good_set_host:
  assumes "git_ok sinv (ga_ts s)" "proper_uuid (us_ID user)"
  shows "good_op (us_ID user) (ga_ts s) (ga_ts (fst (handleSetGitHostToken S hosts g k s (Some user) path body)))"
  using good_save_host [OF assms] good_refl [OF assms(1)]
  by (simp add: handleSetGitHostToken_def Let_def split: option.split sum.split)

lemma good_delete_host:
  assumes "git_ok sinv (ga_ts s)" "proper_uuid (us_ID user)"
  shows "good_op (us_ID user) (ga_ts s) (ga_ts (fst (handleDeleteGitHostToken S k s (Some user) path)))"
proof -
  let ?v = "us_ID user"
  let ?ts = "ga_ts s"
  let ?h = "ToLower path"
  let ?del = "DeleteGitHostLink (kx_stmt k) (tk_db ?ts) ?v ?h"
  obtain st r1 where del: "Delete S (tk_store ?ts) (UserGitHostPath (UUIDString ?v) ?h) = (st, r1)" by fastforce
  have 1: "good_op ?v ?ts (?ts\<lparr>tk_store := st\<rparr>)" by (rule good_delete [OF assms(1) del _ assms(2)]) simp
  then have ok: "git_ok sinv (?ts\<lparr>tk_store := st\<rparr>)" by (simp add: good_op_def)
  consider "ga_ts (fst (handleDeleteGitHostToken S k s (Some user) path)) = ?ts\<lparr>tk_store := st\<rparr>"
    | d' where "?del = Inr d'" "ga_ts (fst (handleDeleteGitHostToken S k s (Some user) path)) = ?ts\<lparr>tk_store := st\<rparr>\<lparr>tk_db := d'\<rparr>"
    using del by (cases r1; cases ?del) (auto simp: handleDeleteGitHostToken_def Let_def git_audit_def)
  then show ?thesis
  proof cases
    case (2 d')
    have "links_ok (tk_db ?ts)" using assms(1) by (simp add: git_ok_def)
    then have "links_ok d'" by (rule DeleteHost_ok) (use 2(1) in simp)
    then have "good_op ?v (?ts\<lparr>tk_store := st\<rparr>) (?ts\<lparr>tk_store := st\<rparr>\<lparr>tk_db := d'\<rparr>)"
      using DeleteHost_same_links [OF 2(1)] by (intro good_db [OF ok]) (simp, fastforce)
    with 2(2) show ?thesis using good_trans [OF 1] by simp
  qed (use 1 in simp)
qed

lemma good_exec:
  assumes "git_ok sinv (ga_ts s)" "event_ok (k, ev)"
  shows "good_op (event_user ev) (ga_ts s) (ga_ts (git_exec S s (k, ev)))"
proof (cases ev)
  case (EvToken u)
  with assms(2) have "proper_uuid u" "ctx_ok k" by (simp_all add: event_ok_def)
  then show ?thesis using good_Token [OF assms(1) _ _ prod.collapse [symmetric]] EvToken by (simp add: with_ts_def)
next
  case (EvForce u)
  with assms(2) have "proper_uuid u" "ctx_ok k" by (simp_all add: event_ok_def)
  then show ?thesis using good_ForceRefresh [OF assms(1) _ _ prod.collapse [symmetric]] EvForce by (simp add: with_ts_def)
qed (use assms good_callback good_set_host good_delete_host in \<open>simp_all add: event_ok_def\<close>)

text \<open>A run keeps the invariant, and events of others leave a user's links and secrets as they were.\<close>

lemma run_ok:
  assumes "git_ok sinv (ga_ts s)" "list_all event_ok evs"
  shows "git_ok sinv (ga_ts (git_run S s evs))"
  using assms
proof (induction evs arbitrary: s)
  case (Cons e evs)
  obtain k ev where e: "e = (k, ev)" by (cases e)
  from good_exec [OF Cons.prems(1), of k ev] Cons.prems(2) e have "git_ok sinv (ga_ts (git_exec S s e))" by (simp add: good_op_def)
  from Cons.IH [OF this] Cons.prems(2) show ?case by (simp add: git_run_def)
qed (simp add: git_run_def)

lemma run_isolated:
  assumes "git_ok sinv (ga_ts s)" "list_all event_ok evs" "proper_uuid u" "list_all (\<lambda>e. event_user (snd e) \<noteq> u) evs"
  shows "same_creds S u (ga_ts s) (ga_ts (git_run S s evs))"
  using assms
proof (induction evs arbitrary: s)
  case (Cons e evs)
  obtain k ev where e: "e = (k, ev)" by (cases e)
  from good_exec [OF Cons.prems(1), of k ev] Cons.prems(2,3,4) e
  have 1: "git_ok sinv (ga_ts (git_exec S s e))" and 2: "same_creds S u (ga_ts s) (ga_ts (git_exec S s e))"
    by (auto simp: good_op_def)
  from same_user_trans [OF 2 Cons.IH [OF 1]] Cons.prems(2-4) show ?case by (simp add: git_run_def)
qed (simp add: git_run_def)

end

end
