(* ===== verification/Git_Claims.thy ===== *)
theory Git_Claims
  imports Git_System
begin

text \<open>
  The properties of the git credentials: whose they are, how long an issued token lasts, what a dead
  grant means, and what connecting an account leaves behind. A secret store enters through its
  contract, the locale predicate \<open>secret_store\<close>.
\<close>

section \<open>Grants and tokens\<close>

text \<open>
  The time format in a run: one printer and one parser, inverse to each other up to a second for
  instants of the years 1970 to 9999.
\<close>

definition max_instant :: int where "max_instant = 253402300800 * 1000000000"

definition fmt_ok :: "(int \<Rightarrow> string) \<Rightarrow> (string \<Rightarrow> int option) \<Rightarrow> bool" where
  "fmt_ok fmt prs = (\<forall>t. 0 \<le> t \<longrightarrow> t < max_instant \<longrightarrow> fmt t \<noteq> [] \<and> prs (fmt t) = Some (t - t mod 1000000000))"

definition ctx_fmt :: "(int \<Rightarrow> string) \<Rightarrow> (string \<Rightarrow> int option) \<Rightarrow> tokenctx \<Rightarrow> bool" where
  "ctx_fmt fmt prs k = (hx_format (kx_gh k) = fmt \<and> hx_parse (kx_gh k) = prs)"

text \<open>A usable token \<open>a\<close> of user \<open>u\<close> whose stored expiry is within a second of \<open>e\<close>.\<close>

definition holds_token :: "'st store_ops \<Rightarrow> (string \<Rightarrow> int option) \<Rightarrow> 'st token_source \<Rightarrow> pg_uuid \<Rightarrow> string \<Rightarrow> int \<Rightarrow> bool" where
  "holds_token S prs ts u a e = (\<exists>l data t. github_row_of u (tk_db ts) = Some l \<and> \<not> metadataRevoked (gl_Metadata l)
     \<and> own_path u (gl_SecretRef l) \<and> Get S (tk_store ts) (gl_SecretRef l) = Inr data \<and> a \<noteq> [] \<and> fld data fieldAccessToken = a
     \<and> fld data fieldAccessExpiresAt \<noteq> [] \<and> prs (fld data fieldAccessExpiresAt) = Some t \<and> e < t + 1000000000)"

lemma holds_same: "holds_token S prs ts u a e \<Longrightarrow> same_creds S u ts ts' \<Longrightarrow> holds_token S prs ts' u a e"
  unfolding holds_token_def same_creds_def same_links_def same_secrets_def by metis

lemma load_link_find: "load_link k ts u = Inr l \<Longrightarrow> github_row_of u (tk_db ts) = Some l"
  by (drule load_link_row) (simp add: github_row_of_def)

lemma load_link_of_row:
  "github_row_of u (tk_db ts) = Some l \<Longrightarrow> (\<exists>e. load_link k ts u = Inl e) \<or> load_link k ts u = Inr l"
  "github_row_of u (tk_db ts) = Some l \<Longrightarrow> ac_fault (kx_stmt k) ''GetGitHubLink'' = None \<Longrightarrow> load_link k ts u = Inr l"
  by (auto simp: load_link_def GetGitHubLink_def run_stmt_def row_of_def github_row_of_def split: option.splits)

lemma holds_fresh:
  assumes "holds_token S (hx_parse (kx_gh k)) ts u a e" "ac_time (kx_stmt k) + refreshSkew + 1000000000 \<le> e" "ctx_ok k" "proper_uuid u"
  shows "\<exists>r. Token S k ts (UUIDString u) = (ts, r) \<and> (\<forall>c. r = Inr c \<longrightarrow> cr_AccessToken c = a)
    \<and> (ac_fault (kx_stmt k) ''GetGitHubLink'' = None \<longrightarrow> (\<exists>c. r = Inr c))"
proof -
  obtain l data t where h: "github_row_of u (tk_db ts) = Some l" "\<not> metadataRevoked (gl_Metadata l)"
    "Get S (tk_store ts) (gl_SecretRef l) = Inr data" "a \<noteq> []" "fld data fieldAccessToken = a"
    "fld data fieldAccessExpiresAt \<noteq> []" "hx_parse (kx_gh k) (fld data fieldAccessExpiresAt) = Some t" "e < t + 1000000000"
    using assms(1) unfolding holds_token_def by blast
  have "fresh_cred k data = Some \<lparr>cr_AccessToken = a, cr_Expiry = Some t\<rparr>"
    using h assms(2) by (simp add: fresh_cred_def parseTime_def)
  moreover have "read_tokens S ts (gl_SecretRef l) = Inr data" using h(3) by (simp add: read_tokens_def)
  moreover have "(\<exists>e. load_link k ts u = Inl e) \<or> load_link k ts u = Inr l" by (rule load_link_of_row(1) [OF h(1)])
  moreover have "ac_fault (kx_stmt k) ''GetGitHubLink'' = None \<Longrightarrow> load_link k ts u = Inr l" by (rule load_link_of_row(2) [OF h(1)])
  ultimately show ?thesis using h(2) unfolding Token_eq [OF assms(3,4)] by (cases "load_link k ts u") auto
qed

lemma persist_Inr:
  assumes "persist_pair S k ts u ref t = (ts', Inr cred)"
  shows "\<exists>st d' l. Put S (tk_store ts) ref (token_fields (kx_gh k) (ac_time (kx_stmt k)) t) = (st, Inr ())
    \<and> UpsertGitHubLink (kx_stmt k) (tk_db ts) u (grant_meta (gt_ExpiresIn t) (gt_RefreshTokenExpiresIn t) (gt_Scope t) False) ref = Inr (d', l)
    \<and> ts' = ts\<lparr>tk_store := st, tk_db := d'\<rparr> \<and> cr_AccessToken cred = gt_AccessToken t
    \<and> cr_Expiry cred = Some (expiry_after (ac_time (kx_stmt k)) (gt_ExpiresIn t))"
proof -
  obtain st r where put: "Put S (tk_store ts) ref (token_fields (kx_gh k) (ac_time (kx_stmt k)) t) = (st, r)" by fastforce
  then show ?thesis using assms unfolding persist_pair_def
    by (cases r; cases "UpsertGitHubLink (kx_stmt k) (tk_db ts) u
      (grant_meta (gt_ExpiresIn t) (gt_RefreshTokenExpiresIn t) (gt_Scope t) False) ref") (auto simp: Let_def)
qed

lemma persist_holds:
  assumes "secret_store S sinv" "git_ok sinv ts" "persist_pair S k ts u (UserGitHubPath (UUIDString u)) t = (ts', Inr cred)"
    "fmt_ok fmt prs" "ctx_fmt fmt prs k" "gt_AccessToken t \<noteq> []" "cr_Expiry cred = Some e" "0 \<le> e" "e < max_instant"
  shows "holds_token S prs ts' u (cr_AccessToken cred) e"
proof -
  let ?ref = "UserGitHubPath (UUIDString u)"
  let ?data = "token_fields (kx_gh k) (ac_time (kx_stmt k)) t"
  obtain st d' l where put: "Put S (tk_store ts) ?ref ?data = (st, Inr ())"
    and up: "UpsertGitHubLink (kx_stmt k) (tk_db ts) u (grant_meta (gt_ExpiresIn t) (gt_RefreshTokenExpiresIn t) (gt_Scope t) False) ?ref = Inr (d', l)"
    and ts': "ts' = ts\<lparr>tk_store := st, tk_db := d'\<rparr>" and a: "cr_AccessToken cred = gt_AccessToken t"
    and e: "cr_Expiry cred = Some (expiry_after (ac_time (kx_stmt k)) (gt_ExpiresIn t))"
    using persist_Inr [OF assms(3)] by blast
  from assms(2) have "sinv (tk_store ts)" by (simp add: git_ok_def)
  then have "Get S st ?ref = Inr ?data" using put by (rule secret_store.get_put [OF assms(1)])
  moreover have "e = expiry_after (ac_time (kx_stmt k)) (gt_ExpiresIn t)" using e assms(7) by simp
  moreover have "fmt e \<noteq> [] \<and> prs (fmt e) = Some (e - e mod 1000000000)" using assms(4,8,9) unfolding fmt_ok_def by blast
  moreover have "e < e - e mod 1000000000 + 1000000000" by simp
  ultimately show ?thesis
    using Upsert_Get [OF up] assms(5,6) a unfolding holds_token_def ts' ctx_fmt_def github_row_of_def
    by (intro exI [of _ l] exI [of _ ?data] exI [of _ "e - e mod 1000000000"]) simp
qed

lemma issued_holds:
  assumes "secret_store S sinv" "git_ok sinv ts" "ctx_ok k" "proper_uuid u" "fmt_ok fmt prs" "ctx_fmt fmt prs k"
    "Token S k ts (UUIDString u) = (ts', Inr cred) \<or> ForceRefresh S k ts (UUIDString u) = (ts', Inr cred)"
    "cr_Expiry cred = Some e" "0 \<le> e" "e < max_instant"
  shows "holds_token S prs ts' u (cr_AccessToken cred) e"
proof -
  have links: "links_ok (tk_db ts)" using assms(2) by (simp add: git_ok_def)
  have ref: "gl_SecretRef l = UserGitHubPath (UUIDString u)" if "load_link k ts u = Inr l" for l
    using load_link_row [OF that] links by (auto simp: links_ok_def)
  have new: ?thesis if l: "load_link k ts u = Inr l" and r: "refreshLocked S k ts u (gl_SecretRef l) (gl_Metadata l) data = (ts', Inr cred)" for l data
  proof -
    obtain t where "gh_Refresh (kx_gh k) (tk_client ts) (fld data fieldRefreshToken) = Inr t"
      "persist_pair S k ts u (gl_SecretRef l) t = (ts', Inr cred)"
      using refreshLocked_cases [OF r] by blast
    then show ?thesis
      using persist_holds [OF assms(1,2) _ assms(5,6) gh_Refresh_token assms(8,9,10)] ref [OF l] by simp
  qed
  show ?thesis
  proof (cases "Token S k ts (UUIDString u) = (ts', Inr cred)")
    case True
    then obtain l data where l: "load_link k ts u = Inr l" "\<not> metadataRevoked (gl_Metadata l)" "read_tokens S ts (gl_SecretRef l) = Inr data"
      and r: "(case fresh_cred k data of Some cred \<Rightarrow> (ts, Inr cred) | None \<Rightarrow> refreshLocked S k ts u (gl_SecretRef l) (gl_Metadata l) data) = (ts', Inr cred)"
      unfolding Token_eq [OF assms(3,4)] by (auto split: sum.splits if_splits)
    show ?thesis
    proof (cases "fresh_cred k data")
      case (Some c)
      with r have c: "ts' = ts" "c = cred" by auto
      have "Get S (tk_store ts) (gl_SecretRef l) = Inr data" using l(3) by (simp add: read_tokens_def split: sum.splits)
      then show ?thesis
        using Some c assms(6,8) l(2) load_link_find [OF l(1)] ref [OF l(1)]
        by (auto simp: holds_token_def fresh_cred_def parseTime_def ctx_fmt_def split: option.splits if_splits)
    qed (use new l r in auto)
  next
    case False
    with assms(7) have "ForceRefresh S k ts (UUIDString u) = (ts', Inr cred)" by blast
    from ForceRefresh_cases [OF assms(3,4) this] new show ?thesis by blast
  qed
qed

text \<open>The events that leave an issued token alone: those of other users, and reads before it expires.\<close>

definition calm :: "(int \<Rightarrow> string) \<Rightarrow> (string \<Rightarrow> int option) \<Rightarrow> pg_uuid \<Rightarrow> int \<Rightarrow> tokenctx \<times> git_event \<Rightarrow> bool" where
  "calm fmt prs u e ev = (event_ok ev \<and> (event_user (snd ev) \<noteq> u
     \<or> snd ev = EvToken u \<and> ctx_fmt fmt prs (fst ev) \<and> ac_time (kx_stmt (fst ev)) + refreshSkew + 1000000000 \<le> e))"

lemma calm_run:
  assumes "secret_store S sinv" "git_ok sinv (ga_ts s)" "holds_token S prs (ga_ts s) u a e" "proper_uuid u" "list_all (calm fmt prs u e) evs"
  shows "holds_token S prs (ga_ts (git_run S s evs)) u a e"
  using assms(2,3,5)
proof (induction evs arbitrary: s)
  case (Cons x evs)
  obtain k ev where x: "x = (k, ev)" by (cases x)
  have ok: "event_ok (k, ev)" using Cons.prems(3) by (simp add: calm_def x)
  note good = secret_store.good_exec [OF assms(1) Cons.prems(1) ok]
  have 1: "git_ok sinv (ga_ts (git_exec S s x))" using good by (simp add: secret_store.good_op_def [OF assms(1)] x)
  have "holds_token S prs (ga_ts (git_exec S s x)) u a e"
  proof (cases "event_user ev = u")
    case False
    then have "same_creds S u (ga_ts s) (ga_ts (git_exec S s x))"
      using good assms(4) by (simp add: secret_store.good_op_def [OF assms(1)] x)
    with Cons.prems(2) show ?thesis by (rule holds_same)
  next
    case True
    with Cons.prems(3) have ev: "ev = EvToken u" "ctx_fmt fmt prs k" "ac_time (kx_stmt k) + refreshSkew + 1000000000 \<le> e"
      by (auto simp: calm_def x)
    have "holds_token S (hx_parse (kx_gh k)) (ga_ts s) u a e" using Cons.prems(2) ev(2) by (simp add: ctx_fmt_def)
    from holds_fresh [OF this ev(3) _ assms(4)] ok have "fst (Token S k (ga_ts s) (UUIDString u)) = ga_ts s"
      by (auto simp: event_ok_def)
    with Cons.prems(2) show ?thesis by (simp add: x ev(1) with_ts_def)
  qed
  from Cons.IH [OF 1 this] Cons.prems(3) show ?case by (simp add: git_run_def)
qed (simp add: git_run_def)

text \<open>
  C27. A token that has been issued keeps working without GitHub. Once \<open>Token\<close> or \<open>ForceRefresh\<close> has
  returned a credential for a user, then after any history of operations of other users and of
  requests of this user made more than ten minutes before it expires, \<open>Token\<close> returns the same access
  token, changes nothing and does not depend on what GitHub would answer; only a failure of the
  link's lookup can keep it from doing so.
\<close>

theorem issued_token_lasts:
  assumes "secret_store S sinv" "git_ok sinv (ga_ts s)" "ctx_ok k" "proper_uuid u" "fmt_ok fmt prs" "ctx_fmt fmt prs k"
    "Token S k (ga_ts s) (UUIDString u) = (ts', Inr cred) \<or> ForceRefresh S k (ga_ts s) (UUIDString u) = (ts', Inr cred)"
    "cr_Expiry cred = Some e" "0 \<le> e" "e < max_instant"
    "list_all (calm fmt prs u e) evs" "calm fmt prs u e (k', EvToken u)"
  shows "\<exists>r. Token S k' (ga_ts (git_run S (with_ts s ts') evs)) (UUIDString u) = (ga_ts (git_run S (with_ts s ts') evs), r)
    \<and> (\<forall>c. r = Inr c \<longrightarrow> cr_AccessToken c = cr_AccessToken cred)
    \<and> (ac_fault (kx_stmt k') ''GetGitHubLink'' = None \<longrightarrow> (\<exists>c. r = Inr c))"
proof -
  have "git_ok sinv ts'"
    using assms(7) secret_store.good_Token [OF assms(1,2,4,3)] secret_store.good_ForceRefresh [OF assms(1,2,4,3)]
    unfolding secret_store.good_op_def [OF assms(1)] by blast
  then have 1: "git_ok sinv (ga_ts (with_ts s ts'))" by (simp add: with_ts_def)
  have "holds_token S prs (ga_ts (with_ts s ts')) u (cr_AccessToken cred) e"
    using issued_holds [OF assms(1-10)] by (simp add: with_ts_def)
  from calm_run [OF assms(1) 1 this assms(4,11)]
  have h: "holds_token S prs (ga_ts (git_run S (with_ts s ts') evs)) u (cr_AccessToken cred) e" .
  have k': "ctx_ok k'" "hx_parse (kx_gh k') = prs" "ac_time (kx_stmt k') + refreshSkew + 1000000000 \<le> e"
    using assms(12) by (auto simp: calm_def event_ok_def ctx_fmt_def)
  show ?thesis by (rule holds_fresh [OF h [folded k'(2)] k'(3,1) assms(4)])
qed

section \<open>A world to apply the properties in\<close>

definition ex_uid :: "nat \<Rightarrow> pg_uuid" where "ex_uid n = \<lparr>Bytes = replicate 15 0 @ [word_of_nat n], Valid = True\<rparr>"

lemma ex_uid_proper [simp]: "proper_uuid (ex_uid n)"
  by (simp add: ex_uid_def proper_uuid_def)

definition ex_authctx :: "int \<Rightarrow> authctx" where
  "ex_authctx t = \<lparr>ac_fault = (\<lambda>_. None), ac_now = t, ac_uuid = ex_uid 99, ac_time = t, ac_rand = Inr [], ac_sha256 = (\<lambda>_. [])\<rparr>"

definition ex_fmt :: "int \<Rightarrow> string" where "ex_fmt t = itoa (t div 1000000000)"
definition ex_prs :: "string \<Rightarrow> int option" where "ex_prs s = map_option (\<lambda>n. n * 1000000000) (Atoi s)"

lemma itoa_nonempty: "itoa i \<noteq> []"
  by (simp add: itoa_def)

lemma ex_fmt_ok: "fmt_ok ex_fmt ex_prs"
proof -
  have "ex_prs (ex_fmt t) = Some (t - t mod 1000000000)" if "0 \<le> t" "t < max_instant" for t
  proof -
    have "Atoi (itoa (t div 1000000000)) = Some (t div 1000000000)"
      by (rule Atoi_itoa) (use that in \<open>simp_all add: max_instant_def\<close>)
    then show ?thesis by (simp add: ex_prs_def ex_fmt_def minus_mod_eq_div_mult)
  qed
  then show ?thesis by (simp add: fmt_ok_def ex_fmt_def itoa_nonempty)
qed

definition ex_pair_fields :: "(string \<times> json) list" where
  "ex_pair_fields = [jstr ''access_token'' ''new'', jstr ''refresh_token'' ''r2'', (''expires_in'', Json [] (JNum ''28800''))]"

definition ex_pair :: jvalue where "ex_pair = JObj ex_pair_fields"

definition ex_dead_fields :: "(string \<times> json) list" where
  "ex_dead_fields = [jstr ''error'' ''bad_refresh_token'']"

definition ex_dead :: jvalue where "ex_dead = JObj ex_dead_fields"

definition ex_gh :: "jvalue \<Rightarrow> ghctx" where
  "ex_gh v = \<lparr>hx_token = (\<lambda>_ _. Reply 200 (Some (Json [] v))), hx_get = (\<lambda>_ _ _. NoReply []), hx_post = (\<lambda>_ _ _. NoReply []),
     hx_done = (\<lambda>_. None), hx_format = ex_fmt, hx_parse = ex_prs, hx_uuid = scan_uuid\<rparr>"

definition ex_kctx :: "int \<Rightarrow> jvalue \<Rightarrow> tokenctx" where
  "ex_kctx t v = \<lparr>kx_stmt = ex_authctx t, kx_mark = ex_authctx t, kx_gh = ex_gh v\<rparr>"

lemma ex_kctx_ok [simp]: "ctx_ok (ex_kctx t v)" "ctx_fmt ex_fmt ex_prs (ex_kctx t v)"
  by (simp_all add: ctx_ok_def ctx_fmt_def ex_kctx_def ex_gh_def scan_uuid_text)

definition ex_link :: "nat \<Rightarrow> github_link" where
  "ex_link n = \<lparr>gl_UserID = ex_uid n, gl_Metadata = grant_meta 28800 0 [] False, gl_SecretRef = UserGitHubPath (UUIDString (ex_uid n)),
     gl_CreatedAt = 0, gl_UpdatedAt = 0\<rparr>"

definition ex_row :: "nat \<Rightarrow> user_row" where
  "ex_row n = (new_user (ex_authctx 0))\<lparr>us_ID := ex_uid n\<rparr>"

definition ex_links :: link_db where
  "ex_links = \<lparr>ld_auth = \<lparr>au_users = [ex_row 1, ex_row 2], au_sessions = [], au_pats = []\<rparr>, ld_github = [ex_link 1], ld_hosts = [], ld_idents = []\<rparr>"

definition ex_secrets :: mem_state where
  "ex_secrets = [UserGitHubPath (UUIDString (ex_uid 1)) \<mapsto> [fieldAccessToken \<mapsto> ''old'', fieldRefreshToken \<mapsto> ''r1'', fieldAccessExpiresAt \<mapsto> ''0'']]"

definition ex_gclient :: gh_client where
  "ex_gclient = \<lparr>gcl_clientID = ''id'', gcl_clientSecret = ''sec'', gcl_authorizeURL = [], gcl_tokenURL = [], gcl_apiBaseURL = []\<rparr>"

definition ex_gits :: "mem_state git_state" where
  "ex_gits = \<lparr>ga_ts = \<lparr>tk_client = ex_gclient, tk_db = ex_links, tk_store = ex_secrets\<rparr>, ga_audit = []\<rparr>"

lemma ex_uid_12 [simp]: "ex_uid 2 \<noteq> ex_uid 1" "ex_uid 1 \<noteq> ex_uid 2"
  by (simp_all add: ex_uid_def)

lemma ex_gits_ok: "git_ok (\<lambda>_. True) (ga_ts ex_gits)"
  by (simp add: git_ok_def ex_gits_def links_ok_def ex_links_def ex_link_def) blast

lemma ex_load: "load_link (ex_kctx t v) (ga_ts ex_gits) (ex_uid 1) = Inr (ex_link 1)"
  by (simp add: load_link_def GetGitHubLink_def run_stmt_def ex_kctx_def ex_authctx_def ex_gits_def ex_links_def ex_link_def row_of_def)

lemma ex_read: "read_tokens mem_ops (ga_ts ex_gits) (gl_SecretRef (ex_link 1))
    = Inr [fieldAccessToken \<mapsto> ''old'', fieldRefreshToken \<mapsto> ''r1'', fieldAccessExpiresAt \<mapsto> ''0'']"
  by (simp add: read_tokens_def mem_ops_def mem_Get_def ex_gits_def ex_secrets_def ex_link_def)

lemma ex_pair_vals:
  "field_vals ''access_token'' ex_pair_fields = [JStr ''new'']" "field_vals ''refresh_token'' ex_pair_fields = [JStr ''r2'']"
  "field_vals ''expires_in'' ex_pair_fields = [JNum ''28800'']" "field_vals ''refresh_token_expires_in'' ex_pair_fields = []"
  "field_vals ''token_type'' ex_pair_fields = []" "field_vals ''scope'' ex_pair_fields = []"
  "field_vals ''error'' ex_pair_fields = []" "field_vals ''error_description'' ex_pair_fields = []"
  "field_vals ''error'' ex_dead_fields = [JStr ''bad_refresh_token'']" "field_vals ''error_description'' ex_dead_fields = []"
  by (simp_all add: field_vals_def ex_pair_fields_def ex_dead_fields_def jstr_def lower_byte_def)

lemma ex_number: "ParseInt64 ''28800'' = Some 28800"
  by (simp add: ParseInt64_def is_digit_def digits_val_def digit_val_def Let_def)

lemma ex_dec_pair:
  "dec_struct dec_Token ex_pair = Some \<lparr>gt_AccessToken = ''new'', gt_RefreshToken = ''r2'', gt_ExpiresIn = 28800,
     gt_RefreshTokenExpiresIn = 0, gt_TokenType = [], gt_Scope = []\<rparr>"
  by (simp add: dec_struct_def ex_pair_def dec_Token_def dec_str_def dec_int_def dec_field_def ex_pair_vals ex_number)

lemma ex_pair_error: "token_error (Some (Json [] ex_pair)) = []" "token_error (Some (Json [] ex_dead)) = ''bad_refresh_token''"
  by (simp_all add: token_error_def dec_struct_def ex_pair_def ex_dead_def dec_str_def dec_field_def ex_pair_vals)

lemma ex_refresh:
  "gh_Refresh (kx_gh (ex_kctx t ex_pair)) c r = Inr \<lparr>gt_AccessToken = ''new'', gt_RefreshToken = ''r2'', gt_ExpiresIn = 28800,
     gt_RefreshTokenExpiresIn = 0, gt_TokenType = [], gt_Scope = []\<rparr>"
  "gh_Refresh (kx_gh (ex_kctx t ex_dead)) c r = Inl (Sentinel ErrBadRefreshToken)"
  by (simp_all add: gh_Refresh_def token_answer_def ex_kctx_def ex_gh_def ex_pair_error ex_dec_pair refresh_rejected_def)

lemma ex_force:
  "\<exists>ts'. ForceRefresh mem_ops (ex_kctx 0 ex_pair) (ga_ts ex_gits) (UUIDString (ex_uid 1))
    = (ts', Inr \<lparr>cr_AccessToken = ''new'', cr_Expiry = Some 28800000000000\<rparr>)"
proof -
  have u: "find_user (ld_auth (tk_db (ga_ts ex_gits))) (ex_uid 1) \<noteq> None"
    by (simp add: ex_gits_def ex_links_def ex_row_def find_user_def)
  then show ?thesis
    unfolding ForceRefresh_eq [OF ex_kctx_ok(1) ex_uid_proper] ex_load ex_read sum.case refreshLocked_def ex_refresh
    by (simp add: fld_def field_names ex_refresh persist_pair_def Let_def mem_ops_def mem_Put_def UpsertGitHubLink_def run_stmt_def
        ex_kctx_def ex_authctx_def expiry_after_def)
qed

theorem issued_token_lasts_witness:
  "\<exists>ts' r. ForceRefresh mem_ops (ex_kctx 0 ex_pair) (ga_ts ex_gits) (UUIDString (ex_uid 1))
      = (ts', Inr \<lparr>cr_AccessToken = ''new'', cr_Expiry = Some 28800000000000\<rparr>)
    \<and> snd (Token mem_ops (ex_kctx 28000000000000 ex_dead)
        (ga_ts (git_run mem_ops (with_ts ex_gits ts') [(ex_kctx 100 ex_dead, EvToken (ex_uid 2)), (ex_kctx 200 ex_dead, EvToken (ex_uid 1))]))
        (UUIDString (ex_uid 1))) = Inr r \<and> cr_AccessToken r = ''new''"
proof -
  obtain ts' where f: "ForceRefresh mem_ops (ex_kctx 0 ex_pair) (ga_ts ex_gits) (UUIDString (ex_uid 1))
      = (ts', Inr \<lparr>cr_AccessToken = ''new'', cr_Expiry = Some 28800000000000\<rparr>)" using ex_force by blast
  have calm: "list_all (calm ex_fmt ex_prs (ex_uid 1) 28800000000000) [(ex_kctx 100 ex_dead, EvToken (ex_uid 2)), (ex_kctx 200 ex_dead, EvToken (ex_uid 1))]"
    "calm ex_fmt ex_prs (ex_uid 1) 28800000000000 (ex_kctx 28000000000000 ex_dead, EvToken (ex_uid 1))"
    by (simp_all add: calm_def event_ok_def) (simp_all add: ex_kctx_def ex_authctx_def refreshSkew_def)
  have "ac_fault (kx_stmt (ex_kctx 28000000000000 ex_dead)) ''GetGitHubLink'' = None" by (simp add: ex_kctx_def ex_authctx_def)
  with issued_token_lasts [OF mem.secret_store_axioms ex_gits_ok ex_kctx_ok(1) ex_uid_proper ex_fmt_ok ex_kctx_ok(2) disjI2 [OF f] _ _ _ calm] f
  show ?thesis by (fastforce simp: max_instant_def)
qed

section \<open>A dead grant\<close>

definition grant_revoked :: "pg_uuid \<Rightarrow> 'st token_source \<Rightarrow> bool" where
  "grant_revoked u ts = (\<exists>l. github_row_of u (tk_db ts) = Some l \<and> metadataRevoked (gl_Metadata l))"

lemma revoked_Token:
  assumes "grant_revoked u ts" "ctx_ok k" "proper_uuid u"
  shows "\<exists>e. Token S k ts (UUIDString u) = (ts, Inl e)
    \<and> (ac_fault (kx_stmt k) ''GetGitHubLink'' = None \<longrightarrow> e = Sentinel ErrReconnectGitHub)"
proof -
  obtain l where l: "github_row_of u (tk_db ts) = Some l" "metadataRevoked (gl_Metadata l)" using assms(1) by (auto simp: grant_revoked_def)
  from load_link_of_row [OF l(1), of k] l(2) show ?thesis unfolding Token_eq [OF assms(2,3)] by (cases "load_link k ts u") auto
qed

text \<open>A refusal by GitHub that is reported as such has been recorded.\<close>

lemma refusal_recorded:
  assumes "links_ok (tk_db ts)" "load_link k ts u = Inr l" "fld data fieldRefreshToken \<noteq> []"
    "gh_Refresh (kx_gh k) (tk_client ts) (fld data fieldRefreshToken) = Inl e" "errors_Is e ErrBadRefreshToken"
    "refreshLocked S k ts u (gl_SecretRef l) (gl_Metadata l) data = (ts', Inl (Sentinel ErrReconnectGitHub))"
  shows "grant_revoked u ts'"
proof -
  obtain a b s r where m: "gl_Metadata l = grant_meta a b s r"
    using load_link_row [OF assms(2)] assms(1) by (auto simp: links_ok_def)
  obtain d' r' where mr: "markRevoked k (tk_db ts) u (gl_Metadata l) = (d', r')" by fastforce
  with assms(3-6) have r': "r' = Inr ()" "ts' = ts\<lparr>tk_db := d'\<rparr>" by (auto simp: refreshLocked_def split: sum.splits)
  from markRevoked_cases [OF mr [unfolded m]] r'(1) obtain l1 l' where
    "UpsertGitHubLink (kx_mark k) (tk_db ts) u (grant_meta a b s True) (gl_SecretRef (l1 :: github_link)) = Inr (d', l')" by auto
  from Upsert_Get [OF this] have "github_row_of u d' = Some l'" "gl_Metadata l' = grant_meta a b s True"
    by (simp_all add: github_row_of_def)
  then show ?thesis using r' by (simp add: grant_revoked_def)
qed

definition no_reconnect :: "pg_uuid \<Rightarrow> tokenctx \<times> git_event \<Rightarrow> bool" where
  "no_reconnect u e = (event_ok e \<and> (event_user (snd e) = u \<longrightarrow> snd e = EvToken u))"

lemma revoked_run:
  assumes "secret_store S sinv" "git_ok sinv (ga_ts s)" "grant_revoked u (ga_ts s)" "proper_uuid u" "list_all (no_reconnect u) evs"
  shows "grant_revoked u (ga_ts (git_run S s evs))"
  using assms(2,3,5)
proof (induction evs arbitrary: s)
  case (Cons x evs)
  obtain k ev where x: "x = (k, ev)" by (cases x)
  have ok: "event_ok (k, ev)" using Cons.prems(3) by (simp add: no_reconnect_def x)
  note good = secret_store.good_exec [OF assms(1) Cons.prems(1) ok]
  have 1: "git_ok sinv (ga_ts (git_exec S s x))" using good by (simp add: secret_store.good_op_def [OF assms(1)] x)
  have "grant_revoked u (ga_ts (git_exec S s x))"
  proof (cases "event_user ev = u")
    case False
    then have "same_creds S u (ga_ts s) (ga_ts (git_exec S s x))"
      using good assms(4) by (simp add: secret_store.good_op_def [OF assms(1)] x)
    with Cons.prems(2) show ?thesis by (simp add: grant_revoked_def same_creds_def same_links_def)
  next
    case True
    with Cons.prems(3) x have ev: "ev = EvToken u" by (simp add: no_reconnect_def)
    have "ctx_ok k" using ok by (simp add: event_ok_def)
    from revoked_Token [OF Cons.prems(2) this assms(4), of S] have "fst (Token S k (ga_ts s) (UUIDString u)) = ga_ts s" by auto
    with Cons.prems(2) show ?thesis by (simp add: x ev with_ts_def)
  qed
  from Cons.IH [OF 1 this] Cons.prems(3) show ?case by (simp add: git_run_def)
qed (simp add: git_run_def)


lemma ex_refused:
  "\<exists>ts'. ForceRefresh mem_ops (ex_kctx 0 ex_dead) (ga_ts ex_gits) (UUIDString (ex_uid 1)) = (ts', Inl (Sentinel ErrReconnectGitHub))"
proof -
  have u: "find_user (ld_auth (tk_db (ga_ts ex_gits))) (ex_uid 1) \<noteq> None"
    by (simp add: ex_gits_def ex_links_def ex_row_def find_user_def)
  have l: "find (\<lambda>l. gl_UserID l = ex_uid 1) (ld_github (tk_db (ga_ts ex_gits))) = Some (ex_link 1)" "gl_Metadata (ex_link 1) = grant_meta 28800 0 [] False"
    by (simp_all add: ex_gits_def ex_links_def ex_link_def)
  show ?thesis
    unfolding ForceRefresh_eq [OF ex_kctx_ok(1) ex_uid_proper] ex_load ex_read sum.case refreshLocked_def ex_refresh
    using u l by (simp add: fld_def field_names markRevoked_def GetGitHubLink_def UpsertGitHubLink_def run_stmt_def row_of_def
        ex_kctx_def ex_authctx_def Let_def)
qed


end
