(* ===== verification/Git_Connect_Claims.thy ===== *)
theory Git_Connect_Claims
  imports Git_Claims
begin

text \<open>
  Whose credentials the sources hand out, and what connecting a GitHub account leaves behind.
\<close>

section \<open>Isolation of users\<close>

lemma HostCredential_same:
  assumes "same_creds S u ts ts'" "git_ok sinv ts" "ctx_ok k" "proper_uuid u"
  shows "HostCredential S k ts' (UUIDString u) h = HostCredential S k ts (UUIDString u) h"
proof -
  have pick: "find (host_key u h') ls = find (host_key u h') (filter (\<lambda>l. gh_UserID l = u) ls)" for h' ls
    by (induction ls) (auto simp: host_key_def)
  have rows: "find (host_key u h') (ld_hosts (tk_db ts')) = find (host_key u h') (ld_hosts (tk_db ts))" for h'
    using assms(1) by (subst (1 2) pick) (simp add: same_creds_def same_links_def host_rows_def)
  then have get: "GetGitHostLink (kx_stmt k) (tk_db ts') u h' = GetGitHostLink (kx_stmt k) (tk_db ts) u h'" for h'
    by (simp add: GetGitHostLink_def)
  have "Get S (tk_store ts') (gh_SecretRef l) = Get S (tk_store ts) (gh_SecretRef l)"
    if "GetGitHostLink (kx_stmt k) (tk_db ts) u h' = Inr l" for h' l
  proof -
    have "l \<in> set (ld_hosts (tk_db ts))" "gh_UserID l = u"
      using that by (auto simp: GetGitHostLink_def run_stmt_def row_of_def find_Some_iff host_key_def split: option.splits)
    then have "own_path u (gh_SecretRef l)" using assms(2) by (auto simp: git_ok_def links_ok_def)
    then show ?thesis using assms(1) by (simp add: same_creds_def same_secrets_def)
  qed
  then show ?thesis using assms(3,4) get unfolding HostCredential_def ctx_ok_def by (auto split: sum.split)
qed

text \<open>Every credential comes from the user's own secrets or from GitHub's answer to them.\<close>

lemma Token_origin:
  assumes "git_ok sinv ts" "ctx_ok k" "proper_uuid u" "Token S k ts (UUIDString u) = (ts', Inr c)"
  shows "\<exists>data. Get S (tk_store ts) (UserGitHubPath (UUIDString u)) = Inr data \<and> (cr_AccessToken c = fld data fieldAccessToken
    \<or> (\<exists>t. gh_Refresh (kx_gh k) (tk_client ts) (fld data fieldRefreshToken) = Inr t \<and> cr_AccessToken c = gt_AccessToken t))"
proof -
  obtain l data where l: "load_link k ts u = Inr l" "read_tokens S ts (gl_SecretRef l) = Inr data"
    and r: "(case fresh_cred k data of Some cred \<Rightarrow> (ts, Inr cred) | None \<Rightarrow> refreshLocked S k ts u (gl_SecretRef l) (gl_Metadata l) data) = (ts', Inr c)"
    using assms(4) unfolding Token_eq [OF assms(2,3)] by (auto split: sum.splits if_splits)
  have "gl_SecretRef l = UserGitHubPath (UUIDString u)"
    using load_link_row [OF l(1)] assms(1) by (auto simp: git_ok_def links_ok_def)
  then have get: "Get S (tk_store ts) (UserGitHubPath (UUIDString u)) = Inr data"
    using l(2) by (simp add: read_tokens_def split: sum.splits)
  show ?thesis
  proof (cases "fresh_cred k data")
    case (Some cred)
    with r get show ?thesis by (auto simp: fresh_cred_def split: option.splits if_splits)
  next
    case None
    with r have "refreshLocked S k ts u (gl_SecretRef l) (gl_Metadata l) data = (ts', Inr c)" by simp
    from refreshLocked_cases [OF this] obtain t where "gh_Refresh (kx_gh k) (tk_client ts) (fld data fieldRefreshToken) = Inr t"
      "persist_pair S k ts u (gl_SecretRef l) t = (ts', Inr c)" by blast
    with persist_Inr get show ?thesis by blast
  qed
qed



section \<open>Connecting an account\<close>

lemma set_github_row:
  assumes "set_user_github c d u g = Inr d'"
  shows "\<exists>v. find_user (ld_auth d') u = Some v \<and> us_GithubUserID v = g" (is ?row)
    and "g \<noteq> None \<Longrightarrow> w \<in> set (au_users (ld_auth d')) \<Longrightarrow> us_ID w \<noteq> u \<Longrightarrow> us_GithubUserID w \<noteq> g"
proof -
  obtain a v where sg: "SetUserGitHub c (ld_auth d) u g = Inr (a, v)" and d': "d' = d\<lparr>ld_auth := a\<rparr>"
    using assms by (auto simp: set_user_github_def split: sum.splits)
  let ?f = "\<lambda>x. x\<lparr>us_GithubUserID := g\<rparr>"
  let ?us = "au_users (ld_auth d)"
  have guard: "\<not> (g \<noteq> None \<and> list_ex (\<lambda>x. us_ID x \<noteq> u \<and> us_GithubUserID x = g) ?us \<and> find_user (ld_auth d) u \<noteq> None)"
    and up: "update_user (ld_auth d) (\<lambda>x. us_ID x = u) ?f = Inr (a, v)"
    using sg by (auto simp: SetUserGitHub_def run_stmt_def split: option.splits if_splits)
  obtain r where r: "find (\<lambda>x. us_ID x = u) ?us = Some r" and a: "au_users a = tbl_update (\<lambda>x. us_ID x = u) ?f ?us"
    using up by (auto simp: update_user_def split: option.splits)
  have "find (\<lambda>x. us_ID x = u) (tbl_update (\<lambda>x. us_ID x = u) ?f us) = map_option ?f (find (\<lambda>x. us_ID x = u) us)" for us :: "user_row list"
    by (induction us) auto
  then show ?row by (simp add: find_user_def d' a r)
  assume g: "g \<noteq> None" and w: "w \<in> set (au_users (ld_auth d'))" "us_ID w \<noteq> u"
  from w have "w \<in> set ?us" by (auto simp: d' a set_tbl_update)
  moreover have "find_user (ld_auth d) u \<noteq> None" using r by (simp add: find_user_def)
  ultimately show "us_GithubUserID w \<noteq> g" using guard g w(2) by (auto simp: list_ex_iff)
qed

definition connected :: "'st store_ops \<Rightarrow> tokenctx \<Rightarrow> 'st token_source \<Rightarrow> user_row \<Rightarrow> gh_token \<Rightarrow> gh_user \<Rightarrow> bool" where
  "connected S k ts user tok gu =
     ((\<exists>v. find_user (ld_auth (tk_db ts)) (us_ID user) = Some v \<and> us_GithubUserID v = Some (gu_ID gu))
      \<and> (\<forall>w \<in> set (au_users (ld_auth (tk_db ts))). us_ID w \<noteq> us_ID user \<longrightarrow> us_GithubUserID w \<noteq> Some (gu_ID gu))
      \<and> (\<exists>l. github_row_of (us_ID user) (tk_db ts) = Some l \<and> \<not> metadataRevoked (gl_Metadata l)
           \<and> gl_SecretRef l = UserGitHubPath (UUIDString (us_ID user)))
      \<and> Get S (tk_store ts) (UserGitHubPath (UUIDString (us_ID user))) = Inr (token_fields (kx_gh k) (ac_time (kx_stmt k)) tok))"

definition disconnected :: "'st token_source \<Rightarrow> user_row \<Rightarrow> bool" where
  "disconnected ts user = (\<exists>v. find_user (ld_auth (tk_db ts)) (us_ID user) = Some v \<and> us_GithubUserID v = None)"

lemma unset_disconnects:
  assumes "ac_fault (kx_mark k) ''SetUserGitHub'' = None" "find_user (ld_auth (tk_db ts)) u \<noteq> None"
  shows "\<exists>v. find_user (ld_auth (tk_db (unsetUserGitHub k ts u))) u = Some v \<and> us_GithubUserID v = None"
proof -
  have "\<exists>d'. set_user_github (kx_mark k) (tk_db ts) u None = Inr d'"
    using assms by (auto simp: set_user_github_def SetUserGitHub_def run_stmt_def update_user_def find_user_def)
  then obtain d' where d': "set_user_github (kx_mark k) (tk_db ts) u None = Inr d'" ..
  from set_github_row(1) [OF this] d' show ?thesis by (simp add: unsetUserGitHub_def)
qed

lemma store_grant_result:
  assumes "secret_store S sinv" "sinv (tk_store ts)" "store_grant S k ts user tok = (ts', b)"
    "find_user (ld_auth (tk_db ts)) (us_ID user) = Some v" "us_GithubUserID v = Some (gu_ID gu)"
    "\<forall>w \<in> set (au_users (ld_auth (tk_db ts))). us_ID w \<noteq> us_ID user \<longrightarrow> us_GithubUserID w \<noteq> Some (gu_ID gu)"
  shows "if b then connected S k ts' user tok gu else ac_fault (kx_mark k) ''SetUserGitHub'' = None \<longrightarrow> disconnected ts' user"
proof -
  let ?ref = "UserGitHubPath (UUIDString (us_ID user))"
  let ?data = "token_fields (kx_gh k) (ac_time (kx_stmt k)) tok"
  let ?up = "UpsertGitHubLink (kx_stmt k) (tk_db ts) (us_ID user)
      (grant_meta (gt_ExpiresIn tok) (gt_RefreshTokenExpiresIn tok) (gt_Scope tok) False) ?ref"
  obtain st r where put: "Put S (tk_store ts) ?ref ?data = (st, r)" by fastforce
  consider "b = False" "ts' = unsetUserGitHub k (ts\<lparr>tk_store := st\<rparr>) (us_ID user)"
    | d' l where "b = True" "r = Inr ()" "?up = Inr (d', l)" "ts' = ts\<lparr>tk_store := st, tk_db := d'\<rparr>"
    using assms(3) put by (cases r; cases ?up) (auto simp: store_grant_def Let_def)
  then show ?thesis
  proof cases
    case 1
    then show ?thesis using unset_disconnects [of k "ts\<lparr>tk_store := st\<rparr>" "us_ID user"] assms(4) by (simp add: disconnected_def)
  next
    case (2 d' l)
    have "Get S st ?ref = Inr ?data" using put 2(2) by (intro secret_store.get_put [OF assms(1,2)]) simp
    with 2 Upsert_Get [OF 2(3)] assms(4,5,6) show ?thesis by (simp add: connected_def github_row_of_def)
  qed
qed


lemma Exchange_pair:
  "gh_Exchange (kx_gh (ex_kctx t ex_pair)) c code u = Inr \<lparr>gt_AccessToken = ''new'', gt_RefreshToken = ''r2'', gt_ExpiresIn = 28800,
     gt_RefreshTokenExpiresIn = 0, gt_TokenType = [], gt_Scope = []\<rparr>"
  by (simp add: gh_Exchange_def token_answer_def ex_kctx_def ex_gh_def ex_pair_error ex_dec_pair)

definition ex_profile :: "(string \<times> json) list" where
  "ex_profile = [(''id'', Json [] (JNum ''7'')), jstr ''login'' ''octo'']"

definition ex_connect :: tokenctx where
  "ex_connect = (ex_kctx 0 ex_pair)\<lparr>kx_gh := (kx_gh (ex_kctx 0 ex_pair))\<lparr>hx_get := (\<lambda>_ _ _. Reply 200 (Some (Json [] (JObj ex_profile))))\<rparr>\<rparr>"

lemma ex_profile_user: "dec_struct dec_User (JObj ex_profile) = Some \<lparr>gu_ID = 7, gu_Login = ''octo'', gu_Email = [], gu_AvatarURL = []\<rparr>"
proof -
  have "field_vals ''id'' ex_profile = [JNum ''7'']" "field_vals ''login'' ex_profile = [JStr ''octo'']"
    "field_vals ''email'' ex_profile = []" "field_vals ''avatar_url'' ex_profile = []"
    by (simp_all add: field_vals_def ex_profile_def jstr_def lower_byte_def)
  moreover have "ParseInt64 ''7'' = Some 7" by (simp add: ParseInt64_def is_digit_def digits_val_def digit_val_def Let_def)
  ultimately show ?thesis by (simp add: dec_struct_def dec_User_def dec_int_def dec_str_def dec_field_def)
qed

definition ex_acfg :: auth_config where
  "ex_acfg = \<lparr>hc_BaseURL = ''http://p'', hc_StateKey = [], hc_CookieSecure = True, hc_SessionTTL = 0, hc_ttl = 0, hc_revoker = False, hc_hmac = (\<lambda>_ _. [])\<rparr>"

definition ex_back :: browser_request where
  "ex_back = \<lparr>br_query = (\<lambda>k. if k = ''state'' then ''.100.'' else if k = ''code'' then ''c'' else []),
     br_cookie = [ghStateCookieName \<mapsto> ''.100.'']\<rparr>"

lemma ex_state: "validateState (hc_hmac ex_acfg) (kx_stmt ex_connect) (hc_StateKey ex_acfg) ''.100.'' = None"
proof -
  have "Atoi ''100'' = Some 100" by (simp add: Atoi_def atoi_digits_def is_digit_def digits_val_def digit_val_def Let_def)
  then show ?thesis
    by (simp add: validateState_def sign_def ex_acfg_def ex_connect_def ex_kctx_def ex_authctx_def Unix_def) (simp add: rawurl_encode_def)
qed

lemma ex_connects: "\<exists>s'. GitHubCallback mem_ops ex_acfg [] ex_connect ex_gits (ex_row 1) ex_back
   = (s', Redirect [clear_cookie ex_acfg ghStateCookieName ''/api/auth/github''] ''/'')"
proof -
  have ck: "cookie_value ex_back ghStateCookieName = ''.100.''" by (simp add: cookie_value_def ex_back_def)
  have e: "gh_Exchange (kx_gh ex_connect) c code u = Inr \<lparr>gt_AccessToken = ''new'', gt_RefreshToken = ''r2'', gt_ExpiresIn = 28800,
     gt_RefreshTokenExpiresIn = 0, gt_TokenType = [], gt_Scope = []\<rparr>" for c code u
    using Exchange_pair by (simp add: ex_connect_def gh_Exchange_def)
  have g: "gh_GetUser (kx_gh ex_connect) c t = Inr \<lparr>gu_ID = 7, gu_Login = ''octo'', gu_Email = [], gu_AvatarURL = []\<rparr>" for c t
    by (simp add: gh_GetUser_def ex_connect_def ex_profile_user)
  have "\<exists>s'. link_account mem_ops ex_connect ex_gits (ex_row 1) tok gu = (s', None)" for tok gu
    by (simp add: link_account_def set_user_github_def SetUserGitHub_def run_stmt_def update_user_def find_user_def store_grant_def
        UpsertGitHubLink_def mem_ops_def mem_Put_def Let_def ex_connect_def ex_kctx_def ex_authctx_def ex_gits_def ex_links_def ex_row_def new_user_def)
  then obtain s' where "link_account mem_ops ex_connect ex_gits (ex_row 1) \<lparr>gt_AccessToken = ''new'', gt_RefreshToken = ''r2'', gt_ExpiresIn = 28800,
     gt_RefreshTokenExpiresIn = 0, gt_TokenType = [], gt_Scope = []\<rparr> \<lparr>gu_ID = 7, gu_Login = ''octo'', gu_Email = [], gu_AvatarURL = []\<rparr> = (s', None)" by blast
  then show ?thesis using ex_state ck
    by (intro exI [of _ s']) (simp add: GitHubCallback_def exchange_code_def e g Let_def, simp add: ex_back_def)
qed


end
