(* ===== verification/Net_Addr.thy ===== *)
theory Net_Addr
  imports Go_Strings
begin

unbundle bit_operations_syntax

text \<open>
  IPv4 addresses and prefixes as \<open>net/netip\<close> has them. An \<open>Addr\<close> is \<open>Some\<close> of the 32-bit
  address or \<open>None\<close>, the zero \<open>Addr\<close> that \<open>Next\<close> returns past the last address and that no
  prefix contains. IPv6 is left out: the agent's subnet and its nft table are IPv4, and the
  text of an IPv6 address never parses to an address of an IPv4 subnet.
\<close>

type_synonym addr = "32 word option"

record prefix =
  px_addr :: "32 word"
  px_bits :: nat

definition host_bits :: "prefix \<Rightarrow> nat" where
  "host_bits p = 32 - px_bits p"

definition Masked :: "prefix \<Rightarrow> prefix" where
  "Masked p = p\<lparr>px_addr := push_bit (host_bits p) (drop_bit (host_bits p) (px_addr p))\<rparr>"

definition Contains :: "prefix \<Rightarrow> addr \<Rightarrow> bool" where
  "Contains p a = (case a of None \<Rightarrow> False
     | Some w \<Rightarrow> drop_bit (host_bits p) w = drop_bit (host_bits p) (px_addr p))"

definition Next :: "addr \<Rightarrow> addr" where
  "Next a = (case a of None \<Rightarrow> None | Some w \<Rightarrow> if w = - 1 then None else Some (w + 1))"

definition octet :: "nat \<Rightarrow> 32 word \<Rightarrow> nat" where
  "octet k w = unat w div 256 ^ k mod 256"

definition octets :: "32 word \<Rightarrow> nat list" where
  "octets w = [octet 3 w, octet 2 w, octet 1 w, octet 0 w]"

text \<open>\<open>Addr.String\<close> and \<open>ParseAddr\<close>: four decimal fields without leading zeros.\<close>

definition addr_String :: "addr \<Rightarrow> string" where
  "addr_String a = (case a of None \<Rightarrow> ''invalid IP''
     | Some w \<Rightarrow> nat_str (octet 3 w) @ ''.'' @ nat_str (octet 2 w) @ ''.'' @ nat_str (octet 1 w) @ ''.'' @ nat_str (octet 0 w))"

definition prefix_String :: "prefix \<Rightarrow> string" where
  "prefix_String p = addr_String (Some (px_addr p)) @ ''/'' @ nat_str (px_bits p)"

definition parse_octet :: "string \<Rightarrow> nat option" where
  "parse_octet s = (if s \<noteq> [] \<and> list_all is_digit s \<and> (length s = 1 \<or> hd s \<noteq> CHR ''0'') \<and> digits_val s \<le> 255
     then Some (digits_val s) else None)"

definition ParseAddr :: "string \<Rightarrow> 32 word option" where
  "ParseAddr s = (case map parse_octet (split_char CHR ''.'' s) of
       [Some a, Some b, Some c, Some d] \<Rightarrow> Some (word_of_nat (((a * 256 + b) * 256 + c) * 256 + d))
     | _ \<Rightarrow> None)"

section \<open>Text round trip\<close>

lemma nat_str_no_dot: "CHR ''.'' \<notin> set (nat_str n)"
proof
  assume "CHR ''.'' \<in> set (nat_str n)"
  then have "is_digit CHR ''.''" using nat_str_digits [of n] by (simp add: list_all_iff)
  then show False by (simp add: is_digit_def)
qed

lemma hd_nat_str: "n > 0 \<Longrightarrow> hd (nat_str n) \<noteq> CHR ''0''"
proof (induction n rule: nat_str.induct)
  case (1 n)
  show ?case
  proof (cases "n < 10")
    case True
    have "(of_char (digit_char n) :: nat) \<noteq> of_char CHR ''0''" using True 1 by (simp add: of_char_digit_char)
    with True show ?thesis by (auto simp: nat_str.simps [of n])
  next
    case False
    with 1 show ?thesis by (simp add: nat_str.simps [of n])
  qed
qed

lemma parse_octet_nat_str: "n \<le> 255 \<Longrightarrow> parse_octet (nat_str n) = Some n"
proof -
  assume n: "n \<le> 255"
  have "length (nat_str n) = 1 \<or> hd (nat_str n) \<noteq> CHR ''0''"
    by (cases "n = 0") (simp_all add: hd_nat_str, simp add: nat_str.simps)
  with n show ?thesis by (simp add: parse_octet_def nat_str_digits)
qed

lemma unat_word_inverse: "word_of_nat (unat w) = (w :: 32 word)"
  by simp

lemma octet_le: "octet k w \<le> 255"
proof -
  have "octet k w < 256" by (simp add: octet_def)
  then show ?thesis by simp
qed

lemma octets_value:
  "((octet 3 w * 256 + octet 2 w) * 256 + octet 1 w) * 256 + octet 0 w = unat w"
proof -
  have "unat w < 2 ^ LENGTH(32)" by (rule unsigned_less)
  then have lt: "unat w < 4294967296" by simp
  let ?n = "unat w"
  have "?n div 16777216 mod 256 = ?n div 16777216" using lt by simp
  moreover have "(?n div 16777216) * 256 + ?n div 65536 mod 256 = ?n div 65536"
    using div_mult2_eq [of ?n 65536 256] by simp
  moreover have "(?n div 65536) * 256 + ?n div 256 mod 256 = ?n div 256"
    using div_mult2_eq [of ?n 256 256] by simp
  ultimately show ?thesis by (simp add: octet_def)
qed

lemma ParseAddr_String: "ParseAddr (addr_String (Some w)) = Some w"
proof -
  have "split_char CHR ''.'' (addr_String (Some w))
      = [nat_str (octet 3 w), nat_str (octet 2 w), nat_str (octet 1 w), nat_str (octet 0 w)]"
    by (simp add: addr_String_def split_char_append split_char_single nat_str_no_dot)
  then show ?thesis
    unfolding ParseAddr_def by (simp only: list.map parse_octet_nat_str octet_le list.case option.case octets_value unat_word_inverse)
qed

lemma addr_String_inj: "addr_String (Some v) = addr_String (Some w) \<Longrightarrow> v = w"
  by (metis ParseAddr_String option.inject)

section \<open>Ranges\<close>

definition px_base :: "prefix \<Rightarrow> nat" where "px_base p = unat (px_addr p)"
definition px_size :: "prefix \<Rightarrow> nat" where "px_size p = 2 ^ host_bits p"

lemma unat_drop_bit: "unat (drop_bit k w :: 32 word) = unat w div 2 ^ k"
  by (simp only: unat_drop_bit_eq) (simp add: drop_bit_eq_div)

lemma unat_lt: "unat (w :: 32 word) < 2 ^ 32"
  using unsigned_less [of w] by simp

lemma unat_of_small: "n < 2 ^ 32 \<Longrightarrow> unat (word_of_nat n :: 32 word) = n"
  by (simp add: unsigned_of_nat take_bit_nat_eq_self)

lemma px_base_Masked: "px_base (Masked p) = px_base p div px_size p * px_size p"
proof -
  have "push_bit (host_bits p) (unat (px_addr p) div px_size p) = px_base p div px_size p * px_size p"
    by (simp add: push_bit_eq_mult px_size_def px_base_def)
  moreover have "px_base p div px_size p * px_size p < 2 ^ 32"
    using unat_lt [of "px_addr p"] by (metis div_times_less_eq_dividend le_less_trans px_base_def)
  ultimately show ?thesis
    by (simp add: Masked_def px_base_def unsigned_push_bit_eq unat_drop_bit px_size_def take_bit_nat_eq_self)
qed

lemma host_bits_Masked [simp]: "host_bits (Masked p) = host_bits p"
  by (simp add: Masked_def host_bits_def)

lemma px_size_Masked [simp]: "px_size (Masked p) = px_size p"
  by (simp add: px_size_def)

definition masked :: "prefix \<Rightarrow> bool" where
  "masked p = (px_size p dvd px_base p)"

lemma masked_Masked: "masked (Masked p)"
  by (simp add: masked_def px_base_Masked)

lemma px_size_le: "px_size p \<le> 2 ^ 32"
  unfolding px_size_def host_bits_def by (rule power_increasing) simp_all

lemma px_size_pos [simp]: "0 < px_size p"
  by (simp add: px_size_def)

lemma px_end:
  assumes "masked p"
  shows "px_base p + px_size p \<le> 2 ^ 32"
proof -
  have "px_base p < 2 ^ 32" using unat_lt [of "px_addr p"] by (simp add: px_base_def)
  moreover have "px_size p dvd 2 ^ 32" unfolding px_size_def host_bits_def by (rule le_imp_power_dvd) simp
  moreover have "px_size p dvd px_base p" using assms by (simp add: masked_def)
  ultimately have "px_size p dvd 2 ^ 32 - px_base p" "0 < 2 ^ 32 - px_base p" by (simp_all add: dvd_diff_nat)
  then have "px_size p \<le> 2 ^ 32 - px_base p" by (rule dvd_imp_le)
  with \<open>px_base p < 2 ^ 32\<close> show ?thesis by simp
qed

lemma div_eq_interval:
  fixes a b m :: nat
  assumes "m dvd b" "0 < m"
  shows "a div m = b div m \<longleftrightarrow> b \<le> a \<and> a < b + m"
proof -
  from assms obtain k where b: "b = m * k" by (elim dvdE)
  have "a div m = k \<longleftrightarrow> m * k \<le> a \<and> a < m * k + m"
  proof
    assume "a div m = k"
    then show "m * k \<le> a \<and> a < m * k + m"
      using div_mult_mod_eq [of a m] mod_less_divisor [OF assms(2), of a] by (auto simp: mult.commute)
  qed (auto simp: div_nat_eqI mult.commute)
  with b assms(2) show ?thesis by simp
qed

lemma Contains_iff:
  assumes "masked p"
  shows "Contains p (Some w) \<longleftrightarrow> px_base p \<le> unat w \<and> unat w < px_base p + px_size p"
proof -
  have "Contains p (Some w) \<longleftrightarrow> unat w div px_size p = px_base p div px_size p"
    by (simp add: Contains_def px_size_def px_base_def word_unat_eq_iff unat_drop_bit)
  also have "\<dots> \<longleftrightarrow> px_base p \<le> unat w \<and> unat w < px_base p + px_size p"
    by (rule div_eq_interval) (use assms in \<open>simp_all add: masked_def px_size_def\<close>)
  finally show ?thesis .
qed

lemma Contains_None [simp]: "\<not> Contains p None"
  by (simp add: Contains_def)

lemma Next_None [simp]: "Next None = None"
  by (simp add: Next_def)

lemma Next_Some: "Next (Some w) = Some v \<Longrightarrow> unat v = unat w + 1"
proof -
  assume "Next (Some w) = Some v"
  then have "w \<noteq> - 1" "v = 1 + w" by (auto simp: Next_def split: if_splits)
  then show ?thesis using unatSuc [of w] by (metis Suc_eq_plus1 add.commute add_eq_0_iff)
qed

lemma Next_last: "Next (Some w) = None \<longleftrightarrow> unat w = 2 ^ 32 - 1"
proof -
  have "unat (- 1 :: 32 word) = 2 ^ 32 - 1" by (simp add: unsigned_minus_1_eq_mask mask_eq_exp_minus_1)
  then show ?thesis by (auto simp: Next_def word_unat_eq_iff)
qed

end
