(* ===== verification/Node_State.thy ===== *)
theory Node_State
  imports Net_Addr "HOL-Library.AList"
begin

text \<open>
  The node-agent's record store (\<open>nodeagent/internal/state/state.go\<close>): one file per machine,
  written by rename, and the allocator of guest addresses. A file holds a record or text that
  does not decode; the file system's failures are an argument (\<open>fsctx\<close>) of every operation (a
  failed write is one of the wrapped errors of the temp file or of the rename, and leaves the
  old file). An operation holds the store's lock, so it is one step.
\<close>

section \<open>Data\<close>

record snapshot_record =
  sr_Present :: bool
  sr_CreatedAt :: string
  sr_FCVersion :: string
  sr_MemBytes :: int

definition no_snapshot :: snapshot_record where
  "no_snapshot = \<lparr>sr_Present = False, sr_CreatedAt = [], sr_FCVersion = [], sr_MemBytes = 0\<rparr>"

record node_record =
  nr_MachineID :: string
  nr_Handle :: string
  nr_State :: string
  nr_Reason :: string
  nr_Vcpus :: int
  nr_MemMiB :: int
  nr_KernelRef :: string
  nr_RootfsRef :: string
  nr_NetworkPolicyMode :: string
  nr_NetworkPolicyDomains :: "string list"
  nr_TapName :: string
  nr_GuestIP :: string
  nr_GatewayIP :: string
  nr_MAC :: string
  nr_Pid :: int
  nr_DiskID :: string
  nr_DiskMiB :: int
  nr_Boot :: string
  nr_Snapshot :: snapshot_record
  nr_ResumeHygiene :: string
  nr_ResumeSkewMS :: int

datatype node_file = Decodes node_record | Undecodable string

record node_store =
  ns_files :: "(string \<times> node_file) list"
  ns_subnet :: prefix
  ns_gateway :: addr

record fsctx =
  fs_read :: "string \<Rightarrow> string option"
  fs_write :: "string \<Rightarrow> string option"
  fs_remove :: "string \<Rightarrow> string option"
  fs_dir :: "string option"

record alloc =
  al_TapName :: string
  al_GuestIP :: addr
  al_GatewayIP :: addr
  al_MAC :: string

section \<open>Names derived from the machine\<close>

definition ID8 :: "string \<Rightarrow> string" where
  "ID8 machineID = (let h = filter (\<lambda>c. c \<noteq> CHR ''-'') machineID in if length h > 8 then take 8 h else h)"

definition TapName :: "string \<Rightarrow> string" where
  "TapName machineID = ''tap'' @ ID8 machineID"

definition Handle :: "string \<Rightarrow> string" where
  "Handle machineID = ''fc-'' @ ID8 machineID"

definition hex2 :: "nat \<Rightarrow> string" where
  "hex2 n = [nibble_char (n div 16), nibble_char (n mod 16)]"

definition MACFor :: "addr \<Rightarrow> string" where
  "MACFor ip = (case ip of
       Some w \<Rightarrow> ''06:00:'' @ hex2 (octet 3 w) @ '':'' @ hex2 (octet 2 w) @ '':'' @ hex2 (octet 1 w) @ '':'' @ hex2 (octet 0 w)
     | None \<Rightarrow> ''06:00:00:00:00:00'')"

section \<open>Operations\<close>

definition NewStore :: "prefix \<Rightarrow> (string \<times> node_file) list \<Rightarrow> node_store" where
  "NewStore subnet files =
     \<lparr>ns_files = files, ns_subnet = Masked subnet, ns_gateway = Next (Some (px_addr (Masked subnet)))\<rparr>"

definition loadLocked :: "fsctx \<Rightarrow> node_store \<Rightarrow> string \<Rightarrow> node_record option res" where
  "loadLocked c s i = (case map_of (ns_files s) i of
       None \<Rightarrow> Inr None
     | Some f \<Rightarrow> (case fs_read c i of
         Some e \<Rightarrow> Inl (Errorf (''read state '' @ i @ '': '') (ErrorText e) [])
       | None \<Rightarrow> (case f of
           Undecodable e \<Rightarrow> Inl (Errorf (''decode state '' @ i @ '': '') (ErrorText e) [])
         | Decodes r \<Rightarrow> Inr (Some r))))"

definition saveLocked :: "fsctx \<Rightarrow> node_store \<Rightarrow> node_record \<Rightarrow> node_store res" where
  "saveLocked c s r = (case fs_write c (nr_MachineID r) of
       Some e \<Rightarrow> Inl (ErrorText e)
     | None \<Rightarrow> Inr (s\<lparr>ns_files := AList.update (nr_MachineID r) (Decodes r) (ns_files s)\<rparr>))"

fun load_all :: "fsctx \<Rightarrow> node_store \<Rightarrow> string list \<Rightarrow> node_record list res" where
  "load_all c s [] = Inr []"
| "load_all c s (i # is) = (case loadLocked c s i of
       Inl e \<Rightarrow> Inl e
     | Inr r \<Rightarrow> (case load_all c s is of
         Inl e \<Rightarrow> Inl e
       | Inr rs \<Rightarrow> Inr (case r of None \<Rightarrow> rs | Some x \<Rightarrow> x # rs)))"

fun insert_by_id :: "node_record \<Rightarrow> node_record list \<Rightarrow> node_record list" where
  "insert_by_id r [] = [r]"
| "insert_by_id r (x # xs) = (if str_less (nr_MachineID x) (nr_MachineID r) then x # insert_by_id r xs else r # x # xs)"

definition listLocked :: "fsctx \<Rightarrow> node_store \<Rightarrow> node_record list res" where
  "listLocked c s = (case fs_dir c of
       Some e \<Rightarrow> Inl (Errorf ''read state dir: '' (ErrorText e) [])
     | None \<Rightarrow> (case load_all c s (map fst (ns_files s)) of
         Inl e \<Rightarrow> Inl e
       | Inr rs \<Rightarrow> Inr (foldr insert_by_id rs [])))"

text \<open>The scan for a free address; that it returns is a lemma below.\<close>

partial_function (option) alloc_loop :: "prefix \<Rightarrow> 32 word list \<Rightarrow> addr \<Rightarrow> addr option" where
  "alloc_loop subnet used a =
     (case a of
        None \<Rightarrow> Some None
      | Some w \<Rightarrow>
        (if \<not> Contains subnet a then Some None
         else if \<not> Contains subnet (Next a) then Some None
         else if w \<notin> set used then Some a
         else alloc_loop subnet used (Next a)))"

definition used_addrs :: "node_record list \<Rightarrow> 32 word list" where
  "used_addrs rs = List.map_filter (\<lambda>r. ParseAddr (nr_GuestIP r)) rs"

definition no_free_ip :: "prefix \<Rightarrow> error" where
  "no_free_ip p = ErrorText (''no free IP in subnet '' @ prefix_String p)"

definition allocateIPLocked :: "fsctx \<Rightarrow> node_store \<Rightarrow> addr res option" where
  "allocateIPLocked c s = (case listLocked c s of
       Inl e \<Rightarrow> Some (Inl e)
     | Inr rs \<Rightarrow> map_option (\<lambda>a. case a of None \<Rightarrow> Inl (no_free_ip (ns_subnet s)) | Some w \<Rightarrow> Inr (Some w))
                   (alloc_loop (ns_subnet s) (used_addrs rs) (Next (ns_gateway s))))"

text \<open>
  The new store, the record and whether it existed; the outer option is the scan's. Errors
  leave the store as it was.
\<close>

definition Reserve :: "fsctx \<Rightarrow> node_store \<Rightarrow> string \<Rightarrow> (alloc \<Rightarrow> node_record)
    \<Rightarrow> (node_store \<times> node_record \<times> bool) res option" where
  "Reserve c s i mk = (case loadLocked c s i of
       Inl e \<Rightarrow> Some (Inl e)
     | Inr (Some r) \<Rightarrow> Some (Inr (s, r, True))
     | Inr None \<Rightarrow> (case allocateIPLocked c s of
         None \<Rightarrow> None
       | Some (Inl e) \<Rightarrow> Some (Inl e)
       | Some (Inr ip) \<Rightarrow>
         (let r = mk \<lparr>al_TapName = TapName i, al_GuestIP = ip, al_GatewayIP = ns_gateway s, al_MAC = MACFor ip\<rparr>
          in case saveLocked c s r of
               Inl e \<Rightarrow> Some (Inl e)
             | Inr s' \<Rightarrow> Some (Inr (s', r, False)))))"

definition Load :: "fsctx \<Rightarrow> node_store \<Rightarrow> string \<Rightarrow> node_record option res" where
  "Load c s i = loadLocked c s i"

definition Save :: "fsctx \<Rightarrow> node_store \<Rightarrow> node_record \<Rightarrow> node_store res" where
  "Save c s r = saveLocked c s r"

definition Update :: "fsctx \<Rightarrow> node_store \<Rightarrow> string \<Rightarrow> (node_record \<Rightarrow> node_record)
    \<Rightarrow> (node_store \<times> node_record option) res" where
  "Update c s i fn = (case loadLocked c s i of
       Inl e \<Rightarrow> Inl e
     | Inr None \<Rightarrow> Inr (s, None)
     | Inr (Some r) \<Rightarrow> (case saveLocked c s (fn r) of
         Inl e \<Rightarrow> Inl e
       | Inr s' \<Rightarrow> Inr (s', Some (fn r))))"

definition Delete :: "fsctx \<Rightarrow> node_store \<Rightarrow> string \<Rightarrow> node_store res" where
  "Delete c s i = (case fs_remove c i of
       Some e \<Rightarrow> (if map_of (ns_files s) i = None then Inr s else Inl (Errorf ''delete state: '' (ErrorText e) []))
     | None \<Rightarrow> Inr (s\<lparr>ns_files := AList.delete i (ns_files s)\<rparr>))"

definition List_records :: "fsctx \<Rightarrow> node_store \<Rightarrow> node_record list res" where
  "List_records c s = listLocked c s"

section \<open>The allocator\<close>

definition candidates :: "prefix \<Rightarrow> nat list" where
  "candidates p = [px_base p + 2 ..< px_base p + px_size p - 1]"

text \<open>The reference: the first candidate, in ascending order, that is not in use.\<close>

definition lowest_free :: "prefix \<Rightarrow> 32 word list \<Rightarrow> 32 word option" where
  "lowest_free p used = find (\<lambda>w. w \<notin> set used) (map word_of_nat (candidates p))"

lemma alloc_loop_from:
  assumes p: "masked p" and lo: "px_base p \<le> unat w"
  shows "alloc_loop p used (Some w)
    = Some (find (\<lambda>w. w \<notin> set used) (map word_of_nat [unat w ..< px_base p + px_size p - 1]))"
  using lo
proof (induction "2 ^ 32 - unat w" arbitrary: w rule: less_induct)
  case less
  let ?hi = "px_base p + px_size p - 1"
  have in_p: "Contains p (Some v) \<longleftrightarrow> px_base p \<le> unat v \<and> unat v \<le> ?hi" for v
    using Contains_iff [OF p, of v] px_size_pos [of p] by linarith
  show ?case
  proof (cases "unat w < ?hi")
    case False
    have "\<not> Contains p (Next (Some w))" if "Contains p (Some w)"
    proof (cases "Next (Some w)")
      case (Some v)
      show ?thesis
        unfolding Some using Next_Some [OF Some] False that in_p [of v] in_p [of w] px_size_pos [of p] by linarith
    qed simp
    with False show ?thesis by (subst alloc_loop.simps) auto
  next
    case True
    have "unat w \<noteq> 2 ^ 32 - 1" using True px_end [OF p] by linarith
    then obtain v where v: "Next (Some w) = Some v" using Next_last [of w] by (cases "Next (Some w)") auto
    note vw = Next_Some [OF v]
    have "Contains p (Some w)" "Contains p (Some v)" using True less.prems vw in_p by auto
    moreover have "alloc_loop p used (Some v) = Some (find (\<lambda>w. w \<notin> set used) (map word_of_nat [unat v ..< ?hi]))"
      using less.hyps [of v] less.prems vw unat_lt [of w] unat_lt [of v] by simp
    ultimately show ?thesis using True v vw by (subst alloc_loop.simps) (simp add: upt_conv_Cons)
  qed
qed

lemma gateway_next:
  assumes "ns_subnet s = Masked p" "ns_gateway s = Next (Some (px_addr (Masked p)))"
  shows "alloc_loop (ns_subnet s) used (Next (ns_gateway s)) = Some (lowest_free (ns_subnet s) used)"
proof -
  let ?b = "px_addr (Masked p)"
  have m: "masked (ns_subnet s)" using assms(1) masked_Masked by simp
  have base: "px_base (ns_subnet s) = unat ?b" using assms(1) by (simp add: px_base_def)
  show ?thesis
  proof (cases "Next (Next (Some ?b))")
    case None
    then have "unat ?b \<ge> 2 ^ 32 - 2"
      using Next_last [of ?b] Next_last Next_Some [of ?b] by (cases "Next (Some ?b)") auto
    then have "candidates (ns_subnet s) = []"
      using px_end [OF m] by (simp add: candidates_def base)
    with None assms show ?thesis by (simp add: lowest_free_def alloc_loop.simps)
  next
    case (Some v)
    then obtain g where g: "Next (Some ?b) = Some g" by (cases "Next (Some ?b)") auto
    have "unat v = unat ?b + 2" using Next_Some [OF g] Next_Some [of g v] Some g by simp
    with alloc_loop_from [OF m, of v used] base Some g assms show ?thesis
      by (simp add: lowest_free_def candidates_def)
  qed
qed

section \<open>The store as a partial map\<close>

definition opened :: "node_store \<Rightarrow> bool" where
  "opened s = (distinct (map fst (ns_files s)) \<and> (\<exists>p. ns_subnet s = Masked p \<and> ns_gateway s = Next (Some (px_addr (Masked p)))))"

definition record_of :: "node_store \<Rightarrow> string \<Rightarrow> node_record option" where
  "record_of s i = (case map_of (ns_files s) i of Some (Decodes r) \<Rightarrow> Some r | _ \<Rightarrow> None)"

definition records :: "node_store \<Rightarrow> node_record set" where
  "records s = {r. \<exists>i. record_of s i = Some r}"

lemma NewStore_opened: "distinct (map fst files) \<Longrightarrow> opened (NewStore p files)"
  by (auto simp: opened_def NewStore_def)

lemma loadLocked_Inr: "loadLocked c s i = Inr r \<Longrightarrow> record_of s i = r \<and> (r = None \<longrightarrow> map_of (ns_files s) i = None)"
  by (auto simp: loadLocked_def record_of_def split: option.splits node_file.splits)

lemma saveLocked_Inr:
  assumes "saveLocked c s r = Inr s'"
  shows "record_of s' = (record_of s)(nr_MachineID r \<mapsto> r) \<and> ns_subnet s' = ns_subnet s \<and> ns_gateway s' = ns_gateway s
    \<and> (opened s \<longrightarrow> opened s')"
  using assms by (auto simp: saveLocked_def record_of_def opened_def update_conv' distinct_update fun_eq_iff split: option.splits)

lemma Delete_Inr:
  assumes "Delete c s i = Inr s'"
  shows "record_of s' = (record_of s)(i := None) \<and> ns_subnet s' = ns_subnet s \<and> ns_gateway s' = ns_gateway s
    \<and> (opened s \<longrightarrow> opened s')"
  using assms
  by (auto simp: Delete_def record_of_def opened_def delete_conv' distinct_delete fun_eq_iff split: option.splits if_splits)

lemma Update_Inr:
  assumes "Update c s i fn = Inr (s', r')"
  shows "(case record_of s i of
      None \<Rightarrow> s' = s \<and> r' = None
    | Some r \<Rightarrow> r' = Some (fn r) \<and> record_of s' = (record_of s)(nr_MachineID (fn r) \<mapsto> fn r)
        \<and> ns_subnet s' = ns_subnet s \<and> ns_gateway s' = ns_gateway s \<and> (opened s \<longrightarrow> opened s'))"
proof (cases "loadLocked c s i")
  case (Inr o)
  with assms loadLocked_Inr [OF Inr] saveLocked_Inr show ?thesis
    by (auto simp: Update_def split: option.splits sum.splits)
qed (use assms in \<open>simp add: Update_def\<close>)

lemma set_insert_by_id [simp]: "set (insert_by_id r rs) = insert r (set rs)"
  by (induction rs) auto

lemma set_foldr_insert: "set (foldr insert_by_id rs []) = set rs"
  by (induction rs) auto

lemma load_all_Inr:
  assumes "load_all c s is = Inr rs"
  shows "set rs = {r. \<exists>i \<in> set is. record_of s i = Some r}"
  using assms
proof (induction "is" arbitrary: rs)
  case (Cons i "is")
  from Cons.prems obtain r rs' where "loadLocked c s i = Inr r" "load_all c s is = Inr rs'"
    "rs = (case r of None \<Rightarrow> rs' | Some x \<Rightarrow> x # rs')" by (auto split: sum.splits)
  with Cons.IH [of rs'] loadLocked_Inr [of c s i r] show ?case by (auto split: option.splits)
qed simp

lemma record_of_in: "record_of s i = Some r \<Longrightarrow> i \<in> fst ` set (ns_files s)"
  by (auto simp: record_of_def split: option.splits node_file.splits dest!: map_of_SomeD intro: rev_image_eqI)

lemma listLocked_Inr:
  assumes "listLocked c s = Inr rs"
  shows "set rs = records s"
proof -
  obtain xs where "load_all c s (map fst (ns_files s)) = Inr xs" "rs = foldr insert_by_id xs []"
    using assms by (auto simp: listLocked_def split: option.splits sum.splits)
  with load_all_Inr [OF this(1)] record_of_in show ?thesis
    by (fastforce simp: set_foldr_insert records_def)
qed

text \<open>The listing is ordered by machine id.\<close>

fun id_sorted :: "node_record list \<Rightarrow> bool" where
  "id_sorted (a # b # rs) = (\<not> str_less (nr_MachineID b) (nr_MachineID a) \<and> id_sorted (b # rs))"
| "id_sorted _ = True"

lemma str_less_asym: "str_less a b \<Longrightarrow> \<not> str_less b a"
  using str_less_trans str_less_irrefl by blast

lemma insert_by_id_sorted: "id_sorted rs \<Longrightarrow> id_sorted (insert_by_id r rs)"
  by (induction rs rule: id_sorted.induct) (auto dest: str_less_asym)

lemma listLocked_sorted: "listLocked c s = Inr rs \<Longrightarrow> id_sorted rs"
proof -
  have "id_sorted (foldr insert_by_id xs [])" for xs by (induction xs) (auto intro: insert_by_id_sorted)
  then show "listLocked c s = Inr rs \<Longrightarrow> id_sorted rs"
    by (auto simp: listLocked_def split: option.splits sum.splits)
qed

section \<open>Reserving an address\<close>

definition addrs :: "node_store \<Rightarrow> 32 word set" where
  "addrs s = {w. \<exists>r \<in> records s. ParseAddr (nr_GuestIP r) = Some w}"

lemma used_addrs_set: "set (used_addrs rs) = {w. \<exists>r \<in> set rs. ParseAddr (nr_GuestIP r) = Some w}"
  by (auto simp: used_addrs_def List.map_filter_def) (metis (mono_tags) imageI mem_Collect_eq option.sel option.simps(3))

lemma allocateIP_total:
  assumes "opened s"
  shows "\<exists>r. allocateIPLocked c s = Some r"
  using assms gateway_next by (fastforce simp: allocateIPLocked_def opened_def split: sum.splits)

lemma lowest_free_Some:
  assumes "masked p" "lowest_free p used = Some w"
  shows "w \<notin> set used \<and> px_base p + 2 \<le> unat w \<and> unat w < px_base p + px_size p - 1
    \<and> (\<forall>n. px_base p + 2 \<le> n \<and> n < unat w \<longrightarrow> word_of_nat n \<in> set used)"
proof -
  obtain k where k: "k < length (candidates p)" "w = word_of_nat (candidates p ! k)" "w \<notin> set used"
    "\<forall>j < k. word_of_nat (candidates p ! j) \<in> set used"
    using assms(2) by (auto simp: lowest_free_def find_Some_iff)
  have nth: "candidates p ! j = px_base p + 2 + j" if "j < length (candidates p)" for j
    using that by (simp add: candidates_def)
  have "px_base p + 2 + k < 2 ^ 32" using k(1) px_end [OF assms(1)] by (simp add: candidates_def)
  then have w: "unat w = px_base p + 2 + k"
    unfolding k(2) nth [OF k(1)] by (rule unat_of_small)
  moreover have "word_of_nat n \<in> set used" if "px_base p + 2 \<le> n" "n < unat w" for n
  proof -
    define j where "j = n - (px_base p + 2)"
    with that w have j: "j < k" "n = px_base p + 2 + j" by auto
    with k(1,4) nth [of j] show ?thesis by auto
  qed
  ultimately show ?thesis using k by (auto simp: candidates_def)
qed

lemma Reserve_new:
  assumes "opened s" "Reserve c s i mk = Some (Inr (s', r, False))"
  shows "\<exists>w rs. listLocked c s = Inr rs \<and> lowest_free (ns_subnet s) (used_addrs rs) = Some w
    \<and> r = mk \<lparr>al_TapName = TapName i, al_GuestIP = Some w, al_GatewayIP = ns_gateway s, al_MAC = MACFor (Some w)\<rparr>
    \<and> record_of s i = None \<and> saveLocked c s r = Inr s'"
proof -
  have ld: "loadLocked c s i = Inr None"
    using assms(2) by (auto simp: Reserve_def Let_def split: sum.splits option.splits)
  then obtain ip where ip: "allocateIPLocked c s = Some (Inr ip)" "saveLocked c s r = Inr s'"
    "r = mk \<lparr>al_TapName = TapName i, al_GuestIP = ip, al_GatewayIP = ns_gateway s, al_MAC = MACFor ip\<rparr>"
    using assms(2) by (auto simp: Reserve_def Let_def split: sum.splits option.splits)
  from assms(1) obtain p where "ns_subnet s = Masked p" "ns_gateway s = Next (Some (px_addr (Masked p)))"
    by (auto simp: opened_def)
  from gateway_next [OF this] ip(1) obtain rs w where "listLocked c s = Inr rs"
    "lowest_free (ns_subnet s) (used_addrs rs) = Some w" "ip = Some w"
    by (fastforce simp: allocateIPLocked_def split: sum.splits option.splits)
  with ip loadLocked_Inr [OF ld] show ?thesis by blast
qed

lemma Reserve_old:
  "Reserve c s i mk = Some (Inr (s', r, True)) \<Longrightarrow> s' = s \<and> record_of s i = Some r"
  by (auto simp: Reserve_def Let_def dest: loadLocked_Inr split: sum.splits option.splits)

text \<open>
  The store's invariant: a record is filed under its machine's id and its address is a
  candidate of the subnet that no other record has.
\<close>

definition ips_ok :: "node_store \<Rightarrow> bool" where
  "ips_ok s = (opened s
     \<and> (\<forall>i r. record_of s i = Some r \<longrightarrow> nr_MachineID r = i
          \<and> (\<exists>w. nr_GuestIP r = addr_String (Some w) \<and> unat w \<in> set (candidates (ns_subnet s))))
     \<and> (\<forall>i j r q. record_of s i = Some r \<longrightarrow> record_of s j = Some q \<longrightarrow> nr_GuestIP r = nr_GuestIP q \<longrightarrow> i = j))"

lemma ips_ok_put:
  assumes "ips_ok s" "record_of s i = Some r0" "nr_MachineID r = i" "nr_GuestIP r = nr_GuestIP r0"
    "record_of s' = (record_of s)(i \<mapsto> r)" "ns_subnet s' = ns_subnet s" "opened s'"
  shows "ips_ok s'"
  using assms unfolding ips_ok_def by (auto split: if_splits)

lemma Update_ips_ok:
  assumes "ips_ok s" "Update c s i fn = Inr (s', r')" "\<And>r. nr_MachineID (fn r) = nr_MachineID r \<and> nr_GuestIP (fn r) = nr_GuestIP r"
  shows "ips_ok s'"
proof (cases "record_of s i")
  case None
  with Update_Inr [OF assms(2)] assms(1) show ?thesis by simp
next
  case (Some r)
  have "opened s" "nr_MachineID r = i" using assms(1) Some by (auto simp: ips_ok_def)
  with Update_Inr [OF assms(2)] Some assms(1,3) show ?thesis
    by (auto intro!: ips_ok_put [OF assms(1) Some, of "fn r"])
qed

lemma Delete_ips_ok:
  assumes "ips_ok s" "Delete c s i = Inr s'"
  shows "ips_ok s'"
  using Delete_Inr [OF assms(2)] assms(1) by (auto simp: ips_ok_def split: if_splits)

lemma Reserve_ips_ok:
  assumes "ips_ok s" "Reserve c s i mk = Some (Inr (s', r, b))"
    "\<And>a. nr_MachineID (mk a) = i \<and> nr_GuestIP (mk a) = addr_String (al_GuestIP a)"
  shows "ips_ok s'"
proof (cases b)
  case True
  with Reserve_old [of c s i mk s' r] assms(1,2) show ?thesis by simp
next
  case False
  have op: "opened s" using assms(1) by (simp add: ips_ok_def)
  then have m: "masked (ns_subnet s)" using masked_Masked by (auto simp: opened_def)
  obtain w rs where w: "listLocked c s = Inr rs" "lowest_free (ns_subnet s) (used_addrs rs) = Some w"
    "nr_MachineID r = i" "nr_GuestIP r = addr_String (Some w)" "saveLocked c s r = Inr s'"
    using Reserve_new [OF op, of c i mk s' r] assms(2,3) False by auto
  have fresh: "nr_GuestIP q \<noteq> nr_GuestIP r" if "record_of s j = Some q" for j q
  proof
    assume eq: "nr_GuestIP q = nr_GuestIP r"
    have "q \<in> set rs" using listLocked_Inr [OF w(1)] that by (auto simp: records_def)
    then have "w \<in> set (used_addrs rs)" using eq w(4) ParseAddr_String [of w] by (auto simp: used_addrs_set intro!: bexI [of _ q])
    with lowest_free_Some [OF m w(2)] show False by blast
  qed
  have "unat w \<in> set (candidates (ns_subnet s))" using lowest_free_Some [OF m w(2)] by (simp add: candidates_def)
  with saveLocked_Inr [OF w(5)] w(3,4) fresh assms(1) op show ?thesis
    unfolding ips_ok_def by (auto split: if_splits; metis)
qed


end
