(* ===== verification/Dev_Driver.thy ===== *)
theory Dev_Driver
  imports Node_State Agent_Api
begin

text \<open>
  The process-backed VM driver (\<open>nodeagent/internal/driver/dev/dev.go\<close>). The driver's memory is
  the table of children and the set of machines with an ensure in flight; what outlives it is
  the record store and the operating system's process table. Goroutines that the operations
  leave behind are entries of \<open>dd_pending\<close> and run later, in any order; an ensure that holds its
  slot but has not finished is such an entry too. The sockets and directories of a machine
  carry no state the driver reads.
\<close>

section \<open>Data\<close>

record vm_spec =
  vs_MachineID :: string
  vs_Vcpus :: int
  vs_MemMiB :: int
  vs_KernelRef :: string
  vs_RootfsRef :: string
  vs_Disks :: "(string \<times> int) list"
  vs_VolumeKey :: "8 word list"
  vs_PolicyMode :: string
  vs_PolicyDomains :: "string list"

record driver_status =
  ds_MachineID :: string
  ds_State :: string
  ds_Reason :: string
  ds_Handle :: string
  ds_GuestIP :: string
  ds_Boot :: string
  ds_DiskID :: string
  ds_Snapshot :: snapshot_record

record driver_capacity =
  dc_TotalVcpus :: int
  dc_TotalMemMiB :: int
  dc_TotalDiskMiB :: int
  dc_UsedVcpus :: int
  dc_UsedMemMiB :: int
  dc_UsedDiskMiB :: int

text \<open>
  A process of the host: running, or exited and not waited for. \<open>kill(pid, 0)\<close> succeeds for both.
\<close>

datatype proc = Running | Zombie

datatype pending =
    EnsurePrepare vm_spec
  | EnsureLaunch vm_spec
  | FinishBoot string string int
  | FinishStop string "int option" bool
  | FinishStopForget string bool
  | FinishStopRecord string bool

record dev_driver =
  dd_store :: node_store
  dd_procs :: "(string \<times> int) list"
  dd_booting :: "string list"
  dd_capVcpus :: int
  dd_capMemMiB :: int
  dd_capDiskMiB :: int
  dd_os :: "(int \<times> proc) list"
  dd_pending :: "pending list"

text \<open>
  What the environment answers: the file system, the pid of a new child or why it could not
  be started, and the clock's text.
\<close>

record devctx =
  dx_fs :: fsctx
  dx_start :: "string + int"
  dx_now :: string

definition FailBootRef :: string where "FailBootRef = ''dev:fail-boot''"

definition NewDev :: "node_store \<Rightarrow> (int \<times> proc) list \<Rightarrow> dev_driver" where
  "NewDev st os = \<lparr>dd_store = st, dd_procs = [], dd_booting = [], dd_capVcpus = 0, dd_capMemMiB = 0, dd_capDiskMiB = 0,
     dd_os = os, dd_pending = []\<rparr>"

definition WithCapacity :: "dev_driver \<Rightarrow> int \<Rightarrow> int \<Rightarrow> int \<Rightarrow> dev_driver" where
  "WithCapacity d vcpus memMiB diskMiB = d\<lparr>dd_capVcpus := vcpus, dd_capMemMiB := memMiB, dd_capDiskMiB := diskMiB\<rparr>"

section \<open>Processes\<close>

definition processAlive :: "dev_driver \<Rightarrow> int \<Rightarrow> bool" where
  "processAlive d pid = (pid > 0 \<and> map_of (dd_os d) pid \<noteq> None)"

definition dev_alive :: "dev_driver \<Rightarrow> string \<Rightarrow> int \<Rightarrow> bool" where
  "dev_alive d i pid = (case map_of (dd_procs d) i of
       Some p \<Rightarrow> processAlive d p
     | None \<Rightarrow> pid > 0 \<and> processAlive d pid)"

text \<open>Signalling a child and waiting for it: it is gone from the process table.\<close>

definition dev_kill :: "dev_driver \<Rightarrow> int option \<Rightarrow> dev_driver" where
  "dev_kill d cmd = (case cmd of None \<Rightarrow> d | Some pid \<Rightarrow> d\<lparr>dd_os := AList.delete pid (dd_os d)\<rparr>)"

lemma dev_kill_simps [simp]:
  "dd_pending (dev_kill d x) = dd_pending d" "dd_booting (dev_kill d x) = dd_booting d" "dd_store (dev_kill d x) = dd_store d"
  "dd_procs (dev_kill d x) = dd_procs d"
  by (simp_all add: dev_kill_def split: option.splits)

definition adopt :: "dev_driver \<Rightarrow> string \<Rightarrow> int \<Rightarrow> dev_driver" where
  "adopt d i pid = d\<lparr>dd_procs := AList.update i pid (dd_procs d)\<rparr>"

section \<open>Ensure\<close>

definition spec_disk :: "vm_spec \<Rightarrow> string \<times> int" where
  "spec_disk sp = (case vs_Disks sp of [] \<Rightarrow> ([], 0) | dk # _ \<Rightarrow> dk)"

definition fresh_record :: "vm_spec \<Rightarrow> alloc \<Rightarrow> node_record" where
  "fresh_record sp a =
     \<lparr>nr_MachineID = vs_MachineID sp, nr_Handle = Handle (vs_MachineID sp), nr_State = AgentCreating, nr_Reason = [],
      nr_Vcpus = vs_Vcpus sp, nr_MemMiB = vs_MemMiB sp, nr_KernelRef = vs_KernelRef sp, nr_RootfsRef = vs_RootfsRef sp,
      nr_NetworkPolicyMode = vs_PolicyMode sp, nr_NetworkPolicyDomains = vs_PolicyDomains sp,
      nr_TapName = al_TapName a, nr_GuestIP = addr_String (al_GuestIP a), nr_GatewayIP = addr_String (al_GatewayIP a),
      nr_MAC = al_MAC a, nr_Pid = 0, nr_DiskID = fst (spec_disk sp), nr_DiskMiB = snd (spec_disk sp), nr_Boot = BootCold,
      nr_Snapshot = no_snapshot, nr_ResumeHygiene = [], nr_ResumeSkewMS = 0\<rparr>"

definition reboot_record :: "vm_spec \<Rightarrow> string \<Rightarrow> node_record \<Rightarrow> node_record" where
  "reboot_record sp boot r =
     r\<lparr>nr_State := AgentCreating, nr_Reason := [], nr_Vcpus := vs_Vcpus sp, nr_MemMiB := vs_MemMiB sp,
       nr_KernelRef := vs_KernelRef sp, nr_RootfsRef := vs_RootfsRef sp,
       nr_DiskID := (if fst (spec_disk sp) \<noteq> [] then fst (spec_disk sp) else nr_DiskID r),
       nr_DiskMiB := (if fst (spec_disk sp) \<noteq> [] then snd (spec_disk sp) else nr_DiskMiB r),
       nr_Boot := boot, nr_Snapshot := no_snapshot,
       nr_NetworkPolicyMode := vs_PolicyMode sp, nr_NetworkPolicyDomains := vs_PolicyDomains sp\<rparr>"

definition release :: "dev_driver \<Rightarrow> string \<Rightarrow> dev_driver" where
  "release d i = d\<lparr>dd_booting := removeAll i (dd_booting d)\<rparr>"

text \<open>
  The call in three parts. \<open>Ensure_claim\<close> takes the machine's slot (the second of two
  concurrent calls returns at once); \<open>Ensure_prepare\<close> reserves or refreshes the record, or finds
  that nothing is to be done (\<open>Inr False\<close>); \<open>Ensure_launch\<close> starts the child.
\<close>

definition Ensure_claim :: "dev_driver \<Rightarrow> vm_spec \<Rightarrow> dev_driver \<times> bool" where
  "Ensure_claim d sp = (if vs_MachineID sp \<in> set (dd_booting d) then (d, False)
     else (d\<lparr>dd_booting := vs_MachineID sp # dd_booting d\<rparr>, True))"

definition Ensure_prepare :: "devctx \<Rightarrow> dev_driver \<Rightarrow> vm_spec \<Rightarrow> (dev_driver \<times> bool res) option" where
  "Ensure_prepare c d sp =
     (case Reserve (dx_fs c) (dd_store d) (vs_MachineID sp) (fresh_record sp) of
        None \<Rightarrow> None
      | Some (Inl e) \<Rightarrow> Some (d, Inl e)
      | Some (Inr (st, r, existed)) \<Rightarrow>
        (let d1 = d\<lparr>dd_store := st\<rparr> in
         if \<not> existed then Some (d1, Inr True)
         else if (nr_State r = AgentCreating \<or> nr_State r = AgentRunning) \<and> dev_alive d1 (vs_MachineID sp) (nr_Pid r)
         then Some (d1, Inr False)
         else (case Update (dx_fs c) st (vs_MachineID sp)
                 (reboot_record sp (if sr_Present (nr_Snapshot r) then BootResumed else BootCold)) of
             Inl e \<Rightarrow> Some (d1, Inl e)
           | Inr (st', _) \<Rightarrow> Some (d1\<lparr>dd_store := st'\<rparr>, Inr True))))"

definition dev_boot :: "devctx \<Rightarrow> dev_driver \<Rightarrow> string \<Rightarrow> string \<Rightarrow> dev_driver \<times> error option" where
  "dev_boot c d i kernelRef = (case dx_start c of
       Inl e \<Rightarrow> (d, Some (ErrorText e))
     | Inr pid \<Rightarrow>
       (let d1 = d\<lparr>dd_os := AList.update pid Running (dd_os d), dd_procs := AList.update i pid (dd_procs d)\<rparr>
        in case Update (dx_fs c) (dd_store d1) i (\<lambda>r. r\<lparr>nr_Pid := pid\<rparr>) of
             Inl e \<Rightarrow> (d1, Some e)
           | Inr (st, _) \<Rightarrow> (d1\<lparr>dd_store := st, dd_pending := dd_pending d1 @ [FinishBoot i kernelRef pid]\<rparr>, None)))"

text \<open>An update whose error the code discards.\<close>

definition update_quietly :: "devctx \<Rightarrow> dev_driver \<Rightarrow> string \<Rightarrow> (node_record \<Rightarrow> node_record) \<Rightarrow> dev_driver" where
  "update_quietly c d i fn = (case Update (dx_fs c) (dd_store d) i fn of Inl e \<Rightarrow> d | Inr (st, _) \<Rightarrow> d\<lparr>dd_store := st\<rparr>)"

definition start_failed :: "error \<Rightarrow> node_record \<Rightarrow> node_record" where
  "start_failed e r = r\<lparr>nr_State := AgentError, nr_Reason := ''failed to start stub: '' @ Error e\<rparr>"

definition Ensure_launch :: "devctx \<Rightarrow> dev_driver \<Rightarrow> vm_spec \<Rightarrow> dev_driver \<times> string res" where
  "Ensure_launch c d sp = (case dev_boot c d (vs_MachineID sp) (vs_KernelRef sp) of
       (d1, None) \<Rightarrow> (d1, Inr (Handle (vs_MachineID sp)))
     | (d1, Some e) \<Rightarrow> (update_quietly c d1 (vs_MachineID sp) (start_failed e), Inl e))"

definition EnsureRunning :: "devctx \<Rightarrow> dev_driver \<Rightarrow> vm_spec \<Rightarrow> (dev_driver \<times> string res) option" where
  "EnsureRunning c d sp =
     (let (d1, claimed) = Ensure_claim d sp; i = vs_MachineID sp in
      if \<not> claimed then Some (d1, Inr (Handle i))
      else case Ensure_prepare c d1 sp of
        None \<Rightarrow> None
      | Some (d2, Inl e) \<Rightarrow> Some (release d2 i, Inl e)
      | Some (d2, Inr False) \<Rightarrow> Some (release d2 i, Inr (Handle i))
      | Some (d2, Inr True) \<Rightarrow> (let (d3, r) = Ensure_launch c d2 sp in Some (release d3 i, r)))"

section \<open>The goroutines\<close>

definition boot_failed :: "node_record \<Rightarrow> node_record" where
  "boot_failed r = (if nr_State r = AgentCreating
     then r\<lparr>nr_State := AgentError, nr_Reason := ''boot failed (dev:fail-boot)'', nr_Pid := 0\<rparr> else r)"

definition booted :: "node_record \<Rightarrow> node_record" where
  "booted r = (if nr_State r = AgentCreating then r\<lparr>nr_State := AgentRunning\<rparr> else r)"

definition finishBoot :: "devctx \<Rightarrow> dev_driver \<Rightarrow> string \<Rightarrow> string \<Rightarrow> int \<Rightarrow> dev_driver" where
  "finishBoot c d i kernelRef pid = (if kernelRef = FailBootRef
     then update_quietly c (dev_kill d (Some pid)) i boot_failed
     else update_quietly c d i booted)"

definition stopped_record :: "string \<Rightarrow> bool \<Rightarrow> node_record \<Rightarrow> node_record" where
  "stopped_record now hibernate r =
     r\<lparr>nr_State := AgentStopped, nr_Pid := 0,
       nr_Snapshot := (if hibernate
         then \<lparr>sr_Present = True, sr_CreatedAt = now, sr_FCVersion = ''dev'', sr_MemBytes = int64 (int64 (nr_MemMiB r * 1024) * 1024)\<rparr>
         else no_snapshot)\<rparr>"

text \<open>\<open>finishStop\<close>: end the child, forget it, record the machine as stopped; other operations may come between.\<close>

definition finishStop_child :: "dev_driver \<Rightarrow> string \<Rightarrow> int option \<Rightarrow> bool \<Rightarrow> dev_driver" where
  "finishStop_child d i cmd hibernate =
     (let d1 = dev_kill d cmd in d1\<lparr>dd_pending := dd_pending d1 @ [FinishStopForget i hibernate]\<rparr>)"

definition finishStop_forget :: "dev_driver \<Rightarrow> string \<Rightarrow> bool \<Rightarrow> dev_driver" where
  "finishStop_forget d i hibernate =
     d\<lparr>dd_procs := AList.delete i (dd_procs d), dd_pending := dd_pending d @ [FinishStopRecord i hibernate]\<rparr>"

definition finishStop_record :: "devctx \<Rightarrow> dev_driver \<Rightarrow> string \<Rightarrow> bool \<Rightarrow> dev_driver" where
  "finishStop_record c d i hibernate = update_quietly c d i (stopped_record (dx_now c) hibernate)"

text \<open>Running a pending entry that has been taken off the list.\<close>

definition run_pending :: "devctx \<Rightarrow> dev_driver \<Rightarrow> pending \<Rightarrow> dev_driver option" where
  "run_pending c d g = (case g of
       EnsurePrepare sp \<Rightarrow> (case Ensure_prepare c d sp of
           None \<Rightarrow> None
         | Some (d1, Inr True) \<Rightarrow> Some (d1\<lparr>dd_pending := dd_pending d1 @ [EnsureLaunch sp]\<rparr>)
         | Some (d1, _) \<Rightarrow> Some (release d1 (vs_MachineID sp)))
     | EnsureLaunch sp \<Rightarrow> Some (release (fst (Ensure_launch c d sp)) (vs_MachineID sp))
     | FinishBoot i k pid \<Rightarrow> Some (finishBoot c d i k pid)
     | FinishStop i cmd h \<Rightarrow> Some (finishStop_child d i cmd h)
     | FinishStopForget i h \<Rightarrow> Some (finishStop_forget d i h)
     | FinishStopRecord i h \<Rightarrow> Some (finishStop_record c d i h))"

section \<open>Stop, status, destroy, list, capacity, re-attach\<close>

definition dev_Stop :: "devctx \<Rightarrow> dev_driver \<Rightarrow> string \<Rightarrow> string \<Rightarrow> dev_driver \<times> error option" where
  "dev_Stop c d i mode = (case Load (dx_fs c) (dd_store d) i of
       Inl e \<Rightarrow> (d, Some e)
     | Inr None \<Rightarrow> (d, Some (Sentinel DriverErrUnknownMachine))
     | Inr (Some r) \<Rightarrow>
       if nr_State r = AgentStopped then (d, None)
       else let hibernate = (mode \<noteq> StopModePoweroff);
                trans = (if hibernate then AgentHibernating else AgentStopping)
            in case Update (dx_fs c) (dd_store d) i (\<lambda>r. r\<lparr>nr_State := trans\<rparr>) of
                 Inl e \<Rightarrow> (d, Some e)
               | Inr (st, _) \<Rightarrow>
                 (d\<lparr>dd_store := st, dd_pending := dd_pending d @ [FinishStop i (map_of (dd_procs d) i) hibernate]\<rparr>, None))"

definition statusOf :: "node_record \<Rightarrow> driver_status" where
  "statusOf r = \<lparr>ds_MachineID = nr_MachineID r, ds_State = nr_State r, ds_Reason = nr_Reason r, ds_Handle = nr_Handle r,
     ds_GuestIP = nr_GuestIP r, ds_Boot = nr_Boot r, ds_DiskID = nr_DiskID r, ds_Snapshot = nr_Snapshot r\<rparr>"

definition dev_Status :: "devctx \<Rightarrow> dev_driver \<Rightarrow> string \<Rightarrow> driver_status res" where
  "dev_Status c d i = (case Load (dx_fs c) (dd_store d) i of
       Inl e \<Rightarrow> Inl e
     | Inr None \<Rightarrow> Inl (Sentinel DriverErrUnknownMachine)
     | Inr (Some r) \<Rightarrow> Inr (statusOf r))"

definition dev_Destroy :: "devctx \<Rightarrow> dev_driver \<Rightarrow> string \<Rightarrow> dev_driver \<times> error option" where
  "dev_Destroy c d i =
     (let cmd = map_of (dd_procs d) i;
          d1 = dev_kill (d\<lparr>dd_procs := AList.delete i (dd_procs d)\<rparr>) cmd
      in case Delete (dx_fs c) (dd_store d1) i of
           Inl e \<Rightarrow> (d1, Some e)
         | Inr st \<Rightarrow> (d1\<lparr>dd_store := st\<rparr>, None))"

definition dev_List :: "devctx \<Rightarrow> dev_driver \<Rightarrow> driver_status list res" where
  "dev_List c d = (case List_records (dx_fs c) (dd_store d) of Inl e \<Rightarrow> Inl e | Inr rs \<Rightarrow> Inr (map statusOf rs))"

definition add_capacity :: "node_record \<Rightarrow> driver_capacity \<Rightarrow> driver_capacity" where
  "add_capacity r k =
     (let k1 = k\<lparr>dc_UsedDiskMiB := int64 (dc_UsedDiskMiB k + nr_DiskMiB r)\<rparr>
      in if nr_State r = AgentStopped \<or> nr_State r = AgentError then k1
         else k1\<lparr>dc_UsedVcpus := int64 (dc_UsedVcpus k1 + nr_Vcpus r), dc_UsedMemMiB := int64 (dc_UsedMemMiB k1 + nr_MemMiB r)\<rparr>)"

definition dev_Capacity :: "devctx \<Rightarrow> dev_driver \<Rightarrow> driver_capacity res" where
  "dev_Capacity c d = (case List_records (dx_fs c) (dd_store d) of
       Inl e \<Rightarrow> Inl e
     | Inr rs \<Rightarrow> Inr (fold add_capacity rs
         \<lparr>dc_TotalVcpus = dd_capVcpus d, dc_TotalMemMiB = dd_capMemMiB d, dc_TotalDiskMiB = dd_capDiskMiB d,
          dc_UsedVcpus = 0, dc_UsedMemMiB = 0, dc_UsedDiskMiB = 0\<rparr>))"

definition lost_record :: "node_record \<Rightarrow> node_record" where
  "lost_record r = r\<lparr>nr_State := AgentError, nr_Reason := ''vm process exited while agent was down'', nr_Pid := 0\<rparr>"

definition reattach_one :: "devctx \<Rightarrow> node_record \<Rightarrow> dev_driver \<Rightarrow> dev_driver" where
  "reattach_one c r d =
     (let i = nr_MachineID r; alive = (nr_Pid r > 0 \<and> processAlive d (nr_Pid r)) in
      if nr_State r = AgentCreating \<or> nr_State r = AgentRunning
      then if alive
        then let d1 = adopt d i (nr_Pid r)
             in if nr_State r = AgentCreating then update_quietly c d1 i (\<lambda>r. r\<lparr>nr_State := AgentRunning\<rparr>) else d1
        else update_quietly c d i lost_record
      else if nr_State r = AgentStopping \<or> nr_State r = AgentHibernating
      then let h = (nr_State r = AgentHibernating) in
        if alive
        then let d1 = adopt d i (nr_Pid r)
             in d1\<lparr>dd_pending := dd_pending d1 @ [FinishStop i (map_of (dd_procs d1) i) h]\<rparr>
        else d\<lparr>dd_pending := dd_pending d @ [FinishStop i None h]\<rparr>
      else d)"

definition Reattach :: "devctx \<Rightarrow> dev_driver \<Rightarrow> dev_driver \<times> error option" where
  "Reattach c d = (case List_records (dx_fs c) (dd_store d) of
       Inl e \<Rightarrow> (d, Some e)
     | Inr rs \<Rightarrow> (fold (reattach_one c) rs d, None))"

end
