(* ===== verification/Dev_System.thy ===== *)
theory Dev_System
  imports Dev_Driver
begin

text \<open>
  The dev driver as a concurrent system: requests, the goroutines they leave behind, children
  that exit and restarts of the agent, interleaved in any order; and the invariant every
  reachable state has.
\<close>

section \<open>Steps\<close>

definition fresh_pid :: "devctx \<Rightarrow> dev_driver \<Rightarrow> bool" where
  "fresh_pid c d = (\<forall>pid. dx_start c = Inr pid \<longrightarrow> pid > 0 \<and> pid \<notin> fst ` set (dd_os d))"

definition spawn :: "dev_driver \<Rightarrow> pending \<Rightarrow> dev_driver" where
  "spawn d g = d\<lparr>dd_pending := dd_pending d @ [g]\<rparr>"

definition take_pending :: "dev_driver \<Rightarrow> pending \<Rightarrow> dev_driver" where
  "take_pending d g = d\<lparr>dd_pending := remove1 g (dd_pending d)\<rparr>"

text \<open>After a crash of the agent its children belong to init, which waits for the exited ones.\<close>

definition restarted :: "dev_driver \<Rightarrow> dev_driver" where
  "restarted d = WithCapacity (NewDev (dd_store d) (filter (\<lambda>x. snd x = Running) (dd_os d)))
     (dd_capVcpus d) (dd_capMemMiB d) (dd_capDiskMiB d)"

inductive dev_step :: "dev_driver \<Rightarrow> dev_driver \<Rightarrow> bool" where
  ensure: "Ensure_claim d sp = (d1, True) \<Longrightarrow> dev_step d (spawn d1 (EnsurePrepare sp))"
| goes: "g \<in> set (dd_pending d) \<Longrightarrow> fresh_pid c d \<Longrightarrow> run_pending c (take_pending d g) g = Some d' \<Longrightarrow> dev_step d d'"
| stop: "dev_step d (fst (dev_Stop c d i mode))"
| destroy: "dev_step d (fst (dev_Destroy c d i))"
| exits: "map_of (dd_os d) pid = Some Running \<Longrightarrow> dev_step d (d\<lparr>dd_os := AList.update pid Zombie (dd_os d)\<rparr>)"
| restart: "dev_step d (fst (Reattach c (restarted d)))"

inductive dev_reachable :: "prefix \<Rightarrow> dev_driver \<Rightarrow> bool" for p where
  init: "dev_reachable p (WithCapacity (NewDev (NewStore p []) []) v m k)"
| step: "dev_reachable p d \<Longrightarrow> dev_step d d' \<Longrightarrow> dev_reachable p d'"

section \<open>Invariant\<close>

fun ensure_of :: "pending \<Rightarrow> string list" where
  "ensure_of (EnsurePrepare sp) = [vs_MachineID sp]"
| "ensure_of (EnsureLaunch sp) = [vs_MachineID sp]"
| "ensure_of _ = []"

definition in_flight :: "dev_driver \<Rightarrow> string list" where
  "in_flight d = concat (map ensure_of (dd_pending d))"

definition dev_ok :: "prefix \<Rightarrow> dev_driver \<Rightarrow> bool" where
  "dev_ok p d = (ips_ok (dd_store d) \<and> ns_subnet (dd_store d) = Masked p \<and> distinct (in_flight d)
     \<and> set (in_flight d) = set (dd_booting d))"

lemma dev_ok_cong:
  "dd_store d' = dd_store d \<Longrightarrow> in_flight d' = in_flight d \<Longrightarrow> dd_booting d' = dd_booting d \<Longrightarrow> dev_ok p d' = dev_ok p d"
  by (simp add: dev_ok_def)

lemma in_flight_spawn [simp]: "in_flight (spawn d g) = in_flight d @ ensure_of g"
  by (simp add: in_flight_def spawn_def)

lemma spawn_simps [simp]: "dd_store (spawn d g) = dd_store d" "dd_booting (spawn d g) = dd_booting d"
  by (simp_all add: spawn_def)

lemma concat_remove1:
  "g \<in> set gs \<Longrightarrow> \<exists>xs ys. concat (map ensure_of gs) = xs @ ensure_of g @ ys \<and> concat (map ensure_of (remove1 g gs)) = xs @ ys"
proof (induction gs)
  case (Cons a gs)
  show ?case
  proof (cases "a = g")
    case True
    then show ?thesis by (intro exI [of _ "[]"] exI [of _ "concat (map ensure_of gs)"]) simp
  next
    case False
    with Cons obtain xs ys where "concat (map ensure_of gs) = xs @ ensure_of g @ ys" "concat (map ensure_of (remove1 g gs)) = xs @ ys"
      by auto
    with False show ?thesis by (intro exI [of _ "ensure_of a @ xs"] exI [of _ ys]) simp
  qed
qed simp

text \<open>Taking an entry off the list: the machine of an ensure entry is no longer in flight.\<close>

lemma take_pending_ok:
  assumes "dev_ok p d" "g \<in> set (dd_pending d)"
  shows "distinct (in_flight (take_pending d g)) \<and> set (in_flight (take_pending d g)) = set (dd_booting d) - set (ensure_of g)
    \<and> set (ensure_of g) \<subseteq> set (dd_booting d)"
proof -
  obtain xs ys where xy: "in_flight d = xs @ ensure_of g @ ys" "in_flight (take_pending d g) = xs @ ys"
    using concat_remove1 [OF assms(2)] by (auto simp: in_flight_def take_pending_def)
  have "distinct (in_flight d)" "set (in_flight d) = set (dd_booting d)" using assms(1) by (auto simp: dev_ok_def)
  then show ?thesis unfolding xy by auto
qed

definition keeps_address :: "(node_record \<Rightarrow> node_record) \<Rightarrow> bool" where
  "keeps_address fn = (\<forall>r. nr_MachineID (fn r) = nr_MachineID r \<and> nr_GuestIP (fn r) = nr_GuestIP r)"

lemma keeps_address_fns [simp, intro]:
  "keeps_address (reboot_record sp b)" "keeps_address (start_failed e)" "keeps_address boot_failed" "keeps_address booted"
  "keeps_address (stopped_record now h)" "keeps_address lost_record" "keeps_address (nr_State_update f)"
  "keeps_address (nr_Pid_update g)"
  by (simp_all add: keeps_address_def reboot_record_def start_failed_def boot_failed_def booted_def stopped_record_def lost_record_def)

definition store_ok :: "prefix \<Rightarrow> node_store \<Rightarrow> bool" where
  "store_ok p st = (ips_ok st \<and> ns_subnet st = Masked p)"

lemma Update_store_ok: "store_ok p st \<Longrightarrow> keeps_address fn \<Longrightarrow> Update c st i fn = Inr (st', r) \<Longrightarrow> store_ok p st'"
  using Update_ips_ok [of st c i fn st' r] Update_Inr [of c st i fn st' r]
  by (auto simp: store_ok_def keeps_address_def split: option.splits)

lemma Delete_store_ok: "store_ok p st \<Longrightarrow> Delete c st i = Inr st' \<Longrightarrow> store_ok p st'"
  using Delete_ips_ok Delete_Inr by (auto simp: store_ok_def)

lemma Reserve_store_ok:
  assumes "store_ok p st" "Reserve c st (vs_MachineID sp) (fresh_record sp) = Some (Inr (st', r, b))"
  shows "store_ok p st'"
proof -
  have "ips_ok st'" using Reserve_ips_ok [OF _ assms(2)] assms(1) by (simp add: store_ok_def fresh_record_def)
  moreover have "ns_subnet st' = ns_subnet st"
  proof (cases b)
    case True
    with Reserve_old [of c st "vs_MachineID sp" "fresh_record sp" st' r] assms(2) show ?thesis by simp
  next
    case False
    have "opened st" using assms(1) by (simp add: store_ok_def ips_ok_def)
    with Reserve_new [of st c "vs_MachineID sp" "fresh_record sp" st' r] False assms(2)
    have "saveLocked c st r = Inr st'" by auto
    with saveLocked_Inr show ?thesis by blast
  qed
  ultimately show ?thesis using assms(1) by (simp add: store_ok_def)
qed

lemma update_quietly_simps [simp]:
  "dd_pending (update_quietly c d i fn) = dd_pending d" "dd_booting (update_quietly c d i fn) = dd_booting d"
  "dd_procs (update_quietly c d i fn) = dd_procs d" "dd_os (update_quietly c d i fn) = dd_os d"
  by (simp_all add: update_quietly_def split: sum.splits prod.splits)

lemma update_quietly_store:
  "store_ok p (dd_store d) \<Longrightarrow> keeps_address fn \<Longrightarrow> store_ok p (dd_store (update_quietly c d i fn))"
  by (auto simp: update_quietly_def intro: Update_store_ok split: sum.splits)

text \<open>An operation that keeps the store's invariant, the slots and the ensures in flight.\<close>

definition quiet :: "prefix \<Rightarrow> dev_driver \<Rightarrow> dev_driver \<Rightarrow> bool" where
  "quiet p d d' = ((store_ok p (dd_store d) \<longrightarrow> store_ok p (dd_store d')) \<and> in_flight d' = in_flight d \<and> dd_booting d' = dd_booting d)"

lemma quiet_trans: "quiet p a b \<Longrightarrow> quiet p b c \<Longrightarrow> quiet p a c"
  by (simp add: quiet_def)

lemma quiet_dev_ok: "dev_ok p d \<Longrightarrow> quiet p d d' \<Longrightarrow> dev_ok p d'"
  by (auto simp: dev_ok_def quiet_def store_ok_def)

lemma quiet_update: "keeps_address fn \<Longrightarrow> quiet p d (update_quietly c d i fn)"
  by (simp add: quiet_def update_quietly_store in_flight_def)

lemma quiet_kill: "quiet p d (dev_kill d x)"
  by (simp add: quiet_def in_flight_def)

lemma quiet_adopt: "quiet p d (adopt d i pid)"
  by (simp add: quiet_def in_flight_def adopt_def)

lemma quiet_spawn: "ensure_of g = [] \<Longrightarrow> quiet p d (spawn d g)"
  by (simp add: quiet_def)

lemma quiet_Stop: "quiet p d (fst (dev_Stop c d i mode))"
  by (auto simp: dev_Stop_def quiet_def in_flight_def Let_def intro: Update_store_ok split: sum.splits option.splits)

lemma quiet_Destroy: "quiet p d (fst (dev_Destroy c d i))"
  by (auto simp: dev_Destroy_def quiet_def in_flight_def Let_def intro: Delete_store_ok split: sum.splits)

lemma quiet_finishBoot: "quiet p d (finishBoot c d i k pid)"
  unfolding finishBoot_def using quiet_trans [OF quiet_kill quiet_update] quiet_update by (simp split: if_split)

lemma quiet_finishStop:
  "quiet p d (finishStop_child d i cmd h)" "quiet p d (finishStop_forget d i h)" "quiet p d (finishStop_record c d i h)"
  by (simp_all add: finishStop_child_def finishStop_forget_def finishStop_record_def quiet_update)
    (simp_all add: quiet_def in_flight_def Let_def)

lemma quiet_boot: "quiet p d (fst (dev_boot c d i k))"
  by (auto simp: dev_boot_def quiet_def in_flight_def Let_def intro: Update_store_ok split: sum.splits)

lemma quiet_launch: "quiet p d (fst (Ensure_launch c d sp))"
  using quiet_boot [of p d c "vs_MachineID sp" "vs_KernelRef sp"] quiet_trans [OF _ quiet_update [OF keeps_address_fns(2)]]
  by (auto simp: Ensure_launch_def split: prod.splits option.splits)

lemma quiet_prepare:
  assumes "Ensure_prepare c d sp = Some (d', r)"
  shows "quiet p d d'"
proof (cases "Reserve (dx_fs c) (dd_store d) (vs_MachineID sp) (fresh_record sp)")
  case (Some x)
  show ?thesis
  proof (cases x)
    case (Inl e)
    with Some assms show ?thesis by (auto simp: Ensure_prepare_def quiet_def)
  next
    case (Inr y)
    obtain st r0 b where y: "y = (st, r0, b)" by (cases y)
    have ok: "store_ok p st" if "store_ok p (dd_store d)" using Reserve_store_ok that Some Inr y by blast
    have "store_ok p st'" if "store_ok p (dd_store d)"
      "Update (dx_fs c) st (vs_MachineID sp) (reboot_record sp boot) = Inr (st', r')" for st' r' boot
      using Update_store_ok [OF ok [OF that(1)] _ that(2)] by simp
    with ok Some Inr y assms show ?thesis
      by (auto simp: Ensure_prepare_def quiet_def in_flight_def Let_def simp del: if_split split: sum.splits if_split_asm)
  qed
qed (use assms in \<open>simp add: Ensure_prepare_def\<close>)

lemma quiet_refl: "quiet p d d"
  by (simp add: quiet_def)

lemma quiet_reattach_one: "quiet p d (reattach_one c r d)"
proof -
  have "quiet p d (update_quietly c (adopt d i pid) i fn)" if "keeps_address fn" for i pid fn
    using quiet_trans [OF quiet_adopt quiet_update [OF that]] .
  moreover have "quiet p d (spawn (adopt d i pid) (FinishStop i x h))" "quiet p d (spawn d (FinishStop i x h))" for i pid x h
    using quiet_trans [OF quiet_adopt quiet_spawn] quiet_spawn by simp_all
  ultimately show ?thesis
    by (simp add: reattach_one_def Let_def quiet_refl quiet_adopt quiet_update flip: spawn_def)
qed

lemma quiet_Reattach: "quiet p d (fst (Reattach c d))"
proof -
  have "quiet p d (fold (reattach_one c) rs d)" for rs
  proof (induction rs arbitrary: d)
    case (Cons r rs)
    from quiet_trans [OF quiet_reattach_one Cons.IH] show ?case by simp
  qed (simp add: quiet_def)
  then show ?thesis by (auto simp: Reattach_def quiet_def split: sum.splits)
qed

lemma release_ok:
  assumes "store_ok p (dd_store d)" "distinct (in_flight d)" "set (in_flight d) = set (dd_booting d) - {i}"
  shows "dev_ok p (release d i)"
  using assms by (auto simp: dev_ok_def store_ok_def release_def in_flight_def)

lemma Ensure_prepare_total:
  assumes "store_ok p (dd_store d)"
  shows "\<exists>r. Ensure_prepare c d sp = Some r"
proof -
  have "opened (dd_store d)" using assms by (simp add: store_ok_def ips_ok_def)
  then obtain a where "allocateIPLocked (dx_fs c) (dd_store d) = Some a" using allocateIP_total by blast
  then obtain x where "Reserve (dx_fs c) (dd_store d) (vs_MachineID sp) (fresh_record sp) = Some x"
    by (fastforce simp: Reserve_def Let_def split: sum.splits option.splits)
  then show ?thesis by (auto simp: Ensure_prepare_def Let_def split: sum.splits)
qed

lemma run_pending_total:
  assumes "store_ok p (dd_store d)"
  shows "\<exists>d'. run_pending c d g = Some d'"
proof (cases g)
  case (EnsurePrepare sp)
  with Ensure_prepare_total [OF assms, of c sp] show ?thesis
    by (auto simp: run_pending_def split: sum.splits bool.splits prod.splits)
qed (simp_all add: run_pending_def)

lemma run_pending_ok:
  assumes "dev_ok p d" "g \<in> set (dd_pending d)" "run_pending c (take_pending d g) g = Some d'"
  shows "dev_ok p d'"
proof -
  let ?d = "take_pending d g"
  note tk = take_pending_ok [OF assms(1,2)]
  have st: "store_ok p (dd_store ?d)" using assms(1) by (simp add: dev_ok_def store_ok_def take_pending_def)
  have same: "dev_ok p ?d" if "ensure_of g = []"
    using tk that st by (simp add: dev_ok_def store_ok_def take_pending_def)
  show ?thesis
  proof (cases g)
    case (EnsurePrepare sp)
    from assms(3) EnsurePrepare obtain d1 r where r: "Ensure_prepare c ?d sp = Some (d1, r)"
      by (auto simp: run_pending_def split: option.splits)
    have q: "store_ok p (dd_store d1)" "in_flight d1 = in_flight ?d" "dd_booting d1 = dd_booting d"
      using quiet_prepare [OF r, of p] st by (auto simp: quiet_def take_pending_def)
    have rel: "dev_ok p (release d1 (vs_MachineID sp))"
      by (rule release_ok) (use q tk EnsurePrepare in auto)
    have "dev_ok p (spawn d1 (EnsureLaunch sp))"
      using q tk EnsurePrepare by (auto simp: dev_ok_def store_ok_def)
    with rel assms(3) EnsurePrepare r show ?thesis
      by (auto simp: run_pending_def spawn_def split: sum.splits bool.splits)
  next
    case (EnsureLaunch sp)
    have "dev_ok p (release (fst (Ensure_launch c ?d sp)) (vs_MachineID sp))"
      by (rule release_ok) (use quiet_launch [of p ?d c sp] st tk EnsureLaunch in \<open>auto simp: quiet_def take_pending_def\<close>)
    with assms(3) EnsureLaunch show ?thesis by (simp add: run_pending_def)
  qed (use assms(3) same quiet_dev_ok quiet_finishBoot quiet_finishStop in \<open>auto simp: run_pending_def\<close>)
qed

lemma dev_step_ok:
  assumes "dev_step d d'" "dev_ok p d"
  shows "dev_ok p d'"
  using assms
proof (induction rule: dev_step.induct)
  case (ensure d sp d1)
  then have d1: "d1 = d\<lparr>dd_booting := vs_MachineID sp # dd_booting d\<rparr>" "vs_MachineID sp \<notin> set (dd_booting d)"
    by (auto simp: Ensure_claim_def split: if_splits)
  have "in_flight d1 = in_flight d" by (simp add: d1 in_flight_def)
  with d1 ensure.prems show ?case by (auto simp: dev_ok_def)
next
  case (goes g d c d')
  then show ?case using run_pending_ok by blast
next
  case (exits d pid)
  then show ?case by (simp add: dev_ok_def in_flight_def)
next
  case (restart d c)
  then have "dev_ok p (restarted d)" by (simp add: dev_ok_def in_flight_def restarted_def NewDev_def WithCapacity_def)
  with quiet_Reattach quiet_dev_ok show ?case by blast
qed (use quiet_Stop quiet_Destroy quiet_dev_ok in blast)+

lemma NewStore_empty_ok: "store_ok p (NewStore p [])"
  using NewStore_opened [of "[]" p] by (simp add: store_ok_def ips_ok_def record_of_def NewStore_def)

lemma dev_reachable_ok: "dev_reachable p d \<Longrightarrow> dev_ok p d"
proof (induction rule: dev_reachable.induct)
  case (init v m k)
  show ?case using NewStore_empty_ok [of p] by (simp add: dev_ok_def store_ok_def NewDev_def WithCapacity_def in_flight_def)
qed (rule dev_step_ok)

section \<open>Runs without faults\<close>

definition fs_ok :: "devctx \<Rightarrow> bool" where
  "fs_ok c = (fs_read (dx_fs c) = (\<lambda>_. None) \<and> fs_write (dx_fs c) = (\<lambda>_. None) \<and> fs_remove (dx_fs c) = (\<lambda>_. None)
     \<and> fs_dir (dx_fs c) = None)"

text \<open>The pending entries in the order they were left, at most \<open>n\<close> of them.\<close>

fun settle :: "devctx \<Rightarrow> nat \<Rightarrow> dev_driver \<Rightarrow> dev_driver option" where
  "settle c 0 d = Some d"
| "settle c (Suc n) d = (case dd_pending d of [] \<Rightarrow> Some d
     | g # gs \<Rightarrow> (case run_pending c (d\<lparr>dd_pending := gs\<rparr>) g of None \<Rightarrow> None | Some d' \<Rightarrow> settle c n d'))"

lemma Load_ok: "fs_ok c \<Longrightarrow> record_of s i = Some r \<Longrightarrow> loadLocked (dx_fs c) s i = Inr (Some r)"
  by (auto simp: fs_ok_def loadLocked_def record_of_def split: option.splits node_file.splits)

lemma Update_ok:
  assumes "fs_ok c" "record_of s i = Some r" "nr_MachineID (fn r) = i"
  shows "\<exists>s'. Update (dx_fs c) s i fn = Inr (s', Some (fn r)) \<and> record_of s' = (record_of s)(i \<mapsto> fn r)"
proof -
  obtain s' where s': "saveLocked (dx_fs c) s (fn r) = Inr s'" using assms(1) by (simp add: saveLocked_def fs_ok_def)
  with saveLocked_Inr [OF s'] Load_ok [OF assms(1,2)] assms(3) show ?thesis by (simp add: Update_def)
qed

lemma update_quietly_ok:
  assumes "fs_ok c" "record_of (dd_store d) i = Some r" "nr_MachineID (fn r) = i"
  shows "\<exists>st. update_quietly c d i fn = d\<lparr>dd_store := st\<rparr> \<and> record_of st = (record_of (dd_store d))(i \<mapsto> fn r)"
  using Update_ok [where fn = fn, OF assms] by (auto simp: update_quietly_def)

lemma dev_Stop_ok:
  assumes "fs_ok c" "record_of (dd_store d) i = Some r" "nr_MachineID r = i" "nr_State r = AgentRunning"
  shows "\<exists>st. dev_Stop c d i StopModeHibernate
      = (d\<lparr>dd_store := st, dd_pending := dd_pending d @ [FinishStop i (map_of (dd_procs d) i) True]\<rparr>, None)
    \<and> record_of st = (record_of (dd_store d))(i \<mapsto> r\<lparr>nr_State := AgentHibernating\<rparr>)"
proof -
  obtain st where "Update (dx_fs c) (dd_store d) i (\<lambda>r. r\<lparr>nr_State := AgentHibernating\<rparr>) = Inr (st, Some (r\<lparr>nr_State := AgentHibernating\<rparr>))"
    "record_of st = (record_of (dd_store d))(i \<mapsto> r\<lparr>nr_State := AgentHibernating\<rparr>)"
    using Update_ok [OF assms(1,2), of "\<lambda>r. r\<lparr>nr_State := AgentHibernating\<rparr>"] assms(3) by auto
  with Load_ok [OF assms(1,2)] assms(4) show ?thesis
    by (intro exI [of _ st]) (simp add: dev_Stop_def Load_def agent_states StopModeHibernate_def StopModePoweroff_def)
qed

text \<open>An ensure of a machine that is neither booting nor running: the child is started.\<close>

lemma EnsureRunning_reboot:
  assumes "fs_ok c" "record_of (dd_store d) i = Some r" "nr_MachineID r = i"
    "nr_State r \<noteq> AgentCreating" "nr_State r \<noteq> AgentRunning" "i \<notin> set (dd_booting d)" "vs_MachineID sp = i"
    "dx_start c = Inr pid"
  shows "\<exists>st. EnsureRunning c d sp = Some (d\<lparr>dd_store := st, dd_os := AList.update pid Running (dd_os d),
        dd_procs := AList.update i pid (dd_procs d), dd_pending := dd_pending d @ [FinishBoot i (vs_KernelRef sp) pid]\<rparr>, Inr (Handle i))
    \<and> record_of st = (record_of (dd_store d))(i \<mapsto>
        (reboot_record sp (if sr_Present (nr_Snapshot r) then BootResumed else BootCold) r)\<lparr>nr_Pid := pid\<rparr>)"
proof -
  let ?b = "if sr_Present (nr_Snapshot r) then BootResumed else BootCold" and ?d1 = "d\<lparr>dd_booting := i # dd_booting d\<rparr>"
  let ?r1 = "reboot_record sp ?b r"
  obtain st where st: "Update (dx_fs c) (dd_store d) i (reboot_record sp ?b) = Inr (st, Some ?r1)"
    "record_of st = (record_of (dd_store d))(i \<mapsto> ?r1)"
    using Update_ok [OF assms(1,2), of "reboot_record sp ?b"] assms(3) by (auto simp: reboot_record_def)
  have id1: "nr_MachineID ?r1 = i" using assms(3) by (simp add: reboot_record_def)
  obtain st' where st': "Update (dx_fs c) st i (\<lambda>r. r\<lparr>nr_Pid := pid\<rparr>) = Inr (st', Some (?r1\<lparr>nr_Pid := pid\<rparr>))"
    "record_of st' = (record_of st)(i \<mapsto> ?r1\<lparr>nr_Pid := pid\<rparr>)"
    using Update_ok [OF assms(1), of st i ?r1 "\<lambda>r. r\<lparr>nr_Pid := pid\<rparr>"] st(2) id1 by auto
  have "Ensure_prepare c ?d1 sp = Some (?d1\<lparr>dd_store := st\<rparr>, Inr True)"
    using Load_ok [OF assms(1,2)] assms(4,5,7) st(1) by (simp add: Ensure_prepare_def Reserve_def)
  then have "EnsureRunning c d sp = Some (d\<lparr>dd_store := st', dd_os := AList.update pid Running (dd_os d),
      dd_procs := AList.update i pid (dd_procs d), dd_pending := dd_pending d @ [FinishBoot i (vs_KernelRef sp) pid]\<rparr>, Inr (Handle i))"
    using assms(6,7,8) st'(1)
    by (cases d) (simp add: EnsureRunning_def Ensure_claim_def Ensure_launch_def dev_boot_def release_def Let_def)
  with st(2) st'(2) show ?thesis by auto
qed

text \<open>A whole ensure, and the first pending entry, as steps of the system.\<close>

lemma reachable_head:
  assumes "dev_reachable p d" "dd_pending d = g # gs" "fresh_pid c d" "run_pending c (d\<lparr>dd_pending := gs\<rparr>) g = Some d'"
  shows "dev_reachable p d'"
proof -
  have "take_pending d g = d\<lparr>dd_pending := gs\<rparr>" using assms(2) by (simp add: take_pending_def)
  with dev_step.goes [of g d c d'] assms(2-4) have "dev_step d d'" by simp
  with assms(1) show ?thesis by (rule dev_reachable.step)
qed

lemma reachable_last:
  assumes "dev_reachable p (spawn d g)" "g \<notin> set (dd_pending d)" "fresh_pid c d" "run_pending c d g = Some d'"
  shows "dev_reachable p d'"
proof -
  have "take_pending (spawn d g) g = d" "fresh_pid c (spawn d g)"
    using assms(2,3) by (simp_all add: take_pending_def spawn_def remove1_append fresh_pid_def)
  with dev_step.goes [of g "spawn d g" c d'] assms(4) have "dev_step (spawn d g) d'" by (simp add: spawn_def)
  with assms(1) show ?thesis by (rule dev_reachable.step)
qed

lemma EnsureRunning_reachable:
  assumes reach: "dev_reachable p d" and fresh: "fresh_pid c d" and run: "EnsureRunning c d sp = Some (d', r)"
  shows "dev_reachable p d'"
proof (cases "vs_MachineID sp \<in> set (dd_booting d)")
  case True
  with run reach show ?thesis by (simp add: EnsureRunning_def Ensure_claim_def)
next
  case False
  let ?i = "vs_MachineID sp"
  define d1 where "d1 = d\<lparr>dd_booting := ?i # dd_booting d\<rparr>"
  have claim: "Ensure_claim d sp = (d1, True)" using False by (simp add: Ensure_claim_def d1_def)
  have r1: "dev_reachable p (spawn d1 (EnsurePrepare sp))"
    using dev_reachable.step [OF reach dev_step.ensure [OF claim]] .
  have "?i \<notin> set (in_flight d)" using False dev_reachable_ok [OF reach] by (simp add: dev_ok_def)
  then have new: "EnsurePrepare sp \<notin> set (dd_pending d)" "EnsureLaunch sp \<notin> set (dd_pending d)"
    by (force simp: in_flight_def)+
  have st: "fresh_pid c d1" using fresh by (simp add: fresh_pid_def d1_def)
  from run False claim obtain d2 b where p2: "Ensure_prepare c d1 sp = Some (d2, b)"
    by (auto simp: EnsureRunning_def Let_def split: option.splits)
  have os2: "dd_os d2 = dd_os d1" "dd_pending d2 = dd_pending d1"
    using p2 by (auto simp: Ensure_prepare_def Let_def split: option.splits sum.splits if_splits)
  show ?thesis
  proof (cases "b = Inr True")
    case True
    have "run_pending c d1 (EnsurePrepare sp) = Some (spawn d2 (EnsureLaunch sp))"
      using p2 True by (simp add: run_pending_def spawn_def)
    from reachable_last [OF r1 _ st this] new have r2: "dev_reachable p (spawn d2 (EnsureLaunch sp))" by (simp add: d1_def)
    have "run_pending c d2 (EnsureLaunch sp) = Some d'"
      using run False claim p2 True by (auto simp: EnsureRunning_def run_pending_def Let_def split: prod.splits)
    from reachable_last [OF r2 _ _ this] new st os2 show ?thesis by (simp add: d1_def fresh_pid_def)
  next
    case F: False
    have "run_pending c d1 (EnsurePrepare sp) = Some d'"
      using run claim p2 F by (auto simp: EnsureRunning_def run_pending_def Let_def split: sum.splits bool.splits)
    from reachable_last [OF r1 _ st this] new show ?thesis by (simp add: d1_def)
  qed
qed

end
