(* ===== verification/Node_Claims.thy ===== *)
theory Node_Claims
  imports Dev_System
begin

text \<open>
  The properties of the node-agent's record store and of the dev driver.
\<close>

section \<open>Addresses\<close>

text \<open>
  C34. In every state the dev driver can reach (requests, goroutines, exiting children, failing
  files and restarts of the agent interleaved in any order) two machines never have the same
  guest address, every address is a host address of the subnet (not the network, gateway or
  broadcast address), at most one ensure per machine is in flight, and every goroutine that is
  due can run to its end.
\<close>

theorem node_addresses:
  assumes "dev_reachable p d"
  shows "(\<forall>i j r q. record_of (dd_store d) i = Some r \<longrightarrow> record_of (dd_store d) j = Some q \<longrightarrow> i \<noteq> j
            \<longrightarrow> nr_GuestIP r \<noteq> nr_GuestIP q)
    \<and> (\<forall>i r. record_of (dd_store d) i = Some r \<longrightarrow> nr_MachineID r = i
        \<and> (\<exists>w. nr_GuestIP r = addr_String (Some w) \<and> px_base (Masked p) + 1 < unat w \<and> unat w < px_base (Masked p) + px_size p - 1))
    \<and> distinct (in_flight d) \<and> (\<forall>c g. \<exists>d'. run_pending c d g = Some d')"
proof -
  have ok: "ips_ok (dd_store d)" "ns_subnet (dd_store d) = Masked p" "distinct (in_flight d)"
    using dev_reachable_ok [OF assms] by (auto simp: dev_ok_def)
  have "\<exists>w. nr_GuestIP r = addr_String (Some w) \<and> px_base (Masked p) + 1 < unat w \<and> unat w < px_base (Masked p) + px_size p - 1"
    if "record_of (dd_store d) i = Some r" for i r
    using ok(1,2) that by (fastforce simp: ips_ok_def candidates_def)
  moreover have "\<forall>c g. \<exists>d'. run_pending c d g = Some d'" using run_pending_total ok(1,2) by (blast intro: store_ok_def [THEN iffD2])
  ultimately show ?thesis using ok by (fastforce simp: ips_ok_def)
qed

definition ex_subnet :: prefix where "ex_subnet = \<lparr>px_addr = 0xAC1E0005, px_bits = 24\<rparr>"

definition ex_fs :: fsctx where
  "ex_fs = \<lparr>fs_read = (\<lambda>_. None), fs_write = (\<lambda>_. None), fs_remove = (\<lambda>_. None), fs_dir = None\<rparr>"

definition ex_ctx :: devctx where
  "ex_ctx = \<lparr>dx_fs = ex_fs, dx_start = Inr 41, dx_now = ''2026-01-01T00:00:00Z''\<rparr>"

definition ex_node :: dev_driver where "ex_node = WithCapacity (NewDev (NewStore ex_subnet []) []) 8 16384 100000"

theorem node_addresses_witness:
  "distinct (in_flight ex_node) \<and> (\<exists>d'. run_pending ex_ctx ex_node (FinishStopForget ''m'' True) = Some d')"
  using node_addresses [of ex_subnet ex_node] dev_reachable.init [of ex_subnet 8 16384 100000] by (simp add: ex_node_def)


text \<open>
  C35. Allocation terminates on every store the agent opens, and its scan is the reference
  allocator: the lowest address above the gateway and below the broadcast address that no
  record uses. It refuses exactly when there is none.
\<close>

theorem allocation_lowest_free:
  assumes "opened s" "listLocked c s = Inr rs"
  shows "allocateIPLocked c s = Some (case lowest_free (ns_subnet s) (used_addrs rs) of
      None \<Rightarrow> Inl (no_free_ip (ns_subnet s)) | Some w \<Rightarrow> Inr (Some w))
    \<and> (\<forall>w. lowest_free (ns_subnet s) (used_addrs rs) = Some w \<longrightarrow> w \<notin> addrs s
        \<and> px_base (ns_subnet s) + 2 \<le> unat w \<and> unat w < px_base (ns_subnet s) + px_size (ns_subnet s) - 1
        \<and> (\<forall>n. px_base (ns_subnet s) + 2 \<le> n \<and> n < unat w \<longrightarrow> word_of_nat n \<in> addrs s))
    \<and> (lowest_free (ns_subnet s) (used_addrs rs) = None \<longrightarrow>
        (\<forall>n. px_base (ns_subnet s) + 2 \<le> n \<and> n < px_base (ns_subnet s) + px_size (ns_subnet s) - 1 \<longrightarrow> word_of_nat n \<in> addrs s))"
proof -
  from assms(1) obtain q where q: "ns_subnet s = Masked q" "ns_gateway s = Next (Some (px_addr (Masked q)))"
    by (auto simp: opened_def)
  have m: "masked (ns_subnet s)" using q(1) masked_Masked by simp
  have used: "set (used_addrs rs) = addrs s"
    using listLocked_Inr [OF assms(2)] by (simp add: used_addrs_set addrs_def)
  have "word_of_nat n \<in> addrs s" if "lowest_free (ns_subnet s) (used_addrs rs) = None"
    "px_base (ns_subnet s) + 2 \<le> n" "n < px_base (ns_subnet s) + px_size (ns_subnet s) - 1" for n
    using that used by (auto simp: lowest_free_def find_None_iff candidates_def)
  with gateway_next [OF q] lowest_free_Some [OF m, of "used_addrs rs"] used assms(2) show ?thesis
    by (simp add: allocateIPLocked_def)
qed

lemma ex_subnet_values: "px_base (Masked ex_subnet) = 0xAC1E0000" "px_size (Masked ex_subnet) = 256"
  unfolding px_base_Masked px_size_Masked by (simp_all add: px_size_def px_base_def ex_subnet_def host_bits_def)

lemma lowest_free_empty:
  assumes "3 < px_size p"
  shows "lowest_free p [] = Some (word_of_nat (px_base p + 2))"
proof -
  have "candidates p = (px_base p + 2) # [px_base p + 3 ..< px_base p + px_size p - 1]"
    using assms by (simp add: candidates_def upt_conv_Cons eval_nat_numeral)
  then show ?thesis by (simp add: lowest_free_def)
qed

theorem allocation_lowest_free_witness:
  "allocateIPLocked ex_fs (NewStore ex_subnet []) = Some (Inr (Some 0xAC1E0002))"
proof -
  let ?s = "NewStore ex_subnet []"
  have l: "listLocked ex_fs ?s = Inr []" by (simp add: listLocked_def ex_fs_def NewStore_def)
  have sub: "ns_subnet ?s = Masked ex_subnet" "used_addrs [] = []"
    by (simp_all add: NewStore_def used_addrs_def List.map_filter_def)
  have "3 < px_size (Masked ex_subnet)" unfolding ex_subnet_values by simp
  from lowest_free_empty [OF this] have "lowest_free (Masked ex_subnet) [] = Some 0xAC1E0002"
    unfolding ex_subnet_values by simp
  moreover have "opened ?s" by (rule NewStore_opened) simp
  ultimately show ?thesis using allocation_lowest_free [OF _ l] unfolding sub by simp
qed

section \<open>Hibernation\<close>


definition ex_vm :: vm_spec where
  "ex_vm = \<lparr>vs_MachineID = ''m1'', vs_Vcpus = 2, vs_MemMiB = 512, vs_KernelRef = ''k'', vs_RootfsRef = ''r'', vs_Disks = [], vs_VolumeKey = [],
     vs_PolicyMode = [], vs_PolicyDomains = []\<rparr>"

lemma ex_ctx_ok: "fs_ok ex_ctx" by (simp add: fs_ok_def ex_ctx_def ex_fs_def)

lemma ex_allocates: "allocateIPLocked ex_fs (NewStore ex_subnet []) = Some (Inr (Some 0xAC1E0002))"
proof -
  have "3 < px_size (Masked ex_subnet)" unfolding ex_subnet_values by simp
  from lowest_free_empty [OF this] have "lowest_free (Masked ex_subnet) [] = Some 0xAC1E0002"
    unfolding ex_subnet_values by simp
  moreover have "alloc_loop (ns_subnet (NewStore ex_subnet [])) [] (Next (ns_gateway (NewStore ex_subnet [])))
      = Some (lowest_free (ns_subnet (NewStore ex_subnet [])) [])"
    by (rule gateway_next [of _ ex_subnet]) (simp_all add: NewStore_def)
  ultimately show ?thesis
    by (simp add: allocateIPLocked_def listLocked_def ex_fs_def NewStore_def used_addrs_def List.map_filter_def)
qed

text \<open>A reachable running machine, from a first ensure whose boot has finished.\<close>

lemma ex_running:
  "\<exists>d r. dev_reachable ex_subnet d \<and> dd_pending d = [] \<and> record_of (dd_store d) ''m1'' = Some r
    \<and> nr_State r = AgentRunning \<and> dd_procs d = [(''m1'', 41)] \<and> dd_os d = [(41, Running)]"
proof -
  let ?i = "''m1''"
  let ?a = "\<lparr>al_TapName = TapName ?i, al_GuestIP = Some 0xAC1E0002, al_GatewayIP = ns_gateway (NewStore ex_subnet []),
      al_MAC = MACFor (Some 0xAC1E0002)\<rparr>"
  let ?r = "fresh_record ex_vm ?a"
  have node: "dd_store ex_node = NewStore ex_subnet []" "dd_booting ex_node = []" "dd_procs ex_node = []" "dd_os ex_node = []"
    "dd_pending ex_node = []" by (simp_all add: ex_node_def WithCapacity_def NewDev_def)
  have rid: "nr_MachineID ?r = ?i" by (simp add: fresh_record_def ex_vm_def)
  obtain s1 where s1: "saveLocked ex_fs (NewStore ex_subnet []) ?r = Inr s1" by (simp add: saveLocked_def ex_fs_def)
  have rec1: "record_of s1 ?i = Some ?r" using saveLocked_Inr [OF s1] rid by simp
  obtain s2 where s2: "Update ex_fs s1 ?i (\<lambda>r. r\<lparr>nr_Pid := 41\<rparr>) = Inr (s2, Some (?r\<lparr>nr_Pid := 41\<rparr>))"
    "record_of s2 ?i = Some (?r\<lparr>nr_Pid := 41\<rparr>)"
    using Update_ok [OF ex_ctx_ok rec1, of "\<lambda>r. r\<lparr>nr_Pid := 41\<rparr>"] rid by (auto simp: ex_ctx_def)
  let ?d1 = "ex_node\<lparr>dd_booting := [], dd_store := s2, dd_os := [(41, Running)], dd_procs := [(?i, 41)],
      dd_pending := [FinishBoot ?i ''k'' 41]\<rparr>"
  have ld: "loadLocked ex_fs (NewStore ex_subnet []) ?i = Inr None" by (simp add: loadLocked_def NewStore_def)
  have "EnsureRunning ex_ctx ex_node ex_vm = Some (?d1, Inr (Handle ?i))"
    using ld ex_allocates s1 s2(1) node
    by (cases ex_node) (simp add: EnsureRunning_def Ensure_claim_def Ensure_prepare_def Reserve_def Ensure_launch_def dev_boot_def
        release_def ex_ctx_def ex_vm_def Let_def)
  moreover have "dev_reachable ex_subnet ex_node" unfolding ex_node_def by (rule dev_reachable.init)
  moreover have "fresh_pid ex_ctx ex_node" by (simp add: fresh_pid_def node ex_ctx_def)
  ultimately have r1: "dev_reachable ex_subnet ?d1" using EnsureRunning_reachable by blast
  let ?c = "ex_ctx\<lparr>dx_start := Inl []\<rparr>" and ?rb = "booted (?r\<lparr>nr_Pid := 41\<rparr>)"
  have cok: "fs_ok ?c" using ex_ctx_ok by (simp add: fs_ok_def)
  have rb: "record_of (dd_store (?d1\<lparr>dd_pending := []\<rparr>)) ?i = Some (?r\<lparr>nr_Pid := 41\<rparr>)" using s2(2) by simp
  have rbid: "nr_MachineID ?rb = ?i" using rid by (simp add: booted_def)
  obtain s3 where s3: "update_quietly ?c (?d1\<lparr>dd_pending := []\<rparr>) ?i booted = ?d1\<lparr>dd_pending := [], dd_store := s3\<rparr>"
    "record_of s3 = (record_of (dd_store (?d1\<lparr>dd_pending := []\<rparr>)))(?i \<mapsto> ?rb)"
    using update_quietly_ok [OF cok rb, of booted, OF rbid] by blast
  have "run_pending ?c (?d1\<lparr>dd_pending := []\<rparr>) (FinishBoot ?i ''k'' 41) = Some (?d1\<lparr>dd_pending := [], dd_store := s3\<rparr>)"
    using s3(1) by (simp add: run_pending_def finishBoot_def FailBootRef_def)
  from reachable_head [OF r1 _ _ this] have "dev_reachable ex_subnet (?d1\<lparr>dd_pending := [], dd_store := s3\<rparr>)"
    by (simp add: fresh_pid_def)
  moreover have "nr_State ?rb = AgentRunning" by (simp add: booted_def fresh_record_def)
  ultimately show ?thesis using s3(2) by (intro exI [of _ "?d1\<lparr>dd_pending := [], dd_store := s3\<rparr>"]) simp
qed


section \<open>What the driver does not survive\<close>

text \<open>
  A machine that is ensured while its stop is still in progress is lost. The ensure
  starts a new child and answers with success, but the goroutine of the stop, which does not
  look at the state it finds, then removes the new child from the driver's table and records
  the machine as stopped: the new child runs on, and neither stopping nor destroying the
  machine ends it.
\<close>

theorem stop_start_race:
  assumes "dev_reachable p d" "dd_pending d = []" "record_of (dd_store d) i = Some r" "nr_State r = AgentRunning"
    "fs_ok c" "vs_MachineID sp = i" "vs_KernelRef sp \<noteq> FailBootRef" "dx_start c = Inr pid" "fresh_pid c d"
    "map_of (dd_procs d) i = Some pid0" "map_of (dd_os d) pid0 = Some Running"
  shows "\<exists>d1 d2 st. EnsureRunning c (fst (dev_Stop c d i StopModeHibernate)) sp = Some (d1, Inr (Handle i))
    \<and> settle c 4 d1 = Some d2 \<and> dd_pending d2 = []
    \<and> dev_Status c d2 i = Inr st \<and> ds_State st = AgentStopped
    \<and> map_of (dd_os d2) pid = Some Running
    \<and> fst (dev_Stop c d2 i StopModePoweroff) = d2
    \<and> map_of (dd_os (fst (dev_Destroy c d2 i))) pid = Some Running"
proof -
  have inv: "dev_ok p d" using dev_reachable_ok [OF assms(1)] .
  have rid: "nr_MachineID r = i" using inv assms(3) by (auto simp: dev_ok_def ips_ok_def)
  have nb: "dd_booting d = []" using inv assms(2) by (simp add: dev_ok_def in_flight_def)
  have new: "pid \<noteq> pid0" using assms(8,9,11) by (auto simp: fresh_pid_def dest: map_of_SomeD intro: rev_image_eqI)
  let ?rh = "r\<lparr>nr_State := AgentHibernating\<rparr>"
  obtain s1 where s1: "dev_Stop c d i StopModeHibernate = (d\<lparr>dd_store := s1, dd_pending := [FinishStop i (Some pid0) True]\<rparr>, None)"
    "record_of s1 = (record_of (dd_store d))(i \<mapsto> ?rh)"
    using dev_Stop_ok [OF assms(5,3) rid assms(4)] assms(2,10) by auto
  let ?d0 = "d\<lparr>dd_store := s1, dd_pending := [FinishStop i (Some pid0) True]\<rparr>"
  let ?b = "if sr_Present (nr_Snapshot ?rh) then BootResumed else BootCold"
  let ?r1 = "(reboot_record sp ?b ?rh)\<lparr>nr_Pid := pid\<rparr>"
  have id1: "nr_MachineID ?r1 = i" using rid by (simp add: reboot_record_def)
  obtain s2 where s2: "EnsureRunning c ?d0 sp = Some (?d0\<lparr>dd_store := s2, dd_os := AList.update pid Running (dd_os d),
        dd_procs := AList.update i pid (dd_procs d), dd_pending := [FinishStop i (Some pid0) True, FinishBoot i (vs_KernelRef sp) pid]\<rparr>, Inr (Handle i))"
    "record_of s2 i = Some ?r1"
    using EnsureRunning_reboot [OF assms(5), of ?d0 i ?rh sp pid] s1(2) rid assms(6,8) nb by (auto simp: agent_states)
  let ?d1 = "?d0\<lparr>dd_store := s2, dd_os := AList.update pid Running (dd_os d),
        dd_procs := AList.update i pid (dd_procs d), dd_pending := [FinishStop i (Some pid0) True, FinishBoot i (vs_KernelRef sp) pid]\<rparr>"
  let ?os = "AList.delete pid0 (AList.update pid Running (dd_os d))"
  let ?dk = "?d1\<lparr>dd_os := ?os, dd_pending := [FinishStopForget i True]\<rparr>"
  have k1: "record_of (dd_store ?dk) i = Some ?r1" "nr_MachineID (booted ?r1) = i" using s2(2) id1 by (simp_all add: booted_def)
  obtain s3 where s3: "update_quietly c ?dk i booted = ?dk\<lparr>dd_store := s3\<rparr>"
    "record_of s3 = (record_of (dd_store ?dk))(i \<mapsto> booted ?r1)"
    using update_quietly_ok [OF assms(5) k1(1), of booted, OF k1(2)] by blast
  let ?df = "?dk\<lparr>dd_store := s3, dd_procs := AList.delete i (AList.update i pid (dd_procs d)), dd_pending := []\<rparr>"
  let ?rs = "stopped_record (dx_now c) True (booted ?r1)"
  have id2: "nr_MachineID ?rs = i" using id1 by (simp add: stopped_record_def booted_def)
  have k2: "record_of (dd_store ?df) i = Some (booted ?r1)" using s3(2) by simp
  obtain s4 where s4: "update_quietly c ?df i (stopped_record (dx_now c) True) = ?df\<lparr>dd_store := s4\<rparr>"
    "record_of s4 = (record_of (dd_store ?df))(i \<mapsto> ?rs)"
    using update_quietly_ok [OF assms(5) k2, of "stopped_record (dx_now c) True", OF id2] by blast
  let ?d2 = "?df\<lparr>dd_store := s4\<rparr>"
  have run: "settle c 4 ?d1 = Some ?d2"
    using s3(1) s4(1) assms(7)
    by (simp add: eval_nat_numeral run_pending_def finishStop_child_def finishStop_forget_def finishStop_record_def finishBoot_def
        dev_kill_def Let_def)
  have ld: "loadLocked (dx_fs c) s4 i = Inr (Some ?rs)" using Load_ok [OF assms(5)] s4(2) by simp
  have "nr_State ?rs = AgentStopped" by (simp add: stopped_record_def)
  moreover have os: "map_of ?os pid = Some Running" using new by (simp add: delete_conv' update_conv')
  moreover have "fst (dev_Stop c ?d2 i StopModePoweroff) = ?d2" using ld \<open>nr_State ?rs = AgentStopped\<close> by (simp add: dev_Stop_def Load_def)
  moreover have "map_of (dd_os (fst (dev_Destroy c ?d2 i))) pid = Some Running"
    using os assms(5) by (simp add: dev_Destroy_def dev_kill_def Delete_def fs_ok_def delete_conv' Let_def)
  ultimately show ?thesis
    using s1(1) s2(1) run ld
    by (intro exI [of _ ?d1] exI [of _ ?d2] exI [of _ "statusOf ?rs"]) (simp add: dev_Status_def Load_def statusOf_def)
qed

definition ex_ctx2 :: devctx where "ex_ctx2 = ex_ctx\<lparr>dx_start := Inr 42\<rparr>"

theorem stop_start_race_witness:
  "\<exists>d d1 d2. EnsureRunning ex_ctx2 (fst (dev_Stop ex_ctx2 d ''m1'' StopModeHibernate)) ex_vm = Some (d1, Inr (Handle ''m1''))
    \<and> settle ex_ctx2 4 d1 = Some d2 \<and> map_of (dd_os (fst (dev_Destroy ex_ctx2 d2 ''m1''))) 42 = Some Running"
proof -
  obtain d r where d: "dev_reachable ex_subnet d" "dd_pending d = []" "record_of (dd_store d) ''m1'' = Some r"
    "nr_State r = AgentRunning" and os: "dd_procs d = [(''m1'', 41)]" "dd_os d = [(41, Running)]" using ex_running by blast
  have "fs_ok ex_ctx2" "vs_MachineID ex_vm = ''m1''" "vs_KernelRef ex_vm \<noteq> FailBootRef" "dx_start ex_ctx2 = Inr 42"
    "fresh_pid ex_ctx2 d" "map_of (dd_procs d) ''m1'' = Some 41" "map_of (dd_os d) 41 = Some Running"
    using ex_ctx_ok os by (simp_all add: ex_vm_def FailBootRef_def ex_ctx2_def fs_ok_def fresh_pid_def)
  from stop_start_race [OF d this] show ?thesis by blast
qed

text \<open>
  A child that exits while the agent runs stays in the process table until it is waited for,
  which only a stop does; \<open>kill(pid, 0)\<close> finds it, so an ensure of the dead machine starts nothing.
\<close>

theorem dead_child_not_restarted:
  assumes "dev_reachable p d" "record_of (dd_store d) i = Some r" "nr_State r = AgentRunning" "fs_ok c" "vs_MachineID sp = i"
    "map_of (dd_procs d) i = Some pid" "pid > 0" "map_of (dd_os d) pid = Some Zombie"
  shows "\<exists>d'. EnsureRunning c d sp = Some (d', Inr (Handle i)) \<and> dd_store d' = dd_store d \<and> dd_os d' = dd_os d
    \<and> dd_procs d' = dd_procs d \<and> dd_pending d' = dd_pending d"
proof -
  have "loadLocked (dx_fs c) (dd_store d) i = Inr (Some r)" using Load_ok [OF assms(4,2)] .
  with assms(3,5-8) show ?thesis
    by (auto simp: EnsureRunning_def Ensure_claim_def Ensure_prepare_def Reserve_def dev_alive_def processAlive_def release_def Let_def)
qed

end
