(* ===== verification/Guest_Term.thy ===== *)
theory Guest_Term
  imports Go_Channel "HOL-Library.AList"
begin

text \<open>
  The guest agent's terminal sessions (\<open>guestagent/internal/term\<close>): the scrollback ring
  (\<open>ring.go\<close>), a session's output fan-out and attachments (\<open>session.go\<close>) and the registry of
  sessions (\<open>manager.go\<close>). The pseudo-terminal is the environment: what it outputs arrives as
  chunks, and input is handed to it. Bytes are \<open>8 word\<close>s; a subscriber is the reference of its channel.
\<close>

section \<open>The ring\<close>

record 'a ring =
  rg_buf :: "'a list"
  rg_size :: nat
  rg_start :: nat
  rg_length :: nat

text \<open>\<open>copy(dst[off:], src)\<close>.\<close>

definition copy_at :: "nat \<Rightarrow> 'a list \<Rightarrow> 'a list \<Rightarrow> 'a list" where
  "copy_at off src dst = take off dst @ take (length dst - off) src @ drop (off + length src) dst"

definition newRing :: "'a \<Rightarrow> int \<Rightarrow> 'a ring" where
  "newRing z k = (let n = nat (if k < 1 then 1 else k)
     in \<lparr>rg_buf = replicate n z, rg_size = n, rg_start = 0, rg_length = 0\<rparr>)"

definition ring_Write :: "'a ring \<Rightarrow> 'a list \<Rightarrow> 'a ring" where
  "ring_Write r p =
     (if length p \<ge> rg_size r
      then r\<lparr>rg_buf := copy_at 0 (drop (length p - rg_size r) p) (rg_buf r), rg_start := 0, rg_length := rg_size r\<rparr>
      else
       (let end' = (rg_start r + rg_length r) mod rg_size r;
            n = min (length (rg_buf r) - end') (length p);
            buf1 = copy_at end' p (rg_buf r);
            buf2 = (if n < length p then copy_at 0 (drop n p) buf1 else buf1);
            len1 = rg_length r + length p
        in if len1 > rg_size r
           then r\<lparr>rg_buf := buf2, rg_start := (rg_start r + (len1 - rg_size r)) mod rg_size r, rg_length := rg_size r\<rparr>
           else r\<lparr>rg_buf := buf2, rg_length := len1\<rparr>))"

definition ring_snapshot :: "'a \<Rightarrow> 'a ring \<Rightarrow> 'a list" where
  "ring_snapshot z r =
     (let out = replicate (rg_length r) z;
          first = min (rg_start r + rg_length r) (rg_size r);
          src = drop (rg_start r) (take first (rg_buf r));
          n = min (length out) (length src);
          out1 = copy_at 0 src out
      in if n < rg_length r then copy_at n (rg_buf r) out1 else out1)"

section \<open>The ring keeps the most recent bytes\<close>

definition lastn :: "nat \<Rightarrow> 'a list \<Rightarrow> 'a list" where
  "lastn n xs = drop (length xs - n) xs"

definition ring_inv :: "'a ring \<Rightarrow> bool" where
  "ring_inv r = (length (rg_buf r) = rg_size r \<and> 0 < rg_size r \<and> rg_start r < rg_size r \<and> rg_length r \<le> rg_size r)"

text \<open>The abstract value: the bytes in write order.\<close>

definition contents :: "'a ring \<Rightarrow> 'a list" where
  "contents r = map (\<lambda>k. rg_buf r ! ((rg_start r + k) mod rg_size r)) [0 ..< rg_length r]"

lemma lastn_append_long: "n \<le> length ys \<Longrightarrow> lastn n (xs @ ys) = lastn n ys"
  by (simp add: lastn_def)

lemma lastn_lastn: "lastn n (lastn n xs @ ys) = lastn n (xs @ ys)"
  by (cases "length xs \<le> n") (auto simp: lastn_def add.commute)

lemma length_contents [simp]: "length (contents r) = rg_length r"
  by (simp add: contents_def)

lemma length_copy_at [simp]: "off \<le> length dst \<Longrightarrow> length (copy_at off src dst) = length dst"
  by (auto simp: copy_at_def)

lemma newRing_inv: "ring_inv (newRing z k) \<and> contents (newRing z k) = []"
  by (simp add: newRing_def ring_inv_def contents_def Let_def)

lemma mod_wrap:
  fixes a n :: nat
  assumes "a < n + n"
  shows "a mod n = (if a < n then a else a - n)"
  using assms by (simp add: mod_if)

text \<open>The two copies write \<open>p\<close> around the end of the buffer and leave the rest.\<close>

lemma wrapped_copy:
  fixes buf p :: "'a list"
  defines "n \<equiv> length buf"
  assumes e: "e < n" and p: "length p < n" and k: "k < n"
  defines "buf1 \<equiv> copy_at e p buf"
  defines "buf2 \<equiv> (if min (n - e) (length p) < length p then copy_at 0 (drop (min (n - e) (length p)) p) buf1 else buf1)"
  shows "buf2 ! ((e + k) mod n) = (if k < length p then p ! k else buf ! ((e + k) mod n))"
proof -
  have ek: "(e + k) mod n = (if e + k < n then e + k else e + k - n)" using e k by (intro mod_wrap) simp
  show ?thesis
  proof (cases "e + length p \<le> n")
    case True
    then have b: "buf2 = take e buf @ p @ drop (e + length p) buf"
      using p by (auto simp: buf2_def buf1_def copy_at_def n_def)
    show ?thesis unfolding ek b using True e k by (auto simp: nth_append n_def min_def)
  next
    case False
    have b1: "buf1 = take e buf @ take (n - e) p" using False e by (simp add: buf1_def copy_at_def n_def)
    have b: "buf2 = drop (n - e) p @ drop (length p - (n - e)) buf1"
      using False e p by (auto simp: buf2_def copy_at_def b1 n_def)
    show ?thesis unfolding ek b b1 using False e k p by (auto simp: nth_append n_def min_def add.commute)
  qed
qed

lemma ring_Write_contents:
  assumes inv: "ring_inv r"
  shows "ring_inv (ring_Write r p) \<and> contents (ring_Write r p) = lastn (rg_size r) (contents r @ p)
    \<and> rg_size (ring_Write r p) = rg_size r"
proof (cases "length p \<ge> rg_size r")
  case True
  then have "contents (ring_Write r p) = drop (length p - rg_size r) p"
    using inv by (auto simp: contents_def ring_Write_def copy_at_def ring_inv_def intro!: nth_equalityI)
  moreover have "lastn (rg_size r) (contents r @ p) = drop (length p - rg_size r) p"
    using True lastn_append_long by (simp add: lastn_def)
  ultimately show ?thesis using True inv by (simp add: ring_inv_def ring_Write_def)
next
  case False
  let ?n = "rg_size r" and ?l = "rg_length r" and ?s = "rg_start r"
  let ?e = "(?s + ?l) mod ?n" and ?ov = "?l + length p - ?n"
  let ?b1 = "copy_at ?e p (rg_buf r)"
  define b2 where "b2 = (if min (?n - ?e) (length p) < length p then copy_at 0 (drop (min (?n - ?e) (length p)) p) ?b1 else ?b1)"
  have n: "length (rg_buf r) = ?n" "0 < ?n" "?s < ?n" "?l \<le> ?n" using inv by (simp_all add: ring_inv_def)
  have e: "?e < ?n" using n by simp
  have wr: "ring_Write r p = r\<lparr>rg_buf := b2, rg_start := (?s + ?ov) mod ?n, rg_length := ?l + length p - ?ov\<rparr>"
    using False n by (auto simp: ring_Write_def b2_def Let_def)
  have len: "length b2 = ?n" using n e by (simp add: b2_def)
  have at: "b2 ! ((?e + k) mod ?n) = (if k < length p then p ! k else rg_buf r ! ((?e + k) mod ?n))" if "k < ?n" for k
    using wrapped_copy [of ?e "rg_buf r" p k] e that False unfolding b2_def n(1) by simp
  have nth: "b2 ! ((?s + ?ov + i) mod ?n) = (contents r @ p) ! (?ov + i)" if i: "i < ?l + length p - ?ov" for i
  proof (cases "?ov + i < ?l")
    case True
    define k where "k = ?ov + i + ?n - ?l"
    have k: "k < ?n" "\<not> k < length p" using True n False unfolding k_def by linarith+
    have "(?e + k) mod ?n = (?s + ?l + k) mod ?n" by (simp add: mod_add_left_eq)
    also have "?s + ?l + k = ?s + ?ov + i + ?n" using n by (simp add: k_def)
    finally have "(?e + k) mod ?n = (?s + ?ov + i) mod ?n" by simp
    with at [OF k(1)] k(2) True show ?thesis by (simp add: nth_append contents_def add.assoc)
  next
    case F: False
    define k where "k = ?ov + i - ?l"
    have k: "k < length p" "k < ?n" using i F False unfolding k_def by linarith+
    have "(?e + k) mod ?n = (?s + ?l + k) mod ?n" by (simp add: mod_add_left_eq)
    also have "?s + ?l + k = ?s + ?ov + i" using F by (simp add: k_def)
    finally show ?thesis using at [OF k(2)] k(1) F by (simp add: nth_append k_def)
  qed
  have "contents (ring_Write r p) = lastn ?n (contents r @ p)"
  proof (rule nth_equalityI)
    show "length (contents (ring_Write r p)) = length (lastn ?n (contents r @ p))"
      using False n by (auto simp: wr lastn_def)
    fix i assume "i < length (contents (ring_Write r p))"
    then have i: "i < ?l + length p - ?ov" by (simp add: wr)
    then have "contents (ring_Write r p) ! i = b2 ! ((?s + ?ov + i) mod ?n)"
      by (simp add: contents_def wr mod_add_left_eq)
    with nth [OF i] i show "contents (ring_Write r p) ! i = lastn ?n (contents r @ p) ! i"
      by (simp add: lastn_def del: drop_append)
  qed
  moreover have "ring_inv (ring_Write r p)" using n len by (auto simp: ring_inv_def wr)
  ultimately show ?thesis by (simp add: wr)
qed

lemma ring_snapshot_contents:
  assumes "ring_inv r"
  shows "ring_snapshot z r = contents r"
proof -
  let ?n = "rg_size r" and ?l = "rg_length r" and ?s = "rg_start r"
  have n: "length (rg_buf r) = ?n" "0 < ?n" "?s < ?n" "?l \<le> ?n" using assms by (simp_all add: ring_inv_def)
  have md: "(?s + k) mod ?n = (if ?s + k < ?n then ?s + k else ?s + k - ?n)" if "k < ?l" for k
    using that n by (intro mod_wrap) simp
  show ?thesis
  proof (cases "?s + ?l \<le> ?n")
    case True
    then have "ring_snapshot z r = take ?l (drop ?s (rg_buf r))"
      using n by (simp add: ring_snapshot_def copy_at_def Let_def drop_take min_def)
    also have "\<dots> = contents r"
      using True n md by (intro nth_equalityI) (auto simp: contents_def)
    finally show ?thesis .
  next
    case False
    then have "ring_snapshot z r = drop ?s (rg_buf r) @ take (?l - (?n - ?s)) (rg_buf r)"
      using n by (simp add: ring_snapshot_def copy_at_def Let_def min_def)
    also have "\<dots> = contents r"
      using False n md by (intro nth_equalityI) (auto simp: contents_def nth_append add.commute)
    finally show ?thesis .
  qed
qed

section \<open>Sessions\<close>

type_synonym byte = "8 word"

datatype term_error = ErrSessionExited | OsError string

record session =
  se_name :: string
  se_ring :: "byte ring"
  se_subs :: "nat list"
  se_exited :: bool
  se_exitCode :: int
  se_done :: bool
  se_chans :: "byte list chan_heap"
  se_input :: "byte list"
  se_winsize :: "16 word \<times> 16 word"

record attachment =
  at_Replay :: "byte list"
  at_sub :: nat

record term_config =
  tc_Name :: string
  tc_Shell :: string
  tc_ScrollbackKiB :: int
  tc_Env :: "string list"
  tc_Command :: "string list"
  tc_Credential :: "(32 word \<times> 32 word) option"
  tc_Dir :: string

text \<open>
  The child command, and what the operating system answers: its environment, starting a command
  on a fresh pseudo terminal, writing to it (how many bytes were taken, and an error) and
  resizing it.
\<close>

record command =
  cm_argv :: "string list"
  cm_Env :: "string list"
  cm_Dir :: string
  cm_Credential :: "(32 word \<times> 32 word) option"

record pty_os =
  po_Environ :: "string list"
  po_start :: "command \<Rightarrow> string option"
  po_write :: "byte list \<Rightarrow> nat \<times> string option"
  po_setsize :: "16 word \<Rightarrow> 16 word \<Rightarrow> string option"

definition subChanSize :: nat where "subChanSize = 256"

text \<open>The argv and the environment overlay of the child, and the session around its terminal.\<close>

definition session_argv :: "term_config \<Rightarrow> string list" where
  "session_argv cfg = (if tc_Command cfg \<noteq> [] then tc_Command cfg
     else [if tc_Shell cfg = [] then ''/bin/bash'' else tc_Shell cfg, ''-l''])"

definition session_command :: "pty_os \<Rightarrow> term_config \<Rightarrow> command" where
  "session_command os cfg = \<lparr>cm_argv = session_argv cfg,
     cm_Env = po_Environ os @ [''TERM=xterm-256color''] @ tc_Env cfg,
     cm_Dir = tc_Dir cfg, cm_Credential = tc_Credential cfg\<rparr>"

definition newSession :: "pty_os \<Rightarrow> term_config \<Rightarrow> term_error + session" where
  "newSession os cfg = (case po_start os (session_command os cfg) of
       Some e \<Rightarrow> Inl (OsError e)
     | None \<Rightarrow> Inr \<lparr>se_name = tc_Name cfg,
         se_ring = newRing 0 (int64 ((if tc_ScrollbackKiB cfg < 1 then 256 else tc_ScrollbackKiB cfg) * 1024)),
         se_subs = [], se_exited = False, se_exitCode = 0, se_done = False, se_chans = [], se_input = [],
         se_winsize = (0, 0)\<rparr>)"

text \<open>Delivery of one chunk: a full queue is closed and its subscriber dropped.\<close>

fun deliver :: "nat list \<Rightarrow> byte list \<Rightarrow> byte list chan_heap \<Rightarrow> (nat list \<times> byte list chan_heap) option" where
  "deliver [] chunk h = Some ([], h)"
| "deliver (r # rs) chunk h =
     (if \<not> open_chan h r then None
      else if length (ch_buf (h ! r)) < ch_cap (h ! r)
      then map_option (\<lambda>(subs, h'). (r # subs, h')) (deliver rs chunk (h[r := push chunk (h ! r)]))
      else (case close_chan r h of None \<Rightarrow> None | Some h' \<Rightarrow> deliver rs chunk h'))"

definition fanout :: "session \<Rightarrow> byte list \<Rightarrow> session option" where
  "fanout s chunk = map_option (\<lambda>(subs, h). s\<lparr>se_ring := ring_Write (se_ring s) chunk, se_subs := subs, se_chans := h\<rparr>)
     (deliver (se_subs s) chunk (se_chans s))"

definition finish :: "session \<Rightarrow> int \<Rightarrow> session" where
  "finish s code = s\<lparr>se_exited := True, se_exitCode := code, se_done := True\<rparr>"

definition Attach :: "session \<Rightarrow> session \<times> (term_error + attachment)" where
  "Attach s = (if se_exited s then (s, Inl ErrSessionExited)
     else let (h, c) = make_chan subChanSize (se_chans s)
          in (s\<lparr>se_subs := se_subs s @ [c], se_chans := h\<rparr>, Inr \<lparr>at_Replay = ring_snapshot 0 (se_ring s), at_sub = c\<rparr>))"

definition detach :: "session \<Rightarrow> nat \<Rightarrow> session option" where
  "detach s c = (if c \<in> set (se_subs s)
     then (case close_chan c (se_chans s) of None \<Rightarrow> None
             | Some h \<Rightarrow> Some (s\<lparr>se_subs := removeAll c (se_subs s), se_chans := h\<rparr>))
     else Some s)"

definition session_Write :: "pty_os \<Rightarrow> session \<Rightarrow> byte list \<Rightarrow> session \<times> term_error option" where
  "session_Write os s p = (if se_exited s then (s, Some ErrSessionExited)
     else let (n, err) = po_write os p in (s\<lparr>se_input := se_input s @ take n p\<rparr>, map_option OsError err))"

definition Resize :: "pty_os \<Rightarrow> session \<Rightarrow> int \<Rightarrow> int \<Rightarrow> session \<times> term_error option" where
  "Resize os s cols rows = (if se_exited s then (s, Some ErrSessionExited)
     else case po_setsize os (word_of_int rows) (word_of_int cols) of
       Some e \<Rightarrow> (s, Some (OsError e))
     | None \<Rightarrow> (s\<lparr>se_winsize := (word_of_int rows, word_of_int cols)\<rparr>, None))"

definition receive :: "session \<Rightarrow> nat \<Rightarrow> session" where
  "receive s c = s\<lparr>se_chans := snd (recv c (se_chans s))\<rparr>"

text \<open>
  The states of a session started with a given configuration, together with all the output
  its terminal has produced.
\<close>

inductive session_run :: "term_config \<Rightarrow> session \<Rightarrow> byte list \<Rightarrow> bool" for cfg where
  starts: "newSession os cfg = Inr s \<Longrightarrow> session_run cfg s []"
| outputs: "session_run cfg s out \<Longrightarrow> \<not> se_exited s \<Longrightarrow> fanout s chunk = Some s' \<Longrightarrow> session_run cfg s' (out @ chunk)"
| exits: "session_run cfg s out \<Longrightarrow> session_run cfg (finish s code) out"
| attaches: "session_run cfg s out \<Longrightarrow> session_run cfg (fst (Attach s)) out"
| detaches: "session_run cfg s out \<Longrightarrow> detach s c = Some s' \<Longrightarrow> session_run cfg s' out"
| receives: "session_run cfg s out \<Longrightarrow> session_run cfg (receive s c) out"
| writes: "session_run cfg s out \<Longrightarrow> session_run cfg (fst (session_Write os s p)) out"
| resizes: "session_run cfg s out \<Longrightarrow> session_run cfg (fst (Resize os s cols rows)) out"

section \<open>Session invariant\<close>

definition scrollback :: "term_config \<Rightarrow> nat" where
  "scrollback cfg = rg_size (newRing (0 :: byte) (int64 ((if tc_ScrollbackKiB cfg < 1 then 256 else tc_ScrollbackKiB cfg) * 1024)))"

definition session_ok :: "session \<Rightarrow> bool" where
  "session_ok s = (ring_inv (se_ring s) \<and> distinct (se_subs s) \<and> (\<forall>c \<in> set (se_subs s). open_chan (se_chans s) c))"

lemma deliver_ok:
  assumes "distinct rs" "\<forall>r \<in> set rs. open_chan h r"
  shows "\<exists>subs h'. deliver rs chunk h = Some (subs, h') \<and> distinct subs \<and> set subs \<subseteq> set rs \<and> length h' = length h
    \<and> (\<forall>r \<in> set subs. open_chan h' r)
    \<and> (\<forall>k < length h. h' ! k = (if k \<notin> set rs then h ! k else if length (ch_buf (h ! k)) < ch_cap (h ! k) then push chunk (h ! k)
         else (h ! k)\<lparr>ch_closed := True\<rparr>))
    \<and> (\<forall>k \<in> set rs. k \<in> set subs \<longleftrightarrow> length (ch_buf (h ! k)) < ch_cap (h ! k))"
  using assms
proof (induction rs arbitrary: h)
  case (Cons r rs)
  have r: "r < length h" "\<not> ch_closed (h ! r)" "open_chan h r" "r \<notin> set rs" using Cons.prems by (auto simp: open_chan_def)
  show ?case
  proof (cases "length (ch_buf (h ! r)) < ch_cap (h ! r)")
    case True
    let ?h = "h[r := push chunk (h ! r)]"
    have "\<forall>k \<in> set rs. open_chan ?h k" using Cons.prems by simp
    with Cons.IH [of ?h] Cons.prems obtain subs h' where d: "deliver rs chunk ?h = Some (subs, h')" "distinct subs" "set subs \<subseteq> set rs"
      "length h' = length h" "\<forall>r \<in> set subs. open_chan h' r"
      "\<forall>k < length h. h' ! k = (if k \<notin> set rs then ?h ! k else if length (ch_buf (?h ! k)) < ch_cap (?h ! k) then push chunk (?h ! k)
         else (?h ! k)\<lparr>ch_closed := True\<rparr>)"
      "\<forall>k \<in> set rs. k \<in> set subs \<longleftrightarrow> length (ch_buf (?h ! k)) < ch_cap (?h ! k)" by auto
    have "h' ! r = push chunk (h ! r)" using d(6) r by simp
    then have "open_chan h' r" using r d(4) by (simp add: open_chan_def)
    with d r True show ?thesis
      by (intro exI [of _ "r # subs"] exI [of _ h']) (auto simp: nth_list_update)
  next
    case False
    let ?h = "h[r := (h ! r)\<lparr>ch_closed := True\<rparr>]"
    have "\<forall>k \<in> set rs. open_chan ?h k" using Cons.prems r(4) by (auto simp: open_chan_def nth_list_update)
    with Cons.IH [of ?h] Cons.prems obtain subs h' where d: "deliver rs chunk ?h = Some (subs, h')" "distinct subs" "set subs \<subseteq> set rs"
      "length h' = length h" "\<forall>r \<in> set subs. open_chan h' r"
      "\<forall>k < length h. h' ! k = (if k \<notin> set rs then ?h ! k else if length (ch_buf (?h ! k)) < ch_cap (?h ! k) then push chunk (?h ! k)
         else (?h ! k)\<lparr>ch_closed := True\<rparr>)"
      "\<forall>k \<in> set rs. k \<in> set subs \<longleftrightarrow> length (ch_buf (?h ! k)) < ch_cap (?h ! k)" by auto
    have "close_chan r h = Some ?h" using r by (simp add: close_chan_def)
    with d r False show ?thesis
      by (intro exI [of _ subs] exI [of _ h']) (auto simp: nth_list_update)
  qed
qed simp

lemma fanout_ok:
  assumes "session_ok s"
  shows "\<exists>s'. fanout s chunk = Some s' \<and> session_ok s' \<and> set (se_subs s') \<subseteq> set (se_subs s)
    \<and> se_ring s' = ring_Write (se_ring s) chunk \<and> se_exited s' = se_exited s \<and> length (se_chans s') = length (se_chans s)
    \<and> (\<forall>c \<in> set (se_subs s). c \<in> set (se_subs s') \<longleftrightarrow> length (ch_buf (se_chans s ! c)) < ch_cap (se_chans s ! c))
    \<and> (\<forall>c \<in> set (se_subs s'). se_chans s' ! c = push chunk (se_chans s ! c))
    \<and> (\<forall>c < length (se_chans s). c \<notin> set (se_subs s') \<longrightarrow> ch_buf (se_chans s' ! c) = ch_buf (se_chans s ! c))
    \<and> (\<forall>c \<in> set (se_subs s). c \<notin> set (se_subs s') \<longrightarrow> ch_closed (se_chans s' ! c))
    \<and> (\<forall>c < length (se_chans s). c \<notin> set (se_subs s) \<longrightarrow> se_chans s' ! c = se_chans s ! c)"
proof -
  have ok: "distinct (se_subs s)" "\<forall>c \<in> set (se_subs s). open_chan (se_chans s) c" "ring_inv (se_ring s)"
    using assms by (simp_all add: session_ok_def)
  have lt: "c < length (se_chans s)" if "c \<in> set (se_subs s)" for c using ok(2) that by (simp add: open_chan_def)
  from deliver_ok [OF ok(1,2), of chunk] obtain subs h where d:
    "deliver (se_subs s) chunk (se_chans s) = Some (subs, h)" "distinct subs" "set subs \<subseteq> set (se_subs s)"
    "length h = length (se_chans s)" "\<forall>r \<in> set subs. open_chan h r"
    "\<forall>k < length (se_chans s). h ! k = (if k \<notin> set (se_subs s) then se_chans s ! k
       else if length (ch_buf (se_chans s ! k)) < ch_cap (se_chans s ! k) then push chunk (se_chans s ! k)
       else (se_chans s ! k)\<lparr>ch_closed := True\<rparr>)"
    "\<forall>k \<in> set (se_subs s). k \<in> set subs \<longleftrightarrow> length (ch_buf (se_chans s ! k)) < ch_cap (se_chans s ! k)" by blast
  let ?s = "s\<lparr>se_ring := ring_Write (se_ring s) chunk, se_subs := subs, se_chans := h\<rparr>"
  have "session_ok ?s" using d ring_Write_contents [OF ok(3)] by (simp add: session_ok_def)
  moreover have "fanout s chunk = Some ?s" using d(1) by (simp add: fanout_def)
  ultimately show ?thesis using d lt by (intro exI [of _ ?s]) auto
qed

lemma Attach_ok:
  assumes "session_ok s" "Attach s = (s1, Inr a)"
  shows "session_ok s1 \<and> at_Replay a = contents (se_ring s) \<and> at_sub a \<in> set (se_subs s1) \<and> at_sub a < length (se_chans s1)
    \<and> se_chans s1 ! at_sub a = \<lparr>ch_buf = [], ch_cap = 256, ch_closed = False\<rparr> \<and> se_ring s1 = se_ring s"
proof -
  let ?c = "length (se_chans s)"
  have ok: "distinct (se_subs s)" "\<forall>c \<in> set (se_subs s). open_chan (se_chans s) c" "ring_inv (se_ring s)"
    using assms(1) by (simp_all add: session_ok_def)
  have eq: "s1 = s\<lparr>se_subs := se_subs s @ [?c], se_chans := se_chans s @ [\<lparr>ch_buf = [], ch_cap = 256, ch_closed = False\<rparr>]\<rparr>"
    "a = \<lparr>at_Replay = ring_snapshot 0 (se_ring s), at_sub = ?c\<rparr>"
    using assms(2) by (auto simp: Attach_def make_chan_def subChanSize_def split: if_splits)
  have "?c \<notin> set (se_subs s)" using ok(2) by (auto simp: open_chan_def)
  with ok eq show ?thesis
    by (auto simp: session_ok_def open_chan_fresh intro: open_chan_make simp: ring_snapshot_contents)
qed

lemma detach_ok:
  assumes "session_ok s"
  shows "\<exists>s'. detach s c = Some s' \<and> session_ok s' \<and> se_ring s' = se_ring s"
proof (cases "c \<in> set (se_subs s)")
  case True
  then have c: "c < length (se_chans s)" "\<not> ch_closed (se_chans s ! c)" using assms by (auto simp: session_ok_def open_chan_def)
  let ?h = "(se_chans s)[c := (se_chans s ! c)\<lparr>ch_closed := True\<rparr>]"
  have "open_chan ?h k" if "open_chan (se_chans s) k" "k \<noteq> c" for k using that by (simp add: open_chan_def)
  with assms True c show ?thesis by (auto simp: detach_def close_chan_def session_ok_def distinct_removeAll)
qed (use assms in \<open>simp add: detach_def\<close>)

lemma recv_open_chan: "open_chan (snd (recv c cs)) k = open_chan cs k"
  by (auto simp: recv_def open_chan_def nth_list_update)

lemma session_run_ok:
  assumes "session_run cfg s out"
  shows "session_ok s \<and> contents (se_ring s) = lastn (scrollback cfg) out \<and> rg_size (se_ring s) = scrollback cfg"
  using assms
proof (induction rule: session_run.induct)
  case (starts os s)
  then show ?case
    by (auto simp: newSession_def session_ok_def scrollback_def lastn_def newRing_inv split: option.splits)
next
  case (outputs s out chunk s')
  then show ?case
    using fanout_ok [of s chunk] ring_Write_contents [of "se_ring s" chunk] lastn_lastn [of "scrollback cfg" out chunk]
    by (auto simp: session_ok_def)
next
  case (attaches s out)
  show ?case
  proof (cases "se_exited s")
    case False
    then obtain a where "Attach s = (fst (Attach s), Inr a)" by (auto simp: Attach_def make_chan_def)
    with Attach_ok attaches.IH show ?thesis by metis
  qed (use attaches.IH in \<open>simp add: Attach_def\<close>)
next
  case (detaches s out c s')
  then show ?case using detach_ok [of s c] by auto
next
  case (receives s out c)
  then show ?case by (simp add: receive_def session_ok_def recv_open_chan)
qed (auto simp: finish_def session_Write_def Resize_def session_ok_def split: option.splits prod.splits)

section \<open>The registry\<close>

record term_manager =
  mg_defaults :: term_config
  mg_sessions :: "(string \<times> nat) list"
  mg_heap :: "session list"

definition NewManager :: "term_config \<Rightarrow> term_manager" where
  "NewManager defaults = \<lparr>mg_defaults = defaults, mg_sessions = [], mg_heap = []\<rparr>"

definition getOrCreate :: "pty_os \<Rightarrow> term_manager \<Rightarrow> string \<Rightarrow> term_config \<Rightarrow> term_manager \<times> (term_error + nat)" where
  "getOrCreate os m name cfg = (case map_of (mg_sessions m) name of
       Some r \<Rightarrow> (m, Inr r)
     | None \<Rightarrow> (case newSession os cfg of
         Inl e \<Rightarrow> (m, Inl e)
       | Inr s \<Rightarrow> (m\<lparr>mg_heap := mg_heap m @ [s], mg_sessions := AList.update name (length (mg_heap m)) (mg_sessions m)\<rparr>,
                   Inr (length (mg_heap m)))))"

definition manager_Get :: "pty_os \<Rightarrow> term_manager \<Rightarrow> string \<Rightarrow> string \<Rightarrow> term_manager \<times> (term_error + nat)" where
  "manager_Get os m name dir =
     (let cfg = (mg_defaults m)\<lparr>tc_Name := name\<rparr>
      in getOrCreate os m name (if dir \<noteq> [] then cfg\<lparr>tc_Dir := dir\<rparr> else cfg))"

definition GetAgent :: "pty_os \<Rightarrow> term_manager \<Rightarrow> string \<Rightarrow> string list \<Rightarrow> string list \<Rightarrow> string
    \<Rightarrow> term_manager \<times> (term_error + nat)" where
  "GetAgent os m name command env dir =
     (let cfg = (mg_defaults m)\<lparr>tc_Name := name, tc_Command := command\<rparr>;
          cfg1 = (if dir \<noteq> [] then cfg\<lparr>tc_Dir := dir\<rparr> else cfg)
      in getOrCreate os m name (cfg1\<lparr>tc_Env := tc_Env (mg_defaults m) @ env\<rparr>))"

text \<open>The goroutine of \<open>getOrCreate\<close>, once the session's \<open>Done\<close> is closed.\<close>

definition auto_remove :: "term_manager \<Rightarrow> string \<Rightarrow> nat \<Rightarrow> term_manager" where
  "auto_remove m name r = (if map_of (mg_sessions m) name = Some r
     then m\<lparr>mg_sessions := AList.delete name (mg_sessions m)\<rparr> else m)"

definition ActiveCount :: "term_manager \<Rightarrow> nat" where
  "ActiveCount m = length (mg_sessions m)"

text \<open>The shell of a tracked session ends.\<close>

definition session_exits :: "term_manager \<Rightarrow> nat \<Rightarrow> int \<Rightarrow> term_manager" where
  "session_exits m r code = m\<lparr>mg_heap := (mg_heap m)[r := finish (mg_heap m ! r) code]\<rparr>"

definition manager_Shutdown :: "term_manager \<Rightarrow> term_manager" where
  "manager_Shutdown m = fold (\<lambda>r m. session_exits m r (- 1)) (map snd (mg_sessions m)) m"

text \<open>
  A name is looked up without looking at the session: between the exit of a shell and the run of
  its removal goroutine the exited session is handed out, and attaching to it fails.
\<close>

lemma Get_returns_exited:
  assumes "map_of (mg_sessions m) name = Some r" "r < length (mg_heap m)"
  shows "manager_Get os (session_exits m r code) name dir = (session_exits m r code, Inr r)
    \<and> snd (Attach (mg_heap (session_exits m r code) ! r)) = Inl ErrSessionExited"
  using assms by (simp add: manager_Get_def getOrCreate_def session_exits_def finish_def Attach_def Let_def)

text \<open>After the removal a fresh session is started under the name; a replacement is never removed.\<close>

lemma auto_remove_then_fresh:
  assumes "map_of (mg_sessions m) name = Some r" "distinct (map fst (mg_sessions m))" "newSession os cfg = Inr s"
  shows "getOrCreate os (auto_remove m name r) name cfg
    = ((auto_remove m name r)\<lparr>mg_heap := mg_heap m @ [s],
        mg_sessions := AList.update name (length (mg_heap m)) (AList.delete name (mg_sessions m))\<rparr>, Inr (length (mg_heap m)))"
  using assms by (simp add: getOrCreate_def auto_remove_def delete_conv')

lemma auto_remove_keeps: "map_of (mg_sessions m) name = Some q \<Longrightarrow> q \<noteq> r \<Longrightarrow> auto_remove m name r = m"
  by (simp add: auto_remove_def)

end
