(* ===== verification/Guest_Claims.thy ===== *)
theory Guest_Claims
  imports Guest_Term
begin

text \<open>
  The property of the guest's terminal sessions: reattaching loses and repeats nothing.
\<close>

fun fanout_all :: "session \<Rightarrow> byte list list \<Rightarrow> session option" where
  "fanout_all s [] = Some s"
| "fanout_all s (c # cs) = (case fanout s c of None \<Rightarrow> None | Some s' \<Rightarrow> fanout_all s' cs)"

lemma fanout_all_dropped:
  assumes "session_ok s" "c < length (se_chans s)" "c \<notin> set (se_subs s)"
  shows "\<exists>s'. fanout_all s cs = Some s' \<and> session_ok s' \<and> c \<notin> set (se_subs s') \<and> se_chans s' ! c = se_chans s ! c"
  using assms
proof (induction cs arbitrary: s)
  case (Cons k cs)
  from fanout_ok [OF Cons.prems(1), of k] obtain s1 where s1: "fanout s k = Some s1" "session_ok s1"
    "set (se_subs s1) \<subseteq> set (se_subs s)" "length (se_chans s1) = length (se_chans s)" "se_chans s1 ! c = se_chans s ! c"
    using Cons.prems(2,3) by metis
  with Cons.IH [OF s1(2)] Cons.prems show ?case by auto
qed simp

lemma fanout_all_channel:
  assumes "session_ok s" "c \<in> set (se_subs s)" "c < length (se_chans s)" "ch_cap (se_chans s ! c) = n"
    "length (ch_buf (se_chans s ! c)) \<le> n"
  shows "\<exists>s'. fanout_all s cs = Some s' \<and> session_ok s' \<and> ch_buf (se_chans s' ! c) = take n (ch_buf (se_chans s ! c) @ cs)
    \<and> (c \<in> set (se_subs s') \<longleftrightarrow> length (ch_buf (se_chans s ! c)) + length cs \<le> n)
    \<and> (c \<notin> set (se_subs s') \<longrightarrow> ch_closed (se_chans s' ! c))"
  using assms
proof (induction cs arbitrary: s)
  case (Cons k cs)
  let ?b = "ch_buf (se_chans s ! c)"
  from fanout_ok [OF Cons.prems(1), of k] obtain s1 where s1: "fanout s k = Some s1" "session_ok s1"
    "length (se_chans s1) = length (se_chans s)" "c \<in> set (se_subs s1) \<longleftrightarrow> length ?b < n"
    "c \<in> set (se_subs s1) \<Longrightarrow> se_chans s1 ! c = push k (se_chans s ! c)"
    "c \<notin> set (se_subs s1) \<Longrightarrow> ch_buf (se_chans s1 ! c) = ?b"
    "c \<notin> set (se_subs s1) \<Longrightarrow> ch_closed (se_chans s1 ! c)"
    using Cons.prems(2-4) by metis
  show ?case
  proof (cases "length ?b < n")
    case True
    then have ch: "se_chans s1 ! c = push k (se_chans s ! c)" "c \<in> set (se_subs s1)" using s1(4,5) by simp_all
    then have "ch_buf (se_chans s1 ! c) = ?b @ [k]" "ch_cap (se_chans s1 ! c) = n"
      using True Cons.prems(4) by (simp_all add: push_def)
    with Cons.IH [OF s1(2) ch(2)] s1(1,3) Cons.prems(3) True show ?thesis by auto
  next
    case False
    then have "c \<notin> set (se_subs s1)" using s1(4) by simp
    with fanout_all_dropped [OF s1(2)] s1 Cons.prems(3,5) False show ?thesis by fastforce
  qed
qed auto

text \<open>
  C38. Reattaching to a terminal loses and repeats nothing. At any point of a session's life,
  whatever other clients do, attaching replays exactly the last \<open>scrollback\<close> bytes of all the
  output so far; the chunks that follow arrive on the attachment's channel in order and
  without a gap. Fan-out never panics, and an attachment that leaves more than 256 chunks
  unread has the first 256 of them and is then closed, never left with a hole.
\<close>

theorem terminal_replay:
  assumes "session_run cfg s out" "Attach s = (s1, Inr a)"
  shows "\<exists>s2. fanout_all s1 cs = Some s2 \<and> at_Replay a = lastn (scrollback cfg) out
    \<and> ch_buf (se_chans s2 ! at_sub a) = take 256 cs
    \<and> (at_sub a \<in> set (se_subs s2) \<longleftrightarrow> length cs \<le> 256)
    \<and> (length cs > 256 \<longrightarrow> ch_closed (se_chans s2 ! at_sub a))
    \<and> contents (se_ring s2) = lastn (scrollback cfg) (out @ concat cs)"
proof -
  note ok = session_run_ok [OF assms(1)]
  then have s1: "session_ok s1" "at_Replay a = lastn (scrollback cfg) out" "at_sub a \<in> set (se_subs s1)"
    "at_sub a < length (se_chans s1)" "se_chans s1 ! at_sub a = \<lparr>ch_buf = [], ch_cap = 256, ch_closed = False\<rparr>" "se_ring s1 = se_ring s"
    using Attach_ok [OF _ assms(2)] by auto
  obtain s2 where s2: "fanout_all s1 cs = Some s2" "ch_buf (se_chans s2 ! at_sub a) = take 256 cs"
    "at_sub a \<in> set (se_subs s2) \<longleftrightarrow> length cs \<le> 256" "at_sub a \<notin> set (se_subs s2) \<longrightarrow> ch_closed (se_chans s2 ! at_sub a)"
    using fanout_all_channel [OF s1(1,3,4), of 256 cs] s1(5) by auto
  have ring: "contents (se_ring u) = lastn (scrollback cfg) (o1 @ concat cs)"
    if "session_ok t" "contents (se_ring t) = lastn (scrollback cfg) o1" "rg_size (se_ring t) = scrollback cfg" "fanout_all t cs = Some u"
    for t u o1
    using that
  proof (induction cs arbitrary: t o1)
    case (Cons k cs)
    from fanout_ok [OF Cons.prems(1), of k] obtain t1 where t1: "fanout t k = Some t1" "session_ok t1"
      "se_ring t1 = ring_Write (se_ring t) k" by blast
    have "ring_inv (se_ring t)" using Cons.prems(1) by (simp add: session_ok_def)
    from ring_Write_contents [OF this, of k] t1(3) Cons.prems(2,3) lastn_lastn [of "scrollback cfg" o1 k]
    have "contents (se_ring t1) = lastn (scrollback cfg) (o1 @ k)" "rg_size (se_ring t1) = scrollback cfg" by simp_all
    with Cons.IH [OF t1(2), of "o1 @ k"] t1(1) Cons.prems(4) show ?case by simp
  qed simp
  from ring [OF s1(1) _ _ s2(1), of out] ok s1(6) s2 s1(2) show ?thesis by auto
qed

definition ex_term :: term_config where
  "ex_term = \<lparr>tc_Name = ''main'', tc_Shell = [], tc_ScrollbackKiB = 1, tc_Env = [], tc_Command = [], tc_Credential = None, tc_Dir = []\<rparr>"

definition ex_os :: pty_os where
  "ex_os = \<lparr>po_Environ = [''PATH=/bin''], po_start = (\<lambda>_. None), po_write = (\<lambda>p. (length p, None)), po_setsize = (\<lambda>_ _. None)\<rparr>"

theorem terminal_replay_witness:
  "\<exists>s s1 a s2. session_run ex_term s [] \<and> Attach s = (s1, Inr a) \<and> fanout_all s1 [[104], [105]] = Some s2
    \<and> at_Replay a = [] \<and> ch_buf (se_chans s2 ! at_sub a) = [[104], [105]]"
proof -
  obtain s where s: "newSession ex_os ex_term = Inr s" "\<not> se_exited s" by (simp add: newSession_def ex_os_def)
  have run: "session_run ex_term s []" using session_run.starts [OF s(1)] .
  obtain s1 a where "Attach s = (s1, Inr a)" using s(2) by (auto simp: Attach_def make_chan_def)
  with terminal_replay [OF run this, of "[[104], [105]]"] run show ?thesis by (auto simp: lastn_def)
qed

end
