(* ===== verification/Nft_Firewall.thy ===== *)
theory Nft_Firewall
  imports Net_Addr Agent_Api
begin

text \<open>
  The node-agent's packet filter (\<open>driver/firecracker/network.go\<close>): the rules it hands to nft
  for the host and for each guest's tap, and how it installs and removes them. A rule is the
  argument list of the nft command, as in the code; the rule set is the list of the added rules
  in order. nft and the kernel are parameters: which commands succeed, what \<open>ip route\<close> and the
  resolver answer (\<open>netctx\<close>), and which packets a match expression selects.
\<close>

type_synonym nft_rule = "string list"

record netctx =
  nx_run :: "string list \<Rightarrow> string option"
  nx_lists :: "string \<Rightarrow> string \<Rightarrow> bool"
  nx_route :: "error + string"
  nx_dns :: "string \<Rightarrow> string list option"
  nx_link :: "string \<Rightarrow> bool"

definition nftTable :: string where "nftTable = ''proteos''"
definition nftGlobalTag :: string where "nftGlobalTag = ''proteos:global''"

definition quoted :: "string \<Rightarrow> string" where "quoted s = [CHR 0x22] @ s @ [CHR 0x22]"

section \<open>Commands\<close>

text \<open>\<open>run\<close>: the command's error is wrapped with the command line and its output.\<close>

definition join_args :: "string list \<Rightarrow> string" where
  "join_args args = concat (map (\<lambda>a. '' '' @ a) args)"

definition run_cmd :: "netctx \<Rightarrow> string \<Rightarrow> string list \<Rightarrow> error option" where
  "run_cmd c name args = (case nx_run c (name # args) of
       None \<Rightarrow> None
     | Some e \<Rightarrow> Some (Errorf (name @ join_args args @ '': '') (ErrorText e) []))"

text \<open>\<open>strings.Fields\<close> and the scan for the device after \<open>dev\<close>.\<close>

definition is_blank :: "char \<Rightarrow> bool" where
  "is_blank ch = (ch \<in> {CHR '' '', CHR 0x09, CHR 0x0A, CHR 0x0B, CHR 0x0C, CHR 0x0D})"

fun tokens :: "string \<Rightarrow> string \<Rightarrow> string list" where
  "tokens acc [] = (if acc = [] then [] else [acc])"
| "tokens acc (x # xs) = (if is_blank x then (if acc = [] then tokens [] xs else acc # tokens [] xs) else tokens (acc @ [x]) xs)"

fun dev_after :: "string list \<Rightarrow> string option" where
  "dev_after (f # g # fs) = (if f = ''dev'' then Some g else dev_after (g # fs))"
| "dev_after _ = None"

definition egressDev :: "netctx \<Rightarrow> string res" where
  "egressDev c = (case nx_route c of
       Inl e \<Rightarrow> Inl e
     | Inr out \<Rightarrow> (case dev_after (tokens [] out) of
         Some d \<Rightarrow> Inr d
       | None \<Rightarrow> Inl (ErrorText (''could not determine egress interface from '' @ go_quote out))))"

fun resolve_loop :: "netctx \<Rightarrow> string list \<Rightarrow> string list \<Rightarrow> string list res" where
  "resolve_loop c out [] = Inr out"
| "resolve_loop c out (n # ns) = (case (if n = ''egress'' then egressDev c else Inr n) of
       Inl e \<Rightarrow> Inl e
     | Inr d \<Rightarrow> resolve_loop c (if d \<in> set out then out else out @ [d]) ns)"

definition resolveMgmtIfaces :: "netctx \<Rightarrow> string list \<Rightarrow> string list res" where
  "resolveMgmtIfaces c names = resolve_loop c [] names"

section \<open>Rules\<close>

definition add_rule :: "string \<Rightarrow> string \<Rightarrow> string list \<Rightarrow> nft_rule" where
  "add_rule table chain spec = [''add'', ''rule'', ''ip'', table, chain] @ spec"

definition mgmtInputRules :: "string \<Rightarrow> string list \<Rightarrow> nft_rule list" where
  "mgmtInputRules agentPort ifaces =
     (let tag = quoted nftGlobalTag in
      [add_rule nftTable ''input'' [''iif'', ''lo'', ''counter'', ''accept'', ''comment'', tag],
       add_rule nftTable ''input'' [''ct'', ''state'', ''established,related'', ''counter'', ''accept'', ''comment'', tag],
       add_rule nftTable ''input'' [''ct'', ''state'', ''invalid'', ''counter'', ''drop'', ''comment'', tag]]
      @ concat (map (\<lambda>ifc.
          [add_rule nftTable ''input'' [''iifname'', ifc, ''tcp'', ''dport'', ''22'', ''counter'', ''accept'', ''comment'', tag],
           add_rule nftTable ''input'' [''iifname'', ifc, ''tcp'', ''dport'', agentPort, ''counter'', ''accept'', ''comment'', tag]]) ifaces))"

definition commentTag :: "string \<Rightarrow> string" where "commentTag tap = ''proteos:'' @ tap"

definition private_ranges :: "string list" where
  "private_ranges = [''10.0.0.0/8'', ''172.16.0.0/12'', ''192.168.0.0/16'', ''169.254.0.0/16'']"

definition tap_input_rules :: "string \<Rightarrow> nft_rule list" where
  "tap_input_rules tap =
     [add_rule nftTable ''input'' [''iifname'', tap, ''ct'', ''state'', ''established,related'', ''counter'', ''accept'', ''comment'', quoted (commentTag tap)],
      add_rule nftTable ''input'' [''iifname'', tap, ''counter'', ''drop'', ''comment'', quoted (commentTag tap)]]"

definition tap_base_rules :: "string \<Rightarrow> nft_rule list" where
  "tap_base_rules tap =
     [add_rule nftTable ''forward'' [''iifname'', tap, ''ct'', ''state'', ''established,related'', ''counter'', ''accept'', ''comment'', quoted (commentTag tap)],
      add_rule nftTable ''forward'' [''oifname'', tap, ''ct'', ''state'', ''established,related'', ''counter'', ''accept'', ''comment'', quoted (commentTag tap)]]
     @ map (\<lambda>r. add_rule nftTable ''forward'' [''iifname'', tap, ''ip'', ''daddr'', r, ''counter'', ''drop'', ''comment'', quoted (commentTag tap)]) private_ranges"

definition tap_mode_rules :: "string \<Rightarrow> string \<Rightarrow> string \<Rightarrow> string list \<Rightarrow> string list \<Rightarrow> nft_rule list" where
  "tap_mode_rules tap egress mode allowIPs denyIPs =
     (let tag = quoted (commentTag tap);
          rest = add_rule nftTable ''forward'' [''iifname'', tap, ''oifname'', egress, ''counter'', ''accept'', ''comment'', tag]
      in if mode = NetworkPolicyDenyAll then []
         else if mode = NetworkPolicyAllowDomains
         then map (\<lambda>ip. add_rule nftTable ''forward'' [''iifname'', tap, ''ip'', ''daddr'', ip, ''oifname'', egress, ''counter'', ''accept'', ''comment'', tag]) allowIPs
         else if mode = NetworkPolicyDenyDomains
         then map (\<lambda>ip. add_rule nftTable ''forward'' [''iifname'', tap, ''ip'', ''daddr'', ip, ''counter'', ''drop'', ''comment'', tag]) denyIPs @ [rest]
         else [rest])"

definition networkPolicyRules :: "string \<Rightarrow> string \<Rightarrow> string \<Rightarrow> string \<Rightarrow> string list \<Rightarrow> string list \<Rightarrow> nft_rule list" where
  "networkPolicyRules tap guestCIDR egress mode allowIPs denyIPs =
     tap_input_rules tap @ tap_base_rules tap @ tap_mode_rules tap egress mode allowIPs denyIPs
     @ [add_rule nftTable ''postrouting'' [''ip'', ''saddr'', guestCIDR, ''oifname'', egress, ''counter'', ''masquerade'', ''comment'', quoted (commentTag tap)]]"

definition egressRules :: "string \<Rightarrow> string \<Rightarrow> string \<Rightarrow> nft_rule list" where
  "egressRules tap guestCIDR egress = networkPolicyRules tap guestCIDR egress NetworkPolicyAllowAll [] []"

fun add_new :: "string list \<Rightarrow> string list \<Rightarrow> string list" where
  "add_new ips [] = ips"
| "add_new ips (a # as) = add_new (if a \<in> set ips then ips else ips @ [a]) as"

fun resolve_domains :: "netctx \<Rightarrow> string list \<Rightarrow> string list \<Rightarrow> string list" where
  "resolve_domains c ips [] = ips"
| "resolve_domains c ips (d # ds) = resolve_domains c (case nx_dns c d of None \<Rightarrow> ips | Some as \<Rightarrow> add_new ips as) ds"

definition resolveDomainIPs :: "netctx \<Rightarrow> string list \<Rightarrow> string list" where
  "resolveDomainIPs c domains = resolve_domains c [] domains"

section \<open>Installing and removing\<close>

definition rule_table :: "nft_rule \<Rightarrow> string" where "rule_table r = r ! 3"
definition rule_chain :: "nft_rule \<Rightarrow> string" where "rule_chain r = r ! 4"
definition rule_comment :: "nft_rule \<Rightarrow> string" where "rule_comment r = last r"

definition deleteRulesByComment :: "netctx \<Rightarrow> string \<Rightarrow> string \<Rightarrow> string \<Rightarrow> nft_rule list \<Rightarrow> nft_rule list" where
  "deleteRulesByComment c table chain tag rs =
     (if \<not> nx_lists c table chain then rs
      else filter (\<lambda>r. \<not> (rule_table r = table \<and> rule_chain r = chain \<and> rule_comment r = quoted tag)) rs)"

definition deleteTapRules :: "netctx \<Rightarrow> string \<Rightarrow> nft_rule list \<Rightarrow> nft_rule list" where
  "deleteTapRules c tap rs =
     (let tag = commentTag tap in
      deleteRulesByComment c ''filter'' ''FORWARD'' tag
       (deleteRulesByComment c nftTable ''postrouting'' tag
         (deleteRulesByComment c nftTable ''forward'' tag
           (deleteRulesByComment c nftTable ''input'' tag rs))))"

text \<open>Adding rules one by one; the first refused one ends the loop.\<close>

fun add_rules :: "netctx \<Rightarrow> nft_rule list \<Rightarrow> nft_rule list \<Rightarrow> nft_rule list \<times> error option" where
  "add_rules c rs [] = (rs, None)"
| "add_rules c rs (r # new) = (case run_cmd c ''nft'' r of
       Some e \<Rightarrow> (rs, Some e)
     | None \<Rightarrow> add_rules c (rs @ [r]) new)"

definition first_error :: "error option list \<Rightarrow> error option" where
  "first_error es = (case filter (\<lambda>e. e \<noteq> None) es of [] \<Rightarrow> None | e # _ \<Rightarrow> e)"

definition table_commands :: "string list list" where
  "table_commands =
     [[''add'', ''table'', ''ip'', nftTable],
      [''add'', ''chain'', ''ip'', nftTable, ''input'', ''{ type filter hook input priority 0 ; policy drop ; }''],
      [''add'', ''chain'', ''ip'', nftTable, ''forward'', ''{ type filter hook forward priority 0 ; policy drop ; }''],
      [''add'', ''chain'', ''ip'', nftTable, ''postrouting'', ''{ type nat hook postrouting priority 100 ; }'']]"

text \<open>The refusals of the fail-closed input chain; the dash is its UTF-8 encoding.\<close>

definition port_empty :: error where
  "port_empty = ErrorText (''nftables: agent API port is empty (Config.AgentPort) '' @ [CHR 0xE2, CHR 0x80, CHR 0x94]
     @ '' the fail-closed input chain needs it allow-listed'')"

definition ifaces_empty :: error where
  "ifaces_empty = ErrorText (''nftables: management interface list is empty (Config.MgmtIfaces) '' @ [CHR 0xE2, CHR 0x80, CHR 0x94]
     @ '' the fail-closed input chain needs at least one allowed interface'')"

definition ensureNftTable :: "netctx \<Rightarrow> nft_rule list \<Rightarrow> string \<Rightarrow> string list \<Rightarrow> nft_rule list \<times> error option" where
  "ensureNftTable c rs agentPort mgmtIfaces =
     (if agentPort = [] then (rs, Some (port_empty))
      else if mgmtIfaces = [] then (rs, Some (ifaces_empty))
      else case first_error (map (run_cmd c ''nft'') table_commands) of
        Some e \<Rightarrow> (rs, Some e)
      | None \<Rightarrow> (case resolveMgmtIfaces c mgmtIfaces of
          Inl e \<Rightarrow> (rs, Some e)
        | Inr ifaces \<Rightarrow> add_rules c (deleteRulesByComment c nftTable ''input'' nftGlobalTag rs) (mgmtInputRules agentPort ifaces)))"

definition filter_rules :: "string \<Rightarrow> string \<Rightarrow> nft_rule list" where
  "filter_rules tap egress =
     [add_rule ''filter'' ''FORWARD'' [''iifname'', tap, ''oifname'', egress, ''counter'', ''accept'', ''comment'', quoted (commentTag tap)],
      add_rule ''filter'' ''FORWARD'' [''iifname'', egress, ''oifname'', tap, ''ct'', ''state'', ''established,related'', ''counter'', ''accept'', ''comment'', quoted (commentTag tap)]]"

definition allowForwardInFilter :: "netctx \<Rightarrow> nft_rule list \<Rightarrow> string \<Rightarrow> string \<Rightarrow> nft_rule list \<times> error option" where
  "allowForwardInFilter c rs tap egress =
     (if \<not> nx_lists c ''filter'' ''FORWARD'' then (rs, None) else add_rules c rs (filter_rules tap egress))"

definition link_commands :: "netctx \<Rightarrow> string \<Rightarrow> string \<Rightarrow> string \<Rightarrow> error option list" where
  "link_commands c tap gatewayCIDR guestCIDR =
     (if nx_link c tap then [] else [run_cmd c ''ip'' [''tuntap'', ''add'', tap, ''mode'', ''tap'']])
     @ [run_cmd c ''ip'' [''addr'', ''replace'', gatewayCIDR, ''dev'', tap],
        run_cmd c ''ip'' [''link'', ''set'', tap, ''up''],
        run_cmd c ''ip'' [''route'', ''replace'', guestCIDR, ''dev'', tap],
        run_cmd c ''sysctl'' [''-wq'', ''net.ipv4.ip_forward=1'']]"

definition policy_ips :: "netctx \<Rightarrow> string \<Rightarrow> string list \<Rightarrow> string list \<times> string list" where
  "policy_ips c mode domains =
     (if mode = NetworkPolicyAllowDomains then (resolveDomainIPs c domains, [])
      else if mode = NetworkPolicyDenyDomains then ([], resolveDomainIPs c domains) else ([], []))"

definition setupTap :: "netctx \<Rightarrow> nft_rule list \<Rightarrow> string \<Rightarrow> string \<Rightarrow> string \<Rightarrow> string \<Rightarrow> string list \<Rightarrow> string \<Rightarrow> string list
    \<Rightarrow> nft_rule list \<times> error option" where
  "setupTap c rs tap gatewayCIDR guestCIDR agentPort mgmtIfaces mode domains =
     (case ensureNftTable c rs agentPort mgmtIfaces of
        (rs1, Some e) \<Rightarrow> (rs1, Some e)
      | (rs1, None) \<Rightarrow>
        (let rs2 = deleteTapRules c tap rs1 in
         case first_error (link_commands c tap gatewayCIDR guestCIDR) of
           Some e \<Rightarrow> (rs2, Some e)
         | None \<Rightarrow> (case egressDev c of
             Inl e \<Rightarrow> (rs2, Some e)
           | Inr egress \<Rightarrow>
             (let (allowIPs, denyIPs) = policy_ips c mode domains in
              case add_rules c rs2 (networkPolicyRules tap guestCIDR egress mode allowIPs denyIPs) of
                (rs3, Some e) \<Rightarrow> (rs3, Some e)
              | (rs3, None) \<Rightarrow> allowForwardInFilter c rs3 tap egress))))"

definition teardownTap :: "netctx \<Rightarrow> nft_rule list \<Rightarrow> string \<Rightarrow> nft_rule list" where
  "teardownTap c rs tap = deleteTapRules c tap rs"

section \<open>What a chain decides\<close>

datatype conn_state = New | Established | Invalid

record packet =
  pk_iif :: string
  pk_oif :: string
  pk_saddr :: "32 word"
  pk_daddr :: "32 word"
  pk_ct :: conn_state
  pk_dport :: "string option"

type_synonym matcher = "string list \<Rightarrow> packet \<Rightarrow> bool"

text \<open>
  A rule's expressions, up to the counter, all have to match; the word after the counter is its
  verdict. \<open>iif\<close>, \<open>iifname\<close> and \<open>oifname\<close> take one argument, the other expressions two.
\<close>

fun rule_matches :: "matcher \<Rightarrow> string list \<Rightarrow> packet \<Rightarrow> bool" where
  "rule_matches m (a # b # rest) p =
     (if a = ''counter'' then True
      else if a \<in> {''iif'', ''iifname'', ''oifname''} then m [a, b] p \<and> rule_matches m rest p
      else (case rest of c # rest' \<Rightarrow> m [a, b, c] p \<and> rule_matches m rest' p | [] \<Rightarrow> False))"
| "rule_matches m _ p = False"

fun rule_verdict :: "string list \<Rightarrow> string" where
  "rule_verdict (a # b # rest) =
     (if a = ''counter'' then b
      else if a \<in> {''iif'', ''iifname'', ''oifname''} then rule_verdict rest
      else (case rest of c # rest' \<Rightarrow> rule_verdict rest' | [] \<Rightarrow> []))"
| "rule_verdict _ = []"

text \<open>The first matching rule of a chain decides; the policy of both filter chains is drop.\<close>

fun accepts :: "matcher \<Rightarrow> string \<Rightarrow> nft_rule list \<Rightarrow> packet \<Rightarrow> bool" where
  "accepts m chain [] p = False"
| "accepts m chain (r # rs) p =
     (if rule_table r = nftTable \<and> rule_chain r = chain \<and> rule_matches m (drop 5 r) p
      then rule_verdict (drop 5 r) = ''accept'' else accepts m chain rs p)"

text \<open>What nft's manual says of the expressions used here.\<close>

definition nft_documented :: "matcher \<Rightarrow> bool" where
  "nft_documented m = ((\<forall>i p. m [''iifname'', i] p = (pk_iif p = i)) \<and> (\<forall>i p. m [''oifname'', i] p = (pk_oif p = i))
     \<and> (\<forall>p. m [''iif'', ''lo''] p = (pk_iif p = ''lo''))
     \<and> (\<forall>p. m [''ct'', ''state'', ''established,related''] p = (pk_ct p = Established))
     \<and> (\<forall>p. m [''ct'', ''state'', ''invalid''] p = (pk_ct p = Invalid))
     \<and> (\<forall>d p. m [''tcp'', ''dport'', d] p = (pk_dport p = Some d))
     \<and> (\<forall>w p. m [''ip'', ''daddr'', addr_String (Some w)] p = (pk_daddr p = w))
     \<and> (\<forall>w k p. k \<le> 32 \<longrightarrow> m [''ip'', ''daddr'', prefix_String \<lparr>px_addr = w, px_bits = k\<rparr>] p
          = Contains \<lparr>px_addr = w, px_bits = k\<rparr> (Some (pk_daddr p))))"

end
