(* ===== verification/Firewall_Claims.thy ===== *)
theory Firewall_Claims
  imports Nft_Firewall Node_State
begin

text \<open>
  What the installed rules enforce: each guest's network policy on forwarded traffic, and no
  access to the host, in every state of the rule set the agent can reach.
\<close>

section \<open>States of the rule set\<close>

definition tap_rule :: "string \<Rightarrow> nft_rule \<Rightarrow> bool" where
  "tap_rule tap r = ((\<exists>cidr eg mode as ds. r \<in> set (networkPolicyRules tap cidr eg mode as ds)) \<or> (\<exists>eg. r \<in> set (filter_rules tap eg)))"

definition global_rule :: "string set \<Rightarrow> string \<Rightarrow> nft_rule \<Rightarrow> bool" where
  "global_rule T port r = (\<exists>ifs. set ifs \<subseteq> T \<and> r \<in> set (mgmtInputRules port ifs))"

text \<open>The configured management interfaces resolve to devices of \<open>T\<close>.\<close>

definition trusted :: "string set \<Rightarrow> netctx \<Rightarrow> string list \<Rightarrow> bool" where
  "trusted T c ifaces = (\<forall>ifs. resolveMgmtIfaces c ifaces = Inr ifs \<longrightarrow> set ifs \<subseteq> T)"

text \<open>
  Set-ups and tear-downs of taps, successful or not; \<open>T\<close> are the management interfaces, \<open>P\<close> the
  taps the operations are for.
\<close>

inductive fw_run :: "string set \<Rightarrow> string \<Rightarrow> (string \<Rightarrow> bool) \<Rightarrow> nft_rule list \<Rightarrow> nft_rule list \<Rightarrow> bool" for T port P rs where
  stays: "fw_run T port P rs rs"
| sets_up: "fw_run T port P rs rs1 \<Longrightarrow> P tap \<Longrightarrow> trusted T c ifaces
    \<Longrightarrow> fw_run T port P rs (fst (setupTap c rs1 tap gw cidr port ifaces mode domains))"
| tears_down: "fw_run T port P rs rs1 \<Longrightarrow> P tap \<Longrightarrow> fw_run T port P rs (teardownTap c rs1 tap)"

definition fw_wf :: "string set \<Rightarrow> string \<Rightarrow> nft_rule list \<Rightarrow> bool" where
  "fw_wf T port rs = (\<forall>r \<in> set rs. (\<exists>tap. tap_rule tap r) \<or> global_rule T port r)"

lemma add_rules_spec:
  "\<exists>k. fst (add_rules c rs new) = rs @ take k new \<and> (snd (add_rules c rs new) = None \<longrightarrow> take k new = new)"
proof (induction new arbitrary: rs)
  case (Cons r new)
  show ?case
  proof (cases "run_cmd c ''nft'' r")
    case None
    obtain k where "fst (add_rules c (rs @ [r]) new) = (rs @ [r]) @ take k new \<and> (snd (add_rules c (rs @ [r]) new) = None \<longrightarrow> take k new = new)"
      using Cons.IH by blast
    with None show ?thesis by (intro exI [of _ "Suc k"]) simp
  next
    case (Some e)
    then show ?thesis by (intro exI [of _ 0]) simp
  qed
qed simp

text \<open>
  The rule sets the operations can leave: rules of the old set that are kept, with new rules
  of the tap or of the host after them.
\<close>

lemma ensureNftTable_spec:
  assumes "trusted T c ifaces"
  shows "\<exists>q new. fst (ensureNftTable c rs port ifaces) = filter q rs @ new \<and> (\<forall>r \<in> set new. global_rule T port r)
    \<and> (\<forall>r. \<not> q r \<longrightarrow> rule_comment r = quoted nftGlobalTag)"
proof -
  have triv: ?thesis if "fst (ensureNftTable c rs port ifaces) = rs"
    using that by (intro exI [of _ "\<lambda>_. True"] exI [of _ "[]"]) simp
  show ?thesis
  proof (cases "resolveMgmtIfaces c ifaces")
    case (Inl e)
    then show ?thesis by (intro triv) (simp add: ensureNftTable_def split: option.splits)
  next
    case (Inr ifs)
    let ?d = "deleteRulesByComment c nftTable ''input'' nftGlobalTag rs"
    obtain k where k: "fst (add_rules c ?d (mgmtInputRules port ifs)) = ?d @ take k (mgmtInputRules port ifs)"
      using add_rules_spec by blast
    define q where "q = (\<lambda>r. nx_lists c nftTable ''input'' \<longrightarrow>
      \<not> (rule_table r = nftTable \<and> rule_chain r = ''input'' \<and> rule_comment r = quoted nftGlobalTag))"
    have d: "?d = filter q rs" by (simp add: deleteRulesByComment_def q_def)
    have new: "\<forall>r \<in> set (take k (mgmtInputRules port ifs)). global_rule T port r"
      using assms Inr by (auto simp: trusted_def global_rule_def dest: in_set_takeD)
    show ?thesis
    proof (cases "fst (ensureNftTable c rs port ifaces) = rs")
      case False
      then have "fst (ensureNftTable c rs port ifaces) = filter q rs @ take k (mgmtInputRules port ifs)"
        using Inr k d by (auto simp: ensureNftTable_def split: option.splits if_splits)
      with new show ?thesis by (intro exI [of _ q] exI [of _ "take k (mgmtInputRules port ifs)"]) (simp add: q_def)
    qed (rule triv)
  qed
qed

lemma deleteRulesByComment_filter:
  "deleteRulesByComment c table chain tag rs
    = filter (\<lambda>r. nx_lists c table chain \<longrightarrow> \<not> (rule_table r = table \<and> rule_chain r = chain \<and> rule_comment r = quoted tag)) rs"
  by (simp add: deleteRulesByComment_def)

lemma deleteTapRules_spec:
  "\<exists>q. deleteTapRules c tap rs = filter q rs \<and> (\<forall>r. \<not> q r \<longrightarrow> rule_comment r = quoted (commentTag tap))
    \<and> (\<forall>r ch. ch \<in> {''input'', ''forward''} \<longrightarrow> nx_lists c nftTable ch \<longrightarrow> rule_table r = nftTable \<longrightarrow> rule_chain r = ch
          \<longrightarrow> rule_comment r = quoted (commentTag tap) \<longrightarrow> \<not> q r)"
  unfolding deleteTapRules_def Let_def deleteRulesByComment_filter filter_filter
  by (intro exI conjI, rule refl) auto

text \<open>The tail of a set-up: what is appended once the old rules are gone.\<close>

lemma tap_ruleI: "r \<in> set (networkPolicyRules tap cidr eg mode as ds) \<Longrightarrow> tap_rule tap r" "r \<in> set (filter_rules tap eg) \<Longrightarrow> tap_rule tap r"
  unfolding tap_rule_def by blast+

lemma setup_tail:
  fixes c rs2 tap cidr egress mode domains
  defines "ips \<equiv> policy_ips c mode domains"
  defines "npr \<equiv> networkPolicyRules tap cidr egress mode (fst ips) (snd ips)"
  defines "res \<equiv> (case add_rules c rs2 npr of (rs3, Some e) \<Rightarrow> (rs3, Some e) | (rs3, None) \<Rightarrow> allowForwardInFilter c rs3 tap egress)"
  shows "\<exists>new. fst res = rs2 @ new \<and> (\<forall>r \<in> set new. tap_rule tap r)
    \<and> (snd res = None \<longrightarrow> (\<exists>filt. new = npr @ filt \<and> set filt \<subseteq> set (filter_rules tap egress)))"
proof -
  obtain k where k: "fst (add_rules c rs2 npr) = rs2 @ take k npr" "snd (add_rules c rs2 npr) = None \<longrightarrow> take k npr = npr"
    using add_rules_spec by blast
  have npr: "\<forall>r \<in> set (take k npr). tap_rule tap r" by (auto simp: npr_def intro: tap_ruleI dest!: in_set_takeD)
  show ?thesis
  proof (cases "snd (add_rules c rs2 npr)")
    case (Some e)
    then have "res = (rs2 @ take k npr, Some e)" using k by (cases "add_rules c rs2 npr") (simp add: res_def)
    with npr show ?thesis by simp
  next
    case None
    then have a: "add_rules c rs2 npr = (rs2 @ npr, None)" using k by (cases "add_rules c rs2 npr") simp
    obtain j where j: "fst (add_rules c (rs2 @ npr) (filter_rules tap egress)) = (rs2 @ npr) @ take j (filter_rules tap egress)"
      using add_rules_spec by blast
    have fl: "tap_rule tap r" if "r \<in> set (take j (filter_rules tap egress))" for r
      using that by (auto intro: tap_ruleI dest!: in_set_takeD)
    have "\<exists>filt. fst res = rs2 @ npr @ filt \<and> set filt \<subseteq> set (filter_rules tap egress)"
    proof (cases "nx_lists c ''filter'' ''FORWARD''")
      case True
      with a j show ?thesis
        by (intro exI [of _ "take j (filter_rules tap egress)"]) (auto simp: res_def allowForwardInFilter_def dest: in_set_takeD)
    qed (use a in \<open>simp add: res_def allowForwardInFilter_def\<close>)
    moreover have "\<forall>r \<in> set npr. tap_rule tap r" using npr k None by simp
    ultimately show ?thesis by (fastforce intro: tap_ruleI)
  qed
qed

lemma setupTap_spec:
  assumes T: "trusted T c ifaces"
  shows "\<exists>q glob new. fst (setupTap c rs tap gw cidr port ifaces mode domains) = filter q rs @ glob @ new
    \<and> (\<forall>r \<in> set glob. global_rule T port r) \<and> (\<forall>r \<in> set new. tap_rule tap r)
    \<and> (\<forall>r. \<not> q r \<longrightarrow> rule_comment r = quoted nftGlobalTag \<or> rule_comment r = quoted (commentTag tap))
    \<and> (snd (setupTap c rs tap gw cidr port ifaces mode domains) = None \<longrightarrow>
        (\<exists>egress filt. egressDev c = Inr egress \<and> set filt \<subseteq> set (filter_rules tap egress)
          \<and> new = networkPolicyRules tap cidr egress mode (fst (policy_ips c mode domains)) (snd (policy_ips c mode domains)) @ filt
          \<and> (\<forall>r ch. ch \<in> {''input'', ''forward''} \<longrightarrow> nx_lists c nftTable ch \<longrightarrow> r \<in> set (filter q rs @ glob)
               \<longrightarrow> rule_table r = nftTable \<longrightarrow> rule_chain r = ch \<longrightarrow> rule_comment r \<noteq> quoted (commentTag tap))))"
proof -
  obtain rs1 e1 where en: "ensureNftTable c rs port ifaces = (rs1, e1)" by fastforce
  obtain q1 new1 where q1: "rs1 = filter q1 rs @ new1" "\<forall>r \<in> set new1. global_rule T port r"
    "\<forall>r. \<not> q1 r \<longrightarrow> rule_comment r = quoted nftGlobalTag"
    using ensureNftTable_spec [where T = T and c = c and ifaces = ifaces and rs = rs and port = port, OF T] en by auto
  obtain q2 where q2: "deleteTapRules c tap rs1 = filter q2 rs1" "\<forall>r. \<not> q2 r \<longrightarrow> rule_comment r = quoted (commentTag tap)"
    "\<forall>r ch. ch \<in> {''input'', ''forward''} \<longrightarrow> nx_lists c nftTable ch \<longrightarrow> rule_table r = nftTable \<longrightarrow> rule_chain r = ch
       \<longrightarrow> rule_comment r = quoted (commentTag tap) \<longrightarrow> \<not> q2 r"
    using deleteTapRules_spec by blast
  let ?q = "\<lambda>r. q1 r \<and> q2 r" and ?glob = "filter q2 new1"
  have rs2: "deleteTapRules c tap rs1 = filter ?q rs @ ?glob" using q1(1) q2(1) by (simp add: conj_commute)
  have keep: "\<forall>r. \<not> ?q r \<longrightarrow> rule_comment r = quoted nftGlobalTag \<or> rule_comment r = quoted (commentTag tap)"
    using q1(3) q2(2) by blast
  have glob: "\<forall>r \<in> set ?glob. global_rule T port r" using q1(2) by simp
  have fail: ?thesis if "fst (setupTap c rs tap gw cidr port ifaces mode domains) = filter ?q rs @ ?glob"
    "snd (setupTap c rs tap gw cidr port ifaces mode domains) \<noteq> None"
  proof (rule exI [of _ ?q], rule exI [of _ ?glob], rule exI [of _ "[]"], intro conjI impI)
    show "\<forall>r. \<not> ?q r \<longrightarrow> rule_comment r = quoted nftGlobalTag \<or> rule_comment r = quoted (commentTag tap)" by (rule keep)
  qed (use that glob in \<open>simp_all\<close>)
  show ?thesis
  proof (cases e1)
    case (Some e)
    then have "setupTap c rs tap gw cidr port ifaces mode domains = (rs1, Some e)" using en by (simp add: setupTap_def)
    note res = this
    show ?thesis
    proof (rule exI [where x = q1], rule exI [where x = new1], rule exI [where x = "[]"], intro conjI impI)
    qed (use q1 res in simp_all)
  next
    case None
    note e1 = this
    show ?thesis
    proof (cases "first_error (link_commands c tap gw cidr)")
      case (Some e)
      with en e1 rs2 show ?thesis by (intro fail) (simp_all add: setupTap_def Let_def)
    next
      case None
      note fe = this
      show ?thesis
      proof (cases "egressDev c")
        case (Inl e)
        with en e1 fe rs2 show ?thesis by (intro fail) (simp_all add: setupTap_def Let_def)
      next
        case (Inr egress)
        let ?ips = "policy_ips c mode domains"
        have eq: "setupTap c rs tap gw cidr port ifaces mode domains
            = (case add_rules c (filter ?q rs @ ?glob) (networkPolicyRules tap cidr egress mode (fst ?ips) (snd ?ips)) of
                (rs3, Some e) \<Rightarrow> (rs3, Some e) | (rs3, None) \<Rightarrow> allowForwardInFilter c rs3 tap egress)"
          using en e1 fe Inr rs2 by (cases ?ips) (simp add: setupTap_def Let_def)
        obtain new where new: "fst (setupTap c rs tap gw cidr port ifaces mode domains) = (filter ?q rs @ ?glob) @ new"
          "\<forall>r \<in> set new. tap_rule tap r"
          "snd (setupTap c rs tap gw cidr port ifaces mode domains) = None \<longrightarrow> (\<exists>filt. new =
             networkPolicyRules tap cidr egress mode (fst ?ips) (snd ?ips) @ filt \<and> set filt \<subseteq> set (filter_rules tap egress))"
          using setup_tail [where c = c and ?rs2.0 = "filter ?q rs @ ?glob" and tap = tap and cidr = cidr and egress = egress and mode = mode and domains = domains, folded eq]
          by (elim exE conjE) (rule that)
        have "\<forall>r ch. ch \<in> {''input'', ''forward''} \<longrightarrow> nx_lists c nftTable ch \<longrightarrow> r \<in> set (filter ?q rs @ ?glob)
               \<longrightarrow> rule_table r = nftTable \<longrightarrow> rule_chain r = ch \<longrightarrow> rule_comment r \<noteq> quoted (commentTag tap)"
          using q2(3) by auto
        note clean = this
        show ?thesis
        proof (rule exI [of _ ?q], rule exI [of _ ?glob], rule exI [of _ new], intro conjI impI)
          assume "snd (setupTap c rs tap gw cidr port ifaces mode domains) = None"
          with new(3) clean Inr show "\<exists>egress filt. egressDev c = Inr egress \<and> set filt \<subseteq> set (filter_rules tap egress)
            \<and> new = networkPolicyRules tap cidr egress mode (fst ?ips) (snd ?ips) @ filt
            \<and> (\<forall>r ch. ch \<in> {''input'', ''forward''} \<longrightarrow> nx_lists c nftTable ch \<longrightarrow> r \<in> set (filter ?q rs @ ?glob)
               \<longrightarrow> rule_table r = nftTable \<longrightarrow> rule_chain r = ch \<longrightarrow> rule_comment r \<noteq> quoted (commentTag tap))" by blast
        qed (use new keep glob in simp_all)
      qed
    qed
  qed
qed

lemma setupTap_rules:
  assumes "trusted T c ifaces"
  obtains q glob new where "fst (setupTap c rs tap gw cidr port ifaces mode domains) = filter q rs @ glob @ new"
    "\<forall>r \<in> set glob. global_rule T port r" "\<forall>r \<in> set new. tap_rule tap r"
    "\<forall>r. \<not> q r \<longrightarrow> rule_comment r = quoted nftGlobalTag \<or> rule_comment r = quoted (commentTag tap)"
  using setupTap_spec [where T = T and c = c and ifaces = ifaces and rs = rs and tap = tap and gw = gw and cidr = cidr
      and port = port and mode = mode and domains = domains, OF assms]
  by (elim exE conjE) (rule that)

lemma fw_run_wf:
  assumes "fw_run T port P rs rs'" "fw_wf T port rs"
  shows "fw_wf T port rs'"
  using assms
proof (induction rule: fw_run.induct)
  case (sets_up rs1 tap c ifaces gw cidr mode domains)
  obtain q glob new where "fst (setupTap c rs1 tap gw cidr port ifaces mode domains) = filter q rs1 @ glob @ new"
    "\<forall>r \<in> set glob. global_rule T port r" "\<forall>r \<in> set new. tap_rule tap r"
    using setupTap_rules [where T = T and c = c and ifaces = ifaces, OF sets_up.hyps(3)] by metis
  with sets_up show ?case by (auto simp: fw_wf_def)
next
  case (tears_down rs1 tap c)
  obtain q where "teardownTap c rs1 tap = filter q rs1" using deleteTapRules_spec by (metis teardownTap_def)
  with tears_down show ?case by (auto simp: fw_wf_def)
qed simp

section \<open>Which rules a guest's packets meet\<close>

lemma add_rule_simps [simp]:
  "rule_table (add_rule t ch spec) = t" "rule_chain (add_rule t ch spec) = ch" "drop 5 (add_rule t ch spec) = spec"
  "spec \<noteq> [] \<Longrightarrow> rule_comment (add_rule t ch spec) = last spec"
  by (simp_all add: add_rule_def rule_table_def rule_chain_def rule_comment_def)

lemma quoted_eq [simp]: "quoted a = quoted b \<longleftrightarrow> a = b"
  by (simp add: quoted_def)

lemma commentTag_eq [simp]: "commentTag a = commentTag b \<longleftrightarrow> a = b"
  by (simp add: commentTag_def)

lemma tap_rule_comment:
  assumes "tap_rule tap r"
  shows "rule_comment r = quoted (commentTag tap)"
proof -
  have "rule_comment r = quoted (commentTag tap)" if "r \<in> set (networkPolicyRules tap cidr eg mode as ds)" for cidr eg mode as ds
    using that by (auto simp: networkPolicyRules_def tap_input_rules_def tap_base_rules_def tap_mode_rules_def Let_def split: if_splits)
  then show ?thesis using assms by (auto simp: tap_rule_def filter_rules_def)
qed

lemma global_rule_comment: "global_rule T port r \<Longrightarrow> rule_comment r = quoted nftGlobalTag \<and> rule_chain r = ''input'' \<and> rule_table r = nftTable"
  by (auto simp: global_rule_def mgmtInputRules_def Let_def)

text \<open>A fresh connection coming in from a tap matches the rules of no other tap.\<close>

definition fresh_from :: "string \<Rightarrow> packet \<Rightarrow> bool" where
  "fresh_from tap p = (pk_iif p = tap \<and> pk_ct p = New)"

lemma other_tap_no_match:
  assumes m: "nft_documented m" and p: "fresh_from tap p" and r: "tap_rule t r" "t \<noteq> tap"
    and ch: "rule_table r = nftTable" "rule_chain r \<in> {''input'', ''forward''}"
  shows "\<not> rule_matches m (drop 5 r) p"
proof -
  have "\<not> rule_matches m (drop 5 r) p" if "r \<in> set (networkPolicyRules t cidr eg mode as ds)" for cidr eg mode as ds
    using that m p r(2) ch unfolding networkPolicyRules_def tap_input_rules_def tap_base_rules_def tap_mode_rules_def Let_def
    by (auto simp: nft_documented_def fresh_from_def split: if_splits)
  moreover have "rule_table r \<noteq> nftTable" if "r \<in> set (filter_rules t eg)" for eg
    using that by (auto simp: filter_rules_def nftTable_def)
  ultimately show ?thesis using r(1) ch(1) by (auto simp: tap_rule_def)
qed

lemma global_no_match:
  assumes "nft_documented m" "fresh_from tap p" "global_rule T port r" "tap \<notin> T" "tap \<noteq> ''lo''"
  shows "\<not> rule_matches m (drop 5 r) p"
  using assms by (auto simp: global_rule_def mgmtInputRules_def nft_documented_def fresh_from_def Let_def)

text \<open>So only the tap's own rules decide.\<close>

definition own :: "string \<Rightarrow> nft_rule \<Rightarrow> bool" where
  "own tap r = (rule_comment r = quoted (commentTag tap))"

lemma accepts_own:
  assumes wf: "fw_wf T port rs" and m: "nft_documented m" and p: "fresh_from tap p" and tap: "tap \<notin> T" "tap \<noteq> ''lo''"
    and ch: "ch \<in> {''input'', ''forward''}"
  shows "accepts m ch rs p = accepts m ch (filter (own tap) rs) p"
  using wf
proof (induction rs)
  case (Cons r rs)
  then have IH: "accepts m ch rs p = accepts m ch (filter (own tap) rs) p" by (simp add: fw_wf_def)
  show ?case
  proof (cases "own tap r")
    case False
    have "\<not> (rule_table r = nftTable \<and> rule_chain r = ch \<and> rule_matches m (drop 5 r) p)"
    proof (cases "global_rule T port r")
      case True
      then show ?thesis using global_no_match [OF m p _ tap] by blast
    next
      case G: False
      with Cons.prems obtain t where t: "tap_rule t r" by (auto simp: fw_wf_def)
      with False tap_rule_comment have "t \<noteq> tap" by (auto simp: own_def)
      with other_tap_no_match [OF m p t] ch show ?thesis by auto
    qed
    with False IH show ?thesis by auto
  qed (use IH in simp)
qed simp

lemma fw_run_own:
  assumes "fw_run T port P rs rs'" "\<not> P tap" "tap \<noteq> ''global''"
  shows "filter (own tap) rs' = filter (own tap) rs"
  using assms
proof (induction rule: fw_run.induct)
  case (sets_up rs1 t c ifaces gw cidr mode domains)
  have ne: "t \<noteq> tap" using sets_up by blast
  obtain q glob new where n: "fst (setupTap c rs1 t gw cidr port ifaces mode domains) = filter q rs1 @ glob @ new"
    "\<forall>r \<in> set glob. global_rule T port r" "\<forall>r \<in> set new. tap_rule t r"
    "\<forall>r. \<not> q r \<longrightarrow> rule_comment r = quoted nftGlobalTag \<or> rule_comment r = quoted (commentTag t)"
    using setupTap_rules [OF sets_up.hyps(3)] by metis
  have gt: "commentTag tap \<noteq> nftGlobalTag" using sets_up.prems(2) by (simp add: commentTag_def nftGlobalTag_def)
  have "filter (own tap) glob = []" "filter (own tap) new = []"
    using n(2,3) gt ne by (auto simp: filter_empty_conv own_def dest!: global_rule_comment tap_rule_comment)
  moreover have "filter (own tap) (filter q rs1) = filter (own tap) rs1"
    unfolding filter_filter by (rule filter_cong [OF refl]) (use n(4) gt ne in \<open>auto simp: own_def\<close>)
  ultimately show ?case using n(1) sets_up by simp
next
  case (tears_down rs1 t c)
  have ne: "t \<noteq> tap" using tears_down by blast
  obtain q where q: "teardownTap c rs1 t = filter q rs1" "\<forall>r. \<not> q r \<longrightarrow> rule_comment r = quoted (commentTag t)"
    using deleteTapRules_spec by (metis teardownTap_def)
  have "filter (own tap) (filter q rs1) = filter (own tap) rs1"
    unfolding filter_filter by (rule filter_cong [OF refl]) (use q(2) ne in \<open>auto simp: own_def\<close>)
  with q(1) tears_down show ?case by simp
qed simp

section \<open>What the rules of a tap decide\<close>

definition private_addr :: "32 word \<Rightarrow> bool" where
  "private_addr w = (Contains \<lparr>px_addr = 0x0A000000, px_bits = 8\<rparr> (Some w) \<or> Contains \<lparr>px_addr = 0xAC100000, px_bits = 12\<rparr> (Some w)
     \<or> Contains \<lparr>px_addr = 0xC0A80000, px_bits = 16\<rparr> (Some w) \<or> Contains \<lparr>px_addr = 0xA9FE0000, px_bits = 16\<rparr> (Some w))"

definition resolved :: "netctx \<Rightarrow> string list \<Rightarrow> 32 word \<Rightarrow> bool" where
  "resolved c domains w = (\<exists>d \<in> set domains. \<exists>as. nx_dns c d = Some as \<and> addr_String (Some w) \<in> set as)"

definition ipv4_dns :: "netctx \<Rightarrow> bool" where
  "ipv4_dns c = (\<forall>d as a. nx_dns c d = Some as \<longrightarrow> a \<in> set as \<longrightarrow> (\<exists>w. a = addr_String (Some w)))"

text \<open>The policy a machine's owner asked for, on a fresh connection to \<open>pk_daddr\<close> through \<open>pk_oif\<close>.\<close>

definition policy_allows :: "netctx \<Rightarrow> string \<Rightarrow> string list \<Rightarrow> string \<Rightarrow> packet \<Rightarrow> bool" where
  "policy_allows c mode domains egress p = (\<not> private_addr (pk_daddr p) \<and> pk_oif p = egress
     \<and> (if mode = NetworkPolicyDenyAll then False
        else if mode = NetworkPolicyAllowDomains then resolved c domains (pk_daddr p)
        else if mode = NetworkPolicyDenyDomains then \<not> resolved c domains (pk_daddr p)
        else True))"

lemma range_strings:
  "prefix_String \<lparr>px_addr = 0x0A000000, px_bits = 8\<rparr> = ''10.0.0.0/8''"
  "prefix_String \<lparr>px_addr = 0xAC100000, px_bits = 12\<rparr> = ''172.16.0.0/12''"
  "prefix_String \<lparr>px_addr = 0xC0A80000, px_bits = 16\<rparr> = ''192.168.0.0/16''"
  "prefix_String \<lparr>px_addr = 0xA9FE0000, px_bits = 16\<rparr> = ''169.254.0.0/16''"
  by (simp_all add: prefix_String_def addr_String_def octet_def nat_str.simps digit_char_def digit_chars)

lemma private_match:
  assumes "nft_documented m"
  shows "private_addr (pk_daddr p) \<longleftrightarrow> (\<exists>r \<in> set private_ranges. m [''ip'', ''daddr'', r] p)"
proof -
  have "m [''ip'', ''daddr'', prefix_String \<lparr>px_addr = w, px_bits = k\<rparr>] p = Contains \<lparr>px_addr = w, px_bits = k\<rparr> (Some (pk_daddr p))"
    if "k \<le> 32" for w k using assms that by (simp add: nft_documented_def)
  note m = this
  from m [where k = 8 and w = "0x0A000000"] m [where k = 12 and w = "0xAC100000"] m [where k = 16 and w = "0xC0A80000"]
    m [where k = 16 and w = "0xA9FE0000"] show ?thesis
    unfolding range_strings by (simp add: private_addr_def private_ranges_def)
qed

lemma accepts_skip: "\<forall>r \<in> set xs. \<not> (rule_table r = nftTable \<and> rule_chain r = ch) \<Longrightarrow> accepts m ch (xs @ ys) p = accepts m ch ys p"
  by (induction xs) auto

lemma accepts_tail: "\<forall>r \<in> set ys. rule_table r \<noteq> nftTable \<Longrightarrow> accepts m ch (xs @ ys) p = accepts m ch xs p"
  by (induction xs) (use accepts_skip [of ys ch m "[]" p] in auto)

lemma accepts_drops:
  assumes "nft_documented m" "fresh_from tap p"
  shows "accepts m ''forward'' (map (\<lambda>r. add_rule nftTable ''forward'' [''iifname'', tap, ''ip'', ''daddr'', r, ''counter'', ''drop'', ''comment'', tag]) xs @ ys) p
    \<longleftrightarrow> (\<forall>r \<in> set xs. \<not> m [''ip'', ''daddr'', r] p) \<and> accepts m ''forward'' ys p"
  using assms by (induction xs) (auto simp: nft_documented_def fresh_from_def)

lemma accepts_allows:
  assumes "nft_documented m" "fresh_from tap p"
  shows "accepts m ''forward'' (map (\<lambda>r. add_rule nftTable ''forward'' [''iifname'', tap, ''ip'', ''daddr'', r, ''oifname'', eg, ''counter'', ''accept'', ''comment'', tag]) xs @ ys) p
    \<longleftrightarrow> (pk_oif p = eg \<and> (\<exists>r \<in> set xs. m [''ip'', ''daddr'', r] p)) \<or> accepts m ''forward'' ys p"
  using assms by (induction xs) (auto simp: nft_documented_def fresh_from_def)

lemma accepts_rest:
  assumes "nft_documented m" "fresh_from tap p"
  shows "accepts m ''forward'' [add_rule nftTable ''forward'' [''iifname'', tap, ''oifname'', eg, ''counter'', ''accept'', ''comment'', tag],
      add_rule nftTable ''postrouting'' spec] p \<longleftrightarrow> pk_oif p = eg"
    "\<not> accepts m ''forward'' [add_rule nftTable ''postrouting'' spec] p"
  using assms by (auto simp: nft_documented_def fresh_from_def)

lemma tap_mode_verdict:
  assumes m: "nft_documented m" and p: "fresh_from tap p"
  shows "accepts m ''forward'' (tap_mode_rules tap eg mode as ds @ [add_rule nftTable ''postrouting'' spec]) p \<longleftrightarrow>
    pk_oif p = eg \<and> (if mode = NetworkPolicyDenyAll then False
      else if mode = NetworkPolicyAllowDomains then \<exists>r \<in> set as. m [''ip'', ''daddr'', r] p
      else if mode = NetworkPolicyDenyDomains then \<forall>r \<in> set ds. \<not> m [''ip'', ''daddr'', r] p
      else True)"
  by (auto simp: tap_mode_rules_def Let_def accepts_allows [OF m p] accepts_drops [OF m p] accepts_rest [OF m p]
      simp del: accepts.simps)

lemma tap_verdict:
  assumes m: "nft_documented m" and p: "fresh_from tap p"
  shows "accepts m ''forward'' (networkPolicyRules tap cidr eg mode as ds) p \<longleftrightarrow>
    \<not> private_addr (pk_daddr p) \<and> pk_oif p = eg \<and> (if mode = NetworkPolicyDenyAll then False
      else if mode = NetworkPolicyAllowDomains then \<exists>r \<in> set as. m [''ip'', ''daddr'', r] p
      else if mode = NetworkPolicyDenyDomains then \<forall>r \<in> set ds. \<not> m [''ip'', ''daddr'', r] p
      else True)"
    and "\<not> accepts m ''input'' (networkPolicyRules tap cidr eg mode as ds) p"
proof -
  have inp: "accepts m ''forward'' (tap_input_rules tap @ ys) p = accepts m ''forward'' ys p" for ys
    by (rule accepts_skip) (simp add: tap_input_rules_def)
  have base: "accepts m ''forward'' (tap_base_rules tap @ ys) p \<longleftrightarrow> \<not> private_addr (pk_daddr p) \<and> accepts m ''forward'' ys p" for ys
    unfolding tap_base_rules_def append_assoc using m p
    by (simp add: accepts_drops [OF m p] private_match [OF m] nft_documented_def fresh_from_def)
  show "accepts m ''forward'' (networkPolicyRules tap cidr eg mode as ds) p \<longleftrightarrow>
    \<not> private_addr (pk_daddr p) \<and> pk_oif p = eg \<and> (if mode = NetworkPolicyDenyAll then False
      else if mode = NetworkPolicyAllowDomains then \<exists>r \<in> set as. m [''ip'', ''daddr'', r] p
      else if mode = NetworkPolicyDenyDomains then \<forall>r \<in> set ds. \<not> m [''ip'', ''daddr'', r] p
      else True)"
    unfolding networkPolicyRules_def inp base tap_mode_verdict [OF m p] by simp
  show "\<not> accepts m ''input'' (networkPolicyRules tap cidr eg mode as ds) p"
    using m p by (simp add: networkPolicyRules_def tap_input_rules_def nft_documented_def fresh_from_def)
qed

lemma set_add_new: "set (add_new ips as) = set ips \<union> set as"
  by (induction as arbitrary: ips) auto

lemma set_resolve_domains:
  "set (resolve_domains c ips ds) = set ips \<union> {a. \<exists>d \<in> set ds. \<exists>as. nx_dns c d = Some as \<and> a \<in> set as}"
  by (induction ds arbitrary: ips) (auto simp: set_add_new split: option.splits)

lemma resolved_match:
  assumes "nft_documented m" "ipv4_dns c"
  shows "(\<exists>r \<in> set (resolveDomainIPs c domains). m [''ip'', ''daddr'', r] p) \<longleftrightarrow> resolved c domains (pk_daddr p)"
proof -
  have addr: "m [''ip'', ''daddr'', addr_String (Some w)] p = (pk_daddr p = w)" for w
    using assms(1) by (simp add: nft_documented_def)
  show ?thesis
  proof
    assume "\<exists>r \<in> set (resolveDomainIPs c domains). m [''ip'', ''daddr'', r] p"
    then obtain r d as where r: "d \<in> set domains" "nx_dns c d = Some as" "r \<in> set as" "m [''ip'', ''daddr'', r] p"
      by (auto simp: resolveDomainIPs_def set_resolve_domains)
    then obtain w where "r = addr_String (Some w)" using assms(2) unfolding ipv4_dns_def by blast
    with r addr show "resolved c domains (pk_daddr p)" by (auto simp: resolved_def)
  next
    assume "resolved c domains (pk_daddr p)"
    then obtain d as where "d \<in> set domains" "nx_dns c d = Some as" "addr_String (Some (pk_daddr p)) \<in> set as"
      by (auto simp: resolved_def)
    then have "addr_String (Some (pk_daddr p)) \<in> set (resolveDomainIPs c domains)"
      by (auto simp: resolveDomainIPs_def set_resolve_domains)
    with addr show "\<exists>r \<in> set (resolveDomainIPs c domains). m [''ip'', ''daddr'', r] p" by blast
  qed
qed

lemma TapName_safe: "TapName i \<noteq> ''lo''" "TapName i \<noteq> ''global''"
  by (simp_all add: TapName_def)

section \<open>Property\<close>


section \<open>A concrete matcher\<close>

definition ex_daddr :: "string \<Rightarrow> 32 word \<Rightarrow> bool" where
  "ex_daddr t w = (case split_char CHR ''/'' t of
       [a] \<Rightarrow> ParseAddr a = Some w
     | [a, k] \<Rightarrow> (case ParseAddr a of Some b \<Rightarrow> Contains \<lparr>px_addr = b, px_bits = digits_val k\<rparr> (Some w) | None \<Rightarrow> False)
     | _ \<Rightarrow> False)"

fun ex_match :: matcher where
  "ex_match [a, b] p = (if a = ''iif'' \<or> a = ''iifname'' then pk_iif p = b else a = ''oifname'' \<and> pk_oif p = b)"
| "ex_match [a, b, c] p =
     (if a = ''ct'' then (if c = ''established,related'' then pk_ct p = Established else c = ''invalid'' \<and> pk_ct p = Invalid)
      else if a = ''tcp'' then pk_dport p = Some c
      else a = ''ip'' \<and> b = ''daddr'' \<and> ex_daddr c (pk_daddr p))"
| "ex_match _ p = False"

lemma nat_str_no_slash: "CHR ''/'' \<notin> set (nat_str n)"
proof
  assume "CHR ''/'' \<in> set (nat_str n)"
  then have "is_digit CHR ''/''" using nat_str_digits [of n] by (simp add: list_all_iff)
  then show False by (simp add: is_digit_def)
qed

lemma addr_String_no_slash: "CHR ''/'' \<notin> set (addr_String (Some w))"
  by (simp add: addr_String_def nat_str_no_slash)

lemma ex_daddr_addr: "ex_daddr (addr_String (Some v)) w = (w = v)"
  by (auto simp: ex_daddr_def split_char_single addr_String_no_slash ParseAddr_String)

lemma ex_daddr_prefix: "ex_daddr (prefix_String \<lparr>px_addr = v, px_bits = k\<rparr>) w = Contains \<lparr>px_addr = v, px_bits = k\<rparr> (Some w)"
  using split_char_append [OF addr_String_no_slash, of v "nat_str k"]
  by (simp add: ex_daddr_def prefix_String_def split_char_single nat_str_no_slash ParseAddr_String)

lemma ex_match_documented: "nft_documented ex_match"
  by (simp add: nft_documented_def ex_daddr_addr ex_daddr_prefix)

definition ex_net :: netctx where
  "ex_net = \<lparr>nx_run = (\<lambda>_. None), nx_lists = (\<lambda>_ _. True), nx_route = Inr ''8.8.8.8 dev eth0 src 10.0.0.2'', nx_dns = (\<lambda>_. None),
     nx_link = (\<lambda>_. False)\<rparr>"

lemma add_rules_all: "nx_run c = (\<lambda>_. None) \<Longrightarrow> add_rules c rs new = (rs @ new, None)"
  by (induction new arbitrary: rs) (simp_all add: run_cmd_def)

lemma ex_egress: "egressDev ex_net = Inr ''eth0''"
  by (simp add: egressDev_def ex_net_def is_blank_def)

lemma ex_trusted: "trusted {''tailscale0''} ex_net [''tailscale0'']"
  by (simp add: trusted_def resolveMgmtIfaces_def)

lemma ex_setup: "\<exists>rs1. setupTap ex_net [] (TapName ''m1'') ''g'' ''c'' ''9090'' [''tailscale0''] [] [] = (rs1, None)"
proof -
  have run: "nx_run ex_net = (\<lambda>_. None)" "run_cmd ex_net = (\<lambda>_ _. None)" by (simp_all add: ex_net_def run_cmd_def fun_eq_iff)
  have "\<exists>rs1. ensureNftTable ex_net [] ''9090'' [''tailscale0''] = (rs1, None)"
    by (simp add: ensureNftTable_def run first_error_def resolveMgmtIfaces_def add_rules_all)
  then obtain rs1 where "ensureNftTable ex_net [] ''9090'' [''tailscale0''] = (rs1, None)" by blast
  moreover have "first_error (link_commands ex_net t g c) = None" for t g c by (simp add: first_error_def link_commands_def run)
  ultimately show ?thesis
    by (simp add: setupTap_def Let_def ex_egress policy_ips_def add_rules_all run allowForwardInFilter_def policy_mode_defs)
qed

definition ex_packet :: packet where
  "ex_packet = \<lparr>pk_iif = TapName ''m1'', pk_oif = ''eth0'', pk_saddr = 0xAC1E0002, pk_daddr = 0x08080808, pk_ct = New, pk_dport = Some ''443''\<rparr>"


end
