(* ===== verification/Guest_Ports.thy ===== *)
theory Guest_Ports
  imports Dev_Driver Go_Strings
begin

text \<open>
  How a tunnel reaches a port of the guest: the \<open>?port=\<close> allowlist of the node-agent
  (\<open>nodeagent/internal/httpapi/guest.go\<close>), \<open>DialGuest\<close> of both drivers
  (\<open>driver/dev/dev.go\<close>, \<open>driver/firecracker/guest.go\<close>), and the guest's preview forwarder
  (\<open>guestagent/internal/previewfwd\<close>). Sockets are parameters (\<open>dialctx\<close>): whether a dial or a
  write fails, and what the hypervisor replies to a handshake; a connection is the socket it
  goes to, the bytes written so far, and the bytes buffered past a handshake.
\<close>

section \<open>The node-agent's allowlist\<close>

definition parseGuestPort :: "string \<Rightarrow> port \<Rightarrow> port \<Rightarrow> port option" where
  "parseGuestPort raw mn mx = (if raw = [] then Some GuestTerminalPort
     else case ParseUint32 raw of
       None \<Rightarrow> None
     | Some p \<Rightarrow> if ValidGuestPort p mn mx then Some p else None)"

definition headerHasToken :: "string list \<Rightarrow> string \<Rightarrow> bool" where
  "headerHasToken values token = list_ex (\<lambda>v. list_ex (\<lambda>part. EqualFold (TrimSpace part) token) (split_char CHR '','' v)) values"

section \<open>Dialing\<close>

record dialctx =
  dl_MachineDir :: "string \<Rightarrow> string"
  dl_dial :: "string \<Rightarrow> string option"
  dl_write :: "string \<Rightarrow> string option"
  dl_reply :: string
  dl_readerr :: string

record conn =
  cn_sock :: string
  cn_written :: string
  cn_buffered :: string

definition guestSockPath :: "dialctx \<Rightarrow> string \<Rightarrow> string" where
  "guestSockPath x i = dl_MachineDir x i @ ''/guest.sock''"

definition guestWebSockPath :: "dialctx \<Rightarrow> string \<Rightarrow> string" where
  "guestWebSockPath x i = dl_MachineDir x i @ ''/guest-web.sock''"

definition guestPreviewSockPath :: "dialctx \<Rightarrow> string \<Rightarrow> string" where
  "guestPreviewSockPath x i = dl_MachineDir x i @ ''/guest-preview.sock''"

definition guestSSHSockPath :: "dialctx \<Rightarrow> string \<Rightarrow> string" where
  "guestSSHSockPath x i = dl_MachineDir x i @ ''/guest-ssh.sock''"

text \<open>The socket and the preamble of a port.\<close>

definition dev_route :: "dialctx \<Rightarrow> string \<Rightarrow> port \<Rightarrow> string \<times> string" where
  "dev_route x i p =
     (if p = GuestWebPort then (guestWebSockPath x i, [])
      else if p = GuestSSHPort then (guestSSHSockPath x i, [])
      else if p \<noteq> 0 \<and> \<not> IsSystemGuestPort p then (guestPreviewSockPath x i, PreviewPreamble p)
      else (guestSockPath x i, []))"

definition dev_DialGuest :: "devctx \<Rightarrow> dialctx \<Rightarrow> dev_driver \<Rightarrow> string \<Rightarrow> port \<Rightarrow> conn res" where
  "dev_DialGuest c x d i p = (case Load (dx_fs c) (dd_store d) i of
       Inl e \<Rightarrow> Inl e
     | Inr None \<Rightarrow> Inl (Sentinel DriverErrUnknownMachine)
     | Inr (Some _) \<Rightarrow>
       (let (sock, preamble) = dev_route x i p in
        case dl_dial x sock of
          Some e \<Rightarrow> Inl (ErrorText e)
        | None \<Rightarrow>
          if preamble = [] then Inr \<lparr>cn_sock = sock, cn_written = [], cn_buffered = []\<rparr>
          else case dl_write x preamble of
            Some e \<Rightarrow> Inl (ErrorText e)
          | None \<Rightarrow> Inr \<lparr>cn_sock = sock, cn_written = preamble, cn_buffered = []\<rparr>))"

text \<open>
  The Firecracker driver: the vsock port and the preamble, then the \<open>CONNECT\<close> handshake on the
  machine's jailed socket. Its configuration names the terminal port.
\<close>

definition defaultGuestPort :: port where "defaultGuestPort = 1024"

definition vsock_route :: "int \<Rightarrow> port \<Rightarrow> port \<times> string" where
  "vsock_route guestVsockPort p =
     (let port = (if p = 0 then (if (word_of_int guestVsockPort :: port) = 0 then defaultGuestPort else word_of_int guestVsockPort) else p)
      in if IsSystemGuestPort port then (port, []) else (GuestPreviewPort, PreviewPreamble port))"

definition vsockUDS :: "string \<Rightarrow> string \<Rightarrow> string" where
  "vsockUDS chrootBaseDir i = chrootBaseDir @ ''/firecracker/'' @ i @ ''/root/v.sock''"

definition fc_DialGuest :: "fsctx \<Rightarrow> dialctx \<Rightarrow> node_store \<Rightarrow> string \<Rightarrow> int \<Rightarrow> string \<Rightarrow> port \<Rightarrow> conn res" where
  "fc_DialGuest fs x st chrootBaseDir guestVsockPort i p = (case Load fs st i of
       Inl e \<Rightarrow> Inl e
     | Inr None \<Rightarrow> Inl (Sentinel DriverErrUnknownMachine)
     | Inr (Some _) \<Rightarrow>
       (let (vsockPort, preamble) = vsock_route guestVsockPort p;
            sock = vsockUDS chrootBaseDir i;
            connect = ''CONNECT '' @ nat_str (unat vsockPort) @ [CHR 0x0A]
        in case dl_dial x sock of
          Some e \<Rightarrow> Inl (Errorf ''dial vsock uds: '' (ErrorText e) [])
        | None \<Rightarrow> (case dl_write x connect of
            Some e \<Rightarrow> Inl (Errorf ''vsock CONNECT: '' (ErrorText e) [])
          | None \<Rightarrow> (case read_line (dl_reply x) of
              None \<Rightarrow> Inl (Errorf ''vsock handshake read: '' (ErrorText (dl_readerr x)) [])
            | Some (line, rest) \<Rightarrow>
              if take 3 line \<noteq> ''OK '' then Inl (ErrorText (''vsock handshake: unexpected reply '' @ go_quote (TrimSpace line)))
              else if preamble = [] then Inr \<lparr>cn_sock = sock, cn_written = connect, cn_buffered = rest\<rparr>
              else case dl_write x preamble of
                Some e \<Rightarrow> Inl (Errorf ''vsock preview preamble: '' (ErrorText e) [])
              | None \<Rightarrow> Inr \<lparr>cn_sock = sock, cn_written = connect @ preamble, cn_buffered = rest\<rparr>))))"

section \<open>The preview forwarder\<close>

definition parsePort :: "string \<Rightarrow> port option" where
  "parsePort line = (case ParseUint32 (TrimSpace line) of
       None \<Rightarrow> None
     | Some n \<Rightarrow> if n = 0 \<or> n > 65535 then None else Some n)"

text \<open>
  \<open>handle\<close> on the bytes a client sends before it closes or the preamble's deadline passes: the
  connection is dropped, or the address dialed gets the bytes after the preamble.
\<close>

datatype forwarded = Dropped | Bridged string string

definition handle :: "(string \<Rightarrow> string option) \<Rightarrow> string \<Rightarrow> forwarded" where
  "handle dial sent = (case read_line sent of
       None \<Rightarrow> Dropped
     | Some (line, rest) \<Rightarrow> (case parsePort line of
         None \<Rightarrow> Dropped
       | Some p \<Rightarrow>
         (let a = ''127.0.0.1:'' @ nat_str (unat p)
          in case dial a of Some e \<Rightarrow> Dropped | None \<Rightarrow> Bridged a rest)))"

section \<open>Facts\<close>

lemma IsSystemGuestPort_simps [simp]:
  "IsSystemGuestPort GuestTerminalPort" "IsSystemGuestPort GuestWebPort" "IsSystemGuestPort GuestSSHPort"
  "\<not> IsSystemGuestPort 0" "\<not> IsSystemGuestPort GuestPreviewPort"
  by (simp_all add: IsSystemGuestPort_def guest_ports)

lemma parsePort_preamble:
  assumes "p \<noteq> 0" "p \<le> 65535"
  shows "parsePort (PreviewPreamble p) = Some p"
  using assms by (simp add: parsePort_def PreviewPreamble_def TrimSpace_digits_line nat_str_digits not_le [symmetric])

lemma read_preamble: "read_line (PreviewPreamble p @ data) = Some (PreviewPreamble p, data)"
  using read_line_append [OF newline_not_digit [OF nat_str_digits]] by (simp add: PreviewPreamble_def)

lemma handle_preamble:
  assumes "p \<noteq> 0" "p \<le> 65535"
  shows "handle (\<lambda>_. None) (PreviewPreamble p @ data) = Bridged (''127.0.0.1:'' @ nat_str (unat p)) data"
  using assms by (simp add: handle_def read_preamble parsePort_preamble)

text \<open>The forwarder never connects to anything but a port of the guest's loopback, 1 to 65535.\<close>

lemma handle_loopback:
  assumes "handle dial sent = Bridged a rest"
  shows "\<exists>n. a = ''127.0.0.1:'' @ nat_str n \<and> 1 \<le> n \<and> n \<le> 65535"
proof -
  obtain line p where p: "parsePort line = Some p" and a: "a = ''127.0.0.1:'' @ nat_str (unat p)"
    using assms by (auto simp: handle_def Let_def split: option.splits prod.splits)
  from p have "p \<noteq> 0" "p \<le> 65535" by (auto simp: parsePort_def split: option.splits if_splits)
  then have "1 \<le> unat p" "unat p \<le> 65535" by (auto simp: word_le_nat_alt unat_gt_0 Suc_le_eq)
  with a show ?thesis by blast
qed

lemma ParseUint32_nonempty: "ParseUint32 s = Some p \<Longrightarrow> s \<noteq> []"
  by (auto simp: ParseUint32_def)

lemma parseGuestPort_nat_str:
  assumes "ValidGuestPort p mn mx"
  shows "parseGuestPort (nat_str (unat p)) mn mx = Some p"
  using assms by (simp add: parseGuestPort_def)

lemma parseGuestPort_valid: "parseGuestPort raw mn mx = Some p \<Longrightarrow> ValidGuestPort p mn mx"
  by (auto simp: parseGuestPort_def ValidGuestPort_def split: if_splits option.splits)

end
