(* ===== verification/Node_Http.thy ===== *)
theory Node_Http
  imports Guest_Ports Go_Base64
begin

text \<open>
  The node-agent's HTTP API (\<open>nodeagent/internal/httpapi\<close>): routing, the bearer check, and the
  handlers over a driver. A driver is a record of operations over its state; the laws the
  handlers' clients rely on are the locale \<open>vm_driver\<close>, which the dev driver interprets in
  \<open>Node_Client\<close>. A request path is the list of segments of the cleaned URL path. A request body
  is what decoding it as each of the two messages gives, \<open>None\<close> for a decoding error.
\<close>

section \<open>The driver\<close>

record 'd driver_ops =
  op_Ensure :: "'d \<Rightarrow> vm_spec \<Rightarrow> ('d \<times> string res) option"
  op_Stop :: "'d \<Rightarrow> string \<Rightarrow> string \<Rightarrow> 'd \<times> error option"
  op_Status :: "'d \<Rightarrow> string \<Rightarrow> driver_status res"
  op_Destroy :: "'d \<Rightarrow> string \<Rightarrow> 'd \<times> error option"
  op_List :: "'d \<Rightarrow> driver_status list res"
  op_Capacity :: "'d \<Rightarrow> driver_capacity res"
  op_DialGuest :: "('d \<Rightarrow> string \<Rightarrow> port \<Rightarrow> conn res) option"

section \<open>Requests and responses\<close>

datatype body = Empty | Doc "ensure_request option" "string option"

record request =
  rq_Method :: string
  rq_Path :: "string list"
  rq_Port :: string
  rq_Authorization :: string
  rq_Connection :: "string list"
  rq_Upgrade :: string
  rq_Body :: body
  rq_Hijackable :: bool

datatype rsbody =
    NoBody
  | TextBody string
  | ErrorBody string
  | HandleBody string
  | StatusBody machine_status
  | ListBody "machine_status list"
  | CapacityBody capacity
  | HealthBody string
  | Tunnel conn

record response =
  rs_Status :: nat
  rs_Body :: rsbody

record server =
  sv_token :: string
  sv_previewMin :: port
  sv_previewMax :: port

definition NewServer :: "string \<Rightarrow> server" where
  "NewServer token = \<lparr>sv_token = token, sv_previewMin = DefaultPreviewPortMin, sv_previewMax = DefaultPreviewPortMax\<rparr>"

definition WithPreviewRange :: "server \<Rightarrow> port \<Rightarrow> port \<Rightarrow> server" where
  "WithPreviewRange s mn mx = s\<lparr>sv_previewMin := mn, sv_previewMax := mx\<rparr>"

definition writeJSON :: "nat \<Rightarrow> rsbody \<Rightarrow> response" where
  "writeJSON status v = \<lparr>rs_Status = status, rs_Body = v\<rparr>"

definition writeError :: "nat \<Rightarrow> string \<Rightarrow> response" where
  "writeError status code = writeJSON status (ErrorBody code)"

definition writeHeader :: "nat \<Rightarrow> response" where
  "writeHeader status = \<lparr>rs_Status = status, rs_Body = NoBody\<rparr>"

definition writeDriverError :: "error \<Rightarrow> response" where
  "writeDriverError e = (if errors_Is e DriverErrUnknownMachine then writeError 404 CodeUnknownMachine
     else writeError 500 CodeInternal)"

definition toWire :: "driver_status \<Rightarrow> machine_status" where
  "toWire st = \<lparr>st_MachineID = ds_MachineID st, st_State = ds_State st, st_Reason = ds_Reason st, st_Handle = ds_Handle st,
     st_GuestIP = ds_GuestIP st, st_Boot = ds_Boot st, st_DiskID = ds_DiskID st,
     st_Snapshot = \<lparr>si_Present = sr_Present (ds_Snapshot st), si_CreatedAt = sr_CreatedAt (ds_Snapshot st),
       si_FCVersion = sr_FCVersion (ds_Snapshot st), si_MemBytes = sr_MemBytes (ds_Snapshot st)\<rparr>\<rparr>"

section \<open>Handlers\<close>

definition handleHealthz :: response where
  "handleHealthz = writeJSON 200 (HealthBody ''ok'')"

text \<open>The key and the spec of an ensure request.\<close>

definition volume_key :: "ensure_request \<Rightarrow> 8 word list option" where
  "volume_key req = (if er_VolumeKeyB64 req = [] then Some [] else b64_decode (er_VolumeKeyB64 req))"

definition spec_of :: "string \<Rightarrow> ensure_request \<Rightarrow> 8 word list \<Rightarrow> vm_spec" where
  "spec_of i req key =
     \<lparr>vs_MachineID = i, vs_Vcpus = er_Vcpus req, vs_MemMiB = er_MemMiB req, vs_KernelRef = er_KernelRef req,
      vs_RootfsRef = er_RootfsRef req,
      vs_Disks = (if er_DiskID req = [] then [] else [(er_DiskID req, er_DiskMiB req)]), vs_VolumeKey = key,
      vs_PolicyMode = (case er_NetworkPolicy req of None \<Rightarrow> [] | Some (mode, _) \<Rightarrow> mode),
      vs_PolicyDomains = (case er_NetworkPolicy req of None \<Rightarrow> [] | Some (_, domains) \<Rightarrow> domains)\<rparr>"

definition handleEnsure :: "'d driver_ops \<Rightarrow> 'd \<Rightarrow> string \<Rightarrow> body \<Rightarrow> ('d \<times> response) option" where
  "handleEnsure ops d i b =
     (case (case b of Empty \<Rightarrow> None | Doc r _ \<Rightarrow> r) of
        None \<Rightarrow> Some (d, writeError 400 CodeBadRequest)
      | Some req \<Rightarrow> (case volume_key req of
          None \<Rightarrow> Some (d, writeError 400 CodeBadRequest)
        | Some key \<Rightarrow> (case op_Ensure ops d (spec_of i req key) of
            None \<Rightarrow> None
          | Some (d', Inl e) \<Rightarrow> Some (d', writeError 500 CodeInternal)
          | Some (d', Inr h) \<Rightarrow> Some (d', writeJSON 202 (HandleBody h)))))"

definition stop_mode :: "body \<Rightarrow> string option" where
  "stop_mode b = (case b of
       Empty \<Rightarrow> Some StopModeHibernate
     | Doc _ None \<Rightarrow> None
     | Doc _ (Some mode) \<Rightarrow>
       if mode = [] \<or> mode = StopModeHibernate then Some StopModeHibernate
       else if mode = StopModePoweroff then Some StopModePoweroff else None)"

definition handleStop :: "'d driver_ops \<Rightarrow> 'd \<Rightarrow> string \<Rightarrow> body \<Rightarrow> 'd \<times> response" where
  "handleStop ops d i b = (case stop_mode b of
       None \<Rightarrow> (d, writeError 400 CodeBadRequest)
     | Some mode \<Rightarrow> (case op_Stop ops d i mode of
         (d', Some e) \<Rightarrow> (d', writeDriverError e)
       | (d', None) \<Rightarrow> (d', writeHeader 202)))"

definition handleGet :: "'d driver_ops \<Rightarrow> 'd \<Rightarrow> string \<Rightarrow> response" where
  "handleGet ops d i = (case op_Status ops d i of
       Inl e \<Rightarrow> writeDriverError e
     | Inr st \<Rightarrow> writeJSON 200 (StatusBody (toWire st)))"

definition handleList :: "'d driver_ops \<Rightarrow> 'd \<Rightarrow> response" where
  "handleList ops d = (case op_List ops d of
       Inl e \<Rightarrow> writeError 500 CodeInternal
     | Inr sts \<Rightarrow> writeJSON 200 (ListBody (map toWire sts)))"

definition handleDestroy :: "'d driver_ops \<Rightarrow> 'd \<Rightarrow> string \<Rightarrow> 'd \<times> response" where
  "handleDestroy ops d i = (case op_Destroy ops d i of
       (d', Some e) \<Rightarrow> (d', writeError 500 CodeInternal)
     | (d', None) \<Rightarrow> (d', writeHeader 204))"

definition wire_capacity :: "driver_capacity \<Rightarrow> capacity" where
  "wire_capacity k = \<lparr>cap_TotalVcpus = dc_TotalVcpus k, cap_TotalMemMiB = dc_TotalMemMiB k, cap_TotalDiskMiB = dc_TotalDiskMiB k,
     cap_UsedVcpus = dc_UsedVcpus k, cap_UsedMemMiB = dc_UsedMemMiB k, cap_UsedDiskMiB = dc_UsedDiskMiB k\<rparr>"

definition handleCapacity :: "'d driver_ops \<Rightarrow> 'd \<Rightarrow> response" where
  "handleCapacity ops d = (case op_Capacity ops d of
       Inl e \<Rightarrow> writeError 500 CodeInternal
     | Inr k \<Rightarrow> writeJSON 200 (CapacityBody (wire_capacity k)))"

text \<open>
  The tunnel. When the connection cannot be hijacked the handler writes nothing, and the server
  answers with its default, an empty 200.
\<close>

definition handleGuest :: "'d driver_ops \<Rightarrow> server \<Rightarrow> 'd \<Rightarrow> string \<Rightarrow> request \<Rightarrow> response" where
  "handleGuest ops s d i r =
     (if \<not> headerHasToken (rq_Connection r) ''upgrade'' \<or> \<not> EqualFold (rq_Upgrade r) UpgradeGuestProto
      then writeError 400 CodeBadRequest
      else case parseGuestPort (rq_Port r) (sv_previewMin s) (sv_previewMax s) of
        None \<Rightarrow> writeError 400 CodeBadRequest
      | Some p \<Rightarrow> (case op_Status ops d i of
          Inl e \<Rightarrow> writeDriverError e
        | Inr st \<Rightarrow>
          if ds_State st \<noteq> AgentRunning then writeError 409 CodeNotRunning
          else case op_DialGuest ops of
            None \<Rightarrow> writeError 502 CodeGuestUnreachable
          | Some dial \<Rightarrow> (case dial d i p of
              Inl e \<Rightarrow> if errors_Is e DriverErrUnknownMachine then writeError 404 CodeUnknownMachine
                      else writeError 502 CodeGuestUnreachable
            | Inr g \<Rightarrow> if \<not> rq_Hijackable r then writeHeader 200
                      else \<lparr>rs_Status = 101, rs_Body = Tunnel g\<rparr>)))"

section \<open>Routing and authentication\<close>

definition authorized :: "server \<Rightarrow> string \<Rightarrow> bool" where
  "authorized s h = (\<not> (length h \<le> length BearerPrefix \<or> take (length BearerPrefix) h \<noteq> BearerPrefix)
     \<and> drop (length BearerPrefix) h = sv_token s)"

datatype endpoint =
    Healthz | Metrics | RouteEnsure string | RouteStop string | RouteGetMachine string | RouteListMachine
  | RouteDestroy string | RouteCapacity | RouteGuest string

text \<open>
  The patterns that match a path, each with its method (empty: any). A \<open>{id}\<close> does not match an
  empty segment. \<open>GET\<close> patterns also match \<open>HEAD\<close>; a path that only matches with other methods
  is answered 405.
\<close>

fun endpoints :: "string list \<Rightarrow> (string \<times> endpoint) list" where
  "endpoints [a] = (if a = ''healthz'' then [(''GET'', Healthz)] else if a = ''metrics'' then [([], Metrics)] else [])"
| "endpoints [v, a] = (if v \<noteq> ''v1'' then [] else if a = ''machines'' then [(''GET'', RouteListMachine)]
     else if a = ''capacity'' then [(''GET'', RouteCapacity)] else [])"
| "endpoints [v, a, i] = (if v = ''v1'' \<and> a = ''machines'' \<and> i \<noteq> []
     then [(''PUT'', RouteEnsure i), (''GET'', RouteGetMachine i), (''DELETE'', RouteDestroy i)] else [])"
| "endpoints [v, a, i, b] = (if v = ''v1'' \<and> a = ''machines'' \<and> i \<noteq> []
     then (if b = ''stop'' then [(''POST'', RouteStop i)] else if b = ''guest'' then [(''GET'', RouteGuest i)] else [])
     else [])"
| "endpoints _ = []"

definition method_matches :: "string \<Rightarrow> string \<Rightarrow> bool" where
  "method_matches m pat = (pat = [] \<or> m = pat \<or> (pat = ''GET'' \<and> m = ''HEAD''))"

definition dispatch :: "'d driver_ops \<Rightarrow> server \<Rightarrow> 'd \<Rightarrow> request \<Rightarrow> endpoint \<Rightarrow> ('d \<times> response) option" where
  "dispatch ops s d r ep = (case ep of
       Healthz \<Rightarrow> Some (d, handleHealthz)
     | Metrics \<Rightarrow> Some (d, \<lparr>rs_Status = 200, rs_Body = TextBody ''metrics''\<rparr>)
     | _ \<Rightarrow>
       if \<not> authorized s (rq_Authorization r) then Some (d, writeError 401 CodeUnauthorized)
       else (case ep of
           RouteEnsure i \<Rightarrow> handleEnsure ops d i (rq_Body r)
         | RouteStop i \<Rightarrow> Some (handleStop ops d i (rq_Body r))
         | RouteGetMachine i \<Rightarrow> Some (d, handleGet ops d i)
         | RouteListMachine \<Rightarrow> Some (d, handleList ops d)
         | RouteDestroy i \<Rightarrow> Some (handleDestroy ops d i)
         | RouteCapacity \<Rightarrow> Some (d, handleCapacity ops d)
         | RouteGuest i \<Rightarrow> Some (d, handleGuest ops s d i r)
         | _ \<Rightarrow> None))"

definition Handler :: "'d driver_ops \<Rightarrow> server \<Rightarrow> 'd \<Rightarrow> request \<Rightarrow> ('d \<times> response) option" where
  "Handler ops s d r =
     (case endpoints (rq_Path r) of
        [] \<Rightarrow> Some (d, \<lparr>rs_Status = 404, rs_Body = TextBody ''404 page not found''\<rparr>)
      | es \<Rightarrow> (case find (\<lambda>x. method_matches (rq_Method r) (fst x)) es of
          None \<Rightarrow> Some (d, \<lparr>rs_Status = 405, rs_Body = TextBody ''Method Not Allowed''\<rparr>)
        | Some (_, ep) \<Rightarrow> dispatch ops s d r ep))"

section \<open>The bearer check\<close>

lemma authorized_iff: "authorized s h \<longleftrightarrow> sv_token s \<noteq> [] \<and> h = BearerPrefix @ sv_token s"
proof
  assume a: "authorized s h"
  then have "h = take (length BearerPrefix) h @ drop (length BearerPrefix) h" by simp
  with a show "sv_token s \<noteq> [] \<and> h = BearerPrefix @ sv_token s"
    by (metis append_self_conv authorized_def le_refl)
qed (simp add: authorized_def)

lemma endpoints_public:
  assumes "(m, ep) \<in> set (endpoints path)" "ep \<in> {Healthz, Metrics}"
  shows "path = [''healthz''] \<or> path = [''metrics'']"
  using assms by (cases path rule: endpoints.cases) (auto split: if_splits)

text \<open>Whatever the driver, a request without the token reaches no operation of it.\<close>

lemma unauthorized_rejected:
  assumes "rq_Authorization r \<noteq> BearerPrefix @ sv_token s \<or> sv_token s = []"
  shows "\<exists>rs. Handler ops s d r = Some (d, rs)
    \<and> (rs_Status rs \<in> {404, 405, 401} \<or> rq_Path r = [''healthz''] \<or> rq_Path r = [''metrics''])"
proof -
  have n: "\<not> authorized s (rq_Authorization r)" using assms by (auto simp: authorized_iff)
  show ?thesis
  proof (cases "endpoints (rq_Path r)")
    case (Cons e es)
    show ?thesis
    proof (cases "find (\<lambda>x. method_matches (rq_Method r) (fst x)) (e # es)")
      case (Some x)
      then have x: "(fst x, snd x) \<in> set (endpoints (rq_Path r))" unfolding Cons by (metis find_Some_iff nth_mem prod.collapse)
      have "Handler ops s d r = dispatch ops s d r (snd x)" using Some Cons by (cases x) (simp add: Handler_def)
      with n endpoints_public [OF x] show ?thesis
        by (cases "snd x") (simp_all add: dispatch_def writeError_def writeJSON_def handleHealthz_def)
    qed (simp add: Handler_def Cons)
  qed (simp add: Handler_def)
qed

end
