(* ===== verification/Node_Client.thy ===== *)
theory Node_Client
  imports Node_Http
begin

text \<open>
  The control plane's client of the node-agent (\<open>controlplane/internal/nodeclient\<close>) and its
  composition with the agent's API. A transport carries a request to an agent and its answer
  back; the request or the answer can be lost. Locale \<open>vm_driver\<close> states what clients rely on in
  a driver; the dev driver interprets it.
\<close>

section \<open>Client\<close>

type_synonym 'd transport = "'d \<Rightarrow> request \<Rightarrow> ('d \<times> response res) option"

record client =
  cl_baseURL :: string
  cl_token :: string

definition NewClient :: "string \<Rightarrow> string \<Rightarrow> client" where
  "NewClient baseURL token = \<lparr>cl_baseURL = rev (dropWhile (\<lambda>ch. ch = CHR ''/'') (rev baseURL)), cl_token = token\<rparr>"

definition path_text :: "string list \<Rightarrow> string" where
  "path_text path = concat (map (\<lambda>s. CHR ''/'' # s) path)"

definition client_request :: "client \<Rightarrow> string \<Rightarrow> string list \<Rightarrow> body \<Rightarrow> request" where
  "client_request c method path b =
     \<lparr>rq_Method = method, rq_Path = path, rq_Port = [], rq_Authorization = BearerPrefix @ cl_token c,
      rq_Connection = [], rq_Upgrade = [], rq_Body = b, rq_Hijackable = True\<rparr>"

definition wrong_status :: "string \<Rightarrow> string list \<Rightarrow> nat \<Rightarrow> nat \<Rightarrow> error" where
  "wrong_status method path got want =
     ErrorText (method @ '' '' @ path_text path @ '': agent returned '' @ nat_str got @ '' (want '' @ nat_str want @ '')'')"

definition client_do :: "'d transport \<Rightarrow> client \<Rightarrow> 'd \<Rightarrow> string \<Rightarrow> string list \<Rightarrow> body \<Rightarrow> nat \<Rightarrow> ('d \<times> rsbody res) option" where
  "client_do tr c d method path b want =
     (case tr d (client_request c method path b) of
        None \<Rightarrow> None
      | Some (d', Inl e) \<Rightarrow> Some (d', Inl (Errorf (method @ '' '' @ path_text path @ '': '') e []))
      | Some (d', Inr rs) \<Rightarrow> Some (d',
          if rs_Status rs = 404 then Inl (Sentinel ErrUnknownMachine)
          else if rs_Status rs \<noteq> want then Inl (wrong_status method path (rs_Status rs) want)
          else Inr (rs_Body rs)))"

text \<open>
  Decoding an answer: fields the message does not have are ignored, missing ones are zero, and
  what is no JSON document is an error.
\<close>

definition decode_with :: "(rsbody \<Rightarrow> 'a option) \<Rightarrow> 'a \<Rightarrow> rsbody \<Rightarrow> 'a res" where
  "decode_with f z b = (case f b of
       Some v \<Rightarrow> Inr v
     | None \<Rightarrow> (case b of
         NoBody \<Rightarrow> Inl (Errorf ''decode response: '' (ErrorText ''EOF'') [])
       | TextBody t \<Rightarrow> Inl (Errorf ''decode response: '' (ErrorText ''invalid character'') [])
       | Tunnel g \<Rightarrow> Inl (Errorf ''decode response: '' (ErrorText ''invalid character'') [])
       | _ \<Rightarrow> Inr z))"

definition zero_status :: machine_status where
  "zero_status = \<lparr>st_MachineID = [], st_State = [], st_Reason = [], st_Handle = [], st_GuestIP = [], st_Boot = [], st_DiskID = [],
     st_Snapshot = \<lparr>si_Present = False, si_CreatedAt = [], si_FCVersion = [], si_MemBytes = 0\<rparr>\<rparr>"

definition decode_handle :: "rsbody \<Rightarrow> string res" where
  "decode_handle = decode_with (\<lambda>b. case b of HandleBody h \<Rightarrow> Some h | StatusBody st \<Rightarrow> Some (st_Handle st) | _ \<Rightarrow> None) []"

definition decode_status :: "rsbody \<Rightarrow> machine_status res" where
  "decode_status = decode_with
     (\<lambda>b. case b of StatusBody st \<Rightarrow> Some st | HandleBody h \<Rightarrow> Some (zero_status\<lparr>st_Handle := h\<rparr>) | _ \<Rightarrow> None) zero_status"

definition decode_list :: "rsbody \<Rightarrow> machine_status list res" where
  "decode_list = decode_with (\<lambda>b. case b of ListBody ms \<Rightarrow> Some ms | _ \<Rightarrow> None) []"

definition decode_capacity :: "rsbody \<Rightarrow> capacity res" where
  "decode_capacity = decode_with (\<lambda>b. case b of CapacityBody k \<Rightarrow> Some k | _ \<Rightarrow> None)
     \<lparr>cap_TotalVcpus = 0, cap_TotalMemMiB = 0, cap_TotalDiskMiB = 0, cap_UsedVcpus = 0, cap_UsedMemMiB = 0, cap_UsedDiskMiB = 0\<rparr>"

definition and_decode :: "(rsbody \<Rightarrow> 'a res) \<Rightarrow> ('d \<times> rsbody res) option \<Rightarrow> ('d \<times> 'a res) option" where
  "and_decode f = map_option (\<lambda>(d, r). (d, case r of Inl e \<Rightarrow> Inl e | Inr b \<Rightarrow> f b))"

lemma and_decode_Inl [simp]: "and_decode f (Some (d, Inl e)) = Some (d, Inl e)"
  by (simp add: and_decode_def)

definition machine_path :: "string \<Rightarrow> string list" where
  "machine_path i = [''v1'', ''machines'', i]"

definition zero_ensure :: ensure_request where
  "zero_ensure = \<lparr>er_Vcpus = 0, er_MemMiB = 0, er_KernelRef = [], er_RootfsRef = [], er_DiskID = [], er_DiskMiB = 0,
     er_VolumeKeyB64 = [], er_NetworkPolicy = None\<rparr>"

definition client_Ensure :: "'d transport \<Rightarrow> client \<Rightarrow> 'd \<Rightarrow> string \<Rightarrow> ensure_request \<Rightarrow> ('d \<times> string res) option" where
  "client_Ensure tr c d i req = and_decode decode_handle (client_do tr c d ''PUT'' (machine_path i) (Doc (Some req) (Some [])) 202)"

definition client_Stop :: "'d transport \<Rightarrow> client \<Rightarrow> 'd \<Rightarrow> string \<Rightarrow> string \<Rightarrow> ('d \<times> unit res) option" where
  "client_Stop tr c d i mode = and_decode (\<lambda>_. Inr ())
     (client_do tr c d ''POST'' (machine_path i @ [''stop'']) (if mode = [] then Empty else Doc (Some zero_ensure) (Some mode)) 202)"

definition client_Status :: "'d transport \<Rightarrow> client \<Rightarrow> 'd \<Rightarrow> string \<Rightarrow> ('d \<times> machine_status res) option" where
  "client_Status tr c d i = and_decode decode_status (client_do tr c d ''GET'' (machine_path i) Empty 200)"

definition client_List :: "'d transport \<Rightarrow> client \<Rightarrow> 'd \<Rightarrow> ('d \<times> machine_status list res) option" where
  "client_List tr c d = and_decode decode_list (client_do tr c d ''GET'' [''v1'', ''machines''] Empty 200)"

definition client_Destroy :: "'d transport \<Rightarrow> client \<Rightarrow> 'd \<Rightarrow> string \<Rightarrow> ('d \<times> unit res) option" where
  "client_Destroy tr c d i = and_decode (\<lambda>_. Inr ()) (client_do tr c d ''DELETE'' (machine_path i) Empty 204)"

definition client_Health :: "'d transport \<Rightarrow> client \<Rightarrow> 'd \<Rightarrow> ('d \<times> unit res) option" where
  "client_Health tr c d = and_decode (\<lambda>_. Inr ()) (client_do tr c d ''GET'' [''healthz''] Empty 200)"

definition client_Capacity :: "'d transport \<Rightarrow> client \<Rightarrow> 'd \<Rightarrow> ('d \<times> capacity res) option" where
  "client_Capacity tr c d = and_decode decode_capacity (client_do tr c d ''GET'' [''v1'', ''capacity''] Empty 200)"

text \<open>The tunnel; a transport's error is the text of the step that failed.\<close>

definition client_DialGuest :: "'d transport \<Rightarrow> client \<Rightarrow> 'd \<Rightarrow> string \<Rightarrow> port \<Rightarrow> ('d \<times> conn res) option" where
  "client_DialGuest tr c d i p =
     (case tr d ((client_request c ''GET'' (machine_path i @ [''guest'']) Empty)
             \<lparr>rq_Port := (if p \<noteq> 0 then nat_str (unat p) else []), rq_Connection := [''Upgrade''], rq_Upgrade := UpgradeGuestProto\<rparr>) of
        None \<Rightarrow> None
      | Some (d', Inl e) \<Rightarrow> Some (d', Inl e)
      | Some (d', Inr rs) \<Rightarrow> Some (d',
          if rs_Status rs = 101 then (case rs_Body rs of Tunnel g \<Rightarrow> Inr g
            | _ \<Rightarrow> Inr \<lparr>cn_sock = [], cn_written = [], cn_buffered = []\<rparr>)
          else if rs_Status rs = 404 then Inl (Sentinel ErrUnknownMachine)
          else if rs_Status rs = 409 then Inl (Sentinel ErrNotRunning)
          else if rs_Status rs = 502 then Inl (Sentinel ErrGuestUnreachable)
          else if rs_Status rs = 401 then Inl (ErrorText ''nodeclient: guest tunnel unauthorized'')
          else Inl (ErrorText (''guest tunnel: agent returned '' @ nat_str (rs_Status rs)))))"

section \<open>A client and an agent\<close>

datatype exchange = Delivered | LostRequest string | LostResponse string

definition agent_transport :: "exchange \<Rightarrow> 'd driver_ops \<Rightarrow> server \<Rightarrow> 'd transport" where
  "agent_transport x ops s d r = (case x of
       LostRequest e \<Rightarrow> Some (d, Inl (ErrorText e))
     | LostResponse e \<Rightarrow> map_option (\<lambda>(d', _). (d', Inl (ErrorText e))) (Handler ops s d r)
     | Delivered \<Rightarrow> map_option (\<lambda>(d', rs). (d', Inr rs)) (Handler ops s d r))"

definition linked :: "server \<Rightarrow> client \<Rightarrow> bool" where
  "linked s c = (sv_token s \<noteq> [] \<and> cl_token c = sv_token s)"

text \<open>What a driver error becomes on the control plane's side.\<close>

definition remote_error :: "string \<Rightarrow> string list \<Rightarrow> nat \<Rightarrow> error \<Rightarrow> error" where
  "remote_error method path want e = (if errors_Is e DriverErrUnknownMachine then Sentinel ErrUnknownMachine
     else wrong_status method path 500 want)"

named_theorems client_defs \<open>the client's calls\<close>

lemmas [client_defs] = client_Ensure_def client_Stop_def client_Status_def client_List_def client_Destroy_def
  client_Capacity_def client_do_def agent_transport_def and_decode_def

lemma authorized_linked: "linked s c \<Longrightarrow> authorized s (rq_Authorization (client_request c m p b))"
  by (simp add: authorized_iff linked_def client_request_def)

lemma request_fields [simp]:
  "rq_Method (client_request c m p b) = m" "rq_Path (client_request c m p b) = p" "rq_Body (client_request c m p b) = b"
  by (simp_all add: client_request_def)

text \<open>Which handler a call of the client reaches.\<close>

lemma reaches:
  assumes "linked s c" "i \<noteq> []"
  shows "Handler ops s d (client_request c ''PUT'' (machine_path i) b) = handleEnsure ops d i b"
    "Handler ops s d (client_request c ''GET'' (machine_path i) b) = Some (d, handleGet ops d i)"
    "Handler ops s d (client_request c ''DELETE'' (machine_path i) b) = Some (handleDestroy ops d i)"
    "Handler ops s d (client_request c ''POST'' (machine_path i @ [''stop'']) b) = Some (handleStop ops d i b)"
    "Handler ops s d (client_request c ''GET'' [''v1'', ''machines''] b) = Some (d, handleList ops d)"
    "Handler ops s d (client_request c ''GET'' [''v1'', ''capacity''] b) = Some (d, handleCapacity ops d)"
  using assms authorized_linked [OF assms(1)] by (simp_all add: Handler_def machine_path_def method_matches_def dispatch_def)

text \<open>Calls over a working connection are the driver's own, with errors mapped.\<close>

lemma remote_Status:
  assumes "linked s c" "i \<noteq> []"
  shows "client_Status (agent_transport Delivered ops s) c d i
    = Some (d, case op_Status ops d i of Inl e \<Rightarrow> Inl (remote_error ''GET'' (machine_path i) 200 e) | Inr st \<Rightarrow> Inr (toWire st))"
  using assms by (simp add: client_defs reaches handleGet_def writeDriverError_def writeError_def writeJSON_def remote_error_def
      decode_status_def decode_with_def split: sum.splits)

lemma remote_Destroy:
  assumes "linked s c" "i \<noteq> []"
  shows "client_Destroy (agent_transport Delivered ops s) c d i
    = Some (fst (op_Destroy ops d i), case snd (op_Destroy ops d i) of
        Some e \<Rightarrow> Inl (wrong_status ''DELETE'' (machine_path i) 500 204) | None \<Rightarrow> Inr ())"
  using assms by (cases "op_Destroy ops d i"; cases "snd (op_Destroy ops d i)")
    (simp_all add: client_defs reaches handleDestroy_def writeError_def writeJSON_def writeHeader_def)

lemma remote_Stop:
  assumes "linked s c" "i \<noteq> []" "mode \<in> {[], StopModeHibernate, StopModePoweroff}"
    and m: "m = (if mode = StopModePoweroff then StopModePoweroff else StopModeHibernate)"
  shows "client_Stop (agent_transport Delivered ops s) c d i mode
    = Some (fst (op_Stop ops d i m), case snd (op_Stop ops d i m) of
        Some e \<Rightarrow> Inl (remote_error ''POST'' (machine_path i @ [''stop'']) 202 e) | None \<Rightarrow> Inr ())"
proof -
  have "stop_mode (if mode = [] then Empty else Doc (Some zero_ensure) (Some mode)) = Some m"
    using assms(3) by (auto simp: stop_mode_def m StopModeHibernate_def StopModePoweroff_def)
  with assms(1,2) show ?thesis
    by (cases "op_Stop ops d i m"; cases "snd (op_Stop ops d i m)")
      (simp_all add: client_defs reaches handleStop_def writeDriverError_def writeError_def writeJSON_def writeHeader_def remote_error_def)
qed

lemma remote_Ensure:
  assumes "linked s c" "i \<noteq> []" "er_VolumeKeyB64 req = b64_encode key"
  shows "client_Ensure (agent_transport Delivered ops s) c d i req
    = map_option (\<lambda>(d', r). (d', case r of Inl e \<Rightarrow> Inl (wrong_status ''PUT'' (machine_path i) 500 202) | Inr h \<Rightarrow> Inr h))
        (op_Ensure ops d (spec_of i req key))"
proof -
  have "b64_quads [] = Some []" by simp
  then have "b64_encode key = [] \<Longrightarrow> key = []" by (metis b64_quads_encode option.inject)
  then have "volume_key req = Some key" using assms(3) by (auto simp: volume_key_def)
  note simps = client_defs reaches handleEnsure_def writeError_def writeJSON_def decode_handle_def decode_with_def this
  show ?thesis
  proof (cases "op_Ensure ops d (spec_of i req key)")
    case (Some y)
    with assms(1,2) show ?thesis by (cases y; cases "snd y") (simp_all add: simps)
  qed (use assms(1,2) in \<open>simp add: simps\<close>)
qed

text \<open>Without the agent's token, and when the request is lost, nothing happens to the driver.\<close>

lemma refused:
  assumes "\<not> linked s c" "x = Delivered \<or> x = LostRequest t" "path \<noteq> [''healthz'']" "path \<noteq> [''metrics'']" "want \<notin> {401, 405}"
  shows "\<exists>e. client_do (agent_transport x ops s) c d method path b want = Some (d, Inl e)"
proof -
  have "rq_Authorization (client_request c method path b) \<noteq> BearerPrefix @ sv_token s \<or> sv_token s = []"
    using assms(1) by (auto simp: linked_def client_request_def)
  from unauthorized_rejected [OF this, of ops d] assms(2-5) show ?thesis
    by (auto simp: client_do_def agent_transport_def)
qed

section \<open>What clients rely on in a driver\<close>

locale vm_driver =
  fixes ops :: "'d driver_ops"
  assumes stop_status: "op_Status ops d i = Inl e \<Longrightarrow> op_Stop ops d i mode = (d, Some e)"
    and destroy_gone: "op_Destroy ops d i = (d', None) \<Longrightarrow> op_Status ops d' i = Inl (Sentinel DriverErrUnknownMachine)"
    and destroy_other: "i \<noteq> j \<Longrightarrow> op_Status ops (fst (op_Destroy ops d i)) j = op_Status ops d j"
    and ensure_handle: "op_Ensure ops d sp = Some (d', Inr h) \<Longrightarrow> h = Handle (vs_MachineID sp)"
begin

text \<open>A destroyed machine is unknown to every later call, and no other machine's status has changed.\<close>

lemma destroyed:
  assumes "linked s c" "i \<noteq> []" "mode \<in> {[], StopModeHibernate, StopModePoweroff}"
    and "client_Destroy (agent_transport Delivered ops s) c d i = Some (d', Inr ())"
  shows "client_Status (agent_transport Delivered ops s) c d' i = Some (d', Inl (Sentinel ErrUnknownMachine))"
    "client_Stop (agent_transport Delivered ops s) c d' i mode = Some (d', Inl (Sentinel ErrUnknownMachine))"
    "i \<noteq> j \<Longrightarrow> j \<noteq> [] \<Longrightarrow> map_option snd (client_Status (agent_transport Delivered ops s) c d' j)
       = map_option snd (client_Status (agent_transport Delivered ops s) c d j)"
proof -
  have d: "op_Destroy ops d i = (d', None)"
    using assms(4) by (cases "op_Destroy ops d i") (auto simp: remote_Destroy [OF assms(1,2)] split: option.splits)
  note gone = destroy_gone [OF d]
  show "client_Status (agent_transport Delivered ops s) c d' i = Some (d', Inl (Sentinel ErrUnknownMachine))"
    by (simp add: remote_Status [OF assms(1,2)] gone remote_error_def)
  show "client_Stop (agent_transport Delivered ops s) c d' i mode = Some (d', Inl (Sentinel ErrUnknownMachine))"
    by (simp add: remote_Stop [OF assms(1-3) refl] stop_status [OF gone] remote_error_def)
  assume "i \<noteq> j" "j \<noteq> []"
  then show "map_option snd (client_Status (agent_transport Delivered ops s) c d' j)
       = map_option snd (client_Status (agent_transport Delivered ops s) c d j)"
    using destroy_other [of i j d] d by (simp add: remote_Status [OF assms(1)])
qed

text \<open>A machine is ensured under the handle of its identifier.\<close>

lemma ensured_handle:
  assumes "linked s c" "i \<noteq> []" "er_VolumeKeyB64 req = b64_encode key"
    and "client_Ensure (agent_transport Delivered ops s) c d i req = Some (d', Inr h)"
  shows "h = Handle i"
proof -
  obtain d1 r where r: "op_Ensure ops d (spec_of i req key) = Some (d1, r)"
    using assms(4) by (auto simp: remote_Ensure [OF assms(1-3)])
  then have "op_Ensure ops d (spec_of i req key) = Some (d', Inr h)"
    using assms(4) by (cases r) (simp_all add: remote_Ensure [OF assms(1-3)])
  then show ?thesis using ensure_handle by (fastforce simp: spec_of_def)
qed

end

section \<open>The dev driver\<close>

definition dev_ops :: "devctx \<Rightarrow> dialctx \<Rightarrow> dev_driver driver_ops" where
  "dev_ops c x = \<lparr>op_Ensure = EnsureRunning c, op_Stop = dev_Stop c, op_Status = dev_Status c, op_Destroy = dev_Destroy c,
     op_List = dev_List c, op_Capacity = dev_Capacity c, op_DialGuest = Some (dev_DialGuest c x)\<rparr>"

lemma dev_Destroy_store:
  "dd_store (fst (dev_Destroy c d i)) = (case Delete (dx_fs c) (dd_store d) i of Inl _ \<Rightarrow> dd_store d | Inr st \<Rightarrow> st)"
  by (simp add: dev_Destroy_def Let_def split: sum.split)

lemma Load_Delete:
  "Delete fs st i = Inr st' \<Longrightarrow> Load fs st' j = (if i = j then Inr None else Load fs st j)"
  by (auto simp: Load_def loadLocked_def Delete_def delete_conv' split: option.splits if_splits)

lemma dev_Destroy_status:
  assumes "i \<noteq> j"
  shows "dev_Status c (fst (dev_Destroy c d i)) j = dev_Status c d j"
  using assms by (cases "Delete (dx_fs c) (dd_store d) i") (simp_all add: dev_Status_def dev_Destroy_store Load_Delete)

lemma dev_Destroy_gone:
  assumes "dev_Destroy c d i = (d', None)"
  shows "dev_Status c d' i = Inl (Sentinel DriverErrUnknownMachine)"
proof -
  obtain st where "Delete (dx_fs c) (dd_store d) i = Inr st"
    using assms by (cases "Delete (dx_fs c) (dd_store d) i") (auto simp: dev_Destroy_def dev_kill_def Let_def split: option.splits)
  with dev_Destroy_store [of c d i] assms show ?thesis by (simp add: dev_Status_def Load_Delete)
qed

lemma EnsureRunning_handle:
  "EnsureRunning c d sp = Some (d', Inr h) \<Longrightarrow> h = Handle (vs_MachineID sp)"
  by (auto simp: EnsureRunning_def Ensure_launch_def Let_def split: prod.splits option.splits sum.splits if_splits bool.splits)

interpretation dev: vm_driver "dev_ops c x"
proof unfold_locales
  fix d i e mode
  assume "op_Status (dev_ops c x) d i = Inl e"
  then show "op_Stop (dev_ops c x) d i mode = (d, Some e)"
    by (auto simp: dev_ops_def dev_Status_def dev_Stop_def split: sum.splits option.splits)
qed (auto simp: dev_ops_def dev_Destroy_status dev_Destroy_gone EnsureRunning_handle)

end
