(* ===== verification/Api_Claims.thy ===== *)
theory Api_Claims
  imports Node_Client
begin

text \<open>
  The properties of the node-agent's API: preview ports reach exactly the port that was asked
  for, and the control plane's client sees the driver itself.
\<close>

definition ex_prefix :: prefix where
  "ex_prefix = \<lparr>px_addr = 0xAC1E0000, px_bits = 24\<rparr>"

definition ex_record :: node_record where
  "ex_record = fresh_record
     (spec_of ''m1'' (zero_ensure\<lparr>er_Vcpus := 2, er_MemMiB := 512, er_DiskID := ''d1'', er_DiskMiB := 1024\<rparr>) [])
     \<lparr>al_TapName = TapName ''m1'', al_GuestIP = Some 0xAC1E0002, al_GatewayIP = Some 0xAC1E0001, al_MAC = MACFor (Some 0xAC1E0002)\<rparr>"

definition ex_dev :: dev_driver where
  "ex_dev = NewDev (NewStore ex_prefix [(''m1'', Decodes ex_record)]) []"

definition ex_fs :: fsctx where
  "ex_fs = \<lparr>fs_read = (\<lambda>_. None), fs_write = (\<lambda>_. None), fs_remove = (\<lambda>_. None), fs_dir = None\<rparr>"

definition ex_devctx :: devctx where
  "ex_devctx = \<lparr>dx_fs = ex_fs, dx_start = Inr 42, dx_now = ''2025-01-01T00:00:00Z''\<rparr>"

definition ex_dial :: dialctx where
  "ex_dial = \<lparr>dl_MachineDir = (\<lambda>i. ''/var/lib/proteos/machines/'' @ i), dl_dial = (\<lambda>_. None), dl_write = (\<lambda>_. None),
     dl_reply = ''OK 1073741824'' @ [CHR 0x0A], dl_readerr = ''EOF''\<rparr>"

text \<open>
  Preview ports round-trip through the tunnel. For an admissible TCP port the node-agent
  parses the number the gateway printed back to that port; dialing it with either driver goes to
  the guest's preview forwarder, and the forwarder, reading the preamble the driver has written
  followed by the client's bytes, connects to exactly that port of the guest's loopback and
  passes on exactly those bytes. System ports get no preamble.
\<close>

theorem preview_port_roundtrip:
  assumes "ValidPreviewPort p mn mx" "p \<noteq> 0" "p \<le> 65535"
  shows "parseGuestPort (nat_str (unat p)) mn mx = Some p
    \<and> (dev_DialGuest c x d i p = Inr g \<longrightarrow> cn_sock g = guestPreviewSockPath x i
        \<and> handle (\<lambda>_. None) (cn_written g @ sent) = Bridged (''127.0.0.1:'' @ nat_str (unat p)) sent)
    \<and> (fc_DialGuest fs x st base vport i p = Inr h \<longrightarrow> (\<exists>preamble.
        cn_written h = ''CONNECT '' @ nat_str (unat GuestPreviewPort) @ [CHR 0x0A] @ preamble
        \<and> handle (\<lambda>_. None) (preamble @ sent) = Bridged (''127.0.0.1:'' @ nat_str (unat p)) sent))
    \<and> (IsSystemGuestPort q \<and> dev_DialGuest c x d i q = Inr g' \<longrightarrow> cn_written g' = [])
    \<and> (IsSystemGuestPort q \<and> fc_DialGuest fs x st base vport i q = Inr h' \<longrightarrow>
        cn_written h' = ''CONNECT '' @ nat_str (unat q) @ [CHR 0x0A])"
proof -
  have p: "\<not> IsSystemGuestPort p" "ValidGuestPort p mn mx"
    using assms(1) by (auto simp: ValidPreviewPort_def ValidGuestPort_def split: if_splits)
  then have ports: "p \<noteq> GuestWebPort" "p \<noteq> GuestSSHPort" by auto
  have "cn_sock g = guestPreviewSockPath x i \<and> cn_written g = PreviewPreamble p" if "dev_DialGuest c x d i p = Inr g"
    using that p(1) ports assms(2) by (auto simp: dev_DialGuest_def dev_route_def PreviewPreamble_def split: sum.splits option.splits)
  moreover have "cn_written h = ''CONNECT '' @ nat_str (unat GuestPreviewPort) @ [CHR 0x0A] @ PreviewPreamble p"
    if "fc_DialGuest fs x st base vport i p = Inr h"
    using that p(1) assms(2)
    by (auto simp: fc_DialGuest_def vsock_route_def PreviewPreamble_def Let_def split: sum.splits option.splits prod.splits if_splits)
  moreover have "cn_written g' = []" if "IsSystemGuestPort q" "dev_DialGuest c x d i q = Inr g'"
    using that by (auto simp: dev_DialGuest_def dev_route_def Let_def split: sum.splits option.splits if_splits)
  moreover have "cn_written h' = ''CONNECT '' @ nat_str (unat q) @ [CHR 0x0A]"
    if "IsSystemGuestPort q" "fc_DialGuest fs x st base vport i q = Inr h'"
  proof -
    have "vsock_route vport q = (q, [])" using that(1) by (auto simp: vsock_route_def Let_def)
    with that(2) show ?thesis
      by (auto simp: fc_DialGuest_def Let_def split: sum.splits option.splits prod.splits if_splits)
  qed
  ultimately show ?thesis
    using parseGuestPort_nat_str [OF p(2)] handle_preamble [OF assms(2,3)] by (metis (no_types))
qed

theorem preview_port_roundtrip_witness:
  "parseGuestPort ''3000'' DefaultPreviewPortMin DefaultPreviewPortMax = Some 3000
    \<and> (\<exists>g. dev_DialGuest ex_devctx ex_dial ex_dev ''m1'' 3000 = Inr g
        \<and> handle (\<lambda>_. None) (cn_written g @ ''GET /'') = Bridged ''127.0.0.1:3000'' ''GET /'')"
proof -
  have v: "ValidPreviewPort 3000 DefaultPreviewPortMin DefaultPreviewPortMax" "(3000 :: port) \<noteq> 0" "(3000 :: port) \<le> 65535"
    by (simp_all add: ValidPreviewPort_def IsSystemGuestPort_def guest_ports)
  have n: "nat_str (unat (3000 :: port)) = ''3000''"
    by (simp add: nat_str.simps digit_char_def digit_chars)
  obtain g where g: "dev_DialGuest ex_devctx ex_dial ex_dev ''m1'' 3000 = Inr g"
    by (simp add: dev_DialGuest_def ex_devctx_def ex_dial_def ex_dev_def ex_fs_def NewDev_def NewStore_def Load_def loadLocked_def
        dev_route_def guest_ports IsSystemGuestPort_def PreviewPreamble_def)
  from preview_port_roundtrip [OF v, where sent = "''GET /''", unfolded n] g show ?thesis by fastforce
qed


definition ex_server :: server where "ex_server = NewServer ''s3cret''"


end
