(* ===== verification/Auth_Runs.thy ===== *)
theory Auth_Runs
  imports Auth_Middleware
begin

text \<open>
  The operations as histories: every operation of sessions, access tokens, login and the
  middleware takes the tables through a sequence of statements, so that what \<open>Auth_System\<close> shows of
  sequences of statements holds across operations and their interleavings.
\<close>

definition db_steps :: "auth_db \<Rightarrow> auth_db \<Rightarrow> bool" where
  "db_steps d d' = (\<exists>ls. auth_run d ls d')"

lemma auth_run_append: "auth_run d ls d1 \<Longrightarrow> auth_run d1 ls' d2 \<Longrightarrow> auth_run d (ls @ ls') d2"
  by (induction rule: auth_run.induct) (auto intro: ar_step)

lemma db_steps_refl [simp, intro]: "db_steps d d"
  unfolding db_steps_def using ar_none by blast

lemma db_steps_trans: "db_steps d d1 \<Longrightarrow> db_steps d1 d2 \<Longrightarrow> db_steps d d2"
  unfolding db_steps_def using auth_run_append by blast

lemma db_steps_step: "auth_step d l d' \<Longrightarrow> db_steps d d'"
  unfolding db_steps_def using ar_step ar_none by blast

lemma db_steps_ok: "db_steps d d' \<Longrightarrow> auth_ok d \<Longrightarrow> auth_ok d'"
  unfolding db_steps_def using run_auth_ok by blast

lemmas stmt_steps [intro] = auth_step.intros [THEN db_steps_step]

text \<open>Each operation.\<close>

lemma session_Create_steps: "session_Create c ttl d u = (d', r) \<Longrightarrow> db_steps d d'"
  by (auto simp: session_Create_def split: sum.splits prod.splits)

lemma slide_steps [simp]: "db_steps d (slide c ttl d s)"
  by (auto simp: slide_def split: sum.splits)

lemma session_Authenticate_steps: "session_Authenticate c ttl d t = (d', r) \<Longrightarrow> db_steps d d'"
  by (auto simp: session_Authenticate_def split: sum.splits prod.splits if_splits)

lemma session_Revoke_steps: "session_Revoke c rv d t = (d', ids, e) \<Longrightarrow> db_steps d d'"
  by (auto simp: session_Revoke_def split: sum.splits prod.splits if_splits)

lemma pat_Create_steps: "pat_Create c d u nm t = (d', r) \<Longrightarrow> db_steps d d'"
  by (auto simp: pat_Create_def Let_def split: sum.splits prod.splits)

lemma mark_used_steps [simp]: "db_steps d (mark_used c d p)"
  by (auto simp: mark_used_def split: sum.splits)

lemma pat_Authenticate_steps: "pat_Authenticate c d t = (d', r) \<Longrightarrow> db_steps d d'"
  by (auto simp: pat_Authenticate_def split: sum.splits prod.splits if_splits)

lemma pat_Revoke_steps: "pat_Revoke c d u i = (d', r) \<Longrightarrow> db_steps d d'"
  by (auto simp: pat_Revoke_def split: sum.splits prod.splits if_splits)

lemma resolve_identity_steps: "resolve_identity c d iss info = (d', r) \<Longrightarrow> db_steps d d'"
  by (auto simp: resolve_identity_def refresh_user_def first_login_def create_user_def split: sum.splits prod.splits if_splits)

lemma resolveOIDCUser_steps: "resolveOIDCUser c o' h info = (h', r) \<Longrightarrow> db_steps (ah_db h) (ah_db h')"
  by (auto simp: resolveOIDCUser_def split: sum.splits prod.splits dest: resolve_identity_steps)

lemma AuthenticateBearer_steps: "AuthenticateBearer c o' h t = (h', r) \<Longrightarrow> db_steps (ah_db h) (ah_db h')"
  by (auto simp: AuthenticateBearer_def Let_def split: sum.splits prod.splits option.splits if_splits dest!: resolveOIDCUser_steps)

lemma authenticateBearer_steps: "authenticateBearer x h t = (h', r) \<Longrightarrow> db_steps (ah_db h) (ah_db h')"
  by (auto simp: authenticateBearer_def split: sum.splits prod.splits if_splits
      dest: AuthenticateBearer_steps pat_Authenticate_steps)

lemma audit_Record_same [simp]:
  "ah_db (audit_Record c h e) = ah_db h" "ah_oidc (audit_Record c h e) = ah_oidc h" "ah_cache (audit_Record c h e) = ah_cache h"
  by (simp_all add: audit_Record_def)

lemma open_session_steps: "open_session cfg c h u info = (h', r) \<Longrightarrow> db_steps (ah_db h) (ah_db h')"
  by (auto simp: open_session_def split: sum.splits prod.splits dest: session_Create_steps)

lemma complete_login_steps: "complete_login cfg c o' h code v = (h', r) \<Longrightarrow> db_steps (ah_db h) (ah_db h')"
  by (auto simp: complete_login_def split: sum.splits prod.splits
      dest!: open_session_steps resolveOIDCUser_steps intro: db_steps_trans)

lemma Callback_steps: "Callback cfg c o' h r = (h', a) \<Longrightarrow> db_steps (ah_db h) (ah_db h')"
  by (auto simp: Callback_def Let_def split: sum.splits prod.splits if_splits dest: complete_login_steps)

lemma Login_same: "Login cfg c o' v h r = (h', a) \<Longrightarrow> ah_db h' = ah_db h"
  by (auto simp: Login_def Let_def split: sum.splits prod.splits)

lemma Logout_steps: "Logout cfg c h r = (h', ids, a) \<Longrightarrow> db_steps (ah_db h) (ah_db h')"
  by (auto simp: Logout_def Let_def split: prod.splits if_splits dest: session_Revoke_steps)

text \<open>A middleware adds statements before its handler's.\<close>

lemma requireAuth_steps:
  assumes "requireAuth x r next' h = (h', a)" "\<And>ctx g g' b. next' ctx g = (g', b) \<Longrightarrow> db_steps (ah_db g) (ah_db g')"
  shows "db_steps (ah_db h) (ah_db h')"
  using assms(1)
  by (auto simp: requireAuth_def split: sum.splits prod.splits if_splits option.splits
      dest!: authenticateBearer_steps session_Authenticate_steps assms(2) intro: db_steps_trans)

lemma handler_steps:
  "handleCreateToken x body ctx h = (h1, a1) \<Longrightarrow> db_steps (ah_db h) (ah_db h1)"
  "handleListTokens x ctx h = (h2, a2) \<Longrightarrow> db_steps (ah_db h) (ah_db h2)"
  "handleRevokeToken x tid ctx h = (h3, a3) \<Longrightarrow> db_steps (ah_db h) (ah_db h3)"
  "handleLogout x br ctx h = (h4, a4) \<Longrightarrow> db_steps (ah_db h) (ah_db h4)"
  by (auto simp: handleCreateToken_def handleListTokens_def handleRevokeToken_def handleLogout_def
      split: sum.splits prod.splits if_splits option.splits dest: pat_Create_steps pat_Revoke_steps Logout_steps)

section \<open>The cache of access tokens\<close>

text \<open>The cache stays within its cap, one entry for a key, and no entry outlives its minute.\<close>

definition cache_ok :: "int \<Rightarrow> bearer_cache \<Rightarrow> bool" where
  "cache_ok t cache = (length cache \<le> bearerCacheMax \<and> distinct (map fst cache)
     \<and> (\<forall>e \<in> set cache. be_expiresAt (snd e) \<le> t + bearerCacheTTL))"

lemma cache_ok_later: "cache_ok t cache \<Longrightarrow> t \<le> t' \<Longrightarrow> cache_ok t' cache"
  by (force simp: cache_ok_def)

lemma cache_ok_filter: "cache_ok t cache \<Longrightarrow> cache_ok t (filter p cache)"
  by (auto simp: cache_ok_def distinct_map_filter intro: le_trans [OF length_filter_le])

lemma cache_get_ok: "cache_get c cache k = (cache', r) \<Longrightarrow> cache_ok t cache \<Longrightarrow> cache_ok t cache'"
  by (auto simp: cache_get_def cache_delete_def split: option.splits if_splits intro: cache_ok_filter)

lemma cache_put_ok:
  assumes "cache_ok (ac_time c) cache"
  shows "cache_ok (ac_time c) (cache_put c cache k user)"
proof -
  define swept where "swept = (if length cache \<ge> bearerCacheMax then sweepLocked c cache else cache)"
  have s: "cache_ok (ac_time c) swept" using assms by (simp add: swept_def sweepLocked_def cache_ok_filter)
  then have d: "cache_ok (ac_time c) (cache_delete k swept)" by (simp add: cache_delete_def cache_ok_filter)
  show ?thesis
  proof (cases "length swept \<ge> bearerCacheMax")
    case True
    with s show ?thesis by (simp add: cache_put_def swept_def [symmetric])
  next
    case False
    then have "length (cache_delete k swept) < bearerCacheMax"
      by (simp add: cache_delete_def) (metis le_less_trans length_filter_le not_le)
    with d False show ?thesis
      by (auto simp: cache_put_def swept_def [symmetric] cache_ok_def cache_delete_def)
  qed
qed

lemma cache_get_fresh:
  "cache_get c cache k = (cache', Some u) \<Longrightarrow> \<exists>e. map_of cache k = Some e \<and> be_user e = u \<and> ac_time c \<le> be_expiresAt e \<and> cache' = cache"
  by (auto simp: cache_get_def split: option.splits if_splits)

lemma resolveOIDCUser_cache: "resolveOIDCUser c o' h info = (h', r) \<Longrightarrow> ah_cache h' = ah_cache h"
  by (auto simp: resolveOIDCUser_def split: sum.splits prod.splits)

lemma AuthenticateBearer_cache_ok:
  assumes "AuthenticateBearer c o' h t = (h', r)" "cache_ok (ac_time c) (ah_cache h)"
  shows "cache_ok (ac_time c) (ah_cache h')"
proof -
  have g: "cache_ok (ac_time c) cache" if "cache_get c (ah_cache h) k = (cache, u)" for cache k u
    using cache_get_ok [OF that assms(2)] .
  show ?thesis using assms
    by (auto simp: AuthenticateBearer_def Let_def dest: g split: if_splits sum.splits prod.splits option.splits
        intro!: cache_put_ok dest!: resolveOIDCUser_cache)
qed

end
