(* ===== verification/Auth_Claims.thy ===== *)
theory Auth_Claims
  imports Auth_Runs
begin

text \<open>
  The properties of authentication: revocation is final, sessions live exactly as long as
  promised, an account is only ever linked to its own identity, a login leads to a session of the
  identity the provider vouched for, and administration needs a live credential of an
  administrator.
\<close>

section \<open>Credentials against the tables\<close>

lemma rawurl_encode_nonempty: "raw \<noteq> [] \<Longrightarrow> rawurl_encode raw \<noteq> []"
proof (cases raw rule: b64_encode.cases)
  case (2 a)
  then show ?thesis using b64_char_plain(1) [of "unat a div 4"] byte_lt [of a] by (simp add: rawurl_encode_def Let_def)
next
  case (3 a b)
  then show ?thesis using b64_char_plain(1) [of "(unat a * 65536 + unat b * 256) div 262144"] byte_lt [of a] byte_lt [of b]
    by (simp add: rawurl_encode_def Let_def)
next
  case (4 a b c bs)
  then show ?thesis
    using b64_char_plain(1) [of "(unat a * 65536 + unat b * 256 + unat c) div 262144"] byte_lt [of a] byte_lt [of b] byte_lt [of c]
    by (simp add: rawurl_encode_def Let_def)
qed simp

lemma tbl_update_hit: "r \<in> set rs \<Longrightarrow> p r \<Longrightarrow> f r \<in> set (tbl_update p f rs)"
  by (auto simp: set_tbl_update)

text \<open>What becomes of the session with a given hash.\<close>

lemma session_in_run:
  assumes "auth_ok d" "auth_run d ls d'" "s \<in> set (au_sessions d)" "ac_fault c ''GetSessionByTokenHash'' = None"
  shows "\<exists>s' u. s' \<in> set (au_sessions d') \<and> ss_ID s' = ss_ID s \<and> ss_UserID s' = ss_UserID s \<and> us_ID u = ss_UserID s
    \<and> (STouchSession (ss_ID s) \<notin> set ls \<longrightarrow> ss_ExpiresAt s' = ss_ExpiresAt s)
    \<and> (ss_RevokedAt s \<noteq> None \<longrightarrow> ss_RevokedAt s' \<noteq> None)
    \<and> (SRevokeSession (ss_TokenHash s) \<notin> set ls \<longrightarrow> ss_RevokedAt s' = ss_RevokedAt s)
    \<and> GetSessionByTokenHash c d' (ss_TokenHash s) = (if session_live c s' then Inr (u, s') else Inl (Sentinel ErrNoRows))"
proof -
  obtain s' where s': "s' \<in> set (au_sessions d')" "ss_ID s' = ss_ID s" "ss_TokenHash s' = ss_TokenHash s" "ss_UserID s' = ss_UserID s"
    "ss_RevokedAt s \<noteq> None \<longrightarrow> ss_RevokedAt s' = ss_RevokedAt s"
    "STouchSession (ss_ID s) \<notin> set ls \<longrightarrow> ss_ExpiresAt s' = ss_ExpiresAt s"
    "SRevokeSession (ss_TokenHash s) \<notin> set ls \<longrightarrow> ss_RevokedAt s' = ss_RevokedAt s"
    using run_session [OF assms(2,3)] by blast
  obtain u where "us_ID u = ss_UserID s'"
    "GetSessionByTokenHash c d' (ss_TokenHash s') = (if session_live c s' then Inr (u, s') else Inl (Sentinel ErrNoRows))"
    using lookup_session [OF run_auth_ok [OF assms(2,1)] s'(1), of c] assms(4) by auto
  moreover have "ss_RevokedAt s \<noteq> None \<longrightarrow> ss_RevokedAt s' \<noteq> None" using s'(5) by simp
  ultimately show ?thesis using s' by metis
qed

section \<open>Example tables\<close>

definition ex_uid :: "nat \<Rightarrow> pg_uuid" where
  "ex_uid n = \<lparr>Bytes = replicate 15 0 @ [word_of_nat n], Valid = True\<rparr>"

lemma ex_uid_eq [simp]: "m < 256 \<Longrightarrow> n < 256 \<Longrightarrow> ex_uid m = ex_uid n \<longleftrightarrow> m = n"
  by (simp add: ex_uid_def word_of_nat_eq_iff take_bit_nat_eq_self)

definition ex_ac :: authctx where
  "ex_ac = \<lparr>ac_fault = (\<lambda>_. None), ac_now = 100, ac_uuid = ex_uid 9, ac_time = 100, ac_rand = Inr [1, 2, 3],
     ac_sha256 = map of_char\<rparr>"

definition ex_user :: user_row where
  "ex_user = (new_user ex_ac)\<lparr>us_ID := ex_uid 1, us_Email := ''a@b'', us_IsAdmin := True\<rparr>"

definition ex_session :: session_row where
  "ex_session = \<lparr>ss_ID = ex_uid 5, ss_UserID = ex_uid 1, ss_TokenHash = map of_char ''t'', ss_CreatedAt = 0, ss_ExpiresAt = 200,
     ss_RevokedAt = None\<rparr>"

definition ex_auth :: auth_db where
  "ex_auth = \<lparr>au_users = [ex_user], au_sessions = [ex_session], au_pats = []\<rparr>"

lemmas ex_auth_defs = ex_ac_def ex_user_def ex_session_def ex_auth_def new_user_def

lemma ex_token: "random_text ex_ac = Inr ''AQID''"
proof -
  have c: "char_of (65 :: nat) = CHR ''A''" "char_of (68 :: nat) = CHR ''D''" "char_of (73 :: nat) = CHR ''I''" "char_of (81 :: nat) = CHR ''Q''"
    by (simp_all add: char_of_def bit_Suc_0_iff)
  show ?thesis by (simp add: random_text_def ex_ac_def rawurl_encode_def Let_def b64_char_def url_char_def c)
qed

lemma session_Create_ok:
  assumes "ac_fault c ''CreateSession'' = None" "random_text c = Inr token" "find_user d i \<noteq> None"
    and "hashToken c token \<notin> ss_TokenHash ` set (au_sessions d)" "ac_uuid c \<notin> ss_ID ` set (au_sessions d)"
  shows "\<exists>d'. session_Create c ttl d i = (d', Inr token)"
  using assms by (auto simp: session_Create_def CreateSession_def Let_def)

lemma ex_uids [simp]: "ex_uid 9 \<noteq> ex_uid 5"
  by (simp add: ex_uid_def)

lemma ex_auth_ok: "auth_ok ex_auth"
  by (simp add: auth_ok_def ex_auth_defs uniq_by_def identity_of_def)

section \<open>Revocation\<close>

lemma revoke_marks:
  assumes "auth_ok d" "s \<in> set (au_sessions d)" "ss_TokenHash s = hashToken c token" "token \<noteq> []"
    and "session_Revoke c revoker d token = (d1, ids, None)"
  shows "\<exists>s1 \<in> set (au_sessions d1). ss_ID s1 = ss_ID s \<and> ss_TokenHash s1 = ss_TokenHash s \<and> ss_RevokedAt s1 \<noteq> None"
    "ss_RevokedAt s = None \<and> revoker \<and> Valid (ss_ID s) \<longrightarrow> ids = [SessionIDString (ss_ID s)]"
proof -
  let ?p = "\<lambda>x. ss_TokenHash x = hashToken c token \<and> ss_RevokedAt x = None"
  have f: "find ?p (au_sessions d) = (if ss_RevokedAt s = None then Some s else None)"
    using assms(1,2) assms(3) [symmetric] by (intro find_row_unique [where k = ss_TokenHash]) (simp_all add: auth_ok_def)
  have r: "ac_fault c ''RevokeSession'' = None"
    using assms(4,5) by (auto simp: session_Revoke_def RevokeSession_def run_stmt_def split: option.splits if_splits)
  have hit: "s\<lparr>ss_RevokedAt := Some (ac_now c)\<rparr> \<in> set (tbl_update ?p (\<lambda>s. s\<lparr>ss_RevokedAt := Some (ac_now c)\<rparr>) (au_sessions d))"
    if "ss_RevokedAt s = None" using tbl_update_hit [of s "au_sessions d" ?p] assms(2,3) that by simp
  show "\<exists>s1 \<in> set (au_sessions d1). ss_ID s1 = ss_ID s \<and> ss_TokenHash s1 = ss_TokenHash s \<and> ss_RevokedAt s1 \<noteq> None"
  proof (cases "ss_RevokedAt s = None")
    case True
    with assms(4,5) f r have "au_sessions d1 = tbl_update ?p (\<lambda>s. s\<lparr>ss_RevokedAt := Some (ac_now c)\<rparr>) (au_sessions d)"
      by (auto simp: session_Revoke_def RevokeSession_def)
    with hit [OF True] show ?thesis by (intro bexI [of _ "s\<lparr>ss_RevokedAt := Some (ac_now c)\<rparr>"]) simp_all
  next
    case False
    with assms(4,5) f r have "d1 = d" by (auto simp: session_Revoke_def RevokeSession_def)
    with False assms(2) show ?thesis by blast
  qed
  show "ss_RevokedAt s = None \<and> revoker \<and> Valid (ss_ID s) \<longrightarrow> ids = [SessionIDString (ss_ID s)]"
    using assms(4,5) f r by (auto simp: session_Revoke_def RevokeSession_def)
qed

text \<open>
  C10. Revocation is final. After a session's token has been revoked without an error, no history
  of statements, whatever requests they come from, makes the token authenticate again, and the
  session is not alive by its identifier either; every access with them answers an error and
  changes nothing. A session that was unrevoked is reported to the revocation listener.
\<close>

theorem session_revoked:
  assumes "auth_ok d" "s \<in> set (au_sessions d)" "ss_TokenHash s = hashToken c token" "token \<noteq> []"
    and "session_Revoke c revoker d token = (d1, ids, None)"
    and "auth_run d1 ls d2" "ac_sha256 c2 = ac_sha256 c"
  shows "(\<exists>e. session_Authenticate c2 ttl d2 token = (d2, Inl e)) \<and> (\<exists>e. AliveByID c2 d2 (ss_ID s) = Inl e)
    \<and> (ss_RevokedAt s = None \<and> revoker \<and> Valid (ss_ID s) \<longrightarrow> ids = [SessionIDString (ss_ID s)])"
proof -
  obtain s1 where s1: "s1 \<in> set (au_sessions d1)" "ss_ID s1 = ss_ID s" "ss_TokenHash s1 = ss_TokenHash s" "ss_RevokedAt s1 \<noteq> None"
    using revoke_marks(1) [OF assms(1-5)] by blast
  have ok: "auth_ok d1" using db_steps_ok [OF session_Revoke_steps [OF assms(5)] assms(1)] .
  obtain s2 where s2: "s2 \<in> set (au_sessions d2)" "ss_ID s2 = ss_ID s" "ss_TokenHash s2 = ss_TokenHash s" "ss_RevokedAt s2 \<noteq> None"
    using run_session [OF assms(6) s1(1)] s1(2-4) by force
  have "\<not> session_live c2 s2" using s2(4) by (simp add: session_live_def)
  then have "\<exists>e. GetSessionByTokenHash c2 d2 (ss_TokenHash s) = Inl e" "\<exists>e. GetSessionByID c2 d2 (ss_ID s) = Inl e"
    using lookup_session [OF run_auth_ok [OF assms(6) ok] s2(1), of c2] s2(2,3) by (auto simp: run_stmt_def split: option.splits)
  then have "\<exists>e. session_Authenticate c2 ttl d2 token = (d2, Inl e)" "\<exists>e. AliveByID c2 d2 (ss_ID s) = Inl e"
    using assms(3,4,7) by (auto simp: session_Authenticate_def AliveByID_def hashToken_def)
  with revoke_marks(2) [OF assms(1-5)] show ?thesis by blast
qed

theorem session_revoked_witness:
  "\<exists>d1 e. session_Revoke ex_ac True ex_auth ''t'' = (d1, [SessionIDString (ex_uid 5)], None)
    \<and> session_Authenticate ex_ac 100 d1 ''t'' = (d1, Inl e)"
proof -
  obtain d1 ids where r: "session_Revoke ex_ac True ex_auth ''t'' = (d1, ids, None)"
    by (simp add: session_Revoke_def RevokeSession_def run_stmt_def hashToken_def ex_auth_defs)
  have "(\<exists>e. session_Authenticate ex_ac 100 d1 ''t'' = (d1, Inl e)) \<and> (\<exists>e. AliveByID ex_ac d1 (ss_ID ex_session) = Inl e)
    \<and> (ss_RevokedAt ex_session = None \<and> True \<and> Valid (ss_ID ex_session) \<longrightarrow> ids = [SessionIDString (ss_ID ex_session)])"
    by (rule session_revoked [OF ex_auth_ok _ _ _ r ar_none refl]) (simp_all add: ex_auth_defs hashToken_def)
  with r show ?thesis by (simp add: ex_session_def ex_uid_def)
qed

section \<open>Lifetime\<close>

text \<open>Whether a token authenticates as a user.\<close>

definition accepted :: "authctx \<Rightarrow> int \<Rightarrow> auth_db \<Rightarrow> string \<Rightarrow> pg_uuid \<Rightarrow> bool" where
  "accepted c ttl d token i = (case snd (session_Authenticate c ttl d token) of
       Inl _ \<Rightarrow> False | Inr (u, _) \<Rightarrow> us_ID u = i)"

lemma session_Create_row:
  assumes "session_Create c ttl d i = (d1, Inr token)"
  shows "\<exists>s raw. ac_rand c = Inr raw \<and> token = rawurl_encode raw \<and> s \<in> set (au_sessions d1) \<and> au_sessions d1 = au_sessions d @ [s]
    \<and> au_users d1 = au_users d \<and> ss_UserID s = i \<and> ss_TokenHash s = hashToken c token \<and> ss_ExpiresAt s = ac_time c + ttl
    \<and> ss_RevokedAt s = None \<and> ss_ID s = ac_uuid c \<and> i \<in> us_ID ` set (au_users d)"
  using assms
  by (auto simp: session_Create_def random_text_def CreateSession_def find_user_None Let_def
      split: sum.splits prod.splits if_splits dest!: run_stmt_InrD)

text \<open>What a token answers in a history that neither uses nor revokes its session.\<close>

lemma authenticate_unused:
  assumes "auth_ok d" "s \<in> set (au_sessions d)" "ss_TokenHash s = hashToken c token" "ss_RevokedAt s = None" "token \<noteq> []"
    and "auth_run d ls d'" "STouchSession (ss_ID s) \<notin> set ls" "SRevokeSession (ss_TokenHash s) \<notin> set ls"
    and "ac_sha256 c' = ac_sha256 c" "ac_fault c' = (\<lambda>_. None)"
  shows "\<exists>s' u. s' \<in> set (au_sessions d') \<and> ss_ID s' = ss_ID s \<and> us_ID u = ss_UserID s \<and> ss_ExpiresAt s' = ss_ExpiresAt s
    \<and> session_Authenticate c' ttl d' token = (if ac_now c' < ss_ExpiresAt s
        then (slide c' ttl d' s', Inr (u, s')) else (d', Inl (Sentinel ErrInvalidSession)))"
proof -
  obtain s' u where s': "s' \<in> set (au_sessions d')" "ss_ID s' = ss_ID s" "us_ID u = ss_UserID s" "ss_ExpiresAt s' = ss_ExpiresAt s"
    "ss_RevokedAt s' = None"
    "GetSessionByTokenHash c' d' (hashToken c' token) = (if session_live c' s' then Inr (u, s') else Inl (Sentinel ErrNoRows))"
    using session_in_run [OF assms(1,6,2), of c'] assms(3,4,7-10) by (auto simp: hashToken_def)
  then have "session_Authenticate c' ttl d' token =
      (if session_live c' s' then (slide c' ttl d' s', Inr (u, s')) else (d', Inl (Sentinel ErrInvalidSession)))"
    using assms(5) by (simp add: session_Authenticate_def)
  with s' show ?thesis by (intro exI [of _ s'] exI [of _ u]) (simp add: session_live_def)
qed

text \<open>
  C33. A session lives exactly as long as promised. The token that creating a session for a user
  returns has a session row; in every history in which that session is neither used nor revoked,
  the token authenticates as that user precisely until its lifetime from creation has passed. A
  use of it that succeeds moves the end to a lifetime from the use when less than the lifetime
  minus the refresh threshold was left, and leaves it where it is otherwise.
\<close>

theorem session_lifetime:
  assumes "auth_ok d" "session_Create c ttl d i = (d1, Inr token)" "token \<noteq> []"
  shows "\<exists>s \<in> set (au_sessions d1). ss_UserID s = i \<and> ss_ExpiresAt s = ac_time c + ttl
    \<and> (\<forall>ls d2 c2. auth_run d1 ls d2 \<and> STouchSession (ss_ID s) \<notin> set ls \<and> SRevokeSession (ss_TokenHash s) \<notin> set ls
         \<and> ac_sha256 c2 = ac_sha256 c \<and> ac_fault c2 = (\<lambda>_. None) \<longrightarrow>
        accepted c2 ttl d2 token i = (ac_now c2 < ac_time c + ttl)
        \<and> (accepted c2 ttl d2 token i \<longrightarrow>
            (\<exists>s2 \<in> set (au_sessions (fst (session_Authenticate c2 ttl d2 token))). ss_ID s2 = ss_ID s
              \<and> ss_ExpiresAt s2 = (if ac_time c + ttl - ac_time c2 < ttl - refreshThreshold
                  then ac_time c2 + ttl else ac_time c + ttl))))"
proof -
  obtain s where s: "s \<in> set (au_sessions d1)" "ss_UserID s = i" "ss_TokenHash s = hashToken c token"
    "ss_ExpiresAt s = ac_time c + ttl" "ss_RevokedAt s = None"
    using session_Create_row [OF assms(2)] by blast
  have ok: "auth_ok d1" using db_steps_ok [OF session_Create_steps [OF assms(2)] assms(1)] .
  have "accepted c2 ttl d2 token i = (ac_now c2 < ac_time c + ttl)
        \<and> (accepted c2 ttl d2 token i \<longrightarrow>
            (\<exists>s2 \<in> set (au_sessions (fst (session_Authenticate c2 ttl d2 token))). ss_ID s2 = ss_ID s
              \<and> ss_ExpiresAt s2 = (if ac_time c + ttl - ac_time c2 < ttl - refreshThreshold
                  then ac_time c2 + ttl else ac_time c + ttl)))"
    if a: "auth_run d1 ls d2" "STouchSession (ss_ID s) \<notin> set ls" "SRevokeSession (ss_TokenHash s) \<notin> set ls"
      "ac_sha256 c2 = ac_sha256 c" "ac_fault c2 = (\<lambda>_. None)" for ls d2 c2
  proof -
    obtain s2 u where s2: "s2 \<in> set (au_sessions d2)" "ss_ID s2 = ss_ID s" "us_ID u = i" "ss_ExpiresAt s2 = ac_time c + ttl"
      and auth: "session_Authenticate c2 ttl d2 token = (if ac_now c2 < ac_time c + ttl
        then (slide c2 ttl d2 s2, Inr (u, s2)) else (d2, Inl (Sentinel ErrInvalidSession)))"
      using authenticate_unused [OF ok s(1,3,5) assms(3) a, of ttl] s(2,4) by auto
    have "\<exists>s3 \<in> set (au_sessions (slide c2 ttl d2 s2)). ss_ID s3 = ss_ID s
              \<and> ss_ExpiresAt s3 = (if ac_time c + ttl - ac_time c2 < ttl - refreshThreshold then ac_time c2 + ttl else ac_time c + ttl)"
      using s2(1,2,4) a(5) tbl_update_hit [OF s2(1), of "\<lambda>x. ss_ID x = ss_ID s" "\<lambda>x. x\<lparr>ss_ExpiresAt := ac_time c2 + ttl\<rparr>"]
      by (intro bexI [of _ "if ac_time c + ttl - ac_time c2 < ttl - refreshThreshold
          then s2\<lparr>ss_ExpiresAt := ac_time c2 + ttl\<rparr> else s2"]) (simp_all add: slide_def TouchSession_def)
    with auth s2(3) show ?thesis by (simp add: accepted_def)
  qed
  with s show ?thesis by blast
qed

theorem session_lifetime_witness:
  "\<exists>d1. session_Create ex_ac 100 ex_auth (ex_uid 1) = (d1, Inr ''AQID'')
    \<and> accepted (ex_ac\<lparr>ac_now := 199\<rparr>) 100 d1 ''AQID'' (ex_uid 1) \<and> \<not> accepted (ex_ac\<lparr>ac_now := 200\<rparr>) 100 d1 ''AQID'' (ex_uid 1)"
proof -
  note tok = ex_token
  obtain d1 where d1: "session_Create ex_ac 100 ex_auth (ex_uid 1) = (d1, Inr ''AQID'')"
    using session_Create_ok [OF _ tok, of ex_auth "ex_uid 1" 100]
    by (auto simp: hashToken_def ex_auth_defs find_user_def)
  have "accepted (ex_ac\<lparr>ac_now := t\<rparr>) 100 d1 ''AQID'' (ex_uid 1) = (t < 200)" for t
    using session_lifetime [OF ex_auth_ok d1] ar_none [of d1]
    by (auto simp: ex_ac_def dest!: spec [of _ "[]"] spec [of _ d1] spec [of _ "ex_ac\<lparr>ac_now := t\<rparr>"])
  with d1 show ?thesis by simp
qed

section \<open>Identities\<close>

text \<open>Where the user of an identity comes from: an account that has it, the account linked, or none.\<close>

definition linkable :: "user_info \<Rightarrow> user_row \<Rightarrow> bool" where
  "linkable info v = (us_Email v = ui_Email info \<and> us_OidcSubject v = None)"

definition origin :: "auth_db \<Rightarrow> string \<Rightarrow> user_info \<Rightarrow> pg_uuid \<Rightarrow> bool" where
  "origin d iss info i =
     (if list_ex (same_identity iss (ui_Subject info)) (au_users d)
      then \<exists>v \<in> set (au_users d). us_ID v = i \<and> same_identity iss (ui_Subject info) v
      else (ui_EmailVerified info \<and> ui_Email info \<noteq> [] \<and> map us_ID (filter (linkable info) (au_users d)) = [i])
        \<or> i \<notin> us_ID ` set (au_users d))"

definition resolved :: "auth_db \<Rightarrow> auth_db \<Rightarrow> string \<Rightarrow> user_info \<Rightarrow> user_row \<Rightarrow> bool" where
  "resolved d d' iss info u = (same_identity iss (ui_Subject info) u \<and> us_IsAdmin u = HasRole info RoleKeyAdmin
     \<and> origin d iss info (us_ID u)
     \<and> (\<exists>v \<in> set (au_users d'). us_ID v = us_ID u \<and> same_identity iss (ui_Subject info) v)
     \<and> (\<forall>v. us_ID v \<noteq> us_ID u \<longrightarrow> (v \<in> set (au_users d') \<longleftrightarrow> v \<in> set (au_users d)))
     \<and> au_sessions d' = au_sessions d \<and> au_pats d' = au_pats d)"

lemma update_user_row:
  assumes "auth_ok d" "update_user d p f = Inr (d', u')" "\<And>u. us_ID (f u) = us_ID u"
    and "\<And>u v. u \<in> set (au_users d) \<Longrightarrow> v \<in> set (au_users d) \<Longrightarrow> p u \<Longrightarrow> p v \<Longrightarrow> us_ID u = us_ID v"
  shows "\<exists>u \<in> set (au_users d). p u \<and> u' = f u \<and> u' \<in> set (au_users d') \<and> au_sessions d' = au_sessions d \<and> au_pats d' = au_pats d
    \<and> (\<forall>v. us_ID v \<noteq> us_ID u \<longrightarrow> (v \<in> set (au_users d') \<longleftrightarrow> v \<in> set (au_users d)))"
proof -
  obtain u where u: "find p (au_users d) = Some u" "u' = f u" "d' = d\<lparr>au_users := tbl_update p f (au_users d)\<rparr>"
    using update_user_InrD [OF assms(2)] by blast
  have m: "u \<in> set (au_users d)" "p u" using find_InD [OF u(1)] by simp_all
  have fr: "(v \<in> set (au_users d')) = (v \<in> set (au_users d))" if "us_ID v \<noteq> us_ID u" for v
  proof
    assume "v \<in> set (au_users d')"
    then obtain w where w: "w \<in> set (au_users d)" "v = (if p w then f w else w)" using u(3) by (auto simp: set_tbl_update)
    have "\<not> p w"
    proof
      assume "p w"
      then have "us_ID v = us_ID u" using w(2) assms(3) assms(4) [OF w(1) m(1) _ m(2)] by simp
      with that show False by contradiction
    qed
    with w show "v \<in> set (au_users d)" by simp
  next
    assume v: "v \<in> set (au_users d)"
    have "\<not> p v" using assms(4) [OF v m(1) _ m(2)] that by blast
    with v show "v \<in> set (au_users d')" using u(3) by (auto simp: set_tbl_update image_iff)
  qed
  have "f u \<in> set (au_users d')" using tbl_update_hit [OF m(1), of p f] m(2) u(3) by simp
  with u(2,3) m fr show ?thesis by (intro bexI [of _ u]) simp_all
qed

lemma known_resolved:
  assumes "auth_ok d" "GetUserByOIDC c d iss (ui_Subject info) = Inr user" "refresh_user c d iss info user = (d', u)"
  shows "resolved d d' iss info u"
proof -
  let ?p = "same_identity iss (ui_Subject info)"
  have fu: "find ?p (au_users d) = Some user"
    using assms(2) by (auto simp: GetUserByOIDC_def row_of_def run_stmt_def split: option.splits)
  have k: "user \<in> set (au_users d)" "?p user" using find_InD [OF fu] by simp_all
  then have ex: "list_ex ?p (au_users d)" by (auto simp: list_ex_iff)
  have inj: "us_ID v = us_ID w" if "v \<in> set (au_users d)" "w \<in> set (au_users d)" "?p v" "?p w" for v w
    using uniq_byD [of identity_of "au_users d" v w "(iss, ui_Subject info)"] assms(1) that
    by (simp only: auth_ok_def identity_of_same)
  show ?thesis
  proof (cases "UpdateOIDCUserProfile c d iss (ui_Subject info) (ui_Login info) (ui_Email info) (ui_Picture info) (HasRole info RoleKeyAdmin)")
    case (Inl e)
    with assms(3) k ex show ?thesis
      by (auto simp: refresh_user_def resolved_def origin_def same_identity_def)
  next
    case (Inr x)
    with assms(3) have "UpdateOIDCUserProfile c d iss (ui_Subject info) (ui_Login info) (ui_Email info) (ui_Picture info) (HasRole info RoleKeyAdmin) = Inr (d', u)"
      by (cases x) (simp add: refresh_user_def)
    then have "update_user d ?p (\<lambda>u. u\<lparr>us_Login := ui_Login info, us_Email := ui_Email info, us_AvatarUrl := ui_Picture info,
        us_IsAdmin := HasRole info RoleKeyAdmin\<rparr>) = Inr (d', u)"
      by (auto simp: UpdateOIDCUserProfile_def dest!: run_stmt_InrD)
    from update_user_row [OF assms(1) this _ inj] ex show ?thesis
      by (force simp: resolved_def origin_def same_identity_def)
  qed
qed

lemma created_resolved:
  assumes "auth_ok d" "\<not> list_ex (same_identity iss (ui_Subject info)) (au_users d)" "create_user c d iss info = (d', Inr u)"
  shows "resolved d d' iss info u"
  using assms(2,3)
  by (auto simp: create_user_def CreateOIDCUser_def resolved_def origin_def same_identity_def Let_def new_user_def
      split: sum.splits prod.splits if_splits dest!: run_stmt_InrD)

lemma linked_resolved:
  assumes "auth_ok d" "\<not> list_ex (same_identity iss (ui_Subject info)) (au_users d)"
    and "ui_EmailVerified info" "ui_Email info \<noteq> []" "filter (linkable info) (au_users d) = [v]"
    and "LinkUserOIDC c d (us_ID v) iss (ui_Subject info) (HasRole info RoleKeyAdmin) = Inr (d', u)"
  shows "resolved d d' iss info u"
proof -
  let ?p = "\<lambda>u. us_ID u = us_ID v \<and> us_OidcSubject u = None"
  have "update_user d ?p (\<lambda>u. u\<lparr>us_OidcIssuer := Some iss, us_OidcSubject := Some (ui_Subject info),
      us_IsAdmin := HasRole info RoleKeyAdmin\<rparr>) = Inr (d', u)"
    using assms(6) by (auto simp: LinkUserOIDC_def dest!: run_stmt_InrD split: if_splits)
  from update_user_row [OF assms(1) this] assms(2-5) show ?thesis
    by (force simp: resolved_def origin_def same_identity_def)
qed

lemma resolve_identity_resolved:
  assumes "auth_ok d" "resolve_identity c d iss info = (d', r)"
  shows "(\<exists>code. r = Inl code \<and> d' = d) \<or> (\<exists>u. r = Inr u \<and> resolved d d' iss info u)"
proof (cases "GetUserByOIDC c d iss (ui_Subject info)")
  case (Inr user)
  then show ?thesis using assms known_resolved [OF assms(1) Inr]
    by (auto simp: resolve_identity_def split: prod.splits)
next
  case (Inl e)
  have f: "(\<exists>code. r = Inl code \<and> d' = d) \<or> (\<exists>u. r = Inr u \<and> resolved d d' iss info u)"
    if no: "\<not> list_ex (same_identity iss (ui_Subject info)) (au_users d)" and first: "first_login c d iss info = (d', r)"
  proof -
    have cr: ?thesis if "create_user c d iss info = (d', r)"
      using that created_resolved [OF assms(1) no, of c d'] by (auto simp: create_user_def split: sum.splits prod.splits)
    have li: "linkable info = (\<lambda>u. us_Email u = ui_Email info \<and> us_OidcSubject u = None)" by (auto simp: linkable_def)
    show ?thesis
    proof (cases "ui_EmailVerified info \<and> ui_Email info \<noteq> []")
      case True
      show ?thesis
      proof (cases "filter (linkable info) (au_users d)")
        case (Cons v vs)
        then show ?thesis using first True linked_resolved [OF assms(1) no, of v c d']
          by (cases vs) (auto simp: first_login_def ListLinkableUsersByEmail_def run_stmt_def li split: option.splits sum.splits prod.splits)
      qed (use first True cr in \<open>auto simp: first_login_def ListLinkableUsersByEmail_def run_stmt_def li split: option.splits\<close>)
    qed (use first cr in \<open>auto simp: first_login_def\<close>)
  qed
  show ?thesis
  proof (cases "errors_Is e ErrNoRows")
    case True
    with Inl have "find (same_identity iss (ui_Subject info)) (au_users d) = None"
      by (auto simp: GetUserByOIDC_def row_of_def run_stmt_def split: option.splits)
    then have "\<not> list_ex (same_identity iss (ui_Subject info)) (au_users d)" by (auto simp: list_ex_iff find_None_iff)
    with f assms(2) Inl True show ?thesis by (simp add: resolve_identity_def)
  qed (use assms(2) Inl in \<open>auto simp: resolve_identity_def\<close>)
qed

text \<open>
  C37. An account is only ever reached by its own identity. Resolving the claims the provider
  vouches for either fails and changes nothing, or answers the user that has this identity; when
  no account had it, that user is the one unlinked account with the verified email address, if
  there is exactly one, or a new account. Every other account stays as it was, so do the sessions
  and tokens of all, the user is an administrator exactly when the claims grant the role, and the
  tables stay well formed.
\<close>

theorem identity_linking:
  assumes "auth_ok d" "resolve_identity c d iss info = (d', r)"
  shows "auth_ok d' \<and> (case r of Inl _ \<Rightarrow> d' = d | Inr u \<Rightarrow>
      same_identity iss (ui_Subject info) u \<and> us_IsAdmin u = HasRole info RoleKeyAdmin
      \<and> origin d iss info (us_ID u)
      \<and> (\<exists>v \<in> set (au_users d'). us_ID v = us_ID u \<and> same_identity iss (ui_Subject info) v)
      \<and> (\<forall>v. us_ID v \<noteq> us_ID u \<longrightarrow> (v \<in> set (au_users d') \<longleftrightarrow> v \<in> set (au_users d)))
      \<and> au_sessions d' = au_sessions d \<and> au_pats d' = au_pats d)"
  using db_steps_ok [OF resolve_identity_steps [OF assms(2)] assms(1)] resolve_identity_resolved [OF assms]
  by (auto simp: resolved_def)

definition ex_info :: user_info where
  "ex_info = \<lparr>ui_Subject = ''sub'', ui_Name = ''A'', ui_PreferredUsername = [], ui_Email = ''a@b'', ui_EmailVerified = True,
     ui_Picture = [], ui_Roles = Map.empty\<rparr>"

theorem identity_linking_witness:
  "\<exists>d' u. resolve_identity ex_ac ex_auth ''iss'' ex_info = (d', Inr u) \<and> us_ID u = ex_uid 1
    \<and> origin ex_auth ''iss'' ex_info (ex_uid 1) \<and> \<not> us_IsAdmin u"
proof -
  obtain d' u where r: "resolve_identity ex_ac ex_auth ''iss'' ex_info = (d', Inr u)" and i: "us_ID u = ex_uid 1"
    by (simp add: resolve_identity_def GetUserByOIDC_def row_of_def same_identity_def first_login_def ListLinkableUsersByEmail_def
        LinkUserOIDC_def update_user_def run_stmt_def ex_auth_defs ex_info_def)
  from identity_linking [OF ex_auth_ok r] i have "origin ex_auth ''iss'' ex_info (ex_uid 1)" "us_IsAdmin u = HasRole ex_info RoleKeyAdmin"
    by simp_all
  with r i show ?thesis by (auto simp: HasRole_def ex_info_def)
qed

section \<open>Login\<close>

text \<open>Targets on the same origin: an absolute path that no browser reads as another host, on one line.\<close>

definition same_origin :: "string \<Rightarrow> bool" where
  "same_origin t = (take 1 t = ''/'' \<and> take 2 t \<noteq> ''//'' \<and> take 2 t \<noteq> [CHR ''/'', CHR 0x5C]
     \<and> CHR 0x0D \<notin> set t \<and> CHR 0x0A \<notin> set t)"

lemma sanitizeNext_safe: "same_origin (sanitizeNext t)"
  by (auto simp: sanitizeNext_def same_origin_def)

lemma open_session_row:
  assumes "auth_ok (ah_db h)" "open_session cfg c h user info = (h', r)"
  shows "(\<exists>e. r = Inl e \<and> ah_db h' = ah_db h)
    \<or> (\<exists>token s. r = Inr token \<and> au_sessions (ah_db h') = au_sessions (ah_db h) @ [s] \<and> ss_UserID s = us_ID user
        \<and> session_Create c (hc_ttl cfg) (ah_db h) (us_ID user) = (ah_db h', Inr token)
        \<and> ss_TokenHash s = hashToken c token \<and> ss_ExpiresAt s = ac_time c + hc_ttl cfg)"
proof (cases "session_Create c (hc_ttl cfg) (ah_db h) (us_ID user)")
  case (Pair d' q)
  show ?thesis
  proof (cases q)
    case (Inl e)
    then have "d' = ah_db h" using Pair by (auto simp: session_Create_def split: sum.splits prod.splits)
    with Pair Inl assms(2) show ?thesis by (auto simp: open_session_def)
  next
    case (Inr token)
    with Pair have c: "session_Create c (hc_ttl cfg) (ah_db h) (us_ID user) = (d', Inr token)" by simp
    with assms(2) have "r = Inr token" "ah_db h' = d'" by (auto simp: open_session_def)
    with session_Create_row [OF c] c show ?thesis by auto
  qed
qed

text \<open>What a login that reaches its end has done: the user of the vouched identity has a new session.\<close>

definition logged_in :: "auth_config \<Rightarrow> authctx \<Rightarrow> oidcctx \<Rightarrow> auth_db \<Rightarrow> auth_db \<Rightarrow> string \<Rightarrow> bool" where
  "logged_in cfg c o' d d' token = (\<exists>cl access iss info u s d1. snd (GetUserInfo o' cl access) = Inr info
     \<and> resolved d d1 iss info u \<and> session_Create c (hc_ttl cfg) d1 (us_ID u) = (d', Inr token)
     \<and> au_sessions d' = au_sessions d @ [s] \<and> ss_UserID s = us_ID u \<and> ss_TokenHash s = hashToken c token)"

lemma resolveOIDCUser_resolved:
  assumes "auth_ok (ah_db h)" "resolveOIDCUser c o' h info = (h', r)"
  shows "(\<exists>code. r = Inl code \<and> ah_db h' = ah_db h) \<or> (\<exists>u iss. r = Inr u \<and> resolved (ah_db h) (ah_db h') iss info u)"
proof -
  obtain cl q where i: "Issuer o' (ah_oidc h) = (cl, q)" by fastforce
  show ?thesis
  proof (cases q)
    case (Inr iss)
    obtain d' t where r: "resolve_identity c (ah_db h) iss info = (d', t)" by fastforce
    have "h' = h\<lparr>ah_oidc := cl, ah_db := d'\<rparr>" "t = r" using assms(2) i Inr r by (simp_all add: resolveOIDCUser_def)
    with resolve_identity_resolved [OF assms(1) r] show ?thesis by auto
  qed (use assms(2) i in \<open>auto simp: resolveOIDCUser_def\<close>)
qed

lemma complete_login_outcome:
  assumes "auth_ok (ah_db h)" "complete_login cfg c o' h code v = (h', r)"
  shows "(\<exists>e. r = Inl e \<and> au_sessions (ah_db h') = au_sessions (ah_db h))
    \<or> (\<exists>token. r = Inr token \<and> logged_in cfg c o' (ah_db h) (ah_db h') token)"
proof -
  obtain cl q where x: "oidc_Exchange o' (ah_oidc h) code (oidcCallbackURL cfg) v = (cl, q)" by fastforce
  show ?thesis
  proof (cases q)
    case (Inr tok)
    obtain cl' i where g: "GetUserInfo o' cl (ot_AccessToken tok) = (cl', i)" by fastforce
    show ?thesis
    proof (cases i)
      case i: (Inr info)
      obtain h1 u where u: "resolveOIDCUser c o' (h\<lparr>ah_oidc := cl'\<rparr>) info = (h1, u)" by fastforce
      have ok1: "auth_ok (ah_db (h\<lparr>ah_oidc := cl'\<rparr>))" using assms(1) by simp
      note res = resolveOIDCUser_resolved [OF ok1 u]
      have h1: "auth_ok (ah_db h1)" using db_steps_ok [OF resolveOIDCUser_steps [OF u]] assms(1) by simp
      show ?thesis
      proof (cases u)
        case u': (Inr user)
        then obtain iss where r1: "resolved (ah_db h) (ah_db h1) iss info user" using res by auto
        obtain h2 t where t: "open_session cfg c h1 user info = (h2, t)" by fastforce
        have e: "(h', r) = (h2, case t of Inl _ \<Rightarrow> Inl ''internal'' | Inr token \<Rightarrow> Inr token)"
          using assms(2) x Inr g i u u' t by (auto simp: complete_login_def split: sum.splits)
        have same: "au_sessions (ah_db h1) = au_sessions (ah_db h)" using r1 by (simp add: resolved_def)
        show ?thesis
        proof (cases t)
          case (Inl _)
          with open_session_row [OF h1 t] e same show ?thesis by simp
        next
          case (Inr token)
          with open_session_row [OF h1 t] obtain s where s: "au_sessions (ah_db h2) = au_sessions (ah_db h1) @ [s]"
            "ss_UserID s = us_ID user" "session_Create c (hc_ttl cfg) (ah_db h1) (us_ID user) = (ah_db h2, Inr token)"
            "ss_TokenHash s = hashToken c token" by auto
          have "snd (GetUserInfo o' cl (ot_AccessToken tok)) = Inr info" using g i by simp
          with r1 s same have "logged_in cfg c o' (ah_db h) (ah_db h2) token" unfolding logged_in_def by metis
          with Inr e show ?thesis by simp
        qed
      qed (use assms(2) x Inr g i u res in \<open>auto simp: complete_login_def\<close>)
    qed (use assms(2) x Inr g in \<open>auto simp: complete_login_def\<close>)
  qed (use assms(2) x in \<open>auto simp: complete_login_def\<close>)
qed

lemma Callback_outcome:
  assumes "Callback cfg c o' h r = (h', a)"
  shows "(h' = h \<and> SessionCookieName \<notin> ck_Name ` set (as_cookies a))
    \<or> (br_query r ''state'' = cookie_value r oidcStateCookieName
       \<and> validateState (hc_hmac cfg) c (hc_StateKey cfg) (br_query r ''state'') = None
       \<and> (\<exists>q. complete_login cfg c o' h (br_query r ''code'') (cookie_value r pkceCookieName) = (h', q)
           \<and> (case q of Inl _ \<Rightarrow> SessionCookieName \<notin> ck_Name ` set (as_cookies a)
               | Inr token \<Rightarrow> sessionCookie cfg c token \<in> set (as_cookies a) \<and> (\<exists>t. as_body a = RedirectTo t \<and> same_origin t))))"
proof -
  have nc: "SessionCookieName \<notin> ck_Name ` set (map (\<lambda>n. clear_cookie cfg n ''/api/auth'') [oidcStateCookieName, pkceCookieName, nextCookieName])"
    by (auto simp: clear_cookie_def cookie_names)
  have t: "same_origin (case br_cookie r nextCookieName of None \<Rightarrow> ''/'' | Some v \<Rightarrow> sanitizeNext v)"
    using sanitizeNext_safe by (auto simp: same_origin_def split: option.splits)
  show ?thesis
    using assms nc t
    by (auto simp: Callback_def Let_def redirectLoginError_def Redirect_def split: if_splits prod.splits sum.splits)
qed

definition ex_oidc :: oidcctx where
  "ex_oidc = \<lparr>oc_discovery = (\<lambda>_. Reply 200 (Some \<lparr>dc_Issuer = ''iss'', dc_AuthorizationEndpoint = ''a'', dc_TokenEndpoint = ''t'',
       dc_UserinfoEndpoint = ''u''\<rparr>)),
     oc_token = (\<lambda>_ _. Reply 200 (Some (Some \<lparr>ot_AccessToken = ''at'', ot_TokenType = [], ot_ExpiresIn = 0, ot_IDToken = []\<rparr>, None))),
     oc_userinfo = (\<lambda>_ _. Reply 200 (Some ex_info))\<rparr>"

definition ex_cfg :: auth_config where
  "ex_cfg = \<lparr>hc_BaseURL = ''http://h'', hc_StateKey = [1], hc_CookieSecure = True, hc_SessionTTL = 100, hc_ttl = 100,
     hc_revoker = True, hc_hmac = (\<lambda>_ _. [])\<rparr>"

definition ex_ah :: auth_handler where
  "ex_ah = \<lparr>ah_db = ex_auth, ah_oidc = NewOidcClient ''iss'' ''c'', ah_cache = [], ah_audit = []\<rparr>"

definition ex_br :: browser_request where
  "ex_br = \<lparr>br_query = (\<lambda>k. if k = ''state'' then ''n.999.'' else if k = ''code'' then ''c'' else []),
     br_cookie = [oidcStateCookieName \<mapsto> ''n.999.'', pkceCookieName \<mapsto> ''v'']\<rparr>"

lemma ex_callback: "\<exists>h' a. Callback ex_cfg ex_ac ex_oidc ex_ah ex_br = (h', a) \<and> SessionCookieName \<in> ck_Name ` set (as_cookies a)"
proof -
  have v: "validateState (hc_hmac ex_cfg) ex_ac (hc_StateKey ex_cfg) ''n.999.'' = None"
    by (simp add: validateState_def ex_cfg_def ex_ac_def sign_def rawurl_encode_def Atoi_def atoi_digits_def is_digit_def digits_val_def
        digit_val_def Unix_def)
  have e: "oidc_Exchange ex_oidc (NewOidcClient ''iss'' ''c'') ''c'' (oidcCallbackURL ex_cfg) ''v''
      = ((NewOidcClient ''iss'' ''c'')\<lparr>cl_disc := Some \<lparr>dc_Issuer = ''iss'', dc_AuthorizationEndpoint = ''a'', dc_TokenEndpoint = ''t'',
       dc_UserinfoEndpoint = ''u''\<rparr>\<rparr>, Inr \<lparr>ot_AccessToken = ''at'', ot_TokenType = [], ot_ExpiresIn = 0, ot_IDToken = []\<rparr>)"
    by (simp add: oidc_Exchange_def discover_def ex_oidc_def NewOidcClient_def Let_def)
  obtain d' u where r: "resolve_identity ex_ac ex_auth ''iss'' ex_info = (d', Inr u)" "us_ID u = ex_uid 1"
      "au_users d' = [u]" "au_sessions d' = [ex_session]"
    by (simp add: resolve_identity_def GetUserByOIDC_def row_of_def same_identity_def first_login_def ListLinkableUsersByEmail_def
        LinkUserOIDC_def update_user_def run_stmt_def ex_auth_defs ex_info_def)
  have u: "resolveOIDCUser ex_ac ex_oidc (ex_ah\<lparr>ah_oidc := cl\<rparr>) ex_info = (ex_ah\<lparr>ah_oidc := cl, ah_db := d'\<rparr>, Inr u)"
    if "discover ex_oidc cl = (cl, Inr x)" "dc_Issuer x = ''iss''" for cl x
    using that r(1) by (simp add: resolveOIDCUser_def Issuer_def ex_ah_def)
  obtain d2 where d2: "session_Create ex_ac 100 d' (us_ID u) = (d2, Inr ''AQID'')"
    using session_Create_ok [OF _ ex_token, of d' "us_ID u" 100] r(3,4)
    by (auto simp: hashToken_def ex_ac_def ex_session_def find_user_def)
  let ?x = "\<lparr>dc_Issuer = ''iss'', dc_AuthorizationEndpoint = ''a'', dc_TokenEndpoint = ''t'', dc_UserinfoEndpoint = ''u''\<rparr>"
  let ?cl = "(NewOidcClient ''iss'' ''c'')\<lparr>cl_disc := Some ?x\<rparr>"
  have g: "GetUserInfo ex_oidc ?cl ''at'' = (?cl, Inr ex_info)"
    by (simp add: GetUserInfo_def discover_def ex_oidc_def) (simp add: ex_info_def)
  have u': "resolveOIDCUser ex_ac ex_oidc (ex_ah\<lparr>ah_oidc := ?cl\<rparr>) ex_info = (ex_ah\<lparr>ah_oidc := ?cl, ah_db := d'\<rparr>, Inr u)"
    by (rule u [of _ ?x]) (simp_all add: discover_def)
  have o: "\<exists>h'. open_session ex_cfg ex_ac (ex_ah\<lparr>ah_oidc := ?cl, ah_db := d'\<rparr>) u ex_info = (h', Inr ''AQID'')"
    using d2 by (simp add: open_session_def ex_cfg_def)
  have "ah_oidc ex_ah = NewOidcClient ''iss'' ''c''" by (simp add: ex_ah_def)
  with e g u' o have "\<exists>h'. complete_login ex_cfg ex_ac ex_oidc ex_ah ''c'' ''v'' = (h', Inr ''AQID'')"
    by (auto simp: complete_login_def)
  then show ?thesis using v
    by (auto simp: Callback_def ex_br_def cookie_value_def cookie_names Redirect_def sessionCookie_def Let_def)
qed


section \<open>Protected routes\<close>

text \<open>
  What the middleware accepts: an access token that is stored, unexpired and unrevoked; a token of
  the provider, vouched for now or within the cache's minute; or the cookie of a live session.
\<close>

definition credential :: "serverctx \<Rightarrow> api_request \<Rightarrow> auth_handler \<Rightarrow> user_row \<Rightarrow> bool" where
  "credential x r h u =
     (let c = sx_auth x; b = bearerToken r
      in if b \<noteq> [] then
           (if LooksLikePAT b then \<exists>p \<in> set (au_pats (ah_db h)). pt_TokenHash p = hashToken c b \<and> pat_live c p
                \<and> find_user (ah_db h) (pt_UserID p) = Some u
            else (\<exists>e. (ac_sha256 c b, e) \<in> set (ah_cache h) \<and> be_user e = u \<and> ac_time c \<le> be_expiresAt e)
              \<or> (\<exists>cl iss info. snd (GetUserInfo (sx_oidc x) cl b) = Inr info \<and> same_identity iss (ui_Subject info) u
                    \<and> us_IsAdmin u = HasRole info RoleKeyAdmin))
         else \<exists>cookie s. aq_SessionCookie r = Some cookie \<and> cookie \<noteq> [] \<and> s \<in> set (au_sessions (ah_db h))
           \<and> ss_TokenHash s = hashToken c cookie \<and> session_live c s \<and> find_user (ah_db h) (ss_UserID s) = Some u)"

lemma pat_Authenticate_live:
  assumes "pat_Authenticate c d b = (d', Inr (u, p))"
  shows "p \<in> set (au_pats d) \<and> pt_TokenHash p = hashToken c b \<and> pat_live c p \<and> find_user d (pt_UserID p) = Some u"
  using assms
  by (auto simp: pat_Authenticate_def GetPATByTokenHash_def split: if_splits sum.splits dest!: run_stmt_InrD join_user_InrD find_InD)

lemma session_Authenticate_live:
  assumes "session_Authenticate c ttl d t = (d', Inr (u, s))"
  shows "t \<noteq> [] \<and> s \<in> set (au_sessions d) \<and> ss_TokenHash s = hashToken c t \<and> session_live c s \<and> find_user d (ss_UserID s) = Some u"
  using assms
  by (auto simp: session_Authenticate_def GetSessionByTokenHash_def split: if_splits sum.splits dest!: run_stmt_InrD join_user_InrD find_InD)

lemma AuthenticateBearer_vouched:
  assumes "auth_ok (ah_db h)" "AuthenticateBearer c o' h b = (h', Inr u)"
  shows "(\<exists>e. (ac_sha256 c b, e) \<in> set (ah_cache h) \<and> be_user e = u \<and> ac_time c \<le> be_expiresAt e)
    \<or> (\<exists>cl iss info. snd (GetUserInfo o' cl b) = Inr info \<and> same_identity iss (ui_Subject info) u
          \<and> us_IsAdmin u = HasRole info RoleKeyAdmin)"
proof -
  have b: "b \<noteq> []" using assms(2) by (auto simp: AuthenticateBearer_def)
  obtain cache q where g: "cache_get c (ah_cache h) (ac_sha256 c b) = (cache, q)" by fastforce
  show ?thesis
  proof (cases q)
    case (Some v)
    with assms(2) b g have "v = u" by (simp add: AuthenticateBearer_def)
    with cache_get_fresh [of c "ah_cache h"] g Some show ?thesis by (metis map_of_SomeD)
  next
    case None
    obtain cl i where i: "GetUserInfo o' (ah_oidc h) b = (cl, i)" by fastforce
    then obtain info where inf: "i = Inr info" using assms(2) b g None by (cases i) (auto simp: AuthenticateBearer_def)
    obtain h1 w where w: "resolveOIDCUser c o' (h\<lparr>ah_cache := cache, ah_oidc := cl\<rparr>) info = (h1, w)" by fastforce
    then have "w = Inr u" using assms(2) b g None i inf by (cases w) (auto simp: AuthenticateBearer_def)
    with resolveOIDCUser_resolved [OF _ w] assms(1) obtain iss where "same_identity iss (ui_Subject info) u"
      "us_IsAdmin u = HasRole info RoleKeyAdmin" by (auto simp: resolved_def)
    moreover have "snd (GetUserInfo o' (ah_oidc h) b) = Inr info" using i inf by simp
    ultimately show ?thesis by blast
  qed
qed

lemma requireAuth_decides:
  fixes x :: serverctx and r :: api_request and h :: auth_handler
  assumes "auth_ok (ah_db h)"
  shows "(\<exists>g. \<forall>n :: 'r handler. requireAuth x r n h = (g, Refused 401 ''unauthorized''))
    \<or> (\<exists>g. \<forall>n :: 'r handler. requireAuth x r n h = (g, Refused 429 ''rate_limited''))
    \<or> (\<exists>ctx u g. credential x r h u \<and> rc_User ctx = Some u \<and> (rc_TokenAuth ctx \<longleftrightarrow> bearerToken r \<noteq> [])
        \<and> db_steps (ah_db h) (ah_db g) \<and> (\<forall>n :: 'r handler. requireAuth x r n h = n ctx g))"
proof (cases "bearerToken r = []")
  case True
  show ?thesis
  proof (cases "aq_SessionCookie r")
    case (Some cookie)
    obtain d' q where a: "session_Authenticate (sx_auth x) (hc_ttl (sx_cfg x)) (ah_db h) cookie = (d', q)" by fastforce
    show ?thesis
    proof (cases q)
      case (Inr us)
      obtain u s where us: "us = (u, s)" by fastforce
      have l: "session_Authenticate (sx_auth x) (hc_ttl (sx_cfg x)) (ah_db h) cookie = (d', Inr (u, s))" using a Inr us by simp
      have "credential x r h u" using session_Authenticate_live [OF l] True Some unfolding credential_def Let_def by auto
      moreover have "requireAuth x r n h = n \<lparr>rc_User = Some u, rc_SessionID = Some (SessionIDString (ss_ID s)), rc_TokenAuth = False\<rparr>
          (h\<lparr>ah_db := d'\<rparr>)" for n :: "'r handler"
        using True Some l session_Authenticate_live [OF l] by (simp add: requireAuth_def)
      moreover have "db_steps (ah_db h) (ah_db (h\<lparr>ah_db := d'\<rparr>))" using session_Authenticate_steps [OF l] by simp
      ultimately show ?thesis using True
        by (intro disjI2 exI [of _ "\<lparr>rc_User = Some u, rc_SessionID = Some (SessionIDString (ss_ID s)), rc_TokenAuth = False\<rparr>"]
            exI [of _ u] exI [of _ "h\<lparr>ah_db := d'\<rparr>"]) simp
    next
      case (Inl e)
      have "requireAuth x r n h = (if cookie = [] then h else h\<lparr>ah_db := d'\<rparr>, Refused 401 ''unauthorized'')" for n :: "'r handler"
        using True Some a Inl by (simp add: requireAuth_def)
      then show ?thesis by blast
    qed
  qed (use True in \<open>auto simp: requireAuth_def\<close>)
next
  case False
  obtain h' q where a: "authenticateBearer x h (bearerToken r) = (h', q)" by fastforce
  show ?thesis
  proof (cases "sx_allow x (clientIP x r)")
    case allow: True
    show ?thesis
    proof (cases q)
      case (Inr u)
      have "credential x r h u"
      proof (cases "LooksLikePAT (bearerToken r)")
        case True
        with a Inr obtain p d' where "pat_Authenticate (sx_auth x) (ah_db h) (bearerToken r) = (d', Inr (u, p))"
          by (auto simp: authenticateBearer_def split: if_splits sum.splits prod.splits)
        from pat_Authenticate_live [OF this] True False show ?thesis unfolding credential_def Let_def by auto
      next
        case no: False
        with a Inr have "AuthenticateBearer (sx_auth x) (sx_oidc x) h (bearerToken r) = (h', Inr u)"
          by (auto simp: authenticateBearer_def split: if_splits)
        from AuthenticateBearer_vouched [OF assms this] no False show ?thesis unfolding credential_def Let_def by simp
      qed
      moreover have "requireAuth x r n h = n \<lparr>rc_User = Some u, rc_SessionID = None, rc_TokenAuth = True\<rparr> h'" for n :: "'r handler"
        using False allow a Inr by (simp add: requireAuth_def)
      ultimately show ?thesis using authenticateBearer_steps [OF a] False
        by (intro disjI2 exI [of _ "\<lparr>rc_User = Some u, rc_SessionID = None, rc_TokenAuth = True\<rparr>"] exI [of _ u] exI [of _ h']) simp
    qed (use False allow a in \<open>auto simp: requireAuth_def\<close>)
  qed (use False in \<open>auto simp: requireAuth_def\<close>)
qed

text \<open>
  C20. Protected routes serve only who may use them. Behind \<open>requireAdmin\<close> a handler runs with a
  user who is an administrator and whose credential is live, or not at all: otherwise the answer is
  401, 429, or 403 for a live credential of somebody else, whatever the handler is. Behind
  \<open>requireAuth\<close> and \<open>csrfHeader\<close> a handler runs for a live credential, and for one that a browser
  sends by itself only with the request header no other origin can set.
\<close>

theorem protected_routes:
  fixes next' :: "'r handler"
  assumes "auth_ok (ah_db h)"
  shows "((\<exists>ctx u g. credential x r h u \<and> us_IsAdmin u \<and> rc_User ctx = Some u \<and> db_steps (ah_db h) (ah_db g)
          \<and> requireAdmin x r next' h = next' ctx g)
      \<or> (\<exists>g. \<forall>n :: 'r handler. requireAdmin x r n h \<in> {(g, Refused 401 ''unauthorized''), (g, Refused 429 ''rate_limited'')})
      \<or> (\<exists>u g. credential x r h u \<and> \<not> us_IsAdmin u \<and> (\<forall>n :: 'r handler. requireAdmin x r n h = (g, Refused 403 ''forbidden''))))
    \<and> ((\<exists>ctx u g. credential x r h u \<and> rc_User ctx = Some u \<and> db_steps (ah_db h) (ah_db g)
          \<and> (bearerToken r \<noteq> [] \<or> aq_RequestedBy r = csrfHeaderValue)
          \<and> requireAuth x r (csrfHeader r next') h = next' ctx g)
      \<or> (\<exists>g. \<forall>n :: 'r handler. requireAuth x r (csrfHeader r n) h \<in>
            {(g, Refused 401 ''unauthorized''), (g, Refused 429 ''rate_limited''), (g, Refused 403 ''csrf_required'')}))"
proof -
  from requireAuth_decides [OF assms, where x = x and r = r and 'r = 'r] show ?thesis
  proof (elim disjE exE conjE)
    fix ctx u g
    assume c: "credential x r h u" "rc_User ctx = Some u" "rc_TokenAuth ctx \<longleftrightarrow> bearerToken r \<noteq> []" "db_steps (ah_db h) (ah_db g)"
      and n: "\<forall>n :: 'r handler. requireAuth x r n h = n ctx g"
    have adm: "requireAdmin x r n h = (if us_IsAdmin u then n ctx g else (g, Refused 403 ''forbidden''))" for n :: "'r handler"
      using n c(2) by (simp add: requireAdmin_def admin_only_def)
    have csrf: "requireAuth x r (csrfHeader r n) h = (if bearerToken r \<noteq> [] \<or> aq_RequestedBy r = csrfHeaderValue
        then n ctx g else (g, Refused 403 ''csrf_required''))" for n :: "'r handler"
      using n c(3) by (simp add: csrfHeader_def)
    have "(\<exists>ctx u g. credential x r h u \<and> us_IsAdmin u \<and> rc_User ctx = Some u \<and> db_steps (ah_db h) (ah_db g)
          \<and> requireAdmin x r next' h = next' ctx g)
      \<or> (\<exists>u g. credential x r h u \<and> \<not> us_IsAdmin u \<and> (\<forall>n :: 'r handler. requireAdmin x r n h = (g, Refused 403 ''forbidden'')))"
      using c(1,2,4) adm by (cases "us_IsAdmin u") (simp_all, blast+)
    moreover have "(\<exists>ctx u g. credential x r h u \<and> rc_User ctx = Some u \<and> db_steps (ah_db h) (ah_db g)
          \<and> (bearerToken r \<noteq> [] \<or> aq_RequestedBy r = csrfHeaderValue) \<and> requireAuth x r (csrfHeader r next') h = next' ctx g)
      \<or> (\<exists>g. \<forall>n :: 'r handler. requireAuth x r (csrfHeader r n) h = (g, Refused 403 ''csrf_required''))"
      using c(1,2,4) csrf by (cases "bearerToken r \<noteq> [] \<or> aq_RequestedBy r = csrfHeaderValue") (simp_all, blast+)
    ultimately show ?thesis by blast
  qed (unfold requireAdmin_def, blast+)
qed

definition ex_sx :: serverctx where
  "ex_sx = \<lparr>sx_cfg = ex_cfg, sx_auth = ex_ac, sx_oidc = ex_oidc, sx_PATs = True, sx_Auth = True, sx_allow = (\<lambda>_. True), sx_split = (\<lambda>_. None)\<rparr>"

definition ex_aq :: api_request where
  "ex_aq = \<lparr>aq_Authorization = [], aq_RequestedBy = [], aq_SessionCookie = Some ''t'', aq_RealIP = [], aq_ForwardedFor = [], aq_RemoteAddr = []\<rparr>"

theorem protected_routes_witness:
  "\<exists>u. credential ex_sx ex_aq ex_ah u \<and> us_IsAdmin u
    \<and> (\<exists>g. requireAuth ex_sx ex_aq (csrfHeader ex_aq (\<lambda>ctx g. (g, Handled ()))) ex_ah = (g, Refused 403 ''csrf_required''))"
proof -
  have ok: "auth_ok (ah_db ex_ah)" by (simp add: ex_ah_def ex_auth_ok)
  obtain d' where sa: "session_Authenticate ex_ac 100 ex_auth ''t'' = (d', Inr (ex_user, ex_session))"
  proof -
    have "ss_TokenHash ex_session = hashToken ex_ac ''t''" "session_live ex_ac ex_session" "find_user ex_auth (ss_UserID ex_session) = Some ex_user"
      by (simp_all add: hashToken_def session_live_def find_user_def ex_auth_defs)
    with lookup_session [OF ex_auth_ok, of ex_session ex_ac] that show ?thesis
      by (auto simp: session_Authenticate_def run_stmt_def ex_auth_def ex_ac_def)
  qed
  define ctx where "ctx = \<lparr>rc_User = Some ex_user, rc_SessionID = Some (SessionIDString (ss_ID ex_session)), rc_TokenAuth = False\<rparr>"
  define g where "g = ex_ah\<lparr>ah_db := d'\<rparr>"
  have "requireAuth ex_sx ex_aq n ex_ah = n ctx g" for n :: "unit handler"
    using sa by (simp add: requireAuth_def bearerToken_def ex_aq_def ex_sx_def ex_cfg_def ctx_def g_def ex_ah_def Let_def)
  then have n: "rc_TokenAuth ctx = False" "rc_User ctx = Some ex_user"
    "\<And>n :: unit handler. requireAuth ex_sx ex_aq n ex_ah = n ctx g" by (simp_all add: ctx_def)
  then have a: "requireAdmin ex_sx ex_aq (\<lambda>ctx g. (g, Handled ())) ex_ah = (g, Handled ())"
    by (simp add: requireAdmin_def admin_only_def ex_user_def)
  have c: "requireAuth ex_sx ex_aq (csrfHeader ex_aq (\<lambda>ctx g. (g, Handled ()))) ex_ah = (g, Refused 403 ''csrf_required'')"
    using n by (simp add: csrfHeader_def ex_aq_def csrfHeaderValue_def)
  from protected_routes [OF ok, where x = ex_sx and r = ex_aq and next' = "\<lambda>ctx g. (g, Handled ())", THEN conjunct1]
  have "\<exists>u. credential ex_sx ex_aq ex_ah u \<and> us_IsAdmin u"
  proof (elim disjE exE conjE)
    fix g' assume "\<forall>n :: unit handler. requireAdmin ex_sx ex_aq n ex_ah \<in> {(g', Refused 401 ''unauthorized''), (g', Refused 429 ''rate_limited'')}"
    from this [THEN spec, of "\<lambda>ctx g. (g, Handled ())"] a show ?thesis by simp
  next
    fix u g' assume "\<forall>n :: unit handler. requireAdmin ex_sx ex_aq n ex_ah = (g', Refused 403 ''forbidden'')"
    from this [THEN spec, of "\<lambda>ctx g. (g, Handled ())"] a show ?thesis by simp
  qed blast
  with c show ?thesis by blast
qed

section \<open>Two consequences\<close>

text \<open>
  The lifetime of a token is a product of 64-bit durations. From 106752 days it wraps to a
  negative number, and the token that is meant to live 292 years never expires.
\<close>

lemma expires_in_wraps:
  "expires_in 106751 = 106751 * 24 * 3600000000000" "expires_in 106752 < 0"
  "pat_Create c d u nm (expires_in 106752) = (d', Inr (t, p)) \<Longrightarrow> pt_ExpiresAt p = None"
proof -
  show e: "expires_in 106752 < 0" by (simp add: expires_in_def int64_def)
  then show "pat_Create c d u nm (expires_in 106752) = (d', Inr (t, p)) \<Longrightarrow> pt_ExpiresAt p = None"
    by (auto simp: pat_Create_def CreatePAT_def Let_def split: sum.splits prod.splits if_splits dest!: run_stmt_InrD)
qed (simp add: expires_in_def int64_def)

text \<open>
  Resolving an identity writes the role of the claims at hand to the user's row, so an access token
  issued without the roles scope takes the administrator flag from the user's browser sessions.
\<close>

lemma role_mirrored:
  assumes "auth_ok d" "ac_fault c = (\<lambda>_. None)" "list_ex (same_identity iss (ui_Subject info)) (au_users d)"
    and "resolve_identity c d iss info = (d', Inr u)"
  shows "u \<in> set (au_users d') \<and> us_IsAdmin u = HasRole info RoleKeyAdmin"
proof -
  let ?p = "same_identity iss (ui_Subject info)"
  obtain user where f: "find ?p (au_users d) = Some user" using assms(3) by (cases "find ?p (au_users d)") (auto simp: list_ex_iff find_None_iff)
  then have "?p user" "user \<in> set (au_users d)" using find_InD [OF f] by simp_all
  with f assms(2,4) show ?thesis
    by (auto simp: resolve_identity_def GetUserByOIDC_def row_of_def refresh_user_def UpdateOIDCUserProfile_def update_user_def
        run_stmt_def set_tbl_update image_iff)
qed

end
