(* ===== verification/Ctl_Conn.thy ===== *)
theory Ctl_Conn
  imports Go_Channel
begin

text \<open>
  One control-channel session, the same code on both sides (\<open>guestagent/internal/ctlchan/conn.go\<close>
  and \<open>controlplane/internal/guestctl/conn.go\<close>): requests multiplexed over one socket, matched to
  replies by id through a map of channels. Each critical section of the mutex is one function on
  the connection; the goroutines of the requests and of the read loop are the events of
  \<open>conn_exec\<close>, so that every interleaving is a list of events. A send on a closed channel or a
  second close panics.
\<close>

section \<open>Frames and critical sections\<close>

datatype control_kind = ControlReq | ControlResp | ControlErr

record 'p control_frame =
  cf_ID :: int
  cf_Kind :: control_kind
  cf_Op :: string
  cf_Payload :: 'p

record 'p ctl_conn =
  cc_nextID :: int
  cc_waiters :: "(int \<times> nat) list"
  cc_closed :: bool
  cc_chans :: "'p control_frame chan_heap"

definition newConn :: "'p ctl_conn" where
  "newConn = \<lparr>cc_nextID = 0, cc_waiters = [], cc_closed = False, cc_chans = []\<rparr>"

text \<open>\<open>request\<close> up to its write: the id and the channel of the reply, or \<open>None\<close> when closed.\<close>

definition register :: "'p ctl_conn \<Rightarrow> ('p ctl_conn \<times> int \<times> nat) option" where
  "register c =
     (if cc_closed c then None
      else let i = cc_nextID c + 1; (h, ch) = make_chan 1 (cc_chans c)
           in Some (c\<lparr>cc_nextID := i, cc_chans := h, cc_waiters := AList.update i ch (cc_waiters c)\<rparr>, i, ch))"

text \<open>The deferred clean-up of \<open>request\<close>.\<close>

definition unregister :: "'p ctl_conn \<Rightarrow> int \<Rightarrow> 'p ctl_conn" where
  "unregister c i = c\<lparr>cc_waiters := AList.delete i (cc_waiters c)\<rparr>"

text \<open>\<open>deliver\<close> up to its send.\<close>

definition take_waiter :: "'p ctl_conn \<Rightarrow> int \<Rightarrow> 'p ctl_conn \<times> nat option" where
  "take_waiter c i = (case map_of (cc_waiters c) i of
       None \<Rightarrow> (c, None)
     | Some ch \<Rightarrow> (c\<lparr>cc_waiters := AList.delete i (cc_waiters c)\<rparr>, Some ch))"

definition notify_id :: "'p ctl_conn \<Rightarrow> 'p ctl_conn \<times> int" where
  "notify_id c = (c\<lparr>cc_nextID := cc_nextID c + 1\<rparr>, cc_nextID c + 1)"

fun close_all :: "nat list \<Rightarrow> 'a chan_heap \<Rightarrow> 'a chan_heap option" where
  "close_all [] h = Some h"
| "close_all (r # rs) h = (case close_chan r h of None \<Rightarrow> None | Some h' \<Rightarrow> close_all rs h')"

definition conn_fail :: "'p ctl_conn \<Rightarrow> 'p ctl_conn option" where
  "conn_fail c =
     (if cc_closed c then Some c
      else map_option (\<lambda>h. c\<lparr>cc_closed := True, cc_waiters := [], cc_chans := h\<rparr>)
             (close_all (map snd (cc_waiters c)) (cc_chans c)))"

section \<open>The goroutines\<close>

text \<open>How a request ends: its write failed, its context ended, the channel closed, or a reply.\<close>

datatype 'p call_result = WriteFailed | CtxDone | ClosedBeforeReply | Reply "'p control_frame"

datatype 'p call_phase = Writing | Waiting | Leaving "'p call_result"

record 'p conn_sys =
  sy_conn :: "'p ctl_conn"
  sy_calls :: "(int \<times> nat \<times> 'p call_phase) list"
  sy_pending :: "(nat \<times> 'p control_frame) option"
  sy_received :: "'p control_frame list"
  sy_results :: "(int \<times> 'p call_result) list"

definition new_sys :: "'p conn_sys" where
  "new_sys = \<lparr>sy_conn = newConn, sy_calls = [], sy_pending = None, sy_received = [], sy_results = []\<rparr>"

text \<open>
  \<open>Start\<close>: \<open>request\<close> enters; \<open>WriteDone\<close>: its \<open>writeFrame\<close> returns; \<open>CtxEnd\<close>, \<open>TakeReply\<close>: the
  cases of its \<open>select\<close>; \<open>Leave\<close>: it returns. \<open>Receive\<close>, \<open>SendReply\<close>: the read loop in \<open>deliver\<close>,
  before and at its send. \<open>Notify\<close>, \<open>Fail\<close>: the methods of these names.
\<close>

datatype 'p conn_event = Start | WriteDone int bool | CtxEnd int | TakeReply int | Leave int
  | Receive "'p control_frame" | SendReply | Notify | Fail

datatype 's outcome = Next 's | Blocked | Panic

definition set_phase :: "int \<Rightarrow> 'p call_phase \<Rightarrow> (int \<times> nat \<times> 'p call_phase) list \<Rightarrow> (int \<times> nat \<times> 'p call_phase) list" where
  "set_phase i ph cs = map (\<lambda>(j, ch, p). (j, ch, if j = i then ph else p)) cs"

text \<open>A blocking send on a buffered channel.\<close>

definition chan_send :: "nat \<Rightarrow> 'a \<Rightarrow> 'a chan_heap \<Rightarrow> 'a chan_heap outcome" where
  "chan_send r v h =
     (if r \<ge> length h \<or> ch_closed (h ! r) then Panic
      else if length (ch_buf (h ! r)) \<ge> ch_cap (h ! r) then Blocked
      else Next (h[r := push v (h ! r)]))"

definition take_reply :: "'p conn_sys \<Rightarrow> int \<Rightarrow> nat \<Rightarrow> 'p conn_sys outcome" where
  "take_reply s i ch =
     (let c = sy_conn s in case recv ch (cc_chans c) of
        (Some f, h) \<Rightarrow> Next (s\<lparr>sy_conn := c\<lparr>cc_chans := h\<rparr>, sy_calls := set_phase i (Leaving (Reply f)) (sy_calls s)\<rparr>)
      | (None, _) \<Rightarrow> (if ch < length (cc_chans c) \<and> ch_closed (cc_chans c ! ch)
          then Next (s\<lparr>sy_calls := set_phase i (Leaving ClosedBeforeReply) (sy_calls s)\<rparr>) else Blocked))"

fun conn_exec :: "'p conn_sys \<Rightarrow> 'p conn_event \<Rightarrow> 'p conn_sys outcome" where
  "conn_exec s Start = (case register (sy_conn s) of
       None \<Rightarrow> Next s
     | Some (c, i, ch) \<Rightarrow> Next (s\<lparr>sy_conn := c, sy_calls := (i, ch, Writing) # sy_calls s\<rparr>))"
| "conn_exec s (WriteDone i ok) = (case map_of (sy_calls s) i of
       Some (_, Writing) \<Rightarrow> Next (s\<lparr>sy_calls := set_phase i (if ok then Waiting else Leaving WriteFailed) (sy_calls s)\<rparr>)
     | _ \<Rightarrow> Blocked)"
| "conn_exec s (CtxEnd i) = (case map_of (sy_calls s) i of
       Some (_, Waiting) \<Rightarrow> Next (s\<lparr>sy_calls := set_phase i (Leaving CtxDone) (sy_calls s)\<rparr>)
     | _ \<Rightarrow> Blocked)"
| "conn_exec s (TakeReply i) = (case map_of (sy_calls s) i of
       Some (ch, Waiting) \<Rightarrow> take_reply s i ch
     | _ \<Rightarrow> Blocked)"
| "conn_exec s (Leave i) = (case map_of (sy_calls s) i of
       Some (_, Leaving r) \<Rightarrow> Next (s\<lparr>sy_conn := unregister (sy_conn s) i, sy_calls := AList.delete i (sy_calls s),
          sy_results := sy_results s @ [(i, r)]\<rparr>)
     | _ \<Rightarrow> Blocked)"
| "conn_exec s (Receive f) =
     (if sy_pending s \<noteq> None \<or> cf_Kind f = ControlReq then Blocked
      else case take_waiter (sy_conn s) (cf_ID f) of
        (c, to) \<Rightarrow> Next (s\<lparr>sy_conn := c, sy_pending := map_option (\<lambda>ch. (ch, f)) to, sy_received := sy_received s @ [f]\<rparr>))"
| "conn_exec s SendReply = (case sy_pending s of
       None \<Rightarrow> Blocked
     | Some (ch, f) \<Rightarrow> (case chan_send ch f (cc_chans (sy_conn s)) of
         Next h \<Rightarrow> Next (s\<lparr>sy_conn := (sy_conn s)\<lparr>cc_chans := h\<rparr>, sy_pending := None\<rparr>)
       | Blocked \<Rightarrow> Blocked
       | Panic \<Rightarrow> Panic))"
| "conn_exec s Notify = Next (s\<lparr>sy_conn := fst (notify_id (sy_conn s))\<rparr>)"
| "conn_exec s Fail = (case conn_fail (sy_conn s) of None \<Rightarrow> Panic | Some c \<Rightarrow> Next (s\<lparr>sy_conn := c\<rparr>))"

inductive conn_reachable :: "'p conn_sys \<Rightarrow> bool" where
  init: "conn_reachable new_sys"
| step: "conn_reachable s \<Longrightarrow> conn_exec s ev = Next s' \<Longrightarrow> conn_reachable s'"

fun conn_run :: "'p conn_sys \<Rightarrow> 'p conn_event list \<Rightarrow> 'p conn_sys outcome" where
  "conn_run s [] = Next s"
| "conn_run s (ev # evs) = (case conn_exec s ev of Next s' \<Rightarrow> conn_run s' evs | Blocked \<Rightarrow> Blocked | Panic \<Rightarrow> Panic)"

lemma conn_run_reachable: "conn_reachable s \<Longrightarrow> conn_run s evs = Next s' \<Longrightarrow> conn_reachable s'"
  by (induction evs arbitrary: s) (auto split: outcome.splits intro: conn_reachable.step)

text \<open>\<open>dispatch\<close>: the reply to a request carries its id; on the control plane no handler means no reply.\<close>

definition dispatch_frame :: "(string \<Rightarrow> 'p \<Rightarrow> 'e + 'p) \<Rightarrow> ('e \<Rightarrow> 'p) \<Rightarrow> 'p control_frame \<Rightarrow> 'p control_frame" where
  "dispatch_frame handler errJSON f = (case handler (cf_Op f) (cf_Payload f) of
       Inl e \<Rightarrow> \<lparr>cf_ID = cf_ID f, cf_Kind = ControlErr, cf_Op = [], cf_Payload = errJSON e\<rparr>
     | Inr p \<Rightarrow> \<lparr>cf_ID = cf_ID f, cf_Kind = ControlResp, cf_Op = [], cf_Payload = p\<rparr>)"

section \<open>Invariant\<close>

definition waiter_ok :: "'f chan_heap \<Rightarrow> (int \<times> nat \<times> 'p call_phase) list \<Rightarrow> int \<Rightarrow> nat \<Rightarrow> bool" where
  "waiter_ok h calls i ch = (open_chan h ch \<and> ch_buf (h ! ch) = [] \<and> (\<exists>ph. (i, ch, ph) \<in> set calls))"

text \<open>
  Where a waiting request's answer can be: still expected, about to be sent, in the channel, or
  the channel is closed. What is in the channel or on its way is a reply to this request.
\<close>

definition answer_due ::
  "'p control_frame chan_heap \<Rightarrow> (int \<times> nat) list \<Rightarrow> (nat \<times> 'p control_frame) option \<Rightarrow> int \<Rightarrow> nat \<Rightarrow> bool" where
  "answer_due h ws pend i ch = ((i, ch) \<in> set ws \<or> (\<exists>f. pend = Some (ch, f)) \<or> ch_buf (h ! ch) \<noteq> [] \<or> ch_closed (h ! ch))"

definition reply_ok :: "'p control_frame list \<Rightarrow> int \<Rightarrow> 'p call_result \<Rightarrow> bool" where
  "reply_ok rcv i r = (\<forall>f. r = Reply f \<longrightarrow> cf_ID f = i \<and> f \<in> set rcv)"

definition call_ok ::
  "int \<Rightarrow> 'p control_frame chan_heap \<Rightarrow> (int \<times> nat) list \<Rightarrow> (nat \<times> 'p control_frame) option \<Rightarrow> 'p control_frame list \<Rightarrow>
   int \<Rightarrow> nat \<Rightarrow> 'p call_phase \<Rightarrow> bool" where
  "call_ok n h ws pend rcv i ch ph =
     (ch < length h \<and> i \<le> n
       \<and> (\<forall>f \<in> set (ch_buf (h ! ch)). cf_ID f = i \<and> f \<in> set rcv)
       \<and> (\<forall>f. pend = Some (ch, f) \<longrightarrow> cf_ID f = i)
       \<and> (case ph of Leaving r \<Rightarrow> reply_ok rcv i r | _ \<Rightarrow> answer_due h ws pend i ch))"

definition pending_ok :: "'p control_frame chan_heap \<Rightarrow> (int \<times> nat) list \<Rightarrow> 'p control_frame list \<Rightarrow> (nat \<times> 'p control_frame) option \<Rightarrow> bool" where
  "pending_ok h ws rcv pend = (\<forall>ch f. pend = Some (ch, f) \<longrightarrow>
     open_chan h ch \<and> ch_buf (h ! ch) = [] \<and> ch \<notin> snd ` set ws \<and> f \<in> set rcv)"

definition call_chan :: "int \<times> nat \<times> 'p call_phase \<Rightarrow> nat" where
  "call_chan c = fst (snd c)"

definition state_ok ::
  "'p ctl_conn \<Rightarrow> (int \<times> nat \<times> 'p call_phase) list \<Rightarrow> (nat \<times> 'p control_frame) option \<Rightarrow> 'p control_frame list \<Rightarrow>
   (int \<times> 'p call_result) list \<Rightarrow> bool" where
  "state_ok c calls pend rcv res =
     (distinct (map fst (cc_waiters c)) \<and> distinct (map snd (cc_waiters c))
      \<and> distinct (map fst calls) \<and> distinct (map call_chan calls)
      \<and> (cc_closed c \<longrightarrow> cc_waiters c = [])
      \<and> (\<forall>x \<in> set (cc_chans c). ch_cap x = 1)
      \<and> (\<forall>(i, ch) \<in> set (cc_waiters c). waiter_ok (cc_chans c) calls i ch)
      \<and> (\<forall>(i, ch, ph) \<in> set calls. call_ok (cc_nextID c) (cc_chans c) (cc_waiters c) pend rcv i ch ph)
      \<and> pending_ok (cc_chans c) (cc_waiters c) rcv pend
      \<and> distinct (map fst res) \<and> fst ` set res \<inter> fst ` set calls = {}
      \<and> (\<forall>(i, r) \<in> set res. i \<le> cc_nextID c \<and> reply_ok rcv i r))"

lemma state_okI:
  assumes "distinct (map fst (cc_waiters c))" "distinct (map snd (cc_waiters c))" "distinct (map fst calls)"
    "distinct (map call_chan calls)" "cc_closed c \<Longrightarrow> cc_waiters c = []" "\<And>x. x \<in> set (cc_chans c) \<Longrightarrow> ch_cap x = 1"
    "\<And>i ch. (i, ch) \<in> set (cc_waiters c) \<Longrightarrow> waiter_ok (cc_chans c) calls i ch"
    "\<And>i ch ph. (i, ch, ph) \<in> set calls \<Longrightarrow> call_ok (cc_nextID c) (cc_chans c) (cc_waiters c) pend rcv i ch ph"
    "pending_ok (cc_chans c) (cc_waiters c) rcv pend" "distinct (map fst res)" "fst ` set res \<inter> fst ` set calls = {}"
    "\<And>i r. (i, r) \<in> set res \<Longrightarrow> i \<le> cc_nextID c \<and> reply_ok rcv i r"
  shows "state_ok c calls pend rcv res"
  unfolding state_ok_def using assms by blast

lemma state_okD:
  assumes "state_ok c calls pend rcv res"
  shows "distinct (map fst (cc_waiters c))" "distinct (map snd (cc_waiters c))" "distinct (map fst calls)"
    "distinct (map call_chan calls)" "cc_closed c \<Longrightarrow> cc_waiters c = []" "\<And>x. x \<in> set (cc_chans c) \<Longrightarrow> ch_cap x = 1"
    "\<And>i ch. (i, ch) \<in> set (cc_waiters c) \<Longrightarrow> waiter_ok (cc_chans c) calls i ch"
    "\<And>i ch ph. (i, ch, ph) \<in> set calls \<Longrightarrow> call_ok (cc_nextID c) (cc_chans c) (cc_waiters c) pend rcv i ch ph"
    "pending_ok (cc_chans c) (cc_waiters c) rcv pend" "distinct (map fst res)" "fst ` set res \<inter> fst ` set calls = {}"
    "\<And>i r. (i, r) \<in> set res \<Longrightarrow> i \<le> cc_nextID c \<and> reply_ok rcv i r"
  using assms unfolding state_ok_def by blast+

definition conn_ok :: "'p conn_sys \<Rightarrow> bool" where
  "conn_ok s = state_ok (sy_conn s) (sy_calls s) (sy_pending s) (sy_received s) (sy_results s)"

lemma set_phase_keys [simp]: "map fst (set_phase i ph cs) = map fst cs" "map call_chan (set_phase i ph cs) = map call_chan cs"
  by (induction cs) (auto simp: set_phase_def call_chan_def)

lemma set_phase_fst [simp]: "fst ` set (set_phase i ph cs) = fst ` set cs"
  using set_phase_keys(1) [of i ph cs] by (metis set_map)

lemma set_phase_mem: "(j, ch, p) \<in> set (set_phase i ph cs) \<longleftrightarrow> (if j = i then p = ph \<and> (\<exists>q. (j, ch, q) \<in> set cs) else (j, ch, p) \<in> set cs)"
  by (force simp: set_phase_def)

lemma waiter_ok_phase [simp]: "waiter_ok h (set_phase i ph calls) j ch = waiter_ok h calls j ch"
  by (auto simp: waiter_ok_def set_phase_mem)

lemma distinct_map_inj: "distinct (map g xs) \<Longrightarrow> x \<in> set xs \<Longrightarrow> y \<in> set xs \<Longrightarrow> g x = g y \<Longrightarrow> x = y"
  by (simp add: distinct_map inj_on_def)

lemma new_sys_ok: "conn_ok new_sys"
  by (simp add: conn_ok_def state_ok_def new_sys_def newConn_def pending_ok_def)

text \<open>A call moves to another phase.\<close>

lemma phase_ok:
  assumes "state_ok c calls pend rcv res"
    and "\<And>ch p. (i, ch, p) \<in> set calls \<Longrightarrow> call_ok (cc_nextID c) (cc_chans c) (cc_waiters c) pend rcv i ch ph"
  shows "state_ok c (set_phase i ph calls) pend rcv res"
  using assms by (auto simp: state_ok_def set_phase_mem split: if_splits)

lemma register_ok:
  assumes ok: "state_ok c calls pend rcv res" and r: "register c = Some (c', i, ch)"
  shows "state_ok c' ((i, ch, Writing) # calls) pend rcv res"
proof -
  let ?i = "cc_nextID c + 1" let ?n = "length (cc_chans c)"
  let ?h = "cc_chans c @ [\<lparr>ch_buf = [], ch_cap = 1, ch_closed = False\<rparr>]"
  have fresh: "?i \<notin> fst ` set (cc_waiters c)" "?i \<notin> fst ` set calls" "?i \<notin> fst ` set res"
    "?n \<notin> snd ` set (cc_waiters c)" "?n \<notin> call_chan ` set calls" "\<forall>f. pend \<noteq> Some (?n, f)"
    using ok by (fastforce simp: state_ok_def call_ok_def waiter_ok_def open_chan_def call_chan_def pending_ok_def)+
  have c': "c' = c\<lparr>cc_nextID := ?i, cc_chans := ?h, cc_waiters := cc_waiters c @ [(?i, ?n)]\<rparr>" "i = ?i" "ch = ?n" "\<not> cc_closed c"
    using r AList_update_fresh [OF fresh(1)] by (auto simp: register_def make_chan_def Let_def split: if_splits)
  have w: "waiter_ok ?h ((?i, ?n, Writing) # calls) j ch" if "waiter_ok (cc_chans c) calls j ch" for j ch
    using that by (auto simp: waiter_ok_def open_chan_def nth_append)
  have k: "call_ok ?i ?h (cc_waiters c @ [(?i, ?n)]) pend rcv j ch p"
    if "call_ok (cc_nextID c) (cc_chans c) (cc_waiters c) pend rcv j ch p" for j ch p
    using that by (auto simp: call_ok_def nth_append answer_due_def split: call_phase.splits)
  have new: "waiter_ok ?h ((?i, ?n, Writing) # calls) ?i ?n" "call_ok ?i ?h (cc_waiters c @ [(?i, ?n)]) pend rcv ?i ?n Writing"
    using fresh(6) by (auto simp: waiter_ok_def open_chan_def call_ok_def answer_due_def)
  have p: "pending_ok ?h (cc_waiters c @ [(?i, ?n)]) rcv pend"
    using ok fresh(6) by (auto simp: state_ok_def pending_ok_def open_chan_def nth_append)
  show ?thesis
    using ok fresh c'(4) w k new p unfolding c'(1-3) state_ok_def
    by (auto simp: call_chan_def intro: order_trans)
qed

lemma delete_mem: "x \<in> set (AList.delete i al) \<longleftrightarrow> x \<in> set al \<and> fst x \<noteq> i"
  by (auto simp: AList.delete_eq)

lemma delete_distinct: "distinct (map g al) \<Longrightarrow> distinct (map g (AList.delete i al))"
  by (simp add: AList.delete_eq distinct_map_filter)

lemma unregister_ok:
  assumes ok: "state_ok c calls pend rcv res" and m: "map_of calls i = Some (ch, Leaving r)"
  shows "state_ok (unregister c i) (AList.delete i calls) pend rcv (res @ [(i, r)])"
proof (rule state_okI)
  note d = state_okD [OF ok]
  have mem: "(i, ch, Leaving r) \<in> set calls" using m by (rule map_of_SomeD)
  let ?c = "unregister c i"
  note u = unregister_def
  show "waiter_ok (cc_chans ?c) (AList.delete i calls) j k" if "(j, k) \<in> set (cc_waiters ?c)" for j k
  proof -
    from that have "(j, k) \<in> set (cc_waiters c)" "j \<noteq> i" by (simp_all add: delete_mem u)
    with d(7) [of j k] show ?thesis by (auto simp: waiter_ok_def delete_mem u)
  qed
  show "call_ok (cc_nextID ?c) (cc_chans ?c) (cc_waiters ?c) pend rcv j k p" if "(j, k, p) \<in> set (AList.delete i calls)" for j k p
  proof -
    from that have "(j, k, p) \<in> set calls" "j \<noteq> i" by (simp_all add: delete_mem)
    with d(8) [of j k p] show ?thesis by (cases p) (simp_all add: call_ok_def answer_due_def delete_mem u)
  qed
  show "pending_ok (cc_chans ?c) (cc_waiters ?c) rcv pend"
    using d(9) by (auto simp: pending_ok_def delete_mem u image_iff)
  have i: "i \<notin> fst ` set res" using d(11) mem by force
  then show "distinct (map fst (res @ [(i, r)]))" using d(10) by simp
  show "fst ` set (res @ [(i, r)]) \<inter> fst ` set (AList.delete i calls) = {}"
  proof -
    have "fst ` set (AList.delete i calls) = fst ` set calls - {i}" by (force simp: delete_mem)
    with d(11) show ?thesis by auto
  qed
  show "j \<le> cc_nextID ?c \<and> reply_ok rcv j q" if "(j, q) \<in> set (res @ [(i, r)])" for j q
    using that d(8) [OF mem] d(12) [of j q] by (auto simp: call_ok_def u)
qed (use state_okD [OF ok] in \<open>simp_all add: unregister_def delete_distinct\<close>)

lemma take_waiter_ok:
  assumes ok: "state_ok c calls None rcv res" and t: "take_waiter c (cf_ID f) = (c', to)"
  shows "state_ok c' calls (map_option (\<lambda>ch. (ch, f)) to) (rcv @ [f]) res"
proof (cases "map_of (cc_waiters c) (cf_ID f)")
  case None
  have "call_ok n h ws None (rcv @ [f]) i ch p" if "call_ok n h ws None rcv i ch p" for n h ws i ch p
    using that by (cases p) (auto simp: call_ok_def reply_ok_def answer_due_def)
  with None t state_okD [OF ok] show ?thesis
    by (intro state_okI) (simp_all add: take_waiter_def pending_ok_def reply_ok_def)
next
  case (Some ch)
  note d = state_okD [OF ok]
  let ?ws = "AList.delete (cf_ID f) (cc_waiters c)"
  have mem: "(cf_ID f, ch) \<in> set (cc_waiters c)" using Some by (rule map_of_SomeD)
  have c': "c' = c\<lparr>cc_waiters := ?ws\<rparr>" "to = Some ch" using t Some by (simp_all add: take_waiter_def)
  have wk: "waiter_ok (cc_chans c) calls (cf_ID f) ch" using d(7) mem .
  then obtain q where q: "(cf_ID f, ch, q) \<in> set calls" by (auto simp: waiter_ok_def)
  have own: "j = cf_ID f" if "(j, ch, p) \<in> set calls" for j p
    using distinct_map_inj [OF d(4) that q] by (simp add: call_chan_def)
  have uniq: "x = (cf_ID f, ch)" if "x \<in> set (cc_waiters c)" "fst x = cf_ID f \<or> snd x = ch" for x
    using that(2) distinct_map_inj [OF d(1) that(1) mem] distinct_map_inj [OF d(2) that(1) mem] by auto
  then have nch: "ch \<notin> snd ` set ?ws" by (auto simp: delete_mem)
  show ?thesis unfolding c'
  proof (rule state_okI)
    show "call_ok (cc_nextID (c\<lparr>cc_waiters := ?ws\<rparr>)) (cc_chans (c\<lparr>cc_waiters := ?ws\<rparr>)) (cc_waiters (c\<lparr>cc_waiters := ?ws\<rparr>))
        (map_option (\<lambda>ch. (ch, f)) (Some ch)) (rcv @ [f]) j k p" if m: "(j, k, p) \<in> set calls" for j k p
    proof -
      have "(j, k) \<in> set (cc_waiters c) \<Longrightarrow> (j, k) \<in> set ?ws \<or> k = ch"
        using uniq [of "(j, k)"] by (cases "j = cf_ID f") (simp_all add: delete_mem)
      then have "answer_due (cc_chans c) (cc_waiters c) None j k \<Longrightarrow> answer_due (cc_chans c) ?ws (Some (ch, f)) j k"
        by (auto simp: answer_due_def)
      moreover have "k = ch \<Longrightarrow> cf_ID f = j" using own m by simp
      moreover have "reply_ok rcv j r \<Longrightarrow> reply_ok (rcv @ [f]) j r" for r by (simp add: reply_ok_def)
      ultimately show ?thesis using d(8) [OF m] by (cases p) (simp_all add: call_ok_def)
    qed
    show "pending_ok (cc_chans (c\<lparr>cc_waiters := ?ws\<rparr>)) (cc_waiters (c\<lparr>cc_waiters := ?ws\<rparr>)) (rcv @ [f]) (map_option (\<lambda>ch. (ch, f)) (Some ch))"
      using wk nch by (simp add: pending_ok_def waiter_ok_def)
    show "waiter_ok (cc_chans (c\<lparr>cc_waiters := ?ws\<rparr>)) calls j k" if "(j, k) \<in> set (cc_waiters (c\<lparr>cc_waiters := ?ws\<rparr>))" for j k
      using that d(7) [of j k] by (simp add: delete_mem)
    show "j \<le> cc_nextID (c\<lparr>cc_waiters := ?ws\<rparr>) \<and> reply_ok (rcv @ [f]) j r" if "(j, r) \<in> set res" for j r
      using d(12) [OF that] by (auto simp: reply_ok_def)
  qed (use d in \<open>simp_all add: delete_distinct\<close>)
qed

text \<open>The read loop's send never panics and never blocks, and the reply is then in the channel.\<close>

lemma send_reply_ok:
  assumes ok: "state_ok c calls (Some (ch, f)) rcv res"
  shows "\<exists>h. chan_send ch f (cc_chans c) = Next h \<and> state_ok (c\<lparr>cc_chans := h\<rparr>) calls None rcv res"
proof -
  note d = state_okD [OF ok]
  let ?h = "(cc_chans c)[ch := push f (cc_chans c ! ch)]"
  have p: "ch < length (cc_chans c)" "\<not> ch_closed (cc_chans c ! ch)" "ch_buf (cc_chans c ! ch) = []" "ch \<notin> snd ` set (cc_waiters c)"
    "f \<in> set rcv" using d(9) by (auto simp: pending_ok_def open_chan_def)
  then have cap: "ch_cap (cc_chans c ! ch) = 1" using d(6) by simp
  with p have s: "chan_send ch f (cc_chans c) = Next ?h" by (simp add: chan_send_def)
  have b: "ch_buf (?h ! ch) = [f]" using p cap by (simp add: push_def)
  have "state_ok (c\<lparr>cc_chans := ?h\<rparr>) calls None rcv res"
  proof (rule state_okI)
    show "call_ok (cc_nextID (c\<lparr>cc_chans := ?h\<rparr>)) (cc_chans (c\<lparr>cc_chans := ?h\<rparr>)) (cc_waiters (c\<lparr>cc_chans := ?h\<rparr>)) None rcv i k ph"
      if "(i, k, ph) \<in> set calls" for i k ph
      using d(8) [OF that] b p by (cases "k = ch"; cases ph) (auto simp: call_ok_def answer_due_def)
    show "waiter_ok (cc_chans (c\<lparr>cc_chans := ?h\<rparr>)) calls i k" if m: "(i, k) \<in> set (cc_waiters (c\<lparr>cc_chans := ?h\<rparr>))" for i k
    proof -
      have "k \<noteq> ch" using m p(4) by force
      then show ?thesis using d(7) [of i k] m by (simp add: waiter_ok_def)
    qed
    show "ch_cap x = 1" if "x \<in> set (cc_chans (c\<lparr>cc_chans := ?h\<rparr>))" for x
      using that d(6) cap set_update_subset_insert [of "cc_chans c" ch "push f (cc_chans c ! ch)"] by auto
  qed (use d in \<open>simp_all add: pending_ok_def\<close>)
  with s show ?thesis by blast
qed

text \<open>\<open>fail\<close> closes every channel that is still waited for, each once.\<close>

lemma close_all_open:
  assumes "distinct rs" "\<forall>r \<in> set rs. open_chan h r"
  shows "\<exists>h'. close_all rs h = Some h' \<and> length h' = length h
    \<and> (\<forall>k < length h. h' ! k = (if k \<in> set rs then (h ! k)\<lparr>ch_closed := True\<rparr> else h ! k))"
  using assms
proof (induction rs arbitrary: h)
  case (Cons r rs)
  let ?h = "h[r := (h ! r)\<lparr>ch_closed := True\<rparr>]"
  have "close_chan r h = Some ?h" using Cons.prems by (simp add: close_chan_def open_chan_def)
  moreover have "\<forall>x \<in> set rs. open_chan ?h x" using Cons.prems by (auto simp: open_chan_def nth_list_update)
  ultimately show ?case using Cons.IH [of ?h] Cons.prems by (auto simp: nth_list_update open_chan_def)
qed simp

lemma conn_fail_ok:
  assumes ok: "state_ok c calls pend rcv res"
  shows "\<exists>c'. conn_fail c = Some c' \<and> cc_closed c' \<and> state_ok c' calls pend rcv res"
proof (cases "cc_closed c")
  case False
  note d = state_okD [OF ok]
  have "\<forall>r \<in> set (map snd (cc_waiters c)). open_chan (cc_chans c) r" using d(7) by (fastforce simp: waiter_ok_def)
  from close_all_open [OF d(2) this] obtain h where h: "close_all (map snd (cc_waiters c)) (cc_chans c) = Some h"
      "length h = length (cc_chans c)"
      "\<And>k. k < length (cc_chans c) \<Longrightarrow> h ! k = (if k \<in> snd ` set (cc_waiters c) then (cc_chans c ! k)\<lparr>ch_closed := True\<rparr> else cc_chans c ! k)"
    by auto
  let ?c = "c\<lparr>cc_closed := True, cc_waiters := [], cc_chans := h\<rparr>"
  have buf: "ch_buf (h ! k) = ch_buf (cc_chans c ! k)" if "k < length (cc_chans c)" for k using h(3) [OF that] by simp
  have "state_ok ?c calls pend rcv res"
  proof (rule state_okI)
    show "call_ok (cc_nextID ?c) (cc_chans ?c) (cc_waiters ?c) pend rcv i k ph" if m: "(i, k, ph) \<in> set calls" for i k ph
    proof -
      have k: "k < length (cc_chans c)" using d(8) [OF m] by (simp add: call_ok_def)
      have "answer_due (cc_chans c) (cc_waiters c) pend i k \<Longrightarrow> answer_due h [] pend i k"
        using h(3) [OF k] by (force simp: answer_due_def)
      with d(8) [OF m] k buf show ?thesis by (cases ph) (simp_all add: call_ok_def h(2))
    qed
    show "pending_ok (cc_chans ?c) (cc_waiters ?c) rcv pend"
      using d(9) h(2,3) by (auto simp: pending_ok_def open_chan_def)
    show "ch_cap x = 1" if "x \<in> set (cc_chans ?c)" for x
      using that h(2,3) d(6) [OF nth_mem] by (auto simp: in_set_conv_nth)
  qed (use d in simp_all)
  with h(1) False show ?thesis by (simp add: conn_fail_def)
qed (use ok in \<open>simp add: conn_fail_def\<close>)

lemma take_reply_ok:
  assumes ok: "state_ok c calls pend rcv res" and m: "(i, ch, Waiting) \<in> set calls"
    and r: "recv ch (cc_chans c) = (Some f, h)"
  shows "state_ok (c\<lparr>cc_chans := h\<rparr>) (set_phase i (Leaving (Reply f)) calls) pend rcv res"
proof -
  note d = state_okD [OF ok]
  have ck: "call_ok (cc_nextID c) (cc_chans c) (cc_waiters c) pend rcv i ch Waiting" using d(8) [OF m] .
  obtain fs where b: "ch < length (cc_chans c)" "ch_buf (cc_chans c ! ch) = f # fs"
    and h: "h = (cc_chans c)[ch := (cc_chans c ! ch)\<lparr>ch_buf := fs\<rparr>]"
    using r by (cases "ch_buf (cc_chans c ! ch)") (auto simp: recv_def split: if_splits)
  have f: "cf_ID f = i" "f \<in> set rcv" using ck b by (auto simp: call_ok_def)
  have own: "j = i" if "(j, ch, p) \<in> set calls" for j p
    using distinct_map_inj [OF d(4) that m] by (simp add: call_chan_def)
  let ?c = "c\<lparr>cc_chans := h\<rparr>"
  show ?thesis
  proof (rule state_okI)
    show "call_ok (cc_nextID ?c) (cc_chans ?c) (cc_waiters ?c) pend rcv j k p"
      if mem: "(j, k, p) \<in> set (set_phase i (Leaving (Reply f)) calls)" for j k p
    proof (cases "j = i")
      case True
      with mem distinct_map_inj [OF d(3) m, of "(j, k, q)" for q] have "k = ch" "p = Leaving (Reply f)"
        by (auto simp: set_phase_mem)
      with ck True b f h show ?thesis by (auto simp: call_ok_def reply_ok_def)
    next
      case False
      with mem have "(j, k, p) \<in> set calls" by (simp add: set_phase_mem)
      moreover from this False own have "k \<noteq> ch" by blast
      ultimately show ?thesis using d(8) [of j k p] h by (cases p) (simp_all add: call_ok_def answer_due_def)
    qed
    have nw: "ch \<noteq> k" if "(j, k) \<in> set (cc_waiters c)" for j k
      using d(7) [OF that] b by (auto simp: waiter_ok_def)
    show "waiter_ok (cc_chans ?c) (set_phase i (Leaving (Reply f)) calls) j k" if "(j, k) \<in> set (cc_waiters ?c)" for j k
      using nw [of j k] that d(7) [of j k] h by (simp add: waiter_ok_def open_chan_def set_phase_mem) blast
    show "pending_ok (cc_chans ?c) (cc_waiters ?c) rcv pend"
      using d(9) b h by (auto simp: pending_ok_def open_chan_def nth_list_update)
    show "ch_cap x = 1" if "x \<in> set (cc_chans ?c)" for x
      using that d(6) [OF nth_mem] h b(1) by (auto simp: in_set_conv_nth nth_list_update)
  qed (use d in simp_all)
qed

lemma conn_exec_ok:
  assumes ok: "conn_ok s" and ex: "conn_exec s ev = Next s'"
  shows "conn_ok s'"
proof (cases ev)
  case Start
  with ok ex register_ok [of "sy_conn s"] show ?thesis by (auto simp: conn_ok_def split: option.splits)
next
  case (WriteDone i b)
  then obtain ch where m: "map_of (sy_calls s) i = Some (ch, Writing)"
    and s': "s' = s\<lparr>sy_calls := set_phase i (if b then Waiting else Leaving WriteFailed) (sy_calls s)\<rparr>"
    using ex by (auto split: option.splits call_phase.splits)
  note d = state_okD [OF ok [unfolded conn_ok_def]]
  have "call_ok (cc_nextID (sy_conn s)) (cc_chans (sy_conn s)) (cc_waiters (sy_conn s)) (sy_pending s) (sy_received s) i k
      (if b then Waiting else Leaving WriteFailed)" if "(i, k, p) \<in> set (sy_calls s)" for k p
    using map_of_is_SomeI [OF d(3) that] m d(8) [OF that] by (simp add: call_ok_def reply_ok_def)
  from phase_ok [OF ok [unfolded conn_ok_def] this] show ?thesis by (simp add: conn_ok_def s')
next
  case (CtxEnd i)
  then obtain ch where m: "map_of (sy_calls s) i = Some (ch, Waiting)"
    and s': "s' = s\<lparr>sy_calls := set_phase i (Leaving CtxDone) (sy_calls s)\<rparr>"
    using ex by (auto split: option.splits call_phase.splits)
  note d = state_okD [OF ok [unfolded conn_ok_def]]
  have "call_ok (cc_nextID (sy_conn s)) (cc_chans (sy_conn s)) (cc_waiters (sy_conn s)) (sy_pending s) (sy_received s) i k
      (Leaving CtxDone)" if "(i, k, p) \<in> set (sy_calls s)" for k p
    using d(8) [OF that] by (simp add: call_ok_def reply_ok_def)
  from phase_ok [OF ok [unfolded conn_ok_def] this] show ?thesis by (simp add: conn_ok_def s')
next
  case (TakeReply i)
  then obtain ch where m: "map_of (sy_calls s) i = Some (ch, Waiting)" and t: "take_reply s i ch = Next s'"
    using ex by (auto split: option.splits call_phase.splits)
  note d = state_okD [OF ok [unfolded conn_ok_def]]
  have mem: "(i, ch, Waiting) \<in> set (sy_calls s)" using m by (rule map_of_SomeD)
  show ?thesis
  proof (cases "recv ch (cc_chans (sy_conn s))")
    case (Pair fo h)
    show ?thesis
    proof (cases fo)
      case (Some f)
      with take_reply_ok [OF ok [unfolded conn_ok_def] mem] Pair t show ?thesis
        by (auto simp: take_reply_def conn_ok_def)
    next
      case None
      have "call_ok (cc_nextID (sy_conn s)) (cc_chans (sy_conn s)) (cc_waiters (sy_conn s)) (sy_pending s) (sy_received s) i k
          (Leaving ClosedBeforeReply)" if "(i, k, p) \<in> set (sy_calls s)" for k p
        using d(8) [OF that] by (simp add: call_ok_def reply_ok_def)
      note st = phase_ok [OF ok [unfolded conn_ok_def] this]
      have "s' = s\<lparr>sy_calls := set_phase i (Leaving ClosedBeforeReply) (sy_calls s)\<rparr>"
        using None Pair t by (auto simp: take_reply_def Let_def split: if_splits)
      with st show ?thesis by (simp add: conn_ok_def)
    qed
  qed
next
  case (Leave i)
  with ok ex unregister_ok [of "sy_conn s"] show ?thesis by (auto simp: conn_ok_def split: option.splits call_phase.splits)
next
  case (Receive f)
  then have n: "sy_pending s = None" using ex by (cases "sy_pending s") auto
  show ?thesis
  proof (cases "take_waiter (sy_conn s) (cf_ID f)")
    case (Pair c to)
    from take_waiter_ok [OF ok [unfolded conn_ok_def n] Pair] Receive ex n Pair show ?thesis
      by (auto simp: conn_ok_def split: if_splits)
  qed
next
  case SendReply
  then obtain ch f where p: "sy_pending s = Some (ch, f)" using ex by (cases "sy_pending s") auto
  from send_reply_ok [OF ok [unfolded conn_ok_def p]] SendReply ex p show ?thesis by (auto simp: conn_ok_def)
next
  case Notify
  have "state_ok (c\<lparr>cc_nextID := cc_nextID c + 1\<rparr>) calls pend rcv res" if "state_ok c calls pend rcv res"
    for c :: "'a ctl_conn" and calls pend rcv res
  proof (rule state_okI)
    note d = state_okD [OF that]
    show "call_ok (cc_nextID (c\<lparr>cc_nextID := cc_nextID c + 1\<rparr>)) (cc_chans (c\<lparr>cc_nextID := cc_nextID c + 1\<rparr>))
        (cc_waiters (c\<lparr>cc_nextID := cc_nextID c + 1\<rparr>)) pend rcv i ch p" if "(i, ch, p) \<in> set calls" for i ch p
      using d(8) [OF that] by (simp add: call_ok_def)
    show "i \<le> cc_nextID (c\<lparr>cc_nextID := cc_nextID c + 1\<rparr>) \<and> reply_ok rcv i r" if "(i, r) \<in> set res" for i r
      using d(12) [OF that] by simp
  qed (use state_okD [OF that] in simp_all)
  with Notify ok ex show ?thesis by (auto simp: conn_ok_def notify_id_def)
next
  case Fail
  with conn_fail_ok [OF ok [unfolded conn_ok_def]] ex show ?thesis by (auto simp: conn_ok_def)
qed

lemma reachable_ok: "conn_reachable s \<Longrightarrow> conn_ok s"
  by (induction rule: conn_reachable.induct) (auto simp: new_sys_ok intro: conn_exec_ok)

lemma no_panic:
  assumes "conn_ok s"
  shows "conn_exec s ev \<noteq> Panic"
proof (cases ev)
  case SendReply
  show ?thesis
  proof (cases "sy_pending s")
    case (Some p)
    then obtain ch f where p: "sy_pending s = Some (ch, f)" by (cases p) simp
    from send_reply_ok [OF assms [unfolded conn_ok_def p]] SendReply p show ?thesis by auto
  qed (use SendReply in simp)
next
  case Fail
  with conn_fail_ok [OF assms [unfolded conn_ok_def]] show ?thesis by auto
next
  case (Receive f)
  then show ?thesis by (simp split: prod.splits)
qed (auto simp: take_reply_def Let_def split: option.splits call_phase.splits prod.splits)

end
