(* ===== verification/Ctl_Claims.thy ===== *)
theory Ctl_Claims
  imports Ctl_Conn
begin

text \<open>The properties of a control-channel session.\<close>

section \<open>No request is lost\<close>

lemma waiting_proceeds:
  assumes ok: "conn_ok s" and c: "cc_closed (sy_conn s)" "sy_pending s = None" and m: "map_of (sy_calls s) i = Some (ch, Waiting)"
  shows "\<exists>s'. conn_exec s (TakeReply i) = Next s'"
proof -
  note d = state_okD [OF ok [unfolded conn_ok_def]]
  have "call_ok (cc_nextID (sy_conn s)) (cc_chans (sy_conn s)) (cc_waiters (sy_conn s)) (sy_pending s) (sy_received s) i ch Waiting"
    using d(8) map_of_SomeD [OF m] .
  then have "ch < length (cc_chans (sy_conn s))" "ch_buf (cc_chans (sy_conn s) ! ch) \<noteq> [] \<or> ch_closed (cc_chans (sy_conn s) ! ch)"
    using c d(5) by (simp_all add: call_ok_def answer_due_def)
  then show ?thesis using m by (auto simp: take_reply_def recv_def Let_def)
qed

text \<open>
  C16. In every reachable state of a control-channel session, whatever the interleaving of
  requests, replies, timeouts, notifications and the end of the channel: no operation sends on a
  closed channel or closes one twice, the read loop never blocks on handing over a reply, every
  reply was received and has the id of the request that returns it, no two requests have the same
  id, and once the channel has failed every request that waits can return.
\<close>

theorem control_channel_safe:
  assumes "conn_reachable s"
  shows "(\<forall>ev. conn_exec s ev \<noteq> Panic)
    \<and> (sy_pending s \<noteq> None \<longrightarrow> (\<exists>s'. conn_exec s SendReply = Next s'))
    \<and> (\<forall>i f. (i, Reply f) \<in> set (sy_results s) \<longrightarrow> cf_ID f = i \<and> f \<in> set (sy_received s))
    \<and> distinct (map fst (sy_results s) @ map fst (sy_calls s))
    \<and> (\<forall>i ch. cc_closed (sy_conn s) \<and> sy_pending s = None \<and> map_of (sy_calls s) i = Some (ch, Waiting)
         \<longrightarrow> (\<exists>s'. conn_exec s (TakeReply i) = Next s'))"
proof -
  have ok: "conn_ok s" using reachable_ok [OF assms] .
  note d = state_okD [OF ok [unfolded conn_ok_def]]
  have "\<exists>s'. conn_exec s SendReply = Next s'" if "sy_pending s \<noteq> None"
  proof -
    from that obtain ch f where p: "sy_pending s = Some (ch, f)" by auto
    from send_reply_ok [OF ok [unfolded conn_ok_def p]] p show ?thesis by auto
  qed
  moreover have "\<forall>i f. (i, Reply f) \<in> set (sy_results s) \<longrightarrow> cf_ID f = i \<and> f \<in> set (sy_received s)"
    using d(12) by (auto simp: reply_ok_def)
  ultimately show ?thesis using no_panic [OF ok] waiting_proceeds [OF ok] d(3,10,11) by auto
qed

text \<open>Two requests, one answered and one cut off by the end of the channel.\<close>

definition two_calls :: "string conn_event list" where
  "two_calls = [Start, Start, WriteDone 1 True, WriteDone 2 True,
     Receive \<lparr>cf_ID = 2, cf_Kind = ControlResp, cf_Op = [], cf_Payload = ''pong''\<rparr>, Fail, SendReply, TakeReply 2, Leave 2]"

lemma control_channel_safe_witness:
  "\<exists>s. conn_run new_sys two_calls = Next s \<and> (\<forall>ev. conn_exec s ev \<noteq> Panic) \<and> map fst (sy_results s) = [2]
     \<and> (\<exists>s'. conn_exec s (TakeReply 1) = Next s')"
proof -
  obtain s where s: "conn_run new_sys two_calls = Next s" "map fst (sy_results s) = [2]" "cc_closed (sy_conn s)" "sy_pending s = None"
    "map_of (sy_calls s) 1 = Some (0, Waiting)"
    by (simp add: two_calls_def new_sys_def newConn_def register_def make_chan_def Let_def set_phase_def take_waiter_def
        conn_fail_def close_chan_def chan_send_def push_def take_reply_def recv_def unregister_def)
  have "conn_reachable s" using conn_run_reachable [OF conn_reachable.init s(1)] .
  note safe = control_channel_safe [OF this]
  have "\<forall>ev. conn_exec s ev \<noteq> Panic" using safe by blast
  moreover have "\<exists>s'. conn_exec s (TakeReply 1) = Next s'" using safe s(3-5) by blast
  ultimately show ?thesis using s(1,2) by auto
qed

section \<open>A request is answered\<close>

lemma set_phase_cons: "set_phase i ph ((j, ch, p) # cs) = (j, ch, if j = i then ph else p) # set_phase i ph cs"
  by (simp add: set_phase_def)

lemma delete_fresh: "i \<notin> fst ` set al \<Longrightarrow> AList.delete i al = al"
  by (induction al) auto

lemma delete_append: "AList.delete i (xs @ ys) = AList.delete i xs @ AList.delete i ys"
  by (simp add: AList.delete_eq)

lemma map_of_fresh: "i \<notin> fst ` set al \<Longrightarrow> map_of al i = None"
  by (simp add: map_of_eq_None_iff)

text \<open>
  C17. A request on a live channel whose write goes through and whose frame the peer dispatches
  returns what the peer's handler answered to it: its payload on success, its error on failure.
\<close>

theorem request_answered:
  assumes "conn_reachable s" "\<not> cc_closed (sy_conn s)" "sy_pending s = None"
    and "i = cc_nextID (sy_conn s) + 1"
    and "f = dispatch_frame handler errJSON \<lparr>cf_ID = i, cf_Kind = ControlReq, cf_Op = op, cf_Payload = body\<rparr>"
  shows "\<exists>s'. conn_run s [Start, WriteDone i True, Receive f, SendReply, TakeReply i, Leave i] = Next s'
    \<and> sy_results s' = sy_results s @ [(i, Reply f)]
    \<and> (cf_Kind f, cf_Payload f) = (case handler op body of Inl e \<Rightarrow> (ControlErr, errJSON e) | Inr p \<Rightarrow> (ControlResp, p))
    \<and> sy_calls s' = sy_calls s \<and> cc_waiters (sy_conn s') = cc_waiters (sy_conn s)"
proof -
  let ?c = "sy_conn s" let ?n = "length (cc_chans ?c)"
  note d = state_okD [OF reachable_ok [OF assms(1), unfolded conn_ok_def]]
  have fresh: "i \<notin> fst ` set (cc_waiters ?c)" "i \<notin> fst ` set (sy_calls s)"
    using d(7,8) assms(4) by (fastforce simp: waiter_ok_def call_ok_def)+
  have same: "set_phase i ph (sy_calls s) = sy_calls s" for ph
    using fresh(2) by (force simp: set_phase_def intro!: map_idI)
  have id: "cf_ID f = i" "cf_Kind f \<noteq> ControlReq" using assms(5) by (auto simp: dispatch_frame_def split: sum.splits)
  have "\<exists>s'. conn_run s [Start, WriteDone i True, Receive f, SendReply, TakeReply i, Leave i] = Next s'
    \<and> sy_results s' = sy_results s @ [(i, Reply f)] \<and> sy_calls s' = sy_calls s \<and> cc_waiters (sy_conn s') = cc_waiters ?c"
    using assms(2,3) fresh id same
    by (simp add: register_def make_chan_def Let_def AList_update_fresh assms(4) [symmetric] set_phase_cons map_add_def
        map_of_fresh delete_append delete_fresh take_waiter_def chan_send_def push_def take_reply_def recv_def unregister_def)
  moreover have "(cf_Kind f, cf_Payload f) = (case handler op body of Inl e \<Rightarrow> (ControlErr, errJSON e) | Inr p \<Rightarrow> (ControlResp, p))"
    by (auto simp: assms(5) dispatch_frame_def split: sum.splits)
  ultimately show ?thesis by blast
qed

lemma request_answered_witness:
  "\<exists>s'. conn_run new_sys [Start, WriteDone 1 True,
       Receive \<lparr>cf_ID = 1, cf_Kind = ControlResp, cf_Op = [], cf_Payload = ''pong''\<rparr>, SendReply, TakeReply 1, Leave 1] = Next s'
     \<and> sy_results s' = [(1, Reply \<lparr>cf_ID = 1, cf_Kind = ControlResp, cf_Op = [], cf_Payload = ''pong''\<rparr>)]"
proof -
  let ?handler = "\<lambda>_ _. Inr ''pong'' :: string + string"
  have "dispatch_frame ?handler (\<lambda>e. e) \<lparr>cf_ID = 1, cf_Kind = ControlReq, cf_Op = ''ping'', cf_Payload = []\<rparr>
      = \<lparr>cf_ID = 1, cf_Kind = ControlResp, cf_Op = [], cf_Payload = ''pong''\<rparr>" by (simp add: dispatch_frame_def)
  note f = this [symmetric]
  have i: "(1 :: int) = cc_nextID (sy_conn (new_sys :: string conn_sys)) + 1" "\<not> cc_closed (sy_conn (new_sys :: string conn_sys))"
    "sy_pending (new_sys :: string conn_sys) = None" "sy_results (new_sys :: string conn_sys) = []"
    by (simp_all add: new_sys_def newConn_def)
  from request_answered [OF conn_reachable.init i(2,3,1) f] i(4) show ?thesis by auto
qed

end
