(* ===== verification/Guest_Git.thy ===== *)
theory Guest_Git
  imports Guest_Wire
begin

text \<open>
  The guest's git operations (\<open>guestagent/internal/ctlchan/gitops.go\<close>, \<open>projects.go\<close> and the
  clone of \<open>manager.go\<close>). Git is the environment: \<open>gx_run\<close> answers an argument list, given the
  commands that ran before it, with its output and exit. The operations return the commands they
  have run, oldest first. Contexts, timeouts and the owner's credentials are not modelled: a
  command that is killed is one that fails.
\<close>

datatype git_exit = Exited nat | NotRun string

record gitctx =
  gx_run :: "string list list \<Rightarrow> string list \<Rightarrow> string \<times> git_exit"
  gx_repo :: "string \<Rightarrow> bool"
  gx_entries :: "string + (string \<times> bool) list option"
  gx_workDir :: string

type_synonym trace = "string list list"

section \<open>Running git\<close>

definition exec_git :: "gitctx \<Rightarrow> trace \<Rightarrow> string list \<Rightarrow> trace \<times> string \<times> git_exit" where
  "exec_git x tr args = (tr @ [args], gx_run x tr args)"

definition runGit :: "gitctx \<Rightarrow> trace \<Rightarrow> string \<Rightarrow> string list \<Rightarrow> trace \<times> string \<times> git_exit" where
  "runGit x tr dir args = exec_git x tr (''-C'' # dir # args)"

definition exit_text :: "git_exit \<Rightarrow> string" where
  "exit_text e = (case e of Exited n \<Rightarrow> ''exit status '' @ nat_str n | NotRun t \<Rightarrow> t)"

text \<open>\<open>git\<close>: trimmed output, empty on any error.\<close>

definition git_out :: "gitctx \<Rightarrow> trace \<Rightarrow> string \<Rightarrow> string list \<Rightarrow> trace \<times> string" where
  "git_out x tr dir args = (case runGit x tr dir args of
       (tr', out, e) \<Rightarrow> (tr', if e = Exited 0 then TrimSpace out else []))"

definition errNotRepo :: string where "errNotRepo = ''not a git repository''"

definition validateDest :: "string \<Rightarrow> string \<Rightarrow> string option" where
  "validateDest workDir dest =
     (if dest = [] then Some ''empty dest''
      else if Clean dest \<noteq> Clean workDir \<and> \<not> HasPrefix (Clean dest) (Clean workDir @ ''/'') then Some ''dest outside workspace''
      else None)"

definition validateRepoPath :: "gitctx \<Rightarrow> string \<Rightarrow> string option" where
  "validateRepoPath x path = (case validateDest (gx_workDir x) path of
       Some e \<Rightarrow> Some e
     | None \<Rightarrow> (if gx_repo x path then None else Some errNotRepo))"

text \<open>The last line of git's output, at most 200 bytes.\<close>

definition sanitizeGitErr :: "string \<Rightarrow> git_exit \<Rightarrow> string" where
  "sanitizeGitErr out e =
     (let s = TrimSpace out
      in if s = [] then exit_text e else take 200 (TrimSpace (last (split_char CHR 0x0A s))))"

section \<open>Status\<close>

definition isRenameCopy :: "char \<Rightarrow> bool" where
  "isRenameCopy c = (c = CHR ''R'' \<or> c = CHR ''C'')"

fun parse_tokens :: "string list \<Rightarrow> git_file_status list" where
  "parse_tokens [] = []"
| "parse_tokens (tok # toks) =
     (if length tok < 4 then parse_tokens toks
      else let f = \<lparr>gf_Path = drop 3 tok, gf_Orig = [], gf_Index = [tok ! 0], gf_Worktree = [tok ! 1]\<rparr>
        in if isRenameCopy (tok ! 0) \<or> isRenameCopy (tok ! 1) then
             (case toks of [] \<Rightarrow> [f] | orig # rest \<Rightarrow> f\<lparr>gf_Orig := orig\<rparr> # parse_tokens rest)
           else f # parse_tokens toks)"

definition parsePorcelainZ :: "string \<Rightarrow> git_file_status list" where
  "parsePorcelainZ out = parse_tokens (split_char CHR 0x00 out)"

definition head_branch :: "gitctx \<Rightarrow> trace \<Rightarrow> string \<Rightarrow> trace \<times> string" where
  "head_branch x tr path = (case git_out x tr path [''rev-parse'', ''--abbrev-ref'', ''HEAD''] of
       (tr', branch) \<Rightarrow> (if branch = ''HEAD'' then git_out x tr' path [''rev-parse'', ''--short'', ''HEAD''] else (tr', branch)))"

definition gitStatus :: "gitctx \<Rightarrow> trace \<Rightarrow> string \<Rightarrow> trace \<times> (string + git_status_response)" where
  "gitStatus x tr path = (case validateRepoPath x path of
       Some e \<Rightarrow> (tr, Inl e)
     | None \<Rightarrow> (case head_branch x tr path of
         (tr1, branch) \<Rightarrow> (case runGit x tr1 path [''-c'', ''core.quotePath=false'', ''status'', ''--porcelain=v1'', ''-z''] of
           (tr2, out, e) \<Rightarrow>
             (tr2, if e \<noteq> Exited 0 then Inl (exit_text e) else Inr \<lparr>gs_Branch = branch, gs_Files = parsePorcelainZ out\<rparr>))))"

section \<open>Diff\<close>

definition maxDiffBytes :: nat where "maxDiffBytes = 1048576"

text \<open>
  The command's exit is not looked at; only a command that does not start is an error. A rune cut
  at the cap is dropped.
\<close>

definition gitDiff :: "gitctx \<Rightarrow> trace \<Rightarrow> string \<Rightarrow> bool \<Rightarrow> trace \<times> (string + git_diff_response)" where
  "gitDiff x tr path staged = (case validateRepoPath x path of
       Some e \<Rightarrow> (tr, Inl e)
     | None \<Rightarrow> (case runGit x tr path ([''-c'', ''core.quotePath=false'', ''diff''] @ (if staged then [''--cached''] else [])) of
         (tr', out, NotRun e) \<Rightarrow> (tr', Inl e)
       | (tr', out, Exited _) \<Rightarrow>
           (tr', Inr \<lparr>gd_Diff = ToValidUTF8 (take maxDiffBytes out), gd_Truncated = (length out > maxDiffBytes)\<rparr>)))"

section \<open>Branch, commit, push, clone\<close>

definition control_fail :: "string \<Rightarrow> string \<Rightarrow> control_error" where
  "control_fail code msg = \<lparr>ce_Code = code, ce_Message = msg\<rparr>"

definition branchExists :: "gitctx \<Rightarrow> trace \<Rightarrow> string \<Rightarrow> string \<Rightarrow> trace \<times> bool" where
  "branchExists x tr path name = (case runGit x tr path [''show-ref'', ''--verify'', ''--quiet'', ''refs/heads/'' @ name] of
       (tr', _, e) \<Rightarrow> (tr', e = Exited 0))"

definition gitBranch :: "gitctx \<Rightarrow> trace \<Rightarrow> string \<Rightarrow> string \<Rightarrow> bool \<Rightarrow> string \<Rightarrow> trace \<times> (control_error + string)" where
  "gitBranch x tr path name checkout from =
     (if validateRepoPath x path \<noteq> None then (tr, Inl (control_fail ErrCodeGitFailed ''invalid repo''))
      else if \<not> ValidBranchName name then (tr, Inl (control_fail ErrCodeInvalidBranch []))
      else if \<not> ValidStartPoint from then (tr, Inl (control_fail ErrCodeGitFailed ''bad start point''))
      else case branchExists x tr path name of
        (tr1, True) \<Rightarrow> (tr1, Inl (control_fail ErrCodeBranchExists []))
      | (tr1, False) \<Rightarrow>
          (case runGit x tr1 path ((if checkout then [''checkout'', ''-b'', name] else [''branch'', name])
                 @ (if from \<noteq> [] then [from] else [])) of
             (tr2, out, e) \<Rightarrow>
               (if e \<noteq> Exited 0 then (tr2, Inl (control_fail ErrCodeGitFailed (sanitizeGitErr out e)))
                else case git_out x tr2 path [''rev-parse'', ''--abbrev-ref'', ''HEAD''] of
                  (tr3, b) \<Rightarrow> (tr3, Inr b))))"

definition path_args :: "string list \<Rightarrow> string list" where
  "path_args paths = (if paths = [] then [] else ''--'' # paths)"

definition stage_args :: "string list \<Rightarrow> string list" where
  "stage_args paths = (if paths = [] then [''add'', ''-A''] else [''add'', ''--''] @ paths)"

text \<open>The commit proper, once something is staged.\<close>

definition commit_staged :: "gitctx \<Rightarrow> trace \<Rightarrow> string \<Rightarrow> string \<Rightarrow> string list \<Rightarrow> trace \<times> (control_error + git_commit_response)" where
  "commit_staged x tr path message paths =
     (case runGit x tr path ([''-c'', ''commit.gpgsign=false'', ''commit'', ''-m'', message] @ path_args paths) of
        (tr1, out, e) \<Rightarrow>
          (if e \<noteq> Exited 0 then (tr1, Inl (control_fail ErrCodeGitFailed (sanitizeGitErr out e)))
           else case git_out x tr1 path [''rev-parse'', ''--short'', ''HEAD''] of
             (tr2, sha) \<Rightarrow> (case git_out x tr2 path [''log'', ''-1'', ''--format=%s''] of
               (tr3, subject) \<Rightarrow> (tr3, Inr \<lparr>gc_Sha = sha, gc_Subject = subject\<rparr>))))"

definition gitCommit :: "gitctx \<Rightarrow> trace \<Rightarrow> string \<Rightarrow> string \<Rightarrow> string list \<Rightarrow> trace \<times> (control_error + git_commit_response)" where
  "gitCommit x tr path message paths =
     (if validateRepoPath x path \<noteq> None then (tr, Inl (control_fail ErrCodeGitFailed ''invalid repo''))
      else if TrimSpace message = [] then (tr, Inl (control_fail ErrCodeEmptyMessage []))
      else if \<not> list_all ValidCommitPath paths then (tr, Inl (control_fail ErrCodeGitFailed ''bad path''))
      else case runGit x tr path (stage_args paths) of
        (tr1, out, e) \<Rightarrow>
          (if e \<noteq> Exited 0 then (tr1, Inl (control_fail ErrCodeGitFailed (sanitizeGitErr out e)))
           else case runGit x tr1 path ([''diff'', ''--cached'', ''--quiet''] @ path_args paths) of
             (tr2, _, e2) \<Rightarrow>
               (if e2 = Exited 0 then (tr2, Inl (control_fail ErrCodeNothingToCommit []))
                else if e2 \<noteq> Exited 1 then (tr2, Inl (control_fail ErrCodeGitFailed ''status check failed''))
                else commit_staged x tr2 path message paths)))"

definition pushBranch :: "gitctx \<Rightarrow> trace \<Rightarrow> string \<Rightarrow> string \<Rightarrow> bool \<Rightarrow> trace \<times> string \<times> git_exit" where
  "pushBranch x tr path branch setUpstream =
     runGit x tr path ([''push''] @ (if setUpstream then [''-u''] else []) @ [''origin'', branch])"

text \<open>The completion of a push or a clone: the operation, whether it succeeded, the detail.\<close>

definition runPush :: "gitctx \<Rightarrow> trace \<Rightarrow> git_push_payload \<Rightarrow> trace \<times> string \<times> bool \<times> string" where
  "runPush x tr p = (case pushBranch x tr (gp_Path p) (gp_Branch p) (gp_SetUpstream p) of
       (tr', out, e) \<Rightarrow> (tr', gp_OpID p, e = Exited 0, if e = Exited 0 then [] else sanitizeGitErr out e))"

definition runClone :: "gitctx \<Rightarrow> string option \<Rightarrow> trace \<Rightarrow> string \<Rightarrow> string \<Rightarrow> string \<Rightarrow> trace \<times> string \<times> bool \<times> string" where
  "runClone x mkdir tr url dest op_id = (case mkdir of
       Some e \<Rightarrow> (tr, op_id, False, ''prepare workspace: '' @ e)
     | None \<Rightarrow> (case exec_git x tr [''clone'', url, dest] of
         (tr', out, e) \<Rightarrow> (tr', op_id, e = Exited 0, if e = Exited 0 then [] else sanitizeGitErr out e)))"

section \<open>Projects\<close>

fun cut_char :: "char \<Rightarrow> string \<Rightarrow> (string \<times> string) option" where
  "cut_char c [] = None"
| "cut_char c (x # xs) = (if x = c then Some ([], xs) else map_option (\<lambda>(a, b). (x # a, b)) (cut_char c xs))"

definition describeRepo :: "gitctx \<Rightarrow> trace \<Rightarrow> string \<Rightarrow> string \<Rightarrow> trace \<times> project" where
  "describeRepo x tr name path =
     (case git_out x tr path [''remote'', ''get-url'', ''origin''] of (tr1, remote) \<Rightarrow>
      case head_branch x tr1 path of (tr2, branch) \<Rightarrow>
      case git_out x tr2 path [''status'', ''--porcelain''] of (tr3, st) \<Rightarrow>
      case git_out x tr3 path [''log'', ''-1'', ''--format=%cI%n%s''] of (tr4, out) \<Rightarrow>
      (let head = (if out = [] then None else cut_char CHR 0x0A out)
       in (tr4, \<lparr>pj_Name = name, pj_Path = path, pj_Remote = remote, pj_Branch = branch, pj_Dirty = (st \<noteq> []),
             pj_LastCommitAt = (case head of Some (at, _) \<Rightarrow> TrimSpace at | None \<Rightarrow> []),
             pj_LastCommitMsg = (case head of Some (_, msg) \<Rightarrow> TrimSpace msg | None \<Rightarrow> [])\<rparr>)))"

text \<open>\<open>filepath.Join\<close> of the workspace and a directory entry.\<close>

definition join_path :: "string \<Rightarrow> string \<Rightarrow> string" where
  "join_path a b = (if a = [] then (if b = [] then [] else Clean b) else Clean (a @ ''/'' @ b))"

fun list_entries :: "gitctx \<Rightarrow> trace \<Rightarrow> (string \<times> bool) list \<Rightarrow> trace \<times> project list" where
  "list_entries x tr [] = (tr, [])"
| "list_entries x tr ((name, is_dir) # es) =
     (let path = join_path (gx_workDir x) name
      in if \<not> is_dir \<or> \<not> gx_repo x path then list_entries x tr es
         else case describeRepo x tr name path of
           (tr1, p) \<Rightarrow> (case list_entries x tr1 es of (tr2, ps) \<Rightarrow> (tr2, p # ps)))"

definition listProjects :: "gitctx \<Rightarrow> trace \<Rightarrow> trace \<times> (string + project list)" where
  "listProjects x tr = (case gx_entries x of
       Inl e \<Rightarrow> (tr, Inl e)
     | Inr None \<Rightarrow> (tr, Inr [])
     | Inr (Some es) \<Rightarrow> (case list_entries x tr es of (tr', ps) \<Rightarrow> (tr', Inr ps)))"

section \<open>What may reach git\<close>

text \<open>
  A command is contained when it works on a directory under the workspace, and arguments that come
  from outside are not options: each element is the program's own, follows a separator, or does
  not start with a dash.
\<close>

definition own_args :: "string set" where
  "own_args = {''-c'', ''-b'', ''-u'', ''-m'', ''-A'', ''-1'', ''-z'', ''--'', ''--abbrev-ref'', ''--short'', ''--porcelain=v1'',
     ''--porcelain'', ''--cached'', ''--quiet'', ''--verify'', ''--format=%s'', ''--format=%cI%n%s''}"

fun args_safe :: "string list \<Rightarrow> bool" where
  "args_safe [] = True"
| "args_safe (a # as) = (a = ''--'' \<or> (a = ''-m'' \<and> as \<noteq> [] \<and> args_safe (tl as)) \<or> ((a \<in> own_args \<or> not_option a) \<and> a \<noteq> ''-m'' \<and> args_safe as))"

definition contained :: "string \<Rightarrow> string list \<Rightarrow> bool" where
  "contained workDir cmd = (\<exists>dir args. cmd = ''-C'' # dir # args \<and> under (Clean workDir) (Clean dir) \<and> args_safe args)"

lemma validateRepoPath_under:
  assumes "validateRepoPath x path = None" "rooted_path (gx_workDir x)"
  shows "under (Clean (gx_workDir x)) (Clean path)"
  using assms clean_prefix_under [OF assms(2), of path]
  by (auto simp: validateRepoPath_def validateDest_def split: option.splits if_splits)

end
