(* ===== verification/Guest_Agent.thy ===== *)
theory Guest_Agent
  imports Guest_Git Go_Json
begin

text \<open>
  The headless agent runner of the guest (\<open>guestagent/internal/ctlchan/agentrun.go\<close>): the command
  line of a provider, the parsers of the two event streams, the normalized events and the
  completion report. A stream is the list of lines the scanner yields and the error it stopped
  with; the agent process is the environment.
\<close>

section \<open>Bounded text\<close>

definition maxAgentSummary :: nat where "maxAgentSummary = 8192"
definition maxAgentStderr :: nat where "maxAgentStderr = 4096"

definition truncate_text :: "string \<Rightarrow> nat \<Rightarrow> string" where
  "truncate_text s mx = (if length s \<le> mx then s else ToValidUTF8 (take mx s))"

definition sanitizeAgentErr :: "string \<Rightarrow> string" where
  "sanitizeAgentErr s = take 200 (TrimSpace s)"

definition boundedJSON :: "json option \<Rightarrow> nat \<Rightarrow> string" where
  "boundedJSON raw limit =
     (let s = raw_text raw in if s = [] \<or> length s \<le> limit then s else ''{'' @ [CHR 0x22] @ ''_truncated'' @ [CHR 0x22] @ '':true}'')"

text \<open>\<open>cappedBuffer\<close>: it says it took everything and keeps the first \<open>max\<close> bytes.\<close>

record capped_buffer =
  cb_max :: nat
  cb_buf :: string

definition cb_Write :: "capped_buffer \<Rightarrow> string \<Rightarrow> capped_buffer \<times> nat" where
  "cb_Write b p =
     (let room = int (cb_max b) - int (length (cb_buf b))
      in (if room > 0 then (if int (length p) > room then b\<lparr>cb_buf := cb_buf b @ take (nat room) p\<rparr> else b\<lparr>cb_buf := cb_buf b @ p\<rparr>)
          else b, length p))"

section \<open>The command line\<close>

text \<open>\<open>quote\<close> is \<open>strconv.Quote\<close>, the \<open>%q\<close> of an error text.\<close>

text \<open>\<open>filepath.Base\<close>\<close>

definition Base :: "string \<Rightarrow> string" where
  "Base s =
     (if s = [] then ''.''
      else let t = rev (dropWhile (\<lambda>c. c = CHR ''/'') (rev s)) in if t = [] then ''/'' else last (split_char CHR ''/'' t))"

definition headlessBinary :: "provider_def \<Rightarrow> string" where
  "headlessBinary def = (case Fields (pd_Command def) of [] \<Rightarrow> [] | f # _ \<Rightarrow> Base f)"

definition headlessArgv :: "(string \<Rightarrow> string) \<Rightarrow> provider_def \<Rightarrow> string \<Rightarrow> string + string list" where
  "headlessArgv quote def resumeID =
     (let fields = Fields (pd_Command def)
      in if fields = [] then Inl ''provider has no launch command''
         else if headlessBinary def = ''claude'' then
           Inr (fields @ [''-p'', ''--output-format'', ''stream-json'', ''--verbose'', ''--dangerously-skip-permissions'']
             @ (if resumeID \<noteq> [] then [''--resume'', resumeID] else []))
         else if headlessBinary def = ''pi'' then
           Inr (fields @ [''--mode'', ''json''] @ (if resumeID \<noteq> [] then [''--session'', resumeID] else []))
         else Inl (''provider command '' @ quote (hd fields) @ '' is not headless-capable''))"

section \<open>Results and events\<close>

record agent_result =
  rs_SessionID :: string
  rs_IsError :: bool
  rs_Subtype :: string
  rs_Summary :: string
  rs_CostUSD :: "string list"
  rs_NumTurns :: int
  rs_DurationMS :: int

definition zero_result :: agent_result where
  "zero_result = \<lparr>rs_SessionID = [], rs_IsError = False, rs_Subtype = [], rs_Summary = [], rs_CostUSD = [],
     rs_NumTurns = 0, rs_DurationMS = 0\<rparr>"

definition text_event :: "string \<Rightarrow> agent_event_payload" where
  "text_event t = \<lparr>av_TaskID = [], av_Kind = AgentEventAssistantText, av_Text = truncate_text t AgentEventTextCap,
     av_Tool = [], av_ToolID = [], av_Input = [], av_Output = [], av_IsError = False\<rparr>"

definition tool_use_event :: "string \<Rightarrow> string \<Rightarrow> json option \<Rightarrow> agent_event_payload" where
  "tool_use_event name tid input = \<lparr>av_TaskID = [], av_Kind = AgentEventToolUse, av_Text = [], av_Tool = name, av_ToolID = tid,
     av_Input = boundedJSON input AgentEventToolCap, av_Output = [], av_IsError = False\<rparr>"

definition tool_result_event :: "string \<Rightarrow> string \<Rightarrow> bool \<Rightarrow> agent_event_payload" where
  "tool_result_event tid out err = \<lparr>av_TaskID = [], av_Kind = AgentEventToolResult, av_Text = [], av_Tool = [], av_ToolID = tid,
     av_Input = [], av_Output = truncate_text out AgentEventToolCap, av_IsError = err\<rparr>"

section \<open>The stream of Claude Code\<close>

record raw_block =
  rb_Type :: string
  rb_Text :: string
  rb_ID :: string
  rb_Name :: string
  rb_Input :: "json option"
  rb_ToolUseID :: string
  rb_Content :: "json option"
  rb_IsError :: bool

definition dec_raw_block :: "jvalue \<Rightarrow> raw_block option" where
  "dec_raw_block = dec_struct (\<lambda>kvs.
     case (dec_str ''type'' kvs, dec_str ''text'' kvs, dec_str ''id'' kvs, dec_str ''name'' kvs,
           dec_str ''tool_use_id'' kvs, dec_bool ''is_error'' kvs) of
       (Some ty, Some tx, Some i, Some nm, Some tu, Some er) \<Rightarrow>
         Some \<lparr>rb_Type = ty, rb_Text = tx, rb_ID = i, rb_Name = nm, rb_Input = dec_raw ''input'' kvs, rb_ToolUseID = tu,
           rb_Content = dec_raw ''content'' kvs, rb_IsError = er\<rparr>
     | _ \<Rightarrow> None)"

record stream_event =
  se_Type :: string
  se_Subtype :: string
  se_SessionID :: string
  se_IsError :: bool
  se_Result :: string
  se_TotalCost :: "string list"
  se_NumTurns :: int
  se_Duration :: int
  se_Message :: "raw_block list option"

definition dec_raw_message :: "jvalue \<Rightarrow> raw_block list option" where
  "dec_raw_message = dec_struct (dec_field (set_list dec_raw_block) [] ''content'')"

definition dec_stream_event :: "jvalue \<Rightarrow> stream_event option" where
  "dec_stream_event = dec_struct (\<lambda>kvs.
     case (dec_str ''type'' kvs, dec_str ''subtype'' kvs, dec_str ''session_id'' kvs, dec_bool ''is_error'' kvs, dec_str ''result'' kvs) of
       (Some ty, Some st, Some si, Some er, Some rs) \<Rightarrow>
         (case (dec_field set_float [] ''total_cost_usd'' kvs, dec_int ''num_turns'' kvs, dec_int ''duration_ms'' kvs,
                dec_field (set_ptr dec_raw_message) None ''message'' kvs) of
            (Some tc, Some nt, Some du, Some ms) \<Rightarrow>
              Some \<lparr>se_Type = ty, se_Subtype = st, se_SessionID = si, se_IsError = er, se_Result = rs, se_TotalCost = tc,
                se_NumTurns = nt, se_Duration = du, se_Message = ms\<rparr>
          | _ \<Rightarrow> None)
     | _ \<Rightarrow> None)"

definition toolResultText :: "json option \<Rightarrow> string" where
  "toolResultText raw = (case raw of
       None \<Rightarrow> []
     | Some j \<Rightarrow> (case set_str [] (json_val j) of
         Some s \<Rightarrow> s
       | None \<Rightarrow> (case set_list dec_raw_block [] (json_val j) of
           Some bs \<Rightarrow> concat (map rb_Text (filter (\<lambda>b. rb_Type b = ''text'' \<or> rb_Text b \<noteq> []) bs))
         | None \<Rightarrow> json_text j)))"

definition normalizeBlock :: "raw_block \<Rightarrow> agent_event_payload list" where
  "normalizeBlock b =
     (if rb_Type b = ''text'' then (if TrimSpace (rb_Text b) \<noteq> [] then [text_event (rb_Text b)] else [])
      else if rb_Type b = ''tool_use'' then [tool_use_event (rb_Name b) (rb_ID b) (rb_Input b)]
      else if rb_Type b = ''tool_result'' then [tool_result_event (rb_ToolUseID b) (toolResultText (rb_Content b)) (rb_IsError b)]
      else [])"

definition normalizeBlocks :: "raw_block list \<Rightarrow> agent_event_payload list" where
  "normalizeBlocks blocks = concat (map normalizeBlock blocks)"

text \<open>What a parser has so far: the result, whether the terminal event was seen, the events relayed.\<close>

type_synonym parse_state = "agent_result \<times> bool \<times> agent_event_payload list"

definition stream_step :: "stream_event \<Rightarrow> parse_state \<Rightarrow> parse_state" where
  "stream_step ev st = (case st of (res, saw, out) \<Rightarrow>
     let res1 = (if se_SessionID ev \<noteq> [] then res\<lparr>rs_SessionID := se_SessionID ev\<rparr> else res)
     in if se_Type ev = ''result'' then
          (res1\<lparr>rs_IsError := se_IsError ev, rs_Subtype := se_Subtype ev, rs_Summary := truncate_text (se_Result ev) maxAgentSummary,
             rs_CostUSD := se_TotalCost ev, rs_NumTurns := se_NumTurns ev, rs_DurationMS := se_Duration ev\<rparr>, True, out)
        else (res1, saw, out @ (case se_Message ev of None \<Rightarrow> [] | Some bs \<Rightarrow> normalizeBlocks bs)))"

definition parse_line :: "jsonctx \<Rightarrow> (jvalue \<Rightarrow> 'e option) \<Rightarrow> ('e \<Rightarrow> parse_state \<Rightarrow> parse_state) \<Rightarrow> string \<Rightarrow> parse_state \<Rightarrow> parse_state" where
  "parse_line jx dec step line st =
     (if TrimSpace line = [] then st
      else case Unmarshal jx dec (TrimSpace line) of None \<Rightarrow> st | Some ev \<Rightarrow> step ev st)"

definition parseStreamJSON :: "jsonctx \<Rightarrow> string list \<Rightarrow> parse_state" where
  "parseStreamJSON jx lines = fold (parse_line jx dec_stream_event stream_step) lines (zero_result, False, [])"

section \<open>The stream of pi\<close>

record pi_block =
  pb_Type :: string
  pb_Text :: string

definition dec_pi_block :: "jvalue \<Rightarrow> pi_block option" where
  "dec_pi_block = dec_struct (\<lambda>kvs. case (dec_str ''type'' kvs, dec_str ''text'' kvs) of
     (Some ty, Some tx) \<Rightarrow> Some \<lparr>pb_Type = ty, pb_Text = tx\<rparr> | _ \<Rightarrow> None)"

record pi_message =
  pm_Role :: string
  pm_Content :: "pi_block list"
  pm_Usage :: "string list option"
  pm_StopReason :: string
  pm_ErrorMessage :: string

definition set_struct :: "(jvalue \<Rightarrow> 'a option) \<Rightarrow> 'a \<Rightarrow> jvalue \<Rightarrow> 'a option" where
  "set_struct f a v = (if v = JNull then Some a else f v)"

definition dec_pi_usage :: "jvalue \<Rightarrow> string list option" where
  "dec_pi_usage = dec_struct (dec_field (set_struct (dec_struct (dec_field set_float [] ''total''))) [] ''cost'')"

definition dec_pi_message :: "jvalue \<Rightarrow> pi_message option" where
  "dec_pi_message = dec_struct (\<lambda>kvs.
     case (dec_str ''role'' kvs, dec_field (set_list dec_pi_block) [] ''content'' kvs,
           dec_field (set_ptr dec_pi_usage) None ''usage'' kvs, dec_str ''stopReason'' kvs, dec_str ''errorMessage'' kvs) of
       (Some ro, Some co, Some us, Some sr, Some em) \<Rightarrow>
         Some \<lparr>pm_Role = ro, pm_Content = co, pm_Usage = us, pm_StopReason = sr, pm_ErrorMessage = em\<rparr>
     | _ \<Rightarrow> None)"

record pi_event =
  pe_Type :: string
  pe_ID :: string
  pe_Message :: "pi_message option"
  pe_ToolCallID :: string
  pe_ToolName :: string
  pe_Args :: "json option"
  pe_Result :: "json option"
  pe_IsError :: bool

definition dec_pi_event :: "jvalue \<Rightarrow> pi_event option" where
  "dec_pi_event = dec_struct (\<lambda>kvs.
     case (dec_str ''type'' kvs, dec_str ''id'' kvs, dec_field (set_ptr dec_pi_message) None ''message'' kvs,
           dec_str ''toolCallId'' kvs, dec_str ''toolName'' kvs, dec_bool ''isError'' kvs) of
       (Some ty, Some i, Some ms, Some tc, Some tn, Some er) \<Rightarrow>
         Some \<lparr>pe_Type = ty, pe_ID = i, pe_Message = ms, pe_ToolCallID = tc, pe_ToolName = tn, pe_Args = dec_raw ''args'' kvs,
           pe_Result = dec_raw ''result'' kvs, pe_IsError = er\<rparr>
     | _ \<Rightarrow> None)"

definition piToolResultText :: "json option \<Rightarrow> string" where
  "piToolResultText raw = (case raw of
       None \<Rightarrow> []
     | Some j \<Rightarrow> (case set_str [] (json_val j) of Some s \<Rightarrow> s | None \<Rightarrow> json_text j))"

text \<open>The texts of an assistant message that are not blank, relayed one by one and joined as the summary.\<close>

definition pi_texts :: "pi_message \<Rightarrow> string list" where
  "pi_texts ms = filter (\<lambda>t. TrimSpace t \<noteq> []) (map pb_Text (filter (\<lambda>b. pb_Type b = ''text'') (pm_Content ms)))"

definition pi_message_end :: "pi_message \<Rightarrow> parse_state \<Rightarrow> parse_state" where
  "pi_message_end ms st = (case st of (res, saw, out) \<Rightarrow>
     let res1 = (case pm_Usage ms of None \<Rightarrow> res | Some c \<Rightarrow> res\<lparr>rs_CostUSD := rs_CostUSD res @ c\<rparr>);
         texts = pi_texts ms; summary = join_with [CHR 0x0A] texts;
         res2 = (if summary \<noteq> [] then res1\<lparr>rs_Summary := truncate_text summary maxAgentSummary\<rparr> else res1);
         res3 = (if pm_StopReason ms = ''error'' \<or> pm_StopReason ms = ''aborted''
                 then res2\<lparr>rs_IsError := True, rs_Subtype := pm_ErrorMessage ms\<rparr> else res2)
     in (res3, saw, out @ map text_event texts))"

definition pi_step :: "pi_event \<Rightarrow> parse_state \<Rightarrow> parse_state" where
  "pi_step ev st = (case st of (res, saw, out) \<Rightarrow>
     if pe_Type ev = ''session'' then (if pe_ID ev \<noteq> [] then res\<lparr>rs_SessionID := pe_ID ev\<rparr> else res, saw, out)
     else if pe_Type ev = ''tool_execution_start'' then (res, saw, out @ [tool_use_event (pe_ToolName ev) (pe_ToolCallID ev) (pe_Args ev)])
     else if pe_Type ev = ''tool_execution_end'' then
       (res, saw, out @ [tool_result_event (pe_ToolCallID ev) (piToolResultText (pe_Result ev)) (pe_IsError ev)])
     else if pe_Type ev = ''message_end'' then
       (case pe_Message ev of None \<Rightarrow> st | Some ms \<Rightarrow> (if pm_Role ms \<noteq> ''assistant'' then st else pi_message_end ms st))
     else if pe_Type ev = ''turn_end'' then (res\<lparr>rs_NumTurns := rs_NumTurns res + 1\<rparr>, saw, out)
     else if pe_Type ev = ''agent_end'' then (res, True, out)
     else st)"

definition parsePiStream :: "jsonctx \<Rightarrow> string list \<Rightarrow> parse_state" where
  "parsePiStream jx lines = fold (parse_line jx dec_pi_event pi_step) lines (zero_result, False, [])"

definition parseHeadlessStream :: "jsonctx \<Rightarrow> string \<Rightarrow> string list \<Rightarrow> parse_state" where
  "parseHeadlessStream jx bin lines = (if bin = ''pi'' then parsePiStream jx lines else parseStreamJSON jx lines)"

section \<open>A run\<close>

text \<open>
  What a started process does: the lines of its output, the error its reader stopped with, the
  chunks of its error output, and the error of \<open>Wait\<close>. \<open>Inl\<close> is a process that does not start.
\<close>

record agent_proc =
  pr_lines :: "string list"
  pr_scanErr :: "string option"
  pr_stderr :: "string list"
  pr_waitErr :: "string option"

record agentctx =
  ax_json :: jsonctx
  ax_quote :: "string \<Rightarrow> string"
  ax_start :: "string list \<Rightarrow> string \<Rightarrow> (string \<times> string) list \<Rightarrow> string \<Rightarrow> string + agent_proc"

definition stderr_of :: "agent_proc \<Rightarrow> string" where
  "stderr_of p = cb_buf (fold (\<lambda>chunk b. fst (cb_Write b chunk)) (pr_stderr p) \<lparr>cb_max = maxAgentStderr, cb_buf = []\<rparr>)"

definition no_result_detail :: "agent_proc \<Rightarrow> string" where
  "no_result_detail p =
     (let d0 = TrimSpace (stderr_of p);
          d1 = (if d0 = [] then (case pr_waitErr p of Some e \<Rightarrow> e | None \<Rightarrow> []) else d0);
          d2 = (if d1 = [] then (case pr_scanErr p of Some e \<Rightarrow> e | None \<Rightarrow> []) else d1)
      in if d2 = [] then ''agent produced no result'' else d2)"

text \<open>The injected providers, none when there is no secret store; the events relayed and the outcome.\<close>

definition runHeadless ::
  "gitctx \<Rightarrow> agentctx \<Rightarrow> (string \<Rightarrow> provider_def option) option \<Rightarrow> agent_run_payload \<Rightarrow>
   agent_event_payload list \<times> (string + agent_result)" where
  "runHeadless x ax sec p = (case sec of
       None \<Rightarrow> ([], Inl ''no provider secrets injected'')
     | Some getp \<Rightarrow> (case getp (ar_Provider p) of
         None \<Rightarrow> ([], Inl (''provider '' @ ax_quote ax (ar_Provider p) @ '' not injected''))
       | Some def \<Rightarrow> (case headlessArgv (ax_quote ax) def (ar_SessionID p) of
           Inl e \<Rightarrow> ([], Inl e)
         | Inr argv \<Rightarrow> (case validateRepoPath x (ar_Path p) of
             Some e \<Rightarrow> ([], Inl e)
           | None \<Rightarrow> (case ax_start ax argv (ar_Path p) (pd_Env def) (ar_Prompt p) of
               Inl e \<Rightarrow> ([], Inl e)
             | Inr pr \<Rightarrow> (case parseHeadlessStream (ax_json ax) (headlessBinary def) (pr_lines pr) of
                 (res, saw, evs) \<Rightarrow> (evs, if saw then Inr res else Inl (no_result_detail pr))))))))"

definition agentDonePayload :: "string \<Rightarrow> string + agent_result \<Rightarrow> bool \<Rightarrow> agent_done_payload" where
  "agentDonePayload taskID outcome canceled =
     (let zero = \<lparr>ad_TaskID = taskID, ad_OK = False, ad_Canceled = False, ad_SessionID = [], ad_Summary = [], ad_CostUSD = [],
                   ad_NumTurns = 0, ad_DurationMS = 0, ad_Error = []\<rparr>
      in if canceled then zero\<lparr>ad_Canceled := True, ad_Error := ''canceled''\<rparr>
         else case outcome of
           Inl e \<Rightarrow> zero\<lparr>ad_Error := sanitizeAgentErr e\<rparr>
         | Inr res \<Rightarrow>
             zero\<lparr>ad_OK := \<not> rs_IsError res, ad_SessionID := rs_SessionID res, ad_Summary := rs_Summary res,
               ad_CostUSD := rs_CostUSD res, ad_NumTurns := rs_NumTurns res, ad_DurationMS := rs_DurationMS res,
               ad_Error := (if rs_IsError res then (if rs_Subtype res = [] then ''agent reported an error'' else rs_Subtype res) else [])\<rparr>)"

section \<open>Bounds\<close>

lemma truncate_length: "length (truncate_text s mx) \<le> mx"
proof (cases "length s \<le> mx")
  case False
  with ToValidUTF8_length [of "take mx s"] show ?thesis by (simp add: truncate_text_def)
qed (simp add: truncate_text_def)

lemma boundedJSON_length: "24 \<le> limit \<Longrightarrow> length (boundedJSON raw limit) \<le> limit"
  by (simp add: boundedJSON_def Let_def)

text \<open>What an event may hold on its way to the control plane: the fields of its kind, within the caps.\<close>

definition event_bounded :: "agent_event_payload \<Rightarrow> bool" where
  "event_bounded e = (length (av_Text e) \<le> AgentEventTextCap \<and> length (av_Input e) \<le> AgentEventToolCap
     \<and> length (av_Output e) \<le> AgentEventToolCap
     \<and> ((av_Kind e = AgentEventAssistantText \<and> av_Tool e = [] \<and> av_ToolID e = [] \<and> av_Input e = [] \<and> av_Output e = [] \<and> \<not> av_IsError e)
        \<or> (av_Kind e = AgentEventToolUse \<and> av_Text e = [] \<and> av_Output e = [] \<and> \<not> av_IsError e)
        \<or> (av_Kind e = AgentEventToolResult \<and> av_Text e = [] \<and> av_Tool e = [] \<and> av_Input e = [])))"

lemma event_bounded_forms [simp]:
  "event_bounded (text_event t)" "event_bounded (tool_use_event n i j)" "event_bounded (tool_result_event i s b)"
  using truncate_length boundedJSON_length [of AgentEventToolCap j]
  by (simp_all add: event_bounded_def text_event_def tool_use_event_def tool_result_event_def AgentEventToolCap_def)

definition parse_ok :: "parse_state \<Rightarrow> bool" where
  "parse_ok st = (case st of (res, saw, out) \<Rightarrow> length (rs_Summary res) \<le> maxAgentSummary \<and> list_all event_bounded out)"

lemma normalizeBlocks_bounded: "list_all event_bounded (normalizeBlocks bs)"
  by (induction bs) (simp_all add: normalizeBlocks_def normalizeBlock_def)

lemma stream_step_ok: "parse_ok st \<Longrightarrow> parse_ok (stream_step ev st)"
  using truncate_length normalizeBlocks_bounded
  by (cases st) (auto simp: parse_ok_def stream_step_def Let_def split: option.split)

lemma pi_message_end_ok: "parse_ok st \<Longrightarrow> parse_ok (pi_message_end ms st)"
  using truncate_length
  by (cases st) (auto simp: parse_ok_def pi_message_end_def Let_def list_all_iff split: option.split)

lemma pi_step_ok: "parse_ok st \<Longrightarrow> parse_ok (pi_step ev st)"
  using pi_message_end_ok [of st]
  by (cases st) (auto simp: pi_step_def parse_ok_def list_all_iff split: option.split)

lemma parse_line_ok: "(\<And>ev st. parse_ok st \<Longrightarrow> parse_ok (step ev st)) \<Longrightarrow> parse_ok st \<Longrightarrow> parse_ok (parse_line jx dec step l st)"
  by (simp add: parse_line_def split: option.splits)

lemma fold_inv: "(\<And>x s. P s \<Longrightarrow> P (f x s)) \<Longrightarrow> P s \<Longrightarrow> P (fold f xs s)"
  by (induction xs arbitrary: s) simp_all

lemma fold_lines_ok:
  assumes "\<And>ev st. parse_ok st \<Longrightarrow> parse_ok (step ev st)"
  shows "parse_ok (fold (parse_line jx dec step) lines (zero_result, False, []))"
proof (rule fold_inv)
  show "parse_ok (zero_result, False, [])" by (simp add: parse_ok_def zero_result_def)
qed (rule parse_line_ok [OF assms])

lemma parseHeadlessStream_ok: "parse_ok (parseHeadlessStream jx bin lines)"
  by (simp add: parseHeadlessStream_def parsePiStream_def parseStreamJSON_def fold_lines_ok pi_step_ok stream_step_ok)

text \<open>The buffer keeps a prefix of what was written.\<close>

lemma cb_Write_take:
  assumes "cb_buf b = take (cb_max b) s"
  shows "cb_buf (fst (cb_Write b p)) = take (cb_max b) (s @ p)" "cb_max (fst (cb_Write b p)) = cb_max b"
proof -
  show "cb_buf (fst (cb_Write b p)) = take (cb_max b) (s @ p)"
    by (cases "length s < cb_max b") (auto simp: cb_Write_def Let_def assms nat_diff_distrib' nat_le_iff)
qed (simp add: cb_Write_def Let_def)

lemma stderr_of_prefix: "stderr_of p = take maxAgentStderr (concat (pr_stderr p))"
proof -
  have "cb_buf (fold (\<lambda>chunk b. fst (cb_Write b chunk)) cs b) = take (cb_max b) (s @ concat cs)"
    if "cb_buf b = take (cb_max b) s" for cs b s
    using that
  proof (induction cs arbitrary: b s)
    case (Cons c cs)
    from Cons.IH [of "fst (cb_Write b c)" "s @ c"] cb_Write_take [OF Cons.prems, of c] show ?case by simp
  qed simp
  from this [of "\<lparr>cb_max = maxAgentStderr, cb_buf = []\<rparr>" "[]"] show ?thesis by (simp add: stderr_of_def)
qed

end
