(* ===== verification/Guest_Claude.thy ===== *)
theory Guest_Claude
  imports Go_Json "HOL-Library.AList"
begin

text \<open>
  The guest's management of the Claude Code attribution (\<open>guestagent/internal/ctlchan/claude.go\<close>):
  the user's \<open>~/.claude/settings.json\<close> is edited in place, and a marker file says whether the
  managed keys are ours. The settings file is absent, not JSON, or a document; a document that is
  written is the value it decodes to. \<open>claudectx\<close> holds the errors of the file system.
\<close>

datatype settings_file = NoFile | NotJson | Document jvalue

record claude_files =
  cl_settings :: settings_file
  cl_marker :: bool

record claudectx =
  cx_read :: "string option"
  cx_mkdir :: "string option"
  cx_write :: "string option"
  cx_chown :: "string option"
  cx_mkdirMarker :: "string option"
  cx_writeMarker :: "string option"
  cx_chownMarker :: "string option"
  cx_remove :: "string option"

definition claudeIncludeCoAuthor :: string where "claudeIncludeCoAuthor = ''includeCoAuthoredBy''"
definition claudeAttributionKey :: string where "claudeAttributionKey = ''attribution''"

type_synonym json_map = "(string \<times> json) list"

definition mem_json :: "jvalue \<Rightarrow> json" where
  "mem_json v = Json [] v"

text \<open>
  \<open>json.Unmarshal\<close> into a \<open>map[string]any\<close>: an object whose last binding of a key counts, \<open>null\<close>
  leaves the nil map, anything else is an error.
\<close>

fun to_map :: "json_map \<Rightarrow> json_map" where
  "to_map [] = []"
| "to_map ((k, j) # kvs) = (let m = to_map kvs in if k \<in> fst ` set m then m else (k, j) # m)"

definition readClaudeSettings :: "claudectx \<Rightarrow> claude_files \<Rightarrow> string + json_map option" where
  "readClaudeSettings cx fs = (case cl_settings fs of
       NoFile \<Rightarrow> Inr None
     | f \<Rightarrow> (case cx_read cx of
         Some e \<Rightarrow> Inl (''read claude settings: '' @ e)
       | None \<Rightarrow> (case f of
           Document (JObj kvs) \<Rightarrow> Inr (Some (to_map kvs))
         | Document JNull \<Rightarrow> Inr None
         | _ \<Rightarrow> Inl ''claude settings is not valid JSON, refusing to modify'')))"

definition writeClaudeSettings :: "claudectx \<Rightarrow> claude_files \<Rightarrow> json_map \<Rightarrow> claude_files \<times> string option" where
  "writeClaudeSettings cx fs m = (case cx_mkdir cx of
       Some e \<Rightarrow> (fs, Some e)
     | None \<Rightarrow> (case cx_write cx of
         Some e \<Rightarrow> (fs, Some (''write claude settings: '' @ e))
       | None \<Rightarrow> (fs\<lparr>cl_settings := Document (JObj m)\<rparr>, cx_chown cx)))"

definition writeAttributionMarker :: "claudectx \<Rightarrow> claude_files \<Rightarrow> claude_files \<times> string option" where
  "writeAttributionMarker cx fs = (case cx_mkdirMarker cx of
       Some e \<Rightarrow> (fs, Some e)
     | None \<Rightarrow> (case cx_writeMarker cx of
         Some e \<Rightarrow> (fs, Some (''write attribution marker: '' @ e))
       | None \<Rightarrow> (fs\<lparr>cl_marker := True\<rparr>, cx_chownMarker cx)))"

definition as_map :: "json option \<Rightarrow> json_map option" where
  "as_map j = (case map_option json_val j of Some (JObj kvs) \<Rightarrow> Some (to_map kvs) | _ \<Rightarrow> None)"

definition suppress_map :: "json_map \<Rightarrow> json_map" where
  "suppress_map settings =
     (let s1 = AList.update claudeIncludeCoAuthor (mem_json (JBool False)) settings;
          attr = (case as_map (map_of s1 claudeAttributionKey) of None \<Rightarrow> [] | Some a \<Rightarrow> a);
          attr1 = AList.update ''pr'' (mem_json (JStr [])) (AList.update ''commit'' (mem_json (JStr [])) attr)
      in AList.update claudeAttributionKey (mem_json (JObj attr1)) s1)"

definition suppressClaudeAttribution :: "claudectx \<Rightarrow> claude_files \<Rightarrow> claude_files \<times> string option" where
  "suppressClaudeAttribution cx fs = (case readClaudeSettings cx fs of
       Inl e \<Rightarrow> (fs, Some e)
     | Inr settings \<Rightarrow>
         (case writeClaudeSettings cx fs (suppress_map (case settings of None \<Rightarrow> [] | Some m \<Rightarrow> m)) of
            (fs1, Some e) \<Rightarrow> (fs1, Some e)
          | (fs1, None) \<Rightarrow> writeAttributionMarker cx fs1))"

definition is_val :: "jvalue \<Rightarrow> json option \<Rightarrow> bool" where
  "is_val v j = (map_option json_val j = Some v)"

definition delete_if :: "string \<Rightarrow> jvalue \<Rightarrow> json_map \<Rightarrow> json_map" where
  "delete_if k v m = (if is_val v (map_of m k) then AList.delete k m else m)"

definition restore_map :: "json_map \<Rightarrow> json_map" where
  "restore_map settings =
     (let s1 = delete_if claudeIncludeCoAuthor (JBool False) settings
      in case as_map (map_of s1 claudeAttributionKey) of
           None \<Rightarrow> s1
         | Some attr \<Rightarrow>
             (let attr1 = delete_if ''pr'' (JStr []) (delete_if ''commit'' (JStr []) attr)
              in if attr1 = [] then AList.delete claudeAttributionKey s1
                 else AList.update claudeAttributionKey (mem_json (JObj attr1)) s1))"

definition restoreClaudeAttribution :: "claudectx \<Rightarrow> claude_files \<Rightarrow> claude_files \<times> string option" where
  "restoreClaudeAttribution cx fs =
     (if \<not> cl_marker fs then (fs, None)
      else case readClaudeSettings cx fs of
        Inl e \<Rightarrow> (fs, Some e)
      | Inr settings \<Rightarrow>
          (case (case settings of None \<Rightarrow> (fs, None) | Some m \<Rightarrow> writeClaudeSettings cx fs (restore_map m)) of
             (fs1, Some e) \<Rightarrow> (fs1, Some e)
           | (fs1, None) \<Rightarrow> (case cx_remove cx of
               Some e \<Rightarrow> (fs1, Some (''remove attribution marker: '' @ e))
             | None \<Rightarrow> (fs1\<lparr>cl_marker := False\<rparr>, None))))"

definition applyClaudeConfig :: "claudectx \<Rightarrow> claude_files \<Rightarrow> bool \<Rightarrow> claude_files \<times> string option" where
  "applyClaudeConfig cx fs attribution =
     (if attribution then restoreClaudeAttribution cx fs else suppressClaudeAttribution cx fs)"

section \<open>Lemmas\<close>

text \<open>What a decoded document says about a key.\<close>

definition setting :: "settings_file \<Rightarrow> string \<Rightarrow> jvalue option" where
  "setting f k = (case f of Document (JObj kvs) \<Rightarrow> map_option json_val (map_of (to_map kvs) k) | _ \<Rightarrow> None)"

lemma to_map_distinct: "distinct (map fst (to_map kvs))"
  by (induction kvs) (auto simp: Let_def)

lemma to_map_id: "distinct (map fst m) \<Longrightarrow> to_map m = m"
  by (induction m) (auto simp: Let_def)

lemma keys_update: "distinct (map fst m) \<Longrightarrow> distinct (map fst (AList.update k v m))"
  by (rule AList.distinct_update)

lemma suppress_map_distinct: "distinct (map fst m) \<Longrightarrow> distinct (map fst (suppress_map m))"
  by (simp add: suppress_map_def Let_def AList.distinct_update)

lemma delete_if_of: "map_of (delete_if k v m) j = (if j = k \<and> is_val v (map_of m k) then None else map_of m j)"
  by (auto simp: delete_if_def AList.delete_conv')

lemma delete_if_distinct: "distinct (map fst m) \<Longrightarrow> distinct (map fst (delete_if k v m))"
  by (simp add: delete_if_def AList.distinct_delete)

lemma restore_map_distinct: "distinct (map fst m) \<Longrightarrow> distinct (map fst (restore_map m))"
  by (auto simp: restore_map_def Let_def AList.distinct_update AList.distinct_delete delete_if_distinct split: option.split)

text \<open>Other keys are untouched.\<close>

lemma suppress_other: "k \<noteq> claudeIncludeCoAuthor \<Longrightarrow> k \<noteq> claudeAttributionKey \<Longrightarrow> map_of (suppress_map m) k = map_of m k"
  by (simp add: suppress_map_def Let_def AList.update_conv')

lemma restore_other: "k \<noteq> claudeIncludeCoAuthor \<Longrightarrow> k \<noteq> claudeAttributionKey \<Longrightarrow> map_of (restore_map m) k = map_of m k"
  by (auto simp: restore_map_def Let_def AList.update_conv' AList.delete_conv' delete_if_of split: option.split)

text \<open>A map that says nothing about attribution comes back as it was.\<close>

lemma keys_differ: "claudeIncludeCoAuthor \<noteq> claudeAttributionKey"
  by (simp add: claudeIncludeCoAuthor_def claudeAttributionKey_def)

lemma restore_suppress:
  assumes "map_of m claudeIncludeCoAuthor = None" "map_of m claudeAttributionKey = None"
  shows "map_of (restore_map (suppress_map m)) k = map_of m k"
proof -
  have a: "map_of (suppress_map m) claudeIncludeCoAuthor = Some (mem_json (JBool False))"
    "map_of (suppress_map m) claudeAttributionKey
       = Some (mem_json (JObj [(''commit'', mem_json (JStr [])), (''pr'', mem_json (JStr []))]))"
    using keys_differ assms(2) by (auto simp: suppress_map_def Let_def AList.update_conv' as_map_def)
  then have "restore_map (suppress_map m) =
      AList.delete claudeAttributionKey (AList.delete claudeIncludeCoAuthor (suppress_map m))"
    using keys_differ
    by (simp add: restore_map_def Let_def delete_if_def is_val_def mem_json_def AList.delete_conv' as_map_def)
  then show ?thesis using assms suppress_other [of k m] by (auto simp: AList.delete_conv')
qed

end
