(* ===== verification/Guest_Control.thy ===== *)
theory Guest_Control
  imports Guest_Agent Guest_Claude
begin

text \<open>
  The manager of the guest's control channel (\<open>guestagent/internal/ctlchan/manager.go\<close> and the
  registry of \<open>agentrun.go\<close>): the dispatch of requests, the credential cache and the runs of the
  headless agent. A request returns its answer and may start a job; a job is a goroutine, and each
  of its interactions with the shared state is one step. Frames handed to a connection are kept
  in \<open>gm_sent\<close> with the connection's number.
\<close>

section \<open>State\<close>

record git_credential =
  cd_Username :: string
  cd_Password :: string
  cd_Expiry :: string

record cred_entry =
  ce_resp :: git_credential
  ce_expires :: int

record agent_run =
  rn_canceled :: bool
  rn_ctxDone :: bool

datatype guest_note =
    GitCloneDone string bool string
  | GitPushDone string bool string
  | AgentDone agent_done_payload
  | AgentEvent agent_event_payload

datatype guest_job =
    CloneJob string string string
  | PushJob git_push_payload
  | AgentJob nat agent_run_payload
  | AgentRelay nat agent_run_payload "agent_event_payload list" "string + agent_result"
  | AgentReported nat agent_run_payload

record guest_mgr =
  gm_active :: "nat option"
  gm_cache :: "(string \<times> cred_entry) list"
  gm_runs :: "(string \<times> nat) list"
  gm_heap :: "agent_run list"
  gm_jobs :: "guest_job list"
  gm_trace :: trace
  gm_sent :: "(nat \<times> guest_note) list"
  gm_kv :: "(string \<times> string) list option"
  gm_gitconfig :: "string option"
  gm_claude :: claude_files

text \<open>The environment: git, the agent process, the injected providers, the disk.\<close>

record guestctx =
  gc_git :: gitctx
  gc_agent :: agentctx
  gc_sec :: "(string \<Rightarrow> provider_def option) option"
  gc_claude :: claudectx
  gc_kvSetFails :: "string \<Rightarrow> string \<Rightarrow> bool"
  gc_configFails :: bool
  gc_mkWorkspace :: "string option"
  gc_homeDir :: string

text \<open>\<open>New\<close>: the home and workspace directories from the shell environment.\<close>

fun env_dirs :: "string list \<Rightarrow> string \<times> string \<Rightarrow> string \<times> string" where
  "env_dirs [] d = d"
| "env_dirs (kvp # env) (home, work) =
     env_dirs env (case cut_char CHR ''='' kvp of
         None \<Rightarrow> (home, work)
       | Some (k, v) \<Rightarrow> (if k = ''HOME'' then (v, work) else if k = ''PROTEOS_WORKSPACE'' then (home, v) else (home, work)))"

definition NewGuestMgr :: "(string \<times> string) list option \<Rightarrow> claude_files \<Rightarrow> guest_mgr" where
  "NewGuestMgr kv cl = \<lparr>gm_active = None, gm_cache = [], gm_runs = [], gm_heap = [], gm_jobs = [], gm_trace = [], gm_sent = [],
     gm_kv = kv, gm_gitconfig = None, gm_claude = cl\<rparr>"

definition setActive :: "guest_mgr \<Rightarrow> nat \<Rightarrow> guest_mgr" where
  "setActive m c = m\<lparr>gm_active := Some c\<rparr>"

definition clearActive :: "guest_mgr \<Rightarrow> nat \<Rightarrow> guest_mgr" where
  "clearActive m c = (if gm_active m = Some c then m\<lparr>gm_active := None\<rparr> else m)"

text \<open>A notification on the current connection; without one it is dropped.\<close>

definition send_note :: "guest_mgr \<Rightarrow> guest_note \<Rightarrow> guest_mgr" where
  "send_note m n = (case gm_active m of None \<Rightarrow> m | Some c \<Rightarrow> m\<lparr>gm_sent := gm_sent m @ [(c, n)]\<rparr>)"

section \<open>Credentials\<close>

text \<open>Times are nanoseconds; \<open>parse_time\<close> is \<open>time.Parse(time.RFC3339, _)\<close>.\<close>

definition credCacheTTL :: int where "credCacheTTL = 60 * 1000000000"

definition cachedCred :: "guest_mgr \<Rightarrow> int \<Rightarrow> string \<Rightarrow> guest_mgr \<times> git_credential option" where
  "cachedCred m now key = (case map_of (gm_cache m) key of
       None \<Rightarrow> (m\<lparr>gm_cache := AList.delete key (gm_cache m)\<rparr>, None)
     | Some e \<Rightarrow> (if now > ce_expires e then (m\<lparr>gm_cache := AList.delete key (gm_cache m)\<rparr>, None)
                  else (m, Some (ce_resp e))))"

definition storeCred :: "(string \<Rightarrow> int option) \<Rightarrow> guest_mgr \<Rightarrow> int \<Rightarrow> string \<Rightarrow> git_credential \<Rightarrow> guest_mgr" where
  "storeCred parse_time m now key resp =
     (let exp0 = now + credCacheTTL;
          exp = (if cd_Expiry resp = [] then exp0
                 else case parse_time (cd_Expiry resp) of Some t \<Rightarrow> (if t < exp0 then t else exp0) | None \<Rightarrow> exp0)
      in m\<lparr>gm_cache := AList.update key \<lparr>ce_resp = resp, ce_expires = exp\<rparr> (gm_cache m)\<rparr>)"

definition cred_key :: "string \<Rightarrow> string \<Rightarrow> string" where
  "cred_key host protocol = protocol @ ''://'' @ host"

text \<open>
  \<open>Credential\<close>: the cache, else a round trip on the current connection (\<open>ask\<close> is \<open>conn.request\<close>
  with the decoded answer, and the time at which it arrives).
\<close>

definition Credential ::
  "(string \<Rightarrow> int option) \<Rightarrow> (nat \<Rightarrow> string \<Rightarrow> string \<Rightarrow> int \<times> (control_error + git_credential)) \<Rightarrow> guest_mgr \<Rightarrow> int \<Rightarrow> string \<Rightarrow> string \<Rightarrow>
   guest_mgr \<times> (control_error + git_credential)" where
  "Credential parse_time ask m now host protocol =
     (let key = cred_key host protocol
      in case cachedCred m now key of
           (m1, Some r) \<Rightarrow> (m1, Inr r)
         | (m1, None) \<Rightarrow> (case gm_active m1 of
             None \<Rightarrow> (m1, Inl (control_fail ErrCodeUnavailable ''no control channel''))
           | Some c \<Rightarrow> (case ask c host protocol of
               (_, Inl e) \<Rightarrow> (m1, Inl e)
             | (later, Inr resp) \<Rightarrow> (storeCred parse_time m1 later key resp, Inr resp))))"

section \<open>Git configuration\<close>

record git_configure =
  gq_Name :: string
  gq_Email :: string
  gq_Helper :: string

definition HelperBinPath :: string where "HelperBinPath = ''/usr/local/bin/guestagent git-credential''"

definition nl :: string where "nl = [CHR 0x0A]"
definition tab :: string where "tab = [CHR 0x09]"

definition gitconfig_text :: "string \<Rightarrow> git_configure \<Rightarrow> string" where
  "gitconfig_text workDir p =
     ''[user]'' @ nl @ tab @ ''name = '' @ gq_Name p @ nl @ tab @ ''email = '' @ gq_Email p @ nl
     @ ''[credential]'' @ nl @ tab @ ''helper = '' @ (if gq_Helper p = [] then HelperBinPath else gq_Helper p) @ nl
     @ tab @ ''useHttpPath = false'' @ nl
     @ ''[safe]'' @ nl @ tab @ ''directory = '' @ join_path workDir ''*'' @ nl"

definition writeGitConfig :: "guestctx \<Rightarrow> guest_mgr \<Rightarrow> git_configure \<Rightarrow> guest_mgr \<times> bool" where
  "writeGitConfig g m p = (if gc_configFails g then (m, False)
     else (m\<lparr>gm_gitconfig := Some (gitconfig_text (gx_workDir (gc_git g)) p)\<rparr>, True))"

section \<open>Runs\<close>

definition registerRun :: "guest_mgr \<Rightarrow> string \<Rightarrow> guest_mgr \<times> nat" where
  "registerRun m taskID = (m\<lparr>gm_heap := gm_heap m @ [\<lparr>rn_canceled = False, rn_ctxDone = False\<rparr>],
     gm_runs := AList.update taskID (length (gm_heap m)) (gm_runs m)\<rparr>, length (gm_heap m))"

definition unregisterRun :: "guest_mgr \<Rightarrow> string \<Rightarrow> guest_mgr" where
  "unregisterRun m taskID = m\<lparr>gm_runs := AList.delete taskID (gm_runs m)\<rparr>"

definition cancelRun :: "guest_mgr \<Rightarrow> string \<Rightarrow> guest_mgr \<times> bool" where
  "cancelRun m taskID = (case map_of (gm_runs m) taskID of
       None \<Rightarrow> (m, False)
     | Some r \<Rightarrow> (m\<lparr>gm_heap := (gm_heap m)[r := \<lparr>rn_canceled = True, rn_ctxDone = True\<rparr>]\<rparr>, True))"

definition runWasCanceled :: "guest_mgr \<Rightarrow> string \<Rightarrow> bool" where
  "runWasCanceled m taskID = (case map_of (gm_runs m) taskID of
       None \<Rightarrow> False
     | Some r \<Rightarrow> r < length (gm_heap m) \<and> rn_canceled (gm_heap m ! r))"

section \<open>Jobs\<close>

text \<open>
  A step of a job: the rest of the goroutine, if any. \<open>runAgentTask\<close> relays its events one by one,
  then reads the cancel flag and reports, and then its deferred calls drop the registration and
  cancel the context. The process of an agent that is cancelled is the environment's.
\<close>

fun job_step :: "guestctx \<Rightarrow> guest_mgr \<Rightarrow> guest_job \<Rightarrow> guest_mgr \<times> guest_job option" where
  "job_step g m (CloneJob url dest op_id) =
     (case runClone (gc_git g) (gc_mkWorkspace g) (gm_trace m) url dest op_id of
        (tr, i, ok, detail) \<Rightarrow> (send_note (m\<lparr>gm_trace := tr\<rparr>) (GitCloneDone i ok detail), None))"
| "job_step g m (PushJob p) =
     (case runPush (gc_git g) (gm_trace m) p of
        (tr, i, ok, detail) \<Rightarrow> (send_note (m\<lparr>gm_trace := tr\<rparr>) (GitPushDone i ok detail), None))"
| "job_step g m (AgentJob r p) =
     (case runHeadless (gc_git g) (gc_agent g) (gc_sec g) p of
        (evs, outcome) \<Rightarrow> (m, Some (AgentRelay r p evs outcome)))"
| "job_step g m (AgentRelay r p (e # es) outcome) =
     (send_note m (AgentEvent (e\<lparr>av_TaskID := ar_TaskID p\<rparr>)), Some (AgentRelay r p es outcome))"
| "job_step g m (AgentRelay r p [] outcome) =
     (send_note m (AgentDone (agentDonePayload (ar_TaskID p) outcome (runWasCanceled m (ar_TaskID p)))), Some (AgentReported r p))"
| "job_step g m (AgentReported r p) =
     (let m1 = unregisterRun m (ar_TaskID p)
      in (m1\<lparr>gm_heap := (gm_heap m1)[r := (gm_heap m1 ! r)\<lparr>rn_ctxDone := True\<rparr>]\<rparr>, None))"

definition run_job :: "guestctx \<Rightarrow> guest_mgr \<Rightarrow> nat \<Rightarrow> guest_mgr" where
  "run_job g m k =
     (if k < length (gm_jobs m) then
        (case job_step g m (gm_jobs m ! k) of
           (m1, None) \<Rightarrow> m1\<lparr>gm_jobs := take k (gm_jobs m) @ drop (Suc k) (gm_jobs m)\<rparr>
         | (m1, Some j) \<Rightarrow> m1\<lparr>gm_jobs := (gm_jobs m)[k := j]\<rparr>)
      else m)"

definition go_job :: "guest_mgr \<Rightarrow> guest_job \<Rightarrow> guest_mgr" where
  "go_job m j = m\<lparr>gm_jobs := gm_jobs m @ [j]\<rparr>"

end
