(* ===== verification/Guest_Handle.thy ===== *)
theory Guest_Handle
  imports Guest_Control
begin

text \<open>
  \<open>handle\<close>, the dispatcher of the guest's control channel (\<open>guestagent/internal/ctlchan/manager.go\<close>).
  A payload is the JSON value of the frame's \<open>payload\<close> field, \<open>None\<close> when the field is missing.
  Only the request that a job belongs to starts it.
\<close>

datatype guest_resp =
    NoBody
  | ProjectsListResponse "project list"
  | KVGetResponse "string option"
  | KVSetResponse
  | GitStatusResponse git_status_response
  | GitDiffResponse git_diff_response
  | GitBranchResponse string
  | GitCommitResponse git_commit_response

type_synonym payload = "jvalue option"

section \<open>Payloads\<close>

definition dec_payload :: "((string \<times> json) list \<Rightarrow> 'a option) \<Rightarrow> payload \<Rightarrow> 'a option" where
  "dec_payload f p = (case p of None \<Rightarrow> None | Some v \<Rightarrow> dec_struct f v)"

definition opt_map2 :: "('a \<Rightarrow> 'b \<Rightarrow> 'c) \<Rightarrow> 'a option \<Rightarrow> 'b option \<Rightarrow> 'c option" where
  "opt_map2 f x y = (case (x, y) of (Some a, Some b) \<Rightarrow> Some (f a b) | _ \<Rightarrow> None)"

definition dec_GitConfigure :: "(string \<times> json) list \<Rightarrow> git_configure option" where
  "dec_GitConfigure kvs = (case (dec_str ''name'' kvs, dec_str ''email'' kvs, dec_str ''helper'' kvs) of
     (Some n, Some e, Some h) \<Rightarrow> Some \<lparr>gq_Name = n, gq_Email = e, gq_Helper = h\<rparr> | _ \<Rightarrow> None)"

definition dec_GitClone :: "(string \<times> json) list \<Rightarrow> (string \<times> string \<times> string) option" where
  "dec_GitClone kvs = (case (dec_str ''url'' kvs, dec_str ''dest'' kvs, dec_str ''op_id'' kvs) of
     (Some u, Some d, Some i) \<Rightarrow> Some (u, d, i) | _ \<Rightarrow> None)"

definition dec_GitDiff :: "(string \<times> json) list \<Rightarrow> (string \<times> bool) option" where
  "dec_GitDiff kvs = opt_map2 Pair (dec_str ''path'' kvs) (dec_bool ''staged'' kvs)"

definition dec_GitBranch :: "(string \<times> json) list \<Rightarrow> (string \<times> string \<times> bool \<times> string) option" where
  "dec_GitBranch kvs = (case (dec_str ''path'' kvs, dec_str ''name'' kvs, dec_bool ''checkout'' kvs, dec_str ''from'' kvs) of
     (Some p, Some n, Some c, Some f) \<Rightarrow> Some (p, n, c, f) | _ \<Rightarrow> None)"

definition dec_GitCommit :: "(string \<times> json) list \<Rightarrow> (string \<times> string \<times> string list) option" where
  "dec_GitCommit kvs = (case (dec_str ''path'' kvs, dec_str ''message'' kvs, dec_strs ''paths'' kvs) of
     (Some p, Some m, Some ps) \<Rightarrow> Some (p, m, ps) | _ \<Rightarrow> None)"

definition dec_GitPush :: "(string \<times> json) list \<Rightarrow> git_push_payload option" where
  "dec_GitPush kvs = (case (dec_str ''path'' kvs, dec_str ''branch'' kvs, dec_bool ''set_upstream'' kvs, dec_str ''op_id'' kvs) of
     (Some p, Some b, Some s, Some i) \<Rightarrow> Some \<lparr>gp_Path = p, gp_Branch = b, gp_SetUpstream = s, gp_OpID = i\<rparr> | _ \<Rightarrow> None)"

definition dec_AgentRun :: "(string \<times> json) list \<Rightarrow> agent_run_payload option" where
  "dec_AgentRun kvs =
     (case (dec_str ''task_id'' kvs, dec_str ''path'' kvs, dec_str ''prompt'' kvs, dec_str ''provider'' kvs, dec_str ''session_id'' kvs) of
        (Some t, Some p, Some pr, Some v, Some s) \<Rightarrow>
          Some \<lparr>ar_TaskID = t, ar_Path = p, ar_Prompt = pr, ar_Provider = v, ar_SessionID = s\<rparr>
      | _ \<Rightarrow> None)"

section \<open>Dispatch\<close>

definition unavailable :: "string \<Rightarrow> control_error" where
  "unavailable msg = control_fail ErrCodeUnavailable msg"

definition bad_payload :: "string \<Rightarrow> control_error" where
  "bad_payload code = control_fail code ''bad payload''"

definition with_trace :: "guest_mgr \<Rightarrow> trace \<Rightarrow> guest_mgr" where
  "with_trace m tr = m\<lparr>gm_trace := tr\<rparr>"

definition handle_configure :: "guestctx \<Rightarrow> guest_mgr \<Rightarrow> payload \<Rightarrow> guest_mgr \<times> (control_error + guest_resp)" where
  "handle_configure g m pl = (case dec_payload dec_GitConfigure pl of
       None \<Rightarrow> (m, Inl (bad_payload ErrCodeUnavailable))
     | Some p \<Rightarrow> (case writeGitConfig g m p of
         (m1, True) \<Rightarrow> (m1, Inr NoBody)
       | (m1, False) \<Rightarrow> (m1, Inl (unavailable ''configure failed''))))"

definition handle_claude :: "guestctx \<Rightarrow> guest_mgr \<Rightarrow> payload \<Rightarrow> guest_mgr \<times> (control_error + guest_resp)" where
  "handle_claude g m pl = (case dec_payload (dec_bool ''attribution'') pl of
       None \<Rightarrow> (m, Inl (bad_payload ErrCodeUnavailable))
     | Some a \<Rightarrow> (case applyClaudeConfig (gc_claude g) (gm_claude m) a of
         (fs, None) \<Rightarrow> (m\<lparr>gm_claude := fs\<rparr>, Inr NoBody)
       | (fs, Some _) \<Rightarrow> (m\<lparr>gm_claude := fs\<rparr>, Inl (unavailable ''configure failed''))))"

definition handle_clone :: "guestctx \<Rightarrow> guest_mgr \<Rightarrow> payload \<Rightarrow> guest_mgr \<times> (control_error + guest_resp)" where
  "handle_clone g m pl = (case dec_payload dec_GitClone pl of
       None \<Rightarrow> (m, Inl (bad_payload ErrCodeUnavailable))
     | Some (url, dest, op_id) \<Rightarrow> (case validateDest (gx_workDir (gc_git g)) dest of
         Some e \<Rightarrow> (m, Inl (unavailable e))
       | None \<Rightarrow> (go_job m (CloneJob url dest op_id), Inr NoBody)))"

definition handle_projects :: "guestctx \<Rightarrow> guest_mgr \<Rightarrow> guest_mgr \<times> (control_error + guest_resp)" where
  "handle_projects g m = (case listProjects (gc_git g) (gm_trace m) of
       (tr, Inl _) \<Rightarrow> (with_trace m tr, Inl (unavailable ''list failed''))
     | (tr, Inr ps) \<Rightarrow> (with_trace m tr, Inr (ProjectsListResponse ps)))"

definition handle_kv_get :: "guest_mgr \<Rightarrow> payload \<Rightarrow> guest_mgr \<times> (control_error + guest_resp)" where
  "handle_kv_get m pl = (case dec_payload (dec_str ''key'') pl of
       None \<Rightarrow> (m, Inl (bad_payload ErrCodeUnavailable))
     | Some key \<Rightarrow> (if key = [] then (m, Inl (bad_payload ErrCodeUnavailable))
         else (m, Inr (KVGetResponse (case gm_kv m of None \<Rightarrow> None | Some kv \<Rightarrow> map_of kv key)))))"

definition handle_kv_set :: "guestctx \<Rightarrow> guest_mgr \<Rightarrow> payload \<Rightarrow> guest_mgr \<times> (control_error + guest_resp)" where
  "handle_kv_set g m pl = (case dec_payload (\<lambda>kvs. opt_map2 Pair (dec_str ''key'' kvs) (dec_str ''value'' kvs)) pl of
       None \<Rightarrow> (m, Inl (bad_payload ErrCodeUnavailable))
     | Some (key, val) \<Rightarrow> (if key = [] then (m, Inl (bad_payload ErrCodeUnavailable))
         else case gm_kv m of
           None \<Rightarrow> (m, Inr KVSetResponse)
         | Some kv \<Rightarrow> (if gc_kvSetFails g key val then (m, Inl (unavailable ''set failed''))
             else (m\<lparr>gm_kv := Some (AList.update key val kv)\<rparr>, Inr KVSetResponse))))"

definition handle_status :: "guestctx \<Rightarrow> guest_mgr \<Rightarrow> payload \<Rightarrow> guest_mgr \<times> (control_error + guest_resp)" where
  "handle_status g m pl = (case dec_payload (dec_str ''path'') pl of
       None \<Rightarrow> (m, Inl (bad_payload ErrCodeUnavailable))
     | Some path \<Rightarrow> (if path = [] then (m, Inl (bad_payload ErrCodeUnavailable))
         else case gitStatus (gc_git g) (gm_trace m) path of
           (tr, Inl _) \<Rightarrow> (with_trace m tr, Inl (unavailable ''status failed''))
         | (tr, Inr r) \<Rightarrow> (with_trace m tr, Inr (GitStatusResponse r))))"

definition handle_diff :: "guestctx \<Rightarrow> guest_mgr \<Rightarrow> payload \<Rightarrow> guest_mgr \<times> (control_error + guest_resp)" where
  "handle_diff g m pl = (case dec_payload dec_GitDiff pl of
       None \<Rightarrow> (m, Inl (bad_payload ErrCodeUnavailable))
     | Some (path, staged) \<Rightarrow> (if path = [] then (m, Inl (bad_payload ErrCodeUnavailable))
         else case gitDiff (gc_git g) (gm_trace m) path staged of
           (tr, Inl _) \<Rightarrow> (with_trace m tr, Inl (unavailable ''diff failed''))
         | (tr, Inr r) \<Rightarrow> (with_trace m tr, Inr (GitDiffResponse r))))"

definition handle_branch :: "guestctx \<Rightarrow> guest_mgr \<Rightarrow> payload \<Rightarrow> guest_mgr \<times> (control_error + guest_resp)" where
  "handle_branch g m pl = (case dec_payload dec_GitBranch pl of
       None \<Rightarrow> (m, Inl (bad_payload ErrCodeInvalidBranch))
     | Some (path, name, checkout, from) \<Rightarrow> (if path = [] \<or> name = [] then (m, Inl (bad_payload ErrCodeInvalidBranch))
         else case gitBranch (gc_git g) (gm_trace m) path name checkout from of
           (tr, Inl e) \<Rightarrow> (with_trace m tr, Inl e)
         | (tr, Inr b) \<Rightarrow> (with_trace m tr, Inr (GitBranchResponse b))))"

definition handle_commit :: "guestctx \<Rightarrow> guest_mgr \<Rightarrow> payload \<Rightarrow> guest_mgr \<times> (control_error + guest_resp)" where
  "handle_commit g m pl = (case dec_payload dec_GitCommit pl of
       None \<Rightarrow> (m, Inl (bad_payload ErrCodeGitFailed))
     | Some (path, message, paths) \<Rightarrow> (if path = [] then (m, Inl (bad_payload ErrCodeGitFailed))
         else case gitCommit (gc_git g) (gm_trace m) path message paths of
           (tr, Inl e) \<Rightarrow> (with_trace m tr, Inl e)
         | (tr, Inr r) \<Rightarrow> (with_trace m tr, Inr (GitCommitResponse r))))"

definition handle_push :: "guestctx \<Rightarrow> guest_mgr \<Rightarrow> payload \<Rightarrow> guest_mgr \<times> (control_error + guest_resp)" where
  "handle_push g m pl = (case dec_payload dec_GitPush pl of
       None \<Rightarrow> (m, Inl (bad_payload ErrCodeGitFailed))
     | Some p \<Rightarrow> (if gp_Path p = [] \<or> gp_Branch p = [] then (m, Inl (bad_payload ErrCodeGitFailed))
         else if validateRepoPath (gc_git g) (gp_Path p) \<noteq> None then (m, Inl (control_fail ErrCodeGitFailed ''invalid repo''))
         else if \<not> ValidBranchName (gp_Branch p) then (m, Inl (control_fail ErrCodeInvalidBranch []))
         else (go_job m (PushJob p), Inr NoBody)))"

definition handle_agent_run :: "guestctx \<Rightarrow> guest_mgr \<Rightarrow> payload \<Rightarrow> guest_mgr \<times> (control_error + guest_resp)" where
  "handle_agent_run g m pl = (case dec_payload dec_AgentRun pl of
       None \<Rightarrow> (m, Inl (bad_payload ErrCodeGitFailed))
     | Some p \<Rightarrow> (if ar_Path p = [] \<or> ar_TaskID p = [] \<or> ar_Provider p = [] then (m, Inl (bad_payload ErrCodeGitFailed))
         else if validateRepoPath (gc_git g) (ar_Path p) \<noteq> None then (m, Inl (control_fail ErrCodeGitFailed ''invalid project''))
         else case registerRun m (ar_TaskID p) of (m1, r) \<Rightarrow> (go_job m1 (AgentJob r p), Inr NoBody)))"

definition handle_agent_cancel :: "guest_mgr \<Rightarrow> payload \<Rightarrow> guest_mgr \<times> (control_error + guest_resp)" where
  "handle_agent_cancel m pl = (case dec_payload (dec_str ''task_id'') pl of
       None \<Rightarrow> (m, Inl (bad_payload ErrCodeGitFailed))
     | Some taskID \<Rightarrow> (if taskID = [] then (m, Inl (bad_payload ErrCodeGitFailed))
         else (fst (cancelRun m taskID), Inr NoBody)))"

definition guest_handle :: "guestctx \<Rightarrow> guest_mgr \<Rightarrow> string \<Rightarrow> payload \<Rightarrow> guest_mgr \<times> (control_error + guest_resp)" where
  "guest_handle g m op pl =
     (if op = OpGitConfigure then handle_configure g m pl
      else if op = OpClaudeConfigure then handle_claude g m pl
      else if op = OpGitClone then handle_clone g m pl
      else if op = OpProjectsList then handle_projects g m
      else if op = OpKVGet then handle_kv_get m pl
      else if op = OpKVSet then handle_kv_set g m pl
      else if op = OpGitStatus then handle_status g m pl
      else if op = OpGitDiff then handle_diff g m pl
      else if op = OpGitBranch then handle_branch g m pl
      else if op = OpGitCommit then handle_commit g m pl
      else if op = OpGitPush then handle_push g m pl
      else if op = OpAgentRun then handle_agent_run g m pl
      else if op = OpAgentCancel then handle_agent_cancel m pl
      else (m, Inl (unavailable (''unknown op: '' @ op))))"

section \<open>The manager as a state machine\<close>

text \<open>Each step comes with its own environment: git and the agents answer differently over time.\<close>

datatype guest_event = Request string payload | JobStep nat | Connect nat | Disconnect nat | CredLookup int string
  | CredStore int string git_credential

fun guest_step :: "(string \<Rightarrow> int option) \<Rightarrow> guest_mgr \<Rightarrow> guestctx \<times> guest_event \<Rightarrow> guest_mgr" where
  "guest_step pt m (g, Request op pl) = fst (guest_handle g m op pl)"
| "guest_step pt m (g, JobStep k) = run_job g m k"
| "guest_step pt m (g, Connect c) = setActive m c"
| "guest_step pt m (g, Disconnect c) = clearActive m c"
| "guest_step pt m (g, CredLookup now key) = fst (cachedCred m now key)"
| "guest_step pt m (g, CredStore now key resp) = storeCred pt m now key resp"

definition guest_run :: "(string \<Rightarrow> int option) \<Rightarrow> guest_mgr \<Rightarrow> (guestctx \<times> guest_event) list \<Rightarrow> guest_mgr" where
  "guest_run pt m evs = fold (\<lambda>ev m. guest_step pt m ev) evs m"

text \<open>
  The step relation: a step under any environment whose directory listing has the names
  \<open>os.ReadDir\<close> can return.
\<close>

definition entries_ok :: "gitctx \<Rightarrow> bool" where
  "entries_ok x = (case gx_entries x of Inr (Some es) \<Rightarrow> list_all (\<lambda>(name, _). plain_elem name) es | _ \<Rightarrow> True)"

inductive guest_reachable :: "(string \<Rightarrow> int option) \<Rightarrow> string \<Rightarrow> guest_mgr \<Rightarrow> bool" for pt wd where
  start: "guest_reachable pt wd (NewGuestMgr kv cl)"
| step: "guest_reachable pt wd m \<Longrightarrow> gx_workDir (gc_git g) = wd \<Longrightarrow> entries_ok (gc_git g)
    \<Longrightarrow> guest_reachable pt wd (guest_step pt m (g, ev))"

end
