(* ===== verification/Guest_Ctl_Safety.thy ===== *)
theory Guest_Ctl_Safety
  imports Guest_Handle
begin

text \<open>
  What the guest's control channel may do to the machine: every git command it ever runs is
  contained in the workspace. The invariant covers the commands that ran and the jobs that wait.
\<close>

section \<open>Commands\<close>

definition clone_cmd :: "string \<Rightarrow> string list \<Rightarrow> bool" where
  "clone_cmd wd cmd = (\<exists>url dest. cmd = [''clone'', url, dest] \<and> under (Clean wd) (Clean dest))"

definition git_allowed :: "string \<Rightarrow> string list \<Rightarrow> bool" where
  "git_allowed wd cmd = (contained wd cmd \<or> clone_cmd wd cmd)"

definition git_adds :: "string \<Rightarrow> trace \<Rightarrow> trace \<Rightarrow> bool" where
  "git_adds wd tr tr' = (\<exists>cmds. tr' = tr @ cmds \<and> list_all (git_allowed wd) cmds)"

lemma git_adds_refl [simp]: "git_adds wd tr tr"
  by (simp add: git_adds_def)

lemma git_adds_trans [trans]: "git_adds wd a b \<Longrightarrow> git_adds wd b c \<Longrightarrow> git_adds wd a c"
  by (force simp: git_adds_def)

lemma git_adds_one: "git_allowed wd cmd \<Longrightarrow> git_adds wd tr (tr @ [cmd])"
  by (simp add: git_adds_def)

lemma git_adds_keep: "git_adds wd tr tr' \<Longrightarrow> list_all (git_allowed wd) tr \<Longrightarrow> list_all (git_allowed wd) tr'"
  by (auto simp: git_adds_def)

definition in_repo :: "string \<Rightarrow> string \<Rightarrow> bool" where
  "in_repo wd dir = under (Clean wd) (Clean dir)"

lemma runGit_adds: "in_repo wd dir \<Longrightarrow> args_safe args \<Longrightarrow> git_adds wd tr (fst (runGit x tr dir args))"
  by (auto simp: runGit_def exec_git_def git_allowed_def contained_def in_repo_def intro!: git_adds_one)

lemma git_out_adds: "in_repo wd dir \<Longrightarrow> args_safe args \<Longrightarrow> git_adds wd tr (fst (git_out x tr dir args))"
  using runGit_adds [of wd dir args tr x] by (cases "runGit x tr dir args") (simp add: git_out_def)

lemma head_branch_adds: "in_repo wd dir \<Longrightarrow> git_adds wd tr (fst (head_branch x tr dir))"
proof -
  assume r: "in_repo wd dir"
  have a: "git_adds wd t (fst (git_out x t dir [''rev-parse'', ''--abbrev-ref'', ''HEAD'']))"
    "git_adds wd t (fst (git_out x t dir [''rev-parse'', ''--short'', ''HEAD'']))" for t
    by (rule git_out_adds [OF r]; simp add: own_args_def not_option_def HasPrefix_def)+
  obtain t b where g: "git_out x tr dir [''rev-parse'', ''--abbrev-ref'', ''HEAD''] = (t, b)" by fastforce
  from a(1) [of tr] g have t: "git_adds wd tr t" by simp
  then show ?thesis using g a(2) [of t] git_adds_trans [of wd tr t] by (simp add: head_branch_def)
qed

text \<open>The arguments the operations pass.\<close>

lemmas arg_defs = own_args_def not_option_def HasPrefix_def

lemma args_paths: "args_safe (path_args paths)" "args_safe (stage_args paths)"
  by (simp_all add: path_args_def stage_args_def arg_defs)

lemma branch_args: "ValidBranchName b \<Longrightarrow> not_option b \<and> b \<noteq> ''-m''"
  using branch_not_option [of b] by (auto simp: not_option_def HasPrefix_def)

lemma start_args: "ValidStartPoint f \<Longrightarrow> f \<noteq> [] \<Longrightarrow> not_option f \<and> f \<noteq> ''-m''"
  using start_not_option [of f] by (auto simp: not_option_def HasPrefix_def)

lemma gitStatus_adds:
  assumes r: "rooted_path (gx_workDir x)"
  shows "git_adds (gx_workDir x) tr (fst (gitStatus x tr path))"
proof (cases "validateRepoPath x path")
  case None
  have i: "in_repo (gx_workDir x) path" using validateRepoPath_under [OF None r] by (simp add: in_repo_def)
  obtain t b where h: "head_branch x tr path = (t, b)" by fastforce
  let ?a = "[''-c'', ''core.quotePath=false'', ''status'', ''--porcelain=v1'', ''-z'']"
  obtain t2 out e where g: "runGit x t path ?a = (t2, out, e)" using prod_cases3 by blast
  have "git_adds (gx_workDir x) tr t" using head_branch_adds [OF i, of tr x] h by simp
  moreover have "git_adds (gx_workDir x) t t2" using runGit_adds [OF i, of ?a t x] g by (simp add: arg_defs)
  ultimately show ?thesis using None h g git_adds_trans by (simp add: gitStatus_def)
qed (simp add: gitStatus_def)

lemma gitDiff_adds:
  assumes r: "rooted_path (gx_workDir x)"
  shows "git_adds (gx_workDir x) tr (fst (gitDiff x tr path staged))"
proof (cases "validateRepoPath x path")
  case None
  have i: "in_repo (gx_workDir x) path" using validateRepoPath_under [OF None r] by (simp add: in_repo_def)
  let ?a = "[''-c'', ''core.quotePath=false'', ''diff''] @ (if staged then [''--cached''] else [])"
  obtain t out e where g: "runGit x tr path ?a = (t, out, e)" using prod_cases3 by blast
  have "git_adds (gx_workDir x) tr t" using runGit_adds [OF i, of ?a tr x] g by (simp add: arg_defs)
  then show ?thesis using None g by (cases e) (simp_all add: gitDiff_def)
qed (simp add: gitDiff_def)

lemma gitBranch_adds:
  assumes r: "rooted_path (gx_workDir x)"
  shows "git_adds (gx_workDir x) tr (fst (gitBranch x tr path name checkout from))"
proof (cases "validateRepoPath x path = None \<and> ValidBranchName name \<and> ValidStartPoint from")
  case True
  then have i: "in_repo (gx_workDir x) path" using validateRepoPath_under r by (simp add: in_repo_def)
  note adds = runGit_adds [OF i] git_out_adds [OF i]
  obtain t1 ex where b: "branchExists x tr path name = (t1, ex)" by fastforce
  let ?v = "[''show-ref'', ''--verify'', ''--quiet'', ''refs/heads/'' @ name]"
  let ?a = "(if checkout then [''checkout'', ''-b'', name] else [''branch'', name]) @ (if from \<noteq> [] then [from] else [])"
  let ?h = "[''rev-parse'', ''--abbrev-ref'', ''HEAD'']"
  have 1: "git_adds (gx_workDir x) tr t1"
    using b adds(1) [of ?v tr x] by (cases "runGit x tr path ?v") (simp add: branchExists_def arg_defs)
  obtain t2 out e where g: "runGit x t1 path ?a = (t2, out, e)" using prod_cases3 by blast
  obtain t3 hd where h: "git_out x t2 path ?h = (t3, hd)" by fastforce
  have "args_safe ?a" using True branch_args start_args by (auto simp: arg_defs)
  then have 2: "git_adds (gx_workDir x) t1 t2" using adds(1) [of ?a t1 x] g by simp
  have 3: "git_adds (gx_workDir x) t2 t3" using adds(2) [of ?h t2 x] h by (simp add: arg_defs)
  note t = 1 git_adds_trans [OF 1 2] git_adds_trans [OF git_adds_trans [OF 1 2] 3]
  show ?thesis using True b g h t by (cases ex) (simp_all add: gitBranch_def)
qed (auto simp: gitBranch_def)

lemma commit_staged_adds:
  assumes i: "in_repo wd path"
  shows "git_adds wd tr (fst (commit_staged x tr path message paths))"
proof -
  note adds = runGit_adds [OF i] git_out_adds [OF i]
  let ?a = "[''-c'', ''commit.gpgsign=false'', ''commit'', ''-m'', message] @ path_args paths"
  let ?h = "[''rev-parse'', ''--short'', ''HEAD'']" let ?s = "[''log'', ''-1'', ''--format=%s'']"
  obtain t1 out e where g: "runGit x tr path ?a = (t1, out, e)" using prod_cases3 by blast
  obtain t2 sha where h: "git_out x t1 path ?h = (t2, sha)" by fastforce
  obtain t3 sub where s: "git_out x t2 path ?s = (t3, sub)" by fastforce
  have 1: "git_adds wd tr t1" using adds(1) [of ?a tr x] g args_paths(1) by (simp add: arg_defs)
  have 2: "git_adds wd t1 t2" using adds(2) [of ?h t1 x] h by (simp add: arg_defs)
  have 3: "git_adds wd t2 t3" using adds(2) [of ?s t2 x] s by (simp add: arg_defs)
  note t = 1 git_adds_trans [OF git_adds_trans [OF 1 2] 3]
  show ?thesis using g h s t by (simp add: commit_staged_def)
qed

lemma gitCommit_adds:
  assumes r: "rooted_path (gx_workDir x)"
  shows "git_adds (gx_workDir x) tr (fst (gitCommit x tr path message paths))"
proof (cases "validateRepoPath x path = None \<and> TrimSpace message \<noteq> [] \<and> list_all ValidCommitPath paths")
  case True
  then have i: "in_repo (gx_workDir x) path" using validateRepoPath_under r by (simp add: in_repo_def)
  note adds = runGit_adds [OF i]
  let ?a = "stage_args paths" let ?d = "[''diff'', ''--cached'', ''--quiet''] @ path_args paths"
  obtain t1 out e where g: "runGit x tr path ?a = (t1, out, e)" using prod_cases3 by blast
  obtain t2 out2 e2 where d: "runGit x t1 path ?d = (t2, out2, e2)" using prod_cases3 by blast
  have 1: "git_adds (gx_workDir x) tr t1" using adds [of ?a tr x] g args_paths(2) by simp
  have 2: "git_adds (gx_workDir x) t1 t2" using adds [of ?d t1 x] d args_paths(1) by (simp add: arg_defs)
  note t = 1 git_adds_trans [OF 1 2] git_adds_trans [OF git_adds_trans [OF 1 2] commit_staged_adds [OF i]]
  show ?thesis using True g d t by (simp add: gitCommit_def)
qed (auto simp: gitCommit_def)

section \<open>The project scan\<close>

lemma clean_elems_snoc:
  assumes "plain_elem e"
  shows "clean_elems True (es @ [e]) = clean_elems True es @ [e]"
  using assms by (simp add: clean_elems_def clean_push_def plain_elem_def)

lemma join_path_under:
  assumes r: "rooted_path wd" and e: "plain_elem name"
  shows "in_repo wd (join_path wd name)"
proof -
  have ne: "wd \<noteq> []" using r by (auto simp: rooted_path_def)
  let ?p = "wd @ CHR ''/'' # name"
  have rp: "rooted_path ?p" using r by (auto simp: rooted_path_def)
  have "split_char CHR ''/'' ?p = split_char CHR ''/'' wd @ [name]"
    using split_char_sep [of "CHR ''/''" wd name] split_char_single [of "CHR ''/''" name] e by (simp add: plain_elem_def)
  then have "elems (Clean ?p) = elems (Clean wd) @ [name]"
    using Clean_rooted(1) [OF rp] Clean_rooted(1) [OF r] clean_elems_snoc [OF e] by simp
  then have "under (Clean wd) (Clean ?p)" using Clean_rooted(2) [OF rp] by (simp add: under_def)
  then show ?thesis using ne Clean_idem [OF rp] by (simp add: in_repo_def join_path_def)
qed

lemma describeRepo_adds:
  assumes i: "in_repo wd path"
  shows "git_adds wd tr (fst (describeRepo x tr name path))"
proof -
  note adds = git_out_adds [OF i]
  let ?a = "[''remote'', ''get-url'', ''origin'']" let ?s = "[''status'', ''--porcelain'']"
  let ?l = "[''log'', ''-1'', ''--format=%cI%n%s'']"
  obtain t1 a where 1: "git_out x tr path ?a = (t1, a)" by fastforce
  obtain t2 b where 2: "head_branch x t1 path = (t2, b)" by fastforce
  obtain t3 c where 3: "git_out x t2 path ?s = (t3, c)" by fastforce
  obtain t4 d where 4: "git_out x t3 path ?l = (t4, d)" by fastforce
  have "git_adds wd tr t1" using adds [of ?a tr x] 1 by (simp add: arg_defs)
  also have "git_adds wd t1 t2" using head_branch_adds [OF i, of t1 x] 2 by simp
  also have "git_adds wd t2 t3" using adds [of ?s t2 x] 3 by (simp add: arg_defs)
  also have "git_adds wd t3 t4" using adds [of ?l t3 x] 4 by (simp add: arg_defs)
  finally show ?thesis using 1 2 3 4 by (simp add: describeRepo_def Let_def)
qed

lemma list_entries_adds:
  assumes r: "rooted_path (gx_workDir x)" and e: "list_all (\<lambda>(name, _). plain_elem name) es"
  shows "git_adds (gx_workDir x) tr (fst (list_entries x tr es))"
  using e
proof (induction es arbitrary: tr)
  case (Cons en es)
  obtain name d where en: "en = (name, d)" by fastforce
  with Cons.prems have i: "in_repo (gx_workDir x) (join_path (gx_workDir x) name)" using join_path_under [OF r] by simp
  let ?path = "join_path (gx_workDir x) name"
  have rest: "git_adds (gx_workDir x) t (fst (list_entries x t es))" for t using Cons by simp
  obtain t1 pr where 1: "describeRepo x tr name ?path = (t1, pr)" by fastforce
  obtain t2 ps where 2: "list_entries x t1 es = (t2, ps)" by fastforce
  have "git_adds (gx_workDir x) tr t1" using describeRepo_adds [OF i, of tr x name] 1 by simp
  also have "git_adds (gx_workDir x) t1 t2" using rest [of t1] 2 by simp
  finally show ?case using rest [of tr] 1 2 en by (simp add: Let_def)
qed simp

lemma listProjects_adds:
  assumes "rooted_path (gx_workDir x)" "entries_ok x"
  shows "git_adds (gx_workDir x) tr (fst (listProjects x tr))"
proof (cases "gx_entries x")
  case (Inr eo)
  show ?thesis
  proof (cases eo)
    case (Some es)
    with Inr assms list_entries_adds [OF assms(1), of es tr] show ?thesis
      by (cases "list_entries x tr es") (simp add: listProjects_def entries_ok_def)
  qed (simp add: listProjects_def Inr)
qed (simp add: listProjects_def)

section \<open>The manager\<close>

definition job_ok :: "string \<Rightarrow> guest_job \<Rightarrow> bool" where
  "job_ok wd j = (case j of
       CloneJob url dest op \<Rightarrow> in_repo wd dest
     | PushJob p \<Rightarrow> in_repo wd (gp_Path p) \<and> ValidBranchName (gp_Branch p)
     | _ \<Rightarrow> True)"

definition guest_ok :: "string \<Rightarrow> guest_mgr \<Rightarrow> bool" where
  "guest_ok wd m = (list_all (git_allowed wd) (gm_trace m) \<and> list_all (job_ok wd) (gm_jobs m))"

lemma send_note_same [simp]:
  "gm_trace (send_note m n) = gm_trace m" "gm_jobs (send_note m n) = gm_jobs m" "gm_runs (send_note m n) = gm_runs m"
  "gm_heap (send_note m n) = gm_heap m" "gm_active (send_note m n) = gm_active m"
  by (simp_all add: send_note_def split: option.splits)

lemma job_step_ok:
  assumes "job_ok wd j" "gx_workDir (gc_git g) = wd" "rooted_path wd"
  shows "git_adds wd (gm_trace m) (gm_trace (fst (job_step g m j))) \<and> (\<forall>j'. snd (job_step g m j) = Some j' \<longrightarrow> job_ok wd j')"
  using assms
proof (induction g m j rule: job_step.induct)
  case (1 g m url dest op_id)
  then have "git_allowed wd [''clone'', url, dest]" by (simp add: git_allowed_def clone_cmd_def job_ok_def in_repo_def)
  then show ?case
    by (cases "gc_mkWorkspace g") (auto simp: runClone_def exec_git_def git_adds_one split: prod.splits)
next
  case (2 g m p)
  let ?a = "[''push''] @ (if gp_SetUpstream p then [''-u''] else []) @ [''origin'', gp_Branch p]"
  have i: "in_repo wd (gp_Path p)" "args_safe ?a" using 2 branch_args by (auto simp: job_ok_def arg_defs)
  obtain t out e where g: "runGit (gc_git g) (gm_trace m) (gp_Path p) ?a = (t, out, e)" using prod_cases3 by blast
  have "git_adds wd (gm_trace m) t" using runGit_adds [OF i, of "gm_trace m" "gc_git g"] g by simp
  then show ?case using g by (simp add: runPush_def pushBranch_def)
qed (auto simp: job_ok_def unregisterRun_def Let_def split: prod.splits)

lemma run_job_ok:
  assumes "guest_ok wd m" "gx_workDir (gc_git g) = wd" "rooted_path wd"
  shows "guest_ok wd (run_job g m k)"
proof (cases "k < length (gm_jobs m)")
  case True
  then have j: "job_ok wd (gm_jobs m ! k)" using assms(1) by (simp add: guest_ok_def list_all_length)
  obtain m1 jo where s: "job_step g m (gm_jobs m ! k) = (m1, jo)" by fastforce
  note st = job_step_ok [OF j assms(2,3), of m, unfolded s]
  have tr: "list_all (git_allowed wd) (gm_trace m1)"
    using st assms(1) git_adds_keep by (auto simp: guest_ok_def)
  have js: "list_all (job_ok wd) (gm_jobs m)" using assms(1) by (simp add: guest_ok_def)
  show ?thesis
  proof (cases jo)
    case None
    with js True s tr show ?thesis
      by (auto simp: run_job_def guest_ok_def list_all_iff dest: in_set_takeD in_set_dropD)
  next
    case (Some j')
    with st js True s tr show ?thesis
      by (auto simp: run_job_def guest_ok_def list_all_iff dest!: set_update_subset_insert [THEN subsetD])
  qed
qed (use assms in \<open>simp add: run_job_def\<close>)

lemma guest_ok_same:
  "gm_trace m' = gm_trace m \<Longrightarrow> gm_jobs m' = gm_jobs m \<Longrightarrow> guest_ok wd m \<Longrightarrow> guest_ok wd m'"
  by (simp add: guest_ok_def)

lemma with_trace_ok: "guest_ok wd m \<Longrightarrow> git_adds wd (gm_trace m) tr \<Longrightarrow> guest_ok wd (with_trace m tr)"
  using git_adds_keep by (auto simp: guest_ok_def with_trace_def)

lemma go_job_ok: "guest_ok wd m \<Longrightarrow> job_ok wd j \<Longrightarrow> guest_ok wd (go_job m j)"
  by (simp add: guest_ok_def go_job_def)

lemma handle_git_ok:
  assumes ok: "guest_ok wd m" and w: "gx_workDir (gc_git g) = wd" "rooted_path wd" "entries_ok (gc_git g)"
  shows "guest_ok wd (fst (handle_projects g m))" "guest_ok wd (fst (handle_status g m pl))"
    "guest_ok wd (fst (handle_diff g m pl))" "guest_ok wd (fst (handle_branch g m pl))" "guest_ok wd (fst (handle_commit g m pl))"
proof -
  have r: "rooted_path (gx_workDir (gc_git g))" using w by simp
  have t: "guest_ok wd (with_trace m tr)" if "git_adds wd (gm_trace m) (fst z)" "z = (tr, y)" for z :: "trace \<times> 'z" and tr y
    using with_trace_ok [OF ok that(1)] that(2) by simp
  show "guest_ok wd (fst (handle_projects g m))"
    using ok by (auto simp: handle_projects_def split: prod.splits sum.splits intro: t [OF listProjects_adds [OF r w(3), of "gm_trace m", unfolded w(1)]])
  show "guest_ok wd (fst (handle_status g m pl))"
    using ok by (auto simp: handle_status_def split: prod.splits sum.splits option.splits intro: t [OF gitStatus_adds [OF r, of "gm_trace m", unfolded w(1)]])
  show "guest_ok wd (fst (handle_diff g m pl))"
    using ok by (auto simp: handle_diff_def split: prod.splits sum.splits option.splits intro: t [OF gitDiff_adds [OF r, of "gm_trace m", unfolded w(1)]])
  show "guest_ok wd (fst (handle_branch g m pl))"
    using ok by (auto simp: handle_branch_def split: prod.splits sum.splits option.splits intro: t [OF gitBranch_adds [OF r, of "gm_trace m", unfolded w(1)]])
  show "guest_ok wd (fst (handle_commit g m pl))"
    using ok by (auto simp: handle_commit_def split: prod.splits sum.splits option.splits intro: t [OF gitCommit_adds [OF r, of "gm_trace m", unfolded w(1)]])
qed

lemma clone_ok:
  assumes ok: "guest_ok wd m" and w: "gx_workDir (gc_git g) = wd" "rooted_path wd"
  shows "guest_ok wd (fst (handle_clone g m pl))"
proof -
  have "in_repo wd dest" if "validateDest wd dest = None" for dest
    using that clean_prefix_under [OF w(2), of dest] by (auto simp: validateDest_def in_repo_def split: if_splits)
  with ok w(1) show ?thesis
    by (auto simp: handle_clone_def job_ok_def intro!: go_job_ok split: option.splits)
qed

lemma push_ok:
  assumes ok: "guest_ok wd m" and w: "gx_workDir (gc_git g) = wd" "rooted_path wd"
  shows "guest_ok wd (fst (handle_push g m pl))"
proof -
  have "in_repo wd path" if "validateRepoPath (gc_git g) path = None" for path
    using validateRepoPath_under [OF that] w by (simp add: in_repo_def)
  with ok show ?thesis
    by (auto simp: handle_push_def job_ok_def intro!: go_job_ok split: option.splits)
qed

lemma agent_run_ok: "guest_ok wd m \<Longrightarrow> guest_ok wd (fst (handle_agent_run g m pl))"
  by (auto simp: handle_agent_run_def registerRun_def guest_ok_def go_job_def job_ok_def split: option.splits)

lemma handle_other_ok:
  assumes "guest_ok wd m"
  shows "guest_ok wd (fst (handle_configure g m pl))" "guest_ok wd (fst (handle_claude g m pl))"
    "guest_ok wd (fst (handle_kv_get m pl))" "guest_ok wd (fst (handle_kv_set g m pl))" "guest_ok wd (fst (handle_agent_cancel m pl))"
  using assms
  by (auto simp: handle_configure_def handle_claude_def handle_kv_get_def handle_kv_set_def handle_agent_cancel_def
      writeGitConfig_def cancelRun_def guest_ok_def split: option.splits prod.splits)

lemma guest_handle_ok:
  assumes "guest_ok wd m" "gx_workDir (gc_git g) = wd" "rooted_path wd" "entries_ok (gc_git g)"
  shows "guest_ok wd (fst (guest_handle g m op pl))"
  using handle_git_ok [OF assms] clone_ok [OF assms(1-3)] push_ok [OF assms(1-3)] agent_run_ok [OF assms(1)]
    handle_other_ok [OF assms(1)] assms(1)
  by (simp add: guest_handle_def)

lemma guest_step_ok:
  assumes "guest_ok wd m" "gx_workDir (gc_git g) = wd" "rooted_path wd" "entries_ok (gc_git g)"
  shows "guest_ok wd (guest_step pt m (g, ev))"
proof (cases ev)
  case (CredLookup now key)
  with assms(1) show ?thesis by (auto simp: cachedCred_def guest_ok_def split: option.splits)
next
  case (CredStore now key resp)
  with assms(1) show ?thesis by (simp add: storeCred_def guest_ok_def Let_def)
qed (use assms guest_handle_ok [OF assms] run_job_ok [OF assms(1-3)] in
      \<open>simp_all add: setActive_def clearActive_def guest_ok_def\<close>)

lemma guest_reachable_ok: "guest_reachable pt wd m \<Longrightarrow> rooted_path wd \<Longrightarrow> guest_ok wd m"
proof (induction rule: guest_reachable.induct)
  case (step m g ev)
  then show ?case using guest_step_ok by blast
qed (simp add: NewGuestMgr_def guest_ok_def)

end
