(* ===== verification/Guest_Cancel.thy ===== *)
theory Guest_Cancel
  imports Guest_Ctl_Safety
begin

text \<open>
  Cancelling a headless run on the guest: what the registry, the jobs and the reports of one task
  look like from the cancel on, whatever else the manager does meanwhile.
\<close>

fun job_task :: "guest_job \<Rightarrow> string option" where
  "job_task (AgentJob r p) = Some (ar_TaskID p)"
| "job_task (AgentRelay r p es out) = Some (ar_TaskID p)"
| "job_task (AgentReported r p) = Some (ar_TaskID p)"
| "job_task _ = None"

fun unreported :: "guest_job \<Rightarrow> bool" where
  "unreported (AgentJob r p) = True"
| "unreported (AgentRelay r p es out) = True"
| "unreported _ = False"

definition jobs_of :: "string \<Rightarrow> guest_mgr \<Rightarrow> guest_job list" where
  "jobs_of t m = filter (\<lambda>j. job_task j = Some t) (gm_jobs m)"

text \<open>The task has one job, which has not reported, and its run is registered.\<close>

definition running :: "string \<Rightarrow> guest_mgr \<Rightarrow> bool" where
  "running t m = ((\<exists>j. jobs_of t m = [j] \<and> unreported j)
     \<and> (\<exists>r. map_of (gm_runs m) t = Some r \<and> r < length (gm_heap m)))"

definition canceled_run :: "string \<Rightarrow> guest_mgr \<Rightarrow> bool" where
  "canceled_run t m = (\<exists>r. map_of (gm_runs m) t = Some r \<and> r < length (gm_heap m) \<and> rn_canceled (gm_heap m ! r))"

definition cancel_pending :: "string \<Rightarrow> guest_mgr \<Rightarrow> bool" where
  "cancel_pending t m = (jobs_of t m = [] \<or> (\<exists>r p. jobs_of t m = [AgentReported r p])
     \<or> ((\<exists>j. jobs_of t m = [j] \<and> unreported j) \<and> canceled_run t m))"

text \<open>What is sent from a state on, about the task.\<close>

definition reports_canceled :: "string \<Rightarrow> guest_mgr \<Rightarrow> guest_mgr \<Rightarrow> bool" where
  "reports_canceled t m m' = (\<exists>new. gm_sent m' = gm_sent m @ new
     \<and> (\<forall>(c, n) \<in> set new. \<forall>d. n = AgentDone d \<and> ad_TaskID d = t \<longrightarrow> ad_Canceled d \<and> \<not> ad_OK d))"

lemma reports_same: "gm_sent m' = gm_sent m \<Longrightarrow> reports_canceled t m m'"
  by (simp add: reports_canceled_def)

lemma reports_trans: "reports_canceled t a b \<Longrightarrow> reports_canceled t b c \<Longrightarrow> reports_canceled t a c"
  by (force simp: reports_canceled_def)

lemma done_payload [simp]: "ad_TaskID (agentDonePayload t out b) = t"
  by (simp add: agentDonePayload_def Let_def split: sum.split)

lemma done_canceled: "ad_Canceled (agentDonePayload t out True) \<and> \<not> ad_OK (agentDonePayload t out True)"
  by (simp add: agentDonePayload_def Let_def)

lemma canceled_run_iff: "canceled_run t m \<longleftrightarrow> runWasCanceled m t"
  by (auto simp: canceled_run_def runWasCanceled_def split: option.splits)

text \<open>A step of a job stays with its task, and a report is what the flag says at that moment.\<close>

lemma job_step_task: "snd (job_step g m j) = Some j' \<Longrightarrow> job_task j' = job_task j \<and> (unreported j' \<or> (\<exists>r p. j' = AgentReported r p))"
  by (induction g m j rule: job_step.induct) (auto split: prod.splits simp: Let_def)

lemma send_note_reports:
  "(\<And>d. n = AgentDone d \<Longrightarrow> ad_TaskID d = t \<Longrightarrow> ad_Canceled d \<and> \<not> ad_OK d) \<Longrightarrow> gm_sent m1 = gm_sent m \<Longrightarrow>
   reports_canceled t m (send_note m1 n)"
  by (auto simp: send_note_def reports_canceled_def split: option.splits)

lemma job_step_reports:
  assumes "job_task j = Some t \<Longrightarrow> unreported j \<Longrightarrow> canceled_run t m"
  shows "reports_canceled t m (fst (job_step g m j))"
  using assms
proof (induction g m j rule: job_step.induct)
  case (5 g m r p outcome)
  have "ad_Canceled (agentDonePayload (ar_TaskID p) outcome (runWasCanceled m (ar_TaskID p)))
      \<and> \<not> ad_OK (agentDonePayload (ar_TaskID p) outcome (runWasCanceled m (ar_TaskID p)))" if "ar_TaskID p = t"
    using 5 that done_canceled by (simp add: canceled_run_iff)
  then show ?case by (auto intro!: send_note_reports)
next
  case (6 g m r p)
  then show ?case by (auto intro: reports_same simp: unregisterRun_def Let_def)
qed (auto intro!: send_note_reports intro: reports_same split: prod.splits)

lemma job_step_flag:
  assumes "canceled_run t m" "\<And>r p. j = AgentReported r p \<Longrightarrow> ar_TaskID p \<noteq> t"
  shows "canceled_run t (fst (job_step g m j))"
  using assms
proof (induction g m j rule: job_step.induct)
  case (6 g m r p)
  then obtain q where q: "map_of (gm_runs m) t = Some q" "q < length (gm_heap m)" "rn_canceled (gm_heap m ! q)"
    by (auto simp: canceled_run_def)
  have "ar_TaskID p \<noteq> t" using 6(2) by blast
  moreover have "rn_canceled ((gm_heap m)[r := (gm_heap m ! r)\<lparr>rn_ctxDone := True\<rparr>] ! q)"
    using q by (cases "r = q") simp_all
  ultimately show ?case using q
    by (auto simp: canceled_run_def unregisterRun_def Let_def AList.delete_conv')
qed (auto simp: canceled_run_def split: prod.splits)

lemma jobs_filter:
  assumes "k < length js"
  shows "filter P js = filter P (take k js) @ (if P (js ! k) then [js ! k] else []) @ filter P (drop (Suc k) js)"
    and "filter P (js[k := j]) = filter P (take k js) @ (if P j then [j] else []) @ filter P (drop (Suc k) js)"
proof -
  show "filter P js = filter P (take k js) @ (if P (js ! k) then [js ! k] else []) @ filter P (drop (Suc k) js)"
    by (subst id_take_nth_drop [OF assms], subst filter_append) simp
  show "filter P (js[k := j]) = filter P (take k js) @ (if P j then [j] else []) @ filter P (drop (Suc k) js)"
    by (simp add: upd_conv_take_nth_drop [OF assms])
qed

lemma run_job_cancel:
  assumes p: "cancel_pending t m"
  shows "cancel_pending t (run_job g m k) \<and> reports_canceled t m (run_job g m k)"
proof (cases "k < length (gm_jobs m)")
  case False
  with p show ?thesis by (simp add: run_job_def reports_same)
next
  case True
  let ?j = "gm_jobs m ! k" let ?P = "\<lambda>j. job_task j = Some t"
  obtain m1 jo where s: "job_step g m ?j = (m1, jo)" by fastforce
  note fl = jobs_filter [OF True, of ?P]
  have jobs: "jobs_of t (run_job g m k) = filter ?P (take k (gm_jobs m)) @ (case jo of None \<Rightarrow> [] | Some j' \<Rightarrow> (if ?P j' then [j'] else []))
      @ filter ?P (drop (Suc k) (gm_jobs m))"
    using True s fl(2) by (cases jo) (simp_all add: run_job_def jobs_of_def)
  have sent: "gm_sent (run_job g m k) = gm_sent m1"
    and cr: "canceled_run t (run_job g m k) = canceled_run t m1"
    using True s by (cases jo; simp add: run_job_def canceled_run_def)+
  have sole: "filter ?P (take k (gm_jobs m)) = [] \<and> filter ?P (drop (Suc k) (gm_jobs m)) = [] \<and> jobs_of t m = [?j]" if "?P ?j"
    using that p fl(1) by (auto simp: cancel_pending_def jobs_of_def append_eq_Cons_conv)
  have flag: "canceled_run t m" if "?P ?j" "unreported ?j"
    using sole [OF that(1)] p that by (auto simp: cancel_pending_def)
  have rep: "reports_canceled t m (run_job g m k)"
    using job_step_reports [OF flag, of ?j g] s sent by (simp add: reports_canceled_def)
  have "cancel_pending t (run_job g m k)"
  proof (cases "?P ?j")
    case True
    show ?thesis
    proof (cases jo)
      case None
      with jobs sole [OF True] show ?thesis by (simp add: cancel_pending_def)
    next
      case (Some j')
      then have t: "?P j'" "unreported j' \<or> (\<exists>r p. j' = AgentReported r p)"
        using job_step_task [of g m ?j j'] s True by auto
      have un: "unreported ?j"
        using s Some True by (cases ?j) (auto simp: Let_def)
      have "canceled_run t m1"
      proof -
        have "?j \<noteq> AgentReported r p" for r p using un by (cases ?j) auto
        with job_step_flag [OF flag [OF True un], of ?j g] s show ?thesis by simp
      qed
      with t jobs sole [OF True] cr Some show ?thesis by (auto simp: cancel_pending_def)
    qed
  next
    case False
    have same: "jobs_of t (run_job g m k) = jobs_of t m"
      using jobs fl(1) False job_step_task [of g m ?j] s by (auto simp: jobs_of_def split: option.splits)
    moreover have "ar_TaskID p \<noteq> t" if "?j = AgentReported r p" for r p using False that by simp
    then have "canceled_run t m \<Longrightarrow> canceled_run t (run_job g m k)"
      using job_step_flag [of t m ?j g] s cr by simp
    ultimately show ?thesis using p by (auto simp: cancel_pending_def)
  qed
  with rep show ?thesis by blast
qed

section \<open>Requests\<close>

text \<open>An event that does not start another run of the task.\<close>

definition no_restart :: "string \<Rightarrow> guest_event \<Rightarrow> bool" where
  "no_restart t ev = (case ev of Request op pl \<Rightarrow>
       (op = OpAgentRun \<longrightarrow> (case dec_payload dec_AgentRun pl of Some p \<Rightarrow> ar_TaskID p \<noteq> t | None \<Rightarrow> True))
     | _ \<Rightarrow> True)"

lemma cancel_same:
  assumes "cancel_pending t m" "gm_jobs m' = gm_jobs m" "gm_runs m' = gm_runs m" "gm_heap m' = gm_heap m" "gm_sent m' = gm_sent m"
  shows "cancel_pending t m' \<and> reports_canceled t m m'"
  using assms by (simp add: cancel_pending_def jobs_of_def canceled_run_def reports_same)

lemma cancel_other_job:
  assumes "cancel_pending t m" "job_task j \<noteq> Some t"
  shows "cancel_pending t (go_job m j) \<and> reports_canceled t m (go_job m j)"
  using assms by (simp add: cancel_pending_def jobs_of_def canceled_run_def reports_same go_job_def)

lemma register_other:
  assumes "cancel_pending t m" "ar_TaskID p \<noteq> t" "registerRun m (ar_TaskID p) = (m1, r)"
  shows "cancel_pending t (go_job m1 (AgentJob r p)) \<and> reports_canceled t m (go_job m1 (AgentJob r p))"
  using assms
  by (auto simp: cancel_pending_def jobs_of_def canceled_run_def reports_same go_job_def registerRun_def AList.update_conv' nth_append)

lemma cancelRun_pending:
  assumes "cancel_pending t m"
  shows "cancel_pending t (fst (cancelRun m u)) \<and> reports_canceled t m (fst (cancelRun m u))"
proof -
  have "canceled_run t (fst (cancelRun m u))" if "canceled_run t m"
  proof -
    from that obtain r where r: "map_of (gm_runs m) t = Some r" "r < length (gm_heap m)" "rn_canceled (gm_heap m ! r)"
      by (auto simp: canceled_run_def)
    then have "rn_canceled ((gm_heap m)[q := \<lparr>rn_canceled = True, rn_ctxDone = True\<rparr>] ! r)" for q
      by (cases "q = r") simp_all
    with r show ?thesis by (auto simp: cancelRun_def canceled_run_def split: option.split)
  qed
  with assms show ?thesis
    by (auto simp: cancel_pending_def jobs_of_def cancelRun_def reports_same split: option.splits)
qed

definition same_runs :: "guest_mgr \<Rightarrow> guest_mgr \<Rightarrow> bool" where
  "same_runs m m' = (gm_jobs m' = gm_jobs m \<and> gm_runs m' = gm_runs m \<and> gm_heap m' = gm_heap m \<and> gm_sent m' = gm_sent m
     \<and> gm_cache m' = gm_cache m)"

lemma quiet_handlers:
  "same_runs m (fst (handle_configure g m pl))" "same_runs m (fst (handle_claude g m pl))" "same_runs m (fst (handle_projects g m))"
  "same_runs m (fst (handle_kv_get m pl))" "same_runs m (fst (handle_kv_set g m pl))" "same_runs m (fst (handle_status g m pl))"
  "same_runs m (fst (handle_diff g m pl))" "same_runs m (fst (handle_branch g m pl))" "same_runs m (fst (handle_commit g m pl))"
  by (auto simp: same_runs_def handle_configure_def writeGitConfig_def split: option.split)
    (auto simp: same_runs_def handle_claude_def handle_projects_def handle_kv_get_def
      handle_kv_set_def handle_status_def handle_diff_def handle_branch_def handle_commit_def with_trace_def
      split: option.split prod.split sum.split)

lemma handle_clone_cancel: "cancel_pending t m \<Longrightarrow>
    cancel_pending t (fst (handle_clone g m pl)) \<and> reports_canceled t m (fst (handle_clone g m pl))"
  using cancel_other_job [of t m]
  by (simp add: handle_clone_def reports_same split: option.split)

lemma handle_push_cancel: "cancel_pending t m \<Longrightarrow>
    cancel_pending t (fst (handle_push g m pl)) \<and> reports_canceled t m (fst (handle_push g m pl))"
  using cancel_other_job [of t m]
  by (simp add: handle_push_def reports_same split: option.split)

lemma guest_handle_cancel:
  assumes p: "cancel_pending t m" and n: "no_restart t (Request op pl)"
  shows "cancel_pending t (fst (guest_handle g m op pl)) \<and> reports_canceled t m (fst (guest_handle g m op pl))"
proof -
  note same = cancel_same [OF p]
  have "?thesis" if "op = OpAgentRun"
    using that p n register_other [OF p]
    by (auto simp: guest_handle_def ops handle_agent_run_def no_restart_def reports_same split: option.splits prod.splits)
  moreover have "?thesis" if "op = OpAgentCancel"
    using that p cancelRun_pending [OF p]
    by (auto simp: guest_handle_def ops handle_agent_cancel_def reports_same split: option.splits)
  moreover have "?thesis" if "op \<noteq> OpAgentRun" "op \<noteq> OpAgentCancel"
  proof -
    have q: "cancel_pending t m' \<and> reports_canceled t m m'" if "same_runs m m'" for m'
      using same that by (simp add: same_runs_def)
    show ?thesis
      using that p q [OF quiet_handlers(1)] q [OF quiet_handlers(2)] q [OF quiet_handlers(3)] q [OF quiet_handlers(4)]
        q [OF quiet_handlers(5)] q [OF quiet_handlers(6)] q [OF quiet_handlers(7)] q [OF quiet_handlers(8)] q [OF quiet_handlers(9)]
        handle_clone_cancel [OF p] handle_push_cancel [OF p]
      by (simp add: guest_handle_def reports_same)
  qed
  ultimately show ?thesis by blast
qed

lemma guest_step_cancel:
  assumes p: "cancel_pending t m" and n: "no_restart t ev"
  shows "cancel_pending t (guest_step pt m (g, ev)) \<and> reports_canceled t m (guest_step pt m (g, ev))"
proof (cases ev)
  case (Request op pl)
  with guest_handle_cancel [OF p, of op pl g] n show ?thesis by simp
next
  case (JobStep k)
  with run_job_cancel [OF p, of g k] show ?thesis by simp
next
  case (CredLookup now key)
  then show ?thesis using cancel_same [OF p, of "fst (cachedCred m now key)"]
    by (auto simp: cachedCred_def split: option.splits)
qed (use cancel_same [OF p] in \<open>simp_all add: setActive_def clearActive_def storeCred_def Let_def\<close>)

lemma guest_run_cancel:
  assumes "cancel_pending t m" "\<forall>(g, ev) \<in> set evs. no_restart t ev"
  shows "reports_canceled t m (guest_run pt m evs)"
  using assms
proof (induction evs arbitrary: m)
  case (Cons e evs)
  obtain g ev where e: "e = (g, ev)" by fastforce
  with Cons.prems have "no_restart t ev" by simp
  note st = guest_step_cancel [OF Cons.prems(1) this, of pt g]
  have "reports_canceled t (guest_step pt m (g, ev)) (guest_run pt (guest_step pt m (g, ev)) evs)"
    using Cons st by simp
  with st reports_trans show ?case by (fastforce simp: guest_run_def e)
qed (simp add: guest_run_def reports_same)

text \<open>The cancel request itself.\<close>

lemma cancel_request:
  assumes r: "running t m" and d: "dec_payload (dec_str ''task_id'') pl = Some t" "t \<noteq> []"
  shows "guest_handle g m OpAgentCancel pl = (fst (cancelRun m t), Inr NoBody)" "cancel_pending t (fst (cancelRun m t))"
proof -
  show "guest_handle g m OpAgentCancel pl = (fst (cancelRun m t), Inr NoBody)"
    using d by (simp add: guest_handle_def ops handle_agent_cancel_def)
  show "cancel_pending t (fst (cancelRun m t))"
    using r by (auto simp: running_def cancelRun_def cancel_pending_def canceled_run_def jobs_of_def)
qed

text \<open>
  A registration is by task id alone. When a run has reported but its goroutine has not returned,
  a new run of the same task registers, the old goroutine removes the new registration, and a
  cancel of the new run finds nothing.
\<close>

definition run_payload :: agent_run_payload where
  "run_payload = \<lparr>ar_TaskID = ''t'', ar_Path = ''/workspace/p'', ar_Prompt = [], ar_Provider = ''claude'', ar_SessionID = []\<rparr>"

definition reported_run :: guest_mgr where
  "reported_run = (NewGuestMgr None \<lparr>cl_settings = NoFile, cl_marker = False\<rparr>)\<lparr>
     gm_runs := [(''t'', 0)], gm_heap := [\<lparr>rn_canceled = False, rn_ctxDone = False\<rparr>], gm_jobs := [AgentReported 0 run_payload]\<rparr>"

lemma stale_unregister:
  "let m1 = (case registerRun reported_run ''t'' of (m, r) \<Rightarrow> go_job m (AgentJob r run_payload));
       m2 = run_job g m1 0
   in jobs_of ''t'' m2 = [AgentJob 1 run_payload] \<and> snd (cancelRun m2 ''t'') = False"
  by (simp add: reported_run_def NewGuestMgr_def registerRun_def go_job_def run_job_def unregisterRun_def run_payload_def
      jobs_of_def cancelRun_def)

end
