(* ===== verification/Guest_Ctl_Claims.thy ===== *)
theory Guest_Ctl_Claims
  imports Guest_Cancel
begin

text \<open>The properties of the guest's control channel: git, agent runs, credentials, configuration.\<close>

section \<open>Containment\<close>


definition demo_git :: gitctx where
  "demo_git = \<lparr>gx_run = (\<lambda>_ _. ([], Exited 0)), gx_repo = (\<lambda>_. True), gx_entries = Inr None, gx_workDir = ''/workspace''\<rparr>"

definition demo_guest :: guestctx where
  "demo_guest = \<lparr>gc_git = demo_git,
     gc_agent = \<lparr>ax_json = \<lparr>jx_parse = (\<lambda>_. None)\<rparr>, ax_quote = (\<lambda>s. s), ax_start = (\<lambda>_ _ _ _. Inl ''no process'')\<rparr>,
     gc_sec = None, gc_claude = \<lparr>cx_read = None, cx_mkdir = None, cx_write = None, cx_chown = None, cx_mkdirMarker = None,
       cx_writeMarker = None, cx_chownMarker = None, cx_remove = None\<rparr>,
     gc_kvSetFails = (\<lambda>_ _. False), gc_configFails = False, gc_mkWorkspace = None, gc_homeDir = ''/root''\<rparr>"

definition demo_mgr :: guest_mgr where
  "demo_mgr = NewGuestMgr None \<lparr>cl_settings = NoFile, cl_marker = False\<rparr>"

definition diff_request :: payload where
  "diff_request = Some (JObj [jstr ''path'' ''/workspace/a/../b'', jbool ''staged'' False])"


section \<open>Cancelling a run\<close>


definition started_run :: guest_mgr where
  "started_run = demo_mgr\<lparr>gm_active := Some 1, gm_runs := [(''t'', 0)], gm_heap := [\<lparr>rn_canceled = False, rn_ctxDone = False\<rparr>],
     gm_jobs := [AgentJob 0 run_payload]\<rparr>"


section \<open>Status\<close>

text \<open>Git's \<open>--porcelain=v1 -z\<close> output for a list of changes.\<close>

definition render_status :: "git_file_status \<Rightarrow> string" where
  "render_status f = gf_Index f @ gf_Worktree f @ '' '' @ gf_Path f @ [CHR 0x00] @ (if gf_Orig f = [] then [] else gf_Orig f @ [CHR 0x00])"

definition status_ok :: "git_file_status \<Rightarrow> bool" where
  "status_ok f = (\<exists>x y. gf_Index f = [x] \<and> gf_Worktree f = [y] \<and> x \<noteq> CHR 0x00 \<and> y \<noteq> CHR 0x00
     \<and> gf_Path f \<noteq> [] \<and> CHR 0x00 \<notin> set (gf_Path f) \<and> CHR 0x00 \<notin> set (gf_Orig f)
     \<and> (gf_Orig f \<noteq> [] \<longleftrightarrow> isRenameCopy x \<or> isRenameCopy y))"

lemma parse_one:
  assumes "status_ok f"
  shows "parsePorcelainZ (render_status f @ rest) = f # parsePorcelainZ rest"
proof -
  from assms obtain x y where f: "gf_Index f = [x]" "gf_Worktree f = [y]" "x \<noteq> CHR 0x00" "y \<noteq> CHR 0x00" "gf_Path f \<noteq> []"
    "CHR 0x00 \<notin> set (gf_Path f)" "CHR 0x00 \<notin> set (gf_Orig f)" "gf_Orig f \<noteq> [] \<longleftrightarrow> isRenameCopy x \<or> isRenameCopy y"
    by (auto simp: status_ok_def)
  let ?tok = "x # y # CHR '' '' # gf_Path f"
  have sp: "split_char CHR 0x00 (?tok @ CHR 0x00 # t) = ?tok # split_char CHR 0x00 t" for t
    using f split_char_append [of "CHR 0x00" ?tok t] by simp
  have len: "\<not> length ?tok < 4" using f(5) by (cases "gf_Path f") auto
  have fe: "f = \<lparr>gf_Path = gf_Path f, gf_Orig = gf_Orig f, gf_Index = [x], gf_Worktree = [y]\<rparr>" using f(1,2) by simp
  show ?thesis
  proof (cases "gf_Orig f = []")
    case True
    then have "render_status f @ rest = ?tok @ CHR 0x00 # rest" using f by (simp add: render_status_def)
    with sp [of rest] len f(8) True fe show ?thesis by (simp add: parsePorcelainZ_def Let_def)
  next
    case False
    then have "render_status f @ rest = ?tok @ CHR 0x00 # (gf_Orig f @ CHR 0x00 # rest)" using f by (simp add: render_status_def)
    with sp [of "gf_Orig f @ CHR 0x00 # rest"] split_char_append [OF f(7), of rest] len f(8) False fe
    show ?thesis by (simp add: parsePorcelainZ_def Let_def)
  qed
qed

text \<open>
  C24. The parser of git's NUL-separated status output inverts it: any list of changes, with any
  bytes but NUL in the paths and with the old path of every rename and copy, is read back as it is.
\<close>

theorem porcelain_roundtrip:
  assumes "list_all status_ok fs"
  shows "parsePorcelainZ (concat (map render_status fs)) = fs"
  using assms by (induction fs) (simp_all add: parse_one, simp add: parsePorcelainZ_def)

lemma porcelain_roundtrip_witness:
  "let fs = [\<lparr>gf_Path = ''a b'', gf_Orig = [], gf_Index = '' '', gf_Worktree = ''M''\<rparr>,
             \<lparr>gf_Path = ''new'', gf_Orig = ''old'', gf_Index = ''R'', gf_Worktree = '' ''\<rparr>]
   in parsePorcelainZ (concat (map render_status fs)) = fs"
  unfolding Let_def by (rule porcelain_roundtrip) (simp add: status_ok_def isRenameCopy_def)

section \<open>Agent events\<close>

text \<open>
  C25. Whatever an agent process prints, the events the guest relays are well formed: each has one
  of the three kinds, only the fields of that kind, and is within the caps; the summary of a result
  is within its cap; and nothing is relayed and no result reported for a path outside the workspace.
\<close>

theorem agent_events_typed:
  assumes "runHeadless x ax sec p = (evs, outcome)"
  shows "list_all event_bounded evs \<and> (\<forall>res. outcome = Inr res \<longrightarrow> length (rs_Summary res) \<le> maxAgentSummary)
    \<and> (validateRepoPath x (ar_Path p) \<noteq> None \<longrightarrow> evs = [] \<and> (\<exists>e. outcome = Inl e))"
proof -
  have "parse_ok (parseHeadlessStream jx bin lines)" for jx bin lines by (rule parseHeadlessStream_ok)
  then have "parseHeadlessStream jx bin lines = (res, saw, out) \<Longrightarrow> length (rs_Summary res) \<le> maxAgentSummary \<and> list_all event_bounded out"
    for jx bin lines res saw out by (metis (mono_tags, lifting) case_prod_conv parse_ok_def)
  with assms show ?thesis
    by (auto simp: runHeadless_def split: option.splits sum.splits prod.splits if_splits)
qed

definition demo_fields :: "(string \<times> json) list" where
  "demo_fields = [jstr ''type'' ''result'', jstr ''result'' ''done'', jstr ''session_id'' ''s1'']"

definition demo_line :: json where
  "demo_line = Json [] (JObj demo_fields)"

definition demo_agent :: agentctx where
  "demo_agent = \<lparr>ax_json = \<lparr>jx_parse = (\<lambda>_. Some demo_line)\<rparr>, ax_quote = (\<lambda>s. s),
     ax_start = (\<lambda>_ _ _ _. Inr \<lparr>pr_lines = [''{}''], pr_scanErr = None, pr_stderr = [], pr_waitErr = None\<rparr>)\<rparr>"

definition demo_provider :: "string \<Rightarrow> provider_def option" where
  "demo_provider _ = Some \<lparr>pd_Command = ''claude'', pd_Env = [], pd_SetupCommand = []\<rparr>"

lemma fields_claude: "Fields ''claude'' = [''claude'']"
  by code_simp

lemma demo_argv:
  "headlessBinary \<lparr>pd_Command = ''claude'', pd_Env = [], pd_SetupCommand = []\<rparr> = ''claude''"
  "headlessArgv (\<lambda>s. s) \<lparr>pd_Command = ''claude'', pd_Env = [], pd_SetupCommand = []\<rparr> []
     = Inr [''claude'', ''-p'', ''--output-format'', ''stream-json'', ''--verbose'', ''--dangerously-skip-permissions'']"
  by (simp_all add: headlessArgv_def headlessBinary_def fields_claude Base_def)

lemma demo_field:
  "dec_str ''type'' demo_fields = Some ''result''" "dec_str ''subtype'' demo_fields = Some []"
  "dec_str ''session_id'' demo_fields = Some ''s1''" "dec_bool ''is_error'' demo_fields = Some False"
  "dec_str ''result'' demo_fields = Some ''done''" "dec_int ''num_turns'' demo_fields = Some 0"
  "dec_int ''duration_ms'' demo_fields = Some 0" "dec_field set_float [] ''total_cost_usd'' demo_fields = Some []"
  "dec_field (set_ptr dec_raw_message) None ''message'' demo_fields = Some None"
  by (simp_all add: demo_fields_def dec_str_def dec_bool_def dec_int_def dec_field_def field_vals_def jstr_def lower_byte_def Let_def)

lemma demo_event:
  "dec_stream_event (json_val demo_line) = Some \<lparr>se_Type = ''result'', se_Subtype = [], se_SessionID = ''s1'', se_IsError = False,
     se_Result = ''done'', se_TotalCost = [], se_NumTurns = 0, se_Duration = 0, se_Message = None\<rparr>"
  by (simp only: dec_stream_event_def dec_struct_def demo_line_def json.sel jvalue.case demo_field prod.case option.case)

lemma trim_braces: "TrimSpace ''{}'' = ''{}''"
  by code_simp

lemma demo_parse:
  "\<exists>res. parseHeadlessStream \<lparr>jx_parse = \<lambda>_. Some demo_line\<rparr> ''claude'' [''{}''] = (res, True, []) \<and> rs_SessionID res = ''s1''"
  by (simp add: parseHeadlessStream_def parseStreamJSON_def parse_line_def trim_braces Unmarshal_def demo_event stream_step_def Let_def)

lemma agent_events_typed_witness:
  "\<exists>res. runHeadless demo_git demo_agent (Some demo_provider) run_payload = ([], Inr res) \<and> rs_SessionID res = ''s1''
     \<and> length (rs_Summary res) \<le> maxAgentSummary"
proof -
  have v: "validateRepoPath demo_git ''/workspace/p'' = None"
    by (simp add: validateRepoPath_def validateDest_def demo_git_def Clean_def rooted_path_def clean_elems_def clean_push_def
        HasPrefix_def Let_def)
  obtain res where r: "runHeadless demo_git demo_agent (Some demo_provider) run_payload = ([], Inr res)" "rs_SessionID res = ''s1''"
    using v demo_argv demo_parse
    by (auto simp add: runHeadless_def demo_provider_def demo_agent_def run_payload_def)
  with agent_events_typed [OF r(1)] show ?thesis by blast
qed

section \<open>Credentials\<close>

lemma storeCred_entry:
  "map_of (gm_cache (storeCred pt m t0 key resp)) key = Some \<lparr>ce_resp = resp, ce_expires =
     (let e = t0 + credCacheTTL in if cd_Expiry resp = [] then e
      else case pt (cd_Expiry resp) of Some t \<Rightarrow> (if t < e then t else e) | None \<Rightarrow> e)\<rparr>"
  by (simp add: storeCred_def Let_def AList.update_conv')

lemma cache_step:
  assumes "\<forall>now r. ev \<noteq> CredStore now key r" "map_of (gm_cache m) key = None \<or> map_of (gm_cache m) key = Some e"
  shows "map_of (gm_cache (guest_step pt m (g, ev))) key = None \<or> map_of (gm_cache (guest_step pt m (g, ev))) key = Some e"
proof (cases ev)
  case (Request op pl)
  have "gm_cache (fst (handle_clone g m pl)) = gm_cache m" "gm_cache (fst (handle_push g m pl)) = gm_cache m"
    "gm_cache (fst (handle_agent_run g m pl)) = gm_cache m" "gm_cache (fst (handle_agent_cancel m pl)) = gm_cache m"
    by (auto simp: handle_clone_def handle_push_def handle_agent_run_def handle_agent_cancel_def go_job_def registerRun_def
        cancelRun_def split: option.split)
  then have "gm_cache (fst (guest_handle g m op pl)) = gm_cache m"
    using quiet_handlers [of m] by (simp add: guest_handle_def same_runs_def)
  with Request assms(2) show ?thesis by simp
next
  case (JobStep k)
  have "gm_cache (fst (job_step g m j)) = gm_cache m" for j
    by (induction g m j rule: job_step.induct) (auto simp: send_note_def unregisterRun_def Let_def split: prod.split option.split)
  then have "gm_cache (run_job g m k) = gm_cache m"
    by (auto simp: run_job_def split: prod.split option.split) (metis fst_conv)+
  with JobStep assms(2) show ?thesis by simp
next
  case (CredLookup now k)
  with assms(2) show ?thesis by (auto simp: cachedCred_def AList.delete_conv' split: option.splits)
next
  case (CredStore now k r)
  with assms show ?thesis by (cases "k = key") (auto simp: storeCred_def Let_def AList.update_conv')
qed (use assms(2) in \<open>auto simp: setActive_def clearActive_def\<close>)

lemma cache_run:
  assumes "\<forall>(g, ev) \<in> set evs. \<forall>now r. ev \<noteq> CredStore now key r" "map_of (gm_cache m) key = None \<or> map_of (gm_cache m) key = Some e"
  shows "map_of (gm_cache (guest_run pt m evs)) key = None \<or> map_of (gm_cache (guest_run pt m evs)) key = Some e"
  using assms
proof (induction evs arbitrary: m)
  case (Cons x evs)
  obtain g ev where x: "x = (g, ev)" by fastforce
  from Cons.prems(1) have ns: "\<forall>now r. ev \<noteq> CredStore now key r" by (simp add: x)
  from Cons.IH [OF _ cache_step [OF ns Cons.prems(2)]] Cons.prems(1) show ?case by (simp add: guest_run_def x)
qed (simp add: guest_run_def)

text \<open>
  A credential the guest keeps in memory is the one that was fetched for exactly that protocol
  and host, and it is served for at most 60 seconds and never past the expiry it carries, whatever
  happens in between; until then the cache serves it.
\<close>

theorem credential_cache_bounded:
  assumes "\<forall>(g, ev) \<in> set evs. \<forall>now r. ev \<noteq> CredStore now key r"
    and "m1 = guest_run pt (storeCred pt m t0 key resp) evs"
  shows "(\<forall>now r. snd (cachedCred m1 now key) = Some r \<longrightarrow>
      r = resp \<and> now \<le> t0 + 60 * 1000000000 \<and> (\<forall>t. cd_Expiry resp \<noteq> [] \<and> pt (cd_Expiry resp) = Some t \<longrightarrow> now \<le> t))
    \<and> (\<forall>now. evs = [] \<and> now \<le> t0 + 60 * 1000000000 \<and> (\<forall>t. pt (cd_Expiry resp) = Some t \<longrightarrow> now \<le> t)
        \<longrightarrow> snd (cachedCred m1 now key) = Some resp)"
proof -
  obtain e where e: "map_of (gm_cache (storeCred pt m t0 key resp)) key = Some e" "ce_resp e = resp"
    "ce_expires e \<le> t0 + 60 * 1000000000" "\<forall>t. cd_Expiry resp \<noteq> [] \<and> pt (cd_Expiry resp) = Some t \<longrightarrow> ce_expires e \<le> t"
    "\<forall>now. now \<le> t0 + 60 * 1000000000 \<and> (\<forall>t. pt (cd_Expiry resp) = Some t \<longrightarrow> now \<le> t) \<longrightarrow> now \<le> ce_expires e"
    using storeCred_entry [of pt m t0 key resp] by (auto simp: credCacheTTL_def Let_def split: option.splits)
  have "map_of (gm_cache m1) key = None \<or> map_of (gm_cache m1) key = Some e"
    unfolding assms(2) by (rule cache_run [OF assms(1)]) (simp add: e(1))
  moreover have "evs = [] \<Longrightarrow> map_of (gm_cache m1) key = Some e" using e(1) by (simp add: assms(2) guest_run_def)
  ultimately show ?thesis using e(2-5) by (auto simp: cachedCred_def split: if_splits)
qed

lemma credential_cache_bounded_witness:
  "\<not> (\<exists>r. snd (cachedCred (guest_run (\<lambda>_. None) (storeCred (\<lambda>_. None) demo_mgr 0 ''https://h'' \<lparr>cd_Username = ''u'', cd_Password = ''p'',
     cd_Expiry = []\<rparr>) [(demo_guest, Disconnect 1)]) 60000000001 ''https://h'') = Some r)"
  using credential_cache_bounded [of "[(demo_guest, Disconnect 1)]" "''https://h''" _ "\<lambda>_. None" demo_mgr 0
      "\<lparr>cd_Username = ''u'', cd_Password = ''p'', cd_Expiry = []\<rparr>"] by fastforce

section \<open>The user's settings\<close>

lemma read_settings:
  assumes "readClaudeSettings cx fs = Inr m"
  shows "setting (cl_settings fs) k = map_option json_val (map_of (case m of None \<Rightarrow> [] | Some x \<Rightarrow> x) k)
    \<and> distinct (map fst (case m of None \<Rightarrow> [] | Some x \<Rightarrow> x))"
  using assms to_map_distinct
  by (auto simp: readClaudeSettings_def setting_def split: settings_file.splits option.splits jvalue.splits)

lemma write_settings:
  assumes "writeClaudeSettings cx fs m = (fs', e)" "distinct (map fst m)"
  shows "fs' = fs \<or> (cl_marker fs' = cl_marker fs \<and> (\<forall>k. setting (cl_settings fs') k = map_option json_val (map_of m k)))"
  using assms by (auto simp: writeClaudeSettings_def setting_def to_map_id split: option.splits)

text \<open>Any configuration request leaves the keys it does not manage as they are, whatever fails.\<close>

lemma other_keys:
  assumes k: "k \<noteq> claudeIncludeCoAuthor" "k \<noteq> claudeAttributionKey"
  shows "setting (cl_settings (fst (applyClaudeConfig cx fs att))) k = setting (cl_settings fs) k"
proof (cases "readClaudeSettings cx fs")
  case (Inl e)
  then show ?thesis by (simp add: applyClaudeConfig_def restoreClaudeAttribution_def suppressClaudeAttribution_def)
next
  case (Inr mo)
  let ?m = "case mo of None \<Rightarrow> [] | Some x \<Rightarrow> x"
  note rd = read_settings [OF Inr]
  show ?thesis
  proof (cases att)
    case False
    obtain fs1 e1 where w: "writeClaudeSettings cx fs (suppress_map ?m) = (fs1, e1)" by fastforce
    have "setting (cl_settings fs1) k = setting (cl_settings fs) k"
      using write_settings [OF w suppress_map_distinct] rd suppress_other [OF k, of ?m] by auto
    then show ?thesis using False Inr w
      by (simp add: applyClaudeConfig_def suppressClaudeAttribution_def writeAttributionMarker_def split: option.split)
  next
    case True
    obtain fs1 e1 where w: "(case mo of None \<Rightarrow> (fs, None) | Some m \<Rightarrow> writeClaudeSettings cx fs (restore_map m)) = (fs1, e1)" by fastforce
    have "setting (cl_settings fs1) k = setting (cl_settings fs) k"
    proof (cases mo)
      case (Some m)
      with write_settings [of cx fs "restore_map m" fs1 e1] w rd [of k] restore_map_distinct [of m] restore_other [OF k, of m]
      show ?thesis by auto
    qed (use w in simp)
    then show ?thesis using True Inr w
      by (simp add: applyClaudeConfig_def restoreClaudeAttribution_def split: option.split)
  qed
qed

text \<open>
  Switching the attribution off and on again gives the user's settings back: with a readable
  settings file that does not set the managed keys and a file system that answers, every key of it
  decodes to what it was, and the marker is gone.
\<close>

theorem attribution_roundtrip:
  assumes "readClaudeSettings cx fs = Inr m" "\<not> cl_marker fs"
    and "setting (cl_settings fs) claudeIncludeCoAuthor = None" "setting (cl_settings fs) claudeAttributionKey = None"
    and "cx_mkdir cx = None" "cx_write cx = None" "cx_chown cx = None" "cx_read cx = None"
    and "cx_mkdirMarker cx = None" "cx_writeMarker cx = None" "cx_chownMarker cx = None" "cx_remove cx = None"
  shows "\<exists>fs1 fs2. applyClaudeConfig cx fs False = (fs1, None) \<and> applyClaudeConfig cx fs1 True = (fs2, None)
    \<and> setting (cl_settings fs1) claudeIncludeCoAuthor = Some (JBool False) \<and> cl_marker fs1 \<and> \<not> cl_marker fs2
    \<and> (\<forall>k. setting (cl_settings fs2) k = setting (cl_settings fs) k)"
proof -
  let ?m = "case m of None \<Rightarrow> [] | Some x \<Rightarrow> x" let ?s = "suppress_map ?m"
  note rd = read_settings [OF assms(1)]
  have d: "distinct (map fst ?m)" "distinct (map fst ?s)" "distinct (map fst (restore_map ?s))"
    using rd suppress_map_distinct restore_map_distinct by blast+
  have n: "map_of ?m claudeIncludeCoAuthor = None" "map_of ?m claudeAttributionKey = None" using assms(3,4) rd by simp_all
  let ?fs1 = "fs\<lparr>cl_settings := Document (JObj ?s), cl_marker := True\<rparr>"
  let ?fs2 = "?fs1\<lparr>cl_settings := Document (JObj (restore_map ?s)), cl_marker := False\<rparr>"
  have "applyClaudeConfig cx fs False = (?fs1, None)"
    using assms(1,5-12) by (simp add: applyClaudeConfig_def suppressClaudeAttribution_def writeClaudeSettings_def writeAttributionMarker_def)
  moreover have "applyClaudeConfig cx ?fs1 True = (?fs2, None)"
    using assms(5-12) d by (simp add: applyClaudeConfig_def restoreClaudeAttribution_def readClaudeSettings_def writeClaudeSettings_def
        to_map_id)
  moreover have "setting (cl_settings ?fs1) claudeIncludeCoAuthor = Some (JBool False)"
    using d keys_differ by (simp add: setting_def to_map_id suppress_map_def Let_def AList.update_conv' mem_json_def)
  moreover have "setting (cl_settings ?fs2) k = setting (cl_settings fs) k" for k
    using restore_suppress [OF n, of k] rd d by (simp add: setting_def to_map_id)
  ultimately show ?thesis by (intro exI [of _ ?fs1] exI [of _ ?fs2]) simp
qed

lemma attribution_roundtrip_witness:
  "\<exists>fs1 fs2. applyClaudeConfig (gc_claude demo_guest) \<lparr>cl_settings = NoFile, cl_marker = False\<rparr> False = (fs1, None)
     \<and> applyClaudeConfig (gc_claude demo_guest) fs1 True = (fs2, None) \<and> cl_marker fs1 \<and> \<not> cl_marker fs2"
  using attribution_roundtrip [of "gc_claude demo_guest" "\<lparr>cl_settings = NoFile, cl_marker = False\<rparr>" None]
  by (auto simp: demo_guest_def readClaudeSettings_def setting_def)

end
