(* ===== verification/Ctl_Supervise.thy ===== *)
theory Ctl_Supervise
  imports Go_Prelude
begin

text \<open>
  The connection side of \<open>guestctl/manager.go\<close>: one supervisor goroutine per running machine dials the
  guest, serves one channel session and redials with backoff until it is cancelled. The two maps
  under the mutex are fields of the state; a goroutine is its phase in \<open>supervise\<close>, and every
  interleaving of goroutines, \<open>ensure\<close> and \<open>teardown\<close> is a list of events.
\<close>

section \<open>State\<close>

definition second :: int where "second = 1000000000"
definition maxBackoff :: int where "maxBackoff = 30 * second"

text \<open>
  \<open>Checking\<close>: at the top of the loop; \<open>Dialing\<close>, \<open>Session\<close>: in \<open>connectOnce\<close> before and after
  \<open>setConn\<close>; \<open>Returned\<close>: it has returned whether a session was established; \<open>Waiting\<close>: in the
  \<open>select\<close>; \<open>Leaving\<close>: \<open>supervise\<close> has returned, the entry is not deleted yet.
\<close>

datatype sup_phase = Checking | Dialing | Session nat | Returned bool | Waiting | Leaving

record supervisor =
  sp_Machine :: string
  sp_User :: string
  sp_backoff :: int
  sp_phase :: sup_phase
  sp_cancelled :: bool

record ctl_mgr =
  cm_supervisors :: "string \<rightharpoonup> nat"
  cm_conns :: "string \<rightharpoonup> nat"
  cm_gos :: "nat \<rightharpoonup> supervisor"
  cm_nextGo :: nat
  cm_nextConn :: nat
  cm_baseDone :: bool

definition new_mgr :: ctl_mgr where
  "new_mgr = \<lparr>cm_supervisors = (\<lambda>_. None), cm_conns = (\<lambda>_. None), cm_gos = (\<lambda>_. None), cm_nextGo = 0, cm_nextConn = 0, cm_baseDone = False\<rparr>"

section \<open>Critical sections\<close>

definition ensure :: "ctl_mgr \<Rightarrow> string \<Rightarrow> string \<Rightarrow> ctl_mgr" where
  "ensure m mid userID =
     (if cm_supervisors m mid \<noteq> None then m
      else let g = cm_nextGo m in
        m\<lparr>cm_supervisors := (cm_supervisors m)(mid \<mapsto> g), cm_nextGo := g + 1,
          cm_gos := (cm_gos m)(g \<mapsto> \<lparr>sp_Machine = mid, sp_User = userID, sp_backoff = second, sp_phase = Checking,
            sp_cancelled = cm_baseDone m\<rparr>)\<rparr>)"

definition cancel_go :: "ctl_mgr \<Rightarrow> nat \<Rightarrow> ctl_mgr" where
  "cancel_go m g = m\<lparr>cm_gos := (cm_gos m)(g := map_option (\<lambda>s. s\<lparr>sp_cancelled := True\<rparr>) (cm_gos m g))\<rparr>"

definition teardown :: "ctl_mgr \<Rightarrow> string \<Rightarrow> ctl_mgr" where
  "teardown m mid = (let m1 = m\<lparr>cm_supervisors := (cm_supervisors m)(mid := None)\<rparr> in
     case cm_supervisors m mid of None \<Rightarrow> m1 | Some g \<Rightarrow> cancel_go m1 g)"

definition setConn :: "ctl_mgr \<Rightarrow> string \<Rightarrow> nat \<Rightarrow> ctl_mgr" where
  "setConn m mid c = m\<lparr>cm_conns := (cm_conns m)(mid \<mapsto> c)\<rparr>"

definition clearConn :: "ctl_mgr \<Rightarrow> string \<Rightarrow> nat \<Rightarrow> ctl_mgr" where
  "clearConn m mid c = (if cm_conns m mid = Some c then m\<lparr>cm_conns := (cm_conns m)(mid := None)\<rparr> else m)"

definition getConn :: "ctl_mgr \<Rightarrow> string \<Rightarrow> nat option" where
  "getConn m mid = cm_conns m mid"

definition HasChannel :: "ctl_mgr \<Rightarrow> string \<Rightarrow> bool" where
  "HasChannel m mid = (getConn m mid \<noteq> None)"

section \<open>The goroutine\<close>

definition put_go :: "ctl_mgr \<Rightarrow> nat \<Rightarrow> supervisor \<Rightarrow> ctl_mgr" where
  "put_go m g s = m\<lparr>cm_gos := (cm_gos m)(g \<mapsto> s)\<rparr>"

text \<open>What \<open>connectOnce\<close> does: the dial failed, it succeeded, the session ended.\<close>

datatype sup_event = DialFailed | DialOk | SessionEnds | Wakes | Proceeds

definition next_backoff :: "int \<Rightarrow> int" where
  "next_backoff b = (if b < maxBackoff then (if b * 2 > maxBackoff then maxBackoff else b * 2) else b)"

text \<open>\<open>connectOnce\<close> from the dial on; \<open>None\<close> when the event cannot happen now.\<close>

definition connectOnce :: "ctl_mgr \<Rightarrow> nat \<Rightarrow> supervisor \<Rightarrow> sup_event \<Rightarrow> ctl_mgr option" where
  "connectOnce m g s ev = (case (sp_phase s, ev) of
       (Dialing, DialFailed) \<Rightarrow> Some (put_go m g (s\<lparr>sp_phase := Returned False\<rparr>))
     | (Dialing, DialOk) \<Rightarrow> (let c = cm_nextConn m in
         Some (put_go (setConn (m\<lparr>cm_nextConn := c + 1\<rparr>) (sp_Machine s) c) g (s\<lparr>sp_phase := Session c\<rparr>)))
     | (Session c, SessionEnds) \<Rightarrow> Some (put_go (clearConn m (sp_Machine s) c) g (s\<lparr>sp_phase := Returned True\<rparr>))
     | _ \<Rightarrow> None)"

definition supervise :: "ctl_mgr \<Rightarrow> nat \<Rightarrow> supervisor \<Rightarrow> sup_event \<Rightarrow> ctl_mgr option" where
  "supervise m g s ev = (case (sp_phase s, ev) of
       (Checking, Proceeds) \<Rightarrow> Some (put_go m g (s\<lparr>sp_phase := (if sp_cancelled s then Leaving else Dialing)\<rparr>))
     | (Returned established, Proceeds) \<Rightarrow> Some (put_go m g
         (if sp_cancelled s then s\<lparr>sp_phase := Leaving\<rparr>
          else s\<lparr>sp_phase := Waiting, sp_backoff := (if established then second else sp_backoff s)\<rparr>))
     | (Waiting, Proceeds) \<Rightarrow> (if sp_cancelled s then Some (put_go m g (s\<lparr>sp_phase := Leaving\<rparr>)) else None)
     | (Waiting, Wakes) \<Rightarrow> Some (put_go m g (s\<lparr>sp_phase := Checking, sp_backoff := next_backoff (sp_backoff s)\<rparr>))
     | (Leaving, Proceeds) \<Rightarrow> Some (m\<lparr>cm_supervisors := (cm_supervisors m)(sp_Machine s := None), cm_gos := (cm_gos m)(g := None)\<rparr>)
     | _ \<Rightarrow> connectOnce m g s ev)"

datatype ctl_event = Ensure string string | Teardown string | BaseDone | Go nat sup_event

fun ctl_exec :: "ctl_mgr \<Rightarrow> ctl_event \<Rightarrow> ctl_mgr option" where
  "ctl_exec m (Ensure mid u) = Some (ensure m mid u)"
| "ctl_exec m (Teardown mid) = Some (teardown m mid)"
| "ctl_exec m BaseDone = Some (m\<lparr>cm_baseDone := True, cm_gos := map_option (\<lambda>s. s\<lparr>sp_cancelled := True\<rparr>) \<circ> cm_gos m\<rparr>)"
| "ctl_exec m (Go g ev) = (case cm_gos m g of None \<Rightarrow> None | Some s \<Rightarrow> supervise m g s ev)"

fun ctl_run :: "ctl_mgr \<Rightarrow> ctl_event list \<Rightarrow> ctl_mgr option" where
  "ctl_run m [] = Some m"
| "ctl_run m (ev # evs) = (case ctl_exec m ev of None \<Rightarrow> None | Some m' \<Rightarrow> ctl_run m' evs)"

inductive ctl_reachable :: "ctl_mgr \<Rightarrow> bool" where
  init: "ctl_reachable new_mgr"
| step: "ctl_reachable m \<Longrightarrow> ctl_exec m ev = Some m' \<Longrightarrow> ctl_reachable m'"

lemma ctl_run_reachable: "ctl_reachable m \<Longrightarrow> ctl_run m evs = Some m' \<Longrightarrow> ctl_reachable m'"
  by (induction evs arbitrary: m) (auto split: option.splits intro: ctl_reachable.step)

section \<open>Invariant\<close>

text \<open>The session a goroutine serves: its machine and its connection.\<close>

definition session_of :: "supervisor \<Rightarrow> (string \<times> nat) option" where
  "session_of s = (case sp_phase s of Session c \<Rightarrow> Some (sp_Machine s, c) | _ \<Rightarrow> None)"

definition sessions :: "ctl_mgr \<Rightarrow> nat \<Rightarrow> (string \<times> nat) option" where
  "sessions m g = Option.bind (cm_gos m g) session_of"

text \<open>
  A registered connection is the session of a goroutine of that machine, sessions have connections
  of their own, and the wait is between one and thirty seconds.
\<close>

definition conn_linked :: "(string \<rightharpoonup> nat) \<Rightarrow> (nat \<rightharpoonup> string \<times> nat) \<Rightarrow> nat \<Rightarrow> bool" where
  "conn_linked conns S n = ((\<forall>i c. conns i = Some c \<longrightarrow> (\<exists>g. S g = Some (i, c)))
     \<and> (\<forall>g g' i i' c. S g = Some (i, c) \<and> S g' = Some (i', c) \<longrightarrow> g = g') \<and> (\<forall>g i c. S g = Some (i, c) \<longrightarrow> c < n))"

definition waits_ok :: "ctl_mgr \<Rightarrow> bool" where
  "waits_ok m = (\<forall>g s. cm_gos m g = Some s \<longrightarrow> g < cm_nextGo m \<and> second \<le> sp_backoff s \<and> sp_backoff s \<le> maxBackoff)"

definition mgr_ok :: "ctl_mgr \<Rightarrow> bool" where
  "mgr_ok m = (conn_linked (cm_conns m) (sessions m) (cm_nextConn m) \<and> waits_ok m)"

lemma conn_linked_set:
  assumes "conn_linked conns S n" "S g = None"
  shows "conn_linked (conns(i \<mapsto> n)) (S(g \<mapsto> (i, n))) (n + 1)"
proof -
  have 1: "\<forall>i c. conns i = Some c \<longrightarrow> (\<exists>g. S g = Some (i, c))" "\<forall>g g' i i' c. S g = Some (i, c) \<and> S g' = Some (i', c) \<longrightarrow> g = g'"
    "\<forall>g i c. S g = Some (i, c) \<longrightarrow> c < n" using assms(1) by (auto simp: conn_linked_def)
  show ?thesis unfolding conn_linked_def
  proof (intro conjI allI impI)
    fix i' c' assume a: "(conns(i \<mapsto> n)) i' = Some c'"
    show "\<exists>g'. (S(g \<mapsto> (i, n))) g' = Some (i', c')"
    proof (cases "i' = i")
      case False
      with a 1(1) obtain g' where "S g' = Some (i', c')" by auto
      with assms(2) have "(S(g \<mapsto> (i, n))) g' = Some (i', c')" by auto
      then show ?thesis by blast
    qed (use a in auto)
  next
    fix g1 g2 i1 i2 c assume a: "(S(g \<mapsto> (i, n))) g1 = Some (i1, c) \<and> (S(g \<mapsto> (i, n))) g2 = Some (i2, c)"
    show "g1 = g2" using a 1(2) 1(3) by (metis fun_upd_apply less_irrefl option.inject prod.inject)
  next
    fix g1 i1 c assume "(S(g \<mapsto> (i, n))) g1 = Some (i1, c)"
    then show "c < n + 1" using 1(3) by (auto simp: less_Suc_eq split: if_splits)
  qed
qed

lemma conn_linked_clear:
  assumes "conn_linked conns S n" "S g = Some (i, c)"
  shows "conn_linked (if conns i = Some c then conns(i := None) else conns) (S(g := None)) n"
  unfolding conn_linked_def
proof (intro conjI allI impI)
  fix i' c' assume a: "(if conns i = Some c then conns(i := None) else conns) i' = Some c'"
  then have "conns i' = Some c'" by (auto split: if_splits)
  then obtain g' where "S g' = Some (i', c')" using assms(1) unfolding conn_linked_def by blast
  moreover have "g' \<noteq> g" using a assms(2) calculation by (auto split: if_splits)
  ultimately show "\<exists>g'. (S(g := None)) g' = Some (i', c')" by auto
qed (use assms(1) in \<open>auto simp: conn_linked_def split: if_splits\<close>)

lemma next_backoff_bounds: "second \<le> b \<Longrightarrow> b \<le> maxBackoff \<Longrightarrow> second \<le> next_backoff b \<and> next_backoff b \<le> maxBackoff"
  by (auto simp: next_backoff_def maxBackoff_def second_def)

lemma put_go_simps [simp]:
  "cm_gos (put_go m g s) = (cm_gos m)(g \<mapsto> s)" "cm_conns (put_go m g s) = cm_conns m" "cm_supervisors (put_go m g s) = cm_supervisors m"
  "cm_nextGo (put_go m g s) = cm_nextGo m" "cm_nextConn (put_go m g s) = cm_nextConn m" "cm_baseDone (put_go m g s) = cm_baseDone m"
  by (simp_all add: put_go_def)

lemma sessions_upd: "sessions m' = (sessions m)(g := session_of s)" if "cm_gos m' = (cm_gos m)(g \<mapsto> s)"
  by (rule ext) (simp add: sessions_def that)

lemma new_mgr_ok: "mgr_ok new_mgr"
  by (simp add: mgr_ok_def new_mgr_def conn_linked_def sessions_def waits_ok_def)

text \<open>A step of a goroutine with no session into one with none.\<close>

lemma mgr_ok_phase:
  assumes "mgr_ok m" "cm_gos m' = (cm_gos m)(g \<mapsto> s)" "sessions m g = None" "session_of s = None" "g < cm_nextGo m'" "cm_nextGo m \<le> cm_nextGo m'"
    "second \<le> sp_backoff s" "sp_backoff s \<le> maxBackoff" "cm_conns m' = cm_conns m" "cm_nextConn m' = cm_nextConn m"
  shows "mgr_ok m'"
proof -
  have "sessions m' = sessions m" by (rule ext) (simp add: sessions_upd [OF assms(2)] assms(3,4))
  moreover have "waits_ok m'" unfolding waits_ok_def
  proof (intro allI impI)
    fix ga sa assume "cm_gos m' ga = Some sa"
    then show "ga < cm_nextGo m' \<and> second \<le> sp_backoff sa \<and> sp_backoff sa \<le> maxBackoff"
      using assms by (cases "ga = g") (fastforce simp: mgr_ok_def waits_ok_def)+
  qed
  ultimately show ?thesis using assms by (simp add: mgr_ok_def)
qed

text \<open>Cancelling changes no phase.\<close>

lemma mgr_ok_cancel:
  assumes "mgr_ok m" "\<forall>g. cm_gos m' g = cm_gos m g \<or> cm_gos m' g = map_option (\<lambda>s. s\<lparr>sp_cancelled := True\<rparr>) (cm_gos m g)"
    "cm_conns m' = cm_conns m" "cm_nextConn m' = cm_nextConn m" "cm_nextGo m' = cm_nextGo m"
  shows "mgr_ok m'"
proof -
  have "sessions m' g = sessions m g" for g
    using assms(2) [rule_format, of g] by (cases "cm_gos m g") (auto simp: sessions_def session_of_def split: sup_phase.split)
  then have "sessions m' = sessions m" by (rule ext)
  moreover have "waits_ok m'" unfolding waits_ok_def
  proof (intro allI impI)
    fix g s assume "cm_gos m' g = Some s"
    then obtain s0 where "cm_gos m g = Some s0" "sp_backoff s = sp_backoff s0" using assms(2) [rule_format, of g] by (cases "cm_gos m g") auto
    then show "g < cm_nextGo m' \<and> second \<le> sp_backoff s \<and> sp_backoff s \<le> maxBackoff" using assms(1,5) by (auto simp: mgr_ok_def waits_ok_def)
  qed
  ultimately show ?thesis using assms by (simp add: mgr_ok_def)
qed

lemma ensure_ok:
  assumes "mgr_ok m"
  shows "mgr_ok (ensure m mid u)"
proof (cases "cm_supervisors m mid")
  case None
  have fresh: "cm_gos m (cm_nextGo m) = None" using assms by (cases "cm_gos m (cm_nextGo m)") (auto simp: mgr_ok_def waits_ok_def)
  show ?thesis
    by (rule mgr_ok_phase [OF assms, of _ "cm_nextGo m"
          "\<lparr>sp_Machine = mid, sp_User = u, sp_backoff = second, sp_phase = Checking, sp_cancelled = cm_baseDone m\<rparr>"])
      (use None fresh in \<open>simp_all add: ensure_def Let_def sessions_def session_of_def maxBackoff_def second_def\<close>)
qed (simp add: ensure_def assms)

lemma teardown_ok: "mgr_ok m \<Longrightarrow> mgr_ok (teardown m mid)"
  by (erule mgr_ok_cancel) (auto simp: teardown_def cancel_go_def Let_def split: option.split)

lemma connectOnce_ok:
  assumes "mgr_ok m" "cm_gos m g = Some s" "connectOnce m g s ev = Some m'"
  shows "mgr_ok m'"
proof -
  have w: "g < cm_nextGo m" "second \<le> sp_backoff s" "sp_backoff s \<le> maxBackoff" using assms(1,2) by (auto simp: mgr_ok_def waits_ok_def)
  have l: "conn_linked (cm_conns m) (sessions m) (cm_nextConn m)" using assms(1) by (simp add: mgr_ok_def)
  have ss: "sessions m g = session_of s" by (simp add: sessions_def assms(2))
  consider "sp_phase s = Dialing" "ev = DialFailed" | "sp_phase s = Dialing" "ev = DialOk" | c where "sp_phase s = Session c" "ev = SessionEnds"
    using assms(3) by (auto simp: connectOnce_def split: sup_phase.splits sup_event.splits)
  then show ?thesis
  proof cases
    case 1
    with assms(3) have m': "m' = put_go m g (s\<lparr>sp_phase := Returned False\<rparr>)" by (simp add: connectOnce_def)
    show ?thesis unfolding m' by (rule mgr_ok_phase [OF assms(1), of _ g "s\<lparr>sp_phase := Returned False\<rparr>"]) (use 1 w ss in \<open>simp_all add: session_of_def\<close>)
  next
    case 2
    let ?s = "s\<lparr>sp_phase := Session (cm_nextConn m)\<rparr>"
    have m': "m' = put_go (setConn (m\<lparr>cm_nextConn := cm_nextConn m + 1\<rparr>) (sp_Machine s) (cm_nextConn m)) g ?s"
      using assms(3) 2 by (simp add: connectOnce_def Let_def)
    then have gos: "cm_gos m' = (cm_gos m)(g \<mapsto> ?s)" by (simp add: setConn_def)
    have "conn_linked (cm_conns m') (sessions m') (cm_nextConn m')"
      using conn_linked_set [OF l, of g "sp_Machine s"] 2 ss unfolding sessions_upd [OF gos] by (simp add: m' setConn_def session_of_def)
    moreover have "waits_ok m'" using assms(1) w gos by (auto simp: waits_ok_def mgr_ok_def m' setConn_def split: if_splits)
    ultimately show ?thesis by (simp add: mgr_ok_def)
  next
    case 3
    let ?s = "s\<lparr>sp_phase := Returned True\<rparr>"
    have m': "m' = put_go (clearConn m (sp_Machine s) c) g ?s" using assms(3) 3 by (simp add: connectOnce_def)
    then have gos: "cm_gos m' = (cm_gos m)(g \<mapsto> ?s)" by (simp add: clearConn_def)
    have "conn_linked (cm_conns m') (sessions m') (cm_nextConn m')"
      using conn_linked_clear [OF l, of g "sp_Machine s" c] 3 ss unfolding sessions_upd [OF gos]
      by (auto simp: m' clearConn_def session_of_def split: if_splits)
    moreover have "waits_ok m'" using assms(1) w gos by (auto simp: waits_ok_def mgr_ok_def m' clearConn_def split: if_splits)
    ultimately show ?thesis by (simp add: mgr_ok_def)
  qed
qed

lemma supervise_ok:
  assumes "mgr_ok m" "cm_gos m g = Some s" "supervise m g s ev = Some m'"
  shows "mgr_ok m'"
proof -
  have w: "g < cm_nextGo m" "second \<le> sp_backoff s" "sp_backoff s \<le> maxBackoff" using assms(1,2) by (auto simp: mgr_ok_def waits_ok_def)
  have ss: "sessions m g = session_of s" by (simp add: sessions_def assms(2))
  have phase: "mgr_ok (put_go m g s')" if "session_of s = None" "session_of s' = None" "second \<le> sp_backoff s'" "sp_backoff s' \<le> maxBackoff" for s'
    by (rule mgr_ok_phase [OF assms(1), of _ g s']) (use that w ss in simp_all)
  consider "connectOnce m g s ev = Some m'"
    | s' where "session_of s = None" "session_of s' = None" "second \<le> sp_backoff s'" "sp_backoff s' \<le> maxBackoff" "m' = put_go m g s'"
    | "sp_phase s = Leaving" "m' = m\<lparr>cm_supervisors := (cm_supervisors m)(sp_Machine s := None), cm_gos := (cm_gos m)(g := None)\<rparr>"
    using assms(3) w next_backoff_bounds [OF w(2,3)]
    by (fastforce simp: supervise_def session_of_def maxBackoff_def second_def split: sup_phase.splits sup_event.splits if_splits)
  then show ?thesis
  proof cases
    case 1 then show ?thesis by (rule connectOnce_ok [OF assms(1,2)])
  next
    case 2 then show ?thesis using phase by blast
  next
    case 3
    have "sessions m' = sessions m" by (rule ext) (use 3 ss assms(2) in \<open>auto simp: sessions_def session_of_def\<close>)
    with assms(1) 3 show ?thesis by (auto simp: mgr_ok_def waits_ok_def split: if_splits)
  qed
qed

lemma ctl_exec_ok: "mgr_ok m \<Longrightarrow> ctl_exec m ev = Some m' \<Longrightarrow> mgr_ok m'"
proof (induction m ev rule: ctl_exec.induct)
  case (3 m)
  then show ?case using mgr_ok_cancel [OF 3(1), of m'] by auto
qed (auto simp: ensure_ok teardown_ok supervise_ok split: option.splits)

lemma ctl_reachable_ok: "ctl_reachable m \<Longrightarrow> mgr_ok m"
  by (induction rule: ctl_reachable.induct) (auto simp: new_mgr_ok ctl_exec_ok)

section \<open>One supervisor per machine\<close>

text \<open>
  \<open>ensure\<close> is called for a machine none of whose goroutines is still on its way out. The manager
  does not check it: the last lemma of this section shows what happens without.
\<close>

fun settled :: "ctl_mgr \<Rightarrow> ctl_event \<Rightarrow> bool" where
  "settled m (Ensure mid u) = (\<forall>g s. cm_gos m g = Some s \<and> sp_Machine s = mid \<longrightarrow> \<not> sp_cancelled s)"
| "settled m _ = True"

fun settled_run :: "ctl_mgr \<Rightarrow> ctl_event list \<Rightarrow> bool" where
  "settled_run m [] = True"
| "settled_run m (ev # evs) = (settled m ev \<and> (case ctl_exec m ev of None \<Rightarrow> True | Some m' \<Rightarrow> settled_run m' evs))"

definition one_each :: "ctl_mgr \<Rightarrow> bool" where
  "one_each m = ((\<forall>g s. cm_gos m g = Some s \<and> \<not> sp_cancelled s \<longrightarrow> cm_supervisors m (sp_Machine s) = Some g)
     \<and> (\<forall>g s g' s'. cm_gos m g = Some s \<and> cm_gos m g' = Some s' \<and> sp_Machine s' = sp_Machine s \<and> \<not> sp_cancelled s \<longrightarrow> g = g')
     \<and> (\<forall>mid g. cm_supervisors m mid = Some g \<longrightarrow> (\<exists>s. cm_gos m g = Some s \<and> sp_Machine s = mid))
     \<and> (\<forall>g s. cm_gos m g = Some s \<and> sp_phase s = Leaving \<longrightarrow> sp_cancelled s)
     \<and> (\<forall>g s. cm_gos m g = Some s \<longrightarrow> g < cm_nextGo m))"

lemma one_each_new: "one_each new_mgr"
  by (simp add: one_each_def new_mgr_def)

lemma one_each_ensure:
  assumes "one_each m" "\<forall>g s. cm_gos m g = Some s \<and> sp_Machine s = mid \<longrightarrow> \<not> sp_cancelled s"
  shows "one_each (ensure m mid u)"
proof (cases "cm_supervisors m mid")
  case None
  have none: "sp_Machine s \<noteq> mid" if "cm_gos m g = Some s" for g s
    using assms None that unfolding one_each_def by fastforce
  have fresh: "cm_supervisors m i \<noteq> Some (cm_nextGo m)" for i
    using assms(1) unfolding one_each_def by (metis less_irrefl)
  show ?thesis
    using assms(1) None none fresh unfolding one_each_def ensure_def Let_def
    by (intro conjI allI impI) (auto split: if_splits simp: less_Suc_eq)
qed (simp add: ensure_def assms)

text \<open>A step that changes the phase of one goroutine.\<close>

lemma one_each_phase:
  assumes "one_each m" "cm_gos m g = Some s" "cm_gos m' = (cm_gos m)(g \<mapsto> s')" "cm_supervisors m' = cm_supervisors m"
    "cm_nextGo m' = cm_nextGo m" "sp_Machine s' = sp_Machine s" "sp_cancelled s' = sp_cancelled s" "sp_phase s' = Leaving \<longrightarrow> sp_cancelled s'"
  shows "one_each m'"
  unfolding one_each_def assms(3-5)
proof (intro conjI allI impI)
  have m: "\<exists>s0. cm_gos m h = Some s0 \<and> sp_Machine s0 = sp_Machine t \<and> sp_cancelled s0 = sp_cancelled t"
    if "((cm_gos m)(g \<mapsto> s')) h = Some t" for h t using that assms(2,6,7) by (auto split: if_splits)
  {
    fix h t assume "((cm_gos m)(g \<mapsto> s')) h = Some t \<and> \<not> sp_cancelled t"
    then show "cm_supervisors m (sp_Machine t) = Some h" using m [of h t] assms(1) unfolding one_each_def by metis
  next
    fix h t h' t' assume a: "((cm_gos m)(g \<mapsto> s')) h = Some t \<and> ((cm_gos m)(g \<mapsto> s')) h' = Some t' \<and> sp_Machine t' = sp_Machine t \<and> \<not> sp_cancelled t"
    then show "h = h'" using m [of h t] m [of h' t'] assms(1) unfolding one_each_def by metis
  next
    fix mid h assume "cm_supervisors m mid = Some h"
    then obtain s0 where "cm_gos m h = Some s0" "sp_Machine s0 = mid" using assms(1) unfolding one_each_def by blast
    then show "\<exists>t. ((cm_gos m)(g \<mapsto> s')) h = Some t \<and> sp_Machine t = mid" using assms(2,6) by auto
  next
    fix h t assume "((cm_gos m)(g \<mapsto> s')) h = Some t \<and> sp_phase t = Leaving"
    then show "sp_cancelled t" using assms(1,8) unfolding one_each_def by (metis fun_upd_apply option.inject)
  next
    fix h t assume "((cm_gos m)(g \<mapsto> s')) h = Some t"
    then show "h < cm_nextGo m" using m [of h t] assms(1) unfolding one_each_def by metis
  }
qed

lemma one_each_leave:
  assumes "one_each m" "cm_gos m g = Some s" "sp_phase s = Leaving"
  shows "one_each (m\<lparr>cm_supervisors := (cm_supervisors m)(sp_Machine s := None), cm_gos := (cm_gos m)(g := None)\<rparr>)"
proof -
  have c: "sp_cancelled s" using assms unfolding one_each_def by blast
  have "sp_cancelled t" if "cm_gos m h = Some t" "sp_Machine t = sp_Machine s" for h t
    using assms(1,2) that c unfolding one_each_def by (metis option.inject)
  then have other: "sp_Machine t \<noteq> sp_Machine s" if "cm_gos m h = Some t" "\<not> sp_cancelled t" for h t using that by blast
  have own: "h \<noteq> g" if "cm_supervisors m mid = Some h" "mid \<noteq> sp_Machine s" for mid h
    using assms(1,2) that unfolding one_each_def by (metis option.inject)
  note D = assms(1) [unfolded one_each_def]
  let ?m = "m\<lparr>cm_supervisors := (cm_supervisors m)(sp_Machine s := None), cm_gos := (cm_gos m)(g := None)\<rparr>"
  have gos: "cm_gos ?m h = Some t \<longleftrightarrow> h \<noteq> g \<and> cm_gos m h = Some t" for h t by auto
  have sup: "cm_supervisors ?m mid = Some h \<longleftrightarrow> mid \<noteq> sp_Machine s \<and> cm_supervisors m mid = Some h" for mid h by auto
  have nxt: "cm_nextGo ?m = cm_nextGo m" by simp
  show ?thesis
    unfolding one_each_def gos sup nxt
  proof (intro conjI)
    show "\<forall>h t. (h \<noteq> g \<and> cm_gos m h = Some t) \<and> \<not> sp_cancelled t \<longrightarrow> sp_Machine t \<noteq> sp_Machine s \<and> cm_supervisors m (sp_Machine t) = Some h"
      using other D by blast
    show "\<forall>mid h. mid \<noteq> sp_Machine s \<and> cm_supervisors m mid = Some h \<longrightarrow> (\<exists>t. (h \<noteq> g \<and> cm_gos m h = Some t) \<and> sp_Machine t = mid)"
      using own D by blast
  qed (use D in blast)+
qed

text \<open>Cancelling some goroutines, those of every entry that goes away among them.\<close>

lemma one_each_cancel:
  assumes "one_each m" "\<forall>g. cm_gos m' g = cm_gos m g \<or> cm_gos m' g = map_option (\<lambda>s. s\<lparr>sp_cancelled := True\<rparr>) (cm_gos m g)"
    and "\<forall>mid. cm_supervisors m' mid = cm_supervisors m mid
       \<or> cm_supervisors m' mid = None \<and> (\<forall>g s. cm_gos m' g = Some s \<and> sp_Machine s = mid \<longrightarrow> sp_cancelled s)"
    and "cm_nextGo m' = cm_nextGo m"
  shows "one_each m'"
proof -
  have m: "\<exists>s0. cm_gos m h = Some s0 \<and> sp_Machine s0 = sp_Machine t \<and> sp_phase s0 = sp_phase t \<and> (sp_cancelled s0 \<longrightarrow> sp_cancelled t)"
    if "cm_gos m' h = Some t" for h t using assms(2) [rule_format, of h] that by (cases "cm_gos m h") auto
  have b: "\<exists>t. cm_gos m' h = Some t \<and> sp_Machine t = sp_Machine s0" if "cm_gos m h = Some s0" for h s0
    using assms(2) [rule_format, of h] that by auto
  show ?thesis
    unfolding one_each_def assms(4)
  proof (intro conjI allI impI)
    fix h t assume a: "cm_gos m' h = Some t \<and> \<not> sp_cancelled t"
    then have "cm_supervisors m (sp_Machine t) = Some h" using m [of h t] assms(1) unfolding one_each_def by metis
    then show "cm_supervisors m' (sp_Machine t) = Some h" using assms(3) a by metis
  next
    fix h t h' t' assume a: "cm_gos m' h = Some t \<and> cm_gos m' h' = Some t' \<and> sp_Machine t' = sp_Machine t \<and> \<not> sp_cancelled t"
    then show "h = h'" using m [of h t] m [of h' t'] assms(1) unfolding one_each_def by metis
  next
    fix mid h assume "cm_supervisors m' mid = Some h"
    then have "cm_supervisors m mid = Some h" using assms(3) by (metis option.distinct(1))
    then show "\<exists>t. cm_gos m' h = Some t \<and> sp_Machine t = mid" using assms(1) b unfolding one_each_def by metis
  next
    fix h t assume "cm_gos m' h = Some t \<and> sp_phase t = Leaving"
    then show "sp_cancelled t" using m [of h t] assms(1) unfolding one_each_def by metis
  next
    fix h t assume "cm_gos m' h = Some t"
    then show "h < cm_nextGo m" using m [of h t] assms(1) unfolding one_each_def by metis
  qed
qed

text \<open>After \<open>teardown\<close> every goroutine of the machine is cancelled.\<close>

lemma teardown_cancels:
  assumes "one_each m" "cm_gos (teardown m mid) g = Some s" "sp_Machine s = mid"
  shows "sp_cancelled s"
proof (rule ccontr)
  assume n: "\<not> sp_cancelled s"
  have "cm_gos m g = Some s" using assms(2) n by (auto simp: teardown_def cancel_go_def Let_def split: option.splits if_splits)
  with assms(1,3) n have "cm_supervisors m mid = Some g" unfolding one_each_def by blast
  with assms(2) n show False by (auto simp: teardown_def cancel_go_def Let_def)
qed

lemma one_each_teardown:
  assumes "one_each m"
  shows "one_each (teardown m mid)"
proof (rule one_each_cancel [OF assms])
  have sup: "cm_supervisors (teardown m mid) = (cm_supervisors m)(mid := None)"
    by (simp add: teardown_def cancel_go_def Let_def split: option.split)
  show "\<forall>i. cm_supervisors (teardown m mid) i = cm_supervisors m i
      \<or> cm_supervisors (teardown m mid) i = None \<and> (\<forall>g s. cm_gos (teardown m mid) g = Some s \<and> sp_Machine s = i \<longrightarrow> sp_cancelled s)"
    using teardown_cancels [OF assms] unfolding sup by auto
qed (auto simp: teardown_def cancel_go_def Let_def split: option.split)

lemma one_each_exec:
  assumes "one_each m" "settled m ev" "ctl_exec m ev = Some m'"
  shows "one_each m'"
proof (cases ev)
  case (Ensure mid u)
  with assms show ?thesis using one_each_ensure [OF assms(1), of mid u] by simp
next
  case (Teardown mid)
  with assms show ?thesis using one_each_teardown by auto
next
  case BaseDone
  with assms have m': "m' = m\<lparr>cm_baseDone := True, cm_gos := map_option (\<lambda>s. s\<lparr>sp_cancelled := True\<rparr>) \<circ> cm_gos m\<rparr>" by simp
  show ?thesis by (rule one_each_cancel [OF assms(1)]) (simp_all add: m')
next
  case (Go g sev)
  with assms(3) obtain s where s: "cm_gos m g = Some s" "supervise m g s sev = Some m'" by (auto split: option.splits)
  have "sp_phase s = Leaving \<and> m' = m\<lparr>cm_supervisors := (cm_supervisors m)(sp_Machine s := None), cm_gos := (cm_gos m)(g := None)\<rparr>
     \<or> (\<exists>s'. cm_gos m' = (cm_gos m)(g \<mapsto> s') \<and> cm_supervisors m' = cm_supervisors m \<and> cm_nextGo m' = cm_nextGo m
          \<and> sp_Machine s' = sp_Machine s \<and> sp_cancelled s' = sp_cancelled s \<and> (sp_phase s' = Leaving \<longrightarrow> sp_cancelled s'))"
    using s(2) by (auto simp: supervise_def connectOnce_def setConn_def clearConn_def Let_def split: sup_phase.splits sup_event.splits if_splits)
  then show ?thesis using one_each_leave [OF assms(1) s(1)] one_each_phase [OF assms(1) s(1)] by blast
qed

lemma settled_one_each: "one_each m \<Longrightarrow> settled_run m evs \<Longrightarrow> ctl_run m evs = Some m' \<Longrightarrow> one_each m'"
  by (induction evs arbitrary: m) (auto split: option.splits dest: one_each_exec)

text \<open>
  A machine that stops and runs again before its old goroutine has gone: the old goroutine deletes
  the new one's entry, the next update starts a second one, and no later \<open>teardown\<close> reaches the first.
\<close>

definition leak_events :: "ctl_event list" where
  "leak_events = [Ensure ''m'' ''u'', Go 0 Proceeds, Teardown ''m'', Ensure ''m'' ''u'', Go 0 DialFailed, Go 0 Proceeds, Go 0 Proceeds,
     Ensure ''m'' ''u'', Teardown ''m'']"

lemma supervisor_leak:
  "\<exists>m s. ctl_run new_mgr leak_events = Some m \<and> cm_gos m 1 = Some s \<and> sp_Machine s = ''m'' \<and> \<not> sp_cancelled s
    \<and> cm_supervisors m ''m'' = None"
  by (simp add: leak_events_def new_mgr_def ensure_def teardown_def cancel_go_def supervise_def connectOnce_def put_go_def Let_def)

section \<open>The wait\<close>

text \<open>After the \<open>n\<close>-th failed dial in a row the goroutine waits \<open>2^n\<close> seconds, thirty at most.\<close>

definition failed_round :: "nat \<Rightarrow> ctl_event list" where
  "failed_round g = [Go g Proceeds, Go g DialFailed, Go g Proceeds, Go g Wakes]"

lemma failed_round_step:
  assumes "cm_gos m g = Some s" "sp_phase s = Checking" "\<not> sp_cancelled s"
  shows "\<exists>m'. ctl_run m (failed_round g) = Some m' \<and> cm_gos m' g = Some (s\<lparr>sp_backoff := next_backoff (sp_backoff s)\<rparr>)"
  using assms by (simp add: failed_round_def supervise_def connectOnce_def put_go_def)

lemma ctl_run_append: "ctl_run m (as @ bs) = Option.bind (ctl_run m as) (\<lambda>m'. ctl_run m' bs)"
  by (induction as arbitrary: m) (auto split: option.split)

lemma failed_rounds:
  assumes "cm_gos m g = Some s" "sp_phase s = Checking" "\<not> sp_cancelled s"
  shows "\<exists>m'. ctl_run m (concat (replicate n (failed_round g))) = Some m' \<and> cm_gos m' g = Some (s\<lparr>sp_backoff := (next_backoff ^^ n) (sp_backoff s)\<rparr>)"
  using assms
proof (induction n arbitrary: m s)
  case (Suc n)
  obtain m1 where m1: "ctl_run m (failed_round g) = Some m1" "cm_gos m1 g = Some (s\<lparr>sp_backoff := next_backoff (sp_backoff s)\<rparr>)"
    using failed_round_step [OF Suc.prems] by blast
  obtain m2 where "ctl_run m1 (concat (replicate n (failed_round g))) = Some m2"
    "cm_gos m2 g = Some (s\<lparr>sp_backoff := (next_backoff ^^ n) (next_backoff (sp_backoff s))\<rparr>)"
    using Suc.IH [OF m1(2)] Suc.prems by auto
  with m1(1) show ?case by (simp add: ctl_run_append funpow_swap1)
qed simp

lemma next_backoff_power: "(next_backoff ^^ n) second = min (2 ^ n * second) maxBackoff"
proof (induction n)
  case (Suc n)
  have "next_backoff (min (2 ^ n * second) maxBackoff) = min (2 ^ Suc n * second) maxBackoff"
    by (auto simp: next_backoff_def maxBackoff_def second_def min_def)
  with Suc show ?case by simp
qed (simp add: second_def maxBackoff_def)

end
