(* ===== verification/Task_Store.thy ===== *)
theory Task_Store
  imports Store_Model
begin

text \<open>
  The queries of \<open>store/queries.sql.go\<close> on the agent-task table, and what they keep of it: a status
  of the column's \<open>CHECK\<close>, an end exactly when the run is over, and the agent's session.
\<close>

section \<open>Queries\<close>

definition find_task :: "db \<Rightarrow> pg_uuid \<Rightarrow> agent_task option" where
  "find_task d t = find (\<lambda>r. at_ID r = t) (t_tasks d)"

definition update_task :: "db \<Rightarrow> pg_uuid \<Rightarrow> (agent_task \<Rightarrow> agent_task) \<Rightarrow> db" where
  "update_task d t f = d\<lparr>t_tasks := tbl_update (\<lambda>r. at_ID r = t) f (t_tasks d)\<rparr>"

text \<open>\<open>i\<close> is the value \<open>gen_random_uuid()\<close> yields; the columns left out take their defaults.\<close>

definition InsertAgentTask ::
  "dbctx \<Rightarrow> pg_uuid \<Rightarrow> db \<Rightarrow> pg_uuid \<Rightarrow> pg_uuid \<Rightarrow> string \<Rightarrow> string \<Rightarrow> string \<Rightarrow> (db \<times> agent_task) res" where
  "InsertAgentTask c i d mach user provider proj prompt = run_query c (QInsertAgentTask mach)
     (if find_machine d mach = None then Inl fk_violation
      else if find_task d i \<noteq> None then Inl unique_violation
      else let r = \<lparr>at_ID = i, at_MachineID = mach, at_UserID = user, at_Provider = provider, at_Project = proj,
                    at_Prompt = prompt, at_Status = ''queued'', at_AgentSessionID = [], at_Usage = ''{}'',
                    at_ResultSummary = [], at_Error = [], at_CreatedAt = now c (QInsertAgentTask mach),
                    at_StartedAt = None, at_EndedAt = None\<rparr>
           in Inr (d\<lparr>t_tasks := t_tasks d @ [r]\<rparr>, r))"

definition MarkAgentTaskRunning :: "dbctx \<Rightarrow> db \<Rightarrow> pg_uuid \<Rightarrow> db res" where
  "MarkAgentTaskRunning c d t = run_query c (QMarkAgentTaskRunning t)
     (Inr (update_task d t (\<lambda>r. if at_Status r = ''queued''
        then r\<lparr>at_Status := ''running'', at_StartedAt := Some (now c (QMarkAgentTaskRunning t))\<rparr> else r)))"

definition RestartAgentTask :: "dbctx \<Rightarrow> db \<Rightarrow> pg_uuid \<Rightarrow> string \<Rightarrow> db res" where
  "RestartAgentTask c d t prompt = run_query c (QRestartAgentTask t)
     (Inr (update_task d t (\<lambda>r. r\<lparr>at_Status := ''running'', at_Prompt := prompt, at_Error := [], at_EndedAt := None\<rparr>)))"

text \<open>The column's \<open>CHECK\<close>.\<close>

definition task_statuses :: "string list" where
  "task_statuses = [''queued'', ''running'', ''done'', ''failed'', ''canceled'']"

definition check_violation :: error where
  "check_violation = ErrorText ''violates check constraint (SQLSTATE 23514)''"

record finish_task_params =
  fp_Status :: string
  fp_SessionID :: string
  fp_Usage :: string
  fp_Summary :: string
  fp_Error :: string

definition finished :: "nat \<Rightarrow> finish_task_params \<Rightarrow> agent_task \<Rightarrow> agent_task" where
  "finished t p r = r\<lparr>at_Status := fp_Status p,
     at_AgentSessionID := (if fp_SessionID p = [] then at_AgentSessionID r else fp_SessionID p),
     at_Usage := fp_Usage p, at_ResultSummary := fp_Summary p, at_Error := fp_Error p, at_EndedAt := Some t\<rparr>"

definition FinishAgentTask :: "dbctx \<Rightarrow> db \<Rightarrow> pg_uuid \<Rightarrow> finish_task_params \<Rightarrow> db res" where
  "FinishAgentTask c d t p = run_query c (QFinishAgentTask t)
     (if find_task d t \<noteq> None \<and> fp_Status p \<notin> set task_statuses then Inl check_violation
      else Inr (update_task d t (finished (now c (QFinishAgentTask t)) p)))"

definition GetAgentTask :: "dbctx \<Rightarrow> db \<Rightarrow> pg_uuid \<Rightarrow> agent_task res" where
  "GetAgentTask c d t = run_query c (QGetAgentTask t) (row_of (find_task d t))"

text \<open>Joined with the name of the machine.\<close>

definition GetAgentTaskByUser :: "dbctx \<Rightarrow> db \<Rightarrow> pg_uuid \<Rightarrow> pg_uuid \<Rightarrow> (agent_task \<times> string) res" where
  "GetAgentTaskByUser c d t u = run_query c (QGetAgentTaskByUser t)
     (row_of (Option.bind (find (\<lambda>r. at_ID r = t \<and> at_UserID r = u) (t_tasks d))
        (\<lambda>r. map_option (\<lambda>m. (r, m_Name m)) (find_machine d (at_MachineID r)))))"

definition named_tasks :: "db \<Rightarrow> agent_task list \<Rightarrow> (agent_task \<times> string) list" where
  "named_tasks d rs = List.map_filter (\<lambda>r. map_option (\<lambda>m. (r, m_Name m)) (find_machine d (at_MachineID r))) rs"

definition ListAgentTasksByUser :: "dbctx \<Rightarrow> db \<Rightarrow> pg_uuid \<Rightarrow> nat \<Rightarrow> (agent_task \<times> string) list res" where
  "ListAgentTasksByUser c d u n = run_query c (QListAgentTasksByUser u)
     (Inr (take n (named_tasks d (sort_key (\<lambda>r. - int (at_CreatedAt r)) (filter (\<lambda>r. at_UserID r = u) (t_tasks d))))))"

definition ListRunningMachineIDsByUserID :: "dbctx \<Rightarrow> db \<Rightarrow> pg_uuid \<Rightarrow> pg_uuid list res" where
  "ListRunningMachineIDsByUserID c d u = run_query c (QListRunningMachineIDsByUserID u)
     (Inr (sort_key (\<lambda>i. map unat (Bytes i)) (map m_ID (filter (\<lambda>m. m_UserID m = u \<and> m_State m = StateRunning) (t_machines d)))))"

section \<open>What the statements keep\<close>

definition isTerminalTaskStatus :: "string \<Rightarrow> bool" where
  "isTerminalTaskStatus st = (st = ''done'' \<or> st = ''failed'' \<or> st = ''canceled'')"

definition task_ok :: "agent_task \<Rightarrow> bool" where
  "task_ok r = (at_Status r \<in> set task_statuses \<and> (isTerminalTaskStatus (at_Status r) \<longleftrightarrow> at_EndedAt r \<noteq> None))"

definition tasks_ok :: "db \<Rightarrow> bool" where
  "tasks_ok d = ((\<forall>r \<in> set (t_tasks d). task_ok r) \<and> distinct (map at_ID (t_tasks d)))"

definition same_task :: "agent_task \<Rightarrow> agent_task \<Rightarrow> bool" where
  "same_task r r' = (at_ID r' = at_ID r \<and> at_MachineID r' = at_MachineID r \<and> at_UserID r' = at_UserID r \<and> at_Provider r' = at_Provider r
     \<and> at_Project r' = at_Project r \<and> at_CreatedAt r' = at_CreatedAt r \<and> (at_AgentSessionID r \<noteq> [] \<longrightarrow> at_AgentSessionID r' \<noteq> []))"

text \<open>Every task of the first database is still there, with its owner, its project and a session if it had one.\<close>

definition tasks_kept :: "db \<Rightarrow> db \<Rightarrow> bool" where
  "tasks_kept d d' = (\<forall>t r. find_task d t = Some r \<longrightarrow> (\<exists>r'. find_task d' t = Some r' \<and> same_task r r'))"

lemma same_task_refl [simp]: "same_task r r"
  by (simp add: same_task_def)

lemma same_task_trans: "same_task a b \<Longrightarrow> same_task b c \<Longrightarrow> same_task a c"
  by (auto simp: same_task_def)

lemma tasks_kept_refl [simp]: "tasks_kept d d"
  by (simp add: tasks_kept_def)

lemma tasks_kept_trans: "tasks_kept a b \<Longrightarrow> tasks_kept b c \<Longrightarrow> tasks_kept a c"
  unfolding tasks_kept_def using same_task_trans by blast

lemma find_task_Some: "find_task d t = Some r \<Longrightarrow> at_ID r = t \<and> r \<in> set (t_tasks d)"
  by (auto simp: find_task_def find_Some_iff)

lemma find_tbl_update:
  assumes "\<And>r. at_ID (f r) = at_ID r"
  shows "find (\<lambda>r. at_ID r = u) (tbl_update (\<lambda>r. at_ID r = t) f rs)
     = map_option (\<lambda>r. if u = t then f r else r) (find (\<lambda>r. at_ID r = u) rs)"
  by (induction rs) (auto simp: assms)

lemma find_update_task:
  "(\<And>r. at_ID (f r) = at_ID r) \<Longrightarrow> find_task (update_task d t f) u = map_option (\<lambda>r. if u = t then f r else r) (find_task d u)"
  by (simp add: find_task_def update_task_def find_tbl_update)

lemma update_task_ok:
  assumes "tasks_ok d" "\<And>r. at_ID (f r) = at_ID r" "\<And>r. r \<in> set (t_tasks d) \<Longrightarrow> at_ID r = t \<Longrightarrow> task_ok r \<Longrightarrow> task_ok (f r)"
  shows "tasks_ok (update_task d t f)"
  using assms by (auto simp: tasks_ok_def update_task_def set_tbl_update map_tbl_update)

lemma update_task_kept:
  assumes "\<And>r. at_ID (f r) = at_ID r" "\<And>r. find_task d t = Some r \<Longrightarrow> same_task r (f r)"
  shows "tasks_kept d (update_task d t f)"
  unfolding tasks_kept_def
proof (intro allI impI)
  fix u r assume f: "find_task d u = Some r"
  then show "\<exists>r'. find_task (update_task d t f) u = Some r' \<and> same_task r r'"
    using assms(2) [of r] by (cases "u = t") (simp_all add: find_update_task [of f, OF assms(1)])
qed

lemma InsertAgentTask_row:
  assumes "InsertAgentTask c i d mach user provider proj prompt = Inr (d', r)"
  shows "find_machine d mach \<noteq> None" "find_task d i = None" "d' = d\<lparr>t_tasks := t_tasks d @ [r]\<rparr>" "at_ID r = i" "at_MachineID r = mach" "at_UserID r = user"
    "at_Status r = ''queued''" "at_EndedAt r = None" "at_Provider r = provider" "at_Project r = proj" "at_Prompt r = prompt" "at_AgentSessionID r = []"
  using assms by (auto simp: InsertAgentTask_def run_query_def Let_def split: option.splits if_splits)

lemma find_task_new: "find_task (d\<lparr>t_tasks := t_tasks d @ [r]\<rparr>) u = (case find_task d u of Some x \<Rightarrow> Some x | None \<Rightarrow> if at_ID r = u then Some r else None)"
proof -
  have "find P (xs @ [x]) = (case find P xs of Some y \<Rightarrow> Some y | None \<Rightarrow> if P x then Some x else None)" for P :: "agent_task \<Rightarrow> bool" and x xs
    by (induction xs) auto
  then show ?thesis by (simp add: find_task_def)
qed

lemma InsertAgentTask_ok:
  assumes "tasks_ok d" "InsertAgentTask c i d mach user provider proj prompt = Inr (d', r)"
  shows "tasks_ok d' \<and> tasks_kept d d' \<and> find_task d' i = Some r"
proof -
  note r = InsertAgentTask_row [OF assms(2)]
  have "i \<notin> at_ID ` set (t_tasks d)" using r(2) by (auto simp: find_task_def find_None_iff)
  with assms(1) r show ?thesis
    by (auto simp: tasks_ok_def task_ok_def task_statuses_def isTerminalTaskStatus_def tasks_kept_def find_task_new)
qed

lemma MarkAgentTaskRunning_ok:
  assumes "tasks_ok d" "MarkAgentTaskRunning c d t = Inr d'"
  shows "tasks_ok d' \<and> tasks_kept d d'"
proof -
  let ?f = "\<lambda>r. if at_Status r = ''queued'' then r\<lparr>at_Status := ''running'', at_StartedAt := Some (now c (QMarkAgentTaskRunning t))\<rparr> else r"
  have d': "d' = update_task d t ?f" using assms(2) by (auto simp: MarkAgentTaskRunning_def run_query_def split: option.splits)
  show ?thesis unfolding d'
    by (intro conjI update_task_ok [OF assms(1)] update_task_kept)
      (auto simp: task_ok_def task_statuses_def isTerminalTaskStatus_def same_task_def)
qed

lemma RestartAgentTask_ok:
  assumes "tasks_ok d" "RestartAgentTask c d t p = Inr d'"
  shows "tasks_ok d' \<and> tasks_kept d d'"
proof -
  have d': "d' = update_task d t (\<lambda>r. r\<lparr>at_Status := ''running'', at_Prompt := p, at_Error := [], at_EndedAt := None\<rparr>)"
    using assms(2) by (auto simp: RestartAgentTask_def run_query_def split: option.splits)
  show ?thesis unfolding d'
    by (intro conjI update_task_ok [OF assms(1)] update_task_kept)
      (auto simp: task_ok_def task_statuses_def isTerminalTaskStatus_def same_task_def)
qed

lemma FinishAgentTask_ok:
  assumes "tasks_ok d" "FinishAgentTask c d t p = Inr d'" "isTerminalTaskStatus (fp_Status p)"
  shows "tasks_ok d' \<and> tasks_kept d d' \<and> find_task d' t = map_option (finished (now c (QFinishAgentTask t)) p) (find_task d t)"
proof -
  let ?f = "finished (now c (QFinishAgentTask t)) p"
  have d': "d' = update_task d t ?f" using assms(2) by (auto simp: FinishAgentTask_def run_query_def split: option.splits if_splits)
  have i: "at_ID (?f r) = at_ID r" for r by (simp add: finished_def)
  have ok: "task_ok (?f r)" for r using assms(3) by (auto simp: task_ok_def finished_def task_statuses_def isTerminalTaskStatus_def)
  show ?thesis unfolding d'
    by (intro conjI update_task_ok [OF assms(1)] update_task_kept)
      (simp_all add: ok i find_update_task, auto simp: same_task_def finished_def)
qed

end
