(* ===== verification/Ctl_Manager.thy ===== *)
theory Ctl_Manager
  imports Ctl_Supervise Task_Store Task_Hub Machine_Broker Git_Connect Guest_Handle
begin

text \<open>
  The control plane's side of the control channels (\<open>guestctl/manager.go\<close>) beside the supervisors of
  \<open>Ctl_Supervise\<close>: the handler of the requests a guest sends, bound to the owner of its machine, and
  the requests the control plane sends. The state has the git credentials with the audit log, the
  machine tables, the broker, the task hub and the connections; \<open>cs_calls\<close> records what was sent to
  which machine. The guest is the function \<open>kc_guest\<close> of the context; \<open>None\<close> is a panic.
\<close>

section \<open>State and context\<close>

text \<open>How a request fails: no channel, an error frame of the guest, anything else.\<close>

datatype call_error = NoChannel | ControlError control_error | CallFailed

record ctlctx =
  kc_tok :: tokenctx
  kc_db :: dbctx
  kc_marshal :: "jvalue \<Rightarrow> string"
  kc_event :: "agent_event_payload \<Rightarrow> string"
  kc_float :: "string list \<Rightarrow> string"
  kc_guest :: "string \<Rightarrow> string \<Rightarrow> payload \<Rightarrow> call_error + payload"

record ctl_config =
  cg_gitHost :: string
  cg_hostCreds :: bool
  cg_publicHosts :: "string list"

record 'st ctl_state =
  cs_git :: "'st git_state"
  cs_db :: db
  cs_broker :: broker
  cs_hub :: "hub option"
  cs_mgr :: ctl_mgr
  cs_calls :: "(string \<times> string \<times> payload) list"

definition NewCtlManager :: "string \<Rightarrow> bool \<Rightarrow> string list \<Rightarrow> ctl_config" where
  "NewCtlManager gitHost hostCreds publicHosts =
     \<lparr>cg_gitHost = (if gitHost = [] then ''github.com'' else gitHost), cg_hostCreds = hostCreds, cg_publicHosts = publicHosts\<rparr>"

text \<open>\<open>machine.ParseUUID\<close>.\<close>

definition ParseUUID :: "ctlctx \<Rightarrow> string \<Rightarrow> pg_uuid option" where
  "ParseUUID k s = hx_uuid (kx_gh (kc_tok k)) s"

section \<open>Watching machines\<close>

text \<open>\<open>Run\<close>: the machines already running, then one update of the broker after the other.\<close>

definition start_running :: "ctl_mgr \<Rightarrow> machine list \<Rightarrow> ctl_mgr" where
  "start_running m ms = foldl (\<lambda>m mc. ensure m (UUIDString (m_ID mc)) (UUIDString (m_UserID mc))) m ms"

definition Run_start :: "dbctx \<Rightarrow> db \<Rightarrow> ctl_mgr \<Rightarrow> ctl_mgr" where
  "Run_start c d m = (case ListMachinesInStates c d [StateRunning] of Inl _ \<Rightarrow> m | Inr ms \<Rightarrow> start_running m ms)"

text \<open>An update without a machine, such as the one of a shutdown, has the zero machine with its empty state.\<close>

definition Run_update :: "ctl_mgr \<Rightarrow> update \<Rightarrow> ctl_mgr" where
  "Run_update m u = (case u_Machine u of
       None \<Rightarrow> m
     | Some mc \<Rightarrow>
         (if m_State mc = StateRunning then ensure m (UUIDString (m_ID mc)) (UUIDString (m_UserID mc))
          else if m_State mc \<in> {StateStopping, StateHibernating, StateStopped, StateError} then teardown m (UUIDString (m_ID mc))
          else m))"

section \<open>Git credentials\<close>

definition dec_CredentialRequest :: "(string \<times> json) list \<Rightarrow> (string \<times> string) option" where
  "dec_CredentialRequest kvs = opt_map2 Pair (dec_str ''host'' kvs) (dec_str ''protocol'' kvs)"

definition reply_error :: "string \<Rightarrow> 'b \<Rightarrow> 'b \<times> (control_error + git_credential)" where
  "reply_error code s = (s, Inl (control_fail code []))"

text \<open>The credential of a user for a host, on the token source's state.\<close>

definition resolve_credential :: "'st store_ops \<Rightarrow> ctlctx \<Rightarrow> ctl_config \<Rightarrow> 'st token_source \<Rightarrow> string \<Rightarrow> string
    \<Rightarrow> 'st token_source \<times> (control_error + git_credential)" where
  "resolve_credential S k cfg ts userID hst =
     (if hst = cg_gitHost cfg then
        (case Token S (kc_tok k) ts userID of
           (ts', Inl e) \<Rightarrow> reply_error (if errors_Is e ErrReconnectGitHub then ErrCodeReconnectGitHub else ErrCodeUnavailable) ts'
         | (ts', Inr cred) \<Rightarrow> (ts', Inr \<lparr>cd_Username = ''x-access-token'', cd_Password = cr_AccessToken cred,
             cd_Expiry = (case cr_Expiry cred of None \<Rightarrow> [] | Some t \<Rightarrow> hx_format (kx_gh (kc_tok k)) t)\<rparr>))
      else if cg_hostCreds cfg \<and> hst \<in> set (cg_publicHosts cfg) then
        (case HostCredential S (kc_tok k) ts userID hst of
           Inl e \<Rightarrow> reply_error (if errors_Is e ErrNoLink then ErrCodeForbiddenHost else ErrCodeUnavailable) ts
         | Inr (login, pat) \<Rightarrow> (ts, Inr \<lparr>cd_Username = login, cd_Password = pat, cd_Expiry = []\<rparr>))
      else reply_error ErrCodeForbiddenHost ts)"

definition credential_entry :: "string \<Rightarrow> string \<Rightarrow> audit_entry" where
  "credential_entry userID hst = \<lparr>ae_UserID = userID, ae_Actor = UserActor userID, ae_Action = ''git.credential'',
     ae_Target = hst, ae_Metadata = []\<rparr>"

definition handleCredential :: "'st store_ops \<Rightarrow> ctlctx \<Rightarrow> ctl_config \<Rightarrow> 'st git_state \<Rightarrow> string \<Rightarrow> payload
    \<Rightarrow> 'st git_state \<times> (control_error + git_credential)" where
  "handleCredential S k cfg s userID pl = (case dec_payload dec_CredentialRequest pl of
       None \<Rightarrow> (s, Inl (bad_payload ErrCodeUnavailable))
     | Some (reqHost, protocol) \<Rightarrow>
         (if protocol \<noteq> ''https'' then reply_error ErrCodeForbiddenHost s
          else case resolve_credential S k cfg (ga_ts s) userID (ToLower reqHost) of
            (ts, Inl e) \<Rightarrow> (s\<lparr>ga_ts := ts\<rparr>, Inl e)
          | (ts, Inr resp) \<Rightarrow> (git_audit (kc_tok k) (s\<lparr>ga_ts := ts\<rparr>) (credential_entry userID (ToLower reqHost)), Inr resp)))"

definition credential_json :: "git_credential \<Rightarrow> jvalue" where
  "credential_json c = JObj ([jstr ''username'' (cd_Username c), jstr ''password'' (cd_Password c)]
     @ (if cd_Expiry c = [] then [] else [jstr ''expiry'' (cd_Expiry c)]))"

section \<open>Completions of clones and pushes\<close>

definition dec_Done :: "(string \<times> json) list \<Rightarrow> (string \<times> bool \<times> string) option" where
  "dec_Done kvs = (case (dec_str ''op_id'' kvs, dec_bool ''ok'' kvs, dec_str ''detail'' kvs) of
     (Some i, Some b, Some t) \<Rightarrow> Some (i, b, t) | _ \<Rightarrow> None)"

definition done_body :: "string \<Rightarrow> bool \<Rightarrow> string \<Rightarrow> json_object" where
  "done_body i b t = [(''op_id'', json_scalar.JStr i), (''ok'', json_scalar.JBool b), (''detail'', json_scalar.JStr t)]"

text \<open>The event row of a completion, published with the machine as it is now.\<close>

definition record_done :: "ctlctx \<Rightarrow> 'st ctl_state \<Rightarrow> string \<Rightarrow> string \<Rightarrow> payload \<Rightarrow> 'st ctl_state option" where
  "record_done k s typ machineID pl = (case dec_payload dec_Done pl of
       None \<Rightarrow> Some s
     | Some (i, b, t) \<Rightarrow> (case ParseUUID k machineID of
         None \<Rightarrow> Some s
       | Some mid \<Rightarrow> (case InsertMachineEvent (kc_db k) (cs_db s) mid typ None None ''system:guestctl'' (done_body i b t) of
           Inl _ \<Rightarrow> Some s
         | Inr (d, ev) \<Rightarrow> (case GetMachineByID (kc_db k) d mid of
             Inl _ \<Rightarrow> Some (s\<lparr>cs_db := d\<rparr>)
           | Inr mc \<Rightarrow> map_option (\<lambda>b. s\<lparr>cs_db := d, cs_broker := b\<rparr>)
               (Publish (cs_broker s) \<lparr>u_Machine = Some mc, u_Event = Some ev, u_Deleted = False, u_Shutdown = False\<rparr>)))))"

definition handleCloneDone :: "ctlctx \<Rightarrow> 'st ctl_state \<Rightarrow> string \<Rightarrow> payload \<Rightarrow> 'st ctl_state option" where
  "handleCloneDone k s machineID pl = record_done k s ''git.clone'' machineID pl"

definition handlePushDone :: "ctlctx \<Rightarrow> 'st ctl_state \<Rightarrow> string \<Rightarrow> payload \<Rightarrow> 'st ctl_state option" where
  "handlePushDone k s machineID pl = record_done k s ''git.push'' machineID pl"

section \<open>Events and results of agent runs\<close>

definition dec_AgentEvent :: "(string \<times> json) list \<Rightarrow> agent_event_payload option" where
  "dec_AgentEvent kvs =
     (case (dec_str ''task_id'' kvs, dec_str ''kind'' kvs, dec_str ''text'' kvs, dec_str ''tool'' kvs, dec_str ''tool_id'' kvs,
            dec_str ''output'' kvs, dec_bool ''is_error'' kvs) of
        (Some t, Some kd, Some x, Some tool, Some ti, Some out, Some b) \<Rightarrow>
          Some \<lparr>av_TaskID = t, av_Kind = kd, av_Text = x, av_Tool = tool, av_ToolID = ti, av_Input = raw_text (dec_raw ''input'' kvs),
            av_Output = out, av_IsError = b\<rparr>
      | _ \<Rightarrow> None)"

definition handleAgentEvent :: "ctlctx \<Rightarrow> 'st ctl_state \<Rightarrow> payload \<Rightarrow> 'st ctl_state option" where
  "handleAgentEvent k s pl = (case cs_hub s of
       None \<Rightarrow> Some s
     | Some h \<Rightarrow> (case dec_payload dec_AgentEvent pl of
         None \<Rightarrow> Some s
       | Some ev \<Rightarrow> (if av_TaskID ev = [] then Some s
           else map_option (\<lambda>(h', _). s\<lparr>cs_hub := Some h'\<rparr>) (Hub_Publish h (av_TaskID ev) (kc_event k (ev\<lparr>av_TaskID := []\<rparr>)) False))))"

definition dec_AgentDone :: "(string \<times> json) list \<Rightarrow> agent_done_payload option" where
  "dec_AgentDone kvs =
     (case (dec_str ''task_id'' kvs, dec_bool ''ok'' kvs, dec_bool ''canceled'' kvs, dec_str ''session_id'' kvs, dec_str ''summary'' kvs,
            dec_field set_float [] ''cost_usd'' kvs, dec_int ''num_turns'' kvs, dec_int ''duration_ms'' kvs, dec_str ''error'' kvs) of
        (Some t, Some b, Some c, Some si, Some su, Some co, Some n, Some du, Some e) \<Rightarrow>
          Some \<lparr>ad_TaskID = t, ad_OK = b, ad_Canceled = c, ad_SessionID = si, ad_Summary = su, ad_CostUSD = co, ad_NumTurns = n,
            ad_DurationMS = du, ad_Error = e\<rparr>
      | _ \<Rightarrow> None)"

definition done_status :: "agent_done_payload \<Rightarrow> string" where
  "done_status d = (if ad_Canceled d then ''canceled'' else if \<not> ad_OK d then ''failed'' else ''done'')"

definition usage_members :: "ctlctx \<Rightarrow> agent_done_payload \<Rightarrow> (string \<times> json) list" where
  "usage_members k d = [(''cost_usd'', Json [] (JNum (kc_float k (ad_CostUSD d)))), jnum ''num_turns'' (ad_NumTurns d),
     jnum ''duration_ms'' (ad_DurationMS d)]"

definition finish_params :: "ctlctx \<Rightarrow> agent_done_payload \<Rightarrow> finish_task_params" where
  "finish_params k d = \<lparr>fp_Status = done_status d, fp_SessionID = ad_SessionID d, fp_Usage = kc_marshal k (JObj (usage_members k d)),
     fp_Summary = ad_Summary d, fp_Error = ad_Error d\<rparr>"

definition result_json :: "ctlctx \<Rightarrow> agent_done_payload \<Rightarrow> jvalue" where
  "result_json k d = JObj ([jstr ''kind'' AgentEventResult, jstr ''status'' (done_status d), jbool ''is_error'' (\<not> ad_OK d), jstr ''text'' (ad_Summary d)]
     @ usage_members k d @ (if ad_Error d \<noteq> [] then [jstr ''error'' (ad_Error d)] else []))"

definition publishTaskResult :: "ctlctx \<Rightarrow> 'st ctl_state \<Rightarrow> agent_done_payload \<Rightarrow> 'st ctl_state option" where
  "publishTaskResult k s d = (case cs_hub s of
       None \<Rightarrow> Some s
     | Some h \<Rightarrow> map_option (\<lambda>(h', _). s\<lparr>cs_hub := Some h'\<rparr>) (Hub_Publish h (ad_TaskID d) (kc_marshal k (result_json k d)) True))"

definition record_agent_done :: "ctlctx \<Rightarrow> db \<Rightarrow> agent_done_payload \<Rightarrow> db" where
  "record_agent_done k d a = (case ParseUUID k (ad_TaskID a) of
       None \<Rightarrow> d
     | Some t \<Rightarrow> (case FinishAgentTask (kc_db k) d t (finish_params k a) of Inl _ \<Rightarrow> d | Inr d' \<Rightarrow> d'))"

definition handleAgentDone :: "ctlctx \<Rightarrow> 'st ctl_state \<Rightarrow> payload \<Rightarrow> 'st ctl_state option" where
  "handleAgentDone k s pl = (case dec_payload dec_AgentDone pl of
       None \<Rightarrow> Some s
     | Some d \<Rightarrow> (if ad_TaskID d = [] then Some s
         else publishTaskResult k (s\<lparr>cs_db := record_agent_done k (cs_db s) d\<rparr>) d))"

section \<open>The handler of a channel\<close>

text \<open>\<open>makeHandler\<close>: what a request of the guest of \<open>machineID\<close>, owned by \<open>userID\<close>, does and answers.\<close>

definition makeHandler :: "'st store_ops \<Rightarrow> ctlctx \<Rightarrow> ctl_config \<Rightarrow> string \<Rightarrow> string \<Rightarrow> string \<Rightarrow> payload \<Rightarrow> 'st ctl_state
    \<Rightarrow> ('st ctl_state \<times> (control_error + payload)) option" where
  "makeHandler S k cfg machineID userID op pl s =
     (let quiet = map_option (\<lambda>s'. (s', Inr None)) in
      if op = OpGitCredential then
        (case handleCredential S k cfg (cs_git s) userID pl of
           (g, r) \<Rightarrow> Some (s\<lparr>cs_git := g\<rparr>, map_sum (\<lambda>e. e) (\<lambda>c. Some (credential_json c)) r))
      else if op = OpGitCloneDone then quiet (handleCloneDone k s machineID pl)
      else if op = OpGitPushDone then quiet (handlePushDone k s machineID pl)
      else if op = OpAgentEvent then quiet (handleAgentEvent k s pl)
      else if op = OpAgentDone then quiet (handleAgentDone k s pl)
      else Some (s, Inl (unavailable ''unknown op'')))"

section \<open>Requests to a guest\<close>

definition conn_request :: "ctlctx \<Rightarrow> 'st ctl_state \<Rightarrow> string \<Rightarrow> string \<Rightarrow> (string \<times> json) list \<Rightarrow> 'st ctl_state \<times> (call_error + payload)" where
  "conn_request k s machineID op kvs = (s\<lparr>cs_calls := cs_calls s @ [(machineID, op, Some (JObj kvs))]\<rparr>, kc_guest k machineID op (Some (JObj kvs)))"

definition ask :: "ctlctx \<Rightarrow> 'st ctl_state \<Rightarrow> string \<Rightarrow> string \<Rightarrow> (string \<times> json) list \<Rightarrow> 'st ctl_state \<times> (call_error + payload)" where
  "ask k s machineID op kvs = (if getConn (cs_mgr s) machineID = None then (s, Inl NoChannel) else conn_request k s machineID op kvs)"

definition decoded :: "((string \<times> json) list \<Rightarrow> 'a option) \<Rightarrow> 's \<times> (call_error + payload) \<Rightarrow> 's \<times> (call_error + 'a)" where
  "decoded f r = (case r of
       (s, Inl e) \<Rightarrow> (s, Inl e)
     | (s, Inr p) \<Rightarrow> (s, case dec_payload f p of None \<Rightarrow> Inl CallFailed | Some v \<Rightarrow> Inr v))"

definition acked :: "'s \<times> (call_error + payload) \<Rightarrow> 's \<times> (call_error + unit)" where
  "acked r = (fst r, map_sum (\<lambda>e. e) (\<lambda>_. ()) (snd r))"

definition jstrs :: "string \<Rightarrow> string list \<Rightarrow> string \<times> json" where
  "jstrs k xs = (k, Json [] (JArr (map (\<lambda>x. Json [] (JStr x)) xs)))"

definition enc_AgentRun :: "string \<Rightarrow> string \<Rightarrow> string \<Rightarrow> string \<Rightarrow> string \<Rightarrow> (string \<times> json) list" where
  "enc_AgentRun taskID path prompt provider sessionID = [jstr ''task_id'' taskID, jstr ''path'' path, jstr ''prompt'' prompt, jstr ''provider'' provider]
     @ (if sessionID = [] then [] else [jstr ''session_id'' sessionID])"

definition RunAgent :: "ctlctx \<Rightarrow> 'st ctl_state \<Rightarrow> string \<Rightarrow> string \<Rightarrow> string \<Rightarrow> string \<Rightarrow> string \<Rightarrow> string \<Rightarrow> 'st ctl_state \<times> (call_error + unit)" where
  "RunAgent k s machineID taskID repoPath prompt provider sessionID =
     acked (ask k s machineID OpAgentRun (enc_AgentRun taskID repoPath prompt provider sessionID))"

definition CancelAgent :: "ctlctx \<Rightarrow> 'st ctl_state \<Rightarrow> string \<Rightarrow> string \<Rightarrow> 'st ctl_state \<times> (call_error + unit)" where
  "CancelAgent k s machineID taskID = acked (ask k s machineID OpAgentCancel [jstr ''task_id'' taskID])"

definition enc_GitPush :: "string \<Rightarrow> string \<Rightarrow> bool \<Rightarrow> string \<Rightarrow> (string \<times> json) list" where
  "enc_GitPush path branch setUpstream opID = [jstr ''path'' path, jstr ''branch'' branch, jbool ''set_upstream'' setUpstream, jstr ''op_id'' opID]"

definition Ctl_Push :: "ctlctx \<Rightarrow> 'st ctl_state \<Rightarrow> string \<Rightarrow> string \<Rightarrow> string \<Rightarrow> bool \<Rightarrow> string \<Rightarrow> 'st ctl_state \<times> (call_error + unit)" where
  "Ctl_Push k s machineID repoPath branch setUpstream opID = acked (ask k s machineID OpGitPush (enc_GitPush repoPath branch setUpstream opID))"

definition enc_GitClone :: "string \<Rightarrow> string \<Rightarrow> string \<Rightarrow> (string \<times> json) list" where
  "enc_GitClone url dest opID = [jstr ''url'' url, jstr ''dest'' dest, jstr ''op_id'' opID]"

definition Ctl_Clone :: "ctlctx \<Rightarrow> 'st ctl_state \<Rightarrow> string \<Rightarrow> string \<Rightarrow> string \<Rightarrow> string \<Rightarrow> 'st ctl_state \<times> (call_error + unit)" where
  "Ctl_Clone k s machineID url dest opID = acked (ask k s machineID OpGitClone (enc_GitClone url dest opID))"

definition dec_Project :: "(string \<times> json) list \<Rightarrow> project option" where
  "dec_Project kvs =
     (case (dec_str ''name'' kvs, dec_str ''path'' kvs, dec_str ''remote'' kvs, dec_str ''branch'' kvs, dec_bool ''dirty'' kvs,
            dec_str ''last_commit_at'' kvs, dec_str ''last_commit_msg'' kvs) of
        (Some n, Some p, Some r, Some b, Some d, Some t, Some m) \<Rightarrow>
          Some \<lparr>pj_Name = n, pj_Path = p, pj_Remote = r, pj_Branch = b, pj_Dirty = d, pj_LastCommitAt = t, pj_LastCommitMsg = m\<rparr>
      | _ \<Rightarrow> None)"

definition ListProjects :: "ctlctx \<Rightarrow> 'st ctl_state \<Rightarrow> string \<Rightarrow> 'st ctl_state \<times> (call_error + project list)" where
  "ListProjects k s machineID = decoded (dec_field (set_list (dec_struct dec_Project)) [] ''projects'') (ask k s machineID OpProjectsList [])"

definition dec_FileStatus :: "(string \<times> json) list \<Rightarrow> git_file_status option" where
  "dec_FileStatus kvs = (case (dec_str ''path'' kvs, dec_str ''orig'' kvs, dec_str ''index'' kvs, dec_str ''worktree'' kvs) of
     (Some p, Some r, Some i, Some w) \<Rightarrow> Some \<lparr>gf_Path = p, gf_Orig = r, gf_Index = i, gf_Worktree = w\<rparr> | _ \<Rightarrow> None)"

definition dec_GitStatusResponse :: "(string \<times> json) list \<Rightarrow> git_status_response option" where
  "dec_GitStatusResponse kvs = opt_map2 (\<lambda>b fs. \<lparr>gs_Branch = b, gs_Files = fs\<rparr>) (dec_str ''branch'' kvs)
     (dec_field (set_list (dec_struct dec_FileStatus)) [] ''files'' kvs)"

definition Ctl_GitStatus :: "ctlctx \<Rightarrow> 'st ctl_state \<Rightarrow> string \<Rightarrow> string \<Rightarrow> 'st ctl_state \<times> (call_error + git_status_response)" where
  "Ctl_GitStatus k s machineID repoPath = decoded dec_GitStatusResponse (ask k s machineID OpGitStatus [jstr ''path'' repoPath])"

definition dec_GitDiffResponse :: "(string \<times> json) list \<Rightarrow> git_diff_response option" where
  "dec_GitDiffResponse kvs = opt_map2 (\<lambda>t b. \<lparr>gd_Diff = t, gd_Truncated = b\<rparr>) (dec_str ''diff'' kvs) (dec_bool ''truncated'' kvs)"

definition enc_GitDiff :: "string \<Rightarrow> bool \<Rightarrow> (string \<times> json) list" where
  "enc_GitDiff path staged = [jstr ''path'' path, jbool ''staged'' staged]"

definition Ctl_GitDiff :: "ctlctx \<Rightarrow> 'st ctl_state \<Rightarrow> string \<Rightarrow> string \<Rightarrow> bool \<Rightarrow> 'st ctl_state \<times> (call_error + git_diff_response)" where
  "Ctl_GitDiff k s machineID repoPath staged = decoded dec_GitDiffResponse (ask k s machineID OpGitDiff (enc_GitDiff repoPath staged))"

definition enc_GitBranch :: "string \<Rightarrow> string \<Rightarrow> bool \<Rightarrow> string \<Rightarrow> (string \<times> json) list" where
  "enc_GitBranch path name checkout from_ref = [jstr ''path'' path, jstr ''name'' name, jbool ''checkout'' checkout]
     @ (if from_ref = [] then [] else [jstr ''from'' from_ref])"

definition Ctl_GitBranch :: "ctlctx \<Rightarrow> 'st ctl_state \<Rightarrow> string \<Rightarrow> string \<Rightarrow> string \<Rightarrow> bool \<Rightarrow> string \<Rightarrow> 'st ctl_state \<times> (call_error + string)" where
  "Ctl_GitBranch k s machineID repoPath name checkout from_ref =
     decoded (dec_str ''branch'') (ask k s machineID OpGitBranch (enc_GitBranch repoPath name checkout from_ref))"

definition dec_GitCommitResponse :: "(string \<times> json) list \<Rightarrow> git_commit_response option" where
  "dec_GitCommitResponse kvs = opt_map2 (\<lambda>a b. \<lparr>gc_Sha = a, gc_Subject = b\<rparr>) (dec_str ''sha'' kvs) (dec_str ''subject'' kvs)"

definition enc_GitCommit :: "string \<Rightarrow> string \<Rightarrow> string list \<Rightarrow> (string \<times> json) list" where
  "enc_GitCommit path message paths = [jstr ''path'' path, jstr ''message'' message] @ (if paths = [] then [] else [jstrs ''paths'' paths])"

definition Ctl_GitCommit :: "ctlctx \<Rightarrow> 'st ctl_state \<Rightarrow> string \<Rightarrow> string \<Rightarrow> string \<Rightarrow> string list \<Rightarrow> 'st ctl_state \<times> (call_error + git_commit_response)" where
  "Ctl_GitCommit k s machineID repoPath message paths =
     decoded dec_GitCommitResponse (ask k s machineID OpGitCommit (enc_GitCommit repoPath message paths))"

text \<open>The value is a pointer: \<open>null\<close> or a missing member is an unset key.\<close>

definition dec_KVValue :: "(string \<times> json) list \<Rightarrow> string option option" where
  "dec_KVValue = dec_field (set_ptr (set_str [])) None ''value''"

definition KVGet :: "ctlctx \<Rightarrow> 'st ctl_state \<Rightarrow> string \<Rightarrow> string \<Rightarrow> 'st ctl_state \<times> (call_error + string option)" where
  "KVGet k s machineID key = decoded dec_KVValue (ask k s machineID OpKVGet [jstr ''key'' key])"

definition KVSet :: "ctlctx \<Rightarrow> 'st ctl_state \<Rightarrow> string \<Rightarrow> string \<Rightarrow> string \<Rightarrow> 'st ctl_state \<times> (call_error + unit)" where
  "KVSet k s machineID key val = acked (ask k s machineID OpKVSet [jstr ''key'' key, jstr ''value'' val])"

section \<open>Configuration of a guest\<close>

text \<open>The identity of the profile overrides the account's, field by field.\<close>

definition git_identity_of :: "ctlctx \<Rightarrow> link_db \<Rightarrow> pg_uuid \<Rightarrow> user_row \<Rightarrow> string \<times> string" where
  "git_identity_of k d uid u =
     (let name = us_Login u; email = (if us_Email u = [] then us_Login u @ ''@users.noreply.github.com'' else us_Email u) in
      case GetGitIdentity (kx_stmt (kc_tok k)) d uid of
        Inl _ \<Rightarrow> (name, email)
      | Inr (n, e) \<Rightarrow> (if n \<noteq> [] then n else name, if e \<noteq> [] then e else email))"

definition configure :: "ctlctx \<Rightarrow> 'st ctl_state \<Rightarrow> string \<Rightarrow> string \<Rightarrow> 'st ctl_state \<times> bool" where
  "configure k s machineID userID = (case ParseUUID k userID of
       None \<Rightarrow> (s, False)
     | Some uid \<Rightarrow> (case GetUserByID (kx_stmt (kc_tok k)) (ld_auth (tk_db (ga_ts (cs_git s)))) uid of
         Inl _ \<Rightarrow> (s, False)
       | Inr u \<Rightarrow>
           (case git_identity_of k (tk_db (ga_ts (cs_git s))) uid u of
              (name, email) \<Rightarrow> (case conn_request k s machineID OpGitConfigure [jstr ''name'' name, jstr ''email'' email, jstr ''helper'' HelperBinPath] of
                (s1, Inl _) \<Rightarrow> (s1, False)
              | (s1, Inr _) \<Rightarrow> (case conn_request k s1 machineID OpClaudeConfigure [jbool ''attribution'' (us_ClaudeAttribution u)] of
                  (s2, r) \<Rightarrow> (s2, case r of Inl _ \<Rightarrow> False | Inr _ \<Rightarrow> True))))))"

fun reconfigure_all :: "ctlctx \<Rightarrow> 'st ctl_state \<Rightarrow> string \<Rightarrow> pg_uuid list \<Rightarrow> 'st ctl_state" where
  "reconfigure_all k s userID [] = s"
| "reconfigure_all k s userID (i # is) = reconfigure_all k
     (if getConn (cs_mgr s) (UUIDString i) = None then s else fst (configure k s (UUIDString i) userID)) userID is"

definition ReconfigureUser :: "ctlctx \<Rightarrow> 'st ctl_state \<Rightarrow> string \<Rightarrow> 'st ctl_state" where
  "ReconfigureUser k s userID = (case ParseUUID k userID of
       None \<Rightarrow> s
     | Some uid \<Rightarrow> (case ListRunningMachineIDsByUserID (kc_db k) (cs_db s) uid of
         Inl _ \<Rightarrow> s
       | Inr ids \<Rightarrow> reconfigure_all k s userID ids))"

end
