(* ===== verification/Guest_Remote.thy ===== *)
theory Guest_Remote
  imports Ctl_Manager
begin

text \<open>
  The two sides of the control channel put together: the guest's answers as JSON
  (\<open>guestagent/api/guestwire.go\<close>), read by the control plane's requests. Strings are valid UTF-8, so
  that \<open>encoding/json\<close> carries them unchanged.
\<close>

section \<open>Answers of the guest\<close>

definition opt_str :: "string \<Rightarrow> string \<Rightarrow> (string \<times> json) list" where
  "opt_str name v = (if v = [] then [] else [jstr name v])"

definition enc_Project :: "project \<Rightarrow> (string \<times> json) list" where
  "enc_Project p = [jstr ''name'' (pj_Name p), jstr ''path'' (pj_Path p)] @ opt_str ''remote'' (pj_Remote p) @ opt_str ''branch'' (pj_Branch p)
     @ [jbool ''dirty'' (pj_Dirty p)] @ opt_str ''last_commit_at'' (pj_LastCommitAt p) @ opt_str ''last_commit_msg'' (pj_LastCommitMsg p)"

definition enc_FileStatus :: "git_file_status \<Rightarrow> (string \<times> json) list" where
  "enc_FileStatus f = [jstr ''path'' (gf_Path f)] @ opt_str ''orig'' (gf_Orig f) @ [jstr ''index'' (gf_Index f), jstr ''worktree'' (gf_Worktree f)]"

definition enc_structs :: "('a \<Rightarrow> (string \<times> json) list) \<Rightarrow> string \<Rightarrow> 'a list \<Rightarrow> string \<times> json" where
  "enc_structs f name xs = (name, Json [] (JArr (map (\<lambda>x. Json [] (JObj (f x))) xs)))"

fun enc_resp :: "guest_resp \<Rightarrow> payload" where
  "enc_resp NoBody = None"
| "enc_resp (ProjectsListResponse ps) = Some (JObj [enc_structs enc_Project ''projects'' ps])"
| "enc_resp (KVGetResponse v) = Some (JObj [case v of None \<Rightarrow> (''value'', Json [] JNull) | Some s \<Rightarrow> jstr ''value'' s])"
| "enc_resp KVSetResponse = Some (JObj [jbool ''ok'' True])"
| "enc_resp (GitStatusResponse r) = Some (JObj (opt_str ''branch'' (gs_Branch r) @ [enc_structs enc_FileStatus ''files'' (gs_Files r)]))"
| "enc_resp (GitDiffResponse r) = Some (JObj [jstr ''diff'' (gd_Diff r), jbool ''truncated'' (gd_Truncated r)])"
| "enc_resp (GitBranchResponse b) = Some (JObj [jstr ''branch'' b])"
| "enc_resp (GitCommitResponse r) = Some (JObj [jstr ''sha'' (gc_Sha r), jstr ''subject'' (gc_Subject r)])"

text \<open>What a request to a guest in the state \<open>m\<close> returns, as the peer's error frames and answers.\<close>

definition guest_answer :: "guestctx \<Rightarrow> guest_mgr \<Rightarrow> string \<Rightarrow> payload \<Rightarrow> call_error + payload" where
  "guest_answer g m op pl = map_sum ControlError enc_resp (snd (guest_handle g m op pl))"

section \<open>Decoding what was encoded\<close>

lemma field_vals_Nil [simp]: "field_vals n [] = []"
  by (simp add: field_vals_def)

lemma field_vals_append [simp]: "field_vals n (xs @ ys) = field_vals n xs @ field_vals n ys"
  by (simp add: field_vals_def)

lemma field_vals_Cons [simp]: "field_vals n ((k, j) # ys) = (if EqualFold k n then json_val j # field_vals n ys else field_vals n ys)"
  by (simp add: field_vals_def)

lemma field_vals_opt [simp]: "field_vals n (opt_str k v) = (if EqualFold k n \<and> v \<noteq> [] then [JStr v] else [])"
  by (simp add: opt_str_def jstr_def)

lemma dec_str_opt: "field_vals n kvs = (if v \<noteq> [] then [JStr v] else []) \<Longrightarrow> dec_str n kvs = Some v"
  by (simp add: dec_str_def dec_field_def)

lemma dec_str_one: "field_vals n kvs = [JStr v] \<Longrightarrow> dec_str n kvs = Some v"
  by (simp add: dec_str_def dec_field_def)

lemma dec_bool_one: "field_vals n kvs = [JBool v] \<Longrightarrow> dec_bool n kvs = Some v"
  by (simp add: dec_bool_def dec_field_def)

lemma dec_structs:
  assumes "field_vals n kvs = [JArr (map (\<lambda>x. Json [] (JObj (f x))) xs)]" "\<And>x. x \<in> set xs \<Longrightarrow> d (f x) = Some x"
  shows "dec_field (set_list (dec_struct d)) [] n kvs = Some xs"
proof -
  have "dec_all (\<lambda>j. dec_struct d (json_val j)) (map (\<lambda>x. Json [] (JObj (f x))) xs) = Some xs"
    using assms(2) by (induction xs) (auto simp: dec_struct_def)
  with assms(1) show ?thesis by (simp add: dec_field_def)
qed

lemma dec_strs_one:
  assumes "field_vals n kvs = [JArr (map (\<lambda>x. Json [] (JStr x)) xs)]"
  shows "dec_strs n kvs = Some xs"
proof -
  have "dec_all (\<lambda>j. set_str [] (json_val j)) (map (\<lambda>x. Json [] (JStr x)) xs) = Some xs" by (induction xs) auto
  with assms show ?thesis by (simp add: dec_strs_def dec_field_def)
qed

lemma dec_Project_enc: "dec_Project (enc_Project p) = Some p"
proof -
  have "dec_str ''name'' (enc_Project p) = Some (pj_Name p)" "dec_str ''path'' (enc_Project p) = Some (pj_Path p)"
    by (rule dec_str_one; simp add: enc_Project_def jstr_def jbool_def lower_byte_def)+
  moreover have "dec_bool ''dirty'' (enc_Project p) = Some (pj_Dirty p)"
    by (rule dec_bool_one) (simp add: enc_Project_def jstr_def jbool_def lower_byte_def)
  moreover have "dec_str ''remote'' (enc_Project p) = Some (pj_Remote p)" "dec_str ''branch'' (enc_Project p) = Some (pj_Branch p)"
    "dec_str ''last_commit_at'' (enc_Project p) = Some (pj_LastCommitAt p)" "dec_str ''last_commit_msg'' (enc_Project p) = Some (pj_LastCommitMsg p)"
    by (rule dec_str_opt; simp add: enc_Project_def jstr_def jbool_def lower_byte_def)+
  ultimately show ?thesis by (simp add: dec_Project_def)
qed

lemma dec_FileStatus_enc: "dec_FileStatus (enc_FileStatus f) = Some f"
proof -
  have "dec_str ''path'' (enc_FileStatus f) = Some (gf_Path f)" "dec_str ''index'' (enc_FileStatus f) = Some (gf_Index f)"
    "dec_str ''worktree'' (enc_FileStatus f) = Some (gf_Worktree f)"
    by (rule dec_str_one; simp add: enc_FileStatus_def jstr_def lower_byte_def)+
  moreover have "dec_str ''orig'' (enc_FileStatus f) = Some (gf_Orig f)"
    by (rule dec_str_opt) (simp add: enc_FileStatus_def jstr_def lower_byte_def)
  ultimately show ?thesis by (simp add: dec_FileStatus_def)
qed

lemma dec_payload_of [simp]: "dec_payload d (Some (JObj kvs)) = d kvs"
  by (simp add: dec_payload_def dec_struct_def)

lemma responses_decode:
  "dec_payload (dec_field (set_list (dec_struct dec_Project)) [] ''projects'') (enc_resp (ProjectsListResponse ps)) = Some ps"
  "dec_payload dec_GitStatusResponse (enc_resp (GitStatusResponse r)) = Some r"
  "dec_payload dec_GitDiffResponse (enc_resp (GitDiffResponse d)) = Some d"
  "dec_payload (dec_str ''branch'') (enc_resp (GitBranchResponse b)) = Some b"
  "dec_payload dec_GitCommitResponse (enc_resp (GitCommitResponse c)) = Some c"
  "dec_payload dec_KVValue (enc_resp (KVGetResponse v)) = Some v"
proof -
  show "dec_payload (dec_field (set_list (dec_struct dec_Project)) [] ''projects'') (enc_resp (ProjectsListResponse ps)) = Some ps"
    by (simp, rule dec_structs [where f = enc_Project]) (simp_all add: enc_structs_def lower_byte_def dec_Project_enc)
  have "dec_str ''branch'' (opt_str ''branch'' (gs_Branch r) @ [enc_structs enc_FileStatus ''files'' (gs_Files r)]) = Some (gs_Branch r)"
    by (rule dec_str_opt) (simp add: enc_structs_def lower_byte_def)
  moreover have "dec_field (set_list (dec_struct dec_FileStatus)) [] ''files'' (opt_str ''branch'' (gs_Branch r) @ [enc_structs enc_FileStatus ''files'' (gs_Files r)])
      = Some (gs_Files r)"
    by (rule dec_structs [where f = enc_FileStatus]) (simp_all add: enc_structs_def lower_byte_def dec_FileStatus_enc)
  ultimately show "dec_payload dec_GitStatusResponse (enc_resp (GitStatusResponse r)) = Some r"
    by (simp add: dec_GitStatusResponse_def opt_map2_def)
  show "dec_payload dec_GitDiffResponse (enc_resp (GitDiffResponse d)) = Some d"
    by (simp add: dec_GitDiffResponse_def opt_map2_def dec_str_def dec_bool_def dec_field_def jstr_def jbool_def lower_byte_def)
  show "dec_payload (dec_str ''branch'') (enc_resp (GitBranchResponse b)) = Some b"
    by (simp add: dec_str_def dec_field_def jstr_def lower_byte_def)
  show "dec_payload dec_GitCommitResponse (enc_resp (GitCommitResponse c)) = Some c"
    by (simp add: dec_GitCommitResponse_def opt_map2_def dec_str_def dec_field_def jstr_def lower_byte_def)
  show "dec_payload dec_KVValue (enc_resp (KVGetResponse v)) = Some v"
    by (cases v) (simp_all add: dec_KVValue_def dec_field_def set_ptr_def jstr_def lower_byte_def)
qed

lemma opt_str_if: "(if v = [] then [] else [jstr k v]) = opt_str k v"
  by (simp add: opt_str_def)

lemmas request_decoders = dec_str_def dec_bool_def dec_field_def jstr_def jbool_def lower_byte_def

lemma requests_decode:
  "dec_str ''path'' [jstr ''path'' path] = Some path" "dec_str ''key'' [jstr ''key'' key] = Some key" "dec_str ''task_id'' [jstr ''task_id'' task] = Some task"
  "dec_GitDiff (enc_GitDiff path staged) = Some (path, staged)"
  "dec_GitBranch (enc_GitBranch path name co from_ref) = Some (path, name, co, from_ref)"
  "dec_GitCommit (enc_GitCommit path msg paths) = Some (path, msg, paths)"
  "dec_GitPush (enc_GitPush path branch su i) = Some \<lparr>gp_Path = path, gp_Branch = branch, gp_SetUpstream = su, gp_OpID = i\<rparr>"
  "dec_AgentRun (enc_AgentRun task path prompt provider sid) =
     Some \<lparr>ar_TaskID = task, ar_Path = path, ar_Prompt = prompt, ar_Provider = provider, ar_SessionID = sid\<rparr>"
proof -
  show "dec_str ''path'' [jstr ''path'' path] = Some path" "dec_str ''key'' [jstr ''key'' key] = Some key" "dec_str ''task_id'' [jstr ''task_id'' task] = Some task"
    by (simp_all add: request_decoders)
  show "dec_GitDiff (enc_GitDiff path staged) = Some (path, staged)"
    by (simp add: dec_GitDiff_def enc_GitDiff_def opt_map2_def request_decoders)
  have "dec_str ''from'' (enc_GitBranch path name co from_ref) = Some from_ref"
    by (rule dec_str_opt) (simp add: enc_GitBranch_def opt_str_if jstr_def jbool_def lower_byte_def)
  moreover have "dec_str ''path'' (enc_GitBranch path name co from_ref) = Some path" "dec_str ''name'' (enc_GitBranch path name co from_ref) = Some name"
    by (rule dec_str_one; simp add: enc_GitBranch_def opt_str_if, simp add: jstr_def jbool_def lower_byte_def)+
  moreover have "dec_bool ''checkout'' (enc_GitBranch path name co from_ref) = Some co"
    by (rule dec_bool_one, simp add: enc_GitBranch_def opt_str_if, simp add: jstr_def jbool_def lower_byte_def)
  ultimately show "dec_GitBranch (enc_GitBranch path name co from_ref) = Some (path, name, co, from_ref)"
    by (simp add: dec_GitBranch_def)
  have "dec_strs ''paths'' (enc_GitCommit path msg paths) = Some paths"
  proof (cases "paths = []")
    case True
    then show ?thesis by (simp add: enc_GitCommit_def dec_strs_def dec_field_def jstr_def lower_byte_def)
  next
    case False
    show ?thesis by (rule dec_strs_one) (simp add: enc_GitCommit_def False jstrs_def jstr_def lower_byte_def)
  qed
  then show "dec_GitCommit (enc_GitCommit path msg paths) = Some (path, msg, paths)"
    by (simp add: dec_GitCommit_def enc_GitCommit_def jstrs_def request_decoders)
  show "dec_GitPush (enc_GitPush path branch su i) = Some \<lparr>gp_Path = path, gp_Branch = branch, gp_SetUpstream = su, gp_OpID = i\<rparr>"
    by (simp add: dec_GitPush_def enc_GitPush_def request_decoders)
  have "dec_str ''session_id'' (enc_AgentRun task path prompt provider sid) = Some sid"
    by (rule dec_str_opt, simp add: enc_AgentRun_def opt_str_if, simp add: jstr_def lower_byte_def)
  moreover have "dec_str ''task_id'' (enc_AgentRun task path prompt provider sid) = Some task" "dec_str ''path'' (enc_AgentRun task path prompt provider sid) = Some path"
    "dec_str ''prompt'' (enc_AgentRun task path prompt provider sid) = Some prompt" "dec_str ''provider'' (enc_AgentRun task path prompt provider sid) = Some provider"
    by (rule dec_str_one; simp add: enc_AgentRun_def opt_str_if, simp add: jstr_def lower_byte_def)+
  ultimately show "dec_AgentRun (enc_AgentRun task path prompt provider sid) =
     Some \<lparr>ar_TaskID = task, ar_Path = path, ar_Prompt = prompt, ar_Provider = provider, ar_SessionID = sid\<rparr>"
    by (simp add: dec_AgentRun_def)
qed

lemma guest_ops:
  "guest_handle g m OpProjectsList pl = handle_projects g m" "guest_handle g m OpKVGet pl = handle_kv_get m pl"
  "guest_handle g m OpGitStatus pl = handle_status g m pl" "guest_handle g m OpGitDiff pl = handle_diff g m pl"
  "guest_handle g m OpGitBranch pl = handle_branch g m pl" "guest_handle g m OpGitCommit pl = handle_commit g m pl"
  "guest_handle g m OpGitPush pl = handle_push g m pl" "guest_handle g m OpAgentRun pl = handle_agent_run g m pl"
  "guest_handle g m OpAgentCancel pl = handle_agent_cancel m pl"
  by (simp_all add: guest_handle_def ops)

lemma ask_guest:
  assumes "HasChannel (cs_mgr s) mid" "kc_guest k mid = guest_answer g m"
  shows "snd (ask k s mid op kvs) = map_sum ControlError enc_resp (snd (guest_handle g m op (Some (JObj kvs))))"
  using assms by (auto simp: ask_def conn_request_def HasChannel_def guest_answer_def)

lemma snd_decoded: "snd (decoded f r) = (case snd r of Inl e \<Rightarrow> Inl e | Inr p \<Rightarrow> (case dec_payload f p of None \<Rightarrow> Inl CallFailed | Some v \<Rightarrow> Inr v))"
  by (auto simp: decoded_def split: prod.split sum.split)

lemma snd_acked: "snd (acked r) = map_sum (\<lambda>e. e) (\<lambda>_. ()) (snd r)"
  by (simp add: acked_def)

section \<open>Requests\<close>

lemma remote_list:
  assumes "HasChannel (cs_mgr s) mid" "kc_guest k mid = guest_answer g m"
  shows "snd (ListProjects k s mid) = map_sum (\<lambda>_. ControlError (unavailable ''list failed'')) id (snd (listProjects (gc_git g) (gm_trace m)))"
  unfolding ListProjects_def snd_decoded ask_guest [OF assms] guest_ops
  by (auto simp: handle_projects_def responses_decode simp del: enc_resp.simps split: prod.split sum.split)

lemma remote_status:
  assumes "HasChannel (cs_mgr s) mid" "kc_guest k mid = guest_answer g m" "path \<noteq> []"
  shows "snd (Ctl_GitStatus k s mid path) = map_sum (\<lambda>_. ControlError (unavailable ''status failed'')) id (snd (gitStatus (gc_git g) (gm_trace m) path))"
  unfolding Ctl_GitStatus_def snd_decoded ask_guest [OF assms(1,2)] guest_ops
  using assms(3) by (auto simp: handle_status_def requests_decode responses_decode simp del: enc_resp.simps split: prod.split sum.split)

lemma remote_diff:
  assumes "HasChannel (cs_mgr s) mid" "kc_guest k mid = guest_answer g m" "path \<noteq> []"
  shows "snd (Ctl_GitDiff k s mid path staged) = map_sum (\<lambda>_. ControlError (unavailable ''diff failed'')) id (snd (gitDiff (gc_git g) (gm_trace m) path staged))"
  unfolding Ctl_GitDiff_def snd_decoded ask_guest [OF assms(1,2)] guest_ops
  using assms(3) by (auto simp: handle_diff_def requests_decode responses_decode simp del: enc_resp.simps split: prod.split sum.split)

lemma remote_branch:
  assumes "HasChannel (cs_mgr s) mid" "kc_guest k mid = guest_answer g m" "path \<noteq> []" "name \<noteq> []"
  shows "snd (Ctl_GitBranch k s mid path name co from_ref) = map_sum ControlError id (snd (gitBranch (gc_git g) (gm_trace m) path name co from_ref))"
  unfolding Ctl_GitBranch_def snd_decoded ask_guest [OF assms(1,2)] guest_ops
  using assms(3,4) by (auto simp: handle_branch_def requests_decode responses_decode simp del: enc_resp.simps split: prod.split sum.split)

lemma remote_commit:
  assumes "HasChannel (cs_mgr s) mid" "kc_guest k mid = guest_answer g m" "path \<noteq> []"
  shows "snd (Ctl_GitCommit k s mid path msg paths) = map_sum ControlError id (snd (gitCommit (gc_git g) (gm_trace m) path msg paths))"
  unfolding Ctl_GitCommit_def snd_decoded ask_guest [OF assms(1,2)] guest_ops
  using assms(3) by (auto simp: handle_commit_def requests_decode responses_decode simp del: enc_resp.simps split: prod.split sum.split)

lemma remote_kv:
  assumes "HasChannel (cs_mgr s) mid" "kc_guest k mid = guest_answer g m" "key \<noteq> []"
  shows "snd (KVGet k s mid key) = Inr (case gm_kv m of None \<Rightarrow> None | Some kv \<Rightarrow> map_of kv key)"
  unfolding KVGet_def snd_decoded ask_guest [OF assms(1,2)] guest_ops
  using assms(3) by (simp add: handle_kv_get_def requests_decode responses_decode del: enc_resp.simps)

lemma remote_push:
  assumes "HasChannel (cs_mgr s) mid" "kc_guest k mid = guest_answer g m" "path \<noteq> []" "validateRepoPath (gc_git g) path = None" "ValidBranchName b"
  shows "snd (Ctl_Push k s mid path b su i) = Inr ()" (is ?ack)
    "fst (guest_handle g m OpGitPush (Some (JObj (enc_GitPush path b su i))))
       = go_job m (PushJob \<lparr>gp_Path = path, gp_Branch = b, gp_SetUpstream = su, gp_OpID = i\<rparr>)" (is ?job)
proof -
  have "b \<noteq> []" using assms(5) by (auto simp: ValidBranchName_def)
  then have "handle_push g m (Some (JObj (enc_GitPush path b su i))) = (go_job m (PushJob \<lparr>gp_Path = path, gp_Branch = b, gp_SetUpstream = su, gp_OpID = i\<rparr>), Inr NoBody)"
    using assms(3-5) by (simp add: handle_push_def requests_decode)
  then show ?ack ?job unfolding Ctl_Push_def snd_acked ask_guest [OF assms(1,2)] guest_ops by simp_all
qed

lemma remote_run:
  assumes "HasChannel (cs_mgr s) mid" "kc_guest k mid = guest_answer g m" "path \<noteq> []" "validateRepoPath (gc_git g) path = None"
    "task \<noteq> []" "provider \<noteq> []" "registerRun m task = (m1, r)"
  shows "snd (RunAgent k s mid task path prompt provider sid) = Inr ()" (is ?ack)
    "fst (guest_handle g m OpAgentRun (Some (JObj (enc_AgentRun task path prompt provider sid))))
       = go_job m1 (AgentJob r \<lparr>ar_TaskID = task, ar_Path = path, ar_Prompt = prompt, ar_Provider = provider, ar_SessionID = sid\<rparr>)" (is ?job)
proof -
  have "handle_agent_run g m (Some (JObj (enc_AgentRun task path prompt provider sid)))
     = (go_job m1 (AgentJob r \<lparr>ar_TaskID = task, ar_Path = path, ar_Prompt = prompt, ar_Provider = provider, ar_SessionID = sid\<rparr>), Inr NoBody)"
    using assms(3-7) by (simp add: handle_agent_run_def requests_decode)
  then show ?ack ?job unfolding RunAgent_def snd_acked ask_guest [OF assms(1,2)] guest_ops by simp_all
qed

lemma remote_cancel:
  assumes "HasChannel (cs_mgr s) mid" "kc_guest k mid = guest_answer g m" "task \<noteq> []"
  shows "snd (CancelAgent k s mid task) = Inr ()" (is ?ack)
    "fst (guest_handle g m OpAgentCancel (Some (JObj [jstr ''task_id'' task]))) = fst (cancelRun m task)" (is ?job)
proof -
  have "handle_agent_cancel m (Some (JObj [jstr ''task_id'' task])) = (fst (cancelRun m task), Inr NoBody)"
    using assms(3) by (simp add: handle_agent_cancel_def requests_decode)
  then show ?ack ?job unfolding CancelAgent_def snd_acked ask_guest [OF assms(1,2)] guest_ops by simp_all
qed

end
