(* ===== verification/Git_Api.thy ===== *)
theory Git_Api
  imports Ctl_Manager Go_Regexp
begin

text \<open>
  The HTTP handlers of projects and pull requests: \<open>httpapi/git.go\<close> (repositories, clone) and
  \<open>httpapi/gitops.go\<close> (status, diff, branch, commit, push, pull request), with the resolution of the
  machine and of the project they share. A handler takes the decoded request, \<open>None\<close> when its body
  does not decode, and returns the state with the answer. In an audit entry a value that is not a
  string is its JSON text.
\<close>

section \<open>Context\<close>

record url_parts =
  ur_Scheme :: string
  ur_User :: bool
  ur_Host :: string
  ur_RawQuery :: string
  ur_Fragment :: string
  ur_Path :: string

text \<open>\<open>pc_url\<close> is \<open>url.Parse\<close>, \<open>pc_opID\<close> the random id of this request, \<open>pc_retry\<close> the context of a second attempt.\<close>

record apictx =
  pc_ctl :: ctlctx
  pc_retry :: tokenctx
  pc_gitHost :: string
  pc_publicHosts :: "string list"
  pc_gitea :: "giteactx option"
  pc_url :: "string \<Rightarrow> url_parts option"
  pc_opID :: string
  pc_slug :: string

definition api_audit :: "apictx \<Rightarrow> 'st ctl_state \<Rightarrow> user_row \<Rightarrow> string \<Rightarrow> string \<Rightarrow> (string \<times> string) list \<Rightarrow> 'st ctl_state" where
  "api_audit k s u action target meta = s\<lparr>cs_git := git_audit (kc_tok (pc_ctl k)) (cs_git s) (user_entry u action target meta)\<rparr>"

definition bool_text :: "bool \<Rightarrow> string" where
  "bool_text b = (if b then ''true'' else ''false'')"

definition authed :: "user_row option \<Rightarrow> 's \<Rightarrow> (user_row \<Rightarrow> 's \<times> 'r answer) \<Rightarrow> 's \<times> 'r answer" where
  "authed user s f = (case user of None \<Rightarrow> (s, Refused 401 ''unauthorized'') | Some u \<Rightarrow> f u)"

section \<open>The machine of a request\<close>

definition uuidEqual :: "pg_uuid \<Rightarrow> pg_uuid \<Rightarrow> bool" where
  "uuidEqual a b = (Valid a \<and> Valid b \<and> Bytes a = Bytes b)"

definition only_machine :: "ctlctx \<Rightarrow> db \<Rightarrow> pg_uuid \<Rightarrow> machine res" where
  "only_machine k d u = (case ListMachinesByUserID (kc_db k) d u of
       Inl e \<Rightarrow> Inl e
     | Inr [] \<Rightarrow> Inl (Sentinel ErrNoMachine)
     | Inr [m] \<Rightarrow> Inr m
     | Inr _ \<Rightarrow> Inl (Sentinel ErrAmbiguous))"

definition resolveTerminalMachine :: "ctlctx \<Rightarrow> db \<Rightarrow> user_row \<Rightarrow> string \<Rightarrow> machine res" where
  "resolveTerminalMachine k d u param =
     (if param = [] then only_machine k d (us_ID u)
      else case ParseUUID k param of
        None \<Rightarrow> Inl (Sentinel ErrNoMachine)
      | Some i \<Rightarrow>
          (if \<not> Valid i then Inl (Sentinel ErrNoMachine)
           else case GetMachineByID (kc_db k) d i of
             Inl e \<Rightarrow> Inl (if errors_Is e ErrNoRows then Sentinel ErrNoMachine else e)
           | Inr m \<Rightarrow> (if \<not> uuidEqual (m_UserID m) (us_ID u) then Inl (Sentinel ErrNoMachine) else Inr m)))"

text \<open>Owned by the user, running, with a live channel; a refusal is its status and code.\<close>

definition resolveWorktreeMachine :: "ctlctx \<Rightarrow> 'st ctl_state \<Rightarrow> user_row \<Rightarrow> string \<Rightarrow> (nat \<times> string) + string" where
  "resolveWorktreeMachine k s u path = (case resolveTerminalMachine k (cs_db s) u path of
       Inl _ \<Rightarrow> Inl (404, ''no_machine'')
     | Inr m \<Rightarrow>
         (if m_State m \<noteq> StateRunning \<or> \<not> HasChannel (cs_mgr s) (UUIDString (m_ID m)) then Inl (409, ''machine_not_running'')
          else Inr (UUIDString (m_ID m))))"

definition on_machine :: "ctlctx \<Rightarrow> 'st ctl_state \<Rightarrow> user_row \<Rightarrow> string \<Rightarrow> (string \<Rightarrow> 'st ctl_state \<times> 'r answer) \<Rightarrow> 'st ctl_state \<times> 'r answer" where
  "on_machine k s u path f = (case resolveWorktreeMachine k s u path of Inl (n, code) \<Rightarrow> (s, Refused n code) | Inr mid \<Rightarrow> f mid)"

section \<open>The project of a request\<close>

definition find_project :: "project list \<Rightarrow> string \<Rightarrow> project option" where
  "find_project ps name = find (\<lambda>p. pj_Name p = name) ps"

definition listing_error :: "call_error \<Rightarrow> string" where
  "listing_error e = (case e of NoChannel \<Rightarrow> ''machine_not_running'' | _ \<Rightarrow> ''guest_unreachable'')"

definition resolveProject :: "ctlctx \<Rightarrow> 'st ctl_state \<Rightarrow> string \<Rightarrow> string \<Rightarrow> 'st ctl_state \<times> (string + string)" where
  "resolveProject k s machineID name =
     (if name = [] then (s, Inl ''bad_project'')
      else case ListProjects k s machineID of
        (s', Inl e) \<Rightarrow> (s', Inl (listing_error e))
      | (s', Inr ps) \<Rightarrow> (s', case find_project ps name of None \<Rightarrow> Inl ''bad_project'' | Some p \<Rightarrow> Inr (pj_Path p)))"

definition resolveProjectRemote :: "ctlctx \<Rightarrow> 'st ctl_state \<Rightarrow> string \<Rightarrow> string \<Rightarrow> 'st ctl_state \<times> (string + string)" where
  "resolveProjectRemote k s machineID name =
     (if name = [] then (s, Inl ''bad_project'')
      else case ListProjects k s machineID of
        (s', Inl e) \<Rightarrow> (s', Inl (listing_error e))
      | (s', Inr ps) \<Rightarrow> (s', case find_project ps name of
            None \<Rightarrow> Inl ''bad_project''
          | Some p \<Rightarrow> (if pj_Remote p = [] then Inl ''no_remote'' else Inr (pj_Remote p))))"

definition projectErrorStatus :: "string \<Rightarrow> nat" where
  "projectErrorStatus code = (if code = ''guest_unreachable'' then 502 else if code = ''machine_not_running'' then 409 else 400)"

definition on_project :: "ctlctx \<Rightarrow> 'st ctl_state \<Rightarrow> string \<Rightarrow> string \<Rightarrow> ('st ctl_state \<Rightarrow> string \<Rightarrow> 'st ctl_state \<times> 'r answer) \<Rightarrow> 'st ctl_state \<times> 'r answer" where
  "on_project k s mid name f = (case resolveProject k s mid name of
       (s', Inl code) \<Rightarrow> (s', Refused (projectErrorStatus code) code)
     | (s', Inr path) \<Rightarrow> f s' path)"

text \<open>\<open>gitWorktreeContext\<close>: the machine and the path of the project.\<close>

definition gitWorktreeContext :: "ctlctx \<Rightarrow> 'st ctl_state \<Rightarrow> user_row \<Rightarrow> string \<Rightarrow> string
    \<Rightarrow> ('st ctl_state \<Rightarrow> string \<Rightarrow> string \<Rightarrow> 'st ctl_state \<times> 'r answer) \<Rightarrow> 'st ctl_state \<times> 'r answer" where
  "gitWorktreeContext k s u path name f = on_machine k s u path (\<lambda>mid. on_project k s mid name (\<lambda>s' repo. f s' mid repo))"

section \<open>Reading a project\<close>

definition read_answer :: "'s \<times> (call_error + 'r) \<Rightarrow> 's \<times> 'r answer" where
  "read_answer x = (case x of
       (s, Inl NoChannel) \<Rightarrow> (s, Refused 409 ''machine_not_running'')
     | (s, Inl _) \<Rightarrow> (s, Refused 502 ''guest_unreachable'')
     | (s, Inr r) \<Rightarrow> (s, Handled r))"

definition handleGitStatus :: "apictx \<Rightarrow> 'st ctl_state \<Rightarrow> user_row option \<Rightarrow> string \<Rightarrow> string \<Rightarrow> 'st ctl_state \<times> git_status_response answer" where
  "handleGitStatus k s user path project = authed user s (\<lambda>u.
     gitWorktreeContext (pc_ctl k) s u path project (\<lambda>s' mid repo. read_answer (Ctl_GitStatus (pc_ctl k) s' mid repo)))"

definition handleGitDiff :: "apictx \<Rightarrow> 'st ctl_state \<Rightarrow> user_row option \<Rightarrow> string \<Rightarrow> string \<Rightarrow> string \<Rightarrow> 'st ctl_state \<times> git_diff_response answer" where
  "handleGitDiff k s user path project staged = authed user s (\<lambda>u.
     gitWorktreeContext (pc_ctl k) s u path project (\<lambda>s' mid repo.
       read_answer (Ctl_GitDiff (pc_ctl k) s' mid repo (staged = ''true'' \<or> staged = ''1''))))"

section \<open>Changing a project\<close>

text \<open>A failed request with the codes a verb maps; everything else means the guest was not reached.\<close>

definition refused_by_guest :: "(string \<times> nat \<times> string) list \<Rightarrow> call_error \<Rightarrow> 'r answer" where
  "refused_by_guest codes e = (case e of
       NoChannel \<Rightarrow> Refused 409 ''machine_not_running''
     | ControlError ce \<Rightarrow> (case map_of codes (ce_Code ce) of Some (n, code) \<Rightarrow> Refused n code | None \<Rightarrow> Refused 502 ''guest_unreachable'')
     | CallFailed \<Rightarrow> Refused 502 ''guest_unreachable'')"

record branch_request =
  bq_Project :: string
  bq_Name :: string
  bq_Checkout :: bool
  bq_From :: string

definition branch_codes :: "(string \<times> nat \<times> string) list" where
  "branch_codes = [(ErrCodeBranchExists, 409, ''branch_exists''), (ErrCodeInvalidBranch, 400, ''invalid_branch_name''),
     (ErrCodeGitFailed, 422, ''branch_failed'')]"

definition handleGitBranch :: "apictx \<Rightarrow> 'st ctl_state \<Rightarrow> user_row option \<Rightarrow> string \<Rightarrow> branch_request option \<Rightarrow> 'st ctl_state \<times> string answer" where
  "handleGitBranch k s user path body = authed user s (\<lambda>u. case body of
       None \<Rightarrow> (s, Refused 400 ''bad_request'')
     | Some q \<Rightarrow>
         (if bq_Project q = [] \<or> bq_Name q = [] then (s, Refused 400 ''bad_request'')
          else if \<not> ValidBranchName (bq_Name q) then (s, Refused 400 ''invalid_branch_name'')
          else gitWorktreeContext (pc_ctl k) s u path (bq_Project q) (\<lambda>s' mid repo.
            case Ctl_GitBranch (pc_ctl k) s' mid repo (bq_Name q) (bq_Checkout q) (bq_From q) of
              (s2, Inl e) \<Rightarrow> (s2, refused_by_guest branch_codes e)
            | (s2, Inr b) \<Rightarrow> (api_audit k s2 u ''git.branch'' (bq_Project q) [(''name'', bq_Name q), (''checkout'', bool_text (bq_Checkout q))],
                Handled b))))"

record commit_request =
  cq_Project :: string
  cq_Message :: string
  cq_Paths :: "string list"

definition commit_codes :: "(string \<times> nat \<times> string) list" where
  "commit_codes = [(ErrCodeEmptyMessage, 400, ''empty_message''), (ErrCodeNothingToCommit, 409, ''nothing_to_commit''),
     (ErrCodeGitFailed, 422, ''commit_failed'')]"

definition handleGitCommit :: "apictx \<Rightarrow> 'st ctl_state \<Rightarrow> user_row option \<Rightarrow> string \<Rightarrow> commit_request option \<Rightarrow> 'st ctl_state \<times> git_commit_response answer" where
  "handleGitCommit k s user path body = authed user s (\<lambda>u. case body of
       None \<Rightarrow> (s, Refused 400 ''bad_request'')
     | Some q \<Rightarrow>
         (if cq_Project q = [] then (s, Refused 400 ''bad_request'')
          else if TrimSpace (cq_Message q) = [] then (s, Refused 400 ''empty_message'')
          else gitWorktreeContext (pc_ctl k) s u path (cq_Project q) (\<lambda>s' mid repo.
            case Ctl_GitCommit (pc_ctl k) s' mid repo (cq_Message q) (cq_Paths q) of
              (s2, Inl e) \<Rightarrow> (s2, refused_by_guest commit_codes e)
            | (s2, Inr r) \<Rightarrow> (api_audit k s2 u ''git.commit'' (cq_Project q) [(''sha'', gc_Sha r), (''paths'', nat_str (length (cq_Paths q)))],
                Handled r))))"

record push_request =
  sq_Project :: string
  sq_Branch :: string
  sq_SetUpstream :: bool

definition handleGitPush :: "apictx \<Rightarrow> 'st ctl_state \<Rightarrow> user_row option \<Rightarrow> string \<Rightarrow> push_request option \<Rightarrow> 'st ctl_state \<times> string answer" where
  "handleGitPush k s user path body = authed user s (\<lambda>u. case body of
       None \<Rightarrow> (s, Refused 400 ''bad_request'')
     | Some q \<Rightarrow>
         (if sq_Project q = [] \<or> sq_Branch q = [] then (s, Refused 400 ''bad_request'')
          else if \<not> ValidBranchName (sq_Branch q) then (s, Refused 400 ''invalid_branch_name'')
          else gitWorktreeContext (pc_ctl k) s u path (sq_Project q) (\<lambda>s' mid repo.
            case Ctl_Push (pc_ctl k) s' mid repo (sq_Branch q) (sq_SetUpstream q) (pc_opID k) of
              (s2, Inl NoChannel) \<Rightarrow> (s2, Refused 409 ''machine_not_running'')
            | (s2, Inl _) \<Rightarrow> (s2, Refused 500 ''push_dispatch_failed'')
            | (s2, Inr _) \<Rightarrow> (api_audit k s2 u ''git.push'' (sq_Project q) [(''op_id'', pc_opID k), (''branch'', sq_Branch q)],
                Handled (pc_opID k)))))"

section \<open>Repository names\<close>

definition name_char :: "char \<Rightarrow> bool" where
  "name_char c = (is_alnum c \<or> c \<in> {CHR ''_'', CHR ''.'', CHR ''-''})"

definition fullNameRe :: rx where
  "fullNameRe = Seq (Plus (Cls name_char)) (Seq (Lit (CHR ''/'')) (Plus (Cls name_char)))"

definition validFullName :: "string \<Rightarrow> bool" where
  "validFullName s = (MatchString fullNameRe s \<and> list_all (\<lambda>e. e \<noteq> ''.'' \<and> e \<noteq> ''..'') (split_char CHR ''/'' s))"

definition repoDir :: "string \<Rightarrow> string" where
  "repoDir fullName = rev (takeWhile (\<lambda>c. c \<noteq> CHR ''/'') (rev fullName))"

definition Trim_char :: "char \<Rightarrow> string \<Rightarrow> string" where
  "Trim_char c s = rev (dropWhile (\<lambda>x. x = c) (rev (dropWhile (\<lambda>x. x = c) s)))"

definition TrimSuffix :: "string \<Rightarrow> string \<Rightarrow> string" where
  "TrimSuffix s suf = (if HasSuffix s suf then take (length s - length suf) s else s)"

datatype url_error = BadURL | ForbiddenHost

definition parseCloneURL :: "(string \<Rightarrow> url_parts option) \<Rightarrow> string \<Rightarrow> string \<Rightarrow> string list \<Rightarrow> url_error + string \<times> string" where
  "parseCloneURL parse raw gitHost publicHosts = (case parse (TrimSpace raw) of
       None \<Rightarrow> Inl BadURL
     | Some u \<Rightarrow>
         (if ur_Scheme u \<noteq> ''https'' \<or> ur_User u \<or> ur_Host u = [] \<or> ur_RawQuery u \<noteq> [] \<or> ur_Fragment u \<noteq> [] then Inl BadURL
          else let fullName = TrimSuffix (Trim_char (CHR ''/'') (ur_Path u)) ''.git''; hst = ToLower (ur_Host u) in
            if \<not> validFullName fullName then Inl BadURL
            else if hst \<noteq> ToLower gitHost \<and> hst \<notin> set publicHosts then Inl ForbiddenHost
            else Inr (hst, fullName)))"

section \<open>Repositories and clones\<close>

definition grantsURL :: "apictx \<Rightarrow> string" where
  "grantsURL k = (if pc_slug k = [] then [] else ''https://github.com/apps/'' @ pc_slug k @ ''/installations/new'')"

text \<open>The captured variable tells that the listing does not end; nothing is returned then.\<close>

definition listRepos :: "'st store_ops \<Rightarrow> apictx \<Rightarrow> 'st token_source \<Rightarrow> string \<Rightarrow> ('st token_source \<times> repo list res) option" where
  "listRepos S k ts uid =
     (case callGitHub S (kc_tok (pc_ctl k)) (pc_retry k) ts uid
             (\<lambda>x endless token. case ListUserRepos x (tk_client ts) token of None \<Rightarrow> (True, Inl (ErrorText [])) | Some r \<Rightarrow> (endless, r)) False of
        (ts', endless, r) \<Rightarrow> (if endless then None else Some (ts', r)))"

record repo_view =
  rv_FullName :: string
  rv_Private :: bool
  rv_DefaultBranch :: string
  rv_PushedAt :: "int option"

definition repo_view_of :: "repo \<Rightarrow> repo_view" where
  "repo_view_of r = \<lparr>rv_FullName = rp_FullName r, rv_Private = rp_Private r, rv_DefaultBranch = rp_DefaultBranch r, rv_PushedAt = rp_PushedAt r\<rparr>"

definition handleGitRepos :: "'st store_ops \<Rightarrow> apictx \<Rightarrow> 'st ctl_state \<Rightarrow> user_row option \<Rightarrow> ('st ctl_state \<times> (repo_view list \<times> string) answer) option" where
  "handleGitRepos S k s user = (case user of
       None \<Rightarrow> Some (s, Refused 401 ''unauthorized'')
     | Some u \<Rightarrow> (case listRepos S k (ga_ts (cs_git s)) (UUIDString (us_ID u)) of
         None \<Rightarrow> None
       | Some (ts, r) \<Rightarrow>
           (let s1 = s\<lparr>cs_git := (cs_git s)\<lparr>ga_ts := ts\<rparr>\<rparr> in
            case r of
              Inl e \<Rightarrow> Some (s1, if errors_Is e ErrReconnectGitHub then Refused 409 ''reconnect_github'' else Refused 502 ''github_unavailable'')
            | Inr repos \<Rightarrow> Some (api_audit k s1 u ''git.repos'' [] [(''count'', nat_str (length repos))],
                Handled (map repo_view_of repos, grantsURL k)))))"

text \<open>The host and name of the repository to clone, or the refusal.\<close>

definition clone_target :: "apictx \<Rightarrow> (string \<times> string) option \<Rightarrow> string + string \<times> string" where
  "clone_target k body = (case body of
       None \<Rightarrow> Inl ''bad_request''
     | Some (fullName, url) \<Rightarrow>
         (if (fullName = []) = (url = []) then Inl ''bad_request''
          else if url \<noteq> [] then
            (case parseCloneURL (pc_url k) url (pc_gitHost k) (pc_publicHosts k) of
               Inl ForbiddenHost \<Rightarrow> Inl ''forbidden_host''
             | Inl BadURL \<Rightarrow> Inl ''bad_url''
             | Inr x \<Rightarrow> Inr x)
          else if \<not> validFullName fullName then Inl ''bad_full_name''
          else Inr (pc_gitHost k, fullName)))"

definition clone_url :: "string \<Rightarrow> string \<Rightarrow> string" where
  "clone_url hst fullName = ''https://'' @ hst @ ''/'' @ fullName @ ''.git''"

definition clone_dest :: "string \<Rightarrow> string" where
  "clone_dest fullName = ''/workspace/'' @ repoDir fullName"

definition handleGitClone :: "apictx \<Rightarrow> 'st ctl_state \<Rightarrow> user_row option \<Rightarrow> string \<Rightarrow> (string \<times> string) option \<Rightarrow> 'st ctl_state \<times> string answer" where
  "handleGitClone k s user mach body = authed user s (\<lambda>u. case clone_target k body of
       Inl code \<Rightarrow> (s, Refused 400 code)
     | Inr (hst, fullName) \<Rightarrow> (case resolveWorktreeMachine (pc_ctl k) s u mach of
         Inl _ \<Rightarrow> (s, Refused 409 ''machine_not_running'')
       | Inr mid \<Rightarrow> (case Ctl_Clone (pc_ctl k) s mid (clone_url hst fullName) (clone_dest fullName) (pc_opID k) of
           (s1, Inl NoChannel) \<Rightarrow> (s1, Refused 409 ''machine_not_running'')
         | (s1, Inl _) \<Rightarrow> (s1, Refused 500 ''clone_dispatch_failed'')
         | (s1, Inr _) \<Rightarrow> (api_audit k s1 u ''git.clone'' fullName [(''op_id'', pc_opID k), (''host'', hst)], Handled (pc_opID k)))))"

section \<open>Pull requests\<close>

fun cut_str :: "string \<Rightarrow> string \<Rightarrow> (string \<times> string) option" where
  "cut_str sep [] = (if sep = [] then Some ([], []) else None)"
| "cut_str sep (x # xs) = (if HasPrefix (x # xs) sep then Some ([], drop (length sep) (x # xs))
     else map_option (\<lambda>(a, b). (x # a, b)) (cut_str sep xs))"

definition after_last :: "char \<Rightarrow> string \<Rightarrow> string" where
  "after_last c s = rev (takeWhile (\<lambda>x. x \<noteq> c) (rev s))"

text \<open>The host and the rest of a remote, \<open>scheme://[user@]host/rest\<close> or \<open>[user@]host:rest\<close>.\<close>

definition split_remote :: "string \<Rightarrow> string \<times> string" where
  "split_remote s = (case cut_str ''://'' s of
       Some (_, rest) \<Rightarrow> (case cut_char (CHR ''/'') rest of
           None \<Rightarrow> ([], s)
         | Some (hst, p) \<Rightarrow> (after_last (CHR ''@'') hst, p))
     | None \<Rightarrow> (case cut_char (CHR ''@'') s of
         None \<Rightarrow> ([], s)
       | Some (a, b) \<Rightarrow> (if CHR '':'' \<in> set a then ([], s)
           else case cut_char (CHR '':'') b of None \<Rightarrow> ([], s) | Some (hst, p) \<Rightarrow> (hst, p))))"

definition parseRemote :: "string \<Rightarrow> (string \<times> string \<times> string) option" where
  "parseRemote remote =
     (let (hst, p) = split_remote (TrimSuffix (TrimSpace remote) ''.git'') in
      case split_char (CHR ''/'') (Trim_char (CHR ''/'') p) of
        owner # name # _ \<Rightarrow> (if owner = [] \<or> name = [] \<or> \<not> validFullName (owner @ ''/'' @ name) then None
          else Some (ToLower hst, owner, name))
      | _ \<Rightarrow> None)"

record pr_request =
  pq_Project :: string
  pq_Title :: string
  pq_Body :: string
  pq_Head :: string
  pq_Base :: string

text \<open>One attempt at the pull request: \<open>base\<close> is the captured variable.\<close>

definition pr_attempt :: "gh_client \<Rightarrow> string \<Rightarrow> string \<Rightarrow> pr_request \<Rightarrow> ghctx \<Rightarrow> string \<Rightarrow> string \<Rightarrow> string \<times> (int \<times> string) res" where
  "pr_attempt cl owner name q x base token =
     (let create = (\<lambda>b. (b, gh_CreatePR x cl token owner name (pq_Head q) b (pq_Title q) (pq_Body q))) in
      if base \<noteq> [] then create base
      else case GetRepo x cl token owner name of
        Inl e \<Rightarrow> (base, Inl e)
      | Inr r \<Rightarrow> (if rp_DefaultBranch r = [] then (base, Inl (ErrorText (''repo '' @ owner @ ''/'' @ name @ '': empty default branch'')))
          else create (rp_DefaultBranch r)))"

definition github_refusal :: "error \<Rightarrow> nat \<times> string" where
  "github_refusal e =
     (if errors_Is e ErrReconnectGitHub then (409, ''reconnect_github'')
      else if errors_Is e ErrNoPRCommits then (422, ''no_commits'')
      else if errors_Is e ErrPRAlreadyExists then (409, ''pr_exists'')
      else (502, ''github_unavailable''))"

text \<open>The pull request with its base, or the refusal.\<close>

definition createGitHubPR :: "'st store_ops \<Rightarrow> apictx \<Rightarrow> 'st ctl_state \<Rightarrow> string \<Rightarrow> string \<Rightarrow> string \<Rightarrow> pr_request
    \<Rightarrow> 'st ctl_state \<times> (nat \<times> string + (int \<times> string) \<times> string)" where
  "createGitHubPR S k s uid owner name q =
     (case callGitHub S (kc_tok (pc_ctl k)) (pc_retry k) (ga_ts (cs_git s)) uid
             (pr_attempt (tk_client (ga_ts (cs_git s))) owner name q) (pq_Base q) of
        (ts, base, r) \<Rightarrow> (s\<lparr>cs_git := (cs_git s)\<lparr>ga_ts := ts\<rparr>\<rparr>,
           case r of Inl e \<Rightarrow> Inl (github_refusal e) | Inr pr \<Rightarrow> Inr (pr, base)))"

definition gitea_refusal :: "error \<Rightarrow> nat \<times> string" where
  "gitea_refusal e =
     (if errors_Is e GiteaErrNoPRCommits then (422, ''no_commits'')
      else if errors_Is e GiteaErrPRAlreadyExists then (409, ''pr_exists'')
      else if errors_Is e GiteaErrBadToken then (409, ''githost_token_invalid'')
      else if errors_Is e GiteaErrNotFound then (422, ''bad_remote'')
      else (502, ''githost_unavailable''))"

definition gitea_base :: "giteactx \<Rightarrow> string \<Rightarrow> string \<Rightarrow> string \<Rightarrow> string \<Rightarrow> pr_request \<Rightarrow> (nat \<times> string) + string" where
  "gitea_base g api token owner name q =
     (if pq_Base q \<noteq> [] then Inr (pq_Base q)
      else case gitea_GetRepo g api token owner name of
        Inl e \<Rightarrow> Inl (if errors_Is e GiteaErrBadToken then (409, ''githost_token_invalid'')
          else if errors_Is e GiteaErrNotFound then (422, ''bad_remote'') else (502, ''githost_unavailable''))
      | Inr (_, _, branch) \<Rightarrow> (if branch = [] then Inl (502, ''githost_unavailable'') else Inr branch))"

definition createGiteaPR :: "'st store_ops \<Rightarrow> apictx \<Rightarrow> giteactx \<Rightarrow> 'st ctl_state \<Rightarrow> string \<Rightarrow> string \<Rightarrow> string \<Rightarrow> string \<Rightarrow> pr_request
    \<Rightarrow> (nat \<times> string) + (int \<times> string) \<times> string" where
  "createGiteaPR S k g s uid hst owner name q =
     (case HostCredential S (kc_tok (pc_ctl k)) (ga_ts (cs_git s)) uid hst of
        Inl e \<Rightarrow> Inl (if errors_Is e ErrNoLink then (409, ''githost_token_required'') else (500, ''internal''))
      | Inr (_, token) \<Rightarrow>
          (let api = gitea_New (APIBaseForHost hst) in
           case gitea_base g api token owner name q of
             Inl e \<Rightarrow> Inl e
           | Inr base \<Rightarrow> (case gitea_CreatePR g api token owner name (pq_Head q) base (pq_Title q) (pq_Body q) of
               Inl e \<Rightarrow> Inl (gitea_refusal e)
             | Inr pr \<Rightarrow> Inr (pr, base))))"

text \<open>\<open>emitMachineEvent\<close>: best effort, but a panic of the broker is one here too.\<close>

definition emitMachineEvent :: "ctlctx \<Rightarrow> 'st ctl_state \<Rightarrow> string \<Rightarrow> string \<Rightarrow> json_object \<Rightarrow> 'st ctl_state option" where
  "emitMachineEvent k s machineID typ body = (case ParseUUID k machineID of
       None \<Rightarrow> Some s
     | Some mid \<Rightarrow> (case InsertMachineEvent (kc_db k) (cs_db s) mid typ None None ''system:httpapi'' body of
         Inl _ \<Rightarrow> Some s
       | Inr (d, ev) \<Rightarrow> (case GetMachineByID (kc_db k) d mid of
           Inl _ \<Rightarrow> Some (s\<lparr>cs_db := d\<rparr>)
         | Inr mc \<Rightarrow> map_option (\<lambda>b. s\<lparr>cs_db := d, cs_broker := b\<rparr>)
             (Publish (cs_broker s) \<lparr>u_Machine = Some mc, u_Event = Some ev, u_Deleted = False, u_Shutdown = False\<rparr>))))"

definition pr_created :: "apictx \<Rightarrow> 'st ctl_state \<Rightarrow> user_row \<Rightarrow> string \<Rightarrow> pr_request \<Rightarrow> string \<Rightarrow> int \<times> string \<Rightarrow> string
    \<Rightarrow> ('st ctl_state \<times> (int \<times> string) answer) option" where
  "pr_created k s u mid q hst pr base =
     map_option (\<lambda>s'. (s', Handled pr))
       (emitMachineEvent (pc_ctl k)
          (api_audit k s u ''git.pr'' (pq_Project q) [(''number'', itoa (fst pr)), (''head'', pq_Head q), (''base'', base), (''host'', hst)])
          mid ''git.pr'' [(''number'', json_scalar.JInt (fst pr)), (''url'', json_scalar.JStr (snd pr)), (''project'', json_scalar.JStr (pq_Project q))])"

text \<open>The provider of a remote's host.\<close>

definition provider_pr :: "'st store_ops \<Rightarrow> apictx \<Rightarrow> 'st ctl_state \<Rightarrow> string \<Rightarrow> string \<Rightarrow> string \<Rightarrow> string \<Rightarrow> pr_request
    \<Rightarrow> 'st ctl_state \<times> (nat \<times> string + (int \<times> string) \<times> string)" where
  "provider_pr S k s uid hst owner name q =
     (if EqualFold hst (pc_gitHost k) then createGitHubPR S k s uid owner name q
      else case pc_gitea k of
        None \<Rightarrow> (s, Inl (422, ''unsupported_host''))
      | Some g \<Rightarrow> (if hst \<in> set (pc_publicHosts k) then (s, createGiteaPR S k g s uid hst owner name q)
          else (s, Inl (422, ''unsupported_host''))))"

definition pr_request_error :: "pr_request option \<Rightarrow> string option" where
  "pr_request_error body = (case body of
       None \<Rightarrow> Some ''bad_request''
     | Some q \<Rightarrow>
         (if pq_Project q = [] \<or> pq_Title q = [] \<or> pq_Head q = [] then Some ''bad_request''
          else if \<not> ValidBranchName (pq_Head q) \<or> pq_Base q \<noteq> [] \<and> \<not> ValidBranchName (pq_Base q) then Some ''invalid_branch_name''
          else None))"

definition handleGitPR :: "'st store_ops \<Rightarrow> apictx \<Rightarrow> 'st ctl_state \<Rightarrow> user_row option \<Rightarrow> string \<Rightarrow> pr_request option
    \<Rightarrow> ('st ctl_state \<times> (int \<times> string) answer) option" where
  "handleGitPR S k s user path body = (case user of
       None \<Rightarrow> Some (s, Refused 401 ''unauthorized'')
     | Some u \<Rightarrow> (case pr_request_error body of
         Some code \<Rightarrow> Some (s, Refused 400 code)
       | None \<Rightarrow> (case resolveWorktreeMachine (pc_ctl k) s u path of
           Inl (n, code) \<Rightarrow> Some (s, Refused n code)
         | Inr mid \<Rightarrow> (case resolveProjectRemote (pc_ctl k) s mid (pq_Project (the body)) of
             (s1, Inl code) \<Rightarrow> Some (s1, if code = ''no_remote'' then Refused 422 ''no_remote'' else Refused (projectErrorStatus code) code)
           | (s1, Inr remote) \<Rightarrow> (case parseRemote remote of
               None \<Rightarrow> Some (s1, Refused 422 ''bad_remote'')
             | Some (hst, owner, name) \<Rightarrow> (case provider_pr S k s1 (UUIDString (us_ID u)) hst owner name (the body) of
                 (s2, Inl (n, code)) \<Rightarrow> Some (s2, Refused n code)
               | (s2, Inr (pr, base)) \<Rightarrow> pr_created k s2 u mid (the body) hst pr base))))))"

end
