(* ===== verification/Agent_Tasks.thy ===== *)
theory Agent_Tasks
  imports Git_Api
begin

text \<open>
  Headless agent tasks: the HTTP handlers of \<open>httpapi/tasks.go\<close> and the event stream of
  \<open>httpapi/taskstream.go\<close>, on the state of the control channels. The providers and the injector are
  parameters; \<open>xc_newID\<close> is the id of a new row.
\<close>

section \<open>Context\<close>

record provider_info =
  pv_LaunchCommand :: string
  pv_Enabled :: bool

record taskctx =
  xc_api :: apictx
  xc_provider :: "string \<Rightarrow> provider_info option"
  xc_inject :: "(string \<Rightarrow> string \<Rightarrow> bool) option"
  xc_newID :: pg_uuid

abbreviation xc_ctl :: "taskctx \<Rightarrow> ctlctx" where
  "xc_ctl x \<equiv> pc_ctl (xc_api x)"

definition AllowsSubscriptionAuth :: "provider_info \<Rightarrow> bool" where
  "AllowsSubscriptionAuth p = (pv_LaunchCommand p = ''claude'')"

definition HeadlessCapable :: "provider_info \<Rightarrow> bool" where
  "HeadlessCapable p = (pv_LaunchCommand p = ''claude'' \<or> pv_LaunchCommand p = ''pi'')"

definition providerKeySet :: "'st store_ops \<Rightarrow> 'st \<Rightarrow> string \<Rightarrow> string \<Rightarrow> bool" where
  "providerKeySet S st uid key = (case Get S st (UserProviderPath uid key) of Inl _ \<Rightarrow> False | Inr data \<Rightarrow> data \<noteq> Map.empty)"

text \<open>Why a provider cannot run a task of this user, if so.\<close>

definition provider_refusal :: "'st store_ops \<Rightarrow> taskctx \<Rightarrow> 'st ctl_state \<Rightarrow> string \<Rightarrow> string \<Rightarrow> (nat \<times> string) option" where
  "provider_refusal S x s uid key = (case xc_provider x key of
       None \<Rightarrow> Some (404, ''unknown_provider'')
     | Some p \<Rightarrow>
         (if \<not> pv_Enabled p then Some (404, ''unknown_provider'')
          else if \<not> HeadlessCapable p then Some (400, ''provider_not_headless'')
          else if \<not> AllowsSubscriptionAuth p \<and> \<not> providerKeySet S (tk_store (ga_ts (cs_git s))) uid key then Some (409, ''no_provider_key'')
          else None))"

definition inject_fails :: "taskctx \<Rightarrow> string \<Rightarrow> string \<Rightarrow> bool" where
  "inject_fails x uid mid = (case xc_inject x of None \<Rightarrow> False | Some f \<Rightarrow> \<not> f uid mid)"

definition dispatch_refusal :: "call_error \<Rightarrow> 'r answer" where
  "dispatch_refusal e = (case e of NoChannel \<Rightarrow> Refused 409 ''machine_not_running'' | _ \<Rightarrow> Refused 502 ''dispatch_failed'')"

text \<open>The id of \<open>ParseUUID\<close> with its error dropped.\<close>

definition parsed_uuid :: "ctlctx \<Rightarrow> string \<Rightarrow> pg_uuid" where
  "parsed_uuid k t = (case ParseUUID k t of None \<Rightarrow> zero_uuid | Some i \<Rightarrow> i)"

definition or_keep :: "db \<Rightarrow> db res \<Rightarrow> db" where
  "or_keep d r = (case r of Inl _ \<Rightarrow> d | Inr d' \<Rightarrow> d')"

section \<open>Creating a task\<close>

record create_task_request =
  tq_Prompt :: string
  tq_Provider :: string
  tq_Project :: string

definition dispatch_failed :: finish_task_params where
  "dispatch_failed = \<lparr>fp_Status = ''failed'', fp_SessionID = [], fp_Usage = ''{}'', fp_Summary = [], fp_Error = ''dispatch failed''\<rparr>"

text \<open>From the inserted row on: the dispatch, then the row as running or as failed.\<close>

definition dispatch_task :: "taskctx \<Rightarrow> 'st ctl_state \<Rightarrow> user_row \<Rightarrow> string \<Rightarrow> string \<Rightarrow> create_task_request \<Rightarrow> agent_task \<Rightarrow> 'st ctl_state \<times> string answer" where
  "dispatch_task x s u mid repo q task =
     (case RunAgent (xc_ctl x) s mid (UUIDString (at_ID task)) repo (tq_Prompt q) (tq_Provider q) [] of
        (s1, Inl e) \<Rightarrow> (s1\<lparr>cs_db := or_keep (cs_db s1) (FinishAgentTask (kc_db (xc_ctl x)) (cs_db s1) (at_ID task) dispatch_failed)\<rparr>,
            dispatch_refusal e)
      | (s1, Inr _) \<Rightarrow>
          (let s2 = s1\<lparr>cs_db := or_keep (cs_db s1) (MarkAgentTaskRunning (kc_db (xc_ctl x)) (cs_db s1) (at_ID task))\<rparr>
           in (api_audit (xc_api x) s2 u ''agent.task.run'' (tq_Project q)
                 [(''task_id'', UUIDString (at_ID task)), (''provider'', tq_Provider q)], Handled (UUIDString (at_ID task)))))"

definition handleCreateTask :: "'st store_ops \<Rightarrow> taskctx \<Rightarrow> 'st ctl_state \<Rightarrow> user_row option \<Rightarrow> string \<Rightarrow> create_task_request option
    \<Rightarrow> 'st ctl_state \<times> string answer" where
  "handleCreateTask S x s user path body = authed user s (\<lambda>u. case body of
       None \<Rightarrow> (s, Refused 400 ''bad_request'')
     | Some q \<Rightarrow>
         (if tq_Prompt q = [] \<or> tq_Provider q = [] \<or> tq_Project q = [] then (s, Refused 400 ''bad_request'')
          else on_machine (xc_ctl x) s u path (\<lambda>mid. case provider_refusal S x s (UUIDString (us_ID u)) (tq_Provider q) of
            Some (n, code) \<Rightarrow> (s, Refused n code)
          | None \<Rightarrow> on_project (xc_ctl x) s mid (tq_Project q) (\<lambda>s1 repo.
              if inject_fails x (UUIDString (us_ID u)) mid then (s1, Refused 502 ''injection_failed'')
              else case InsertAgentTask (kc_db (xc_ctl x)) (xc_newID x) (cs_db s1) (parsed_uuid (xc_ctl x) mid)
                     (parsed_uuid (xc_ctl x) (UUIDString (us_ID u))) (tq_Provider q) (tq_Project q) (tq_Prompt q) of
                Inl _ \<Rightarrow> (s1, Refused 500 ''task_create_failed'')
              | Inr (d, task) \<Rightarrow> dispatch_task x (s1\<lparr>cs_db := d\<rparr>) u mid repo q task))))"

section \<open>Reading tasks\<close>

record task_view =
  vw_ID :: string
  vw_Status :: string
  vw_Provider :: string
  vw_Project :: string
  vw_Prompt :: string
  vw_SessionID :: string
  vw_Usage :: "string option"
  vw_ResultSummary :: string
  vw_Error :: string
  vw_CreatedAt :: "nat option"
  vw_StartedAt :: "nat option"
  vw_EndedAt :: "nat option"

definition toTaskView :: "agent_task \<Rightarrow> task_view" where
  "toTaskView t = \<lparr>vw_ID = UUIDString (at_ID t), vw_Status = at_Status t, vw_Provider = at_Provider t, vw_Project = at_Project t,
     vw_Prompt = at_Prompt t, vw_SessionID = at_AgentSessionID t,
     vw_Usage = (if at_Usage t \<noteq> [] \<and> at_Usage t \<noteq> ''{}'' then Some (at_Usage t) else None),
     vw_ResultSummary = at_ResultSummary t, vw_Error = at_Error t, vw_CreatedAt = Some (at_CreatedAt t),
     vw_StartedAt = at_StartedAt t, vw_EndedAt = at_EndedAt t\<rparr>"

definition handleListTasks :: "taskctx \<Rightarrow> 'st ctl_state \<Rightarrow> user_row option \<Rightarrow> string \<Rightarrow> task_view list answer" where
  "handleListTasks x s user path = (case user of
       None \<Rightarrow> Refused 401 ''unauthorized''
     | Some u \<Rightarrow> (case resolveTerminalMachine (xc_ctl x) (cs_db s) u path of
         Inl _ \<Rightarrow> Refused 404 ''no_machine''
       | Inr m \<Rightarrow> (case ListAgentTasksByMachine (kc_db (xc_ctl x)) (cs_db s) (m_ID m) of
           Inl _ \<Rightarrow> Refused 500 ''list_failed''
         | Inr rows \<Rightarrow> Handled (map toTaskView rows))))"

text \<open>The machine and the task a request names, the task being one of that machine.\<close>

definition resolve_task :: "ctlctx \<Rightarrow> db \<Rightarrow> user_row \<Rightarrow> string \<Rightarrow> string \<Rightarrow> string + machine \<times> agent_task" where
  "resolve_task k d u path tid = (case resolveTerminalMachine k d u path of
       Inl _ \<Rightarrow> Inl ''no_machine''
     | Inr m \<Rightarrow> (case ParseUUID k tid of
         None \<Rightarrow> Inl ''no_task''
       | Some i \<Rightarrow> (case GetAgentTask (kc_db k) d i of
           Inl _ \<Rightarrow> Inl ''no_task''
         | Inr t \<Rightarrow> (if UUIDString (at_MachineID t) \<noteq> UUIDString (m_ID m) then Inl ''no_task'' else Inr (m, t)))))"

definition on_task :: "ctlctx \<Rightarrow> 'st ctl_state \<Rightarrow> user_row option \<Rightarrow> string \<Rightarrow> string
    \<Rightarrow> (user_row \<Rightarrow> machine \<Rightarrow> agent_task \<Rightarrow> 'st ctl_state \<times> 'r answer) \<Rightarrow> 'st ctl_state \<times> 'r answer" where
  "on_task k s user path tid f = authed user s (\<lambda>u. case resolve_task k (cs_db s) u path tid of
       Inl code \<Rightarrow> (s, Refused 404 code)
     | Inr (m, t) \<Rightarrow> f u m t)"

definition handleGetTask :: "taskctx \<Rightarrow> 'st ctl_state \<Rightarrow> user_row option \<Rightarrow> string \<Rightarrow> string \<Rightarrow> 'st ctl_state \<times> task_view answer" where
  "handleGetTask x s user path tid = on_task (xc_ctl x) s user path tid (\<lambda>u m t. (s, Handled (toTaskView t)))"

text \<open>The attachment's file name and content.\<close>

definition handleExportTask :: "taskctx \<Rightarrow> 'st ctl_state \<Rightarrow> user_row option \<Rightarrow> string \<Rightarrow> string \<Rightarrow> 'st ctl_state \<times> (string \<times> task_view) answer" where
  "handleExportTask x s user path tid = on_task (xc_ctl x) s user path tid (\<lambda>u m t.
     (s, Handled (''proteos-task-'' @ UUIDString (at_ID t) @ ''.json'', toTaskView t)))"

section \<open>Cancelling and continuing a task\<close>

datatype task_answer = TaskView task_view | Accepted string

definition handleCancelTask :: "taskctx \<Rightarrow> 'st ctl_state \<Rightarrow> user_row option \<Rightarrow> string \<Rightarrow> string \<Rightarrow> 'st ctl_state \<times> task_answer answer" where
  "handleCancelTask x s user path tid = on_task (xc_ctl x) s user path tid (\<lambda>u m t.
     if isTerminalTaskStatus (at_Status t) then (s, Handled (TaskView (toTaskView t)))
     else case CancelAgent (xc_ctl x) s (UUIDString (m_ID m)) (UUIDString (at_ID t)) of
       (s1, Inl e) \<Rightarrow> (s1, dispatch_refusal e)
     | (s1, Inr _) \<Rightarrow> (api_audit (xc_api x) s1 u ''agent.task.cancel'' (UUIDString (at_ID t)) [(''project'', at_Project t)],
         Handled (Accepted (UUIDString (at_ID t)))))"

definition reopen_stream :: "'st ctl_state \<Rightarrow> string \<Rightarrow> 'st ctl_state" where
  "reopen_stream s taskID = (case cs_hub s of None \<Rightarrow> s | Some h \<Rightarrow> s\<lparr>cs_hub := Some (Reopen h taskID)\<rparr>)"

text \<open>The dispatch of a further turn, then the stream and the row of the task.\<close>

definition continue_task :: "taskctx \<Rightarrow> 'st ctl_state \<Rightarrow> user_row \<Rightarrow> string \<Rightarrow> string \<Rightarrow> string \<Rightarrow> agent_task \<Rightarrow> 'st ctl_state \<times> string answer" where
  "continue_task x s u mid repo prompt t =
     (case RunAgent (xc_ctl x) s mid (UUIDString (at_ID t)) repo prompt (at_Provider t) (at_AgentSessionID t) of
        (s1, Inl e) \<Rightarrow> (s1, dispatch_refusal e)
      | (s1, Inr _) \<Rightarrow>
          (let s2 = reopen_stream s1 (UUIDString (at_ID t));
               s3 = s2\<lparr>cs_db := or_keep (cs_db s2) (RestartAgentTask (kc_db (xc_ctl x)) (cs_db s2) (at_ID t) prompt)\<rparr>
           in (api_audit (xc_api x) s3 u ''agent.task.message'' (at_Project t)
                 [(''task_id'', UUIDString (at_ID t)), (''provider'', at_Provider t)], Handled (UUIDString (at_ID t)))))"

text \<open>The body is checked before the machine and the task are looked up.\<close>

definition handleSendMessage :: "'st store_ops \<Rightarrow> taskctx \<Rightarrow> 'st ctl_state \<Rightarrow> user_row option \<Rightarrow> string \<Rightarrow> string \<Rightarrow> string option
    \<Rightarrow> 'st ctl_state \<times> string answer" where
  "handleSendMessage S x s user path tid body = authed user s (\<lambda>u. case body of
       None \<Rightarrow> (s, Refused 400 ''bad_request'')
     | Some prompt \<Rightarrow>
         (if prompt = [] then (s, Refused 400 ''bad_request'')
          else case resolve_task (xc_ctl x) (cs_db s) u path tid of
            Inl code \<Rightarrow> (s, Refused 404 code)
          | Inr (m, t) \<Rightarrow>
              (if at_Status t = ''running'' \<or> at_Status t = ''queued'' then (s, Refused 409 ''task_running'')
               else if at_AgentSessionID t = [] then (s, Refused 409 ''no_session'')
               else case provider_refusal S x s (UUIDString (us_ID u)) (at_Provider t) of
                 Some (n, code) \<Rightarrow> (s, Refused n code)
               | None \<Rightarrow> on_project (xc_ctl x) s (UUIDString (m_ID m)) (at_Project t) (\<lambda>s1 repo.
                   if inject_fails x (UUIDString (us_ID u)) (UUIDString (m_ID m)) then (s1, Refused 502 ''injection_failed'')
                   else continue_task x s1 u (UUIDString (m_ID m)) repo prompt t))))"

section \<open>The event stream of a task\<close>

text \<open>
  What is written to the client: the backlog, then nothing more when it had the end, the result of
  the row when the run was over before, and otherwise the live frames up to the terminal one.
\<close>

datatype sse_event = AgentFrame int string | SynthResult int agent_task

definition frame_event :: "frame \<Rightarrow> sse_event" where
  "frame_event f = AgentFrame (fr_Seq f) (fr_Data f)"

definition last_sent :: "int \<Rightarrow> frame list \<Rightarrow> int" where
  "last_sent n fs = (if fs = [] then n else fr_Seq (last fs))"

fun live_frames :: "int \<Rightarrow> frame list \<Rightarrow> frame list" where
  "live_frames sent [] = []"
| "live_frames sent (f # fs) =
     (if fr_Seq f \<le> sent then live_frames sent fs
      else f # (if fr_Terminal f then [] else live_frames (fr_Seq f) fs))"

definition stream_events :: "agent_task \<Rightarrow> int \<Rightarrow> frame list \<Rightarrow> bool \<Rightarrow> frame list \<Rightarrow> sse_event list" where
  "stream_events t lastSeq backlog terminal live =
     map frame_event backlog
     @ (if terminal then []
        else if isTerminalTaskStatus (at_Status t) then [SynthResult (last_sent lastSeq backlog + 1) t]
        else map frame_event (live_frames (last_sent lastSeq backlog) live))"

text \<open>\<open>handleTaskEvents\<close> up to its subscription: the state, the task, the backlog and whether the run ended.\<close>

definition open_task_events :: "taskctx \<Rightarrow> 'st ctl_state \<Rightarrow> user_row option \<Rightarrow> string \<Rightarrow> string \<Rightarrow> int
    \<Rightarrow> 'st ctl_state \<times> (agent_task \<times> frame list \<times> (nat \<times> int \<times> nat) \<times> bool) option answer" where
  "open_task_events x s user path tid lastSeq = on_task (xc_ctl x) s user path tid (\<lambda>u m t. case cs_hub s of
       None \<Rightarrow> (s, Handled None)
     | Some h \<Rightarrow> (case Hub_Subscribe h (UUIDString (at_ID t)) lastSeq of
         (h', backlog, sub, terminal) \<Rightarrow> (s\<lparr>cs_hub := Some h'\<rparr>, Handled (Some (t, backlog, sub, terminal)))))"

end
