(* ===== verification/Task_System.thy ===== *)
theory Task_System
  imports Agent_Tasks
begin

text \<open>
  The requests of the project and task APIs as one type, with what each sends to the guests and what
  it does to the task table; with them the messages the guests send. A run is any sequence of both.
\<close>

section \<open>Requests\<close>

datatype api_op =
    ReqStatus string string
  | ReqDiff string string string
  | ReqBranch string "branch_request option"
  | ReqCommit string "commit_request option"
  | ReqPush string "push_request option"
  | ReqRepos
  | ReqClone string "(string \<times> string) option"
  | ReqPR string "pr_request option"
  | ReqCreate string "create_task_request option"
  | ReqCancel string string
  | ReqMessage string string "string option"
  | ReqEvents string string int

text \<open>\<open>None\<close>: the handler panics, or lists repositories for ever.\<close>

fun api_exec :: "'st store_ops \<Rightarrow> taskctx \<Rightarrow> user_row option \<Rightarrow> api_op \<Rightarrow> 'st ctl_state \<Rightarrow> 'st ctl_state option" where
  "api_exec S x user (ReqStatus path p) s = Some (fst (handleGitStatus (xc_api x) s user path p))"
| "api_exec S x user (ReqDiff path p staged) s = Some (fst (handleGitDiff (xc_api x) s user path p staged))"
| "api_exec S x user (ReqBranch path q) s = Some (fst (handleGitBranch (xc_api x) s user path q))"
| "api_exec S x user (ReqCommit path q) s = Some (fst (handleGitCommit (xc_api x) s user path q))"
| "api_exec S x user (ReqPush path q) s = Some (fst (handleGitPush (xc_api x) s user path q))"
| "api_exec S x user ReqRepos s = map_option fst (handleGitRepos S (xc_api x) s user)"
| "api_exec S x user (ReqClone mach q) s = Some (fst (handleGitClone (xc_api x) s user mach q))"
| "api_exec S x user (ReqPR path q) s = map_option fst (handleGitPR S (xc_api x) s user path q)"
| "api_exec S x user (ReqCreate path q) s = Some (fst (handleCreateTask S x s user path q))"
| "api_exec S x user (ReqCancel path tid) s = Some (fst (handleCancelTask x s user path tid))"
| "api_exec S x user (ReqMessage path tid q) s = Some (fst (handleSendMessage S x s user path tid q))"
| "api_exec S x user (ReqEvents path tid n) s = Some (fst (open_task_events x s user path tid n))"

section \<open>What is sent\<close>

definition own_machine :: "'st ctl_state \<Rightarrow> user_row \<Rightarrow> string \<Rightarrow> bool" where
  "own_machine s u mid = (\<exists>m \<in> set (t_machines (cs_db s)). UUIDString (m_ID m) = mid \<and> m_UserID m = us_ID u)"

definition list_call :: "string \<Rightarrow> string \<times> string \<times> payload" where
  "list_call mid = (mid, OpProjectsList, Some (JObj []))"

text \<open>A request about a project carries the path of one the machine has just listed.\<close>

definition project_call :: "ctlctx \<Rightarrow> 'st ctl_state \<Rightarrow> string \<Rightarrow> string \<times> string \<times> payload \<Rightarrow> bool" where
  "project_call k s mid c = (\<exists>ps p op kvs. snd (ListProjects k s mid) = Inr ps \<and> p \<in> set ps \<and> c = (mid, op, Some (JObj kvs)) \<and> jstr ''path'' (pj_Path p) \<in> set kvs)"

text \<open>Nothing, a listing, a listing and a request about a project, or one clone or cancel.\<close>

definition calls_of :: "ctlctx \<Rightarrow> 'st ctl_state \<Rightarrow> string \<Rightarrow> (string \<times> string \<times> payload) list \<Rightarrow> bool" where
  "calls_of k s mid new = (new = [] \<or> new = [list_call mid] \<or> (\<exists>c. new = [list_call mid, c] \<and> project_call k s mid c)
     \<or> (\<exists>op pl. new = [(mid, op, pl)] \<and> op \<in> {OpGitClone, OpAgentCancel}))"

definition sends_own :: "ctlctx \<Rightarrow> 'st ctl_state \<Rightarrow> user_row \<Rightarrow> 'st ctl_state \<Rightarrow> bool" where
  "sends_own k s u s' = (\<exists>new. cs_calls s' = cs_calls s @ new
     \<and> (new = [] \<or> (\<exists>mid. own_machine s u mid \<and> HasChannel (cs_mgr s) mid \<and> calls_of k s mid new)))"

lemma sends_none: "cs_calls s' = cs_calls s \<Longrightarrow> sends_own k s u s'"
  by (simp add: sends_own_def)

lemma api_audit_calls [simp]: "cs_calls (api_audit k s u a t m) = cs_calls s" "cs_mgr (api_audit k s u a t m) = cs_mgr s"
  "cs_db (api_audit k s u a t m) = cs_db s" "cs_hub (api_audit k s u a t m) = cs_hub s"
  by (simp_all add: api_audit_def)

lemma fst_decoded [simp]: "fst (decoded f r) = fst r"
  by (auto simp: decoded_def split: prod.split sum.split)

lemma fst_acked [simp]: "fst (acked r) = fst r"
  by (simp add: acked_def)

lemma fst_read_answer [simp]: "fst (read_answer r) = fst r"
  by (auto simp: read_answer_def split: prod.split sum.split call_error.split)

lemma ask_state:
  "fst (ask k s mid op kvs) = (if HasChannel (cs_mgr s) mid then s\<lparr>cs_calls := cs_calls s @ [(mid, op, Some (JObj kvs))]\<rparr> else s)"
  by (simp add: ask_def conn_request_def HasChannel_def)

lemma terminal_owned:
  assumes "resolveTerminalMachine k d u param = Inr m"
  shows "m \<in> set (t_machines d)" "m_UserID m = us_ID u"
proof -
  have "m \<in> set (t_machines d) \<and> m_UserID m = us_ID u"
  proof (cases "param = []")
    case True
    then have "m \<in> set (filter (\<lambda>m. m_UserID m = us_ID u) (t_machines d))"
      using assms by (auto simp: resolveTerminalMachine_def only_machine_def ListMachinesByUserID_def run_query_def
          split: sum.splits list.splits option.splits dest!: arg_cong [of "sort_key _ _" _ set])
    then show ?thesis by simp
  next
    case False
    then show ?thesis
      using assms by (auto simp: resolveTerminalMachine_def GetMachineByID_def run_query_def row_of_def find_machine_def find_Some_iff
          uuidEqual_def pg_uuid.equality split: option.splits sum.splits if_splits)
  qed
  then show "m \<in> set (t_machines d)" "m_UserID m = us_ID u" by simp_all
qed

lemma worktree_owned:
  assumes "resolveWorktreeMachine k s u path = Inr mid"
  shows "own_machine s u mid" "HasChannel (cs_mgr s) mid"
  using assms terminal_owned [of k "cs_db s" u path]
  by (auto simp: resolveWorktreeMachine_def own_machine_def split: sum.splits if_splits)

lemma ListProjects_state: "HasChannel (cs_mgr s) mid \<Longrightarrow> fst (ListProjects k s mid) = s\<lparr>cs_calls := cs_calls s @ [list_call mid]\<rparr>"
  by (simp add: ListProjects_def ask_state list_call_def)

lemma resolveProject_state:
  assumes "resolveProject k s mid name = (s', r)" "HasChannel (cs_mgr s) mid"
  shows "s' = s \<or> s' = s\<lparr>cs_calls := cs_calls s @ [list_call mid]\<rparr>"
    "r = Inr path \<Longrightarrow> s' = s\<lparr>cs_calls := cs_calls s @ [list_call mid]\<rparr> \<and> (\<exists>ps p. snd (ListProjects k s mid) = Inr ps \<and> p \<in> set ps \<and> path = pj_Path p)"
  using assms ListProjects_state [OF assms(2), of k]
  by (auto simp: resolveProject_def find_project_def find_Some_iff split: if_splits prod.splits sum.splits option.splits) (metis nth_mem)

text \<open>After the listing a handler sends at most one request, with the path it was given.\<close>

definition one_verb :: "'st ctl_state \<Rightarrow> string \<Rightarrow> string \<Rightarrow> 'st ctl_state \<Rightarrow> bool" where
  "one_verb s mid repo s' = (cs_calls s' = cs_calls s \<or> (\<exists>op kvs. cs_calls s' = cs_calls s @ [(mid, op, Some (JObj kvs))] \<and> jstr ''path'' repo \<in> set kvs))"

lemma ask_verb: "jstr ''path'' repo \<in> set kvs \<Longrightarrow> one_verb s mid repo (fst (ask k s mid op kvs))"
  by (auto simp: one_verb_def ask_state)

lemma on_project_sends:
  assumes "own_machine s u mid" "HasChannel (cs_mgr s) mid"
    and "\<And>repo s1. one_verb s1 mid repo (fst (f s1 repo))"
  shows "sends_own k s u (fst (on_project k s mid name f))"
proof -
  obtain s1 r where r: "resolveProject k s mid name = (s1, r)" by fastforce
  note st = resolveProject_state [OF r assms(2)]
  show ?thesis
  proof (cases r)
    case (Inl code)
    then show ?thesis using st(1) assms(1,2) r by (auto simp: on_project_def sends_own_def calls_of_def)
  next
    case (Inr repo)
    then have s1: "s1 = s\<lparr>cs_calls := cs_calls s @ [list_call mid]\<rparr>"
      and p: "\<exists>ps p. snd (ListProjects k s mid) = Inr ps \<and> p \<in> set ps \<and> repo = pj_Path p" using st(2) by simp_all
    have fin: "fst (on_project k s mid name f) = fst (f s1 repo)" using Inr r by (simp add: on_project_def)
    show ?thesis
    proof (cases "cs_calls (fst (f s1 repo)) = cs_calls s1")
      case True
      then have "cs_calls (fst (on_project k s mid name f)) = cs_calls s @ [list_call mid]" by (simp add: fin s1)
      moreover have "calls_of k s mid [list_call mid]" by (simp add: calls_of_def)
      ultimately show ?thesis unfolding sends_own_def using assms(1,2) by blast
    next
      case False
      with assms(3) [of s1 repo] obtain op kvs where c: "cs_calls (fst (f s1 repo)) = cs_calls s1 @ [(mid, op, Some (JObj kvs))]"
        "jstr ''path'' repo \<in> set kvs" by (auto simp: one_verb_def)
      then have "cs_calls (fst (on_project k s mid name f)) = cs_calls s @ [list_call mid, (mid, op, Some (JObj kvs))]" by (simp add: fin s1)
      moreover have "project_call k s mid (mid, op, Some (JObj kvs))" unfolding project_call_def using p c(2) by blast
      then have "calls_of k s mid [list_call mid, (mid, op, Some (JObj kvs))]" unfolding calls_of_def by blast
      ultimately show ?thesis unfolding sends_own_def using assms(1,2) by blast
    qed
  qed
qed

lemma on_machine_sends:
  assumes "\<And>mid. own_machine s u mid \<Longrightarrow> HasChannel (cs_mgr s) mid \<Longrightarrow> sends_own k s u (fst (f mid))"
  shows "sends_own k s u (fst (on_machine k s u path f))"
  using assms worktree_owned [of k s u path] by (auto simp: on_machine_def sends_none split: sum.split)

lemma worktree_sends:
  assumes "\<And>mid repo s1. one_verb s1 mid repo (fst (f s1 mid repo))"
  shows "sends_own k s u (fst (gitWorktreeContext k s u path name f))"
  unfolding gitWorktreeContext_def by (intro on_machine_sends on_project_sends assms)

lemma one_verb_case:
  assumes "one_verb s mid repo (fst c)" "\<And>s' r. cs_calls (fst (h s' r)) = cs_calls s'"
  shows "one_verb s mid repo (fst (case c of (s', r) \<Rightarrow> h s' r))"
  using assms by (cases c) (simp add: one_verb_def)

lemma verb_sends:
  assumes "\<And>s1 mid repo. one_verb s1 mid repo (fst (c s1 mid repo))" "\<And>s' r. cs_calls (fst (h s' r)) = cs_calls s'"
  shows "sends_own k s u (fst (gitWorktreeContext k s u path name (\<lambda>s1 mid repo. case c s1 mid repo of (s', r) \<Rightarrow> h s' r)))"
  by (intro worktree_sends one_verb_case assms)

lemma handleGitStatus_sends: "sends_own (pc_ctl k) s u (fst (handleGitStatus k s (Some u) path p))"
  by (auto simp: handleGitStatus_def authed_def Ctl_GitStatus_def intro!: worktree_sends ask_verb)

lemma handleGitDiff_sends: "sends_own (pc_ctl k) s u (fst (handleGitDiff k s (Some u) path p st))"
  by (auto simp: handleGitDiff_def authed_def Ctl_GitDiff_def enc_GitDiff_def intro!: worktree_sends ask_verb)

lemma handleGitBranch_sends: "sends_own (pc_ctl k) s u (fst (handleGitBranch k s (Some u) path q))"
proof -
  have "one_verb s1 mid repo (fst (Ctl_GitBranch (pc_ctl k) s1 mid repo n c f))" for s1 :: "'a ctl_state" and mid repo n c f
    by (simp add: Ctl_GitBranch_def enc_GitBranch_def ask_verb)
  then show ?thesis
    by (auto simp: handleGitBranch_def authed_def sends_none split: option.split sum.split intro!: verb_sends)
qed

lemma handleGitCommit_sends: "sends_own (pc_ctl k) s u (fst (handleGitCommit k s (Some u) path q))"
proof -
  have "one_verb s1 mid repo (fst (Ctl_GitCommit (pc_ctl k) s1 mid repo n ps))" for s1 :: "'a ctl_state" and mid repo n ps
    by (simp add: Ctl_GitCommit_def enc_GitCommit_def ask_verb)
  then show ?thesis
    by (auto simp: handleGitCommit_def authed_def sends_none split: option.split sum.split intro!: verb_sends)
qed

lemma handleGitPush_sends: "sends_own (pc_ctl k) s u (fst (handleGitPush k s (Some u) path q))"
proof -
  have "one_verb s1 mid repo (fst (Ctl_Push (pc_ctl k) s1 mid repo n b i))" for s1 :: "'a ctl_state" and mid repo n b i
    by (simp add: Ctl_Push_def enc_GitPush_def ask_verb)
  then show ?thesis
    by (auto simp: handleGitPush_def authed_def sends_none split: option.split sum.split call_error.split intro!: verb_sends)
qed

lemma sends_one:
  assumes "own_machine s u mid" "op \<in> {OpGitClone, OpAgentCancel}" "cs_calls s' = cs_calls (fst (ask k s mid op kvs))"
  shows "sends_own k s u s'"
  using assms by (auto simp: sends_own_def ask_state calls_of_def split: if_splits)

lemma handleGitClone_sends: "sends_own (pc_ctl k) s u (fst (handleGitClone k s (Some u) mach q))"
proof (cases "clone_target k q")
  case (Inr t)
  obtain hst fn where t: "t = (hst, fn)" by (cases t)
  show ?thesis
  proof (cases "resolveWorktreeMachine (pc_ctl k) s u mach")
    case m: (Inr mid)
    obtain s1 r where c: "Ctl_Clone (pc_ctl k) s mid (clone_url hst fn) (clone_dest fn) (pc_opID k) = (s1, r)" by fastforce
    then have s1: "s1 = fst (ask (pc_ctl k) s mid OpGitClone (enc_GitClone (clone_url hst fn) (clone_dest fn) (pc_opID k)))"
      using fst_acked by (metis Ctl_Clone_def fst_conv)
    have "cs_calls (fst (handleGitClone k s (Some u) mach q)) = cs_calls s1"
      by (simp add: handleGitClone_def authed_def Inr t m c split: sum.split call_error.split)
    then show ?thesis unfolding s1 by (intro sends_one [OF worktree_owned(1) [OF m]]) simp_all
  qed (simp add: handleGitClone_def authed_def Inr t sends_none)
qed (simp add: handleGitClone_def authed_def sends_none)

lemma on_task_owned:
  assumes "resolve_task k d u path tid = Inr (m, t)"
  shows "m \<in> set (t_machines d)" "m_UserID m = us_ID u" "UUIDString (at_MachineID t) = UUIDString (m_ID m)"
    "\<exists>i. ParseUUID k tid = Some i \<and> find_task d i = Some t"
  using assms terminal_owned [of k d u path]
  by (auto simp: resolve_task_def GetAgentTask_def run_query_def row_of_def split: sum.splits option.splits if_splits)

lemma handleCancelTask_sends: "sends_own (xc_ctl x) s u (fst (handleCancelTask x s (Some u) path tid))"
proof (cases "resolve_task (xc_ctl x) (cs_db s) u path tid")
  case (Inr a)
  obtain m t where a: "a = (m, t)" by (cases a)
  have own: "own_machine s u (UUIDString (m_ID m))" using on_task_owned [OF Inr [unfolded a]] by (auto simp: own_machine_def)
  obtain s1 r where c: "CancelAgent (xc_ctl x) s (UUIDString (m_ID m)) (UUIDString (at_ID t)) = (s1, r)" by fastforce
  then have s1: "s1 = fst (ask (xc_ctl x) s (UUIDString (m_ID m)) OpAgentCancel [jstr ''task_id'' (UUIDString (at_ID t))])"
    using fst_acked by (metis CancelAgent_def fst_conv)
  show ?thesis
  proof (cases "isTerminalTaskStatus (at_Status t)")
    case False
    have "cs_calls (fst (handleCancelTask x s (Some u) path tid)) = cs_calls s1"
      by (simp add: handleCancelTask_def on_task_def authed_def Inr a c False split: sum.split)
    then show ?thesis unfolding s1 by (intro sends_one [OF own]) simp_all
  qed (simp add: handleCancelTask_def on_task_def authed_def Inr a sends_none)
qed (simp add: handleCancelTask_def on_task_def authed_def sends_none)

lemma on_project_sends_any:
  assumes "own_machine s u mid" "\<And>repo s1. one_verb s1 mid repo (fst (f s1 repo))"
  shows "sends_own k s u (fst (on_project k s mid name f))"
proof (cases "HasChannel (cs_mgr s) mid")
  case False
  have "fst (resolveProject k s mid name) = s" "\<exists>code. snd (resolveProject k s mid name) = Inl code"
    using False by (auto simp: resolveProject_def ListProjects_def ask_def decoded_def HasChannel_def)
  then show ?thesis by (auto simp: on_project_def sends_none split: prod.split sum.split)
qed (rule on_project_sends [OF assms(1) _ assms(2)])

lemma RunAgent_verb: "one_verb s mid repo (fst (RunAgent k s mid t repo p pr sid))"
  by (simp add: RunAgent_def enc_AgentRun_def ask_verb)

lemma dispatch_verb: "one_verb s mid repo (fst (dispatch_task x s u mid repo q task))"
  using RunAgent_verb [of s mid repo "xc_ctl x" "UUIDString (at_ID task)" "tq_Prompt q" "tq_Provider q" "[]"]
  by (auto simp: dispatch_task_def one_verb_def Let_def split: prod.split sum.split)

lemma reopen_calls [simp]: "cs_calls (reopen_stream s t) = cs_calls s" "cs_db (reopen_stream s t) = cs_db s" "cs_mgr (reopen_stream s t) = cs_mgr s"
  by (auto simp: reopen_stream_def split: option.split)

lemma continue_verb: "one_verb s mid repo (fst (continue_task x s u mid repo p t))"
  using RunAgent_verb [of s mid repo "xc_ctl x" "UUIDString (at_ID t)" p "at_Provider t" "at_AgentSessionID t"]
  by (auto simp: continue_task_def one_verb_def Let_def split: prod.split sum.split)

lemma handleCreateTask_sends: "sends_own (xc_ctl x) s u (fst (handleCreateTask S x s (Some u) path q))"
proof -
  have "one_verb s1 mid repo (fst (case InsertAgentTask c i (cs_db s1) a b pr pj p of
      Inl _ \<Rightarrow> (s1, Refused 500 ''task_create_failed'') | Inr (d, task) \<Rightarrow> dispatch_task x (s1\<lparr>cs_db := d\<rparr>) u mid repo q task))"
    for s1 :: "'a ctl_state" and mid repo c i a b pr pj p q
    using dispatch_verb [where s = "s1\<lparr>cs_db := d\<rparr>" for d] by (auto simp: one_verb_def split: sum.split)
  then have "one_verb s1 mid repo (fst (if fails then (s1, Refused 502 ''injection_failed'') else case InsertAgentTask c i (cs_db s1) a b pr pj p of
      Inl _ \<Rightarrow> (s1, Refused 500 ''task_create_failed'') | Inr (d, task) \<Rightarrow> dispatch_task x (s1\<lparr>cs_db := d\<rparr>) u mid repo q task))"
    for s1 :: "'a ctl_state" and mid repo c i a b pr pj p q fails
    by (simp add: one_verb_def)
  then show ?thesis
    by (auto simp: handleCreateTask_def authed_def sends_none split: option.split intro!: on_machine_sends on_project_sends)
qed

lemma handleSendMessage_sends: "sends_own (xc_ctl x) s u (fst (handleSendMessage S x s (Some u) path tid q))"
proof (cases "resolve_task (xc_ctl x) (cs_db s) u path tid")
  case (Inr a)
  obtain m t where a: "a = (m, t)" by (cases a)
  have own: "own_machine s u (UUIDString (m_ID m))" using on_task_owned [OF Inr [unfolded a]] by (auto simp: own_machine_def)
  have "one_verb s1 mid repo (fst (if fails then (s1, Refused 502 ''injection_failed'') else continue_task x s1 u mid repo p t))"
    for s1 :: "'a ctl_state" and mid repo p fails using continue_verb [of s1 mid repo x u p t] by (simp add: one_verb_def)
  then show ?thesis
    by (auto simp: handleSendMessage_def authed_def Inr a sends_none split: option.split intro!: on_project_sends_any [OF own])
qed (auto simp: handleSendMessage_def authed_def sends_none split: option.split)

lemma handleGitRepos_calls: "handleGitRepos S k s user = Some (s', a) \<Longrightarrow> cs_calls s' = cs_calls s \<and> cs_db s' = cs_db s \<and> cs_hub s' = cs_hub s"
  by (auto simp: handleGitRepos_def Let_def split: option.splits prod.splits sum.splits)

lemma open_events_calls: "cs_calls (fst (open_task_events x s user path tid n)) = cs_calls s \<and> cs_db (fst (open_task_events x s user path tid n)) = cs_db s"
  by (auto simp: open_task_events_def on_task_def authed_def split: option.split sum.split prod.split)

lemma emitMachineEvent_calls: "emitMachineEvent k s mid typ b = Some s' \<Longrightarrow> cs_calls s' = cs_calls s \<and> cs_hub s' = cs_hub s \<and> t_tasks (cs_db s') = t_tasks (cs_db s)"
  by (auto simp: emitMachineEvent_def InsertMachineEvent_def run_query_def Let_def split: option.splits sum.splits if_splits)

lemma provider_pr_state: "provider_pr S k s uid hst owner name q = (s', r) \<Longrightarrow> cs_calls s' = cs_calls s \<and> cs_hub s' = cs_hub s \<and> cs_db s' = cs_db s"
  by (auto simp: provider_pr_def createGitHubPR_def split: if_splits option.splits prod.splits)

lemma handleGitPR_state:
  assumes "handleGitPR S k s (Some u) path q = Some (s', a)"
  shows "(\<exists>mid. resolveWorktreeMachine (pc_ctl k) s u path = Inr mid
      \<and> cs_calls s' = cs_calls (fst (resolveProjectRemote (pc_ctl k) s mid (pq_Project (the q))))) \<or> cs_calls s' = cs_calls s"
    "t_tasks (cs_db s') = t_tasks (cs_db s)"
proof -
  have R: "fst (resolveProjectRemote c s mid n) = s \<or> fst (resolveProjectRemote c s mid n) = fst (ListProjects c s mid)" for c mid n
    by (auto simp: resolveProjectRemote_def split: prod.splits sum.splits)
  have T: "cs_db (fst (resolveProjectRemote c s mid n)) = cs_db s" for c mid n
    using R [of c mid n] by (auto simp: ListProjects_def ask_state)
  have "((\<exists>mid. resolveWorktreeMachine (pc_ctl k) s u path = Inr mid
      \<and> cs_calls s' = cs_calls (fst (resolveProjectRemote (pc_ctl k) s mid (pq_Project (the q))))) \<or> cs_calls s' = cs_calls s)
      \<and> t_tasks (cs_db s') = t_tasks (cs_db s)"
  proof (cases "pr_request_error q")
    case None
    show ?thesis
    proof (cases "resolveWorktreeMachine (pc_ctl k) s u path")
      case (Inr mid)
      obtain s1 rr where s1: "resolveProjectRemote (pc_ctl k) s mid (pq_Project (the q)) = (s1, rr)" by fastforce
      have "cs_calls s' = cs_calls s1 \<and> t_tasks (cs_db s') = t_tasks (cs_db s1)"
        using assms None Inr s1 by (auto simp: handleGitPR_def pr_created_def dest!: provider_pr_state emitMachineEvent_calls
            split: sum.splits option.splits prod.splits)
      with s1 T [of "pc_ctl k" mid "pq_Project (the q)"] Inr show ?thesis by auto
    qed (use assms None in \<open>auto simp: handleGitPR_def\<close>)
  qed (use assms in \<open>auto simp: handleGitPR_def\<close>)
  then show "(\<exists>mid. resolveWorktreeMachine (pc_ctl k) s u path = Inr mid
      \<and> cs_calls s' = cs_calls (fst (resolveProjectRemote (pc_ctl k) s mid (pq_Project (the q))))) \<or> cs_calls s' = cs_calls s"
    "t_tasks (cs_db s') = t_tasks (cs_db s)" by blast+
qed

lemma handleGitPR_sends:
  assumes "handleGitPR S k s (Some u) path q = Some (s', a)"
  shows "sends_own (pc_ctl k) s u s'"
proof -
  have "fst (resolveProjectRemote c s mid n) = s \<or> fst (resolveProjectRemote c s mid n) = fst (ListProjects c s mid)" for c mid n
    by (auto simp: resolveProjectRemote_def split: prod.splits sum.splits)
  moreover have "sends_own (pc_ctl k) s u s'"
    if "cs_calls s' = cs_calls (fst (ListProjects (pc_ctl k) s mid))" "resolveWorktreeMachine (pc_ctl k) s u path = Inr mid" for mid
    using worktree_owned [OF that(2)] that(1) ListProjects_state [of s mid "pc_ctl k"]
    by (auto simp: sends_own_def calls_of_def)
  ultimately show ?thesis using handleGitPR_state(1) [OF assms] sends_none by metis
qed

lemma api_exec_sends:
  assumes "api_exec S x (Some u) op s = Some s'"
  shows "sends_own (xc_ctl x) s u s'"
proof (cases op)
  case ReqRepos
  with assms show ?thesis by (auto dest!: handleGitRepos_calls intro: sends_none)
next
  case (ReqPR path q)
  with assms show ?thesis by (auto intro: handleGitPR_sends)
next
  case (ReqEvents path tid n)
  with assms open_events_calls [of x s "Some u" path tid n] show ?thesis by (auto intro: sends_none)
qed (use assms in \<open>auto simp: handleGitStatus_sends handleGitDiff_sends handleGitBranch_sends handleGitCommit_sends handleGitPush_sends
      handleGitClone_sends handleCreateTask_sends handleCancelTask_sends handleSendMessage_sends\<close>)

end
