(* ===== verification/Task_Lifecycle.thy ===== *)
theory Task_Lifecycle
  imports Task_System
begin

text \<open>
  What requests and guest messages do to the task table: its invariant, that no task is lost or
  changes owner, and that a finished task changes only by its own continuation or its own result.
\<close>

section \<open>Steps of the task table\<close>

definition final_kept :: "pg_uuid set \<Rightarrow> db \<Rightarrow> db \<Rightarrow> bool" where
  "final_kept T d d' = (\<forall>t r. t \<notin> T \<and> find_task d t = Some r \<and> isTerminalTaskStatus (at_Status r) \<longrightarrow> find_task d' t = Some r)"

definition task_step :: "pg_uuid set \<Rightarrow> db \<Rightarrow> db \<Rightarrow> bool" where
  "task_step T d d' = (tasks_ok d \<longrightarrow> tasks_ok d' \<and> tasks_kept d d' \<and> final_kept T d d')"

lemma task_step_same: "t_tasks d' = t_tasks d \<Longrightarrow> task_step T d d'"
  by (simp add: task_step_def final_kept_def tasks_ok_def tasks_kept_def find_task_def)

lemma task_step_trans: "task_step T a b \<Longrightarrow> task_step T b c \<Longrightarrow> task_step T a c"
  unfolding task_step_def final_kept_def using tasks_kept_trans by blast

lemma task_step_mono: "task_step T a b \<Longrightarrow> T \<subseteq> T' \<Longrightarrow> task_step T' a b"
  by (auto simp: task_step_def final_kept_def)

lemma final_kept_update:
  assumes "\<And>r. at_ID (f r) = at_ID r" "\<And>r. isTerminalTaskStatus (at_Status r) \<Longrightarrow> t \<notin> T \<Longrightarrow> f r = r"
  shows "final_kept T d (update_task d t f)"
  unfolding final_kept_def using assms(2) by (auto simp: find_update_task [of f, OF assms(1)])

lemma step_Mark: "task_step T d (or_keep d (MarkAgentTaskRunning c d t))"
proof (cases "MarkAgentTaskRunning c d t")
  case (Inr d')
  then have "final_kept T d d'"
    unfolding MarkAgentTaskRunning_def run_query_def
    by (auto split: option.splits intro!: final_kept_update simp: isTerminalTaskStatus_def)
  with MarkAgentTaskRunning_ok [OF _ Inr] show ?thesis by (simp add: task_step_def or_keep_def Inr)
qed (simp add: or_keep_def task_step_same)

lemma step_Restart: "task_step {t} d (or_keep d (RestartAgentTask c d t p))"
proof (cases "RestartAgentTask c d t p")
  case (Inr d')
  then have "final_kept {t} d d'"
    unfolding RestartAgentTask_def run_query_def by (auto split: option.splits intro!: final_kept_update)
  with RestartAgentTask_ok [OF _ Inr] show ?thesis by (simp add: task_step_def or_keep_def Inr)
qed (simp add: or_keep_def task_step_same)

lemma step_Finish:
  assumes "isTerminalTaskStatus (fp_Status p)"
  shows "task_step {t} d (or_keep d (FinishAgentTask c d t p))"
proof (cases "FinishAgentTask c d t p")
  case (Inr d')
  then have "final_kept {t} d d'"
    unfolding FinishAgentTask_def run_query_def by (auto split: option.splits if_splits intro!: final_kept_update simp: finished_def)
  with FinishAgentTask_ok [OF _ Inr assms] show ?thesis by (simp add: task_step_def or_keep_def Inr)
qed (simp add: or_keep_def task_step_same)

lemma step_Insert:
  assumes "InsertAgentTask c i d mach user provider proj prompt = Inr (d', r)" "task_step {i} d' d''"
  shows "task_step T d d''"
  unfolding task_step_def
proof
  assume ok: "tasks_ok d"
  note ins = InsertAgentTask_ok [OF ok assms(1)] InsertAgentTask_row [OF assms(1)]
  then have step: "tasks_ok d''" "tasks_kept d' d''" "final_kept {i} d' d''" using assms(2) by (simp_all add: task_step_def)
  have "final_kept T d d''"
    unfolding final_kept_def
  proof (intro allI impI)
    fix t s assume a: "t \<notin> T \<and> find_task d t = Some s \<and> isTerminalTaskStatus (at_Status s)"
    then have "t \<noteq> i" "find_task d' t = Some s" using ins by (auto simp: find_task_new)
    with a step(3) show "find_task d'' t = Some s" by (auto simp: final_kept_def)
  qed
  with step ins show "tasks_ok d'' \<and> tasks_kept d d'' \<and> final_kept T d d''" using tasks_kept_trans by blast
qed

section \<open>Handlers\<close>

lemma fst_ask_db [simp]: "cs_db (fst (ask k s mid op kvs)) = cs_db s" "cs_hub (fst (ask k s mid op kvs)) = cs_hub s"
  by (simp_all add: ask_state)

lemma requests_db [simp]:
  "cs_db (fst (ListProjects k s mid)) = cs_db s" "cs_db (fst (Ctl_GitStatus k s mid p)) = cs_db s" "cs_db (fst (Ctl_GitDiff k s mid p st)) = cs_db s"
  "cs_db (fst (Ctl_GitBranch k s mid p n c f)) = cs_db s" "cs_db (fst (Ctl_GitCommit k s mid p msg ps)) = cs_db s"
  "cs_db (fst (Ctl_Push k s mid p b su i)) = cs_db s" "cs_db (fst (Ctl_Clone k s mid u dst i)) = cs_db s"
  "cs_db (fst (RunAgent k s mid t p pr pv si)) = cs_db s" "cs_db (fst (CancelAgent k s mid t)) = cs_db s"
  by (simp_all add: ListProjects_def Ctl_GitStatus_def Ctl_GitDiff_def Ctl_GitBranch_def Ctl_GitCommit_def Ctl_Push_def Ctl_Clone_def
      RunAgent_def CancelAgent_def)

lemma db_of: "c = (s', r) \<Longrightarrow> cs_db (fst c) = d \<Longrightarrow> cs_db s' = d"
  by simp

lemma resolveProject_db: "cs_db (fst (resolveProject k s mid n)) = cs_db s"
  by (auto simp: resolveProject_def split: prod.split sum.split option.split dest: db_of [OF _ requests_db(1)])

lemma on_project_db:
  assumes "\<And>s1 repo. cs_db s1 = cs_db s \<Longrightarrow> task_step T (cs_db s) (cs_db (fst (f s1 repo)))"
  shows "task_step T (cs_db s) (cs_db (fst (on_project k s mid name f)))"
  by (auto simp: on_project_def intro!: assms split: prod.splits sum.split dest!: db_of [OF _ resolveProject_db]) (simp add: task_step_same)

lemma on_machine_db:
  assumes "\<And>mid. task_step T (cs_db s) (cs_db (fst (f mid)))"
  shows "task_step T (cs_db s) (cs_db (fst (on_machine k s u path f)))"
  using assms by (auto simp: on_machine_def task_step_same split: sum.split)

lemma verb_db:
  assumes "\<And>s1 mid repo. cs_db (fst (c s1 mid repo)) = cs_db s1" "\<And>s' r. cs_db (fst (h s' r)) = cs_db s'"
  shows "task_step T (cs_db s) (cs_db (fst (gitWorktreeContext k s u path name (\<lambda>s1 mid repo. case c s1 mid repo of (s', r) \<Rightarrow> h s' r))))"
  unfolding gitWorktreeContext_def
  by (intro on_machine_db on_project_db task_step_same) (use assms in \<open>metis (mono_tags, lifting) case_prod_conv prod.collapse\<close>)

lemma dispatch_step: "task_step {at_ID task} (cs_db s) (cs_db (fst (dispatch_task x s u mid repo q task)))"
proof -
  obtain s1 r where r: "RunAgent (xc_ctl x) s mid (UUIDString (at_ID task)) repo (tq_Prompt q) (tq_Provider q) [] = (s1, r)" by fastforce
  then have s1: "cs_db s1 = cs_db s" using requests_db(8) by (metis fst_conv)
  have "isTerminalTaskStatus (fp_Status dispatch_failed)" by (simp add: dispatch_failed_def isTerminalTaskStatus_def)
  then show ?thesis by (cases r) (simp_all add: dispatch_task_def r s1 step_Finish step_Mark Let_def)
qed

lemma handleCreateTask_step: "task_step T (cs_db s) (cs_db (fst (handleCreateTask S x s user path q)))"
proof -
  have D: "task_step T (cs_db s) (cs_db (fst (case InsertAgentTask c i (cs_db s) a b pr pj p of
      Inl _ \<Rightarrow> (s1, Refused 500 ''task_create_failed'') | Inr (d, task) \<Rightarrow> dispatch_task x (s1\<lparr>cs_db := d\<rparr>) u mid repo q task)))"
    if "cs_db s1 = cs_db s" for s1 mid repo c i a b pr pj p u q
  proof (cases "InsertAgentTask c i (cs_db s) a b pr pj p")
    case (Inr dt)
    obtain d task where dt: "dt = (d, task)" by (cases dt)
    then have ins: "InsertAgentTask c i (cs_db s) a b pr pj p = Inr (d, task)" using Inr that by simp
    then have "at_ID task = i" by (rule InsertAgentTask_row(4))
    with dispatch_step [of task "s1\<lparr>cs_db := d\<rparr>" x u mid repo q]
    have "task_step {i} d (cs_db (fst (dispatch_task x (s1\<lparr>cs_db := d\<rparr>) u mid repo q task)))" by simp
    from step_Insert [OF ins this, of T] show ?thesis by (simp add: Inr dt)
  qed (simp add: that task_step_same)
  show ?thesis
    unfolding handleCreateTask_def authed_def
    by (auto simp: task_step_same split: option.split intro!: on_machine_db on_project_db D)
qed

lemma continue_step: "task_step {at_ID t} (cs_db s) (cs_db (fst (continue_task x s u mid repo p t)))"
proof -
  obtain s1 r where r: "RunAgent (xc_ctl x) s mid (UUIDString (at_ID t)) repo p (at_Provider t) (at_AgentSessionID t) = (s1, r)" by fastforce
  then have s1: "cs_db s1 = cs_db s" using requests_db(8) by (metis fst_conv)
  show ?thesis by (cases r) (simp_all add: continue_task_def r s1 step_Restart task_step_same Let_def)
qed

text \<open>The tasks a request or a message may finish again.\<close>

fun op_touches :: "taskctx \<Rightarrow> api_op \<Rightarrow> pg_uuid set" where
  "op_touches x (ReqMessage path tid q) = {t. ParseUUID (xc_ctl x) tid = Some t}"
| "op_touches x _ = {}"

lemma handleSendMessage_step:
  "task_step (op_touches x (ReqMessage path tid q)) (cs_db s) (cs_db (fst (handleSendMessage S x s user path tid q)))"
proof (cases user)
  case (Some u)
  show ?thesis
  proof (cases "resolve_task (xc_ctl x) (cs_db s) u path tid")
    case (Inr a)
    obtain m t where a: "a = (m, t)" by (cases a)
    obtain i where i: "ParseUUID (xc_ctl x) tid = Some i" "find_task (cs_db s) i = Some t"
      using on_task_owned(4) [OF Inr [unfolded a]] by blast
    then have "at_ID t = i" using find_task_Some by blast
    then have C: "task_step (op_touches x (ReqMessage path tid q)) (cs_db s) (cs_db (fst (continue_task x s1 u mid repo p t)))"
      if "cs_db s1 = cs_db s" for s1 mid repo p
      using continue_step [of t s1 x u mid repo p] i(1) that by simp
    show ?thesis
      using C by (auto simp: handleSendMessage_def authed_def Some Inr a task_step_same split: option.split intro!: on_project_db)
  qed (auto simp: handleSendMessage_def authed_def Some task_step_same split: option.split)
qed (simp add: handleSendMessage_def authed_def task_step_same)

lemma handleCancelTask_db: "cs_db (fst (handleCancelTask x s user path tid)) = cs_db s"
  by (auto simp: handleCancelTask_def on_task_def authed_def split: option.split sum.split prod.split dest: db_of [OF _ requests_db(9)])

lemma handleGitClone_db: "cs_db (fst (handleGitClone k s user mach q)) = cs_db s"
  by (auto simp: handleGitClone_def authed_def split: option.split sum.split prod.split call_error.split dest: db_of [OF _ requests_db(7)])

lemma worktree_db:
  assumes "\<And>s1 mid repo. cs_db (fst (f s1 mid repo)) = cs_db s1"
  shows "task_step T (cs_db s) (cs_db (fst (gitWorktreeContext k s u path name f)))"
  unfolding gitWorktreeContext_def by (intro on_machine_db on_project_db task_step_same) (simp add: assms)

lemma git_verbs_db:
  "task_step T (cs_db s) (cs_db (fst (handleGitStatus k s user path p)))" "task_step T (cs_db s) (cs_db (fst (handleGitDiff k s user path p st)))"
  and git_changes_db:
  "task_step T (cs_db s) (cs_db (fst (handleGitBranch k s user path bq)))" "task_step T (cs_db s) (cs_db (fst (handleGitCommit k s user path cq)))"
  "task_step T (cs_db s) (cs_db (fst (handleGitPush k s user path sq)))"
  by (auto simp: handleGitStatus_def handleGitDiff_def authed_def task_step_same split: option.split intro!: worktree_db)
    (auto simp: handleGitBranch_def handleGitCommit_def handleGitPush_def authed_def task_step_same
      split: option.split sum.split call_error.split intro!: verb_db)

lemma api_exec_step:
  assumes "api_exec S x user op s = Some s'"
  shows "task_step (op_touches x op) (cs_db s) (cs_db s')"
proof (cases op)
  case ReqRepos
  with assms show ?thesis by (auto dest!: handleGitRepos_calls intro: task_step_same)
next
  case (ReqPR path q)
  show ?thesis
  proof (cases user)
    case (Some u)
    with ReqPR assms obtain a where "handleGitPR S (xc_api x) s (Some u) path q = Some (s', a)" by auto
    then show ?thesis by (intro task_step_same handleGitPR_state(2))
  qed (use ReqPR assms in \<open>auto simp: handleGitPR_def intro: task_step_same\<close>)
next
  case (ReqClone mach q)
  with assms show ?thesis by (auto simp: handleGitClone_db task_step_same)
next
  case (ReqCancel path tid)
  with assms show ?thesis by (auto simp: handleCancelTask_db task_step_same)
next
  case (ReqMessage path tid q)
  with assms handleSendMessage_step [of x path tid q s S user] show ?thesis by auto
next
  case (ReqEvents path tid n)
  with assms open_events_calls [of x s user path tid n] show ?thesis by (auto intro: task_step_same)
next
  case (ReqCreate path q)
  with assms handleCreateTask_step show ?thesis by auto
qed (use assms git_verbs_db git_changes_db in auto)

section \<open>Messages of the guests\<close>

lemma done_terminal [simp]: "isTerminalTaskStatus (fp_Status (finish_params k d))"
  by (simp add: finish_params_def done_status_def isTerminalTaskStatus_def)

definition done_touches :: "ctlctx \<Rightarrow> string \<Rightarrow> payload \<Rightarrow> pg_uuid set" where
  "done_touches k op pl = (if op = OpAgentDone then {t. \<exists>d. dec_payload dec_AgentDone pl = Some d \<and> ParseUUID k (ad_TaskID d) = Some t} else {})"

lemma record_done_tasks: "record_done k s typ mid pl = Some s' \<Longrightarrow> t_tasks (cs_db s') = t_tasks (cs_db s)"
  by (auto simp: record_done_def InsertMachineEvent_def run_query_def Let_def split: option.splits sum.splits if_splits)

lemma agent_done_step:
  assumes "handleAgentDone k s pl = Some s'"
  shows "task_step (done_touches k OpAgentDone pl) (cs_db s) (cs_db s')"
proof (cases "dec_payload dec_AgentDone pl")
  case (Some d)
  show ?thesis
  proof (cases "ad_TaskID d = []")
    case False
    with assms Some have "cs_db s' = record_agent_done k (cs_db s) d"
      by (auto simp: handleAgentDone_def publishTaskResult_def split: option.splits)
    moreover have "task_step (done_touches k OpAgentDone pl) (cs_db s) (record_agent_done k (cs_db s) d)"
    proof (cases "ParseUUID k (ad_TaskID d)")
      case t: (Some t)
      have "task_step {t} (cs_db s) (or_keep (cs_db s) (FinishAgentTask (kc_db k) (cs_db s) t (finish_params k d)))"
        by (rule step_Finish) simp
      moreover have "record_agent_done k (cs_db s) d = or_keep (cs_db s) (FinishAgentTask (kc_db k) (cs_db s) t (finish_params k d))"
        by (simp add: record_agent_done_def or_keep_def t)
      moreover have "{t} \<subseteq> done_touches k OpAgentDone pl" using t Some by (simp add: done_touches_def)
      ultimately show ?thesis using task_step_mono by metis
    qed (simp add: record_agent_done_def task_step_same)
    ultimately show ?thesis by simp
  qed (use assms Some in \<open>auto simp: handleAgentDone_def task_step_same\<close>)
qed (use assms in \<open>auto simp: handleAgentDone_def task_step_same\<close>)

lemma agent_event_db: "handleAgentEvent k s pl = Some s' \<Longrightarrow> cs_db s' = cs_db s"
  by (auto simp: handleAgentEvent_def split: option.splits if_splits)

lemma makeHandler_step:
  assumes "makeHandler S k cfg mid uid op pl s = Some (s', r)"
  shows "task_step (done_touches k op pl) (cs_db s) (cs_db s')"
proof -
  have names: "(OpAgentDone = OpGitCredential) = False" "(OpAgentDone = OpGitCloneDone) = False" "(OpAgentDone = OpGitPushDone) = False"
    "(OpAgentDone = OpAgentEvent) = False" by (simp_all add: ops)
  show ?thesis
  proof (cases "op = OpAgentDone")
    case True
    then have "handleAgentDone k s pl = Some s'" using assms by (simp add: makeHandler_def Let_def names split: option.splits)
    then show ?thesis using agent_done_step True by blast
  next
    case False
    have "t_tasks (cs_db s') = t_tasks (cs_db s)"
    proof (cases "op = OpGitCredential")
      case True
      obtain g c where "handleCredential S k cfg (cs_git s) uid pl = (g, c)" by fastforce
      with assms True have "s' = s\<lparr>cs_git := g\<rparr>" by (simp add: makeHandler_def)
      then show ?thesis by simp
    next
      case not_cred: False
      consider "handleCloneDone k s mid pl = Some s'" | "handlePushDone k s mid pl = Some s'" | "handleAgentEvent k s pl = Some s'" | "s' = s"
        using assms False not_cred unfolding makeHandler_def Let_def by (auto split: if_splits)
      then show ?thesis
        by cases (auto simp: handleCloneDone_def handlePushDone_def dest: record_done_tasks agent_event_db)
    qed
    then show ?thesis by (rule task_step_same)
  qed
qed

section \<open>Runs\<close>

text \<open>A request of a user, or a message on the channel of a machine, each in its own world.\<close>

datatype sys_event =
    Api taskctx "user_row option" api_op
  | Msg ctlctx ctl_config string string string payload

fun sys_exec :: "'st store_ops \<Rightarrow> 'st ctl_state \<Rightarrow> sys_event \<Rightarrow> 'st ctl_state option" where
  "sys_exec S s (Api x user op) = api_exec S x user op s"
| "sys_exec S s (Msg k cfg mid uid op pl) = map_option fst (makeHandler S k cfg mid uid op pl s)"

fun sys_run :: "'st store_ops \<Rightarrow> 'st ctl_state \<Rightarrow> sys_event list \<Rightarrow> 'st ctl_state option" where
  "sys_run S s [] = Some s"
| "sys_run S s (e # es) = (case sys_exec S s e of None \<Rightarrow> None | Some s' \<Rightarrow> sys_run S s' es)"

fun event_touches :: "sys_event \<Rightarrow> pg_uuid set" where
  "event_touches (Api x user op) = op_touches x op"
| "event_touches (Msg k cfg mid uid op pl) = done_touches k op pl"

lemma sys_exec_step: "sys_exec S s e = Some s' \<Longrightarrow> task_step (event_touches e) (cs_db s) (cs_db s')"
  by (cases e) (auto intro: api_exec_step makeHandler_step)

lemma sys_run_step:
  "sys_run S s es = Some s' \<Longrightarrow> (\<And>e. e \<in> set es \<Longrightarrow> event_touches e \<subseteq> T) \<Longrightarrow> task_step T (cs_db s) (cs_db s')"
proof (induction es arbitrary: s)
  case (Cons e es)
  then obtain s1 where s1: "sys_exec S s e = Some s1" "sys_run S s1 es = Some s'" by (auto split: option.splits)
  have "task_step T (cs_db s) (cs_db s1)" using sys_exec_step [OF s1(1)] Cons.prems(2) by (auto intro: task_step_mono)
  moreover have "task_step T (cs_db s1) (cs_db s')" by (rule Cons.IH [OF s1(2)]) (use Cons.prems(2) in auto)
  ultimately show ?case by (rule task_step_trans)
qed (simp add: task_step_same)

end
