(* ===== verification/Channel_Claims.thy ===== *)
theory Channel_Claims
  imports Git_Connect_Claims Ctl_Manager
begin

text \<open>
  What the control channels of the machines promise: whose credentials they release, which
  connection a request takes, and that a request has the guest do what was asked.
\<close>

section \<open>Credentials released over a channel\<close>

lemma HostCredential_origin:
  assumes "git_ok sinv ts" "ctx_ok k" "proper_uuid u" "HostCredential S k ts (UUIDString u) h = Inr (login, pat)"
  shows "\<exists>data. Get S (tk_store ts) (UserGitHostPath (UUIDString u) (ToLower h)) = Inr data
    \<and> login = fld data GitHostFieldLogin \<and> pat = fld data GitHostFieldToken \<and> login \<noteq> [] \<and> pat \<noteq> []"
proof -
  obtain l where l: "GetGitHostLink (kx_stmt k) (tk_db ts) u (ToLower h) = Inr l"
    using assms(2-4) unfolding HostCredential_def ctx_ok_def by (auto split: sum.splits)
  then have "l \<in> set (ld_hosts (tk_db ts))" "host_key u (ToLower h) l"
    by (auto simp: GetGitHostLink_def run_stmt_def row_of_def find_Some_iff split: option.splits)
  then have "gh_SecretRef l = UserGitHostPath (UUIDString u) (ToLower h)"
    using assms(1) by (auto simp: git_ok_def links_ok_def host_key_def)
  with l assms(2-4) show ?thesis unfolding HostCredential_def ctx_ok_def by (auto split: sum.splits if_splits)
qed

lemma ToLower_idem: "ToLower (ToLower s) = ToLower s"
proof -
  have "lower_byte (lower_byte c) = lower_byte c" for c
    by (cases c) (simp add: lower_byte_def)
  then show ?thesis by (simp add: ToLower_def)
qed

text \<open>Where a released credential comes from, in the state of the request.\<close>

lemma credential_origin:
  assumes "git_ok sinv ts" "ctx_ok (kc_tok k)" "proper_uuid u" "resolve_credential S k cfg ts (UUIDString u) (ToLower h) = (ts', Inr c)"
  shows "ToLower h = cg_gitHost cfg \<and> cd_Username c = ''x-access-token'' \<and> (\<exists>cr. Token S (kc_tok k) ts (UUIDString u) = (ts', Inr cr) \<and> cd_Password c = cr_AccessToken cr)
    \<or> ToLower h \<in> set (cg_publicHosts cfg) \<and> HostCredential S (kc_tok k) ts (UUIDString u) (ToLower h) = Inr (cd_Username c, cd_Password c)"
  using assms(4) by (auto simp: resolve_credential_def reply_error_def split: if_splits prod.splits sum.splits)

text \<open>What a released pair may be: the GitHub token or the host token stored for the user, or GitHub's answer to the user's refresh token.\<close>

definition own_github_token :: "'st store_ops \<Rightarrow> tokenctx \<Rightarrow> 'st token_source \<Rightarrow> pg_uuid \<Rightarrow> string \<Rightarrow> bool" where
  "own_github_token S k ts u a = (\<exists>data. Get S (tk_store ts) (UserGitHubPath (UUIDString u)) = Inr data \<and> (a = fld data fieldAccessToken
     \<or> (\<exists>t. gh_Refresh (kx_gh k) (tk_client ts) (fld data fieldRefreshToken) = Inr t \<and> a = gt_AccessToken t)))"

definition own_host_pair :: "'st store_ops \<Rightarrow> 'st token_source \<Rightarrow> pg_uuid \<Rightarrow> string \<Rightarrow> git_credential \<Rightarrow> bool" where
  "own_host_pair S ts u h c = (\<exists>data. Get S (tk_store ts) (UserGitHostPath (UUIDString u) h) = Inr data
     \<and> cd_Username c = fld data GitHostFieldLogin \<and> cd_Password c = fld data GitHostFieldToken)"

lemma own_same:
  assumes "same_creds S u ts ts'"
  shows "own_github_token S k ts' u a = own_github_token S k ts u a" "own_host_pair S ts' u h c = own_host_pair S ts u h c"
  using assms by (simp_all add: own_github_token_def own_host_pair_def same_creds_def same_secrets_def)

text \<open>
  C26. A channel releases only its owner's credentials, and only to the configured hosts. Whatever
  other users have done, when the handler of a channel of a user's machine answers \<open>git.credential\<close>
  with a credential, the guest has asked for https and, for the GitHub host, the password is the
  access token stored for this very user or GitHub's answer to this user's refresh token, and, for
  an allowlisted host, the pair stored for this user and that host. The release is in the audit log
  unless the log could not be written.
\<close>

theorem channel_credentials_own:
  assumes "secret_store S sinv" "git_ok sinv (ga_ts s)" "list_all event_ok evs" "proper_uuid u"
    "list_all (\<lambda>e. event_user (snd e) \<noteq> u) evs" "ctx_ok (kc_tok k)" "cs_git st = git_run S s evs"
    "handleCredential S k cfg (cs_git st) (UUIDString u) pl = (s', Inr c)"
  shows "\<exists>h. dec_payload dec_CredentialRequest pl = Some (h, ''https'')
    \<and> (ToLower h = cg_gitHost cfg \<and> cd_Username c = ''x-access-token'' \<and> own_github_token S (kc_tok k) (ga_ts s) u (cd_Password c)
       \<or> ToLower h \<in> set (cg_publicHosts cfg) \<and> own_host_pair S (ga_ts s) u (ToLower h) c)
    \<and> (ac_fault (kx_stmt (kc_tok k)) ''InsertAuditLog'' = None
       \<longrightarrow> ga_audit s' = ga_audit (cs_git st) @ [credential_entry (UUIDString u) (ToLower h)])"
proof -
  let ?ts = "ga_ts (git_run S s evs)"
  have ok: "git_ok sinv ?ts" by (rule secret_store.run_ok [OF assms(1-3)])
  have same: "same_creds S u (ga_ts s) ?ts" by (rule secret_store.run_isolated [OF assms(1-5)])
  obtain h ts' where h: "dec_payload dec_CredentialRequest pl = Some (h, ''https'')"
    and r: "resolve_credential S k cfg ?ts (UUIDString u) (ToLower h) = (ts', Inr c)"
    and s': "s' = git_audit (kc_tok k) (git_run S s evs\<lparr>ga_ts := ts'\<rparr>) (credential_entry (UUIDString u) (ToLower h))"
    using assms(7,8) by (auto simp: handleCredential_def reply_error_def split: option.splits if_splits prod.splits sum.splits)
  have "ToLower h = cg_gitHost cfg \<and> cd_Username c = ''x-access-token'' \<and> own_github_token S (kc_tok k) ?ts u (cd_Password c)
      \<or> ToLower h \<in> set (cg_publicHosts cfg) \<and> own_host_pair S ?ts u (ToLower h) c"
    using credential_origin [OF ok assms(6,4) r] Token_origin [OF ok assms(6,4)] HostCredential_origin [OF ok assms(6,4), where h = "ToLower h"]
    unfolding own_github_token_def own_host_pair_def ToLower_idem by metis
  with h own_same [OF same] s' assms(7) show ?thesis by (auto simp: git_audit_def)
qed

text \<open>A world for the properties: one machine of user 1, a guest that acknowledges everything.\<close>

definition ex_dbctx :: dbctx where "ex_dbctx = \<lparr>fault = (\<lambda>_. None), now = (\<lambda>_. 0)\<rparr>"

definition ex_ctlctx :: "(string \<Rightarrow> string \<Rightarrow> payload \<Rightarrow> call_error + payload) \<Rightarrow> ctlctx" where
  "ex_ctlctx guest = \<lparr>kc_tok = ex_kctx 0 ex_pair, kc_db = ex_dbctx, kc_marshal = (\<lambda>_. []), kc_event = (\<lambda>_. []), kc_float = (\<lambda>_. ''0''), kc_guest = guest\<rparr>"

definition ex_ctl_state :: "mem_state ctl_state" where
  "ex_ctl_state = \<lparr>cs_git = ex_gits, cs_db = \<lparr>t_machines = [], t_events = [], t_event_seq = 0, t_disks = [], t_snapshots = [], t_policies = [],
     t_hosts = [], t_tasks = []\<rparr>, cs_broker = NewBroker, cs_hub = Some (NewHub 10 0), cs_mgr = new_mgr, cs_calls = []\<rparr>"

definition ex_cred_fields :: "(string \<times> json) list" where
  "ex_cred_fields = [jstr ''host'' ''github.com'', jstr ''protocol'' ''https'']"

lemma ex_cred_request: "dec_payload dec_CredentialRequest (Some (JObj ex_cred_fields)) = Some (''github.com'', ''https'')"
  by (simp add: dec_payload_def dec_struct_def dec_CredentialRequest_def opt_map2_def dec_str_def dec_field_def field_vals_def
      ex_cred_fields_def jstr_def lower_byte_def)

lemma ex_grant_token:
  "\<exists>ts'. Token mem_ops (ex_kctx 0 ex_pair) (ga_ts ex_gits) (UUIDString (ex_uid 1))
    = (ts', Inr \<lparr>cr_AccessToken = ''new'', cr_Expiry = Some 28800000000000\<rparr>)"
proof -
  have u: "find_user (ld_auth (tk_db (ga_ts ex_gits))) (ex_uid 1) \<noteq> None"
    by (simp add: ex_gits_def ex_links_def ex_row_def find_user_def)
  have r: "metadataRevoked (gl_Metadata (ex_link 1)) = False" by (simp add: ex_link_def grant_meta_revoked)
  have f: "fresh_cred (ex_kctx 0 ex_pair) [fieldAccessToken \<mapsto> ''old'', fieldRefreshToken \<mapsto> ''r1'', fieldAccessExpiresAt \<mapsto> ''0''] = None"
  proof -
    have "parseTime (kx_gh (ex_kctx 0 ex_pair)) ''0'' \<in> {None, Some 0}"
      by (simp add: parseTime_def ex_kctx_def ex_gh_def ex_prs_def Atoi_def atoi_digits_def Let_def digits_val_def digit_val_def)
    then show ?thesis by (auto simp: fresh_cred_def fld_def field_names ex_kctx_def ex_authctx_def refreshSkew_def)
  qed
  from u show ?thesis
    unfolding Token_eq [OF ex_kctx_ok(1) ex_uid_proper] ex_load ex_read sum.case r if_False f option.case refreshLocked_def ex_refresh
    by (simp add: fld_def field_names ex_refresh persist_pair_def Let_def mem_ops_def mem_Put_def UpsertGitHubLink_def run_stmt_def
        ex_kctx_def ex_authctx_def expiry_after_def)
qed

theorem channel_credentials_own_witness:
  "\<exists>s' c. handleCredential mem_ops (ex_ctlctx (\<lambda>_ _ _. Inr None)) (NewCtlManager [] False []) ex_gits (UUIDString (ex_uid 1)) (Some (JObj ex_cred_fields)) = (s', Inr c)
    \<and> cd_Password c = ''new'' \<and> own_github_token mem_ops (ex_kctx 0 ex_pair) (ga_ts ex_gits) (ex_uid 1) ''new'' \<and> length (ga_audit s') = 1"
proof -
  let ?k = "ex_ctlctx (\<lambda>_ _ _. Inr None)" let ?cfg = "NewCtlManager [] False []"
  let ?st = "ex_ctl_state" let ?pl = "Some (JObj ex_cred_fields)"
  have kt: "kc_tok ?k = ex_kctx 0 ex_pair" by (simp add: ex_ctlctx_def)
  have ok: "ctx_ok (kc_tok ?k)" by (simp add: kt)
  have low: "ToLower ''github.com'' = ''github.com''" by (simp add: ToLower_def lower_byte_def)
  have cfg: "cg_gitHost ?cfg = ''github.com''" "cg_publicHosts ?cfg = []" by (simp_all add: NewCtlManager_def)
  have st: "cs_git ?st = git_run mem_ops ex_gits []" by (simp add: ex_ctl_state_def git_run_def)
  obtain ts' where t: "Token mem_ops (ex_kctx 0 ex_pair) (ga_ts ex_gits) (UUIDString (ex_uid 1))
    = (ts', Inr \<lparr>cr_AccessToken = ''new'', cr_Expiry = Some 28800000000000\<rparr>)" using ex_grant_token by blast
  have "\<exists>c. resolve_credential mem_ops ?k ?cfg (ga_ts ex_gits) (UUIDString (ex_uid 1)) ''github.com'' = (ts', Inr c) \<and> cd_Password c = ''new''"
    unfolding resolve_credential_def kt t cfg by simp
  then obtain c where c: "resolve_credential mem_ops ?k ?cfg (ga_ts ex_gits) (UUIDString (ex_uid 1)) ''github.com'' = (ts', Inr c)" "cd_Password c = ''new''"
    by blast
  obtain s' where h: "handleCredential mem_ops ?k ?cfg ex_gits (UUIDString (ex_uid 1)) ?pl = (s', Inr c)"
    unfolding handleCredential_def ex_cred_request option.case prod.case low c(1) by simp
  then have h': "handleCredential mem_ops ?k ?cfg (cs_git ?st) (UUIDString (ex_uid 1)) ?pl = (s', Inr c)" by (simp add: ex_ctl_state_def)
  have "ac_fault (kx_stmt (kc_tok ?k)) ''InsertAuditLog'' = None" by (simp add: kt ex_kctx_def ex_authctx_def)
  with channel_credentials_own [OF mem.secret_store_axioms ex_gits_ok _ ex_uid_proper _ ok st h']
  have "own_github_token mem_ops (ex_kctx 0 ex_pair) (ga_ts ex_gits) (ex_uid 1) ''new''" "length (ga_audit s') = 1"
    using c(2) by (auto simp: kt cfg ex_ctl_state_def ex_gits_def)
  with h c(2) show ?thesis by blast
qed

end
