(* ===== verification/Task_Claims.thy ===== *)
theory Task_Claims
  imports Task_Lifecycle Channel_Claims
begin

text \<open>
  What the project and task APIs promise: whose machines their requests reach, what a clone can make
  a guest do, and how a task lives on through requests and messages.
\<close>

section \<open>Clones\<close>

lemma name_char_slash [simp]: "\<not> name_char (CHR ''/'')"
  by (simp add: name_char_def is_alnum_def is_letter_def is_digit_def is_lower_def is_upper_def)

lemma no_slash: "list_all name_char w \<Longrightarrow> CHR ''/'' \<notin> set w"
  by (auto simp: list_all_iff)

definition repo_name :: "string \<Rightarrow> bool" where
  "repo_name w = (w \<noteq> [] \<and> list_all name_char w \<and> w \<noteq> ''.'' \<and> w \<noteq> ''..'')"

lemma validFullName_parts:
  assumes "validFullName s"
  shows "\<exists>owner repo. s = owner @ ''/'' @ repo \<and> repo_name owner \<and> repo_name repo"
proof -
  have plus: "lang (Plus (Cls p)) = {w. w \<noteq> [] \<and> list_all p w}" for p
  proof -
    have "lang (Plus (Cls p)) = {x @ y |x y. (\<exists>c. x = [c] \<and> p c) \<and> list_all p y}"
      unfolding Plus_def lang.simps(4) lang_Star_Cls by simp
    moreover have "{x @ y |x y. (\<exists>c. x = [c] \<and> p c) \<and> list_all p y} = {w. w \<noteq> [] \<and> list_all p w}"
    proof (intro set_eqI iffI)
      fix w assume "w \<in> {w. w \<noteq> [] \<and> list_all p w}"
      then obtain a v where w: "w = [a] @ v" "p a" "list_all p v" by (cases w) auto
      show "w \<in> {x @ y |x y. (\<exists>c. x = [c] \<and> p c) \<and> list_all p y}"
        by (intro CollectI exI [of _ "[a]"] exI [of _ v]) (use w in simp)
    qed auto
    ultimately show ?thesis by simp
  qed
  have "s \<in> lang fullNameRe" using assms by (simp add: validFullName_def MatchString_iff)
  then obtain owner repo where s: "s = owner @ ''/'' @ repo" "owner \<noteq> []" "list_all name_char owner" "repo \<noteq> []" "list_all name_char repo"
    unfolding fullNameRe_def lang.simps(4) plus by (auto simp: Lit_def)
  have "split_char CHR ''/'' s = [owner, repo]"
    using split_char_single [OF no_slash [OF s(3)]] split_char_single [OF no_slash [OF s(5)]] by (simp add: s(1) split_char_sep)
  with assms s show ?thesis by (auto simp: validFullName_def repo_name_def)
qed

lemma repoDir_of: "repo_name repo \<Longrightarrow> repoDir (owner @ ''/'' @ repo) = repo"
  using no_slash [of repo] by (simp add: repoDir_def repo_name_def takeWhile_append)

lemma dest_accepted:
  assumes "repo_name repo"
  shows "validateDest ''/workspace'' (''/workspace/'' @ repo) = None"
proof -
  have n: "CHR ''/'' \<notin> set repo" using assms no_slash by (simp add: repo_name_def)
  have "split_char CHR ''/'' (''/workspace/'' @ repo) = [[], ''workspace'', repo]"
    using split_char_sep [of "CHR ''/''" "[]" "''workspace/'' @ repo"] split_char_sep [of "CHR ''/''" "''workspace''" repo] split_char_single [OF n] by simp
  then have "Clean (''/workspace/'' @ repo) = ''/workspace/'' @ repo"
    using assms by (simp add: Clean_def rooted_path_def clean_elems_def clean_push_def repo_name_def)
  moreover have "Clean ''/workspace'' = ''/workspace''"
    by (simp add: Clean_def rooted_path_def clean_elems_def clean_push_def)
  ultimately show ?thesis by (simp add: validateDest_def HasPrefix_def)
qed

lemma clone_target_host:
  assumes "clone_target k body = Inr (hst, fullName)"
  shows "validFullName fullName" "hst \<in> {pc_gitHost k, ToLower (pc_gitHost k)} \<union> set (pc_publicHosts k)"
  using assms by (auto simp: clone_target_def parseCloneURL_def Let_def split: option.splits prod.splits if_splits sum.splits url_error.splits)

lemma dec_enc_GitClone: "dec_payload dec_GitClone (Some (JObj (enc_GitClone url dst i))) = Some (url, dst, i)"
  by (simp add: dec_payload_def dec_struct_def dec_GitClone_def enc_GitClone_def dec_str_def dec_field_def field_vals_def jstr_def lower_byte_def)

text \<open>
  C7. A clone is pinned. Whatever URL or name a user sends, a clone request that reaches a guest goes
  to a running machine of this user, its URL is \<open>https://host/owner/repo.git\<close> with a configured host,
  and \<open>owner\<close> and \<open>repo\<close> are single names of letters, digits, \<open>_\<close>, \<open>.\<close> and \<open>-\<close> other than \<open>.\<close> and
  \<open>..\<close>; nothing else of the input is in it. The destination is the directory of that name directly
  under \<open>/workspace\<close>, and a guest that works there accepts the request and starts exactly this clone.
\<close>

theorem clone_pinned:
  assumes "fst (handleGitClone k s (Some u) mach body) = s'" "cs_calls s' \<noteq> cs_calls s"
  shows "\<exists>mid hst owner repo url pl. cs_calls s' = cs_calls s @ [(mid, OpGitClone, pl)]
    \<and> own_machine s u mid \<and> HasChannel (cs_mgr s) mid
    \<and> hst \<in> {pc_gitHost k, ToLower (pc_gitHost k)} \<union> set (pc_publicHosts k) \<and> repo_name owner \<and> repo_name repo
    \<and> url = ''https://'' @ hst @ ''/'' @ owner @ ''/'' @ repo @ ''.git''
    \<and> (\<forall>g m. gx_workDir (gc_git g) = ''/workspace'' \<longrightarrow>
         guest_handle g m OpGitClone pl = (go_job m (CloneJob url (''/workspace/'' @ repo) (pc_opID k)), Inr NoBody))"
proof -
  obtain hst fn where t: "clone_target k body = Inr (hst, fn)"
    using assms by (cases "clone_target k body") (auto simp: handleGitClone_def authed_def)
  obtain mid where m: "resolveWorktreeMachine (pc_ctl k) s u mach = Inr mid"
    using assms t by (cases "resolveWorktreeMachine (pc_ctl k) s u mach") (auto simp: handleGitClone_def authed_def)
  obtain owner repo where n: "fn = owner @ ''/'' @ repo" "repo_name owner" "repo_name repo"
    using validFullName_parts [OF clone_target_host(1) [OF t]] by blast
  let ?url = "''https://'' @ hst @ ''/'' @ owner @ ''/'' @ repo @ ''.git''"
  let ?pl = "Some (JObj (enc_GitClone ?url (''/workspace/'' @ repo) (pc_opID k)))"
  have args: "clone_url hst fn = ?url" "clone_dest fn = ''/workspace/'' @ repo"
    using repoDir_of [OF n(3), of owner] by (simp_all add: clone_url_def clone_dest_def n(1))
  obtain s1 r where c: "Ctl_Clone (pc_ctl k) s mid (clone_url hst fn) (clone_dest fn) (pc_opID k) = (s1, r)" by fastforce
  then have "s1 = fst (ask (pc_ctl k) s mid OpGitClone (enc_GitClone ?url (''/workspace/'' @ repo) (pc_opID k)))"
    unfolding args using fst_acked by (metis Ctl_Clone_def fst_conv)
  moreover have "cs_calls s' = cs_calls s1"
    using assms(1) by (auto simp: handleGitClone_def authed_def t m c split: sum.splits call_error.splits)
  ultimately have calls: "cs_calls s' = cs_calls s @ [(mid, OpGitClone, ?pl)]"
    using worktree_owned(2) [OF m] by (simp add: ask_state)
  have "guest_handle g mm OpGitClone ?pl = (go_job mm (CloneJob ?url (''/workspace/'' @ repo) (pc_opID k)), Inr NoBody)"
    if "gx_workDir (gc_git g) = ''/workspace''" for g mm
    unfolding guest_handle_def handle_clone_def dec_enc_GitClone using dest_accepted [OF n(3)] that by (simp add: ops)
  then show ?thesis using calls worktree_owned [OF m] clone_target_host(2) [OF t] n(2,3) by blast
qed

text \<open>A world for the properties: a running machine of user 1 with a channel.\<close>

definition ex_mach :: machine where
  "ex_mach = \<lparr>m_ID = ex_uid 5, m_UserID = ex_uid 1, m_State = StateRunning, m_HostID = ex_uid 9, m_VmHandle = None,
     m_GuestIp = None, m_KernelRef = [], m_RootfsRef = [], m_ResourceSpec = [], m_LastError = None, m_LastActiveAt = None,
     m_CreatedAt = 1, m_UpdatedAt = 1, m_DiskID = None, m_Boot = None, m_Name = ''machine-1'', m_TemplateID = None\<rparr>"

definition ex_world :: "mem_state ctl_state" where
  "ex_world = ex_ctl_state\<lparr>cs_db := (cs_db ex_ctl_state)\<lparr>t_machines := [ex_mach]\<rparr>, cs_mgr := setConn new_mgr (UUIDString (ex_uid 5)) 0\<rparr>"

definition ex_apictx :: apictx where
  "ex_apictx = \<lparr>pc_ctl = ex_ctlctx (\<lambda>_ _ _. Inr None), pc_retry = ex_kctx 0 ex_pair, pc_gitHost = ''github.com'', pc_publicHosts = [],
     pc_gitea = None, pc_url = (\<lambda>_. None), pc_opID = ''op1'', pc_slug = []\<rparr>"

lemma ex_target: "clone_target ex_apictx (Some (''o/r'', [])) = Inr (''github.com'', ''o/r'')"
proof -
  have "validFullName ''o/r''" by code_simp
  then show ?thesis by (simp add: clone_target_def ex_apictx_def)
qed

lemma ex_resolved: "resolveWorktreeMachine (pc_ctl ex_apictx) ex_world (ex_row 1) [] = Inr (UUIDString (ex_uid 5))"
proof -
  have "us_ID (ex_row 1) = ex_uid 1" by (simp add: ex_row_def)
  then show ?thesis
    by (simp add: resolveWorktreeMachine_def resolveTerminalMachine_def only_machine_def ListMachinesByUserID_def run_query_def
        ex_apictx_def ex_ctlctx_def ex_dbctx_def ex_world_def ex_ctl_state_def ex_mach_def HasChannel_def getConn_def setConn_def del: ex_uid_12)
qed

lemma ex_clone_calls: "cs_calls (fst (handleGitClone ex_apictx ex_world (Some (ex_row 1)) [] (Some (''o/r'', [])))) \<noteq> cs_calls ex_world"
proof -
  obtain s1 r where c: "Ctl_Clone (pc_ctl ex_apictx) ex_world (UUIDString (ex_uid 5)) (clone_url ''github.com'' ''o/r'') (clone_dest ''o/r'') (pc_opID ex_apictx) = (s1, r)"
    by fastforce
  then have "s1 = fst (ask (pc_ctl ex_apictx) ex_world (UUIDString (ex_uid 5)) OpGitClone
      (enc_GitClone (clone_url ''github.com'' ''o/r'') (clone_dest ''o/r'') (pc_opID ex_apictx)))"
    using fst_acked by (metis Ctl_Clone_def fst_conv)
  then have "cs_calls s1 \<noteq> cs_calls ex_world" using worktree_owned(2) [OF ex_resolved] by (simp add: ask_state)
  then show ?thesis
    unfolding handleGitClone_def authed_def option.case ex_target sum.case prod.case ex_resolved c
    by (simp split: sum.split call_error.split)
qed

theorem clone_pinned_witness:
  "\<exists>s' mid owner repo url pl. fst (handleGitClone ex_apictx ex_world (Some (ex_row 1)) [] (Some (''o/r'', []))) = s'
    \<and> cs_calls s' = [(mid, OpGitClone, pl)] \<and> url = ''https://'' @ ''github.com'' @ ''/'' @ owner @ ''/'' @ repo @ ''.git'' \<and> repo_name owner \<and> repo_name repo"
proof -
  let ?s' = "fst (handleGitClone ex_apictx ex_world (Some (ex_row 1)) [] (Some (''o/r'', [])))"
  have c0: "cs_calls ex_world = []" by (simp add: ex_world_def ex_ctl_state_def)
  from clone_pinned [OF refl ex_clone_calls] obtain mid hst owner repo url pl where
    "cs_calls ?s' = [(mid, OpGitClone, pl)]" "hst \<in> {pc_gitHost ex_apictx, ToLower (pc_gitHost ex_apictx)} \<union> set (pc_publicHosts ex_apictx)"
    "repo_name owner" "repo_name repo" "url = ''https://'' @ hst @ ''/'' @ owner @ ''/'' @ repo @ ''.git''"
    unfolding c0 append_Nil by blast
  moreover have "ToLower ''github.com'' = ''github.com''" by (simp add: ToLower_def lower_byte_def)
  ultimately show ?thesis unfolding ex_apictx_def by auto
qed

section \<open>Whose machines are reached\<close>

text \<open>
  C4. A request reaches only machines of its user. Whatever a user sends to the project and task
  APIs, and whatever the guests answer, the handler sends nothing, or it sends to a single machine
  that belongs to this user and has a live channel: a listing of its projects, after it at most one
  request that carries the path of a project of this very listing, or one clone or one cancel.
\<close>

theorem requests_own_machines:
  assumes "api_exec S x (Some u) op s = Some s'"
  shows "\<exists>new. cs_calls s' = cs_calls s @ new \<and> (new = [] \<or> (\<exists>mid. own_machine s u mid \<and> HasChannel (cs_mgr s) mid
    \<and> (new = [list_call mid] \<or> (\<exists>c. new = [list_call mid, c] \<and> project_call (xc_ctl x) s mid c)
      \<or> (\<exists>op pl. new = [(mid, op, pl)] \<and> op \<in> {OpGitClone, OpAgentCancel}))))"
  using api_exec_sends [OF assms] unfolding sends_own_def calls_of_def by blast

definition ex_taskctx :: taskctx where
  "ex_taskctx = \<lparr>xc_api = ex_apictx, xc_provider = (\<lambda>_. None), xc_inject = None, xc_newID = ex_uid 7\<rparr>"

theorem requests_own_machines_witness:
  "\<exists>s' mid op pl. api_exec mem_ops ex_taskctx (Some (ex_row 1)) (ReqClone [] (Some (''o/r'', []))) ex_world = Some s'
    \<and> cs_calls s' \<noteq> cs_calls ex_world \<and> own_machine ex_world (ex_row 1) mid"
proof -
  obtain s' where s': "api_exec mem_ops ex_taskctx (Some (ex_row 1)) (ReqClone [] (Some (''o/r'', []))) ex_world = Some s'"
    "s' = fst (handleGitClone ex_apictx ex_world (Some (ex_row 1)) [] (Some (''o/r'', [])))" by (simp add: ex_taskctx_def)
  from requests_own_machines [OF s'(1)] ex_clone_calls [folded s'(2)] s'(1) show ?thesis by fastforce
qed

section \<open>The life of a task\<close>


definition ex_finished :: agent_task where
  "ex_finished = \<lparr>at_ID = ex_uid 7, at_MachineID = ex_uid 5, at_UserID = ex_uid 1, at_Provider = ''claude'', at_Project = ''app'',
     at_Prompt = ''fix'', at_Status = ''done'', at_AgentSessionID = ''s1'', at_Usage = ''{}'', at_ResultSummary = [], at_Error = [],
     at_CreatedAt = 1, at_StartedAt = Some 1, at_EndedAt = Some 2\<rparr>"

definition ex_queued :: agent_task where
  "ex_queued = ex_finished\<lparr>at_ID := ex_uid 8, at_Status := ''queued'', at_EndedAt := None\<rparr>"

definition ex_done_state :: "mem_state ctl_state" where
  "ex_done_state = ex_world\<lparr>cs_db := (cs_db ex_world)\<lparr>t_tasks := [ex_finished, ex_queued]\<rparr>, cs_hub := None\<rparr>"

definition ex_done_fields :: "(string \<times> json) list" where
  "ex_done_fields = [jstr ''task_id'' (UUIDString (ex_uid 8)), jbool ''ok'' True]"

lemma ex_done: "dec_payload dec_AgentDone (Some (JObj ex_done_fields)) = Some \<lparr>ad_TaskID = UUIDString (ex_uid 8), ad_OK = True,
    ad_Canceled = False, ad_SessionID = [], ad_Summary = [], ad_CostUSD = [], ad_NumTurns = 0, ad_DurationMS = 0, ad_Error = []\<rparr>"
  by (simp add: dec_payload_def dec_struct_def dec_AgentDone_def dec_str_def dec_bool_def dec_int_def dec_field_def field_vals_def
      ex_done_fields_def jstr_def jbool_def lower_byte_def)

lemma ex_uid_78 [simp]: "ex_uid 7 \<noteq> ex_uid 8" "ex_uid 8 \<noteq> ex_uid 7"
  by (simp_all add: ex_uid_def)


end
