(* ===== verification/Spec2Isabelle.thy ===== *)
theory Spec2Isabelle
  imports Machine_Claims Lifecycle_Claims Poller_Claims Component_Claims Hub_Claims Git_Connect_Claims
    Node_Claims Guest_Claims Firewall_Claims Api_Claims Auth_Claims
    Ctl_Claims Guest_Ctl_Claims Remote_Claims
begin

text \<open>
  ProteOS runs persistent virtual machines for coding agents. A control plane (\<open>src/controlplane\<close>)
  owns the users, their machines and their secrets in a relational store and a secret store; a node
  agent (\<open>src/nodeagent\<close>) on each host runs the virtual machines; a guest agent
  (\<open>src/guestagent\<close>) inside each machine serves terminals, git operations and coding agents over a
  control channel the control plane dials through the node agent. This library models those three
  programs operation by operation and proves what they promise each other. The properties C1 to C40
  are the theorems whose text starts with that number, in the theories named \<open>*_Claims\<close>; all other
  theories hold definitions and the lemmas the properties rest on.

  \<^bold>\<open>Vocabulary.\<close> \<open>Go_Prelude\<close> (errors as values, 64-bit integers with their wrap-around, decimal and
  hexadecimal text, tables as lists of rows), \<open>Go_Strings\<close>, \<open>Go_Regexp\<close> (derivatives, with the
  language of each expression), \<open>Go_Path\<close> (\<open>path.Clean\<close> and containment), \<open>Go_Base64\<close>, \<open>Go_Json\<close>
  (documents and struct decoding), \<open>Go_Channel\<close> (a heap of buffered channels and the locale \<open>fan_out\<close>
  of a publisher with bounded subscribers) model what the sources use of the language and its
  standard library.

  \<^bold>\<open>Machines.\<close> \<open>Store_Model\<close>: rows and queries of \<open>store/queries.sql.go\<close>, one function per statement.
  \<open>Machine_State\<close>: the transition table and the audited compare-and-set of \<open>machine/state.go\<close> and
  \<open>machine/transition.go\<close> (locale \<open>audited_transition\<close>). \<open>Machine_Template\<close>, \<open>Machine_NetworkPolicy\<close>,
  \<open>Machine_Scheduler\<close>, \<open>Machine_Broker\<close>, \<open>Machine_Service\<close>, \<open>Machine_Poller\<close>: the files of the same
  names under \<open>machine/\<close>; every operation takes the database and returns it, with the events it
  publishes and the calls it makes to a node agent. \<open>Machine_System\<close>, \<open>Machine_Safety\<close> and
  \<open>Machine_Behaviour\<close> are the step relation of concurrent operations and its invariants; the locale
  \<open>tenant_op\<close> states that an operation touches only its user's rows and is interpreted for the six
  operations a user can call. \<open>Task_Hub\<close> is \<open>taskevents/hub.go\<close>, the second interpretation of
  \<open>fan_out\<close>; its timers are armed or fired entries of the state.

  \<^bold>\<open>Secrets and identity.\<close> \<open>Secret_Store\<close>: the interface of \<open>secrets/secrets.go\<close> as a record of
  operations, its laws as the locale \<open>secret_store\<close>, interpreted on the memory and the file backend.
  \<open>Auth_Store\<close>, \<open>Auth_Session\<close>, \<open>Auth_Oidc\<close>, \<open>Auth_Login\<close>, \<open>Auth_Middleware\<close>, \<open>Auth_System\<close>,
  \<open>Auth_Runs\<close>: users, sessions, personal access tokens, the OpenID Connect client, login, bearer
  authentication and the guards of the HTTP routes (\<open>auth/\<close>, \<open>session/\<close>, \<open>token/\<close>, \<open>oidc/\<close>,
  \<open>httpapi/middleware.go\<close>, \<open>httpapi/tokens.go\<close>).

  \<^bold>\<open>Git credentials.\<close> \<open>Git_Links\<close>: the rows and queries of GitHub grants, host tokens and git identities.
  \<open>GitHub_Client\<close> (\<open>github/client.go\<close>) and \<open>Gitea_Client\<close> (\<open>gitea/client.go\<close>): the clients, with the
  servers' answers from the context; the paging of the repository list is a \<open>partial_function\<close>.
  \<open>GitHub_Tokens\<close> (\<open>github/tokensource.go\<close>, \<open>githost/patsource.go\<close>, \<open>callGitHub\<close>): refresh, rotation
  and revocation of a grant over the \<open>secret_store\<close> interface. \<open>Git_Connect\<close>: connecting an account
  (\<open>auth/auth.go\<close>) and the host token handlers (\<open>httpapi/githosts.go\<close>). \<open>Git_System\<close>: runs of these
  operations by several users, with the invariant \<open>git_ok\<close> that links, secrets and users agree and the
  frame lemmas per operation; \<open>Git_Claims\<close> and \<open>Git_Connect_Claims\<close> state the properties (C19, C27, C29, C30).

  \<^bold>\<open>Node agent.\<close> \<open>Agent_Api\<close>: the wire contract. \<open>Net_Addr\<close> and \<open>Node_State\<close>: the record store
  and the address allocator, whose scan is a \<open>partial_function\<close> with a proof that it returns.
  \<open>Dev_Driver\<close> and \<open>Dev_System\<close>: the development driver with its goroutines interleaved (locale
  \<open>vm_driver\<close>). \<open>Nft_Firewall\<close>: the rules of \<open>firecracker/network.go\<close> with a semantics of rule
  chains. \<open>Guest_Ports\<close>: port admission and the preview forwarder. \<open>Node_Http\<close> and \<open>Node_Client\<close>: the
  HTTP API and its client, composed over a transport that may lose a request or an answer.

  \<^bold>\<open>Guest agent.\<close> \<open>Guest_Wire\<close>: messages and validators both sides share. \<open>Guest_Term\<close>: terminal
  sessions with their scrollback. \<open>Guest_Git\<close>, \<open>Guest_Agent\<close>, \<open>Guest_Claude\<close>, \<open>Guest_Control\<close>,
  \<open>Guest_Handle\<close>: \<open>ctlchan/\<close>, with the commands given to git as a trace; \<open>Guest_Ctl_Safety\<close> and
  \<open>Guest_Cancel\<close> are the invariants of every reachable manager. \<open>Ctl_Conn\<close>: one control-channel
  session, the same code on both sides, its goroutines as interleaved events.

  \<^bold>\<open>Control channels, projects and tasks.\<close> \<open>Task_Store\<close>: the queries on headless tasks.
  \<open>Ctl_Supervise\<close> and \<open>Ctl_Manager\<close> are \<open>guestctl/manager.go\<close>: the supervisor goroutines as interleaved
  events with their invariant \<open>mgr_ok\<close>, the handler of a machine's channel, and the requests to a
  guest, which is a function of the context and whose requests are recorded in \<open>cs_calls\<close>.
  \<open>Guest_Remote\<close> puts that function and \<open>Guest_Handle\<close> together through the JSON of both sides.
  \<open>Git_Api\<close> (\<open>httpapi/git.go\<close>, \<open>httpapi/gitops.go\<close>) and \<open>Agent_Tasks\<close> (\<open>httpapi/tasks.go\<close>,
  \<open>httpapi/taskstream.go\<close>) are the HTTP handlers over that state. \<open>Task_System\<close> and \<open>Task_Lifecycle\<close>
  take all requests and messages as one type and show what a request sends (\<open>sends_own\<close>) and what a
  run does to the task table (\<open>task_step\<close>). \<open>Channel_Claims\<close> (C26), \<open>Task_Claims\<close> (C4, C7, C31) and
  \<open>Remote_Claims\<close> (C6, C28) state the properties.

  \<^bold>\<open>Modelling choices.\<close> A statement of the database, a critical section of a mutex and a request
  handler that holds its lock are atomic steps; what can interleave is a sequence of such steps,
  over which the properties quantify. What the code asks of the outside (failures of statements,
  clocks, random bytes, hashes, file errors, answers of servers and processes) comes from context
  records: \<open>dbctx\<close>, \<open>authctx\<close>, \<open>oidcctx\<close>, \<open>fsctx\<close>, \<open>netctx\<close>, \<open>devctx\<close>, \<open>dialctx\<close>, \<open>pty_os\<close>, \<open>gitctx\<close>,
  \<open>agentctx\<close>, \<open>claudectx\<close>, \<open>guestctx\<close>, \<open>ghctx\<close>, \<open>tokenctx\<close>,
  \<open>ctlctx\<close>, \<open>apictx\<close>, \<open>taskctx\<close>; no assumption is made on them except the named
  hypotheses of a property. Errors are values of a sum type, panics are \<open>None\<close> or \<open>Panic\<close>, log lines
  and metrics are dropped. Strings that travel as JSON are valid UTF-8, and \<open>strings.ToLower\<close> and
  \<open>strings.EqualFold\<close> are modelled on bytes. Instants and durations are nanoseconds. Map iteration, whose order Go
  leaves open, is over a list in the order visited.

  \<^bold>\<open>Bounds.\<close> No definition of the library needs fuel: the address scan and the paging loop are
  partial functions with proofs that they return (C35, and \<open>repo_pages_ends\<close> in \<open>GitHub_Client\<close> under
  the hypothesis that some page is short), retries recurse on the number of attempts left, every
  other loop recurses on the list it walks.

  \<^bold>\<open>Not modelled.\<close> The Firecracker driver apart from its firewall and guest dialing (process,
  jail and device control), the OpenBao backend (a service), WebSocket and TLS framing, the gateway
  (but the resolution of its machine) and the web proxies (byte copying), the pull request reads of
  \<open>github/pulls.go\<close>, the remaining thin HTTP handlers, SQL migrations, process start-up and configuration, logging
  and metrics, the command-line client, the injector, the user's provider and profile items, SSH
  keys and the web front end. The manifest lists each with its reason.
\<close>

end
